(* ===== verification/Prelude.thy ===== *)
theory Prelude
  imports Main
begin

text \<open>
  Vocabulary shared by every component: the types of the model, tables of entity rows with the
  operations the services use on them, the string helpers of the source, and two interfaces
  stated as locales. \<open>keyed_store\<close> is what a service may assume of a table that is read and
  written by key; \<open>machine\<close> is a component whose operations are its transitions, with the one
  induction that lifts an invariant of a step to every run.
\<close>

named_theorems tbl_simps \<open>rewrite rules of the table operations\<close>
named_theorems svc_defs \<open>definitions of the guards and helpers of the services\<close>

subsection \<open>Types\<close>

text \<open>Milliseconds since the epoch, as \<open>Date.now()\<close> and \<open>Date.getTime()\<close> give them.\<close>

type_synonym timestamp = int

text \<open>Identifiers (uuids, Stellar keys, CIDs) are strings in the source.\<close>

type_synonym ident = string

subsection \<open>Tables\<close>

text \<open>
  A table is the list of its rows in insertion order. \<open>tbl_find\<close> is \<open>findOne\<close> without an
  order, \<open>tbl_put\<close> is \<open>save\<close> (update of the row with the same key, insertion at the end
  otherwise), \<open>tbl_delete\<close> is \<open>delete\<close> by criterion.
\<close>

type_synonym 'r table = "'r list"

definition tbl_find :: "('r \<Rightarrow> bool) \<Rightarrow> 'r table \<Rightarrow> 'r option" where
  "tbl_find p t = List.find p t"

primrec tbl_put :: "('r \<Rightarrow> 'k) \<Rightarrow> 'r \<Rightarrow> 'r table \<Rightarrow> 'r table" where
  "tbl_put key r [] = [r]"
| "tbl_put key r (x # xs) = (if key x = key r then r # xs else x # tbl_put key r xs)"

definition tbl_delete :: "('r \<Rightarrow> bool) \<Rightarrow> 'r table \<Rightarrow> 'r table" where
  "tbl_delete p t = filter (\<lambda>r. \<not> p r) t"

definition tbl_count :: "('r \<Rightarrow> bool) \<Rightarrow> 'r table \<Rightarrow> nat" where
  "tbl_count p t = length (filter p t)"

definition tbl_ok :: "('r \<Rightarrow> 'k) \<Rightarrow> 'r table \<Rightarrow> bool" where
  "tbl_ok key t \<longleftrightarrow> distinct (map key t)"

lemma tbl_find_Nil [tbl_simps]: "tbl_find p [] = None"
  by (simp add: tbl_find_def)

lemma tbl_find_Cons [tbl_simps]: "tbl_find p (x # xs) = (if p x then Some x else tbl_find p xs)"
  by (simp add: tbl_find_def)

lemma tbl_find_SomeD: "tbl_find p t = Some r \<Longrightarrow> r \<in> set t \<and> p r"
  by (induction t) (auto simp: tbl_simps split: if_splits)

lemma tbl_find_None_iff: "tbl_find p t = None \<longleftrightarrow> (\<forall>r\<in>set t. \<not> p r)"
  by (induction t) (auto simp: tbl_simps)

lemma tbl_find_append: "tbl_find p (xs @ ys) = (case tbl_find p xs of None \<Rightarrow> tbl_find p ys | Some r \<Rightarrow> Some r)"
  by (induction xs) (auto simp: tbl_simps)

lemma tbl_find_cong: "(\<And>r. r \<in> set t \<Longrightarrow> p r = q r) \<Longrightarrow> tbl_find p t = tbl_find q t"
  by (induction t) (auto simp: tbl_simps)

text \<open>Two rows of a well formed table with the same key are the same row.\<close>

lemma tbl_ok_unique:
  "tbl_ok key t \<Longrightarrow> r \<in> set t \<Longrightarrow> r' \<in> set t \<Longrightarrow> key r = key r' \<Longrightarrow> r = r'"
  by (auto simp: tbl_ok_def distinct_map inj_on_def)

lemma tbl_find_key_eq:
  assumes "tbl_ok key t" and "r \<in> set t"
  shows "tbl_find (\<lambda>x. key x = key r) t = Some r"
proof -
  have "tbl_find (\<lambda>x. key x = key r) t \<noteq> None"
    using assms(2) by (auto simp: tbl_find_None_iff)
  then obtain x where x: "tbl_find (\<lambda>x. key x = key r) t = Some x" by blast
  with assms tbl_ok_unique [of key t x r] show ?thesis
    by (auto dest: tbl_find_SomeD)
qed

lemma set_tbl_put_subset: "set (tbl_put key r t) \<subseteq> insert r (set t)"
  by (induction t) auto

lemma tbl_put_in: "r \<in> set (tbl_put key r t)"
  by (induction t) auto

lemma set_tbl_put:
  "tbl_ok key t \<Longrightarrow> set (tbl_put key r t) = insert r {x \<in> set t. key x \<noteq> key r}"
  by (induction t) (auto simp: tbl_ok_def, (metis image_eqI)+)

lemma map_key_tbl_put:
  "map key (tbl_put key r t) = (if key r \<in> key ` set t then map key t else map key t @ [key r])"
  by (induction t) auto

lemma tbl_ok_put [tbl_simps]: "tbl_ok key t \<Longrightarrow> tbl_ok key (tbl_put key r t)"
  by (auto simp: tbl_ok_def map_key_tbl_put)

lemma tbl_ok_Nil [tbl_simps]: "tbl_ok key []"
  by (simp add: tbl_ok_def)

lemma tbl_ok_delete [tbl_simps]: "tbl_ok key t \<Longrightarrow> tbl_ok key (tbl_delete p t)"
  by (auto simp: tbl_ok_def tbl_delete_def distinct_map inj_on_def)

lemma tbl_find_put_same [tbl_simps]: "tbl_find (\<lambda>x. key x = key r) (tbl_put key r t) = Some r"
  by (induction t) (auto simp: tbl_simps)

lemma tbl_find_put_other [tbl_simps]:
  "k \<noteq> key r \<Longrightarrow> tbl_find (\<lambda>x. key x = k) (tbl_put key r t) = tbl_find (\<lambda>x. key x = k) t"
  by (induction t) (auto simp: tbl_simps)

lemma length_tbl_put:
  "length (tbl_put key r t) = (if key r \<in> key ` set t then length t else Suc (length t))"
  by (induction t) auto

lemma tbl_put_fresh: "key r \<notin> key ` set t \<Longrightarrow> tbl_put key r t = t @ [r]"
  by (induction t) auto

lemma tbl_put_put: "key r = key r' \<Longrightarrow> tbl_put key r (tbl_put key r' t) = tbl_put key r t"
  by (induction t) auto

lemma set_tbl_delete [tbl_simps]: "set (tbl_delete p t) = {r \<in> set t. \<not> p r}"
  by (auto simp: tbl_delete_def)

lemma tbl_find_delete_same [tbl_simps]: "tbl_find p (tbl_delete p t) = None"
  by (simp add: tbl_find_None_iff tbl_simps)

lemma tbl_find_delete_other:
  "(\<And>r. p r \<Longrightarrow> \<not> q r) \<Longrightarrow> tbl_find q (tbl_delete p t) = tbl_find q t"
  by (induction t) (auto simp: tbl_simps tbl_delete_def)

lemma tbl_find_put_update:
  assumes "\<And>x. key x = key r \<Longrightarrow> \<not> p x" and "\<not> p r"
  shows "tbl_find p (tbl_put key r t) = tbl_find p t"
  using assms by (induction t) (auto simp: tbl_simps)

lemma tbl_count_Nil [tbl_simps]: "tbl_count p [] = 0"
  by (simp add: tbl_count_def)

lemma tbl_count_Cons [tbl_simps]: "tbl_count p (x # xs) = (if p x then Suc (tbl_count p xs) else tbl_count p xs)"
  by (simp add: tbl_count_def)

lemma tbl_count_append [tbl_simps]: "tbl_count p (xs @ ys) = tbl_count p xs + tbl_count p ys"
  by (simp add: tbl_count_def)

lemma tbl_count_card: "tbl_ok key t \<Longrightarrow> tbl_count p t = card {r \<in> set t. p r}"
proof -
  assume "tbl_ok key t"
  then have "distinct (filter p t)" by (simp add: tbl_ok_def distinct_map)
  then have "length (filter p t) = card (set (filter p t))" by (rule distinct_card [symmetric])
  then show ?thesis by (simp add: tbl_count_def)
qed

lemma tbl_put_middle:
  "distinct (map key (us @ s # vs)) \<Longrightarrow> key s' = key s \<Longrightarrow> tbl_put key s' (us @ s # vs) = us @ s' # vs"
  by (induction us) auto

lemma tbl_put_snoc: "key r \<notin> key ` set t \<Longrightarrow> key r' = key r \<Longrightarrow> tbl_put key r' (t @ [r]) = t @ [r']"
  by (induction t) auto

lemma tbl_put_split:
  assumes "tbl_ok key t" and "r \<in> set t" and "key r' = key r"
  obtains us vs where "t = us @ r # vs" "tbl_put key r' t = us @ r' # vs"
  using assms tbl_put_middle [of key _ r _ r'] by (auto simp: tbl_ok_def dest!: split_list)

subsection \<open>Lists edited by index\<close>

text \<open>\<open>xs.splice(i, 1)\<close> and \<open>xs.splice(i, 0, x)\<close>.\<close>

definition remove_nth :: "nat \<Rightarrow> 'a list \<Rightarrow> 'a list" where
  "remove_nth i xs = take i xs @ drop (Suc i) xs"

definition insert_nth :: "nat \<Rightarrow> 'a \<Rightarrow> 'a list \<Rightarrow> 'a list" where
  "insert_nth i x xs = take i xs @ x # drop i xs"

lemma count_list_remove_nth:
  "i < length xs \<Longrightarrow> count_list (remove_nth i xs) x = count_list xs x - (if xs ! i = x then 1 else 0)"
  unfolding remove_nth_def
  by (subst (3) id_take_nth_drop [of i xs]) (auto simp: count_list_append)

lemma remove_nth_split:
  assumes "i < length xs"
  obtains us vs where "xs = us @ xs ! i # vs" "remove_nth i xs = us @ vs"
  using id_take_nth_drop [OF assms] by (auto simp: remove_nth_def)

lemma count_list_nth_pos: "i < length xs \<Longrightarrow> xs ! i = x \<Longrightarrow> 0 < count_list xs x"
  by (metis count_list_0_iff gr_zeroI nth_mem)

lemma set_insert_nth [simp]: "set (insert_nth i x xs) = insert x (set xs)"
  by (auto simp: insert_nth_def dest: in_set_takeD in_set_dropD)
    (metis Un_iff append_take_drop_id set_append)

lemma length_insert_nth [simp]: "length (insert_nth i x xs) = Suc (length xs)"
  by (simp add: insert_nth_def)

lemma nth_insert_nth: "i \<le> length xs \<Longrightarrow> insert_nth i x xs ! i = x"
  by (simp add: insert_nth_def nth_append)

text \<open>A list sorted strictly by a key is determined by its elements.\<close>

lemma sorted_wrt_set_unique:
  fixes k :: "'a \<Rightarrow> 'b::linorder"
  assumes "sorted_wrt (<) (map k xs)" and "sorted_wrt (<) (map k ys)" and "set xs = set ys"
    and "inj_on k (set xs)"
  shows "xs = ys"
proof -
  have "map k xs = map k ys"
    using assms by (intro strict_sorted_equal) auto
  with assms(3,4) show ?thesis by (metis map_inj_on sup.idem)
qed

text \<open>The index of an element of a list without repetitions.\<close>

definition index_in :: "'a list \<Rightarrow> 'a \<Rightarrow> nat" where
  "index_in xs x = length (takeWhile (\<lambda>y. y \<noteq> x) xs)"

lemma index_in_Cons: "index_in (y # ys) x = (if y = x then 0 else Suc (index_in ys x))"
  by (simp add: index_in_def)

lemma map_index_in: "distinct xs \<Longrightarrow> map (index_in xs) xs = [0..<length xs]"
proof (induction xs)
  case (Cons x xs)
  then have "map (index_in (x # xs)) xs = map (\<lambda>y. Suc (index_in xs y)) xs"
    by (auto simp: index_in_Cons)
  also have "\<dots> = map Suc (map (index_in xs) xs)" by simp
  also have "map (index_in xs) xs = [0..<length xs]" using Cons by simp
  finally show ?case by (simp add: index_in_Cons map_Suc_upt upt_conv_Cons del: upt_Suc)
qed simp

lemma inj_index_in: "distinct xs \<Longrightarrow> inj_on (index_in xs) (set xs)"
  using map_index_in [of xs] by (metis distinct_map distinct_upt)

subsection \<open>The keyed store interface\<close>

text \<open>
  What the services rely on when they read a row by its key, change it and save it again: a row
  saved is the row read back under its key, other keys are untouched, and a deleted key is gone.
\<close>

locale keyed_store =
  fixes key :: "'r \<Rightarrow> 'k"
    and lookup :: "'k \<Rightarrow> 't \<Rightarrow> 'r option"
    and store :: "'r \<Rightarrow> 't \<Rightarrow> 't"
    and erase :: "'k \<Rightarrow> 't \<Rightarrow> 't"
    and ok :: "'t \<Rightarrow> bool"
  assumes lookup_key: "lookup k t = Some r \<Longrightarrow> key r = k"
    and lookup_store_same: "lookup (key r) (store r t) = Some r"
    and lookup_store_other: "k \<noteq> key r \<Longrightarrow> lookup k (store r t) = lookup k t"
    and lookup_erase_same: "lookup k (erase k t) = None"
    and lookup_erase_other: "k \<noteq> k' \<Longrightarrow> lookup k (erase k' t) = lookup k t"
    and ok_store: "ok t \<Longrightarrow> ok (store r t)"
    and ok_erase: "ok t \<Longrightarrow> ok (erase k t)"
begin

lemma lookup_store: "lookup k (store r t) = (if k = key r then Some r else lookup k t)"
  by (auto simp: lookup_store_same lookup_store_other)

lemma lookup_erase: "lookup k (erase k' t) = (if k = k' then None else lookup k t)"
  by (auto simp: lookup_erase_same lookup_erase_other)

lemma update_in_place:
  assumes "lookup k t = Some r" and "key (f r) = key r"
  shows "lookup k (store (f r) t) = Some (f r)"
proof -
  have "key (f r) = k" using assms by (simp add: lookup_key)
  then show ?thesis using lookup_store_same [of "f r" t] by simp
qed

lemma store_keeps_others:
  assumes "lookup k t = Some r" and "key r' = k" and "k' \<noteq> k"
  shows "lookup k' (store r' t) = lookup k' t"
  using assms by (simp add: lookup_store)

lemma erase_then_lookup_None: "lookup k t = None \<Longrightarrow> lookup k (erase k' t) = None"
  by (simp add: lookup_erase)

end

text \<open>The tables of this theory provide it, for any key function.\<close>

lemma tbl_keyed_store:
  "keyed_store key (\<lambda>k. tbl_find (\<lambda>x. key x = k)) (tbl_put key) (\<lambda>k. tbl_delete (\<lambda>x. key x = k)) (tbl_ok key)"
proof unfold_locales
  fix k k' :: 'b and t :: "'a table" and r :: 'a
  show "tbl_find (\<lambda>x. key x = k) t = Some r \<Longrightarrow> key r = k"
    by (auto dest: tbl_find_SomeD)
  show "k \<noteq> k' \<Longrightarrow> tbl_find (\<lambda>x. key x = k) (tbl_delete (\<lambda>x. key x = k') t) = tbl_find (\<lambda>x. key x = k) t"
    by (rule tbl_find_delete_other) auto
qed (simp_all add: tbl_simps)

subsection \<open>Components as machines\<close>

text \<open>
  A component's operations, as a step function over its state, and an invariant every operation
  keeps. \<open>run_ok\<close> is the induction over a sequence of operations, done once.
\<close>

locale machine =
  fixes step :: "'e \<Rightarrow> 's \<Rightarrow> 's"
    and ok :: "'s \<Rightarrow> bool"
  assumes step_ok: "ok s \<Longrightarrow> ok (step e s)"
begin

lemma run_ok: "ok s \<Longrightarrow> ok (fold step es s)"
  by (induction es arbitrary: s) (auto intro: step_ok)

lemma run_prefix_ok: "ok s \<Longrightarrow> ok (fold step (take n es) s)"
  by (rule run_ok)

end

subsection \<open>Strings\<close>

text \<open>\<open>String.prototype.trim\<close> on the characters HOL's \<open>char\<close> can hold (code units below 256).\<close>

definition js_space :: "char \<Rightarrow> bool" where
  "js_space c \<longleftrightarrow> of_char c \<in> {9, 10, 11, 12, 13, 32, 160 :: nat}"

definition js_trim :: "string \<Rightarrow> string" where
  "js_trim s = rev (dropWhile js_space (rev (dropWhile js_space s)))"

text \<open>\<open>String.prototype.toLowerCase\<close>, on ASCII letters.\<close>

definition ascii_lower :: "string \<Rightarrow> string" where
  "ascii_lower s = map (\<lambda>c. if 65 \<le> (of_char c :: nat) \<and> (of_char c :: nat) \<le> 90
                              then char_of ((of_char c :: nat) + 32) else c) s"

text \<open>\<open>!x || !x.trim()\<close> on a string field.\<close>

definition js_blank :: "string \<Rightarrow> bool" where
  "js_blank s \<longleftrightarrow> js_trim s = []"

text \<open>Truthiness of an optional string: \<open>undefined\<close>, \<open>null\<close> and \<open>''\<close> are falsy.\<close>

definition truthy :: "string option \<Rightarrow> bool" where
  "truthy s = (case s of None \<Rightarrow> False | Some v \<Rightarrow> v \<noteq> [])"

text \<open>\<open>s || undefined\<close> and \<open>s || null\<close>.\<close>

definition or_none :: "string option \<Rightarrow> string option" where
  "or_none s = (if truthy s then s else None)"

lemma dropWhile_dropWhile_idem [simp]: "dropWhile p (dropWhile p xs) = dropWhile p xs"
  by (induction xs) auto

lemma dropWhile_rev_dropWhile:
  "dropWhile p (rev (dropWhile p (rev (dropWhile p xs)))) = rev (dropWhile p (rev (dropWhile p xs)))"
proof (cases "dropWhile p (rev (dropWhile p xs))")
  case Nil
  show ?thesis unfolding Nil by simp
next
  case (Cons a as)
  have "dropWhile p xs \<noteq> []" using Cons by (cases "dropWhile p xs") auto
  then obtain y ys where ys: "dropWhile p xs = y # ys" "\<not> p y"
    using hd_dropWhile [of p xs] by (cases "dropWhile p xs") auto
  have "\<exists>zs. rev (dropWhile p (rev (y # ys))) = y # zs"
    using ys(2)
    by (auto simp: dropWhile_append intro!: exI [of _ "rev (dropWhile p (rev ys))"])
  then obtain zs where "rev (dropWhile p (rev (y # ys))) = y # zs" by blast
  then show ?thesis unfolding ys(1) by (simp add: ys(2))
qed

lemma js_trim_idem [simp]: "js_trim (js_trim s) = js_trim s"
  unfolding js_trim_def by (simp add: dropWhile_rev_dropWhile)

lemma js_blank_trim [simp]: "js_blank (js_trim s) = js_blank s"
  by (simp add: js_blank_def)

text \<open>Decimal rendering of a number in a template string, and \<open>Array.prototype.join\<close>.\<close>

fun nat_str :: "nat \<Rightarrow> string" where
  "nat_str n = (if n < 10 then [char_of (48 + n)] else nat_str (n div 10) @ [char_of (48 + n mod 10)])"

declare nat_str.simps [simp del]

definition int_str :: "int \<Rightarrow> string" where
  "int_str i = (if i < 0 then CHR ''-'' # nat_str (nat (- i)) else nat_str (nat i))"

fun join_with :: "string \<Rightarrow> string list \<Rightarrow> string" where
  "join_with sep [] = []"
| "join_with sep [x] = x"
| "join_with sep (x # y # xs) = x @ sep @ join_with sep (y # xs)"

text \<open>\<open>Math.ceil(a / b)\<close> for integers with a positive divisor.\<close>

definition ceil_div :: "int \<Rightarrow> int \<Rightarrow> int" where
  "ceil_div a b = - ((- a) div b)"

text \<open>The pages of a list, one after the other, are the list.\<close>

lemma pages_append: "concat (map (\<lambda>p. take l (drop (p * l) xs)) [0..<n]) = take (n * l) xs"
proof (induction n)
  case (Suc n)
  then show ?case by (simp add: take_add [symmetric] add.commute)
qed simp

lemma pages_cover: "length xs \<le> n * l \<Longrightarrow> concat (map (\<lambda>p. take l (drop (p * l) xs)) [0..<n]) = xs"
  by (simp add: pages_append)

lemma ceil_div_mult: "0 < l \<Longrightarrow> n \<le> nat (ceil_div (int n) (int l)) * l"
proof -
  assume l: "0 < l"
  have "int n \<le> int l * ceil_div (int n) (int l)"
    unfolding ceil_div_def using l mult_div_mod_eq [of "int l" "- int n"] pos_mod_sign [of "int l" "- int n"]
    unfolding mult_minus_right by linarith
  then have "int n \<le> int l * int (nat (ceil_div (int n) (int l)))"
    using mult_left_mono [of "ceil_div (int n) (int l)" "int (nat (ceil_div (int n) (int l)))" "int l"] by linarith
  then show ?thesis by (simp only: of_nat_mult [symmetric] of_nat_le_iff mult.commute)
qed

subsection \<open>Numbers read from the database\<close>

text \<open>
  The Postgres driver hands an integer column to JavaScript as a number, but a \<open>bigint\<close> column as
  the string of its digits (the doc of \<open>IndexedEvent.ingestSeq\<close> says so). The entities declare such
  columns as \<open>number\<close>, so \<open>+\<close> on a value read back concatenates and \<open>===\<close> to a number is false,
  while \<open>-\<close>, \<open><\<close>, \<open>>\<close> and \<open>Math.max\<close> convert. \<open>Digits i\<close> is the string of \<open>i\<close>.
\<close>

datatype js_num = Num int | Digits int

fun num_of :: "js_num \<Rightarrow> int" where
  "num_of (Num i) = i"
| "num_of (Digits i) = i"

text \<open>\<open>x + n\<close> for a number \<open>n \<ge> 0\<close>.\<close>

fun js_plus :: "js_num \<Rightarrow> int \<Rightarrow> js_num" where
  "js_plus (Num i) n = Num (i + n)"
| "js_plus (Digits i) n =
     (let shifted = \<bar>i\<bar> * 10 ^ length (int_str n) + n in Digits (if i < 0 then - shifted else shifted))"

text \<open>\<open>n === x\<close> for a number \<open>n\<close>.\<close>

fun js_same :: "int \<Rightarrow> js_num \<Rightarrow> bool" where
  "js_same n (Num i) = (n = i)"
| "js_same n (Digits i) = False"

end
