(* ===== verification/AppErrors.thy ===== *)
theory AppErrors
  imports Prelude
begin

text \<open>
  The error values of the backend. \<open>app_error\<close> is \<open>AppError\<close> of \<open>errors/AppError.ts\<close> with its
  static constructors; \<open>js_error\<close> is whatever a \<open>throw\<close> may carry; \<open>handleError\<close> and
  \<open>handleOnChainError\<close> (\<open>utils/helpers.ts\<close>) turn one into the HTTP response, the second through
  the rule table of \<open>types/OnChainErrorCodes.ts\<close>. Services return \<open>js_error + 'a\<close> beside the state
  they leave, so a write made before a \<open>throw\<close> stays in the state.
\<close>

subsection \<open>AppError\<close>

datatype error_type =
    VALIDATION_FAILED | UNAUTHORIZED | FORBIDDEN | NOT_FOUND | CONFLICT
  | BUSINESS_LOGIC_ERROR | EXTERNAL_SERVICE_ERROR | DATABASE_ERROR | INTERNAL_ERROR | RATE_LIMITED

fun error_type_str :: "error_type \<Rightarrow> string" where
  "error_type_str VALIDATION_FAILED = ''VALIDATION_FAILED''"
| "error_type_str UNAUTHORIZED = ''UNAUTHORIZED''"
| "error_type_str FORBIDDEN = ''FORBIDDEN''"
| "error_type_str NOT_FOUND = ''NOT_FOUND''"
| "error_type_str CONFLICT = ''CONFLICT''"
| "error_type_str BUSINESS_LOGIC_ERROR = ''BUSINESS_LOGIC_ERROR''"
| "error_type_str EXTERNAL_SERVICE_ERROR = ''EXTERNAL_SERVICE_ERROR''"
| "error_type_str DATABASE_ERROR = ''DATABASE_ERROR''"
| "error_type_str INTERNAL_ERROR = ''INTERNAL_ERROR''"
| "error_type_str RATE_LIMITED = ''RATE_LIMITED''"

text \<open>
  \<open>ErrorDetails\<close> is a record of named values; the optional \<open>details\<close> of an error is absent, one
  such record or an array of them.
\<close>

datatype detail_value = DStr string | DNum int | DStrs "string list"

type_synonym error_details = "(string \<times> detail_value) list"

datatype details = NoDetails | OneDetail error_details | ManyDetails "error_details list"

record app_error =
  ae_message :: string
  ae_type :: error_type
  ae_code :: string
  ae_statusCode :: int
  ae_isOperational :: bool
  ae_details :: details

text \<open>The constructor: \<open>code\<close> defaults to the type.\<close>

definition new_AppError ::
  "string \<Rightarrow> error_type \<Rightarrow> int \<Rightarrow> bool \<Rightarrow> details \<Rightarrow> string option \<Rightarrow> app_error" where
  "new_AppError msg ty status operational det code =
     \<lparr>ae_message = msg, ae_type = ty,
      ae_code = (case code of None \<Rightarrow> error_type_str ty | Some c \<Rightarrow> c),
      ae_statusCode = status, ae_isOperational = operational, ae_details = det\<rparr>"

definition AE_validation :: "string \<Rightarrow> details \<Rightarrow> string option \<Rightarrow> app_error" where
  "AE_validation msg det code = new_AppError msg VALIDATION_FAILED 400 True det code"

definition AE_authentication :: "string \<Rightarrow> details \<Rightarrow> string option \<Rightarrow> app_error" where
  "AE_authentication msg det code = new_AppError msg UNAUTHORIZED 401 True det code"

definition AE_authorization :: "string \<Rightarrow> details \<Rightarrow> string option \<Rightarrow> app_error" where
  "AE_authorization msg det code = new_AppError msg FORBIDDEN 403 True det code"

definition AE_notFound :: "string \<Rightarrow> details \<Rightarrow> string option \<Rightarrow> app_error" where
  "AE_notFound msg det code = new_AppError msg NOT_FOUND 404 True det code"

definition AE_conflict :: "string \<Rightarrow> details \<Rightarrow> string option \<Rightarrow> app_error" where
  "AE_conflict msg det code = new_AppError msg CONFLICT 409 True det code"

definition AE_businessLogic :: "string \<Rightarrow> details \<Rightarrow> string option \<Rightarrow> app_error" where
  "AE_businessLogic msg det code = new_AppError msg BUSINESS_LOGIC_ERROR 400 True det code"

definition AE_externalService :: "string \<Rightarrow> details \<Rightarrow> string option \<Rightarrow> app_error" where
  "AE_externalService msg det code = new_AppError msg EXTERNAL_SERVICE_ERROR 502 True det code"

definition AE_database :: "string \<Rightarrow> details \<Rightarrow> string option \<Rightarrow> app_error" where
  "AE_database msg det code = new_AppError msg DATABASE_ERROR 500 True det code"

definition AE_rateLimited :: "string \<Rightarrow> details \<Rightarrow> string option \<Rightarrow> app_error" where
  "AE_rateLimited msg det code = new_AppError msg RATE_LIMITED 429 True det code"

lemmas AE_defs =
  AE_validation_def AE_authentication_def AE_authorization_def AE_notFound_def AE_conflict_def
  AE_businessLogic_def AE_externalService_def AE_database_def AE_rateLimited_def new_AppError_def

text \<open>\<open>toResponseBody\<close>: \<open>details\<close> appears only when it is set.\<close>

record wire_error =
  we_code :: string
  we_message :: string
  we_details :: details

definition toResponseBody :: "app_error \<Rightarrow> wire_error" where
  "toResponseBody e = \<lparr>we_code = ae_code e, we_message = ae_message e, we_details = ae_details e\<rparr>"

subsection \<open>Thrown values and service results\<close>

text \<open>
  What a \<open>throw\<close> carries: an \<open>AppError\<close>, a plain \<open>Error\<close> with the \<open>statusCode\<close> some services
  attach with \<open>Object.assign\<close>, a string, or any other value.
\<close>

datatype js_error =
    AppErr app_error
  | PlainErr string "int option"
  | StringErr string
  | OtherErr

type_synonym ('s, 'a) service = "'s \<Rightarrow> (js_error + 'a) \<times> 's"

abbreviation err_validation :: "string \<Rightarrow> string \<Rightarrow> js_error" where
  "err_validation msg code \<equiv> AppErr (AE_validation msg NoDetails (Some code))"

abbreviation err_notFound :: "string \<Rightarrow> string \<Rightarrow> js_error" where
  "err_notFound msg code \<equiv> AppErr (AE_notFound msg NoDetails (Some code))"

abbreviation err_authorization :: "string \<Rightarrow> string \<Rightarrow> js_error" where
  "err_authorization msg code \<equiv> AppErr (AE_authorization msg NoDetails (Some code))"

fun error_message :: "js_error \<Rightarrow> string" where
  "error_message (AppErr e) = ae_message e"
| "error_message (PlainErr m _) = m"
| "error_message (StringErr m) = m"
| "error_message OtherErr = ''[object Object]''"

text \<open>\<open>validateRequired\<close> of \<open>validators/ServiceValidator.ts\<close>, on a string argument.\<close>

definition validateRequired :: "string option \<Rightarrow> string \<Rightarrow> js_error option" where
  "validateRequired v field =
     (if truthy v then None
      else Some (AppErr (AE_validation (field @ '' is required'') (OneDetail [(''field'', DStr field)]) None)))"

text \<open>What the driver reports for a row that leaves a required column unset.\<close>

definition not_null_error :: js_error where
  "not_null_error = PlainErr ''null value violates not-null constraint'' None"

text \<open>What the driver reports for a row that violates a unique constraint, and inserting such a row.\<close>

definition duplicate_key_error :: js_error where
  "duplicate_key_error = PlainErr ''duplicate key value violates unique constraint'' None"

definition insert_row :: "('r \<Rightarrow> 'k) \<Rightarrow> 'r \<Rightarrow> ('r table, 'r) service" where
  "insert_row key r t =
     (if key r \<in> key ` set t then (Inl duplicate_key_error, t) else (Inr r, t @ [r]))"

lemma tbl_ok_insert_row [tbl_simps]: "tbl_ok key t \<Longrightarrow> tbl_ok key (snd (insert_row key r t))"
  by (auto simp: insert_row_def tbl_ok_def)

subsection \<open>handleError\<close>

record http_error =
  he_status :: int
  he_message :: string
  he_type :: string
  he_details :: details

definition handleError :: "bool \<Rightarrow> js_error \<Rightarrow> http_error" where
  "handleError isDev err =
     (case err of
        AppErr e \<Rightarrow>
          \<lparr>he_status = ae_statusCode e, he_message = ae_message e,
           he_type = error_type_str (ae_type e), he_details = ae_details e\<rparr>
      | PlainErr m _ \<Rightarrow>
          \<lparr>he_status = 400, he_message = (if isDev then m else ''Bad request''),
           he_type = ''BAD_REQUEST'', he_details = NoDetails\<rparr>
      | StringErr m \<Rightarrow>
          \<lparr>he_status = 400, he_message = m, he_type = ''BAD_REQUEST'', he_details = NoDetails\<rparr>
      | OtherErr \<Rightarrow>
          \<lparr>he_status = 500,
           he_message = (if isDev then ''Internal server error'' else ''Something went wrong''),
           he_type = ''INTERNAL_ERROR'', he_details = NoDetails\<rparr>)"

text \<open>Outside development a plain \<open>Error\<close>'s message never reaches the client.\<close>

lemma handleError_hides_plain_message:
  "handleError False (PlainErr m st) = handleError False (PlainErr m' st')"
  by (simp add: handleError_def)

lemma handleError_AppErr_status: "he_status (handleError d (AppErr e)) = ae_statusCode e"
  by (simp add: handleError_def)

subsection \<open>On-chain relay errors\<close>

datatype OnChainErrorCode =
    TRANSACTION_EXPIRED | TRANSACTION_INVALID_SIGNATURE | TRANSACTION_SEQUENCE_MISMATCH
  | SOROBAN_NETWORK_ERROR | SOROBAN_TIMEOUT
  | CONTRACT_INVOCATION_FAILED | CONTRACT_REJECTED
  | WALLET_NOT_CONNECTED | INSUFFICIENT_BALANCE | METADATA_NOT_READY | ARTIST_NOT_REGISTERED
  | INVALID_XDR_FORMAT | UNKNOWN_ERROR

record on_chain_response =
  oc_errorCode :: OnChainErrorCode
  oc_message :: string
  oc_retryable :: bool
  oc_details :: string

text \<open>
  Every pattern of the table is a case-insensitive alternation of literal words: a pattern is the
  list of its alternatives and matches when one of them occurs in the lower-cased message.
\<close>

fun starts_with :: "string \<Rightarrow> string \<Rightarrow> bool" where
  "starts_with [] s = True"
| "starts_with (p # ps) [] = False"
| "starts_with (p # ps) (c # cs) = (p = c \<and> starts_with ps cs)"

fun occurs :: "string \<Rightarrow> string \<Rightarrow> bool" where
  "occurs p [] = (p = [])"
| "occurs p (c # cs) = (starts_with p (c # cs) \<or> occurs p cs)"

definition pattern_test :: "string list \<Rightarrow> string \<Rightarrow> bool" where
  "pattern_test alts msg = list_ex (\<lambda>a. occurs a (ascii_lower msg)) alts"

record error_rule =
  er_patterns :: "string list list"
  er_allRequired :: bool
  er_errorCode :: OnChainErrorCode
  er_message :: string
  er_retryable :: bool

definition ERROR_RULES :: "error_rule list" where
  "ERROR_RULES =
    [\<lparr>er_patterns = [[''expired'', ''too late'']], er_allRequired = False,
      er_errorCode = TRANSACTION_EXPIRED,
      er_message = ''Transaction has expired. Please retry to generate a fresh transaction.'',
      er_retryable = True\<rparr>,
     \<lparr>er_patterns = [[''signature''], [''invalid'', ''bad'']], er_allRequired = True,
      er_errorCode = TRANSACTION_INVALID_SIGNATURE,
      er_message = ''Transaction signature is invalid. Please sign again with your wallet.'',
      er_retryable = True\<rparr>,
     \<lparr>er_patterns = [[''sequence'', ''bad_seq'']], er_allRequired = False,
      er_errorCode = TRANSACTION_SEQUENCE_MISMATCH,
      er_message = ''Transaction sequence number is out of sync. Please retry.'',
      er_retryable = True\<rparr>,
     \<lparr>er_patterns = [[''timeout'', ''timed out'']], er_allRequired = False,
      er_errorCode = SOROBAN_TIMEOUT,
      er_message = ''Network request timed out. Please check your connection and retry.'',
      er_retryable = True\<rparr>,
     \<lparr>er_patterns = [[''soroban'', ''horizon'', ''network'']], er_allRequired = False,
      er_errorCode = SOROBAN_NETWORK_ERROR,
      er_message = ''Stellar network error occurred. Please retry in a moment.'',
      er_retryable = True\<rparr>,
     \<lparr>er_patterns = [[''contract''], [''failed'']], er_allRequired = True,
      er_errorCode = CONTRACT_INVOCATION_FAILED,
      er_message = ''Smart contract invocation failed. Please contact support if this persists.'',
      er_retryable = False\<rparr>,
     \<lparr>er_patterns = [[''wallet'']], er_allRequired = False,
      er_errorCode = WALLET_NOT_CONNECTED,
      er_message = ''Stellar wallet not connected. Please connect your wallet first.'',
      er_retryable = False\<rparr>,
     \<lparr>er_patterns = [[''metadata'', ''cid'']], er_allRequired = False,
      er_errorCode = METADATA_NOT_READY,
      er_message = ''Metadata is not ready for minting. Please wait for processing to complete.'',
      er_retryable = False\<rparr>,
     \<lparr>er_patterns = [[''xdr''], [''invalid'', ''malformed'']], er_allRequired = True,
      er_errorCode = INVALID_XDR_FORMAT,
      er_message = ''Transaction format is invalid. Please retry from the beginning.'',
      er_retryable = True\<rparr>]"

definition matchesRule :: "string \<Rightarrow> error_rule \<Rightarrow> bool" where
  "matchesRule msg rule =
     (if er_allRequired rule then list_all (\<lambda>p. pattern_test p msg) (er_patterns rule)
      else list_ex (\<lambda>p. pattern_test p msg) (er_patterns rule))"

fun first_rule :: "error_rule list \<Rightarrow> string \<Rightarrow> error_rule option" where
  "first_rule [] msg = None"
| "first_rule (r # rs) msg = (if matchesRule msg r then Some r else first_rule rs msg)"

definition mapToOnChainError :: "js_error \<Rightarrow> on_chain_response" where
  "mapToOnChainError err =
     (let msg = error_message err in
      case first_rule ERROR_RULES msg of
        Some r \<Rightarrow> \<lparr>oc_errorCode = er_errorCode r, oc_message = er_message r,
                    oc_retryable = er_retryable r, oc_details = msg\<rparr>
      | None \<Rightarrow> \<lparr>oc_errorCode = UNKNOWN_ERROR,
                 oc_message = ''An unexpected error occurred. Please retry or contact support.'',
                 oc_retryable = True, oc_details = msg\<rparr>)"

definition handleOnChainError :: "js_error \<Rightarrow> int \<times> on_chain_response" where
  "handleOnChainError err =
     (let r = mapToOnChainError err in ((if oc_retryable r then 400 else 500), r))"

lemma first_rule_SomeD: "first_rule rs msg = Some r \<Longrightarrow> r \<in> set rs \<and> matchesRule msg r"
  by (induction rs) (auto split: if_splits)

lemma first_rule_first:
  "first_rule rs msg = Some r \<Longrightarrow> \<exists>us vs. rs = us @ r # vs \<and> (\<forall>u\<in>set us. \<not> matchesRule msg u)"
proof (induction rs)
  case Nil
  then show ?case by simp
next
  case (Cons a rs)
  show ?case
  proof (cases "matchesRule msg a")
    case True
    with Cons.prems have "a # rs = [] @ r # rs" by simp
    then show ?thesis by (metis empty_iff list.set(1))
  next
    case False
    with Cons obtain us vs where "rs = us @ r # vs" "\<forall>u\<in>set us. \<not> matchesRule msg u"
      by auto
    with False have "a # rs = (a # us) @ r # vs \<and> (\<forall>u\<in>set (a # us). \<not> matchesRule msg u)"
      by simp
    then show ?thesis by blast
  qed
qed

lemma first_rule_None: "first_rule rs msg = None \<longleftrightarrow> (\<forall>r\<in>set rs. \<not> matchesRule msg r)"
  by (induction rs) auto

text \<open>The retryable flag is a function of the code, whatever the message.\<close>

lemma ERROR_RULES_retryable:
  "r \<in> set ERROR_RULES \<Longrightarrow>
   er_retryable r \<longleftrightarrow>
     er_errorCode r \<notin> {CONTRACT_INVOCATION_FAILED, WALLET_NOT_CONNECTED, METADATA_NOT_READY}"
  by (auto simp: ERROR_RULES_def)

lemma ERROR_RULES_codes:
  "er_errorCode ` set ERROR_RULES =
     {TRANSACTION_EXPIRED, TRANSACTION_INVALID_SIGNATURE, TRANSACTION_SEQUENCE_MISMATCH,
      SOROBAN_TIMEOUT, SOROBAN_NETWORK_ERROR, CONTRACT_INVOCATION_FAILED, WALLET_NOT_CONNECTED,
      METADATA_NOT_READY, INVALID_XDR_FORMAT}"
  by (auto simp: ERROR_RULES_def)

subsection \<open>Properties\<close>

text \<open>
  The response to an on-chain failure is decided by the first rule of the table that matches
  the message, and by the unknown-error response when none does; the HTTP status is 400 exactly
  when the response tells the client to retry, and the client's own message is passed on.
\<close>

theorem mapToOnChainError_first_match:
  "let msg = error_message err; r = mapToOnChainError err in
     oc_details r = msg \<and>
     fst (handleOnChainError err) = (if oc_retryable r then 400 else 500) \<and>
     ((\<exists>us rule vs. ERROR_RULES = us @ rule # vs \<and> matchesRule msg rule \<and>
         list_all (\<lambda>u. \<not> matchesRule msg u) us \<and>
         oc_errorCode r = er_errorCode rule \<and> oc_message r = er_message rule \<and>
         oc_retryable r = er_retryable rule) \<or>
      (list_all (\<lambda>u. \<not> matchesRule msg u) ERROR_RULES \<and>
         oc_errorCode r = UNKNOWN_ERROR \<and> oc_retryable r))"
proof (cases "first_rule ERROR_RULES (error_message err)")
  case None
  then have "list_all (\<lambda>u. \<not> matchesRule (error_message err) u) ERROR_RULES"
    by (simp add: first_rule_None list_all_iff)
  with None show ?thesis
    by (simp add: mapToOnChainError_def handleOnChainError_def Let_def)
next
  case (Some rule)
  then obtain us vs where "ERROR_RULES = us @ rule # vs"
    and "\<forall>u\<in>set us. \<not> matchesRule (error_message err) u"
    by (blast dest: first_rule_first)
  moreover from Some have "matchesRule (error_message err) rule"
    by (blast dest: first_rule_SomeD)
  ultimately show ?thesis using Some
    by (auto simp: mapToOnChainError_def handleOnChainError_def list_all_iff Let_def)
qed

text \<open>
  Three codes of the client contract, CONTRACT_REJECTED, INSUFFICIENT_BALANCE and
  ARTIST_NOT_REGISTERED, are never produced, whatever the error.
\<close>

theorem mapToOnChainError_dead_codes:
  "oc_errorCode (mapToOnChainError err)
     \<notin> {CONTRACT_REJECTED, INSUFFICIENT_BALANCE, ARTIST_NOT_REGISTERED}"
proof (cases "first_rule ERROR_RULES (error_message err)")
  case None
  then show ?thesis by (simp add: mapToOnChainError_def)
next
  case (Some rule)
  then have "er_errorCode rule \<in> er_errorCode ` set ERROR_RULES"
    by (blast dest: first_rule_SomeD)
  with Some show ?thesis
    by (auto simp: ERROR_RULES_codes mapToOnChainError_def Let_def)
qed

end
