(* ===== verification/Circuit_Breaker.thy ===== *)
theory Circuit_Breaker
  imports AppErrors
begin

text \<open>
  The circuit breaker of \<open>utils/circuitBreaker.ts\<close> (used for the database and for Pinata). The
  state is the class's private fields; the pending \<open>setTimeout\<close> callbacks are part of it, because
  \<open>recordFailure\<close> arms a new one without clearing the previous one. \<open>execute\<close> is split at its
  \<open>await\<close> into \<open>cb_enter\<close> and \<open>cb_leave\<close>, so that several calls may be in flight; \<open>cb_execute\<close> is
  the call that runs without interleaving.
\<close>

subsection \<open>State and operations\<close>

datatype CircuitState = CLOSED | OPEN | HALF_OPEN

record CircuitBreakerConfig =
  failureThreshold :: int
  resetTimeoutMs :: int
  healthCheckIntervalMs :: int

text \<open>A pending reset timer is its handle and the time it is due.\<close>

record circuit_breaker =
  cb_config :: CircuitBreakerConfig
  cb_state :: CircuitState
  failureCount :: int
  lastFailure :: "timestamp option"
  openedAt :: "timestamp option"
  resetTimer :: "nat option"
  pendingTimers :: "(nat \<times> timestamp) list"
  nextTimer :: nat
  healthTimer :: bool

record partial_config =
  pc_failureThreshold :: "int option"
  pc_resetTimeoutMs :: "int option"
  pc_healthCheckIntervalMs :: "int option"

definition or_default :: "'a option \<Rightarrow> 'a \<Rightarrow> 'a" where
  "or_default x d = (case x of None \<Rightarrow> d | Some v \<Rightarrow> v)"

definition new_CircuitBreaker :: "partial_config \<Rightarrow> circuit_breaker" where
  "new_CircuitBreaker pc =
     \<lparr>cb_config = \<lparr>failureThreshold = or_default (pc_failureThreshold pc) 3,
                   resetTimeoutMs = or_default (pc_resetTimeoutMs pc) 30000,
                   healthCheckIntervalMs = or_default (pc_healthCheckIntervalMs pc) 30000\<rparr>,
      cb_state = CLOSED, failureCount = 0, lastFailure = None, openedAt = None,
      resetTimer = None, pendingTimers = [], nextTimer = 0, healthTimer = False\<rparr>"

definition isOpen :: "circuit_breaker \<Rightarrow> bool" where
  "isOpen cb \<longleftrightarrow> cb_state cb = OPEN"

record circuit_status =
  cs_state :: CircuitState
  cs_failures :: int
  cs_lastFailure :: "timestamp option"
  cs_openedAt :: "timestamp option"

definition getStatus :: "circuit_breaker \<Rightarrow> circuit_status" where
  "getStatus cb = \<lparr>cs_state = cb_state cb, cs_failures = failureCount cb,
                   cs_lastFailure = lastFailure cb, cs_openedAt = openedAt cb\<rparr>"

definition transitionTo :: "CircuitState \<Rightarrow> circuit_breaker \<Rightarrow> circuit_breaker" where
  "transitionTo st cb = cb\<lparr>cb_state := st\<rparr>"

definition recordSuccess :: "circuit_breaker \<Rightarrow> circuit_breaker" where
  "recordSuccess cb =
     (let cb1 = cb\<lparr>failureCount := 0, lastFailure := None\<rparr>
      in if cb_state cb1 = HALF_OPEN then transitionTo CLOSED cb1 else cb1)"

definition recordFailure :: "timestamp \<Rightarrow> circuit_breaker \<Rightarrow> circuit_breaker" where
  "recordFailure now cb =
     (let cb1 = cb\<lparr>failureCount := failureCount cb + 1, lastFailure := Some now\<rparr>
      in if failureCount cb1 \<ge> failureThreshold (cb_config cb1)
         then (transitionTo OPEN cb1)
                \<lparr>openedAt := Some now,
                 resetTimer := Some (nextTimer cb1),
                 pendingTimers := pendingTimers cb1 @
                   [(nextTimer cb1, now + resetTimeoutMs (cb_config cb1))],
                 nextTimer := Suc (nextTimer cb1)\<rparr>
         else cb1)"

text \<open>The callback of a reset timer.\<close>

definition timer_fires :: "nat \<Rightarrow> circuit_breaker \<Rightarrow> circuit_breaker" where
  "timer_fires h cb =
     (if h \<in> fst ` set (pendingTimers cb)
      then transitionTo HALF_OPEN
             (cb\<lparr>pendingTimers := filter (\<lambda>t. fst t \<noteq> h) (pendingTimers cb)\<rparr>)
      else cb)"

text \<open>\<open>execute\<close>: the guard before the call, and what follows the call's outcome.\<close>

definition CircuitBreakerOpenError :: js_error where
  "CircuitBreakerOpenError = PlainErr ''Circuit breaker is open - please try again later'' None"

definition cb_enter :: "circuit_breaker \<Rightarrow> js_error + unit" where
  "cb_enter cb = (if cb_state cb = OPEN then Inl CircuitBreakerOpenError else Inr ())"

definition cb_leave :: "timestamp \<Rightarrow> (js_error + 'a) \<Rightarrow> circuit_breaker \<Rightarrow> circuit_breaker" where
  "cb_leave now result cb =
     (case result of
        Inr _ \<Rightarrow> if cb_state cb = HALF_OPEN then recordSuccess cb else cb
      | Inl _ \<Rightarrow> recordFailure now cb)"

definition cb_execute ::
  "timestamp \<Rightarrow> (js_error + 'a) \<Rightarrow> (circuit_breaker, 'a) service" where
  "cb_execute now result cb =
     (case cb_enter cb of
        Inl e \<Rightarrow> (Inl e, cb)
      | Inr _ \<Rightarrow> (result, cb_leave now result cb))"

text \<open>
  One tick of the health interval. The check is the caller's function: it resolves to a boolean or
  throws (\<open>None\<close>).
\<close>

definition health_tick :: "timestamp \<Rightarrow> bool option \<Rightarrow> circuit_breaker \<Rightarrow> circuit_breaker" where
  "health_tick now healthy cb =
     (if \<not> healthTimer cb then cb
      else case healthy of
        Some True \<Rightarrow> if cb_state cb = HALF_OPEN then recordSuccess cb else cb
      | Some False \<Rightarrow> if cb_state cb \<noteq> OPEN then recordFailure now cb else cb
      | None \<Rightarrow> if cb_state cb \<noteq> OPEN then recordFailure now cb else cb)"

definition startHealthChecks :: "circuit_breaker \<Rightarrow> circuit_breaker" where
  "startHealthChecks cb = (if healthTimer cb then cb else cb\<lparr>healthTimer := True\<rparr>)"

definition stopHealthChecks :: "circuit_breaker \<Rightarrow> circuit_breaker" where
  "stopHealthChecks cb = (if healthTimer cb then cb\<lparr>healthTimer := False\<rparr> else cb)"

definition destroy :: "circuit_breaker \<Rightarrow> circuit_breaker" where
  "destroy cb =
     (let cb1 = stopHealthChecks cb
      in case resetTimer cb1 of
           None \<Rightarrow> cb1
         | Some h \<Rightarrow> cb1\<lparr>pendingTimers := filter (\<lambda>t. fst t \<noteq> h) (pendingTimers cb1),
                          resetTimer := None\<rparr>)"

text \<open>The component as a machine: every way its state changes short of \<open>destroy\<close>.\<close>

datatype cb_event =
    CallSucceeds timestamp
  | CallFails timestamp
  | TimerFires nat
  | HealthTick timestamp "bool option"
  | StartHealth
  | StopHealth

fun cb_step :: "cb_event \<Rightarrow> circuit_breaker \<Rightarrow> circuit_breaker" where
  "cb_step (CallSucceeds t) cb = cb_leave t (Inr ()) cb"
| "cb_step (CallFails t) cb = cb_leave t (Inl OtherErr :: js_error + unit) cb"
| "cb_step (TimerFires h) cb = timer_fires h cb"
| "cb_step (HealthTick t r) cb = health_tick t r cb"
| "cb_step StartHealth cb = startHealthChecks cb"
| "cb_step StopHealth cb = stopHealthChecks cb"

lemmas cb_defs = transitionTo_def recordSuccess_def recordFailure_def timer_fires_def cb_leave_def
  health_tick_def startHealthChecks_def stopHealthChecks_def Let_def

subsection \<open>The invariant\<close>

text \<open>
  Handles are distinct and below the next one; an open breaker has counted at least the threshold,
  knows when it opened, and has a reset timer pending, so it cannot stay open for ever.
\<close>

definition cb_ok :: "circuit_breaker \<Rightarrow> bool" where
  "cb_ok cb \<longleftrightarrow>
     0 \<le> failureCount cb \<and>
     (\<forall>t\<in>set (pendingTimers cb). fst t < nextTimer cb) \<and>
     distinct (map fst (pendingTimers cb)) \<and>
     (cb_state cb = OPEN \<longrightarrow>
        failureThreshold (cb_config cb) \<le> failureCount cb \<and>
        openedAt cb \<noteq> None \<and> pendingTimers cb \<noteq> [])"

lemma cb_ok_recordFailure: "cb_ok cb \<Longrightarrow> cb_ok (recordFailure now cb)"
  by (auto simp: cb_ok_def cb_defs less_Suc_eq)

lemma cb_ok_recordSuccess: "cb_ok cb \<Longrightarrow> cb_state cb \<noteq> OPEN \<Longrightarrow> cb_ok (recordSuccess cb)"
  by (auto simp: cb_ok_def cb_defs)

lemma cb_ok_timer: "cb_ok cb \<Longrightarrow> cb_ok (timer_fires h cb)"
  by (auto simp: cb_ok_def cb_defs distinct_map inj_on_def)

lemma cb_ok_leave: "cb_ok cb \<Longrightarrow> cb_ok (cb_leave now r cb)"
  by (auto simp: cb_leave_def intro: cb_ok_recordFailure cb_ok_recordSuccess split: sum.splits)

lemma cb_ok_health: "cb_ok cb \<Longrightarrow> cb_ok (health_tick now r cb)"
  by (auto simp: health_tick_def intro: cb_ok_recordFailure cb_ok_recordSuccess
      split: option.splits bool.splits)

lemma cb_ok_health_timer:
  "cb_ok (startHealthChecks cb) = cb_ok cb" "cb_ok (stopHealthChecks cb) = cb_ok cb"
  by (simp_all add: startHealthChecks_def stopHealthChecks_def cb_ok_def)

lemma cb_ok_step: "cb_ok cb \<Longrightarrow> cb_ok (cb_step e cb)"
  by (cases e) (simp_all add: cb_ok_leave cb_ok_timer cb_ok_health cb_ok_health_timer)

interpretation cbm: machine cb_step cb_ok
  by unfold_locales (rule cb_ok_step)

lemma cb_ok_new: "cb_ok (new_CircuitBreaker pc)"
  by (simp add: new_CircuitBreaker_def cb_ok_def)

lemma cb_step_config: "cb_config (cb_step e cb) = cb_config cb"
  by (cases e) (auto simp: cb_defs split: option.splits bool.splits)

lemma cb_run_config: "cb_config (fold cb_step es cb) = cb_config cb"
  by (induction es arbitrary: cb) (auto simp: cb_step_config)

subsection \<open>Calls that do not overlap\<close>

text \<open>
  When each call is awaited before the next starts, no failure is recorded while the breaker is
  open, so at most one reset timer is ever pending.
\<close>

datatype cb_seq_event =
    Execute timestamp "js_error + unit"
  | SeqTimer nat
  | SeqHealth timestamp "bool option"

fun cb_seq_step :: "cb_seq_event \<Rightarrow> circuit_breaker \<Rightarrow> circuit_breaker" where
  "cb_seq_step (Execute t r) cb = snd (cb_execute t r cb)"
| "cb_seq_step (SeqTimer h) cb = timer_fires h cb"
| "cb_seq_step (SeqHealth t r) cb = health_tick t r cb"

definition cb_seq_ok :: "circuit_breaker \<Rightarrow> bool" where
  "cb_seq_ok cb \<longleftrightarrow>
     cb_ok cb \<and>
     length (pendingTimers cb) = (if cb_state cb = OPEN then 1 else 0) \<and>
     (cb_state cb = HALF_OPEN \<longrightarrow> failureThreshold (cb_config cb) \<le> failureCount cb)"

lemma cb_seq_ok_recordFailure:
  "cb_seq_ok cb \<Longrightarrow> cb_state cb \<noteq> OPEN \<Longrightarrow> cb_seq_ok (recordFailure now cb)"
  unfolding cb_seq_ok_def
  by (intro conjI cb_ok_recordFailure) (auto simp: cb_defs)

lemma cb_seq_ok_recordSuccess:
  "cb_seq_ok cb \<Longrightarrow> cb_state cb \<noteq> OPEN \<Longrightarrow> cb_seq_ok (recordSuccess cb)"
  unfolding cb_seq_ok_def
  by (intro conjI cb_ok_recordSuccess) (auto simp: cb_defs)

lemma cb_seq_ok_timer: "cb_seq_ok cb \<Longrightarrow> cb_seq_ok (timer_fires h cb)"
  unfolding cb_seq_ok_def
  by (intro conjI cb_ok_timer)
    (auto simp: cb_defs cb_ok_def length_Suc_conv split: if_splits)

lemma cb_seq_ok_step: "cb_seq_ok cb \<Longrightarrow> cb_seq_ok (cb_seq_step e cb)"
  by (cases e)
    (auto simp: cb_execute_def cb_enter_def cb_leave_def health_tick_def
      intro: cb_seq_ok_timer cb_seq_ok_recordFailure cb_seq_ok_recordSuccess
      split: sum.splits option.splits bool.splits)

interpretation cbs: machine cb_seq_step cb_seq_ok
  by unfold_locales (rule cb_seq_ok_step)

lemma cb_seq_ok_new: "cb_seq_ok (new_CircuitBreaker pc)"
  by (simp add: cb_seq_ok_def cb_ok_new) (simp add: new_CircuitBreaker_def)

subsection \<open>Counting failures\<close>

definition is_call :: "cb_event \<Rightarrow> bool" where
  "is_call e = (case e of CallSucceeds _ \<Rightarrow> True | CallFails _ \<Rightarrow> True | _ \<Rightarrow> False)"

definition is_failure :: "cb_event \<Rightarrow> bool" where
  "is_failure e = (case e of CallFails _ \<Rightarrow> True | _ \<Rightarrow> False)"

text \<open>Before any reset timer fires the count is the number of failed calls, whatever succeeded between them.\<close>

lemma calls_count:
  assumes "list_all is_call es" and "cb_state cb \<noteq> HALF_OPEN"
    and "cb_state cb = OPEN \<longleftrightarrow> failureThreshold (cb_config cb) \<le> failureCount cb"
  shows "let cb' = fold cb_step es cb in
      failureCount cb' = failureCount cb + int (length (filter is_failure es)) \<and>
      cb_state cb' \<noteq> HALF_OPEN \<and>
      (cb_state cb' = OPEN \<longleftrightarrow> failureThreshold (cb_config cb) \<le> failureCount cb')"
  using assms
proof (induction es arbitrary: cb)
  case Nil
  then show ?case by simp
next
  case (Cons e es)
  let ?cb = "cb_step e cb"
  have *: "cb_state ?cb \<noteq> HALF_OPEN \<and> cb_config ?cb = cb_config cb \<and>
      failureCount ?cb = failureCount cb + (if is_failure e then 1 else 0) \<and>
      (cb_state ?cb = OPEN \<longleftrightarrow> failureThreshold (cb_config cb) \<le> failureCount ?cb)"
    using Cons.prems by (cases e) (auto simp: cb_defs is_call_def is_failure_def)
  have "let cb' = fold cb_step es ?cb in
      failureCount cb' = failureCount ?cb + int (length (filter is_failure es)) \<and>
      cb_state cb' \<noteq> HALF_OPEN \<and>
      (cb_state cb' = OPEN \<longleftrightarrow> failureThreshold (cb_config ?cb) \<le> failureCount cb')"
    by (rule Cons.IH) (use Cons.prems * in auto)
  with * show ?case by (auto simp: Let_def)
qed

subsection \<open>Properties\<close>

text \<open>
  Whatever calls, timers and health checks happen, in any interleaving, an open breaker has
  counted at least the threshold, rejects every call with its state unchanged, and has a reset
  timer pending whose firing makes it half open: it is never stuck open.
\<close>

theorem breaker_never_stuck_open:
  assumes "cb = fold cb_step es (new_CircuitBreaker pc)" and "isOpen cb"
  shows "failureThreshold (cb_config cb) \<le> failureCount cb \<and>
     cb_execute now r cb = (Inl CircuitBreakerOpenError, cb) \<and>
     (\<exists>h due. (h, due) \<in> set (pendingTimers cb) \<and> cb_state (timer_fires h cb) = HALF_OPEN)"
proof -
  have ok: "cb_ok cb"
    unfolding assms(1) by (rule cbm.run_ok [OF cb_ok_new])
  with assms(2) obtain h due ts where "pendingTimers cb = (h, due) # ts"
    by (cases "pendingTimers cb") (auto simp: cb_ok_def isOpen_def)
  then have "(h, due) \<in> set (pendingTimers cb) \<and> cb_state (timer_fires h cb) = HALF_OPEN"
    by (simp add: timer_fires_def transitionTo_def)
  with ok assms(2) show ?thesis
    by (auto simp: cb_ok_def isOpen_def cb_execute_def cb_enter_def)
qed

definition three_strikes :: partial_config where
  "three_strikes = \<lparr>pc_failureThreshold = Some 3, pc_resetTimeoutMs = None,
                    pc_healthCheckIntervalMs = None\<rparr>"

theorem breaker_never_stuck_open_witness:
  "let cb = fold cb_step [CallFails 1, CallFails 2, CallFails 3] (new_CircuitBreaker three_strikes) in
     isOpen cb \<and> cb_execute 4 (Inr ()) cb = (Inl CircuitBreakerOpenError, cb)"
proof -
  let ?es = "[CallFails 1, CallFails 2, CallFails 3]"
  let ?cb = "fold cb_step ?es (new_CircuitBreaker three_strikes)"
  have opened: "isOpen ?cb"
    by (simp add: isOpen_def cb_defs new_CircuitBreaker_def three_strikes_def or_default_def)
  then show ?thesis
    using breaker_never_stuck_open [OF refl opened, where now = 4 and r = "Inr ()"]
    unfolding Let_def by blast
qed

text \<open>
  Until the first reset, the breaker is open exactly when the number of calls that failed since
  construction has reached the threshold: calls that succeed in between do not reset the count, so
  the failures need not be consecutive.
\<close>

theorem breaker_counts_all_failures:
  assumes "list_all is_call es" and "0 < failureThreshold (cb_config (new_CircuitBreaker pc))"
  shows "isOpen (fold cb_step es (new_CircuitBreaker pc)) \<longleftrightarrow>
     failureThreshold (cb_config (new_CircuitBreaker pc)) \<le> int (length (filter is_failure es))"
proof -
  have "cb_state (new_CircuitBreaker pc) = CLOSED" "failureCount (new_CircuitBreaker pc) = 0"
    by (simp_all add: new_CircuitBreaker_def)
  with calls_count [OF assms(1), of "new_CircuitBreaker pc"] assms(2) show ?thesis
    by (auto simp: isOpen_def Let_def)
qed

theorem breaker_counts_all_failures_witness:
  "isOpen (fold cb_step
     [CallFails 1, CallSucceeds 2, CallFails 3, CallSucceeds 4, CallFails 5]
     (new_CircuitBreaker three_strikes))"
proof -
  have "list_all is_call
     [CallFails 1, CallSucceeds 2, CallFails 3, CallSucceeds 4, CallFails 5]"
    by (simp add: is_call_def)
  moreover have "0 < failureThreshold (cb_config (new_CircuitBreaker three_strikes))"
    by (simp add: new_CircuitBreaker_def three_strikes_def or_default_def)
  ultimately show ?thesis
    by (subst breaker_counts_all_failures)
      (auto simp: new_CircuitBreaker_def three_strikes_def or_default_def is_failure_def)
qed

text \<open>
  When calls do not overlap, exactly one reset timer is pending while the breaker is open and
  none otherwise; a half-open breaker re-opens at the first failing call and closes, with the
  count back at zero, at the first successful one.
\<close>

theorem breaker_sequential_probe:
  assumes "cb = fold cb_seq_step es (new_CircuitBreaker pc)"
  shows "length (pendingTimers cb) = (if isOpen cb then 1 else 0) \<and>
     (cb_state cb = HALF_OPEN \<longrightarrow>
        isOpen (snd (cb_execute t (Inl e) cb)) \<and>
        cb_state (snd (cb_execute t (Inr v) cb)) = CLOSED \<and>
        failureCount (snd (cb_execute t (Inr v) cb)) = 0)"
proof -
  have "cb_seq_ok cb"
    unfolding assms by (rule cbs.run_ok [OF cb_seq_ok_new])
  then show ?thesis
    by (auto simp: cb_seq_ok_def isOpen_def cb_execute_def cb_enter_def cb_defs)
qed

theorem breaker_sequential_probe_witness:
  "let cb = fold cb_seq_step
       [Execute 1 (Inl OtherErr), Execute 2 (Inl OtherErr), Execute 3 (Inl OtherErr), SeqTimer 0]
       (new_CircuitBreaker three_strikes) in
     cb_state cb = HALF_OPEN \<and> isOpen (snd (cb_execute 40000 (Inl OtherErr :: js_error + unit) cb))"
proof -
  let ?es = "[Execute 1 (Inl OtherErr), Execute 2 (Inl OtherErr), Execute 3 (Inl OtherErr), SeqTimer 0]"
  let ?cb = "fold cb_seq_step ?es (new_CircuitBreaker three_strikes)"
  have "cb_state ?cb = HALF_OPEN"
    by (simp add: cb_execute_def cb_enter_def cb_defs new_CircuitBreaker_def three_strikes_def
        or_default_def)
  then show ?thesis
    using breaker_sequential_probe [OF refl, where es = ?es and pc = three_strikes and t = 40000
        and e = OtherErr and v = "()"]
    unfolding Let_def by blast
qed

text \<open>
  With overlapping calls a failure that arrives while the breaker is open arms a second timer
  and leaves the first one armed; after the first probe has closed the breaker, the stale timer
  makes the healthy, closed breaker half open again.
\<close>

theorem breaker_stale_timer:
  "let cb = fold cb_step
       [CallFails t1, CallFails t2, CallFails t3, CallFails t4, TimerFires 0, CallSucceeds t5]
       (new_CircuitBreaker three_strikes) in
     cb_state cb = CLOSED \<and> failureCount cb = 0 \<and> cb_state (timer_fires 1 cb) = HALF_OPEN"
  by (simp add: cb_defs new_CircuitBreaker_def three_strikes_def or_default_def)

end
