(* ===== verification/Privy_Resilience.thy ===== *)
theory Privy_Resilience
  imports AppErrors Complex_Main
begin

text \<open>
  The resilience layer of the Privy client, \<open>services/privy/PrivyResilience.ts\<close>: which failures
  are retried, the bounded retry loop with its backoff, the three-state circuit breaker that
  compares times instead of arming timers, and their composition \<open>resilientCall\<close>. The wrapped
  call, the clock and the random source are parameters. Calls that overlap are modelled as a
  system of one breaker and the entry states of the calls in flight.
\<close>

subsection \<open>Failures\<close>

text \<open>
  A rejected value: not an object, one of the two errors of the module, or an axios-style object
  with an optional response status, error code and retry-after header. A header is given by how
  \<open>Number\<close> (when finite) and \<open>Date.parse\<close> (when it parses) read it.
\<close>

record retry_header =
  hdr_number :: "int option"
  hdr_date :: "timestamp option"

datatype privy_error =
    NonObject
  | CircuitOpenError int
  | RetriesExhaustedError int privy_error
  | Httpish "int option" "string option" "retry_header option"

definition retryableCodes :: "string list" where
  "retryableCodes = [''ECONNABORTED'', ''ECONNREFUSED'', ''ECONNRESET'', ''EHOSTUNREACH'',
     ''ENETUNREACH'', ''ENOTFOUND'', ''EPIPE'', ''ETIMEDOUT'', ''ERR_NETWORK'']"

fun isRetryableError :: "privy_error \<Rightarrow> bool" where
  "isRetryableError NonObject = False"
| "isRetryableError (CircuitOpenError _) = False"
| "isRetryableError (RetriesExhaustedError _ _) = False"
| "isRetryableError (Httpish status code hdr) =
     (case status of
        Some s \<Rightarrow> s = 408 \<or> s = 429 \<or> s \<ge> 500
      | None \<Rightarrow> (case code of Some c \<Rightarrow> c \<in> set retryableCodes | None \<Rightarrow> False))"

fun retryAfterMs :: "timestamp \<Rightarrow> privy_error \<Rightarrow> int option" where
  "retryAfterMs now (Httpish status code (Some h)) =
     (case hdr_number h of
        Some seconds \<Rightarrow>
          if seconds \<ge> 0 then Some (seconds * 1000)
          else map_option (\<lambda>d. max 0 (d - now)) (hdr_date h)
      | None \<Rightarrow> map_option (\<lambda>d. max 0 (d - now)) (hdr_date h))"
| "retryAfterMs now _ = None"

subsection \<open>withRetry\<close>

record retry_options =
  ro_attempts :: int
  ro_baseDelayMs :: int
  ro_maxDelayMs :: int

definition totalAttempts :: "retry_options \<Rightarrow> nat" where
  "totalAttempts o' = nat (max 1 (ro_attempts o'))"

text \<open>\<open>Math.round\<close>.\<close>

definition js_round :: "real \<Rightarrow> int" where
  "js_round x = \<lfloor>x + 1 / 2\<rfloor>"

definition backoffCeiling :: "retry_options \<Rightarrow> nat \<Rightarrow> int" where
  "backoffCeiling o' attempt = min (ro_maxDelayMs o') (ro_baseDelayMs o' * 2 ^ (attempt - 1))"

definition retry_delay ::
  "retry_options \<Rightarrow> (nat \<Rightarrow> timestamp) \<Rightarrow> (nat \<Rightarrow> real) \<Rightarrow> nat \<Rightarrow> privy_error \<Rightarrow> int" where
  "retry_delay o' clock rnd attempt e =
     (case retryAfterMs (clock attempt) e of
        Some d \<Rightarrow> d
      | None \<Rightarrow> js_round (rnd attempt * of_int (backoffCeiling o' attempt)))"

text \<open>
  The loop from a given attempt with \<open>rest\<close> attempts after it: the outcome that ends it, the
  delays slept, and the number of the attempt it ended at.
\<close>

fun retry_loop ::
  "retry_options \<Rightarrow> (nat \<Rightarrow> timestamp) \<Rightarrow> (nat \<Rightarrow> real) \<Rightarrow> (nat \<Rightarrow> privy_error + 'a)
     \<Rightarrow> nat \<Rightarrow> nat \<Rightarrow> (privy_error + 'a) \<times> int list \<times> nat" where
  "retry_loop o' clock rnd fn attempt rest =
     (case fn attempt of
        Inr v \<Rightarrow> (Inr v, [], attempt)
      | Inl e \<Rightarrow>
          if \<not> isRetryableError e then (Inl e, [], attempt)
          else (case rest of
             0 \<Rightarrow> (Inl e, [], attempt)
           | Suc rest' \<Rightarrow>
               let d = retry_delay o' clock rnd attempt e;
                   (r, ds, n) = retry_loop o' clock rnd fn (Suc attempt) rest'
               in (r, d # ds, n)))"

declare retry_loop.simps [simp del]

definition withRetry ::
  "retry_options \<Rightarrow> (nat \<Rightarrow> timestamp) \<Rightarrow> (nat \<Rightarrow> real) \<Rightarrow> (nat \<Rightarrow> privy_error + 'a)
     \<Rightarrow> (privy_error + 'a) \<times> int list \<times> nat" where
  "withRetry o' clock rnd fn =
     (let total = totalAttempts o';
          (r, ds, n) = retry_loop o' clock rnd fn 1 (total - 1)
      in (case r of
            Inr v \<Rightarrow> (Inr v, ds, n)
          | Inl e \<Rightarrow> ((if isRetryableError e then Inl (RetriesExhaustedError (int total) e) else Inl e),
                      ds, n)))"

text \<open>Where the loop stops: at the first attempt that succeeds or fails for good, or at the last.\<close>

definition gives_up :: "(privy_error + 'a) \<Rightarrow> bool" where
  "gives_up r = (case r of Inr _ \<Rightarrow> True | Inl e \<Rightarrow> \<not> isRetryableError e)"

lemma retry_loop_result:
  "retry_loop o' clock rnd fn k rest = (r, ds, n) \<Longrightarrow>
     k \<le> n \<and> n \<le> k + rest \<and> r = fn n \<and> length ds = n - k \<and>
     (\<forall>j. k \<le> j \<longrightarrow> j < n \<longrightarrow> \<not> gives_up (fn j)) \<and> (gives_up (fn n) \<or> n = k + rest)"
proof (induction rest arbitrary: k r ds n)
  case 0
  then show ?case
    by (subst (asm) retry_loop.simps) (auto simp: gives_up_def split: sum.splits if_splits)
next
  case (Suc rest)
  show ?case
  proof (cases "gives_up (fn k)")
    case True
    with Suc.prems show ?thesis
      by (subst (asm) retry_loop.simps) (auto simp: gives_up_def split: sum.splits if_splits)
  next
    case False
    then obtain e where e: "fn k = Inl e" "isRetryableError e"
      by (auto simp: gives_up_def split: sum.splits)
    obtain r1 ds1 n1 where rec: "retry_loop o' clock rnd fn (Suc k) rest = (r1, ds1, n1)"
      by (metis prod_cases3)
    from Suc.prems e rec have eqs: "r = r1" "n = n1" "ds = retry_delay o' clock rnd k e # ds1"
      by (auto simp: retry_loop.simps [of o' clock rnd fn k "Suc rest"])
    from Suc.IH [OF rec] have IH: "Suc k \<le> n1 \<and> n1 \<le> Suc k + rest \<and> r1 = fn n1 \<and>
      length ds1 = n1 - Suc k \<and> (\<forall>j. Suc k \<le> j \<longrightarrow> j < n1 \<longrightarrow> \<not> gives_up (fn j)) \<and>
      (gives_up (fn n1) \<or> n1 = Suc k + rest)" .
    have "\<not> gives_up (fn j)" if "k \<le> j" "j < n1" for j
      using IH False that by (cases "j = k") auto
    with IH eqs show ?thesis by auto
  qed
qed

lemma retry_loop_delays:
  "retry_loop o' clock rnd fn k rest = (r, ds, n) \<Longrightarrow> i < length ds \<Longrightarrow>
     \<exists>e. fn (k + i) = Inl e \<and> isRetryableError e \<and> ds ! i = retry_delay o' clock rnd (k + i) e"
proof (induction rest arbitrary: k r ds n i)
  case 0
  then show ?case
    by (subst (asm) retry_loop.simps) (auto split: sum.splits if_splits)
next
  case (Suc rest)
  show ?case
  proof (cases "gives_up (fn k)")
    case True
    with Suc.prems show ?thesis
      by (subst (asm) retry_loop.simps) (auto simp: gives_up_def split: sum.splits if_splits)
  next
    case False
    then obtain e where e: "fn k = Inl e" "isRetryableError e"
      by (auto simp: gives_up_def split: sum.splits)
    obtain r1 ds1 n1 where rec: "retry_loop o' clock rnd fn (Suc k) rest = (r1, ds1, n1)"
      by (metis prod_cases3)
    from Suc.prems(1) e rec have ds: "ds = retry_delay o' clock rnd k e # ds1"
      by (auto simp: retry_loop.simps [of o' clock rnd fn k "Suc rest"])
    show ?thesis
    proof (cases i)
      case 0
      with e ds show ?thesis by auto
    next
      case (Suc i')
      with Suc.IH [OF rec, of i'] ds Suc.prems(2) show ?thesis by auto
    qed
  qed
qed

lemma js_round_bounds: "0 \<le> x \<Longrightarrow> x \<le> of_int c \<Longrightarrow> 0 \<le> js_round x \<and> js_round x \<le> c"
  unfolding js_round_def by (auto simp: le_floor_iff floor_le_iff)

lemma retry_delay_bounds:
  assumes "0 \<le> rnd k" "rnd k < 1" "0 \<le> ro_baseDelayMs o'" "0 \<le> ro_maxDelayMs o'"
    and "retryAfterMs (clock k) e = None"
  shows "0 \<le> retry_delay o' clock rnd k e \<and> retry_delay o' clock rnd k e \<le> backoffCeiling o' k"
proof -
  have c: "0 \<le> backoffCeiling o' k"
    using assms(3,4) by (simp add: backoffCeiling_def)
  then have "rnd k * of_int (backoffCeiling o' k) \<le> 1 * of_int (backoffCeiling o' k)"
    using assms(2) by (intro mult_right_mono) auto
  with c assms show ?thesis
    unfolding retry_delay_def by (auto intro!: js_round_bounds simp: js_round_bounds)
qed

subsection \<open>The circuit breaker\<close>

datatype PrivyState = Closed | Open | Half_open

record privy_breaker =
  pb_failureThreshold :: int
  pb_resetTimeoutMs :: int
  pb_state :: PrivyState
  consecutiveFailures :: int
  pb_openedAt :: timestamp
  probeInFlight :: bool
  pb_changes :: "(PrivyState \<times> PrivyState) list"

text \<open>\<open>pb_changes\<close> are the calls of \<open>onStateChange\<close>, in order.\<close>

definition new_PrivyBreaker :: "int \<Rightarrow> int \<Rightarrow> bool \<Rightarrow> timestamp \<Rightarrow> privy_breaker" where
  "new_PrivyBreaker threshold reset startsOpen now =
     \<lparr>pb_failureThreshold = max 1 threshold, pb_resetTimeoutMs = max 0 reset,
      pb_state = (if startsOpen then Open else Closed), consecutiveFailures = 0,
      pb_openedAt = (if startsOpen then now else 0), probeInFlight = False, pb_changes = []\<rparr>"

definition pb_transition :: "PrivyState \<Rightarrow> privy_breaker \<Rightarrow> privy_breaker" where
  "pb_transition to b =
     (if pb_state b = to then b
      else let b1 = b\<lparr>pb_state := to\<rparr>;
               b2 = (if to = Open then b1\<lparr>consecutiveFailures := pb_failureThreshold b1\<rparr> else b1)
           in b2\<lparr>pb_changes := pb_changes b2 @ [(pb_state b, to)]\<rparr>)"

definition pb_getState :: "timestamp \<Rightarrow> privy_breaker \<Rightarrow> privy_breaker" where
  "pb_getState now b =
     (if pb_state b = Open \<and> now - pb_openedAt b \<ge> pb_resetTimeoutMs b
      then pb_transition Half_open b else b)"

definition getRetryAfterMs :: "timestamp \<Rightarrow> privy_breaker \<Rightarrow> int" where
  "getRetryAfterMs now b =
     (if pb_state b \<noteq> Open then 0 else max 0 (pb_resetTimeoutMs b - (now - pb_openedAt b)))"

definition pb_recordSuccess :: "privy_breaker \<Rightarrow> privy_breaker" where
  "pb_recordSuccess b =
     (let b1 = b\<lparr>consecutiveFailures := 0\<rparr>
      in if pb_state b1 \<noteq> Closed then pb_transition Closed b1 else b1)"

definition pb_recordFailure :: "timestamp \<Rightarrow> privy_breaker \<Rightarrow> privy_breaker" where
  "pb_recordFailure now b =
     (let b1 = b\<lparr>consecutiveFailures := (if pb_state b = Half_open then pb_failureThreshold b
                                          else consecutiveFailures b + 1)\<rparr>
      in if pb_state b1 = Open then b1\<lparr>pb_openedAt := now\<rparr>
         else if consecutiveFailures b1 \<ge> pb_failureThreshold b1
         then pb_transition Open (b1\<lparr>pb_openedAt := now\<rparr>)
         else b1)"

text \<open>
  \<open>execute\<close> up to its \<open>await\<close>: a rejection, or the state the call was admitted in; and from there:
  the outcome is recorded and the \<open>finally\<close> block releases the probe of a half-open call.
\<close>

definition pb_enter :: "timestamp \<Rightarrow> privy_breaker \<Rightarrow> (privy_error + PrivyState) \<times> privy_breaker" where
  "pb_enter now b0 =
     (let b = pb_getState now b0 in
      case pb_state b of
        Open \<Rightarrow> (Inl (CircuitOpenError (getRetryAfterMs now b)), b)
      | Half_open \<Rightarrow>
          if probeInFlight b then (Inl (CircuitOpenError (pb_resetTimeoutMs b)), b)
          else (Inr Half_open, b\<lparr>probeInFlight := True\<rparr>)
      | Closed \<Rightarrow> (Inr Closed, b))"

definition pb_leave :: "timestamp \<Rightarrow> PrivyState \<Rightarrow> bool \<Rightarrow> privy_breaker \<Rightarrow> privy_breaker" where
  "pb_leave now st succeeded b =
     (let b1 = (if succeeded then pb_recordSuccess b else pb_recordFailure now b)
      in if st = Half_open then b1\<lparr>probeInFlight := False\<rparr> else b1)"

definition pb_execute ::
  "timestamp \<Rightarrow> timestamp \<Rightarrow> (privy_error + 'a) \<Rightarrow> privy_breaker
     \<Rightarrow> (privy_error + 'a) \<times> privy_breaker" where
  "pb_execute t0 t1 result b0 =
     (case pb_enter t0 b0 of
        (Inl e, b) \<Rightarrow> (Inl e, b)
      | (Inr st, b) \<Rightarrow> (result, pb_leave t1 st (case result of Inr _ \<Rightarrow> True | Inl _ \<Rightarrow> False) b))"

text \<open>\<open>resilientCall\<close>: the breaker around the retry loop, with the number of calls of \<open>fn\<close> made.\<close>

definition resilientCall ::
  "timestamp \<Rightarrow> timestamp \<Rightarrow> retry_options \<Rightarrow> (nat \<Rightarrow> timestamp) \<Rightarrow> (nat \<Rightarrow> real)
     \<Rightarrow> (nat \<Rightarrow> privy_error + 'a) \<Rightarrow> privy_breaker \<Rightarrow> (privy_error + 'a) \<times> nat \<times> privy_breaker" where
  "resilientCall t0 t1 o' clock rnd fn b =
     (case pb_enter t0 b of
        (Inl e, b1) \<Rightarrow> (Inl e, 0, b1)
      | (Inr st, b1) \<Rightarrow>
          let (r, ds, n) = withRetry o' clock rnd fn
          in (r, n, pb_leave t1 st (case r of Inr _ \<Rightarrow> True | Inl _ \<Rightarrow> False) b1))"

text \<open>The gauge \<open>createPrivyCircuitBreaker\<close> keeps through \<open>onStateChange\<close>.\<close>

definition gauge_change :: "PrivyState \<times> PrivyState \<Rightarrow> (PrivyState \<Rightarrow> int) \<Rightarrow> (PrivyState \<Rightarrow> int)" where
  "gauge_change ch g = (\<lambda>s. if s = snd ch then 1 else 0)"

definition privyCircuitState :: "privy_breaker \<Rightarrow> (PrivyState \<Rightarrow> int)" where
  "privyCircuitState b = fold gauge_change (pb_changes b) (\<lambda>_. 0)"

definition createPrivyCircuitBreaker :: "int \<Rightarrow> int \<Rightarrow> bool \<Rightarrow> timestamp \<Rightarrow> privy_breaker" where
  "createPrivyCircuitBreaker = new_PrivyBreaker"

lemmas pb_defs = pb_transition_def pb_getState_def pb_recordSuccess_def pb_recordFailure_def
  pb_enter_def pb_leave_def Let_def

subsection \<open>Overlapping calls\<close>

record privy_system =
  ps_breaker :: privy_breaker
  ps_calls :: "PrivyState list"

datatype privy_event = Call timestamp | Return timestamp nat bool

fun ps_step :: "privy_event \<Rightarrow> privy_system \<Rightarrow> privy_system" where
  "ps_step (Call now) s =
     (case pb_enter now (ps_breaker s) of
        (Inl _, b) \<Rightarrow> s\<lparr>ps_breaker := b\<rparr>
      | (Inr st, b) \<Rightarrow> s\<lparr>ps_breaker := b, ps_calls := ps_calls s @ [st]\<rparr>)"
| "ps_step (Return now i succeeded) s =
     (if i < length (ps_calls s)
      then s\<lparr>ps_breaker := pb_leave now (ps_calls s ! i) succeeded (ps_breaker s),
             ps_calls := remove_nth i (ps_calls s)\<rparr>
      else s)"

definition probes :: "privy_system \<Rightarrow> nat" where
  "probes s = count_list (ps_calls s) Half_open"

text \<open>
  The probe flag is set exactly while one admitted half-open call is in flight; the count stays
  between 0 and the threshold outside an open breaker, and is the threshold inside one unless it
  started open; the last state change announced is the current state.
\<close>

definition ps_ok :: "privy_system \<Rightarrow> bool" where
  "ps_ok s \<longleftrightarrow>
     (let b = ps_breaker s in
       probes s = (if probeInFlight b then 1 else 0) \<and>
       0 \<le> consecutiveFailures b \<and> 1 \<le> pb_failureThreshold b \<and> 0 \<le> pb_resetTimeoutMs b \<and>
       (pb_state b = Closed \<longrightarrow> consecutiveFailures b < pb_failureThreshold b) \<and>
       (pb_changes b \<noteq> [] \<longrightarrow> snd (last (pb_changes b)) = pb_state b))"

lemma pb_enter_probe:
  "pb_enter now b = (r, b') \<Longrightarrow>
     (case r of
        Inl _ \<Rightarrow> probeInFlight b' = probeInFlight b
      | Inr st \<Rightarrow> (if st = Half_open then \<not> probeInFlight b \<and> probeInFlight b'
                   else st = Closed \<and> probeInFlight b' = probeInFlight b))"
  by (auto simp: pb_defs split: PrivyState.splits if_splits)

lemma pb_leave_probe:
  "probeInFlight (pb_leave now st ok b) = (if st = Half_open then False else probeInFlight b)"
  by (auto simp: pb_defs)

definition pb_ok :: "privy_breaker \<Rightarrow> bool" where
  "pb_ok b \<longleftrightarrow>
     0 \<le> consecutiveFailures b \<and> 1 \<le> pb_failureThreshold b \<and> 0 \<le> pb_resetTimeoutMs b \<and>
     (pb_state b = Closed \<longrightarrow> consecutiveFailures b < pb_failureThreshold b) \<and>
     (pb_changes b \<noteq> [] \<longrightarrow> snd (last (pb_changes b)) = pb_state b)"

lemma ps_ok_eq: "ps_ok s \<longleftrightarrow> probes s = (if probeInFlight (ps_breaker s) then 1 else 0) \<and> pb_ok (ps_breaker s)"
  by (auto simp: ps_ok_def pb_ok_def Let_def)

lemma pb_ok_probe [simp]: "pb_ok (b\<lparr>probeInFlight := p\<rparr>) = pb_ok b"
  by (simp add: pb_ok_def)

lemma pb_ok_getState: "pb_ok b \<Longrightarrow> pb_ok (pb_getState now b)"
  by (auto simp: pb_ok_def pb_defs)

lemma pb_ok_enter: "pb_ok b \<Longrightarrow> pb_ok (snd (pb_enter now b))"
  using pb_ok_getState [of b now]
  by (auto simp: pb_enter_def Let_def split: PrivyState.splits)

lemma pb_ok_recordSuccess: "pb_ok b \<Longrightarrow> pb_ok (pb_recordSuccess b)"
  by (auto simp: pb_ok_def pb_recordSuccess_def pb_transition_def Let_def)

lemma pb_ok_recordFailure: "pb_ok b \<Longrightarrow> pb_ok (pb_recordFailure now b)"
  by (auto simp: pb_ok_def pb_recordFailure_def pb_transition_def Let_def)

lemma pb_ok_leave: "pb_ok b \<Longrightarrow> pb_ok (pb_leave now st ok b)"
  by (auto simp: pb_leave_def Let_def pb_ok_recordSuccess pb_ok_recordFailure)

lemma ps_ok_step: "ps_ok s \<Longrightarrow> ps_ok (ps_step e s)"
proof (cases e)
  case (Call now)
  assume ok: "ps_ok s"
  obtain r b where rb: "pb_enter now (ps_breaker s) = (r, b)" by force
  with ok pb_ok_enter [of "ps_breaker s" now] have "pb_ok b" by (simp add: ps_ok_eq)
  with ok rb pb_enter_probe [OF rb] Call show ?thesis
    by (cases r) (auto simp: ps_ok_eq probes_def count_list_append split: if_splits)
next
  case (Return now i ok)
  assume inv: "ps_ok s"
  show ?thesis
  proof (cases "i < length (ps_calls s)")
    case True
    with inv Return count_list_nth_pos [OF True, of Half_open] show ?thesis
      by (auto simp: ps_ok_eq probes_def pb_ok_leave pb_leave_probe count_list_remove_nth split: if_splits)
  next
    case False
    with inv Return show ?thesis by simp
  qed
qed

interpretation psm: machine ps_step ps_ok
  by unfold_locales (rule ps_ok_step)

definition ps_init :: "int \<Rightarrow> int \<Rightarrow> bool \<Rightarrow> timestamp \<Rightarrow> privy_system" where
  "ps_init threshold reset startsOpen now =
     \<lparr>ps_breaker = createPrivyCircuitBreaker threshold reset startsOpen now, ps_calls = []\<rparr>"

lemma ps_ok_init: "ps_ok (ps_init threshold reset startsOpen now)"
  by (simp add: ps_ok_def ps_init_def probes_def createPrivyCircuitBreaker_def new_PrivyBreaker_def
      less_max_iff_disj)

lemma fold_gauge_last:
  "chs \<noteq> [] \<Longrightarrow> fold gauge_change chs g = (\<lambda>s. if s = snd (last chs) then 1 else 0)"
  by (induction chs arbitrary: g) (auto simp: gauge_change_def)

subsection \<open>Properties\<close>

text \<open>
  The retry loop calls the wrapped function at least once and at most \<open>attempts\<close> times, with
  one sleep between two calls; it goes on only after a retryable failure and stops at the first
  success, at the first failure that is not retryable (rethrown as it is), or after the last
  attempt (wrapped as exhausted).
\<close>

theorem withRetry_outcome:
  assumes "withRetry opts clock rnd fn = (r, ds, n)"
  shows "1 \<le> n \<and> n \<le> totalAttempts opts \<and> length ds = n - 1 \<and>
     (\<forall>j\<in>{1..<n}. \<exists>e. fn j = Inl e \<and> isRetryableError e) \<and>
     (case fn n of
        Inr v \<Rightarrow> r = Inr v
      | Inl e \<Rightarrow> if isRetryableError e
                 then n = totalAttempts opts \<and> r = Inl (RetriesExhaustedError (int n) e)
                 else r = Inl e)"
proof -
  obtain r' where loop: "retry_loop opts clock rnd fn 1 (totalAttempts opts - 1) = (r', ds, n)"
    and r: "r = (case r' of Inr v \<Rightarrow> Inr v
        | Inl e \<Rightarrow> (if isRetryableError e then Inl (RetriesExhaustedError (int (totalAttempts opts)) e)
                    else Inl e))"
    using assms by (auto simp: withRetry_def Let_def split: prod.splits sum.splits)
  have total: "1 \<le> totalAttempts opts" by (simp add: totalAttempts_def)
  from retry_loop_result [OF loop] total
  have *: "1 \<le> n" "n \<le> totalAttempts opts" "r' = fn n" "length ds = n - 1"
    "\<forall>j. 1 \<le> j \<longrightarrow> j < n \<longrightarrow> \<not> gives_up (fn j)" "gives_up (fn n) \<or> n = totalAttempts opts"
    by auto
  have retried: "\<forall>j\<in>{1..<n}. \<exists>e. fn j = Inl e \<and> isRetryableError e"
  proof
    fix j assume "j \<in> {1..<n}"
    with *(5) have "\<not> gives_up (fn j)" by simp
    then show "\<exists>e. fn j = Inl e \<and> isRetryableError e"
      by (simp add: gives_up_def split: sum.splits)
  qed
  show ?thesis
  proof (cases "fn n")
    case (Inl e)
    with *(1-4,6) r retried show ?thesis by (simp add: gives_up_def)
  next
    case (Inr v)
    with *(1-4) r retried show ?thesis by simp
  qed
qed

definition flaky :: "nat \<Rightarrow> privy_error + string" where
  "flaky k = (if k < 3 then Inl (Httpish (Some 503) None None) else Inr ''ok'')"

definition five_attempts :: retry_options where
  "five_attempts = \<lparr>ro_attempts = 5, ro_baseDelayMs = 100, ro_maxDelayMs = 1000\<rparr>"

theorem withRetry_outcome_witness:
  "\<exists>ds. withRetry five_attempts (\<lambda>_. 0) (\<lambda>_. 1 / 2) flaky = (Inr ''ok'', ds, 3) \<and> length ds = 2"
proof -
  have run: "withRetry five_attempts (\<lambda>_. 0) (\<lambda>_. 1 / 2) flaky = (Inr ''ok'', [50, 100], 3)"
    by (simp add: withRetry_def totalAttempts_def five_attempts_def retry_loop.simps flaky_def
        retry_delay_def backoffCeiling_def js_round_def Let_def numeral_eq_Suc)
  from withRetry_outcome [OF run] run show ?thesis by auto
qed

text \<open>
  Every delay slept is the one the server asked for when the failure carries a usable
  retry-after header, and otherwise lies between 0 and the exponential ceiling, so never above
  \<open>maxDelayMs\<close>.
\<close>

theorem withRetry_delays:
  assumes "withRetry opts clock rnd fn = (r, ds, n)" and "i < length ds"
    and "\<forall>k. 0 \<le> rnd k \<and> rnd k < 1" and "0 \<le> ro_baseDelayMs opts" and "0 \<le> ro_maxDelayMs opts"
  shows "\<exists>e. fn (Suc i) = Inl e \<and>
     (case retryAfterMs (clock (Suc i)) e of
        Some d \<Rightarrow> ds ! i = d
      | None \<Rightarrow> 0 \<le> ds ! i \<and> ds ! i \<le> min (ro_maxDelayMs opts) (ro_baseDelayMs opts * 2 ^ i))"
proof -
  obtain r' where "retry_loop opts clock rnd fn 1 (totalAttempts opts - 1) = (r', ds, n)"
    using assms(1) by (auto simp: withRetry_def Let_def split: prod.splits sum.splits)
  from retry_loop_delays [OF this assms(2)] obtain e
    where e: "fn (Suc i) = Inl e" "ds ! i = retry_delay opts clock rnd (Suc i) e"
    by auto
  show ?thesis
  proof (cases "retryAfterMs (clock (Suc i)) e")
    case None
    with retry_delay_bounds [of rnd "Suc i" opts clock e] assms(3-5) e show ?thesis
      by (auto simp: backoffCeiling_def)
  next
    case (Some d)
    with e show ?thesis by (auto simp: retry_delay_def)
  qed
qed

theorem withRetry_delays_witness:
  "\<exists>ds n. withRetry five_attempts (\<lambda>_. 0) (\<lambda>_. 1 / 2) flaky = (Inr ''ok'', ds, n) \<and>
     0 \<le> ds ! 1 \<and> ds ! 1 \<le> 200"
proof -
  have run: "withRetry five_attempts (\<lambda>_. 0) (\<lambda>_. 1 / 2) flaky = (Inr ''ok'', [50, 100], 3)"
    by (simp add: withRetry_def totalAttempts_def five_attempts_def retry_loop.simps flaky_def
        retry_delay_def backoffCeiling_def js_round_def Let_def numeral_eq_Suc)
  have "\<exists>e. flaky (Suc 1) = Inl e \<and>
     (case retryAfterMs 0 e of
        Some d \<Rightarrow> ([50, 100] :: int list) ! 1 = d
      | None \<Rightarrow> 0 \<le> ([50, 100] :: int list) ! 1 \<and>
          ([50, 100] :: int list) ! 1 \<le> min (ro_maxDelayMs five_attempts) (ro_baseDelayMs five_attempts * 2 ^ 1))"
    by (rule withRetry_delays [OF run]) (simp_all add: five_attempts_def)
  then have "(0::int) \<le> [50, 100] ! 1 \<and> ([50, 100] :: int list) ! 1 \<le> 200"
    by (auto simp: flaky_def five_attempts_def)
  with run show ?thesis by blast
qed

text \<open>
  However calls to Privy overlap, at most one probe of a half-open breaker is in flight, and
  the breaker knows it: while that probe runs, every other call that finds the breaker half open
  is rejected without being made.
\<close>

theorem privy_single_probe:
  assumes "s = fold ps_step es (ps_init threshold reset startsOpen t0)"
  shows "probes s \<le> 1 \<and> (probeInFlight (ps_breaker s) \<longleftrightarrow> probes s = 1) \<and>
     (probes s = 1 \<longrightarrow> pb_state (pb_getState now (ps_breaker s)) = Half_open \<longrightarrow>
        ps_calls (ps_step (Call now) s) = ps_calls s)"
proof -
  have "ps_ok s"
    unfolding assms by (rule psm.run_ok [OF ps_ok_init])
  moreover have "probeInFlight (pb_getState now (ps_breaker s)) = probeInFlight (ps_breaker s)"
    by (simp add: pb_getState_def pb_transition_def Let_def)
  ultimately show ?thesis
    by (auto simp: ps_ok_eq pb_enter_def Let_def split: if_splits)
qed

theorem privy_single_probe_witness:
  "let s = fold ps_step [Call 0, Return 1 0 False, Call 50000] (ps_init 1 30000 False 0) in
     probes s = 1 \<and> ps_calls (ps_step (Call 50001) s) = ps_calls s"
proof -
  let ?es = "[Call 0, Return 1 0 False, Call 50000]"
  let ?s = "fold ps_step ?es (ps_init 1 30000 False 0)"
  have s: "?s = \<lparr>ps_breaker = \<lparr>pb_failureThreshold = 1, pb_resetTimeoutMs = 30000,
      pb_state = Half_open, consecutiveFailures = 1, pb_openedAt = 1, probeInFlight = True,
      pb_changes = [(Closed, Open), (Open, Half_open)]\<rparr>, ps_calls = [Half_open]\<rparr>"
    by (simp add: pb_defs ps_init_def createPrivyCircuitBreaker_def new_PrivyBreaker_def remove_nth_def)
  have "probes ?s = 1" and "pb_state (pb_getState 50001 (ps_breaker ?s)) = Half_open"
    unfolding s by (simp_all add: probes_def pb_getState_def)
  with privy_single_probe [OF refl, of ?es 1 30000 False 0 50001] show ?thesis
    unfolding Let_def by blast
qed

text \<open>
  A resilient call is one failure for the breaker however often it was retried inside: an open
  breaker whose window has not passed makes no call at all and keeps its state, and an admitted
  call adds at most one to the count of consecutive failures, or sets it to the threshold when it
  opens the breaker.
\<close>

theorem resilientCall_counts_once:
  assumes "resilientCall t0 t1 opts clock rnd fn b = (r, n, b')"
  shows "(pb_state b = Open \<and> t0 - pb_openedAt b < pb_resetTimeoutMs b \<longrightarrow>
        n = 0 \<and> b' = b \<and> r = Inl (CircuitOpenError (pb_resetTimeoutMs b - (t0 - pb_openedAt b)))) \<and>
     (pb_state b = Closed \<longrightarrow>
        1 \<le> n \<and> n \<le> totalAttempts opts \<and>
        (case r of
           Inr _ \<Rightarrow> pb_state b' = Closed \<and> consecutiveFailures b' = 0
         | Inl _ \<Rightarrow> if consecutiveFailures b + 1 < pb_failureThreshold b
                    then pb_state b' = Closed \<and> consecutiveFailures b' = consecutiveFailures b + 1
                    else pb_state b' = Open \<and> consecutiveFailures b' = pb_failureThreshold b \<and>
                         pb_openedAt b' = t1))"
proof (intro conjI impI)
  assume "pb_state b = Open \<and> t0 - pb_openedAt b < pb_resetTimeoutMs b"
  with assms show "n = 0" "b' = b"
    "r = Inl (CircuitOpenError (pb_resetTimeoutMs b - (t0 - pb_openedAt b)))"
    by (auto simp: resilientCall_def pb_enter_def pb_getState_def getRetryAfterMs_def Let_def)
next
  assume st: "pb_state b = Closed"
  then have "pb_enter t0 b = (Inr Closed, b)"
    by (simp add: pb_enter_def pb_getState_def)
  with assms obtain ds where run: "withRetry opts clock rnd fn = (r, ds, n)"
    and b': "b' = pb_leave t1 Closed (case r of Inr _ \<Rightarrow> True | Inl _ \<Rightarrow> False) b"
    by (auto simp: resilientCall_def split: prod.splits)
  obtain r' where "retry_loop opts clock rnd fn 1 (totalAttempts opts - 1) = (r', ds, n)"
    using run by (auto simp: withRetry_def Let_def split: prod.splits sum.splits)
  from retry_loop_result [OF this] show "1 \<le> n" "n \<le> totalAttempts opts"
    by (auto simp: totalAttempts_def)
  show "case r of
           Inr _ \<Rightarrow> pb_state b' = Closed \<and> consecutiveFailures b' = 0
         | Inl _ \<Rightarrow> if consecutiveFailures b + 1 < pb_failureThreshold b
                    then pb_state b' = Closed \<and> consecutiveFailures b' = consecutiveFailures b + 1
                    else pb_state b' = Open \<and> consecutiveFailures b' = pb_failureThreshold b \<and>
                         pb_openedAt b' = t1"
    using st b' by (auto simp: pb_defs split: sum.splits)
qed

theorem resilientCall_counts_once_witness:
  "let b = createPrivyCircuitBreaker 3 30000 False 0;
       (r, n, b') = resilientCall 0 5 five_attempts (\<lambda>_. 0) (\<lambda>_. 1 / 2) flaky b
   in n \<le> 5 \<and> pb_state b' = Closed \<and> consecutiveFailures b' = 0"
proof -
  let ?b = "createPrivyCircuitBreaker 3 30000 False 0"
  have run: "withRetry five_attempts (\<lambda>_. 0) (\<lambda>_. 1 / 2) flaky = (Inr ''ok'', [50, 100], 3)"
    by (simp add: withRetry_def totalAttempts_def five_attempts_def retry_loop.simps flaky_def
        retry_delay_def backoffCeiling_def js_round_def Let_def numeral_eq_Suc)
  obtain b' where call: "resilientCall 0 5 five_attempts (\<lambda>_. 0) (\<lambda>_. 1 / 2) flaky ?b = (Inr ''ok'', 3, b')"
    by (simp add: resilientCall_def run pb_enter_def pb_getState_def createPrivyCircuitBreaker_def
        new_PrivyBreaker_def Let_def)
  from resilientCall_counts_once [OF call] call show ?thesis
    by (simp add: createPrivyCircuitBreaker_def new_PrivyBreaker_def)
qed

text \<open>
  Once the breaker has changed state, the exported gauge is 1 for its current state and 0 for
  the two others.
\<close>

theorem privy_gauge_shows_state:
  assumes "s = fold ps_step es (ps_init threshold reset startsOpen t0)"
    and "pb_changes (ps_breaker s) \<noteq> []"
  shows "privyCircuitState (ps_breaker s) st = (if st = pb_state (ps_breaker s) then 1 else 0)"
proof -
  have "ps_ok s"
    unfolding assms(1) by (rule psm.run_ok [OF ps_ok_init])
  with assms(2) show ?thesis
    by (simp add: privyCircuitState_def fold_gauge_last ps_ok_eq pb_ok_def)
qed

theorem privy_gauge_shows_state_witness:
  "privyCircuitState (ps_breaker (fold ps_step [Call 0, Return 1 0 False] (ps_init 1 30000 False 0))) Open = 1"
proof -
  let ?s = "fold ps_step [Call 0, Return 1 0 False] (ps_init 1 30000 False 0)"
  have "pb_changes (ps_breaker ?s) \<noteq> []" and "pb_state (ps_breaker ?s) = Open"
    by (simp_all add: pb_defs ps_init_def createPrivyCircuitBreaker_def new_PrivyBreaker_def remove_nth_def)
  with privy_gauge_shows_state [OF refl, of "[Call 0, Return 1 0 False]" 1 30000 False 0 Open]
  show ?thesis by simp
qed

text \<open>
  A call admitted while the breaker was closed that succeeds after the breaker has opened
  closes it at once, whatever is left of the cool-down window.
\<close>

theorem privy_stale_success_closes:
  "let s = fold ps_step [Call 0, Call 0, Return 1 0 False, Return 2 0 True] (ps_init 1 reset False 0) in
     pb_state (ps_breaker (fold ps_step [Call 0, Call 0, Return 1 0 False] (ps_init 1 reset False 0))) = Open \<and>
     pb_state (ps_breaker s) = Closed"
  by (simp add: pb_defs ps_init_def createPrivyCircuitBreaker_def new_PrivyBreaker_def remove_nth_def)

end
