(* ===== verification/Event_Queue.thy ===== *)
theory Event_Queue
  imports AppErrors
begin

text \<open>
  The bounded queue between event fetch and database write, \<open>workers/indexer/BoundedEventQueue.ts\<close>.
  A producer that finds the queue full waits: \<open>waiters\<close> holds the items of the producers whose
  promise is pending, \<open>woken\<close> those whose promise has been resolved and whose loop will look at
  the queue again. The interface the indexer uses is the locale \<open>fifo_buffer\<close>.
\<close>

subsection \<open>State and operations\<close>

record 'a event_queue =
  eq_maxSize :: nat
  eq_items :: "'a list"
  eq_waiters :: "'a list"
  eq_woken :: "'a list"

text \<open>The constructor rejects a size that is not a positive integer.\<close>

definition new_queue :: "int \<Rightarrow> js_error + 'a event_queue" where
  "new_queue maxSize =
     (if maxSize \<le> 0 then Inl (PlainErr ''BoundedEventQueue maxSize must be a positive integer'' None)
      else Inr \<lparr>eq_maxSize = nat maxSize, eq_items = [], eq_waiters = [], eq_woken = []\<rparr>)"

definition queue_size :: "'a event_queue \<Rightarrow> nat" where
  "queue_size q = length (eq_items q)"

definition isFull :: "'a event_queue \<Rightarrow> bool" where
  "isFull q \<longleftrightarrow> eq_maxSize q \<le> length (eq_items q)"

definition isEmpty :: "'a event_queue \<Rightarrow> bool" where
  "isEmpty q \<longleftrightarrow> length (eq_items q) = 0"

definition tryEnqueue :: "'a \<Rightarrow> 'a event_queue \<Rightarrow> bool \<times> 'a event_queue" where
  "tryEnqueue x q = (if isFull q then (False, q) else (True, q\<lparr>eq_items := eq_items q @ [x]\<rparr>))"

text \<open>\<open>enqueue\<close> up to its \<open>await\<close>, and one turn of a resumed producer's loop.\<close>

definition enqueue :: "'a \<Rightarrow> 'a event_queue \<Rightarrow> 'a event_queue" where
  "enqueue x q = (if isFull q then q\<lparr>eq_waiters := eq_waiters q @ [x]\<rparr>
                  else q\<lparr>eq_items := eq_items q @ [x]\<rparr>)"

definition resume_producer :: "'a event_queue \<Rightarrow> 'a event_queue" where
  "resume_producer q =
     (case eq_woken q of [] \<Rightarrow> q | x # ws \<Rightarrow> enqueue x (q\<lparr>eq_woken := ws\<rparr>))"

definition notifySpaceAvailable :: "'a event_queue \<Rightarrow> 'a event_queue" where
  "notifySpaceAvailable q = q\<lparr>eq_waiters := [], eq_woken := eq_woken q @ eq_waiters q\<rparr>"

definition dequeueBatch :: "int \<Rightarrow> 'a event_queue \<Rightarrow> 'a list \<times> 'a event_queue" where
  "dequeueBatch batchSize q =
     (if batchSize \<le> 0 \<or> length (eq_items q) = 0 then ([], q)
      else let n = min (nat batchSize) (length (eq_items q))
           in (take n (eq_items q), notifySpaceAvailable (q\<lparr>eq_items := drop n (eq_items q)\<rparr>)))"

definition drain :: "'a event_queue \<Rightarrow> 'a list \<times> 'a event_queue" where
  "drain q = dequeueBatch (int (length (eq_items q))) q"

definition clear :: "'a event_queue \<Rightarrow> 'a event_queue" where
  "clear q = notifySpaceAvailable (q\<lparr>eq_items := []\<rparr>)"

lemmas eq_defs = isFull_def isEmpty_def tryEnqueue_def enqueue_def resume_producer_def
  notifySpaceAvailable_def dequeueBatch_def drain_def clear_def Let_def

subsection \<open>The queue as a machine\<close>

datatype 'a queue_event =
    Q_try 'a | Q_enqueue 'a | Q_resume | Q_dequeue int | Q_drain | Q_clear

text \<open>A step also appends to the log what a consumer took out.\<close>

fun queue_step :: "'a queue_event \<Rightarrow> 'a event_queue \<times> 'a list \<Rightarrow> 'a event_queue \<times> 'a list" where
  "queue_step (Q_try x) (q, out) = (snd (tryEnqueue x q), out)"
| "queue_step (Q_enqueue x) (q, out) = (enqueue x q, out)"
| "queue_step Q_resume (q, out) = (resume_producer q, out)"
| "queue_step (Q_dequeue n) (q, out) = (let (b, q') = dequeueBatch n q in (q', out @ b))"
| "queue_step Q_drain (q, out) = (let (b, q') = drain q in (q', out @ b))"
| "queue_step Q_clear (q, out) = (clear q, out)"

text \<open>
  The bound holds, and no wake-up is lost: a producer is only left waiting while the queue is full.
\<close>

definition queue_ok :: "'a event_queue \<Rightarrow> bool" where
  "queue_ok q \<longleftrightarrow>
     0 < eq_maxSize q \<and> length (eq_items q) \<le> eq_maxSize q \<and>
     (eq_waiters q \<noteq> [] \<longrightarrow> length (eq_items q) = eq_maxSize q)"

lemma queue_ok_enqueue: "queue_ok q \<Longrightarrow> queue_ok (enqueue x q)"
  by (auto simp: queue_ok_def eq_defs)

lemma queue_ok_resume: "queue_ok q \<Longrightarrow> queue_ok (resume_producer q)"
  by (auto simp: resume_producer_def queue_ok_def intro!: queue_ok_enqueue [unfolded queue_ok_def]
      split: list.splits)

lemma queue_ok_dequeue: "queue_ok q \<Longrightarrow> queue_ok (snd (dequeueBatch n q))"
  by (auto simp: queue_ok_def eq_defs)

lemma queue_ok_step: "queue_ok (fst s) \<Longrightarrow> queue_ok (fst (queue_step e s))"
  using queue_ok_dequeue [of "fst s"]
  by (cases s; cases e)
    (auto simp: queue_ok_enqueue queue_ok_resume drain_def split_beta Let_def,
     auto simp: queue_ok_def eq_defs)

interpretation bqm: machine queue_step "\<lambda>s. queue_ok (fst s)"
  by unfold_locales (rule queue_ok_step)

lemma queue_step_maxSize: "eq_maxSize (fst (queue_step e s)) = eq_maxSize (fst s)"
proof (cases s)
  case (Pair q out)
  show ?thesis unfolding Pair
    by (cases e)
      (simp_all add: tryEnqueue_def enqueue_def resume_producer_def notifySpaceAvailable_def
        dequeueBatch_def drain_def clear_def Let_def split: list.split)
qed

lemma queue_run_maxSize: "eq_maxSize (fst (fold queue_step es s)) = eq_maxSize (fst s)"
  by (induction es arbitrary: s) (simp_all add: queue_step_maxSize)

subsection \<open>The interface the indexer uses\<close>

text \<open>
  A bounded first-in first-out buffer, seen through its contents: \<open>put\<close> on a buffer that is not
  full appends, \<open>take_batch\<close> of a positive size removes a non-empty prefix of a non-empty buffer.
\<close>

locale fifo_buffer =
  fixes contents :: "'q \<Rightarrow> 'a list"
    and room :: "'q \<Rightarrow> nat"
    and full :: "'q \<Rightarrow> bool"
    and put :: "'a \<Rightarrow> 'q \<Rightarrow> 'q"
    and take_batch :: "int \<Rightarrow> 'q \<Rightarrow> 'a list \<times> 'q"
  assumes full_iff: "full q \<longleftrightarrow> room q \<le> length (contents q)"
    and put_contents: "\<not> full q \<Longrightarrow> contents (put x q) = contents q @ [x]"
    and put_room: "room (put x q) = room q"
    and take_contents: "take_batch n q = (b, q') \<Longrightarrow> b @ contents q' = contents q"
    and take_progress: "take_batch n q = (b, q') \<Longrightarrow> 0 < n \<Longrightarrow> contents q \<noteq> [] \<Longrightarrow> b \<noteq> []"
    and take_room: "take_batch n q = (b, q') \<Longrightarrow> room q' = room q"
begin

lemma put_bounded: "\<not> full q \<Longrightarrow> length (contents (put x q)) \<le> room (put x q)"
  by (simp add: put_contents put_room full_iff)

lemma take_shrinks:
  assumes "take_batch n q = (b, q')" "0 < n" "contents q \<noteq> []"
  shows "length (contents q') < length (contents q)"
proof -
  have "length b + length (contents q') = length (contents q)"
    using take_contents [OF assms(1)] by (metis length_append)
  moreover have "0 < length b" using take_progress [OF assms] by simp
  ultimately show ?thesis by linarith
qed

lemma not_full_after_emptying: "contents q = [] \<Longrightarrow> 0 < room q \<Longrightarrow> \<not> full q"
  by (simp add: full_iff)

end

interpretation bq: fifo_buffer eq_items eq_maxSize isFull "\<lambda>x q. snd (tryEnqueue x q)" dequeueBatch
proof unfold_locales
  fix n :: int and q q' :: "'a event_queue" and b :: "'a list"
  show "dequeueBatch n q = (b, q') \<Longrightarrow> 0 < n \<Longrightarrow> eq_items q \<noteq> [] \<Longrightarrow> b \<noteq> []"
    by (cases "eq_items q") (auto simp: eq_defs min_def split: if_splits)
qed (auto simp: eq_defs split: if_splits)

subsection \<open>Properties\<close>

text \<open>
  C12: In every run of producers and consumers the queue never holds more than its maximum, and no
  wake-up is lost: a producer is left waiting only while the queue is full, and the next batch
  taken out wakes every one of them.
\<close>

theorem queue_bounded_no_lost_wakeup:
  assumes "new_queue n = Inr q0" and "(q, out) = fold queue_step es (q0, [])"
  shows "int (length (eq_items q)) \<le> n \<and> (eq_waiters q \<noteq> [] \<longrightarrow> isFull q) \<and>
     (0 < k \<longrightarrow> eq_waiters q \<noteq> [] \<longrightarrow>
        eq_waiters (snd (dequeueBatch k q)) = [] \<and>
        eq_woken (snd (dequeueBatch k q)) = eq_woken q @ eq_waiters q)"
proof -
  from assms(1) have q0: "queue_ok q0" "int (eq_maxSize q0) = n"
    by (auto simp: new_queue_def queue_ok_def split: if_splits)
  then have "queue_ok (fst (fold queue_step es (q0, [])))"
    by (intro bqm.run_ok) simp
  with assms(2) queue_run_maxSize [of es "(q0, [])"] q0 have "queue_ok q" "int (eq_maxSize q) = n"
    by (metis fst_conv)+
  then show ?thesis
    by (auto simp: queue_ok_def isFull_def dequeueBatch_def notifySpaceAvailable_def Let_def)
qed

lemma example_queue_new:
  "new_queue 2 = Inr (\<lparr>eq_maxSize = 2, eq_items = [], eq_waiters = [], eq_woken = []\<rparr> :: nat event_queue)"
  by (simp add: new_queue_def)

lemma example_queue_run:
  "(\<lparr>eq_maxSize = 2, eq_items = [1, 2], eq_waiters = [3], eq_woken = []\<rparr> :: nat event_queue, []) =
   fold queue_step [Q_enqueue 1, Q_enqueue 2, Q_enqueue 3]
     (\<lparr>eq_maxSize = 2, eq_items = [], eq_waiters = [], eq_woken = []\<rparr>, [])"
  by (simp add: eq_defs)

theorem queue_bounded_no_lost_wakeup_witness:
  "isFull (\<lparr>eq_maxSize = 2, eq_items = [1, 2], eq_waiters = [3], eq_woken = []\<rparr> :: nat event_queue) \<and>
   eq_woken (snd (dequeueBatch 1
     (\<lparr>eq_maxSize = 2, eq_items = [1, 2], eq_waiters = [3], eq_woken = []\<rparr> :: nat event_queue))) = [3]"
  using queue_bounded_no_lost_wakeup [OF example_queue_new example_queue_run, of 1] by simp

end
