(* ===== verification/Reorg_Guard.thy ===== *)
theory Reorg_Guard
  imports Prelude
begin

text \<open>
  The indexer's reorg guard, \<open>services/Soroban/IndexerReorgGuard.ts\<close>: from the last processed
  ledger and the tip the RPC reports, the ledger to fetch from. The cursor is a number as the
  database hands it over (\<open>js_num\<close>); the configuration is a parameter, its defaults come from the
  environment.
\<close>

record ReorgGuardConfig =
  overlapWindow :: int
  gapThreshold :: int

record reorg_guard =
  rg_cursor :: "js_num option"
  rg_config :: ReorgGuardConfig

definition default_guard_config :: ReorgGuardConfig where
  "default_guard_config = \<lparr>overlapWindow = 10, gapThreshold = 5\<rparr>"

definition new_guard :: "ReorgGuardConfig \<Rightarrow> reorg_guard" where
  "new_guard cfg = \<lparr>rg_cursor = None, rg_config = cfg\<rparr>"

definition setCursor :: "js_num \<Rightarrow> reorg_guard \<Rightarrow> reorg_guard" where
  "setCursor ledger g = g\<lparr>rg_cursor := Some ledger\<rparr>"

definition getOverlapStart :: "int \<Rightarrow> reorg_guard \<Rightarrow> js_num option" where
  "getOverlapStart latestAvailableLedger g =
     (case rg_cursor g of
        None \<Rightarrow> Some (Num (max 1 (latestAvailableLedger - overlapWindow (rg_config g))))
      | Some cursor \<Rightarrow>
          let expectedNext = js_plus cursor 1 in
          if latestAvailableLedger < num_of cursor
          then Some (Num (max 1 (num_of cursor - overlapWindow (rg_config g))))
          else if js_same latestAvailableLedger cursor then None
          else let gap = latestAvailableLedger - num_of cursor in
               if gap > gapThreshold (rg_config g)
               then Some (Num (max 1 (num_of cursor - overlapWindow (rg_config g))))
               else Some expectedNext)"

definition updateCursor :: "int \<Rightarrow> reorg_guard \<Rightarrow> reorg_guard" where
  "updateCursor processedLedger g =
     (case rg_cursor g of
        None \<Rightarrow> g\<lparr>rg_cursor := Some (Num processedLedger)\<rparr>
      | Some cursor \<Rightarrow>
          if processedLedger > num_of cursor then g\<lparr>rg_cursor := Some (Num processedLedger)\<rparr> else g)"

lemma updateCursor_config [simp]: "rg_config (updateCursor l g) = rg_config g"
  by (auto simp: updateCursor_def split: option.splits)

lemma updateCursor_run:
  "map_option num_of (rg_cursor (fold updateCursor ls (setCursor c g))) = Some (fold max ls (num_of c))"
proof (induction ls arbitrary: c g)
  case Nil
  then show ?case by (simp add: setCursor_def)
next
  case (Cons l ls)
  have "updateCursor l (setCursor c g) = setCursor (if l > num_of c then Num l else c) g"
    by (simp add: updateCursor_def setCursor_def)
  with Cons [of "if l > num_of c then Num l else c" g] show ?case
    by (cases "l > num_of c") (simp_all add: max.absorb1 max.absorb2)
qed

text \<open>
  With a cursor that is a number the fetch never skips a ledger: after processing up to ledger
  \<open>c\<close> the next start is at most \<open>c + 1\<close> and at least 1; there is none exactly when the tip is the
  cursor; the roll back to the overlap window happens exactly when the tip is behind the cursor or
  further ahead than the gap threshold.
\<close>

theorem guard_never_skips:
  assumes "0 \<le> c" and "0 \<le> overlapWindow (rg_config g)"
  shows "case getOverlapStart tip (setCursor (Num c) g) of
      None \<Rightarrow> tip = c
    | Some start \<Rightarrow> tip \<noteq> c \<and> 1 \<le> num_of start \<and> num_of start \<le> c + 1 \<and>
        (num_of start = (if tip < c \<or> tip - c > gapThreshold (rg_config g)
                         then max 1 (c - overlapWindow (rg_config g)) else c + 1))"
  using assms by (auto simp: getOverlapStart_def setCursor_def Let_def)

theorem guard_never_skips_witness:
  "getOverlapStart 103 (setCursor (Num 100) (new_guard default_guard_config)) = Some (Num 101) \<and>
   map_option num_of (getOverlapStart 120 (setCursor (Num 100) (new_guard default_guard_config)))
     = Some 90"
proof -
  let ?g = "new_guard default_guard_config"
  have "case getOverlapStart t (setCursor (Num 100) ?g) of
      None \<Rightarrow> t = 100
    | Some start \<Rightarrow> t \<noteq> 100 \<and> 1 \<le> num_of start \<and> num_of start \<le> 100 + 1 \<and>
        (num_of start = (if t < 100 \<or> t - 100 > gapThreshold (rg_config ?g)
                         then max 1 (100 - overlapWindow (rg_config ?g)) else 100 + 1))" for t
    by (rule guard_never_skips) (simp_all add: new_guard_def default_guard_config_def)
  from this [of 120] show ?thesis
    by (auto simp: new_guard_def default_guard_config_def getOverlapStart_def setCursor_def Let_def
        split: option.splits)
qed

text \<open>
  With the string of digits the database driver returns for the \<open>bigint\<close> cursor column, the
  normal branch concatenates: a positive cursor \<open>c\<close> whose tip is at most the gap threshold ahead,
  the tip equal to the cursor included, is followed by a start of \<open>10 * c + 1\<close>.
\<close>

theorem guard_string_cursor_concatenates:
  assumes "0 < c" and "c \<le> tip" and "tip - c \<le> gapThreshold (rg_config g)"
  shows "getOverlapStart tip (setCursor (Digits c) g) = Some (Digits (10 * c + 1))"
  using assms
  by (simp add: getOverlapStart_def setCursor_def int_str_def nat_str.simps Let_def)

theorem guard_string_cursor_concatenates_witness:
  "getOverlapStart 103 (setCursor (Digits 100) (new_guard default_guard_config)) = Some (Digits 1001)"
  using guard_string_cursor_concatenates [of 100 103 "new_guard default_guard_config"]
  by (simp add: new_guard_def default_guard_config_def)

end
