(* ===== verification/Soroban_Events.thy ===== *)
theory Soroban_Events
  imports AppErrors
begin

text \<open>
  Contract events from the Soroban RPC: the values a decoded \<open>ScVal\<close> may be (\<open>js_value\<close>), the
  normalisation and the request building of \<open>services/Soroban/SorobanEventReader.ts\<close>, the five
  decoders of \<open>eventDecoders.ts\<close> and the contract registry of \<open>IndexerContractRegistry.ts\<close>. The
  RPC server and \<open>scValToNative\<close> of the Stellar SDK are parameters.
\<close>

subsection \<open>Decoded values\<close>

text \<open>
  What \<open>scValToNative\<close> gives: 64 and 128 bit integers are JavaScript bigints (\<open>JBig\<close>), 32 bit
  ones numbers. Byte arrays are arrays here.
\<close>

datatype js_value =
    JUndef | JNull | JBool bool | JNum int | JBig int | JStr string
  | JArr "js_value list" | JObj "(string \<times> js_value) list"

definition nullish :: "js_value \<Rightarrow> bool" where
  "nullish v \<longleftrightarrow> v = JUndef \<or> v = JNull"

text \<open>\<open>a ?? b\<close> and the test of \<open>a || b\<close>.\<close>

definition coalesce :: "js_value \<Rightarrow> js_value \<Rightarrow> js_value" where
  "coalesce a b = (if nullish a then b else a)"

fun js_true :: "js_value \<Rightarrow> bool" where
  "js_true JUndef = False"
| "js_true JNull = False"
| "js_true (JBool b) = b"
| "js_true (JNum n) = (n \<noteq> 0)"
| "js_true (JBig n) = (n \<noteq> 0)"
| "js_true (JStr s) = (s \<noteq> [])"
| "js_true (JArr _) = True"
| "js_true (JObj _) = True"

text \<open>Reading a property that only objects have, and an element of an array.\<close>

definition js_get :: "js_value \<Rightarrow> string \<Rightarrow> js_value" where
  "js_get v k = (case v of JObj fs \<Rightarrow> (case map_of fs k of Some x \<Rightarrow> x | None \<Rightarrow> JUndef) | _ \<Rightarrow> JUndef)"

definition topic_at :: "js_value list \<Rightarrow> nat \<Rightarrow> js_value" where
  "topic_at ts i = (if i < length ts then ts ! i else JUndef)"

subsection \<open>Normalised events and pages\<close>

record contract_event =
  ev_id :: string
  ev_ledger :: int
  ev_txHash :: string
  ev_contractId :: "string option"
  ev_topic :: "js_value list"
  ev_value :: js_value

record events_page =
  pg_events :: "contract_event list"
  pg_cursor :: string
  pg_latestLedger :: int

text \<open>A raw event: not an object, or an object whose fields are read one by one.\<close>

datatype raw_event =
    RawOther
  | RawEvent (raw_id: js_value) (raw_ledger: js_value) (raw_txHash: js_value)
      (raw_contractId: js_value) (raw_topic: js_value) (raw_value: js_value)

fun str_or :: "js_value \<Rightarrow> string option" where
  "str_or (JStr s) = Some s"
| "str_or _ = None"

text \<open>All elements converted, or nothing when one conversion throws.\<close>

fun convert_all :: "(js_value \<Rightarrow> js_value option) \<Rightarrow> js_value list \<Rightarrow> js_value list option" where
  "convert_all f [] = Some []"
| "convert_all f (x # xs) =
     (case f x of None \<Rightarrow> None
      | Some y \<Rightarrow> (case convert_all f xs of None \<Rightarrow> None | Some ys \<Rightarrow> Some (y # ys)))"

fun normalizeEvent :: "(js_value \<Rightarrow> js_value option) \<Rightarrow> raw_event \<Rightarrow> contract_event option" where
  "normalizeEvent scValToNative RawOther = None"
| "normalizeEvent scValToNative (RawEvent i l tx c t v) =
     (case (i, l) of
        (JStr eid, JNum ledger) \<Rightarrow>
          (case (case t of JArr ts \<Rightarrow> convert_all scValToNative ts | _ \<Rightarrow> Some []) of
             None \<Rightarrow> None
           | Some topic \<Rightarrow>
               (case (if v \<noteq> JUndef then scValToNative v else Some JNull) of
                  None \<Rightarrow> None
                | Some val \<Rightarrow>
                    Some \<lparr>ev_id = eid, ev_ledger = ledger,
                          ev_txHash = (case str_or tx of Some s \<Rightarrow> s | None \<Rightarrow> []),
                          ev_contractId = str_or c, ev_topic = topic, ev_value = val\<rparr>))
      | _ \<Rightarrow> None)"

subsection \<open>Fetching a page\<close>

record fetch_options =
  fo_contractIds :: "string list"
  fo_cursor :: "string option"
  fo_startLedger :: "int option"
  fo_endLedger :: "int option"
  fo_limit :: "int option"

text \<open>The request sent to the RPC: cursor mode or range mode, never both.\<close>

datatype rpc_request =
    CursorRequest "string list" string int
  | RangeRequest "string list" int "int option" int

definition build_request :: "fetch_options \<Rightarrow> rpc_request" where
  "build_request o' =
     (let limit = (case fo_limit o' of Some l \<Rightarrow> l | None \<Rightarrow> 200) in
      if truthy (fo_cursor o')
      then CursorRequest (fo_contractIds o') (the (fo_cursor o')) limit
      else RangeRequest (fo_contractIds o')
             (case fo_startLedger o' of Some s \<Rightarrow> s | None \<Rightarrow> 1) (fo_endLedger o') limit)"

record rpc_response =
  rr_events :: "raw_event list"
  rr_cursor :: "string option"
  rr_latestLedger :: int

text \<open>\<open>if (!ev.contractId && contractIds.length === 1) ev.contractId = contractIds[0]\<close>\<close>

definition fill_contract :: "string list \<Rightarrow> contract_event \<Rightarrow> contract_event" where
  "fill_contract contractIds ev =
     (if \<not> truthy (ev_contractId ev) \<and> length contractIds = 1
      then ev\<lparr>ev_contractId := Some (hd contractIds)\<rparr> else ev)"

definition fetchEvents ::
  "(js_value \<Rightarrow> js_value option) \<Rightarrow> (rpc_request \<Rightarrow> js_error + rpc_response) \<Rightarrow>
   fetch_options \<Rightarrow> js_error + events_page" where
  "fetchEvents scValToNative getEvents o' =
     (case getEvents (build_request o') of
        Inl e \<Rightarrow> Inl e
      | Inr resp \<Rightarrow>
          Inr \<lparr>pg_events = map (fill_contract (fo_contractIds o'))
                              (List.map_filter (normalizeEvent scValToNative) (rr_events resp)),
               pg_cursor = (case rr_cursor resp of Some c \<Rightarrow> c | None \<Rightarrow> []),
               pg_latestLedger = rr_latestLedger resp\<rparr>)"

subsection \<open>Decoders\<close>

datatype contract_type = Nft | Artist | Catalog | Royalty | Marketplace

fun contract_type_str :: "contract_type \<Rightarrow> string" where
  "contract_type_str Nft = ''nft''"
| "contract_type_str Artist = ''artist''"
| "contract_type_str Catalog = ''catalog''"
| "contract_type_str Royalty = ''royalty''"
| "contract_type_str Marketplace = ''marketplace''"

record event_dto =
  dto_network :: "string option"
  dto_contractId :: "string option"
  dto_contractType :: "string option"
  dto_eventType :: string
  dto_eventId :: "string option"
  dto_address :: "string option"
  dto_txHash :: "string option"
  dto_ledger :: "int option"
  dto_payload :: js_value
  dto_data :: js_value

text \<open>The name is in the first topic, either bare or as the \<open>symbol\<close> or \<open>name\<close> of an object.\<close>

definition eventSymbol :: "js_value list \<Rightarrow> string" where
  "eventSymbol topic =
     (case topic_at topic 0 of
        JObj fs \<Rightarrow> (case (js_get (JObj fs) ''symbol'', js_get (JObj fs) ''name'') of
            (JStr s, _) \<Rightarrow> s | (_, JStr s) \<Rightarrow> s | _ \<Rightarrow> [])
      | JStr s \<Rightarrow> s
      | _ \<Rightarrow> [])"

definition addressOf :: "js_value \<Rightarrow> string option" where
  "addressOf v =
     (case v of
        JStr s \<Rightarrow> Some s
      | JObj fs \<Rightarrow> (case (js_get v ''address'', js_get v ''key'') of
            (JStr s, _) \<Rightarrow> Some s | (_, JStr s) \<Rightarrow> Some s | _ \<Rightarrow> None)
      | _ \<Rightarrow> None)"

definition opt_value :: "string option \<Rightarrow> js_value" where
  "opt_value s = (case s of Some x \<Rightarrow> JStr x | None \<Rightarrow> JUndef)"

definition baseDTO :: "contract_event \<Rightarrow> contract_type \<Rightarrow> string \<Rightarrow> js_value \<Rightarrow> string option \<Rightarrow> event_dto" where
  "baseDTO ev ct eventType payload address =
     \<lparr>dto_network = None, dto_contractId = ev_contractId ev,
      dto_contractType = Some (contract_type_str ct), dto_eventType = eventType,
      dto_eventId = Some (ev_id ev), dto_address = address,
      dto_txHash = or_none (Some (ev_txHash ev)), dto_ledger = Some (ev_ledger ev),
      dto_payload = payload, dto_data = JUndef\<rparr>"

text \<open>\<open>topic[i] ?? null\<close> and \<open>addressOf(topic[i] ?? value)\<close>.\<close>

definition topic_or_null :: "contract_event \<Rightarrow> nat \<Rightarrow> js_value" where
  "topic_or_null ev i = coalesce (topic_at (ev_topic ev) i) JNull"

definition address_at :: "contract_event \<Rightarrow> nat \<Rightarrow> string option" where
  "address_at ev i = addressOf (coalesce (topic_at (ev_topic ev) i) (ev_value ev))"

definition nftDecoder :: "contract_event \<Rightarrow> event_dto option" where
  "nftDecoder ev =
     (let symbol = eventSymbol (ev_topic ev) in
      if symbol = ''mint'' then
        Some (baseDTO ev Nft ''mint''
          (JObj [(''tokenId'', coalesce (ev_value ev) JNull),
                 (''owner'', opt_value (addressOf (topic_at (ev_topic ev) 1)))])
          (addressOf (topic_at (ev_topic ev) 1)))
      else if symbol = ''transfer'' then
        Some (baseDTO ev Nft ''transfer''
          (JObj [(''tokenId'', topic_or_null ev 1),
                 (''from'', opt_value (addressOf (topic_at (ev_topic ev) 2))),
                 (''to'', opt_value (address_at ev 3))])
          (address_at ev 3))
      else None)"

definition artistDecoder :: "contract_event \<Rightarrow> event_dto option" where
  "artistDecoder ev =
     (let symbol = eventSymbol (ev_topic ev) in
      if symbol = ''artist_registered'' then
        Some (baseDTO ev Artist ''artist_registered''
          (JObj [(''artist'', topic_or_null ev 1), (''payload'', ev_value ev)]) (address_at ev 1))
      else if symbol = ''profile_updated'' then
        Some (baseDTO ev Artist ''profile_updated''
          (JObj [(''artist'', topic_or_null ev 1), (''changes'', ev_value ev)]) (address_at ev 1))
      else None)"

text \<open>\<open>typeof x === 'number'\<close>: a bigint is not one.\<close>

definition song_duration :: "js_value \<Rightarrow> (string \<times> js_value) list" where
  "song_duration v =
     (case js_get v ''durationSeconds'' of
        JNum d \<Rightarrow> [(''durationSeconds'', JNum d)]
      | _ \<Rightarrow> (case v of JNum d \<Rightarrow> [(''durationSeconds'', JNum d)] | _ \<Rightarrow> []))"

definition catalogDecoder :: "contract_event \<Rightarrow> event_dto option" where
  "catalogDecoder ev =
     (let symbol = eventSymbol (ev_topic ev) in
      if symbol = ''song_registered'' then
        Some (baseDTO ev Catalog ''song_registered''
          (JObj [(''songId'', topic_or_null ev 1), (''data'', ev_value ev)]) (address_at ev 2))
      else if symbol = ''album_created'' then
        Some (baseDTO ev Catalog ''album_created''
          (JObj [(''albumId'', topic_or_null ev 1), (''data'', ev_value ev)]) (address_at ev 2))
      else if symbol = ''song_played'' then
        Some (baseDTO ev Catalog ''song_played''
          (JObj ([(''songId'', topic_or_null ev 1), (''listener'', opt_value (address_at ev 2))]
                 @ song_duration (ev_value ev)))
          (address_at ev 2))
      else None)"

definition royaltyDecoder :: "contract_event \<Rightarrow> event_dto option" where
  "royaltyDecoder ev =
     (if eventSymbol (ev_topic ev) = ''royalty_payout'' then
        let payload = (if js_true (ev_value ev) then ev_value ev
                       else JObj [(''recipient'', topic_or_null ev 1),
                                  (''amountStroops'', topic_or_null ev 2)])
        in Some (baseDTO ev Royalty ''royalty_payout'' payload
             (addressOf (coalesce (js_get payload ''recipient'')
                (coalesce (topic_at (ev_topic ev) 1) (js_get payload ''recipientPublicKey'')))))
      else None)"

definition marketplaceDecoder :: "contract_event \<Rightarrow> event_dto option" where
  "marketplaceDecoder ev =
     (let symbol = eventSymbol (ev_topic ev) in
      if symbol = ''listing_created'' then
        Some (baseDTO ev Marketplace ''listing_created''
          (JObj [(''listing'', topic_or_null ev 1), (''seller'', topic_or_null ev 2),
                 (''data'', ev_value ev)]) (address_at ev 2))
      else if symbol = ''sale'' then
        Some (baseDTO ev Marketplace ''sale''
          (JObj [(''listing'', topic_or_null ev 1), (''buyer'', topic_or_null ev 2),
                 (''amountStroops'', topic_or_null ev 3), (''data'', ev_value ev)]) (address_at ev 2))
      else if symbol = ''listing_cancelled'' then
        Some (baseDTO ev Marketplace ''listing_cancelled''
          (JObj [(''listing'', topic_or_null ev 1)]) None)
      else None)"

fun EVENT_DECODERS :: "contract_type \<Rightarrow> contract_event \<Rightarrow> event_dto option" where
  "EVENT_DECODERS Nft = nftDecoder"
| "EVENT_DECODERS Artist = artistDecoder"
| "EVENT_DECODERS Catalog = catalogDecoder"
| "EVENT_DECODERS Royalty = royaltyDecoder"
| "EVENT_DECODERS Marketplace = marketplaceDecoder"

definition ALL_CONTRACT_TYPES :: "contract_type list" where
  "ALL_CONTRACT_TYPES = [Nft, Artist, Catalog, Royalty, Marketplace]"

text \<open>The registry: the configured ids (\<open>config/soroban.ts\<close>) are a parameter.\<close>

record indexer_contract =
  ic_contractType :: contract_type
  ic_contractId :: string
  ic_decoder :: "contract_event \<Rightarrow> event_dto option"

definition buildIndexerContracts ::
  "(contract_type \<Rightarrow> string) \<Rightarrow> (contract_type \<rightharpoonup> string) \<Rightarrow> indexer_contract list" where
  "buildIndexerContracts configured overrides =
     map (\<lambda>ct. \<lparr>ic_contractType = ct,
                ic_contractId = (case overrides ct of Some i \<Rightarrow> i | None \<Rightarrow> configured ct),
                ic_decoder = EVENT_DECODERS ct\<rparr>) ALL_CONTRACT_TYPES"

lemmas decoder_defs = nftDecoder_def artistDecoder_def catalogDecoder_def royaltyDecoder_def
  marketplaceDecoder_def baseDTO_def Let_def

text \<open>The event names each contract type documents.\<close>

fun handled :: "contract_type \<Rightarrow> string list" where
  "handled Nft = [''mint'', ''transfer'']"
| "handled Artist = [''artist_registered'', ''profile_updated'']"
| "handled Catalog = [''song_registered'', ''album_created'', ''song_played'']"
| "handled Royalty = [''royalty_payout'']"
| "handled Marketplace = [''listing_created'', ''sale'', ''listing_cancelled'']"

text \<open>No event name is handled by two contract types.\<close>

lemma handled_disjoint: "s \<in> set (handled ct) \<Longrightarrow> s \<in> set (handled ct') \<Longrightarrow> ct = ct'"
  by (cases ct; cases ct') auto

lemma ALL_CONTRACT_TYPES_all: "set ALL_CONTRACT_TYPES = UNIV" "distinct ALL_CONTRACT_TYPES"
proof -
  have "ct \<in> set ALL_CONTRACT_TYPES" for ct by (cases ct) (simp_all add: ALL_CONTRACT_TYPES_def)
  then show "set ALL_CONTRACT_TYPES = UNIV" by blast
qed (simp add: ALL_CONTRACT_TYPES_def)

lemma decoder_defined: "EVENT_DECODERS ct ev \<noteq> None \<longleftrightarrow> eventSymbol (ev_topic ev) \<in> set (handled ct)"
  by (cases ct) (auto simp: decoder_defs)

lemma decoder_fields:
  "EVENT_DECODERS ct ev = Some d \<Longrightarrow>
     dto_eventType d = eventSymbol (ev_topic ev) \<and> dto_contractType d = Some (contract_type_str ct) \<and>
     dto_eventId d = Some (ev_id ev) \<and> dto_ledger d = Some (ev_ledger ev) \<and>
     dto_contractId d = ev_contractId ev \<and> dto_network d = None"
  by (cases ct) (auto simp: decoder_defs split: if_splits)

subsection \<open>Properties\<close>

text \<open>
  Exactly one decoder takes each documented event: a decoder returns a row exactly when the
  event's symbol is one of its contract type's names, no other type's decoder does, and the row
  carries that name, the type, the RPC event id, the ledger and the contract of the event.
\<close>

theorem decoder_selects_event:
  "let symbol = eventSymbol (ev_topic ev) in
   case EVENT_DECODERS ct ev of
     None \<Rightarrow> symbol \<notin> set (handled ct)
   | Some d \<Rightarrow> symbol \<in> set (handled ct) \<and> {ct'. EVENT_DECODERS ct' ev \<noteq> None} = {ct} \<and>
       dto_eventType d = symbol \<and> dto_contractType d = Some (contract_type_str ct) \<and>
       dto_eventId d = Some (ev_id ev) \<and> dto_ledger d = Some (ev_ledger ev) \<and>
       dto_contractId d = ev_contractId ev"
proof (cases "EVENT_DECODERS ct ev")
  case None
  then show ?thesis using decoder_defined [of ct ev] by (simp add: Let_def)
next
  case (Some d)
  then have sym: "eventSymbol (ev_topic ev) \<in> set (handled ct)"
    using decoder_defined [of ct ev] by simp
  have "{ct'. EVENT_DECODERS ct' ev \<noteq> None} = {ct'. eventSymbol (ev_topic ev) \<in> set (handled ct')}"
    by (simp only: decoder_defined)
  also have "\<dots> = {ct}" using handled_disjoint [OF sym] sym by blast
  finally have "{ct'. EVENT_DECODERS ct' ev \<noteq> None} = {ct}" .
  with Some sym decoder_fields [OF Some] show ?thesis by (simp add: Let_def)
qed

text \<open>
  A song-played event whose duration is a 64 bit integer, as the decoder's comment describes
  it, bare or in a record, loses its duration: \<open>scValToNative\<close> makes such a value a bigint, which the
  decoder's test for a number rejects.
\<close>

theorem song_played_drops_u64_duration:
  "ev_topic ev = [JStr ''song_played'', JStr song, JStr listener] \<Longrightarrow>
   ev_value ev \<in> {JBig d, JObj [(''durationSeconds'', JBig d)]} \<Longrightarrow>
   map_option dto_payload (catalogDecoder ev)
     = Some (JObj [(''songId'', JStr song), (''listener'', JStr listener)])"
  by (auto simp: decoder_defs eventSymbol_def topic_at_def song_duration_def js_get_def
      topic_or_null_def address_at_def coalesce_def nullish_def addressOf_def opt_value_def)

theorem song_played_drops_u64_duration_witness:
  "map_option dto_payload (catalogDecoder
     \<lparr>ev_id = ''1'', ev_ledger = 7, ev_txHash = ''tx'', ev_contractId = None,
      ev_topic = [JStr ''song_played'', JStr ''s1'', JStr ''G1''],
      ev_value = JObj [(''durationSeconds'', JBig 180)]\<rparr>)
   = Some (JObj [(''songId'', JStr ''s1''), (''listener'', JStr ''G1'')])"
  by (rule song_played_drops_u64_duration [where d = 180]) simp_all

text \<open>
  A fetched page contains only readable events, each with a contract when exactly one was asked
  for, and the request is in cursor mode exactly when a non-empty cursor is given, so the two paging
  modes are never mixed.
\<close>

theorem fetchEvents_page:
  "case fetchEvents scv getEvents o' of
     Inl e \<Rightarrow> getEvents (build_request o') = Inl e
   | Inr page \<Rightarrow> \<exists>resp. getEvents (build_request o') = Inr resp \<and>
       map ev_id (pg_events page)
         = map ev_id (List.map_filter (normalizeEvent scv) (rr_events resp)) \<and>
       (length (fo_contractIds o') = 1 \<longrightarrow> (\<forall>ev\<in>set (pg_events page). ev_contractId ev \<noteq> None)) \<and>
       (truthy (fo_cursor o') \<longleftrightarrow> (\<exists>ids c l. build_request o' = CursorRequest ids c l))"
proof (cases "getEvents (build_request o')")
  case (Inl e)
  then show ?thesis by (simp add: fetchEvents_def)
next
  case (Inr resp)
  have id: "ev_id (fill_contract cs ev) = ev_id ev" for cs ev
    by (simp add: fill_contract_def)
  have filled: "ev_contractId (fill_contract cs ev) \<noteq> None" if "length cs = 1" for cs ev
    using that by (auto simp: fill_contract_def truthy_def split: option.splits)
  have mode: "truthy (fo_cursor o') \<longleftrightarrow> (\<exists>ids c l. build_request o' = CursorRequest ids c l)"
    by (simp add: build_request_def Let_def)
  with Inr id filled show ?thesis by (auto simp: fetchEvents_def)
qed

theorem fetchEvents_page_witness:
  "\<exists>page. fetchEvents Some
       (\<lambda>_. Inr \<lparr>rr_events = [RawOther, RawEvent (JStr ''e1'') (JNum 9) JUndef JUndef (JArr []) JUndef],
                 rr_cursor = None, rr_latestLedger = 9\<rparr>)
       \<lparr>fo_contractIds = [''C1''], fo_cursor = None, fo_startLedger = Some 5, fo_endLedger = None,
        fo_limit = None\<rparr> = Inr page \<and>
     map ev_id (pg_events page) = [''e1''] \<and> (\<forall>ev\<in>set (pg_events page). ev_contractId ev \<noteq> None)"
proof -
  let ?resp = "\<lparr>rr_events = [RawOther, RawEvent (JStr ''e1'') (JNum 9) JUndef JUndef (JArr []) JUndef],
                 rr_cursor = None, rr_latestLedger = 9\<rparr>"
  let ?o = "\<lparr>fo_contractIds = [''C1''], fo_cursor = None, fo_startLedger = Some 5,
        fo_endLedger = None, fo_limit = None\<rparr>"
  have "\<exists>page. fetchEvents Some (\<lambda>_. Inr ?resp) ?o = Inr page" by (simp add: fetchEvents_def)
  then obtain page where page: "fetchEvents Some (\<lambda>_. Inr ?resp) ?o = Inr page" ..
  from fetchEvents_page [where scv = Some and getEvents = "\<lambda>_. Inr ?resp" and o' = ?o] have
    "map ev_id (pg_events page) = map ev_id (List.map_filter (normalizeEvent Some) (rr_events ?resp))"
    and "\<forall>ev\<in>set (pg_events page). ev_contractId ev \<noteq> None"
    unfolding page by auto
  with page show ?thesis by (simp add: List.map_filter_def)
qed

end
