(* ===== verification/Indexed_Events.thy ===== *)
theory Indexed_Events
  imports Soroban_Events
begin

text \<open>
  The append-only store of decoded on-chain events, \<open>services/IndexedEventService.ts\<close> and
  \<open>entities/IndexedEvent.ts\<close>. \<open>upsertEvent\<close> reads, then inserts; other writers may insert between
  the two (the environment \<open>env\<close>) and the database may refuse the insert (\<open>fail\<close>), so the race the
  code handles is part of the model. The interface its callers use is the locale \<open>event_sink\<close>.
\<close>

subsection \<open>Rows and the unique constraint\<close>

record indexed_event =
  ie_ingestSeq :: int
  ie_network :: string
  ie_contractId :: "string option"
  ie_contractType :: "string option"
  ie_eventType :: string
  ie_eventId :: "string option"
  ie_address :: "string option"
  ie_txHash :: "string option"
  ie_ledger :: "int option"
  ie_payload :: js_value
  ie_data :: js_value
  ie_indexedAt :: timestamp

record event_store =
  es_rows :: "indexed_event table"
  es_nextSeq :: int

text \<open>
  \<open>UQ_indexed_events_dedup\<close> over network, contract, ledger and event id: as in SQL, rows with a NULL
  in one of the four columns never conflict.
\<close>

definition same_key :: "indexed_event \<Rightarrow> indexed_event \<Rightarrow> bool" where
  "same_key r r' \<longleftrightarrow>
     ie_network r = ie_network r' \<and>
     ie_contractId r = ie_contractId r' \<and> ie_contractId r \<noteq> None \<and>
     ie_ledger r = ie_ledger r' \<and> ie_ledger r \<noteq> None \<and>
     ie_eventId r = ie_eventId r' \<and> ie_eventId r \<noteq> None"

fun no_conflicts :: "indexed_event table \<Rightarrow> bool" where
  "no_conflicts [] = True"
| "no_conflicts (r # rs) = (list_all (\<lambda>r'. \<not> same_key r r') rs \<and> no_conflicts rs)"

subsection \<open>The operations\<close>

text \<open>\<open>isDuplicateError\<close> on an error with an optional driver code.\<close>

definition isDuplicateError :: "string option \<Rightarrow> string \<Rightarrow> bool" where
  "isDuplicateError code msg \<longleftrightarrow>
     code = Some ''23505'' \<or> occurs ''duplicate key'' msg \<or> occurs ''UNIQUE constraint'' msg"

text \<open>A row matches \<open>buildWhere\<close>: contract and ledger are conditions only when given.\<close>

definition buildWhere ::
  "string \<Rightarrow> string \<Rightarrow> string option \<Rightarrow> int option \<Rightarrow> indexed_event \<Rightarrow> bool" where
  "buildWhere network eventId contractId ledger r \<longleftrightarrow>
     ie_network r = network \<and> ie_eventId r = Some eventId \<and>
     (contractId \<noteq> None \<longrightarrow> ie_contractId r = contractId) \<and>
     (ledger \<noteq> None \<longrightarrow> ie_ledger r = ledger)"

definition dto_net :: "event_dto \<Rightarrow> string" where
  "dto_net dto = (if truthy (dto_network dto) then the (dto_network dto) else ''stellar-testnet'')"

definition dto_body :: "event_dto \<Rightarrow> js_value" where
  "dto_body dto = (if js_true (dto_payload dto) then dto_payload dto
                   else if js_true (dto_data dto) then dto_data dto else JObj [])"

definition dto_key :: "event_dto \<Rightarrow> string" where
  "dto_key dto =
     (if truthy (dto_eventId dto) then the (dto_eventId dto)
      else (if truthy (dto_txHash dto) then the (dto_txHash dto) else ''event'') @ ''-'' @
           int_str (case dto_ledger dto of Some l \<Rightarrow> l | None \<Rightarrow> 0))"

definition event_where :: "event_dto \<Rightarrow> indexed_event \<Rightarrow> bool" where
  "event_where dto = buildWhere (dto_net dto) (dto_key dto) (dto_contractId dto) (dto_ledger dto)"

definition event_row :: "timestamp \<Rightarrow> int \<Rightarrow> event_dto \<Rightarrow> indexed_event" where
  "event_row now seq dto =
     \<lparr>ie_ingestSeq = seq, ie_network = dto_net dto, ie_contractId = dto_contractId dto,
      ie_contractType = dto_contractType dto, ie_eventType = dto_eventType dto,
      ie_eventId = Some (dto_key dto), ie_address = dto_address dto, ie_txHash = dto_txHash dto,
      ie_ledger = dto_ledger dto, ie_payload = dto_body dto, ie_data = dto_body dto,
      ie_indexedAt = now\<rparr>"

text \<open>
  \<open>save\<close> of a new row: the database draws a sequence number, then accepts the row or rejects it
  with the driver's duplicate-key error. \<open>Inl None\<close> is that error.
\<close>

definition insert_event ::
  "timestamp \<Rightarrow> event_dto \<Rightarrow> event_store \<Rightarrow> bool \<times> indexed_event \<times> event_store" where
  "insert_event now dto s =
     (let row = event_row now (es_nextSeq s) dto in
      if list_ex (same_key row) (es_rows s)
      then (False, row, s\<lparr>es_nextSeq := es_nextSeq s + 1\<rparr>)
      else (True, row, s\<lparr>es_rows := es_rows s @ [row], es_nextSeq := es_nextSeq s + 1\<rparr>))"

definition upsertEvent ::
  "timestamp \<Rightarrow> (event_store \<Rightarrow> event_store) \<Rightarrow> js_error option \<Rightarrow> event_dto \<Rightarrow>
   (event_store, indexed_event \<times> bool) service" where
  "upsertEvent now env fail dto s =
     (case tbl_find (event_where dto) (es_rows s) of
        Some existing \<Rightarrow> (Inr (existing, False), s)
      | None \<Rightarrow>
          let s1 = env s in
          case fail of
            Some e \<Rightarrow>
              (if isDuplicateError None (error_message e)
               then (case tbl_find (event_where dto) (es_rows s1) of
                       Some race \<Rightarrow> (Inr (race, False), s1)
                     | None \<Rightarrow> (Inl e, s1))
               else (Inl e, s1))
          | None \<Rightarrow>
              let (ok, row, s2) = insert_event now dto s1 in
              if ok then (Inr (row, True), s2)
              else if isDuplicateError (Some ''23505'') (error_message duplicate_key_error)
              then (case tbl_find (event_where dto) (es_rows s2) of
                      Some race \<Rightarrow> (Inr (race, False), s2)
                    | None \<Rightarrow> (Inl duplicate_key_error, s2))
              else (Inl duplicate_key_error, s2))"

text \<open>The call without a concurrent writer and with a database that answers.\<close>

definition upsert_quiet :: "timestamp \<Rightarrow> event_dto \<Rightarrow> event_store \<Rightarrow> event_store" where
  "upsert_quiet now dto s = snd (upsertEvent now (\<lambda>s. s) None dto s)"

definition getEventsByTxHash :: "string \<Rightarrow> event_store \<Rightarrow> indexed_event list" where
  "getEventsByTxHash txHash s = filter (\<lambda>r. ie_txHash r = Some txHash) (es_rows s)"

definition getEventsByType :: "string \<Rightarrow> nat \<Rightarrow> event_store \<Rightarrow> indexed_event list" where
  "getEventsByType eventType limit s =
     take limit (rev (sort_key ie_indexedAt (filter (\<lambda>r. ie_eventType r = eventType) (es_rows s))))"

lemmas event_defs = upsertEvent_def insert_event_def event_row_def event_where_def buildWhere_def

subsection \<open>The interface of an event sink\<close>

text \<open>
  What the indexer, the backfill and the reindexer rely on: after an upsert the event is stored,
  nothing stored is lost, and an upsert of a stored event changes nothing.
\<close>

locale event_sink =
  fixes upsert :: "'d \<Rightarrow> 's \<Rightarrow> 's"
    and stored :: "'d \<Rightarrow> 's \<Rightarrow> bool"
  assumes stored_after: "stored d (upsert d s)"
    and stored_mono: "stored d s \<Longrightarrow> stored d (upsert d' s)"
    and stored_noop: "stored d s \<Longrightarrow> upsert d s = s"
begin

lemma stored_run_mono: "stored d s \<Longrightarrow> stored d (fold upsert ds s)"
  by (induction ds arbitrary: s) (auto intro: stored_mono)

lemma stored_run: "d \<in> set ds \<Longrightarrow> stored d (fold upsert ds s)"
  by (induction ds arbitrary: s) (auto intro: stored_run_mono stored_after)

lemma run_noop: "\<forall>d\<in>set ds. stored d s \<Longrightarrow> fold upsert ds s = s"
  by (induction ds) (auto simp: stored_noop)

lemma replay_noop: "set ds' \<subseteq> set ds \<Longrightarrow> fold upsert ds' (fold upsert ds s) = fold upsert ds s"
  by (rule run_noop) (auto intro: stored_run)

lemma overlap_run:
  assumes "set ys \<subseteq> set xs"
  shows "fold upsert (ys @ zs) (fold upsert xs s) = fold upsert (xs @ zs) s"
  using replay_noop [OF assms] by simp

end

definition event_stored :: "event_dto \<Rightarrow> event_store \<Rightarrow> bool" where
  "event_stored dto s \<longleftrightarrow> tbl_find (event_where dto) (es_rows s) \<noteq> None"

lemma event_row_where: "event_where dto (event_row now seq dto)"
  by (simp add: event_defs)

lemma same_key_where:
  "same_key (event_row now seq dto) r \<Longrightarrow> event_where dto r"
  by (auto simp: same_key_def event_defs)

lemma upsert_quiet_cases:
  "upsert_quiet now dto s =
     (if event_stored dto s then s
      else s\<lparr>es_rows := es_rows s @ [event_row now (es_nextSeq s) dto],
             es_nextSeq := es_nextSeq s + 1\<rparr>)"
proof (cases "tbl_find (event_where dto) (es_rows s)")
  case None
  then have "\<not> list_ex (same_key (event_row now (es_nextSeq s) dto)) (es_rows s)"
    by (auto simp: tbl_find_None_iff list_ex_iff dest: same_key_where)
  with None show ?thesis
    by (simp add: upsert_quiet_def upsertEvent_def insert_event_def event_stored_def Let_def)
next
  case (Some r)
  then show ?thesis by (simp add: upsert_quiet_def upsertEvent_def event_stored_def)
qed

lemma event_stored_quiet: "event_stored dto (upsert_quiet now dto s)"
  by (auto simp: upsert_quiet_cases event_stored_def tbl_find_append tbl_simps event_row_where
      split: option.splits)

lemma event_stored_mono: "event_stored d s \<Longrightarrow> event_stored d (upsert_quiet now d' s)"
  by (auto simp: upsert_quiet_cases event_stored_def tbl_find_append)

interpretation ies: event_sink "upsert_quiet now" event_stored for now
proof unfold_locales
  fix d d' s
  show "event_stored d (upsert_quiet now d s)" by (rule event_stored_quiet)
  show "event_stored d s \<Longrightarrow> event_stored d (upsert_quiet now d' s)" by (rule event_stored_mono)
  show "event_stored d s \<Longrightarrow> upsert_quiet now d s = s" by (simp add: upsert_quiet_cases)
qed

subsection \<open>The store's invariant\<close>

definition store_ok :: "event_store \<Rightarrow> bool" where
  "store_ok s \<longleftrightarrow> no_conflicts (es_rows s) \<and> sorted_wrt (<) (map ie_ingestSeq (es_rows s)) \<and>
     list_all (\<lambda>r. ie_ingestSeq r < es_nextSeq s) (es_rows s)"

lemma no_conflicts_append:
  "no_conflicts (rs @ [r]) \<longleftrightarrow> no_conflicts rs \<and> list_all (\<lambda>r'. \<not> same_key r' r) rs"
  by (induction rs) auto

lemma same_key_sym: "same_key r r' \<longleftrightarrow> same_key r' r"
  unfolding same_key_def by metis

lemma store_ok_insert:
  assumes "store_ok s"
  shows "store_ok (snd (snd (insert_event now dto s)))"
  using assms
  by (auto simp: store_ok_def insert_event_def Let_def no_conflicts_append list_all_iff list_ex_iff
      sorted_wrt_append event_row_def same_key_sym intro: less_trans)

lemma store_ok_upsert:
  assumes "store_ok s" and "store_ok (env s)"
  shows "store_ok (snd (upsertEvent now env fail dto s))"
  using assms store_ok_insert [OF assms(2), of now dto]
  by (auto simp: upsertEvent_def Let_def split: option.splits prod.splits)

lemma store_ok_quiet: "store_ok s \<Longrightarrow> store_ok (upsert_quiet now dto s)"
  unfolding upsert_quiet_def by (rule store_ok_upsert)

interpretation iem: machine "upsert_quiet now" store_ok for now
  by unfold_locales (rule store_ok_quiet)

lemma upsert_race_found:
  assumes "list_ex (same_key (event_row now seq dto)) rows"
  shows "tbl_find (event_where dto) rows \<noteq> None"
  using assms by (auto simp: tbl_find_None_iff list_ex_iff dest: same_key_where)

lemma upsertEvent_served:
  "\<exists>r b. fst (upsertEvent now env None dto s) = Inr (r, b) \<and>
     r \<in> set (es_rows (snd (upsertEvent now env None dto s))) \<and> event_where dto r \<and>
     (if b then es_rows (snd (upsertEvent now env None dto s)) = es_rows (env s) @ [r]
      else es_rows (snd (upsertEvent now env None dto s)) \<in> {es_rows s, es_rows (env s)})"
proof (cases "tbl_find (event_where dto) (es_rows s)")
  case (Some r)
  with tbl_find_SomeD [OF Some] show ?thesis
    by (intro exI [of _ r] exI [of _ False]) (simp add: upsertEvent_def)
next
  case None
  note lookup = None
  let ?row = "event_row now (es_nextSeq (env s)) dto"
  show ?thesis
  proof (cases "list_ex (same_key ?row) (es_rows (env s))")
    case True
    then obtain r where "tbl_find (event_where dto) (es_rows (env s)) = Some r"
      using upsert_race_found by blast
    with True lookup tbl_find_SomeD [OF this] show ?thesis
      by (intro exI [of _ r] exI [of _ False])
        (simp add: upsertEvent_def insert_event_def Let_def isDuplicateError_def)
  next
    case False
    with lookup show ?thesis
      by (intro exI [of _ ?row] exI [of _ True])
        (simp add: upsertEvent_def insert_event_def Let_def event_row_where)
  qed
qed

subsection \<open>Properties\<close>

text \<open>
  C10: However another writer interferes between the look-up and the insert, an upsert the database
  serves never fails with a duplicate: it returns a stored row that matches the event, reports an
  insertion exactly when it added that row, and keeps the store free of two rows with the same
  network, contract, ledger and event id.
\<close>

theorem upsert_race_safe:
  assumes "store_ok s" and "store_ok (env s)"
  shows "case upsertEvent now env None dto s of
      (Inl e, s') \<Rightarrow> False
    | (Inr (r, inserted), s') \<Rightarrow>
        store_ok s' \<and> r \<in> set (es_rows s') \<and> event_where dto r \<and>
        (if inserted then es_rows s' = es_rows (env s) @ [r]
         else es_rows s' \<in> {es_rows s, es_rows (env s)})"
proof -
  have "store_ok (snd (upsertEvent now env None dto s))"
    by (rule store_ok_upsert [where env = env, OF assms])
  with upsertEvent_served [of now env dto s] show ?thesis
    by (cases "upsertEvent now env None dto s") auto
qed

definition sample_dto :: event_dto where
  "sample_dto = \<lparr>dto_network = None, dto_contractId = Some ''C1'', dto_contractType = Some ''nft'',
     dto_eventType = ''mint'', dto_eventId = Some ''e1'', dto_address = None, dto_txHash = None,
     dto_ledger = Some 7, dto_payload = JObj [], dto_data = JUndef\<rparr>"

definition empty_store :: event_store where
  "empty_store = \<lparr>es_rows = [], es_nextSeq = 1\<rparr>"

theorem upsert_race_safe_witness:
  "\<exists>r s'. upsertEvent 0 (upsert_quiet 5 sample_dto) None sample_dto empty_store = (Inr (r, False), s') \<and>
     length (es_rows s') = 1"
proof -
  have ok: "store_ok empty_store" by (simp add: store_ok_def empty_store_def)
  let ?u = "upsertEvent 0 (upsert_quiet 5 sample_dto) None sample_dto empty_store"
  have *: "\<exists>r. fst ?u = Inr (r, False) \<and> length (es_rows (snd ?u)) = 1"
    by (simp add: event_defs upsert_quiet_cases event_stored_def empty_store_def sample_dto_def
        tbl_simps same_key_def dto_key_def dto_net_def truthy_def isDuplicateError_def Let_def)
  from upsert_race_safe [where env = "upsert_quiet 5 sample_dto" and s = empty_store,
      OF ok store_ok_quiet [OF ok], where now = 0 and dto = sample_dto]
  show ?thesis using * by (auto split: prod.splits sum.splits)
qed

text \<open>
  Re-fetching ledgers already processed is harmless: persisting a batch of events leaves the
  store as it is when every one of them was persisted before, and a batch that starts with events
  seen before adds exactly what its new events add.
\<close>

theorem replay_is_noop:
  assumes "set seen \<subseteq> set old"
  shows "fold (upsert_quiet now) (seen @ new) (fold (upsert_quiet now) old s)
       = fold (upsert_quiet now) new (fold (upsert_quiet now) old s)"
  using ies.overlap_run [OF assms, of now new s] by simp

theorem replay_is_noop_witness:
  "fold (upsert_quiet 9) ([sample_dto] @ []) (fold (upsert_quiet 9) [sample_dto] empty_store)
   = fold (upsert_quiet 9) [] (fold (upsert_quiet 9) [sample_dto] empty_store)"
  by (rule replay_is_noop) simp

text \<open>
  Whatever sequence of events is persisted, no two rows share network, contract, ledger and
  event id, every event is stored, and the ingestion sequence grows along the table.
\<close>

theorem event_store_deduplicated:
  "let s = fold (upsert_quiet now) ds empty_store in
     no_conflicts (es_rows s) \<and> sorted_wrt (<) (map ie_ingestSeq (es_rows s)) \<and>
     list_all (\<lambda>d. list_ex (event_where d) (es_rows s)) ds"
proof -
  let ?s = "fold (upsert_quiet now) ds empty_store"
  have "store_ok ?s"
    by (rule iem.run_ok) (simp add: store_ok_def empty_store_def)
  moreover have "list_ex (event_where d) (es_rows ?s)" if "d \<in> set ds" for d
    using ies.stored_run [OF that, of now empty_store]
    by (auto simp: event_stored_def list_ex_iff dest: tbl_find_SomeD)
  ultimately show ?thesis by (simp add: store_ok_def Let_def list_all_iff)
qed

end
