(* ===== verification/Indexer_Service.thy ===== *)
theory Indexer_Service
  imports Indexed_Events
begin

text \<open>
  The indexer's bookkeeping, \<open>services/IndexerService.ts\<close>: one cursor per contract and network
  (\<open>entities/IndexerCursor.ts\<close>), one backfill record per contract and network
  (\<open>entities/BackfillStatus.ts\<close>), and the metrics it maintains. The parameter \<open>drv\<close> is how the
  database driver hands a \<open>bigint\<close> column to the code: \<open>Num\<close> when it is a number as the entity
  declares, \<open>Digits\<close> when it is the string Postgres' driver returns by default.
\<close>

subsection \<open>State\<close>

record indexer_cursor =
  cur_contractId :: ident
  cur_network :: string
  cur_lastProcessedLedger :: js_num
  cur_lastProcessedEventId :: "string option"
  cur_eventsProcessed :: js_num
  cur_errorCount :: js_num
  cur_lastError :: "string option"
  cur_lastErrorAt :: "timestamp option"

record backfill_status =
  bf_contractId :: ident
  bf_network :: string
  bf_completed :: bool
  bf_startLedger :: "int option"
  bf_endLedger :: "int option"
  bf_eventsImported :: int
  bf_errorMessage :: "string option"

record indexer_db =
  ix_cursors :: "indexer_cursor table"
  ix_backfills :: "backfill_status table"
  ix_processedTotal :: "ident \<times> string \<Rightarrow> int"
  ix_errorsTotal :: "ident \<times> string \<Rightarrow> int"
  ix_lag :: "ident \<times> string \<Rightarrow> int"

definition cur_key :: "indexer_cursor \<Rightarrow> ident \<times> string" where
  "cur_key c = (cur_contractId c, cur_network c)"

definition bf_key :: "backfill_status \<Rightarrow> ident \<times> string" where
  "bf_key b = (bf_contractId b, bf_network b)"

interpretation cursors: keyed_store cur_key "\<lambda>k. tbl_find (\<lambda>c. cur_key c = k)" "tbl_put cur_key"
  "\<lambda>k. tbl_delete (\<lambda>c. cur_key c = k)" "tbl_ok cur_key"
  by (rule tbl_keyed_store)

interpretation backfills: keyed_store bf_key "\<lambda>k. tbl_find (\<lambda>b. bf_key b = k)" "tbl_put bf_key"
  "\<lambda>k. tbl_delete (\<lambda>b. bf_key b = k)" "tbl_ok bf_key"
  by (rule tbl_keyed_store)

subsection \<open>Cursors\<close>

text \<open>A row as \<open>findOne\<close> returns it, and as \<open>save\<close> writes it to the integer columns.\<close>

definition load_cursor :: "(int \<Rightarrow> js_num) \<Rightarrow> indexer_cursor \<Rightarrow> indexer_cursor" where
  "load_cursor drv c =
     c\<lparr>cur_lastProcessedLedger := drv (num_of (cur_lastProcessedLedger c)),
       cur_eventsProcessed := drv (num_of (cur_eventsProcessed c)),
       cur_errorCount := drv (num_of (cur_errorCount c))\<rparr>"

definition save_cursor :: "indexer_cursor \<Rightarrow> indexer_db \<Rightarrow> indexer_db" where
  "save_cursor c db =
     db\<lparr>ix_cursors := tbl_put cur_key
          (c\<lparr>cur_lastProcessedLedger := Num (num_of (cur_lastProcessedLedger c)),
             cur_eventsProcessed := Num (num_of (cur_eventsProcessed c)),
             cur_errorCount := Num (num_of (cur_errorCount c))\<rparr>) (ix_cursors db)\<rparr>"

definition fresh_cursor :: "ident \<Rightarrow> string \<Rightarrow> indexer_cursor" where
  "fresh_cursor contractId network =
     \<lparr>cur_contractId = contractId, cur_network = network, cur_lastProcessedLedger = Num 0,
      cur_lastProcessedEventId = None, cur_eventsProcessed = Num 0, cur_errorCount = Num 0,
      cur_lastError = None, cur_lastErrorAt = None\<rparr>"

definition find_cursor :: "ident \<Rightarrow> string \<Rightarrow> indexer_db \<Rightarrow> indexer_cursor option" where
  "find_cursor contractId network db = tbl_find (\<lambda>c. cur_key c = (contractId, network)) (ix_cursors db)"

definition getCursor ::
  "(int \<Rightarrow> js_num) \<Rightarrow> ident \<Rightarrow> string \<Rightarrow> indexer_db \<Rightarrow> indexer_cursor \<times> indexer_db" where
  "getCursor drv contractId network db =
     (case find_cursor contractId network db of
        Some c \<Rightarrow> (load_cursor drv c, db)
      | None \<Rightarrow> let c = fresh_cursor contractId network in (c, save_cursor c db))"

definition recordProgress ::
  "(int \<Rightarrow> js_num) \<Rightarrow> ident \<Rightarrow> string \<Rightarrow> int \<Rightarrow> int \<Rightarrow> string option \<Rightarrow> indexer_db \<Rightarrow> indexer_db" where
  "recordProgress drv contractId network ledger eventCount eventId db =
     (let (c, db1) = getCursor drv contractId network db;
          c1 = c\<lparr>cur_lastProcessedLedger := Num ledger\<rparr>;
          c2 = (case eventId of Some e \<Rightarrow> c1\<lparr>cur_lastProcessedEventId := Some e\<rparr> | None \<Rightarrow> c1);
          c3 = c2\<lparr>cur_eventsProcessed := js_plus (cur_eventsProcessed c2) eventCount\<rparr>;
          db2 = save_cursor c3 db1
      in db2\<lparr>ix_processedTotal :=
           (ix_processedTotal db2)((contractId, network) :=
              ix_processedTotal db2 (contractId, network) + eventCount)\<rparr>)"

definition recordError ::
  "(int \<Rightarrow> js_num) \<Rightarrow> timestamp \<Rightarrow> ident \<Rightarrow> string \<Rightarrow> string \<Rightarrow> indexer_db \<Rightarrow> indexer_db" where
  "recordError drv now contractId network msg db =
     (let (c, db1) = getCursor drv contractId network db;
          c1 = c\<lparr>cur_errorCount := js_plus (cur_errorCount c) 1, cur_lastError := Some msg,
                 cur_lastErrorAt := Some now\<rparr>;
          db2 = save_cursor c1 db1
      in db2\<lparr>ix_errorsTotal :=
           (ix_errorsTotal db2)((contractId, network) := ix_errorsTotal db2 (contractId, network) + 1)\<rparr>)"

definition advanceCursor ::
  "(int \<Rightarrow> js_num) \<Rightarrow> ident \<Rightarrow> string \<Rightarrow> int \<Rightarrow> indexer_db \<Rightarrow> indexer_db" where
  "advanceCursor drv contractId network ledger db = recordProgress drv contractId network ledger 0 None db"

definition updateLagMetrics :: "int \<Rightarrow> indexer_db \<Rightarrow> indexer_db" where
  "updateLagMetrics currentLedger db =
     db\<lparr>ix_lag := fold (\<lambda>c lag. lag(cur_key c := max 0 (currentLedger - num_of (cur_lastProcessedLedger c))))
                      (ix_cursors db) (ix_lag db)\<rparr>"

record indexer_status =
  st_cursor :: indexer_cursor
  st_lagLedgers :: int

definition cursor_status :: "int option \<Rightarrow> indexer_cursor \<Rightarrow> indexer_status" where
  "cursor_status currentLedger c =
     \<lparr>st_cursor = c,
      st_lagLedgers = (case currentLedger of
          Some l \<Rightarrow> (if l \<noteq> 0 then max 0 (l - num_of (cur_lastProcessedLedger c)) else 0)
        | None \<Rightarrow> 0)\<rparr>"

definition getAllStatus :: "(int \<Rightarrow> js_num) \<Rightarrow> int option \<Rightarrow> indexer_db \<Rightarrow> indexer_status list" where
  "getAllStatus drv currentLedger db = map (\<lambda>c. cursor_status currentLedger (load_cursor drv c)) (ix_cursors db)"

definition getIndexerStatus ::
  "(int \<Rightarrow> js_num) \<Rightarrow> ident \<Rightarrow> string \<Rightarrow> int option \<Rightarrow> indexer_db \<Rightarrow> indexer_status \<times> indexer_db" where
  "getIndexerStatus drv contractId network currentLedger db =
     (let (c, db1) = getCursor drv contractId network db in (cursor_status currentLedger c, db1))"

lemmas cursor_defs = recordProgress_def recordError_def getCursor_def find_cursor_def
  save_cursor_def load_cursor_def fresh_cursor_def cur_key_def Let_def

lemma save_cursor_find:
  "find_cursor i n (save_cursor c db) =
     (if cur_key c = (i, n)
      then Some (c\<lparr>cur_lastProcessedLedger := Num (num_of (cur_lastProcessedLedger c)),
                   cur_eventsProcessed := Num (num_of (cur_eventsProcessed c)),
                   cur_errorCount := Num (num_of (cur_errorCount c))\<rparr>)
      else find_cursor i n db)"
  unfolding find_cursor_def save_cursor_def
  by (auto simp: cursors.lookup_store) (auto simp: cur_key_def)

lemma getCursor_key: "cur_key (fst (getCursor drv i n db)) = (i, n)"
  by (auto simp: cursor_defs dest!: tbl_find_SomeD split: option.splits)

lemma getCursor_find:
  "find_cursor i n (snd (getCursor drv i n db)) \<noteq> None"
  "(i', n') \<noteq> (i, n) \<Longrightarrow> find_cursor i' n' (snd (getCursor drv i n db)) = find_cursor i' n' db"
  by (auto simp: getCursor_def save_cursor_find Let_def fresh_cursor_def cur_key_def
      split: option.splits)

text \<open>What a cursor row counts, 0 when there is none.\<close>

definition cursor_ledger :: "ident \<Rightarrow> string \<Rightarrow> indexer_db \<Rightarrow> int" where
  "cursor_ledger i n db =
     (case find_cursor i n db of Some c \<Rightarrow> num_of (cur_lastProcessedLedger c) | None \<Rightarrow> 0)"

definition cursor_count :: "ident \<Rightarrow> string \<Rightarrow> indexer_db \<Rightarrow> int" where
  "cursor_count i n db =
     (case find_cursor i n db of Some c \<Rightarrow> num_of (cur_eventsProcessed c) | None \<Rightarrow> 0)"

lemma getCursor_ledger:
  assumes "\<And>i. num_of (drv i) = i"
  shows "num_of (cur_lastProcessedLedger (fst (getCursor drv i n db))) = cursor_ledger i n db"
  using assms
  by (auto simp: getCursor_def cursor_ledger_def load_cursor_def fresh_cursor_def Let_def
      split: option.splits)

lemma recordProgress_find:
  "find_cursor i n (recordProgress drv i' n' l k e db) =
     (if (i, n) = (i', n')
      then map_option (\<lambda>c. c\<lparr>cur_lastProcessedLedger := Num l,
               cur_lastProcessedEventId := (case e of Some x \<Rightarrow> Some x | None \<Rightarrow> cur_lastProcessedEventId c),
               cur_eventsProcessed := Num (num_of (js_plus (cur_eventsProcessed c) k)),
               cur_errorCount := Num (num_of (cur_errorCount c))\<rparr>)
             (Some (fst (getCursor drv i' n' db)))
      else find_cursor i n db)"
proof -
  obtain c db1 where g: "getCursor drv i' n' db = (c, db1)" by fastforce
  have key: "cur_contractId c = i'" "cur_network c = n'"
    using getCursor_key [of drv i' n' db] g by (simp_all add: cur_key_def)
  have other: "(i, n) \<noteq> (i', n') \<Longrightarrow> find_cursor i n db1 = find_cursor i n db"
    using getCursor_find(2) [of i n i' n' drv db] g by simp
  have meta: "find_cursor i n (d\<lparr>ix_processedTotal := f\<rparr>) = find_cursor i n d" for d f
    by (simp add: find_cursor_def)
  show ?thesis
    using key other
    by (cases e) (auto simp: recordProgress_def g meta save_cursor_find cur_key_def Let_def)
qed

lemma recordProgress_ledger:
  "cursor_ledger i n (recordProgress drv i' n' l k e db) =
     (if (i, n) = (i', n') then l else cursor_ledger i n db)"
  by (simp add: cursor_ledger_def recordProgress_find)

lemma recordProgress_count:
  "cursor_count i n (recordProgress Num i' n' l k e db) =
     (if (i, n) = (i', n') then cursor_count i n db + k else cursor_count i n db)"
  by (auto simp: cursor_count_def recordProgress_find)
    (auto simp: getCursor_def load_cursor_def fresh_cursor_def Let_def split: option.splits)

subsection \<open>Backfills\<close>

definition find_backfill :: "ident \<Rightarrow> string \<Rightarrow> indexer_db \<Rightarrow> backfill_status option" where
  "find_backfill contractId network db = tbl_find (\<lambda>b. bf_key b = (contractId, network)) (ix_backfills db)"

definition save_backfill :: "backfill_status \<Rightarrow> indexer_db \<Rightarrow> indexer_db" where
  "save_backfill b db = db\<lparr>ix_backfills := tbl_put bf_key b (ix_backfills db)\<rparr>"

definition isBackfillCompleted :: "ident \<Rightarrow> string \<Rightarrow> indexer_db \<Rightarrow> bool" where
  "isBackfillCompleted contractId network db =
     (case find_backfill contractId network db of Some b \<Rightarrow> bf_completed b | None \<Rightarrow> False)"

definition backfill_completed_msg :: "ident \<Rightarrow> string \<Rightarrow> string" where
  "backfill_completed_msg contractId network =
     ''Backfill already completed for '' @ contractId @ '' on '' @ network @
     ''. Delete the record manually if re-run is intentional.''"

definition startBackfill ::
  "ident \<Rightarrow> string \<Rightarrow> int \<Rightarrow> int \<Rightarrow> (indexer_db, backfill_status) service" where
  "startBackfill contractId network startLedger endLedger db =
     (let existing = find_backfill contractId network db in
      if (case existing of Some b \<Rightarrow> bf_completed b | None \<Rightarrow> False)
      then (Inl (PlainErr (backfill_completed_msg contractId network) None), db)
      else let status = (case existing of
                 Some b \<Rightarrow> b
               | None \<Rightarrow> \<lparr>bf_contractId = contractId, bf_network = network, bf_completed = False,
                          bf_startLedger = None, bf_endLedger = None, bf_eventsImported = 0,
                          bf_errorMessage = None\<rparr>);
               status1 = status\<lparr>bf_startLedger := Some startLedger, bf_endLedger := Some endLedger,
                 bf_completed := False, bf_eventsImported := 0, bf_errorMessage := None\<rparr>
           in (Inr status1, save_backfill status1 db))"

definition updateBackfillProgress :: "ident \<Rightarrow> string \<Rightarrow> int \<Rightarrow> indexer_db \<Rightarrow> indexer_db" where
  "updateBackfillProgress contractId network eventsImported db =
     (case find_backfill contractId network db of
        Some b \<Rightarrow> save_backfill (b\<lparr>bf_eventsImported := eventsImported\<rparr>) db
      | None \<Rightarrow> db)"

definition completeBackfill :: "ident \<Rightarrow> string \<Rightarrow> indexer_db \<Rightarrow> indexer_db" where
  "completeBackfill contractId network db =
     (case find_backfill contractId network db of
        Some b \<Rightarrow> save_backfill (b\<lparr>bf_completed := True\<rparr>) db
      | None \<Rightarrow> db)"

definition failBackfill :: "ident \<Rightarrow> string \<Rightarrow> string \<Rightarrow> indexer_db \<Rightarrow> indexer_db" where
  "failBackfill contractId network msg db =
     (case find_backfill contractId network db of
        Some b \<Rightarrow> save_backfill (b\<lparr>bf_errorMessage := Some msg\<rparr>) db
      | None \<Rightarrow> db)"

definition getBackfillStatus :: "ident \<Rightarrow> string \<Rightarrow> indexer_db \<Rightarrow> backfill_status option" where
  "getBackfillStatus contractId network db = find_backfill contractId network db"

definition getAllBackfillStatus :: "indexer_db \<Rightarrow> backfill_status list" where
  "getAllBackfillStatus db = ix_backfills db"

datatype backfill_event =
    BF_start ident string int int
  | BF_progress ident string int
  | BF_complete ident string
  | BF_fail ident string string

fun bf_step :: "backfill_event \<Rightarrow> indexer_db \<Rightarrow> indexer_db" where
  "bf_step (BF_start i n s e) db = snd (startBackfill i n s e db)"
| "bf_step (BF_progress i n k) db = updateBackfillProgress i n k db"
| "bf_step (BF_complete i n) db = completeBackfill i n db"
| "bf_step (BF_fail i n m) db = failBackfill i n m db"

lemma find_save_backfill:
  "find_backfill i n (save_backfill b db) =
     (if bf_key b = (i, n) then Some b else find_backfill i n db)"
  by (auto simp: find_backfill_def save_backfill_def backfills.lookup_store)

lemma find_backfill_key: "find_backfill i n db = Some b \<Longrightarrow> bf_contractId b = i \<and> bf_network b = n"
  by (auto simp: find_backfill_def bf_key_def dest: tbl_find_SomeD)

lemmas backfill_defs = updateBackfillProgress_def completeBackfill_def failBackfill_def
  isBackfillCompleted_def find_save_backfill bf_key_def

lemma completed_save:
  assumes "isBackfillCompleted i n db" and "find_backfill i' n' db = Some b"
    and "bf_completed b \<Longrightarrow> bf_completed b'" and "bf_key b' = bf_key b"
  shows "isBackfillCompleted i n (save_backfill b' db)"
proof -
  have "bf_key b = (i', n')" using find_backfill_key [OF assms(2)] by (simp add: bf_key_def)
  show ?thesis
  proof (cases "(i, n) = (i', n')")
    case True
    with assms(1,2) have "bf_completed b" by (simp add: isBackfillCompleted_def)
    with True assms(3,4) \<open>bf_key b = (i', n')\<close> show ?thesis
      by (simp add: isBackfillCompleted_def find_save_backfill)
  next
    case False
    with assms(1,4) \<open>bf_key b = (i', n')\<close> show ?thesis
      by (auto simp: isBackfillCompleted_def find_save_backfill)
  qed
qed

lemma completed_start:
  "isBackfillCompleted i n db \<Longrightarrow> isBackfillCompleted i n (snd (startBackfill i' n' s e db))"
proof (cases "find_backfill i' n' db")
  case None
  assume "isBackfillCompleted i n db"
  with None show ?thesis
    by (auto simp: startBackfill_def isBackfillCompleted_def find_save_backfill bf_key_def Let_def)
next
  case (Some b)
  assume *: "isBackfillCompleted i n db"
  show ?thesis
  proof (cases "bf_completed b")
    case True
    with * Some show ?thesis by (simp add: startBackfill_def)
  next
    case False
    with * Some show ?thesis
      by (auto simp: startBackfill_def bf_key_def Let_def intro: completed_save)
  qed
qed

lemma completed_step:
  "isBackfillCompleted i n db \<Longrightarrow> isBackfillCompleted i n (bf_step e db)"
  by (cases e)
    (auto simp: updateBackfillProgress_def completeBackfill_def failBackfill_def bf_key_def
      intro: completed_save completed_start split: option.splits)

interpretation bfm: machine bf_step "isBackfillCompleted i n" for i n
  by unfold_locales (rule completed_step)

lemma cursors_of_save_backfill [simp]: "ix_cursors (save_backfill b db) = ix_cursors db"
  by (simp add: save_backfill_def)

lemma backfills_of_save_cursor [simp]: "ix_backfills (save_cursor c db) = ix_backfills db"
  by (simp add: save_cursor_def)

lemma backfills_of_getCursor [simp]: "ix_backfills (snd (getCursor drv i n db)) = ix_backfills db"
  by (simp add: getCursor_def Let_def split: option.split)

lemma backfills_of_record [simp]:
  "ix_backfills (recordProgress drv i n l k e db) = ix_backfills db"
  "ix_backfills (recordError drv now i n m db) = ix_backfills db"
  using backfills_of_getCursor [of drv i n db]
  by (cases "getCursor drv i n db"; simp add: recordProgress_def recordError_def Let_def)+

subsection \<open>Properties\<close>

text \<open>
  With a driver that returns numbers, a sequence of progress reports leaves each contract's
  cursor at the ledger of its last report and its event count at the sum of the reported counts,
  and never touches another contract's cursor.
\<close>

theorem progress_accounts:
  "let db' = fold (\<lambda>(i, n, l, k). recordProgress Num i n l k None) reports db;
       mine = filter (\<lambda>(i, n, l, k). (i, n) = (ci, net)) reports
   in cursor_ledger ci net db' = last (cursor_ledger ci net db # map (\<lambda>(i, n, l, k). l) mine) \<and>
      cursor_count ci net db' = cursor_count ci net db + sum_list (map (\<lambda>(i, n, l, k). k) mine)"
proof (induction reports arbitrary: db)
  case Nil
  then show ?case by simp
next
  case (Cons r reports)
  obtain i n l k where r: "r = (i, n, l, k)" by (cases r)
  from Cons [of "recordProgress Num i n l k None db"] show ?case
    by (auto simp: r recordProgress_ledger recordProgress_count Let_def)
qed

definition empty_indexer_db :: indexer_db where
  "empty_indexer_db = \<lparr>ix_cursors = [], ix_backfills = [], ix_processedTotal = (\<lambda>_. 0),
     ix_errorsTotal = (\<lambda>_. 0), ix_lag = (\<lambda>_. 0)\<rparr>"

text \<open>
  With the string of digits the database driver returns for a \<open>bigint\<close> column, the event count
  is concatenated, not added: after batches of 5 and 3 events it is 53.
\<close>

theorem progress_concatenates_strings:
  "cursor_count i n (recordProgress Digits i n l2 3 None
     (recordProgress Digits i n l1 5 None empty_indexer_db)) = 53"
  by (simp add: cursor_count_def recordProgress_find getCursor_def load_cursor_def fresh_cursor_def
      empty_indexer_db_def save_cursor_find cur_key_def tbl_simps find_cursor_def [of _ _ "indexer_db_ext _ _ _ _ _ _"]
      int_str_def nat_str.simps Let_def)

text \<open>
  A completed backfill stays completed whatever is done to any backfill afterwards, and starting
  it again is refused without a change.
\<close>

theorem completed_backfill_is_final:
  assumes "isBackfillCompleted i n db"
  shows "let db' = fold bf_step es db in
     isBackfillCompleted i n db' \<and>
     startBackfill i n s e db' = (Inl (PlainErr (backfill_completed_msg i n) None), db')"
proof -
  have "isBackfillCompleted i n (fold bf_step es db)"
    using assms by (rule bfm.run_ok)
  then show ?thesis
    by (auto simp: startBackfill_def isBackfillCompleted_def Let_def split: option.splits)
qed

theorem completed_backfill_is_final_witness:
  "let db = completeBackfill ''C1'' ''testnet'' (snd (startBackfill ''C1'' ''testnet'' 1 9 empty_indexer_db))
   in isBackfillCompleted ''C1'' ''testnet'' (fold bf_step [BF_start ''C1'' ''testnet'' 1 5] db)"
proof -
  let ?db = "completeBackfill ''C1'' ''testnet'' (snd (startBackfill ''C1'' ''testnet'' 1 9 empty_indexer_db))"
  have "isBackfillCompleted ''C1'' ''testnet'' ?db"
    by (simp add: startBackfill_def backfill_defs empty_indexer_db_def find_backfill_def tbl_simps Let_def)
      (simp add: save_backfill_def tbl_simps bf_key_def)
  from completed_backfill_is_final [OF this, of "[BF_start ''C1'' ''testnet'' 1 5]"] show ?thesis
    unfolding Let_def by blast
qed

end
