(* ===== verification/Indexer_Worker.thy ===== *)
theory Indexer_Worker
  imports Indexer_Service Event_Queue Reorg_Guard
begin

text \<open>
  The polling worker, \<open>workers/indexer/IndexerWorker.ts\<close>: one poll cycle reads the contract's cursor,
  asks the reorg guard where to start, fetches pages and writes their decoded events through the
  bounded queue. The loops that empty the queue and follow the RPC's page cursors may not end, so
  they are \<open>partial_function (option)\<close>: \<open>None\<close> is a loop that never returns.
\<close>

subsection \<open>State and environment\<close>

text \<open>
  What the worker calls: the driver's reading of \<open>bigint\<close>, the clock, the database's refusal of a
  write, the reader, and whether \<open>stop()\<close> has been called when the drain loop looks for the n-th time.
\<close>

record indexer_env =
  en_drv :: "int \<Rightarrow> js_num"
  en_now :: timestamp
  en_refuse :: "event_dto \<Rightarrow> js_error option"
  en_fetch :: "fetch_options \<Rightarrow> js_error + events_page"
  en_latest :: "js_error + int"
  en_stopped :: "nat \<Rightarrow> bool"

record indexer_worker =
  iw_network :: string
  iw_pageSize :: int
  iw_maxQueueSize :: int
  iw_writeBatchSize :: int
  iw_guards :: "contract_type \<Rightarrow> reorg_guard"
  iw_queueDepth :: nat
  iw_db :: indexer_db
  iw_events :: event_store

definition new_worker :: "string \<Rightarrow> int \<Rightarrow> int \<Rightarrow> int \<Rightarrow> ReorgGuardConfig \<Rightarrow> indexer_db \<Rightarrow> event_store \<Rightarrow> indexer_worker" where
  "new_worker network pageSize maxQueueSize writeBatchSize cfg db store =
     \<lparr>iw_network = network, iw_pageSize = pageSize, iw_maxQueueSize = maxQueueSize,
      iw_writeBatchSize = writeBatchSize, iw_guards = (\<lambda>_. new_guard cfg), iw_queueDepth = 0,
      iw_db = db, iw_events = store\<rparr>"

record poll_counts =
  pc_fetched :: nat
  pc_processed :: nat
  pc_skipped :: nat
  pc_errors :: nat

definition no_counts :: poll_counts where
  "no_counts = \<lparr>pc_fetched = 0, pc_processed = 0, pc_skipped = 0, pc_errors = 0\<rparr>"

definition add_counts :: "poll_counts \<Rightarrow> poll_counts \<Rightarrow> poll_counts" where
  "add_counts a b =
     \<lparr>pc_fetched = pc_fetched a + pc_fetched b, pc_processed = pc_processed a + pc_processed b,
      pc_skipped = pc_skipped a + pc_skipped b, pc_errors = pc_errors a + pc_errors b\<rparr>"

subsection \<open>Writing\<close>

text \<open>The writes of one batch: how many were processed, how many failed, and the store.\<close>

fun persist_batch :: "indexer_env \<Rightarrow> event_dto list \<Rightarrow> event_store \<Rightarrow> nat \<times> nat \<times> event_store" where
  "persist_batch env [] s = (0, 0, s)"
| "persist_batch env (dto # dtos) s =
     (case upsertEvent (en_now env) (\<lambda>s. s) (en_refuse env dto) dto s of
        (Inr _, s1) \<Rightarrow> (let (p, e, s2) = persist_batch env dtos s1 in (Suc p, e, s2))
      | (Inl _, s1) \<Rightarrow> (let (p, e, s2) = persist_batch env dtos s1 in (p, Suc e, s2)))"

partial_function (option) flushQueue ::
  "indexer_env \<Rightarrow> int \<Rightarrow> event_dto event_queue \<Rightarrow> event_store \<Rightarrow> nat \<Rightarrow> nat \<Rightarrow>
   (event_dto event_queue \<times> event_store \<times> nat \<times> nat) option" where
  "flushQueue env batchSize q s processed errors =
     (if isEmpty q then Some (q, s, processed, errors)
      else let (batch, q1) = dequeueBatch batchSize q;
               (p, e, s1) = persist_batch env batch s
           in flushQueue env batchSize q1 s1 (processed + p) (errors + e))"

text \<open>The loop of \<open>persistProgress\<close> over the events of a page.\<close>

fun buffer_events ::
  "indexer_env \<Rightarrow> int \<Rightarrow> (contract_event \<Rightarrow> event_dto option) \<Rightarrow> contract_event list \<Rightarrow>
   event_dto event_queue \<Rightarrow> event_store \<Rightarrow> nat \<Rightarrow> nat \<Rightarrow> nat \<Rightarrow>
   (event_dto event_queue \<times> event_store \<times> nat \<times> nat \<times> nat) option" where
  "buffer_events env bs decode [] q s processed skipped errors = Some (q, s, processed, skipped, errors)"
| "buffer_events env bs decode (ev # evs) q s processed skipped errors =
     (case decode ev of
        None \<Rightarrow> buffer_events env bs decode evs q s processed (Suc skipped) errors
      | Some dto \<Rightarrow>
          (if isFull q
           then Option.bind (flushQueue env bs q s 0 0)
             (\<lambda>(q1, s1, p, e). buffer_events env bs decode evs (snd (tryEnqueue dto q1)) s1
                                 (processed + p) skipped (errors + e))
           else buffer_events env bs decode evs (snd (tryEnqueue dto q)) s processed skipped errors))"

definition page_highest :: "events_page \<Rightarrow> js_num \<Rightarrow> js_num" where
  "page_highest page prev =
     (if pg_events page = [] then prev
      else Num (fold (\<lambda>ev m. max m (ev_ledger ev)) (pg_events page) (num_of prev)))"

definition note_progress ::
  "indexer_env \<Rightarrow> indexer_contract \<Rightarrow> js_num \<Rightarrow> js_num \<Rightarrow> nat \<Rightarrow> indexer_worker \<Rightarrow> indexer_worker" where
  "note_progress env contract prev highest processed w =
     (if processed > 0 \<or> num_of highest > num_of prev
      then w\<lparr>iw_db := recordProgress (en_drv env) (ic_contractId contract) (iw_network w)
                       (num_of highest) (int processed) None (iw_db w),
             iw_guards := (iw_guards w)(ic_contractType contract :=
                 updateCursor (num_of highest) (iw_guards w (ic_contractType contract)))\<rparr>
      else w)"

definition persistProgress ::
  "indexer_env \<Rightarrow> indexer_contract \<Rightarrow> events_page \<Rightarrow> js_num \<Rightarrow> event_dto event_queue \<Rightarrow>
   indexer_worker \<Rightarrow> (poll_counts \<times> event_dto event_queue \<times> indexer_worker) option" where
  "persistProgress env contract page prevLedger q w =
     Option.bind (buffer_events env (iw_writeBatchSize w) (ic_decoder contract) (pg_events page) q
                    (iw_events w) 0 0 0)
       (\<lambda>(q1, s1, p1, sk, e1).
          Option.bind (flushQueue env (iw_writeBatchSize w) q1 s1 0 0)
            (\<lambda>(q2, s2, p2, e2).
               let processed = p1 + p2;
                   w1 = w\<lparr>iw_events := s2, iw_queueDepth := queue_size q2\<rparr>;
                   w2 = note_progress env contract prevLedger (page_highest page prevLedger) processed w1
               in Some (\<lparr>pc_fetched = length (pg_events page), pc_processed = processed,
                         pc_skipped = sk, pc_errors = e1 + e2\<rparr>, q2, w2)))"

subsection \<open>One poll cycle\<close>

text \<open>
  The first page: skipped when the guard has nothing to fetch. The queue of this call is its own,
  and its constructor may throw.
\<close>

definition pollInitialPage ::
  "indexer_env \<Rightarrow> indexer_contract \<Rightarrow> js_num option \<Rightarrow> int \<Rightarrow> js_num \<Rightarrow> indexer_worker \<Rightarrow>
   ((js_error + (poll_counts \<times> string option)) \<times> indexer_worker) option" where
  "pollInitialPage env contract start latestLedger prevLedger w =
     (case start of
        None \<Rightarrow> Some (Inr (no_counts, None), w)
      | Some st \<Rightarrow>
          (case en_fetch env \<lparr>fo_contractIds = [ic_contractId contract], fo_cursor = None,
                   fo_startLedger = Some (num_of st), fo_endLedger = Some latestLedger,
                   fo_limit = Some (iw_pageSize w)\<rparr> of
             Inl e \<Rightarrow> Some (Inl e, w)
           | Inr page \<Rightarrow>
               (case new_queue (iw_maxQueueSize w) of
                  Inl e \<Rightarrow> Some (Inl e, w)
                | Inr q \<Rightarrow>
                    map_option (\<lambda>(c, _, w1). (Inr (c, or_none (Some (pg_cursor page))), w1))
                      (persistProgress env contract page prevLedger q w))))"

text \<open>
  The cursor loop. A full queue is flushed before the next fetch; \<open>flushQueue\<close> leaves it empty, so
  the source's inner loop runs once at most. The counts so far are lost to the caller when a fetch
  throws, as they are local to \<open>drainPages\<close>.
\<close>

partial_function (option) drain_loop ::
  "indexer_env \<Rightarrow> indexer_contract \<Rightarrow> js_num \<Rightarrow> nat \<Rightarrow> string list \<Rightarrow> string option \<Rightarrow>
   event_dto event_queue \<Rightarrow> poll_counts \<Rightarrow> string option \<Rightarrow> indexer_worker \<Rightarrow>
   ((js_error + (poll_counts \<times> string option \<times> event_dto event_queue)) \<times> indexer_worker) option" where
  "drain_loop env contract prev n seen pageCursor q counts lastCur w =
     (if \<not> truthy pageCursor \<or> en_stopped env n \<or> the pageCursor \<in> set seen
      then Some (Inr (counts, lastCur, q), w)
      else
        Option.bind (if isFull q then flushQueue env (iw_writeBatchSize w) q (iw_events w) 0 0
                     else Some (q, iw_events w, 0, 0))
          (\<lambda>(q1, s1, p1, e1).
             (case en_fetch env \<lparr>fo_contractIds = [ic_contractId contract], fo_cursor = pageCursor,
                      fo_startLedger = None, fo_endLedger = None, fo_limit = Some (iw_pageSize w)\<rparr> of
                Inl e \<Rightarrow> Some (Inl e, w\<lparr>iw_events := s1\<rparr>)
              | Inr page \<Rightarrow>
                  Option.bind (persistProgress env contract page prev q1 (w\<lparr>iw_events := s1\<rparr>))
                    (\<lambda>(c, q2, w2).
                       drain_loop env contract prev (Suc n) (the pageCursor # seen)
                         (or_none (Some (pg_cursor page))) q2
                         (add_counts (add_counts counts
                            \<lparr>pc_fetched = 0, pc_processed = p1, pc_skipped = 0, pc_errors = e1\<rparr>) c)
                         (if pg_cursor page \<noteq> [] then Some (pg_cursor page) else lastCur) w2))))"

definition drainPages ::
  "indexer_env \<Rightarrow> indexer_contract \<Rightarrow> string option \<Rightarrow> js_num \<Rightarrow> indexer_worker \<Rightarrow>
   ((js_error + (poll_counts \<times> string option)) \<times> indexer_worker) option" where
  "drainPages env contract startCursor prev w =
     (case new_queue (iw_maxQueueSize w) of
        Inl e \<Rightarrow> Some (Inl e, w)
      | Inr q \<Rightarrow>
          Option.bind (drain_loop env contract prev 0 [] startCursor q no_counts None w)
            (\<lambda>(r, w1). case r of
               Inl e \<Rightarrow> Some (Inl e, w1)
             | Inr (counts, lastCur, q1) \<Rightarrow>
                 Option.bind (if isEmpty q1 then Some (q1, iw_events w1, 0, 0)
                              else flushQueue env (iw_writeBatchSize w1) q1 (iw_events w1) 0 0)
                   (\<lambda>(q2, s2, p, e).
                      Some (Inr (add_counts counts
                               \<lparr>pc_fetched = 0, pc_processed = p, pc_skipped = 0, pc_errors = e\<rparr>, lastCur),
                            w1\<lparr>iw_events := s2, iw_queueDepth := queue_size q2\<rparr>))))"

record poll_outcome =
  po_counts :: poll_counts
  po_cursor :: "string option"
  po_latestLedger :: int

text \<open>The \<open>catch\<close> of \<open>pollOnce\<close>: the error is recorded on the cursor, the counts so far are kept.\<close>

definition poll_failed ::
  "indexer_env \<Rightarrow> indexer_contract \<Rightarrow> poll_counts \<Rightarrow> string option \<Rightarrow> js_error \<Rightarrow> indexer_worker \<Rightarrow>
   poll_outcome \<times> indexer_worker" where
  "poll_failed env contract counts cursor e w =
     (\<lparr>po_counts = counts\<lparr>pc_errors := Suc (pc_errors counts)\<rparr>, po_cursor = cursor, po_latestLedger = 0\<rparr>,
      w\<lparr>iw_db := recordError (en_drv env) (en_now env) (ic_contractId contract) (iw_network w)
                   (error_message e) (iw_db w)\<rparr>)"

definition pollOnce ::
  "indexer_env \<Rightarrow> indexer_contract \<Rightarrow> indexer_worker \<Rightarrow> (poll_outcome \<times> indexer_worker) option" where
  "pollOnce env contract w =
     (let (stored, db1) = getCursor (en_drv env) (ic_contractId contract) (iw_network w) (iw_db w);
          prev = cur_lastProcessedLedger stored;
          ct = ic_contractType contract;
          w1 = w\<lparr>iw_db := db1, iw_guards := (iw_guards w)(ct := setCursor prev (iw_guards w ct))\<rparr>
      in case en_latest env of
           Inl e \<Rightarrow> Some (poll_failed env contract no_counts None e w1)
         | Inr latestLedger \<Rightarrow>
             Option.bind (pollInitialPage env contract
                            (getOverlapStart latestLedger (iw_guards w1 ct)) latestLedger prev w1)
               (\<lambda>(r, w2). case r of
                  Inl e \<Rightarrow> Some (poll_failed env contract no_counts None e w2)
                | Inr (c1, cursor1) \<Rightarrow>
                    Option.bind (drainPages env contract cursor1 prev w2)
                      (\<lambda>(r', w3). case r' of
                         Inl e \<Rightarrow> Some (poll_failed env contract c1 cursor1 e w3)
                       | Inr (c2, cursor2) \<Rightarrow>
                           Some (\<lparr>po_counts = add_counts c1 c2,
                                  po_cursor = (if truthy cursor2 then cursor2 else cursor1),
                                  po_latestLedger = latestLedger\<rparr>, w3))))"

text \<open>The lag gauge is refreshed only when the tip is known and positive.\<close>

definition refreshLag :: "indexer_env \<Rightarrow> indexer_worker \<Rightarrow> indexer_worker" where
  "refreshLag env w =
     (let latestLedger = (case en_latest env of Inr l \<Rightarrow> l | Inl _ \<Rightarrow> 0) in
      if latestLedger \<le> 0 then w else w\<lparr>iw_db := updateLagMetrics latestLedger (iw_db w)\<rparr>)"

text \<open>\<open>start()\<close> polls every contract; a cycle's failure never leaves \<open>pollOnce\<close>.\<close>

fun poll_all :: "indexer_env \<Rightarrow> indexer_contract list \<Rightarrow> indexer_worker \<Rightarrow> indexer_worker option" where
  "poll_all env [] w = Some w"
| "poll_all env (c # cs) w = Option.bind (pollOnce env c w) (\<lambda>(_, w1). poll_all env cs w1)"

subsection \<open>Emptying the queue\<close>

lemma persist_batch_append:
  "persist_batch env (xs @ ys) s =
     (let (p, e, s1) = persist_batch env xs s; (p', e', s2) = persist_batch env ys s1
      in (p + p', e + e', s2))"
  by (induction xs arbitrary: s) (simp_all add: Let_def split: prod.splits sum.splits)

lemma persist_batch_total: "persist_batch env ds s = (p, e, s') \<Longrightarrow> p + e = length ds"
  by (induction ds arbitrary: s p e s') (auto simp: Let_def split: prod.splits sum.splits)

lemma persist_batch_quiet:
  assumes "\<forall>d\<in>set ds. en_refuse env d = None"
  shows "persist_batch env ds s = (length ds, 0, fold (upsert_quiet (en_now env)) ds s)"
  using assms
proof (induction ds arbitrary: s)
  case Nil
  then show ?case by simp
next
  case (Cons d ds)
  obtain r b s1 where "upsertEvent (en_now env) (\<lambda>s. s) None d s = (Inr (r, b), s1)"
    using upsertEvent_served [of "en_now env" "\<lambda>s. s" d s]
    by (cases "upsertEvent (en_now env) (\<lambda>s. s) None d s") auto
  with Cons show ?case by (simp add: upsert_quiet_def)
qed

lemma flushQueue_empty: "isEmpty q \<Longrightarrow> flushQueue env bs q s p e = Some (q, s, p, e)"
  by (subst flushQueue.simps) simp

lemma flushQueue_spec:
  assumes "0 < bs" and "persist_batch env (eq_items q) s = (p', e', s')"
  shows "\<exists>q'. flushQueue env bs q s p e = Some (q', s', p + p', e + e') \<and>
      eq_items q' = [] \<and> eq_maxSize q' = eq_maxSize q"
  using assms(2)
proof (induction "length (eq_items q)" arbitrary: q s p e p' e' rule: less_induct)
  case less
  show ?case
  proof (cases "isEmpty q")
    case True
    with less.prems show ?thesis by (simp add: flushQueue_empty isEmpty_def)
  next
    case False
    obtain b q1 where deq: "dequeueBatch bs q = (b, q1)" by fastforce
    obtain p1 e1 s1 where run: "persist_batch env b s = (p1, e1, s1)"
      by (cases "persist_batch env b s")
    obtain p2 e2 s2 where run2: "persist_batch env (eq_items q1) s1 = (p2, e2, s2)"
      by (cases "persist_batch env (eq_items q1) s1")
    from False have "eq_items q \<noteq> []" by (auto simp: isEmpty_def)
    with deq assms(1) have shorter: "length (eq_items q1) < length (eq_items q)"
      by (rule bq.take_shrinks)
    have items: "eq_items q = b @ eq_items q1" and size: "eq_maxSize q1 = eq_maxSize q"
      using bq.take_contents [OF deq] bq.take_room [OF deq] by simp_all
    from less.prems items run run2 have res: "p' = p1 + p2" "e' = e1 + e2" "s' = s2"
      by (auto simp: persist_batch_append)
    have "flushQueue env bs q s p e = flushQueue env bs q1 s1 (p + p1) (e + e1)"
      by (subst flushQueue.simps) (simp add: False deq run)
    with less.hyps [OF shorter, of s1 p2 e2 "p + p1" "e + e1"] run2 res size show ?thesis
      by (auto simp: add.assoc)
  qed
qed

lemma flushQueue_diverges:
  assumes "bs \<le> 0" and "flushQueue env bs q s p e = Some r"
  shows "isEmpty q"
proof -
  have "bs \<le> 0 \<longrightarrow> isEmpty q"
  proof (rule flushQueue.raw_induct [where P = "\<lambda>env bs q s p e r. bs \<le> 0 \<longrightarrow> isEmpty q", OF _ assms(2)])
    fix flush :: "indexer_env \<Rightarrow> int \<Rightarrow> event_dto event_queue \<Rightarrow> event_store \<Rightarrow> nat \<Rightarrow> nat \<Rightarrow>
        (event_dto event_queue \<times> event_store \<times> nat \<times> nat) option"
      and env bs q s p e r
    assume IH: "\<And>env bs q s p e r. flush env bs q s p e = Some r \<Longrightarrow> bs \<le> 0 \<longrightarrow> isEmpty q"
      and run: "(if isEmpty q then Some (q, s, p, e)
          else let (batch, q1) = dequeueBatch bs q; (p1, e1, s1) = persist_batch env batch s
               in flush env bs q1 s1 (p + p1) (e + e1)) = Some r"
    show "bs \<le> 0 \<longrightarrow> isEmpty q"
    proof (intro impI, rule ccontr)
      assume bs: "bs \<le> 0" and ne: "\<not> isEmpty q"
      then have "dequeueBatch bs q = ([], q)" by (simp add: dequeueBatch_def)
      with run ne have "flush env bs q s p e = Some r" by simp
      from IH [OF this] bs ne show False by simp
    qed
  qed
  with assms(1) show ?thesis by simp
qed

subsection \<open>Buffering is transparent\<close>

lemma tryEnqueue_items:
  "\<not> isFull q \<Longrightarrow> eq_items (snd (tryEnqueue x q)) = eq_items q @ [x]"
  "eq_maxSize (snd (tryEnqueue x q)) = eq_maxSize q"
  by (simp_all add: tryEnqueue_def)

lemma buffer_events_spec:
  assumes "0 < bs" and "0 < eq_maxSize q"
  shows "\<exists>q' ds p' e' s'. persist_batch env ds s = (p', e', s') \<and>
      buffer_events env bs dec evs q s p sk e =
        Some (q', s', p + p', sk + length (filter (\<lambda>ev. dec ev = None) evs), e + e') \<and>
      ds @ eq_items q' = eq_items q @ List.map_filter dec evs \<and> eq_maxSize q' = eq_maxSize q"
  using assms(2)
proof (induction evs arbitrary: q s p sk e)
  case Nil
  then show ?case by (auto intro!: exI [of _ "[]"] simp: List.map_filter_def)
next
  case (Cons ev evs)
  show ?case
  proof (cases "dec ev")
    case None
    with Cons.IH [OF Cons.prems, of s p "Suc sk" e] show ?thesis
      by (simp add: List.map_filter_simps)
  next
    case (Some dto)
    show ?thesis
    proof (cases "isFull q")
      case False
      let ?q = "snd (tryEnqueue dto q)"
      from Cons.IH [of ?q s p sk e] Cons.prems False Some show ?thesis
        by (simp add: tryEnqueue_items List.map_filter_simps)
    next
      case True
      obtain p1 e1 s1 where run: "persist_batch env (eq_items q) s = (p1, e1, s1)"
        by (cases "persist_batch env (eq_items q) s")
      from flushQueue_spec [OF assms(1) run, of 0 0] obtain q1 where
        fl: "flushQueue env bs q s 0 0 = Some (q1, s1, p1, e1)"
        and q1: "eq_items q1 = []" "eq_maxSize q1 = eq_maxSize q"
        by auto
      let ?q = "snd (tryEnqueue dto q1)"
      have nf: "\<not> isFull q1" using q1 Cons.prems by (simp add: isFull_def)
      have "0 < eq_maxSize ?q" using q1 Cons.prems by (simp add: tryEnqueue_items)
      from Cons.IH [OF this, of s1 "p + p1" sk "e + e1"] obtain q' ds p2 e2 s2 where
        run2: "persist_batch env ds s1 = (p2, e2, s2)" and
        *: "buffer_events env bs dec evs ?q s1 (p + p1) sk (e + e1) =
            Some (q', s2, p + p1 + p2, sk + length (filter (\<lambda>ev. dec ev = None) evs), e + e1 + e2)"
        "ds @ eq_items q' = dto # List.map_filter dec evs" "eq_maxSize q' = eq_maxSize q"
        using nf q1 by (auto simp: tryEnqueue_items)
      have "persist_batch env (eq_items q @ ds) s = (p1 + p2, e1 + e2, s2)"
        by (simp add: persist_batch_append run run2)
      then show ?thesis
        using True Some fl *
        by (intro exI [of _ q'] exI [of _ "eq_items q @ ds"])
          (simp add: List.map_filter_simps add.assoc)
    qed
  qed
qed

text \<open>With positive sizes one page is written as if each event were persisted directly.\<close>

definition direct_progress ::
  "indexer_env \<Rightarrow> indexer_contract \<Rightarrow> events_page \<Rightarrow> js_num \<Rightarrow> event_dto list \<Rightarrow> indexer_worker \<Rightarrow>
   poll_counts \<times> indexer_worker" where
  "direct_progress env contract page prev buffered w =
     (let (p, e, s) = persist_batch env (buffered @ List.map_filter (ic_decoder contract) (pg_events page))
                        (iw_events w)
      in (\<lparr>pc_fetched = length (pg_events page), pc_processed = p,
           pc_skipped = length (filter (\<lambda>ev. ic_decoder contract ev = None) (pg_events page)),
           pc_errors = e\<rparr>,
          note_progress env contract prev (page_highest page prev) p
            (w\<lparr>iw_events := s, iw_queueDepth := 0\<rparr>)))"

lemma persistProgress_direct:
  assumes "0 < iw_writeBatchSize w" and "0 < eq_maxSize q"
  shows "\<exists>q'. persistProgress env contract page prev q w =
      (case direct_progress env contract page prev (eq_items q) w of (c, w') \<Rightarrow> Some (c, q', w')) \<and>
      eq_items q' = [] \<and> eq_maxSize q' = eq_maxSize q"
proof -
  let ?dec = "ic_decoder contract" and ?bs = "iw_writeBatchSize w"
  from buffer_events_spec [OF assms, of env "iw_events w" ?dec "pg_events page" 0 0 0]
  obtain q1 ds p1 e1 s1 where
    run: "persist_batch env ds (iw_events w) = (p1, e1, s1)" and
    buf: "buffer_events env ?bs ?dec (pg_events page) q (iw_events w) 0 0 0 =
       Some (q1, s1, p1, length (filter (\<lambda>ev. ?dec ev = None) (pg_events page)), e1)"
    and items: "ds @ eq_items q1 = eq_items q @ List.map_filter ?dec (pg_events page)"
    and size: "eq_maxSize q1 = eq_maxSize q"
    by auto
  obtain p2 e2 s2 where run2: "persist_batch env (eq_items q1) s1 = (p2, e2, s2)"
    by (cases "persist_batch env (eq_items q1) s1")
  have all: "persist_batch env (eq_items q @ List.map_filter ?dec (pg_events page)) (iw_events w)
      = (p1 + p2, e1 + e2, s2)"
    unfolding items [symmetric] by (simp add: persist_batch_append run run2)
  from flushQueue_spec [OF assms(1) run2, of 0 0] obtain q2 where
    fl: "flushQueue env ?bs q1 s1 0 0 = Some (q2, s2, p2, e2)"
    and q2: "eq_items q2 = []" "eq_maxSize q2 = eq_maxSize q1"
    by auto
  show ?thesis
    using buf fl q2 size all
    by (intro exI [of _ q2])
      (simp add: persistProgress_def direct_progress_def queue_size_def Let_def)
qed

lemma new_queue_fresh:
  "new_queue n = Inr q \<Longrightarrow> eq_items q = [] \<and> 0 < eq_maxSize q"
  by (auto simp: new_queue_def split: if_splits)

subsection \<open>What a cycle may change\<close>

lemma upsertEvent_rows:
  "es_rows (snd (upsertEvent now (\<lambda>s. s) f dto s)) = es_rows s \<or>
   es_rows (snd (upsertEvent now (\<lambda>s. s) f dto s)) = es_rows s @ [event_row now (es_nextSeq s) dto]"
  by (simp add: upsertEvent_def insert_event_def Let_def split: option.split)

lemma persist_batch_rows:
  "persist_batch env ds s = (p, e, s') \<Longrightarrow>
     \<exists>rows. es_rows s' = es_rows s @ rows \<and> (\<forall>r\<in>set rows. \<exists>d\<in>set ds. ie_network r = dto_net d)"
proof (induction ds arbitrary: s p e s')
  case Nil
  then show ?case by simp
next
  case (Cons d ds)
  obtain res s1 where up: "upsertEvent (en_now env) (\<lambda>s. s) (en_refuse env d) d s = (res, s1)"
    by (cases "upsertEvent (en_now env) (\<lambda>s. s) (en_refuse env d) d s")
  obtain p1 e1 s2 where rest: "persist_batch env ds s1 = (p1, e1, s2)"
    by (cases "persist_batch env ds s1")
  have s': "s' = s2" using Cons.prems up rest by (auto split: sum.splits)
  have first: "\<exists>rs. es_rows s1 = es_rows s @ rs \<and> (\<forall>r\<in>set rs. ie_network r = dto_net d)"
    using upsertEvent_rows [of "en_now env" "en_refuse env d" d s] up
    by (auto simp: event_row_def)
  from first Cons.IH [OF rest] show ?case
    unfolding s' by fastforce
qed

lemma persist_batch_mono:
  "persist_batch env ds s = (p, e, s') \<Longrightarrow> event_stored d s \<Longrightarrow> event_stored d s'"
  using persist_batch_rows [of env ds s p e s']
  by (auto simp: event_stored_def tbl_find_append split: option.splits)

text \<open>
  \<open>advances i ct prev w w'\<close>: the worker went from \<open>w\<close> to \<open>w'\<close> working on contract \<open>i\<close> of type \<open>ct\<close>.
  Its settings stay, no stored event is lost, no other contract's cursor or guard is touched, and
  the contract's own cursor does not fall below \<open>prev\<close>.
\<close>

definition advances :: "ident \<Rightarrow> contract_type \<Rightarrow> int \<Rightarrow> indexer_worker \<Rightarrow> indexer_worker \<Rightarrow> bool" where
  "advances i ct prev w w' \<longleftrightarrow>
     iw_network w' = iw_network w \<and> iw_pageSize w' = iw_pageSize w \<and>
     iw_maxQueueSize w' = iw_maxQueueSize w \<and> iw_writeBatchSize w' = iw_writeBatchSize w \<and>
     (\<forall>i' n'. (i', n') \<noteq> (i, iw_network w) \<longrightarrow>
        find_cursor i' n' (iw_db w') = find_cursor i' n' (iw_db w)) \<and>
     (\<forall>ct'. ct' \<noteq> ct \<longrightarrow> iw_guards w' ct' = iw_guards w ct') \<and>
     (\<forall>d. event_stored d (iw_events w) \<longrightarrow> event_stored d (iw_events w')) \<and>
     (prev \<le> cursor_ledger i (iw_network w) (iw_db w) \<longrightarrow>
        prev \<le> cursor_ledger i (iw_network w) (iw_db w'))"

lemma advances_refl: "advances i ct prev w w"
  by (simp add: advances_def)

lemma advances_trans: "advances i ct prev w w' \<Longrightarrow> advances i ct prev w' w'' \<Longrightarrow> advances i ct prev w w''"
  by (auto simp: advances_def)

lemma fold_max_ge: "(m::int) \<le> fold (\<lambda>ev m. max m (ev_ledger ev)) evs m"
  by (induction evs arbitrary: m) (auto intro: order_trans [OF max.cobounded1])

lemma page_highest_ge: "num_of prev \<le> num_of (page_highest page prev)"
  by (simp add: page_highest_def fold_max_ge)

lemma recordProgress_other:
  "(i', n') \<noteq> (i, n) \<Longrightarrow> find_cursor i' n' (recordProgress drv i n l k e db) = find_cursor i' n' db"
  by (auto simp: recordProgress_find)

lemma note_progress_advances:
  assumes "iw_db w1 = iw_db w" and "iw_network w1 = iw_network w" and "iw_guards w1 = iw_guards w"
    and "iw_pageSize w1 = iw_pageSize w" "iw_maxQueueSize w1 = iw_maxQueueSize w"
      "iw_writeBatchSize w1 = iw_writeBatchSize w"
    and "\<And>d. event_stored d (iw_events w) \<Longrightarrow> event_stored d (iw_events w1)"
  shows "advances (ic_contractId contract) (ic_contractType contract) (num_of prev) w
           (note_progress env contract prev (page_highest page prev) k w1)"
  using assms page_highest_ge [of prev page]
  by (auto simp: note_progress_def advances_def recordProgress_other recordProgress_ledger)

lemma direct_progress_advances:
  "advances (ic_contractId contract) (ic_contractType contract) (num_of prev) w
     (snd (direct_progress env contract page prev buffered w))"
  by (auto simp: direct_progress_def split: prod.split
      intro!: note_progress_advances intro: persist_batch_mono)

lemma persistProgress_advances:
  assumes "0 < iw_writeBatchSize w" and "0 < eq_maxSize q" and "eq_items q = []"
  shows "\<exists>c q' w'. persistProgress env contract page prev q w = Some (c, q', w') \<and>
      eq_items q' = [] \<and> 0 < eq_maxSize q' \<and>
      advances (ic_contractId contract) (ic_contractType contract) (num_of prev) w w'"
proof -
  obtain c w' where dp: "direct_progress env contract page prev (eq_items q) w = (c, w')"
    by fastforce
  from persistProgress_direct [OF assms(1,2), of env contract page prev] dp assms(2)
    direct_progress_advances [of contract prev w env page "eq_items q"]
  show ?thesis by auto
qed

text \<open>The drain loop ends when the RPC's cursors come from a finite set.\<close>

definition cursor_opts :: "indexer_contract \<Rightarrow> indexer_worker \<Rightarrow> string option \<Rightarrow> fetch_options" where
  "cursor_opts contract w c =
     \<lparr>fo_contractIds = [ic_contractId contract], fo_cursor = c, fo_startLedger = None,
      fo_endLedger = None, fo_limit = Some (iw_pageSize w)\<rparr>"

definition cursors_within :: "indexer_env \<Rightarrow> string list \<Rightarrow> bool" where
  "cursors_within env cs \<longleftrightarrow> (\<forall>opts page. en_fetch env opts = Inr page \<longrightarrow> pg_cursor page \<in> set cs)"

lemma drain_loop_total:
  assumes within: "cursors_within env cs"
  shows "0 < iw_writeBatchSize w \<Longrightarrow> 0 < eq_maxSize q \<Longrightarrow> eq_items q = [] \<Longrightarrow>
     (pageCursor = None \<or> the pageCursor \<in> set cs) \<Longrightarrow>
     \<exists>r w'. drain_loop env contract prev n seen pageCursor q counts lst w = Some (r, w') \<and>
       (\<forall>c l q'. r = Inr (c, l, q') \<longrightarrow> eq_items q' = []) \<and>
       advances (ic_contractId contract) (ic_contractType contract) (num_of prev) w w'"
proof (induction "card (set cs - set seen)" arbitrary: n seen pageCursor q counts lst w rule: less_induct)
  case less
  show ?case
  proof (cases "\<not> truthy pageCursor \<or> en_stopped env n \<or> the pageCursor \<in> set seen")
    case True
    then have "drain_loop env contract prev n seen pageCursor q counts lst w = Some (Inr (counts, lst, q), w)"
      by (subst drain_loop.simps) simp
    with less.prems(3) show ?thesis by (auto intro: advances_refl)
  next
    case False
    then have cont: "truthy pageCursor" "\<not> en_stopped env n" "the pageCursor \<notin> set seen" by auto
    have nf: "\<not> isFull q" using less.prems(2,3) by (simp add: isFull_def)
    show ?thesis
    proof (cases "en_fetch env (cursor_opts contract w pageCursor)")
      case (Inl e)
      then have "drain_loop env contract prev n seen pageCursor q counts lst w = Some (Inl e, w)"
        by (subst drain_loop.simps) (use cont nf in \<open>simp add: cursor_opts_def\<close>)
      then show ?thesis by (auto intro: advances_refl)
    next
      case (Inr page)
      obtain c q1 w1 where pp: "persistProgress env contract page prev q w = Some (c, q1, w1)"
        and q1: "eq_items q1 = []" "0 < eq_maxSize q1"
        and adv: "advances (ic_contractId contract) (ic_contractType contract) (num_of prev) w w1"
        using persistProgress_advances [OF less.prems(1-3)] by blast
      have "the pageCursor \<in> set cs" using less.prems(4) cont(1) by (auto simp: truthy_def)
      then have "set cs - set (the pageCursor # seen) \<subset> set cs - set seen" using cont(3) by auto
      then have smaller: "card (set cs - set (the pageCursor # seen)) < card (set cs - set seen)"
        by (intro psubset_card_mono) auto
      have next_in: "or_none (Some (pg_cursor page)) = None \<or> the (or_none (Some (pg_cursor page))) \<in> set cs"
        using within Inr by (auto simp: cursors_within_def or_none_def)
      have batch: "0 < iw_writeBatchSize w1" using adv less.prems(1) by (simp add: advances_def)
      let ?counts = "add_counts (add_counts counts
        \<lparr>pc_fetched = 0, pc_processed = 0, pc_skipped = 0, pc_errors = 0\<rparr>) c"
      let ?lst = "if pg_cursor page \<noteq> [] then Some (pg_cursor page) else lst"
      have "drain_loop env contract prev n seen pageCursor q counts lst w =
          drain_loop env contract prev (Suc n) (the pageCursor # seen)
            (or_none (Some (pg_cursor page))) q1 ?counts ?lst w1"
        by (subst drain_loop.simps) (use cont nf Inr pp in \<open>simp add: cursor_opts_def\<close>)
      with less.hyps [OF smaller batch q1(2,1) next_in, of "Suc n" ?counts ?lst] adv
      show ?thesis by (fastforce intro: advances_trans)
    qed
  qed
qed

lemma drainPages_total:
  assumes "cursors_within env cs" and "0 < iw_writeBatchSize w"
    and "c = None \<or> the c \<in> set cs"
  shows "\<exists>r w'. drainPages env contract c prev w = Some (r, w') \<and>
      advances (ic_contractId contract) (ic_contractType contract) (num_of prev) w w'"
proof (cases "new_queue (iw_maxQueueSize w) :: js_error + event_dto event_queue")
  case (Inl e)
  then show ?thesis by (auto simp: drainPages_def intro: advances_refl)
next
  case (Inr q)
  have "eq_items q = []" "0 < eq_maxSize q" using new_queue_fresh [OF Inr] by simp_all
  from drain_loop_total [OF assms(1,2) this(2,1) assms(3), of contract prev 0 "[]" no_counts None]
  obtain r w1 where loop: "drain_loop env contract prev 0 [] c q no_counts None w = Some (r, w1)"
    and r: "\<forall>c l q'. r = Inr (c, l, q') \<longrightarrow> eq_items q' = []"
    and adv: "advances (ic_contractId contract) (ic_contractType contract) (num_of prev) w w1"
    by blast
  have "advances i ct p w2 (w2\<lparr>iw_queueDepth := d\<rparr>)" for i ct p w2 d
    by (simp add: advances_def)
  from advances_trans [OF adv this] Inr loop r adv show ?thesis
    by (cases r) (auto simp: drainPages_def isEmpty_def)
qed

lemma recordError_find:
  "(i', n') \<noteq> (i, n) \<Longrightarrow> find_cursor i' n' (recordError drv now i n m db) = find_cursor i' n' db"
  "(\<And>i. num_of (drv i) = i) \<Longrightarrow> cursor_ledger i n (recordError drv now i n m db) = cursor_ledger i n db"
proof -
  obtain c db1 where g: "getCursor drv i n db = (c, db1)" by fastforce
  have key: "cur_contractId c = i" "cur_network c = n"
    using getCursor_key [of drv i n db] g by (simp_all add: cur_key_def)
  have meta: "find_cursor i n (d\<lparr>ix_errorsTotal := f\<rparr>) = find_cursor i n d" for d f i n
    by (simp add: find_cursor_def)
  show "(i', n') \<noteq> (i, n) \<Longrightarrow> find_cursor i' n' (recordError drv now i n m db) = find_cursor i' n' db"
    using getCursor_find(2) [of i' n' i n drv db] g key
    by (auto simp: recordError_def meta save_cursor_find cur_key_def Let_def)
  show "(\<And>i. num_of (drv i) = i) \<Longrightarrow> cursor_ledger i n (recordError drv now i n m db) = cursor_ledger i n db"
    using getCursor_ledger [of drv i n db] g key
    by (simp add: recordError_def cursor_ledger_def [of _ _ "indexer_db.ix_errorsTotal_update _ _"]
        meta save_cursor_find cur_key_def Let_def)
qed

lemma getCursor_advances:
  assumes "\<And>i. num_of (drv i) = i"
  shows "cursor_ledger i n (snd (getCursor drv i n db)) = cursor_ledger i n db"
  by (auto simp: getCursor_def cursor_ledger_def save_cursor_find fresh_cursor_def cur_key_def Let_def
      split: option.splits)

lemma poll_failed_advances:
  assumes "\<And>i. num_of (en_drv env i) = i"
  shows "advances (ic_contractId contract) ct p w (snd (poll_failed env contract counts c e w))"
  using assms by (auto simp: poll_failed_def advances_def recordError_find)

lemma pollInitialPage_total:
  assumes "cursors_within env cs" and "0 < iw_writeBatchSize w"
  shows "\<exists>r w'. pollInitialPage env contract start latest prev w = Some (r, w') \<and>
      (\<forall>k c. r = Inr (k, c) \<longrightarrow> c = None \<or> the c \<in> set cs) \<and>
      advances (ic_contractId contract) (ic_contractType contract) (num_of prev) w w'"
proof (cases start)
  case None
  then show ?thesis by (auto simp: pollInitialPage_def intro: advances_refl)
next
  case (Some st)
  let ?o = "\<lparr>fo_contractIds = [ic_contractId contract], fo_cursor = None,
      fo_startLedger = Some (num_of st), fo_endLedger = Some latest, fo_limit = Some (iw_pageSize w)\<rparr>"
  show ?thesis
  proof (cases "en_fetch env ?o")
    case (Inl e)
    with Some show ?thesis by (auto simp: pollInitialPage_def intro: advances_refl)
  next
    case (Inr page)
    note page = Inr
    show ?thesis
    proof (cases "new_queue (iw_maxQueueSize w) :: js_error + event_dto event_queue")
      case (Inl e)
      with Some page show ?thesis by (auto simp: pollInitialPage_def intro: advances_refl)
    next
      case (Inr q)
      have fresh: "eq_items q = []" "0 < eq_maxSize q" using new_queue_fresh [OF Inr] by simp_all
      obtain c q1 w1 where "persistProgress env contract page prev q w = Some (c, q1, w1)"
        and "advances (ic_contractId contract) (ic_contractType contract) (num_of prev) w w1"
        using persistProgress_advances [OF assms(2) fresh(2,1)] by blast
      with Some page Inr assms(1) show ?thesis
        by (auto simp: pollInitialPage_def cursors_within_def or_none_def)
    qed
  qed
qed

lemma pollOnce_total:
  assumes "\<And>i. num_of (en_drv env i) = i" and "cursors_within env cs" and "0 < iw_writeBatchSize w"
  shows "\<exists>out w'. pollOnce env contract w = Some (out, w') \<and>
      advances (ic_contractId contract) (ic_contractType contract)
        (cursor_ledger (ic_contractId contract) (iw_network w) (iw_db w)) w w'"
proof -
  let ?i = "ic_contractId contract" and ?ct = "ic_contractType contract"
  let ?L = "cursor_ledger ?i (iw_network w) (iw_db w)"
  obtain stored db1 where g: "getCursor (en_drv env) ?i (iw_network w) (iw_db w) = (stored, db1)"
    by fastforce
  let ?prev = "cur_lastProcessedLedger stored"
  let ?w1 = "w\<lparr>iw_db := db1, iw_guards := (iw_guards w)(?ct := setCursor ?prev (iw_guards w ?ct))\<rparr>"
  have prev: "num_of ?prev = ?L"
    using getCursor_ledger [OF assms(1), of ?i "iw_network w" "iw_db w"] g by simp
  have "advances ?i ?ct ?L w ?w1"
    using getCursor_advances [OF assms(1), of ?i "iw_network w" "iw_db w"]
      getCursor_find(2) [of _ _ ?i "iw_network w" "en_drv env" "iw_db w"] g
    by (auto simp: advances_def)
  note adv1 = this
  note failed = poll_failed_advances [OF assms(1), of contract ?ct ?L]
  show ?thesis
  proof (cases "en_latest env")
    case (Inl e)
    with adv1 failed [of ?w1 no_counts None e] show ?thesis
      by (cases "poll_failed env contract no_counts None e ?w1")
        (auto simp: pollOnce_def g Let_def intro: advances_trans)
  next
    case (Inr latest)
    let ?start = "getOverlapStart latest (iw_guards ?w1 ?ct)"
    have "0 < iw_writeBatchSize ?w1" using assms(3) by simp
    from pollInitialPage_total [OF assms(2) this, of contract ?start latest ?prev]
    obtain r w2 where init: "pollInitialPage env contract ?start latest ?prev ?w1 = Some (r, w2)"
      and r: "\<forall>k c. r = Inr (k, c) \<longrightarrow> c = None \<or> the c \<in> set cs"
      and adv2: "advances ?i ?ct ?L ?w1 w2" unfolding prev by blast
    have adv12: "advances ?i ?ct ?L w w2" using adv1 adv2 by (rule advances_trans)
    show ?thesis
    proof (cases r)
      case (Inl e)
      with adv12 failed [of w2 no_counts None e] init \<open>en_latest env = Inr latest\<close> show ?thesis
        by (cases "poll_failed env contract no_counts None e w2")
          (auto simp: pollOnce_def g Let_def intro: advances_trans)
    next
      case (Inr kc)
      then obtain k c where kc: "r = Inr (k, c)" by (cases kc) auto
      have "0 < iw_writeBatchSize w2" using adv12 assms(3) by (simp add: advances_def)
      from drainPages_total [OF assms(2) this, of c contract ?prev] r kc
      obtain r' w3 where drain: "drainPages env contract c ?prev w2 = Some (r', w3)"
        and "advances ?i ?ct ?L w2 w3" unfolding prev by blast
      with adv12 have adv: "advances ?i ?ct ?L w w3" by (blast intro: advances_trans)
      show ?thesis
      proof (cases r')
        case (Inl e)
        with adv failed [of w3 k c e] init kc drain \<open>en_latest env = Inr latest\<close> show ?thesis
          by (cases "poll_failed env contract k c e w3")
            (auto simp: pollOnce_def g Let_def intro: advances_trans)
      next
        case (Inr z)
        with adv init kc drain \<open>en_latest env = Inr latest\<close> show ?thesis
          by (cases z) (auto simp: pollOnce_def g Let_def)
      qed
    qed
  qed
qed

lemma length_map_filter: "length (List.map_filter f xs) + length (filter (\<lambda>x. f x = None) xs) = length xs"
  by (induction xs) (auto simp: List.map_filter_simps split: option.split)

subsection \<open>A small deployment\<close>

text \<open>One contract, one minted token at ledger 7, and an RPC whose second page is empty.\<close>

definition demo_event :: contract_event where
  "demo_event = \<lparr>ev_id = ''e1'', ev_ledger = 7, ev_txHash = ''t1'', ev_contractId = Some ''C1'',
     ev_topic = [JStr ''mint'', JStr ''G1''], ev_value = JNum 1\<rparr>"

definition demo_page :: "string option \<Rightarrow> events_page" where
  "demo_page c = (if c = None then \<lparr>pg_events = [demo_event], pg_cursor = ''c1'', pg_latestLedger = 9\<rparr>
                  else \<lparr>pg_events = [], pg_cursor = [], pg_latestLedger = 9\<rparr>)"

definition demo_env :: "(event_dto \<Rightarrow> js_error option) \<Rightarrow> indexer_env" where
  "demo_env refuse = \<lparr>en_drv = Num, en_now = 0, en_refuse = refuse,
     en_fetch = (\<lambda>opts. Inr (demo_page (fo_cursor opts))), en_latest = Inr 9, en_stopped = (\<lambda>_. False)\<rparr>"

definition demo_contract :: indexer_contract where
  "demo_contract = \<lparr>ic_contractType = Nft, ic_contractId = ''C1'', ic_decoder = EVENT_DECODERS Nft\<rparr>"

definition demo_worker :: indexer_worker where
  "demo_worker = new_worker ''testnet'' 200 2 1 default_guard_config empty_indexer_db empty_store"

definition demo_queue :: "event_dto event_queue" where
  "demo_queue = \<lparr>eq_maxSize = 2, eq_items = [], eq_waiters = [], eq_woken = []\<rparr>"

lemma demo_worker_facts:
  "new_queue (iw_maxQueueSize demo_worker) = Inr demo_queue" "0 < iw_writeBatchSize demo_worker"
  "cursors_within (demo_env refuse) [''c1'', []]" "num_of (en_drv (demo_env refuse) i) = i"
  "eq_items demo_queue = []"
  by (simp_all add: demo_worker_def new_worker_def new_queue_def demo_queue_def cursors_within_def
      demo_env_def demo_page_def)

lemma demo_names:
  "ic_contractId demo_contract = ''C1''" "iw_network demo_worker = ''testnet''"
  "es_rows (iw_events demo_worker) = []"
  by (simp_all add: demo_contract_def demo_worker_def new_worker_def empty_store_def)

lemma demo_decoded:
  "List.map_filter (ic_decoder demo_contract) (pg_events (demo_page None)) =
     [the (EVENT_DECODERS Nft demo_event)]"
  by (simp add: demo_contract_def demo_page_def demo_event_def List.map_filter_simps decoder_defs
      eventSymbol_def topic_at_def)

subsection \<open>Properties\<close>

text \<open>
  Writing a page through the bounded queue is the same as writing each decoded event directly:
  with a positive batch size and a queue of any positive size, when the database takes every write,
  the store ends as after persisting the page's decoded events one by one, every one of them is
  stored, and the counts are those of the page.
\<close>

theorem buffered_write_is_direct:
  assumes "new_queue (iw_maxQueueSize w) = Inr q" and "0 < iw_writeBatchSize w"
    and "\<And>d. en_refuse env d = None"
  shows "\<exists>c q' w'. persistProgress env contract page prev q w = Some (c, q', w') \<and> isEmpty q' \<and>
     (let dtos = List.map_filter (ic_decoder contract) (pg_events page) in
        iw_events w' = fold (upsert_quiet (en_now env)) dtos (iw_events w) \<and>
        list_all (\<lambda>d. event_stored d (iw_events w')) dtos \<and>
        pc_processed c = length dtos \<and> pc_errors c = 0 \<and>
        pc_processed c + pc_skipped c = pc_fetched c)"
proof -
  let ?dtos = "List.map_filter (ic_decoder contract) (pg_events page)"
  have q: "eq_items q = []" "0 < eq_maxSize q" using new_queue_fresh [OF assms(1)] by simp_all
  have batch: "persist_batch env ?dtos (iw_events w)
      = (length ?dtos, 0, fold (upsert_quiet (en_now env)) ?dtos (iw_events w))"
    by (rule persist_batch_quiet) (simp add: assms(3))
  note len = length_map_filter [of "ic_decoder contract" "pg_events page"]
  from persistProgress_direct [OF assms(2) q(2), of env contract page prev] batch len
  show ?thesis
    by (auto simp: direct_progress_def q(1) isEmpty_def note_progress_def list_all_iff Let_def
        intro: ies.stored_run)
qed

theorem buffered_write_is_direct_witness:
  "\<exists>c q' w'. persistProgress (demo_env (\<lambda>_. None)) demo_contract (demo_page None) (Num 0) demo_queue
       demo_worker = Some (c, q', w') \<and> pc_processed c = 1 \<and> pc_errors c = 0 \<and>
     event_stored (the (EVENT_DECODERS Nft demo_event)) (iw_events w')"
proof -
  have "en_refuse (demo_env (\<lambda>_. None)) d = None" for d by (simp add: demo_env_def)
  from buffered_write_is_direct [OF demo_worker_facts(1,2) this, of demo_contract "demo_page None" "Num 0"]
  show ?thesis by (auto simp: demo_decoded Let_def)
qed

text \<open>
  C1: A poll cycle always returns when the write batch size is positive and the RPC's page cursors
  come from a finite set, whatever it fetches and whichever writes fail: no stored event is lost,
  no other contract's cursor is touched, and the contract's own cursor never moves backwards.
\<close>

theorem poll_returns_and_isolates:
  assumes "\<And>i. num_of (en_drv env i) = i" and "cursors_within env cs" and "0 < iw_writeBatchSize w"
  shows "\<exists>out w'. pollOnce env contract w = Some (out, w') \<and>
     (\<forall>d. event_stored d (iw_events w) \<longrightarrow> event_stored d (iw_events w')) \<and>
     (\<forall>i n. (i, n) \<noteq> (ic_contractId contract, iw_network w) \<longrightarrow>
        find_cursor i n (iw_db w') = find_cursor i n (iw_db w)) \<and>
     cursor_ledger (ic_contractId contract) (iw_network w) (iw_db w)
       \<le> cursor_ledger (ic_contractId contract) (iw_network w) (iw_db w')"
  using pollOnce_total [OF assms, of contract] by (auto simp: advances_def)

theorem poll_returns_and_isolates_witness:
  "\<exists>out w'. pollOnce (demo_env (\<lambda>_. Some OtherErr)) demo_contract demo_worker = Some (out, w') \<and>
     0 \<le> cursor_ledger ''C1'' ''testnet'' (iw_db w')"
proof -
  have "cursor_ledger ''C1'' ''testnet'' (iw_db demo_worker) = 0"
    by (simp add: demo_worker_def new_worker_def cursor_ledger_def find_cursor_def
        empty_indexer_db_def tbl_simps)
  moreover have "ic_contractId demo_contract = ''C1''" "iw_network demo_worker = ''testnet''"
    by (simp_all add: demo_contract_def demo_worker_def new_worker_def)
  ultimately show ?thesis
    using poll_returns_and_isolates [OF demo_worker_facts(4,3,2), of "\<lambda>_. Some OtherErr" demo_contract]
    by auto
qed

text \<open>
  The cursor moves past events that were not written: when the database refuses every write of a
  page, nothing is stored, yet the contract's cursor advances to the highest ledger of the page.
\<close>

theorem cursor_advances_past_failed_writes:
  assumes "new_queue (iw_maxQueueSize w) = Inr q" and "0 < iw_writeBatchSize w"
    and "\<And>d. en_refuse env d = Some OtherErr"
    and "num_of prev < num_of (page_highest page prev)"
  shows "\<exists>c q' w'. persistProgress env contract page prev q w = Some (c, q', w') \<and>
     iw_events w' = iw_events w \<and>
     cursor_ledger (ic_contractId contract) (iw_network w) (iw_db w') = num_of (page_highest page prev)"
proof -
  have q: "eq_items q = []" "0 < eq_maxSize q" using new_queue_fresh [OF assms(1)] by simp_all
  have one: "snd (upsertEvent now (\<lambda>s. s) (Some OtherErr) d s) = s" for now d s
    by (simp add: upsertEvent_def isDuplicateError_def split: option.split)
  have "snd (snd (persist_batch env ds s)) = s" for ds s
  proof (induction ds)
    case (Cons d ds)
    then show ?case
      using one [of "en_now env" d s] assms(3) by (auto split: sum.split prod.split)
  qed simp
  with assms(4) persistProgress_direct [OF assms(2) q(2), of env contract page prev]
  show ?thesis
    by (auto simp: direct_progress_def note_progress_def recordProgress_ledger split: prod.splits)
      (metis snd_conv)+
qed

theorem cursor_advances_past_failed_writes_witness:
  "\<exists>c q' w'. persistProgress (demo_env (\<lambda>_. Some OtherErr)) demo_contract (demo_page None) (Num 0)
       demo_queue demo_worker = Some (c, q', w') \<and>
     es_rows (iw_events w') = [] \<and> cursor_ledger ''C1'' ''testnet'' (iw_db w') = 7"
proof -
  have refuse: "en_refuse (demo_env (\<lambda>_. Some OtherErr)) d = Some OtherErr" for d
    by (simp add: demo_env_def)
  have high: "num_of (page_highest (demo_page None) (Num 0)) = 7"
    by (simp add: page_highest_def demo_page_def demo_event_def)
  have "num_of (Num 0) < num_of (page_highest (demo_page None) (Num 0))" by (simp add: high)
  from cursor_advances_past_failed_writes [OF demo_worker_facts(1,2) refuse this, of demo_contract]
  show ?thesis
    by (auto simp: high demo_names)
qed

text \<open>
  Whatever network the worker runs on, every row it writes for a registered contract is stored
  under the network \<open>stellar-testnet\<close>, since no decoder sets the network of its row.
\<close>

theorem indexed_under_default_network:
  assumes "contract \<in> set (buildIndexerContracts configured overrides)"
    and "new_queue (iw_maxQueueSize w) = Inr q" and "0 < iw_writeBatchSize w"
  shows "\<exists>c q' w' rows. persistProgress env contract page prev q w = Some (c, q', w') \<and>
     es_rows (iw_events w') = es_rows (iw_events w) @ rows \<and>
     list_all (\<lambda>r. ie_network r = ''stellar-testnet'') rows"
proof -
  have q: "eq_items q = []" "0 < eq_maxSize q" using new_queue_fresh [OF assms(2)] by simp_all
  let ?dtos = "List.map_filter (ic_decoder contract) (pg_events page)"
  obtain ct where ct: "ic_decoder contract = EVENT_DECODERS ct"
    using assms(1) by (auto simp: buildIndexerContracts_def)
  have net: "dto_net d = ''stellar-testnet''" if d: "d \<in> set ?dtos" for d
  proof -
    from d ct obtain ev where "EVENT_DECODERS ct ev = Some d"
      by (auto simp: List.map_filter_def)
    from decoder_fields [OF this] show ?thesis by (simp add: dto_net_def truthy_def)
  qed
  obtain p e s' where run: "persist_batch env ?dtos (iw_events w) = (p, e, s')"
    by (cases "persist_batch env ?dtos (iw_events w)")
  from persist_batch_rows [OF run] net obtain rows
    where "es_rows s' = es_rows (iw_events w) @ rows"
      and "list_all (\<lambda>r. ie_network r = ''stellar-testnet'') rows"
    by (auto simp: list_all_iff)
  with persistProgress_direct [OF assms(3) q(2), of env contract page prev] run q
  show ?thesis by (auto simp: direct_progress_def note_progress_def)
qed

theorem indexed_under_default_network_witness:
  "demo_contract \<in> set (buildIndexerContracts (\<lambda>_. ''C1'') (\<lambda>_. None)) \<and>
   (\<exists>c q' w' rows. persistProgress (demo_env (\<lambda>_. None)) demo_contract (demo_page None) (Num 0) demo_queue
       (demo_worker\<lparr>iw_network := ''mainnet''\<rparr>) = Some (c, q', w') \<and>
     es_rows (iw_events w') = rows \<and> list_all (\<lambda>r. ie_network r = ''stellar-testnet'') rows)"
proof -
  let ?w = "demo_worker\<lparr>iw_network := ''mainnet''\<rparr>"
  have reg: "demo_contract \<in> set (buildIndexerContracts (\<lambda>_. ''C1'') (\<lambda>_. None))"
    by (simp add: buildIndexerContracts_def demo_contract_def ALL_CONTRACT_TYPES_def)
  have "new_queue (iw_maxQueueSize ?w) = Inr demo_queue" "0 < iw_writeBatchSize ?w"
    using demo_worker_facts by simp_all
  moreover have "es_rows (iw_events ?w) = []"
    by (simp add: demo_worker_def new_worker_def empty_store_def)
  ultimately show ?thesis
    using indexed_under_default_network [OF reg, of ?w demo_queue "demo_env (\<lambda>_. None)" "demo_page None" "Num 0"] reg
    by auto
qed

text \<open>
  Flushing the queue returns exactly when the write batch size is positive or there is nothing
  to write: with a batch size of zero or less a buffered event makes the worker loop for ever.
\<close>

theorem flush_returns_iff:
  "flushQueue env batchSize q s 0 0 \<noteq> None \<longleftrightarrow> 0 < batchSize \<or> isEmpty q"
proof
  assume "flushQueue env batchSize q s 0 0 \<noteq> None"
  then show "0 < batchSize \<or> isEmpty q" using flushQueue_diverges [of batchSize env q s 0 0] by fastforce
next
  assume "0 < batchSize \<or> isEmpty q"
  then show "flushQueue env batchSize q s 0 0 \<noteq> None"
  proof
    assume "0 < batchSize"
    then show ?thesis
      using flushQueue_spec [of batchSize env q s _ _ _ 0 0]
      by (cases "persist_batch env (eq_items q) s") auto
  qed (simp add: flushQueue_empty)
qed

end
