(* ===== verification/Backfill.thy ===== *)
theory Backfill
  imports Indexer_Worker "HOL-Library.Sublist"
begin

text \<open>
  The historical backfill: \<open>fetchAllInRange\<close> of \<open>services/Soroban/SorobanEventReader.ts\<close> and
  \<open>services/Soroban/BackfillService.ts\<close>. The range loop is a \<open>partial_function (option)\<close>, because
  with a page size that is not positive it need not end; its callback is a function on the state of
  the run.
\<close>

subsection \<open>The range loop\<close>

definition range_opts :: "string list \<Rightarrow> int \<Rightarrow> int \<Rightarrow> int \<Rightarrow> fetch_options" where
  "range_opts ids frm end_l limit =
     \<lparr>fo_contractIds = ids, fo_cursor = None, fo_startLedger = Some frm,
      fo_endLedger = Some end_l, fo_limit = Some limit\<rparr>"

definition highest_from :: "events_page \<Rightarrow> int \<Rightarrow> int" where
  "highest_from page frm = fold (\<lambda>ev m. max m (ev_ledger ev)) (pg_events page) (frm - 1)"

definition next_from :: "events_page \<Rightarrow> int \<Rightarrow> int \<Rightarrow> int" where
  "next_from page frm limit =
     (if highest_from page frm \<ge> frm then highest_from page frm + 1 else frm + limit)"

partial_function (option) fetchAllInRange ::
  "(fetch_options \<Rightarrow> js_error + events_page) \<Rightarrow> string list \<Rightarrow> int \<Rightarrow> int \<Rightarrow>
   (events_page \<Rightarrow> int \<Rightarrow> 's \<Rightarrow> 's) \<Rightarrow> int \<Rightarrow> nat \<Rightarrow> events_page list \<Rightarrow> 's \<Rightarrow>
   ((js_error + events_page list) \<times> 's) option" where
  "fetchAllInRange fetch ids end_l limit onPage frm stalePages pages s =
     (if frm > end_l then Some (Inr pages, s)
      else case fetch (range_opts ids frm end_l limit) of
        Inl e \<Rightarrow> Some (Inl e, s)
      | Inr page \<Rightarrow>
          let nextFrom = next_from page frm limit;
              s1 = onPage page nextFrom s;
              stale = (if highest_from page frm < frm then Suc stalePages else 0)
          in if stale \<ge> 3 \<or> nextFrom > end_l then Some (Inr (pages @ [page]), s1)
             else fetchAllInRange fetch ids end_l limit onPage nextFrom stale (pages @ [page]) s1)"

subsection \<open>The service\<close>

record backfill_options =
  bo_contractId :: ident
  bo_contractType :: contract_type
  bo_network :: string
  bo_startLedger :: int
  bo_endLedger :: int
  bo_batchSize :: "int option"

text \<open>The local state of a run beside the two stores it writes.\<close>

record backfill_run =
  br_imported :: nat
  br_currentLedger :: int
  br_db :: indexer_db
  br_events :: event_store

record backfill_progress =
  bp_startLedger :: int
  bp_endLedger :: int
  bp_eventsImported :: nat
  bp_currentLedger :: int

definition processBatch ::
  "indexer_env \<Rightarrow> backfill_options \<Rightarrow> events_page \<Rightarrow> int \<Rightarrow> backfill_run \<Rightarrow> backfill_run" where
  "processBatch env opts page nextStart r =
     (let (batchImported, failed, events) =
            persist_batch env (List.map_filter (EVENT_DECODERS (bo_contractType opts)) (pg_events page))
              (br_events r);
          imported = br_imported r + batchImported;
          highestLedger = fold (\<lambda>ev m. max m (ev_ledger ev)) (pg_events page) (br_currentLedger r);
          current = max (br_currentLedger r) highestLedger;
          db1 = recordProgress (en_drv env) (bo_contractId opts) (bo_network opts)
                  (max current (nextStart - 1)) (int batchImported) None (br_db r);
          db2 = updateBackfillProgress (bo_contractId opts) (bo_network opts) (int imported) db1
      in \<lparr>br_imported = imported, br_currentLedger = current, br_db = db2, br_events = events\<rparr>)"

definition finalize :: "backfill_options \<Rightarrow> int \<Rightarrow> backfill_run \<Rightarrow> backfill_progress \<times> backfill_run" where
  "finalize opts resumeFrom r =
     (\<lparr>bp_startLedger = resumeFrom, bp_endLedger = bo_endLedger opts,
       bp_eventsImported = br_imported r, bp_currentLedger = br_currentLedger r\<rparr>,
      r\<lparr>br_db := completeBackfill (bo_contractId opts) (bo_network opts) (br_db r)\<rparr>)"

definition backfill_already_done :: "backfill_options \<Rightarrow> js_error" where
  "backfill_already_done opts =
     PlainErr (''Backfill already completed for '' @ bo_contractId opts @ '' on '' @ bo_network opts @
       ''. Delete the backfill_status record manually if a re-run is intentional.'') None"

definition resume_from :: "indexer_env \<Rightarrow> backfill_options \<Rightarrow> indexer_cursor \<Rightarrow> int" where
  "resume_from env opts cursor =
     max (bo_startLedger opts) (num_of (js_plus (cur_lastProcessedLedger cursor) 1))"

definition run ::
  "indexer_env \<Rightarrow> backfill_options \<Rightarrow> indexer_db \<Rightarrow> event_store \<Rightarrow>
   ((js_error + backfill_progress) \<times> backfill_run) option" where
  "run env opts db events =
     (let limit = (case bo_batchSize opts of Some b \<Rightarrow> b | None \<Rightarrow> 200) in
      if isBackfillCompleted (bo_contractId opts) (bo_network opts) db
      then Some (Inl (backfill_already_done opts),
                 \<lparr>br_imported = 0, br_currentLedger = 0, br_db = db, br_events = events\<rparr>)
      else let (cursor, db1) = getCursor (en_drv env) (bo_contractId opts) (bo_network opts) db;
               resumeFrom = resume_from env opts cursor;
               r0 = \<lparr>br_imported = 0, br_currentLedger = resumeFrom - 1, br_db = db1, br_events = events\<rparr>
           in Option.bind (fetchAllInRange (en_fetch env) [bo_contractId opts] (bo_endLedger opts) limit
                            (processBatch env opts) resumeFrom 0 [] r0)
                (\<lambda>(res, r1). case res of
                   Inl e \<Rightarrow> Some (Inl e, r1)
                 | Inr _ \<Rightarrow> (let (p, r2) = finalize opts resumeFrom r1 in Some (Inr p, r2))))"

record backfill_report =
  rep_backfill :: backfill_status
  rep_cursorLedger :: int

definition backfill_report ::
  "indexer_env \<Rightarrow> ident \<Rightarrow> string \<Rightarrow> indexer_db \<Rightarrow> backfill_report option \<times> indexer_db" where
  "backfill_report env contractId network db =
     (let (c, db1) = getCursor (en_drv env) contractId network db in
      case getBackfillStatus contractId network db of
        None \<Rightarrow> (None, db1)
      | Some b \<Rightarrow> (Some \<lparr>rep_backfill = b, rep_cursorLedger = num_of (cur_lastProcessedLedger c)\<rparr>, db1))"

subsection \<open>The loop ends and keeps what its callback keeps\<close>

lemma highest_from_ge: "frm - 1 \<le> highest_from page frm"
  by (simp add: highest_from_def fold_max_ge)

lemma next_from_gt: "0 < limit \<Longrightarrow> frm < next_from page frm limit"
  using highest_from_ge [of frm page] by (auto simp: next_from_def)

text \<open>
  The loop ends at a start \<open>frm'\<close> that either is past the range or follows a page, asked for at a start
  that was \<open>reached\<close>, that showed no new ledger.
\<close>

definition range_done ::
  "(fetch_options \<Rightarrow> js_error + events_page) \<Rightarrow> string list \<Rightarrow> int \<Rightarrow> int \<Rightarrow> (int \<Rightarrow> bool) \<Rightarrow> int \<Rightarrow> bool" where
  "range_done fetch ids end_l limit reached frm' \<longleftrightarrow>
     frm' > end_l \<or>
     (\<exists>frm page. reached frm \<and> frm \<le> end_l \<and> fetch (range_opts ids frm end_l limit) = Inr page \<and>
        highest_from page frm < frm \<and> frm' = next_from page frm limit)"

lemma fetchAllInRange_keeps:
  assumes "0 < limit"
    and keeps: "\<And>frm page s. I frm s \<Longrightarrow> frm \<le> end_l \<Longrightarrow>
      fetch (range_opts ids frm end_l limit) = Inr page \<Longrightarrow>
      I (next_from page frm limit) (onPage page (next_from page frm limit) s)"
  shows "I frm s \<Longrightarrow> \<exists>res s' frm'. fetchAllInRange fetch ids end_l limit onPage frm stale pages s = Some (res, s') \<and>
      I frm' s' \<and> (\<forall>ps. res = Inr ps \<longrightarrow> range_done fetch ids end_l limit (\<lambda>f. \<exists>s. I f s) frm')"
proof (induction "nat (end_l + 1 - frm)" arbitrary: frm stale pages s rule: less_induct)
  case less
  show ?case
  proof (cases "frm > end_l")
    case True
    then have "fetchAllInRange fetch ids end_l limit onPage frm stale pages s = Some (Inr pages, s)"
      by (subst fetchAllInRange.simps) simp
    moreover have "range_done fetch ids end_l limit (\<lambda>f. \<exists>s. I f s) frm" using True by (simp add: range_done_def)
    ultimately show ?thesis using less.prems by blast
  next
    case False
    show ?thesis
    proof (cases "fetch (range_opts ids frm end_l limit)")
      case (Inl e)
      then have "fetchAllInRange fetch ids end_l limit onPage frm stale pages s = Some (Inl e, s)"
        by (subst fetchAllInRange.simps) (simp add: False)
      with less.prems show ?thesis by blast
    next
      case (Inr page)
      let ?n = "next_from page frm limit" and ?st = "if highest_from page frm < frm then Suc stale else 0"
      let ?s = "onPage page ?n s"
      have I: "I ?n ?s" using keeps [OF less.prems _ Inr] False by simp
      have step: "fetchAllInRange fetch ids end_l limit onPage frm stale pages s =
          (if ?st \<ge> 3 \<or> ?n > end_l then Some (Inr (pages @ [page]), ?s)
           else fetchAllInRange fetch ids end_l limit onPage ?n ?st (pages @ [page]) ?s)"
        by (subst fetchAllInRange.simps) (simp add: False Inr Let_def del: if_split)
      show ?thesis
      proof (cases "?st \<ge> 3 \<or> ?n > end_l")
        case True
        then have "range_done fetch ids end_l limit (\<lambda>f. \<exists>s. I f s) ?n"
          using Inr less.prems False by (auto simp: range_done_def split: if_splits)
        moreover have "fetchAllInRange fetch ids end_l limit onPage frm stale pages s
            = Some (Inr (pages @ [page]), ?s)"
          using step True by (simp del: if_split)
        ultimately show ?thesis using I by blast
      next
        case again: False
        have "nat (end_l + 1 - ?n) < nat (end_l + 1 - frm)"
          using next_from_gt [OF assms(1), of frm page] False by simp
        from less.hyps [OF this I, of ?st "pages @ [page]"] step again show ?thesis by simp
      qed
    qed
  qed
qed

lemma no_record_batch:
  "find_backfill i n (br_db r) = None \<Longrightarrow> i = bo_contractId opts \<Longrightarrow> n = bo_network opts \<Longrightarrow>
   find_backfill i n (br_db (processBatch env opts page k r)) = None"
proof -
  have same: "find_backfill i n (recordProgress drv i' n' l c e db) = find_backfill i n db"
    for drv i n i' n' l c e db by (simp add: find_backfill_def)
  assume "find_backfill i n (br_db r) = None" "i = bo_contractId opts" "n = bo_network opts"
  then show ?thesis
    by (simp add: processBatch_def updateBackfillProgress_def same Let_def split: prod.split)
qed

subsection \<open>Properties\<close>

text \<open>
  A backfill with a positive batch size always returns, and when no backfill record exists
  beforehand, it leaves none behind, so the completion marker that is meant to refuse a second run
  is never set by a run.
\<close>

theorem backfill_returns_without_marker:
  assumes "(case bo_batchSize opts of Some b \<Rightarrow> 0 < b | None \<Rightarrow> True)"
    and "find_backfill (bo_contractId opts) (bo_network opts) db = None"
  shows "\<exists>res r. run env opts db events = Some (res, r) \<and>
     \<not> isBackfillCompleted (bo_contractId opts) (bo_network opts) (br_db r)"
proof -
  let ?i = "bo_contractId opts" and ?n = "bo_network opts"
  obtain c db1 where g: "getCursor (en_drv env) ?i ?n db = (c, db1)" by fastforce
  let ?r0 = "\<lparr>br_imported = 0, br_currentLedger = resume_from env opts c - 1, br_db = db1, br_events = events\<rparr>"
  have none: "find_backfill ?i ?n db1 = None"
    using assms(2) backfills_of_getCursor [of "en_drv env" ?i ?n db] g by (simp add: find_backfill_def)
  have pos: "0 < (case bo_batchSize opts of Some b \<Rightarrow> b | None \<Rightarrow> 200)"
    using assms(1) by (auto split: option.splits)
  from fetchAllInRange_keeps [where I = "\<lambda>_ r. find_backfill ?i ?n (br_db r) = None" and s = ?r0
      and onPage = "processBatch env opts" and fetch = "en_fetch env" and frm = "resume_from env opts c"
      and stale = 0 and pages = "[]" and ids = "[?i]" and end_l = "bo_endLedger opts", OF pos]
  obtain res r1 where loop: "fetchAllInRange (en_fetch env) [?i] (bo_endLedger opts)
      (case bo_batchSize opts of Some b \<Rightarrow> b | None \<Rightarrow> 200) (processBatch env opts)
      (resume_from env opts c) 0 [] ?r0 = Some (res, r1)"
    and r1: "find_backfill ?i ?n (br_db r1) = None"
    using none no_record_batch [of ?i ?n _ opts env] by auto
  have "completeBackfill ?i ?n (br_db r1) = br_db r1"
    using r1 by (simp add: completeBackfill_def)
  with assms(2) g loop r1 show ?thesis
    by (cases res) (auto simp: run_def isBackfillCompleted_def finalize_def Let_def)
qed

definition demo_options :: "int \<Rightarrow> int \<Rightarrow> backfill_options" where
  "demo_options end_l batch = \<lparr>bo_contractId = ''C1'', bo_contractType = Nft, bo_network = ''testnet'',
     bo_startLedger = 1, bo_endLedger = end_l, bo_batchSize = Some batch\<rparr>"

theorem backfill_returns_without_marker_witness:
  "\<exists>res r. run (demo_env (\<lambda>_. None)) (demo_options 50 200) empty_indexer_db empty_store = Some (res, r) \<and>
     \<not> isBackfillCompleted ''C1'' ''testnet'' (br_db r)"
  using backfill_returns_without_marker [of "demo_options 50 200" empty_indexer_db "demo_env (\<lambda>_. None)" empty_store]
  by (simp add: demo_options_def find_backfill_def empty_indexer_db_def tbl_simps)

text \<open>
  A backfill whose range shows no event within its first batch leaves the cursor beyond the end
  of the range, at \<open>resumeFrom + batchSize - 1\<close>: when the end is the tip of the chain the live
  poller then takes the tip for a reorg until the chain has passed that ledger.
\<close>

theorem backfill_overshoots_range:
  assumes "find_cursor (bo_contractId opts) (bo_network opts) db = None"
    and "find_backfill (bo_contractId opts) (bo_network opts) db = None"
    and "bo_batchSize opts = Some batch" and "1 \<le> bo_startLedger opts"
    and "bo_startLedger opts \<le> bo_endLedger opts" and "bo_endLedger opts < bo_startLedger opts + batch - 1"
    and "\<And>o'. en_fetch env o' = Inr \<lparr>pg_events = [], pg_cursor = [], pg_latestLedger = tip\<rparr>"
  shows "\<exists>p r. run env opts db events = Some (Inr p, r) \<and> br_events r = events \<and>
     bo_endLedger opts < cursor_ledger (bo_contractId opts) (bo_network opts) (br_db r) \<and>
     cursor_ledger (bo_contractId opts) (bo_network opts) (br_db r) = bo_startLedger opts + batch - 1"
proof -
  let ?i = "bo_contractId opts" and ?n = "bo_network opts" and ?s = "bo_startLedger opts"
  let ?c = "fresh_cursor ?i ?n"
  have g: "getCursor (en_drv env) ?i ?n db = (?c, save_cursor ?c db)"
    by (simp add: getCursor_def assms(1) Let_def)
  have start: "resume_from env opts ?c = ?s"
    using assms(4) by (simp add: resume_from_def fresh_cursor_def)
  have none: "find_backfill ?i ?n (save_cursor ?c db) = None"
    using assms(2) by (simp add: find_backfill_def)
  have empty: "highest_from \<lparr>pg_events = [], pg_cursor = [], pg_latestLedger = tip\<rparr> ?s = ?s - 1"
    by (simp add: highest_from_def)
  let ?r0 = "\<lparr>br_imported = 0, br_currentLedger = ?s - 1, br_db = save_cursor ?c db, br_events = events\<rparr>"
  let ?p = "\<lparr>pg_events = [], pg_cursor = [], pg_latestLedger = tip\<rparr>"
  let ?r1 = "processBatch env opts ?p (?s + batch) ?r0"
  have loop: "fetchAllInRange (en_fetch env) [?i] (bo_endLedger opts) batch (processBatch env opts)
      ?s 0 [] ?r0 = Some (Inr [?p], ?r1)"
    by (subst fetchAllInRange.simps) (use assms(5-7) in \<open>simp add: next_from_def empty Let_def\<close>)
  have same: "find_backfill i n (recordProgress drv i' n' l c e d) = find_backfill i n d"
    for i n drv i' n' l c e d by (simp add: find_backfill_def)
  have batch: "1 \<le> batch" using assms(5,6) by simp
  then have r1: "?r1 = \<lparr>br_imported = 0, br_currentLedger = ?s - 1,
      br_db = recordProgress (en_drv env) ?i ?n (?s + batch - 1) 0 None (save_cursor ?c db), br_events = events\<rparr>"
    by (simp add: processBatch_def updateBackfillProgress_def same none max_def)
  have complete: "completeBackfill ?i ?n (br_db ?r1) = br_db ?r1"
    by (simp add: r1 completeBackfill_def same none)
  have "run env opts db events = Some (Inr \<lparr>bp_startLedger = ?s, bp_endLedger = bo_endLedger opts,
      bp_eventsImported = 0, bp_currentLedger = ?s - 1\<rparr>, ?r1)"
    using loop complete by (simp add: run_def isBackfillCompleted_def assms(2,3) g start finalize_def r1 Let_def)
  with assms(6) show ?thesis by (simp add: r1 recordProgress_ledger)
qed

definition empty_rpc :: indexer_env where
  "empty_rpc = \<lparr>en_drv = Num, en_now = 0, en_refuse = (\<lambda>_. None),
     en_fetch = (\<lambda>_. Inr \<lparr>pg_events = [], pg_cursor = [], pg_latestLedger = 50\<rparr>),
     en_latest = Inr 50, en_stopped = (\<lambda>_. False)\<rparr>"

theorem backfill_overshoots_range_witness:
  "\<exists>p r. run empty_rpc (demo_options 50 200) empty_indexer_db empty_store = Some (Inr p, r) \<and>
     cursor_ledger ''C1'' ''testnet'' (br_db r) = 200"
  using backfill_overshoots_range [of "demo_options 50 200" empty_indexer_db 200 empty_rpc 50 empty_store]
  by (auto simp: demo_options_def empty_rpc_def find_backfill_def find_cursor_def empty_indexer_db_def tbl_simps)








lemma processBatch_events:
  assumes "\<And>d. en_refuse env d = None"
  shows "br_events (processBatch env opts page k r) =
    fold (upsert_quiet (en_now env))
      (List.map_filter (EVENT_DECODERS (bo_contractType opts)) (pg_events page)) (br_events r)"
  using assms by (simp add: processBatch_def persist_batch_quiet Let_def)










definition crowded_rpc :: "contract_event list \<Rightarrow> indexer_env" where
  "crowded_rpc chain = \<lparr>en_drv = Num, en_now = 0, en_refuse = (\<lambda>_. None),
     en_fetch = (\<lambda>o'. Inr \<lparr>pg_events = take (nat (case fo_limit o' of Some l \<Rightarrow> l | None \<Rightarrow> 200))
         (filter (\<lambda>ev. case (fo_startLedger o', fo_endLedger o') of
           (Some s, Some e) \<Rightarrow> s \<le> ev_ledger ev \<and> ev_ledger ev \<le> e | _ \<Rightarrow> False) chain),
         pg_cursor = [], pg_latestLedger = 9\<rparr>),
     en_latest = Inr 9, en_stopped = (\<lambda>_. False)\<rparr>"

text \<open>
  A page that the limit cuts inside a ledger loses the rest of that ledger: with two events of
  ledger 5 and a page size of one, the run ends without ever asking for the second event again,
  having moved its cursor past ledger 5.
\<close>

theorem backfill_loses_rest_of_ledger:
  "let e1 = demo_event; e2 = demo_event\<lparr>ev_id := ''e2''\<rparr> in
   \<exists>p r. run (crowded_rpc [e1, e2]) (demo_options 7 1) empty_indexer_db empty_store = Some (Inr p, r) \<and>
     cursor_ledger ''C1'' ''testnet'' (br_db r) = 7 \<and>
     map ie_eventId (es_rows (br_events r)) = [Some ''e1'']"
proof -
  have "EVENT_DECODERS Nft demo_event \<noteq> None"
    by (simp add: demo_event_def decoder_defs eventSymbol_def topic_at_def)
  then obtain d where dec: "EVENT_DECODERS Nft demo_event = Some d" by blast
  let ?env = "crowded_rpc [demo_event, demo_event\<lparr>ev_id := ''e2''\<rparr>]" and ?o = "demo_options 7 1"
  let ?page = "\<lparr>pg_events = [demo_event], pg_cursor = [], pg_latestLedger = 9\<rparr>"
  let ?c = "fresh_cursor ''C1'' ''testnet''"
  let ?r0 = "\<lparr>br_imported = 0, br_currentLedger = 0, br_db = save_cursor ?c empty_indexer_db,
      br_events = empty_store\<rparr>"
  have page: "en_fetch ?env (range_opts [''C1''] 1 7 1) = Inr ?page"
    by (simp add: crowded_rpc_def range_opts_def demo_event_def)
  have nxt: "next_from ?page 1 1 = 8"
    by (simp add: next_from_def highest_from_def demo_event_def)
  let ?r1 = "processBatch ?env ?o ?page 8 ?r0"
  have loop: "fetchAllInRange (en_fetch ?env) [''C1''] 7 1 (processBatch ?env ?o) 1 0 [] ?r0
      = Some (Inr [?page], ?r1)"
    by (subst fetchAllInRange.simps) (simp add: page nxt Let_def)
  have fields: "bo_contractId ?o = ''C1''" "bo_network ?o = ''testnet''" "bo_endLedger ?o = 7"
    "bo_batchSize ?o = Some 1" "bo_startLedger ?o = 1"
    by (simp_all add: demo_options_def)
  have refuse: "en_refuse ?env d = None" for d by (simp add: crowded_rpc_def)
  have nowct: "en_now ?env = 0" "bo_contractType ?o = Nft"
    by (simp_all add: crowded_rpc_def demo_options_def)
  have new_cursor: "getCursor (en_drv ?env) ''C1'' ''testnet'' empty_indexer_db
      = (?c, save_cursor ?c empty_indexer_db)"
    by (simp add: getCursor_def find_cursor_def empty_indexer_db_def tbl_simps Let_def)
  have not_done: "\<not> isBackfillCompleted ''C1'' ''testnet'' empty_indexer_db"
    by (simp add: isBackfillCompleted_def find_backfill_def empty_indexer_db_def tbl_simps)
  have resume: "resume_from ?env ?o ?c = 1"
    by (simp add: resume_from_def fields fresh_cursor_def)
  have "\<exists>p. run ?env ?o empty_indexer_db empty_store = Some (Inr p,
      ?r1\<lparr>br_db := completeBackfill ''C1'' ''testnet'' (br_db ?r1)\<rparr>)"
    by (simp add: run_def fields new_cursor not_done resume loop finalize_def Let_def)
  moreover have "es_rows (br_events ?r1) = [event_row 0 1 d]"
  proof -
    have "br_events ?r1 = upsert_quiet 0 d empty_store"
      using processBatch_events [of ?env, OF refuse, of ?o ?page 8 ?r0] dec
      by (simp add: nowct dec List.map_filter_simps)
    then show ?thesis
      by (simp add: upsert_quiet_cases event_stored_def empty_store_def tbl_simps)
  qed
  moreover have "ie_eventId (event_row 0 1 d) = Some ''e1''"
    using decoder_fields [OF dec] by (simp add: event_row_def dto_key_def demo_event_def truthy_def)
  moreover have "cursor_ledger ''C1'' ''testnet'' (completeBackfill ''C1'' ''testnet'' (br_db ?r1)) = 7"
    by (simp add: processBatch_def demo_options_def completeBackfill_def updateBackfillProgress_def
        find_backfill_def empty_indexer_db_def tbl_simps recordProgress_ledger demo_event_def Let_def
        split: prod.split)
  ultimately show ?thesis by (auto simp: Let_def)
qed

end
