(* ===== verification/Event_Projector.thy ===== *)
theory Event_Projector
  imports Indexed_Events "HOL-Library.Multiset"
begin

text \<open>
  Read models built from the raw events: \<open>services/EventProjector.ts\<close>, the interface of
  \<open>services/projections/EventProjection.ts\<close> as the locale \<open>event_projection\<close>, and its implementation
  \<open>OnChainEventCountProjection.ts\<close>. A transaction of the projector is one function on the read
  model and its checkpoint. The loops over batches are \<open>partial_function (option)\<close>: a batch size of
  zero never ends.
\<close>

subsection \<open>The projector\<close>

record checkpoint =
  ck_lastIngestSeq :: int
  ck_eventsApplied :: int
  ck_lastRebuiltAt :: "timestamp option"

record 'm projection_db =
  pd_model :: 'm
  pd_checkpoint :: "checkpoint option"

record run_result =
  pr_projection :: string
  pr_eventsApplied :: nat
  pr_lastIngestSeq :: int
  pr_rebuilt :: bool

definition fresh_checkpoint :: checkpoint where
  "fresh_checkpoint = \<lparr>ck_lastIngestSeq = 0, ck_eventsApplied = 0, ck_lastRebuiltAt = None\<rparr>"

definition loadCheckpoint :: "'m projection_db \<Rightarrow> checkpoint" where
  "loadCheckpoint db = (case pd_checkpoint db of Some ck \<Rightarrow> ck | None \<Rightarrow> fresh_checkpoint)"

text \<open>Rows after the checkpoint that have settled, in ingestion order.\<close>

definition pending :: "timestamp \<Rightarrow> indexed_event list \<Rightarrow> int \<Rightarrow> indexed_event list" where
  "pending cutoff rows lastSeq =
     sort_key ie_ingestSeq (filter (\<lambda>r. lastSeq < ie_ingestSeq r \<and> ie_indexedAt r \<le> cutoff) rows)"

definition applyNextBatch ::
  "(indexed_event list \<Rightarrow> 'm \<Rightarrow> 'm) \<Rightarrow> timestamp \<Rightarrow> nat \<Rightarrow> indexed_event list \<Rightarrow> checkpoint \<Rightarrow>
   'm projection_db \<Rightarrow> nat \<times> checkpoint \<times> 'm projection_db" where
  "applyNextBatch apply_events cutoff batchSize rows ck db =
     (let events = take batchSize (pending cutoff rows (ck_lastIngestSeq ck)) in
      if events = [] then (0, ck, db)
      else let ck1 = ck\<lparr>ck_lastIngestSeq := ie_ingestSeq (last events),
                        ck_eventsApplied := ck_eventsApplied ck + int (length events)\<rparr>
           in (length events, ck1,
               \<lparr>pd_model = apply_events events (pd_model db), pd_checkpoint = Some ck1\<rparr>))"

text \<open>\<open>catchUpOne\<close>: one transaction per batch, each reloading the checkpoint.\<close>

partial_function (option) catch_up_loop ::
  "(indexed_event list \<Rightarrow> 'm \<Rightarrow> 'm) \<Rightarrow> timestamp \<Rightarrow> nat \<Rightarrow> indexed_event list \<Rightarrow> nat \<Rightarrow>
   'm projection_db \<Rightarrow> (nat \<times> int \<times> 'm projection_db) option" where
  "catch_up_loop apply_events cutoff batchSize rows soFar db =
     (let (applied, ck, db1) = applyNextBatch apply_events cutoff batchSize rows (loadCheckpoint db) db in
      if applied < batchSize then Some (soFar + applied, ck_lastIngestSeq ck, db1)
      else catch_up_loop apply_events cutoff batchSize rows (soFar + applied) db1)"

definition catchUpOne ::
  "string \<Rightarrow> (indexed_event list \<Rightarrow> 'm \<Rightarrow> 'm) \<Rightarrow> timestamp \<Rightarrow> nat \<Rightarrow> indexed_event list \<Rightarrow>
   'm projection_db \<Rightarrow> (run_result \<times> 'm projection_db) option" where
  "catchUpOne pname apply_events cutoff batchSize rows db =
     map_option (\<lambda>(n, lastSeq, db1).
         (\<lparr>pr_projection = pname, pr_eventsApplied = n, pr_lastIngestSeq = lastSeq, pr_rebuilt = False\<rparr>, db1))
       (catch_up_loop apply_events cutoff batchSize rows 0 db)"

text \<open>\<open>rebuildOne\<close>: reset and replay in one transaction, the checkpoint held in memory.\<close>

partial_function (option) rebuild_loop ::
  "(indexed_event list \<Rightarrow> 'm \<Rightarrow> 'm) \<Rightarrow> timestamp \<Rightarrow> nat \<Rightarrow> indexed_event list \<Rightarrow> nat \<Rightarrow>
   checkpoint \<Rightarrow> 'm projection_db \<Rightarrow> (nat \<times> checkpoint \<times> 'm projection_db) option" where
  "rebuild_loop apply_events cutoff batchSize rows soFar ck db =
     (let (applied, ck1, db1) = applyNextBatch apply_events cutoff batchSize rows ck db in
      if applied < batchSize then Some (soFar + applied, ck1, db1)
      else rebuild_loop apply_events cutoff batchSize rows (soFar + applied) ck1 db1)"

definition rebuildOne ::
  "string \<Rightarrow> ('m \<Rightarrow> 'm) \<Rightarrow> (indexed_event list \<Rightarrow> 'm \<Rightarrow> 'm) \<Rightarrow> timestamp \<Rightarrow> timestamp \<Rightarrow> nat \<Rightarrow>
   indexed_event list \<Rightarrow> 'm projection_db \<Rightarrow> (run_result \<times> 'm projection_db) option" where
  "rebuildOne pname reset_model apply_events now cutoff batchSize rows db =
     (let ck = (loadCheckpoint db)\<lparr>ck_lastIngestSeq := 0, ck_eventsApplied := 0,
                                    ck_lastRebuiltAt := Some now\<rparr>;
          db1 = db\<lparr>pd_model := reset_model (pd_model db)\<rparr>
      in map_option (\<lambda>(n, ck1, db2).
           (\<lparr>pr_projection = pname, pr_eventsApplied = n, pr_lastIngestSeq = ck_lastIngestSeq ck1,
             pr_rebuilt = True\<rparr>, db2\<lparr>pd_checkpoint := Some ck1\<rparr>))
         (rebuild_loop apply_events cutoff batchSize rows 0 ck db1))"

text \<open>\<open>select\<close>: every projection, or those with the given name.\<close>

definition select_projections :: "string list \<Rightarrow> string option \<Rightarrow> js_error + string list" where
  "select_projections names pname =
     (if \<not> truthy pname then Inr names
      else if filter (\<lambda>n. Some n = pname) names = []
      then Inl (PlainErr (''Unknown projection \"'' @ the pname @ ''\". Known: '' @ join_with '', '' names) None)
      else Inr (filter (\<lambda>n. Some n = pname) names))"

subsection \<open>The projection interface\<close>

text \<open>
  What \<open>EventProjection\<close> asks of an implementation: the read model is a function of the event
  stream, so a reset forgets everything and applying a stream in two batches is applying it at once.
\<close>

locale event_projection =
  fixes reset_model :: "'m \<Rightarrow> 'm"
    and apply_events :: "indexed_event list \<Rightarrow> 'm \<Rightarrow> 'm"
  assumes reset_forgets: "reset_model m = reset_model m'"
    and apply_append: "apply_events (xs @ ys) m = apply_events ys (apply_events xs m)"
    and apply_nothing: "apply_events [] m = m"

text \<open>Sequence numbers are distinct, so the batches cut the pending rows in pieces.\<close>

lemma pending_props:
  assumes "distinct (map ie_ingestSeq rows)"
  shows "sorted_wrt (<) (map ie_ingestSeq (pending cutoff rows l))"
    and "set (pending cutoff rows l) = {r \<in> set rows. l < ie_ingestSeq r \<and> ie_indexedAt r \<le> cutoff}"
proof -
  have "distinct (map ie_ingestSeq (filter p rows))" for p
    using assms by (simp add: distinct_map_filter)
  then have "distinct (map ie_ingestSeq (pending cutoff rows l))"
    by (simp add: pending_def distinct_map)
  then show "sorted_wrt (<) (map ie_ingestSeq (pending cutoff rows l))"
    by (simp add: pending_def strict_sorted_iff)
qed (auto simp: pending_def)

lemma pending_after:
  assumes "distinct (map ie_ingestSeq rows)" and "pending cutoff rows l = xs @ ys" and "xs \<noteq> []"
  shows "pending cutoff rows (ie_ingestSeq (last xs)) = ys"
proof -
  let ?k = ie_ingestSeq
  note all = pending_props [OF assms(1), of cutoff l]
  note new = pending_props [OF assms(1), of cutoff "?k (last xs)"]
  have srt: "sorted_wrt (<) (map ?k (xs @ ys))" using all(1) assms(2) by simp
  have split: "\<forall>x\<in>set xs. ?k x \<le> ?k (last xs)" "\<forall>y\<in>set ys. ?k (last xs) < ?k y"
  proof -
    obtain zs where xs: "xs = zs @ [last xs]" using assms(3) by (metis append_butlast_last_id)
    from srt show "\<forall>y\<in>set ys. ?k (last xs) < ?k y"
      by (subst (asm) xs) (auto simp: sorted_wrt_append)
    from srt show "\<forall>x\<in>set xs. ?k x \<le> ?k (last xs)"
      by (subst (asm) xs, subst xs) (auto simp: sorted_wrt_append less_imp_le)
  qed
  have mem: "set xs \<union> set ys = {r \<in> set rows. l < ?k r \<and> ie_indexedAt r \<le> cutoff}"
    using all(2) assms(2) by auto
  have low: "l < ?k (last xs)" using mem assms(3) by (metis (mono_tags, lifting) UnI1 last_in_set mem_Collect_eq)
  have sets: "set (pending cutoff rows (?k (last xs))) = set ys"
  proof (rule set_eqI)
    fix r
    show "r \<in> set (pending cutoff rows (?k (last xs))) \<longleftrightarrow> r \<in> set ys"
    proof -
      have m: "r \<in> set xs \<or> r \<in> set ys \<longleftrightarrow> r \<in> set rows \<and> l < ?k r \<and> ie_indexedAt r \<le> cutoff"
        using mem by blast
      show ?thesis
        using m split low unfolding new(2) by (smt (verit) mem_Collect_eq)
    qed
  qed
  have inj: "inj_on ?k (set (pending cutoff rows (?k (last xs))))"
    using assms(1) unfolding new(2) by (auto simp: distinct_map inj_on_def)
  from srt have "sorted_wrt (<) (map ?k ys)" by (simp add: sorted_wrt_append)
  from sorted_wrt_set_unique [OF new(1) this sets inj] show ?thesis .
qed

text \<open>
  Inside the interface: however the pending rows are cut into batches, both loops end with the whole
  of them applied once, in order.
\<close>

context event_projection begin

lemma batch_step:
  assumes "0 < batchSize" and "distinct (map ie_ingestSeq rows)"
    and "applyNextBatch apply_events cutoff batchSize rows ck db = (n, ck', db')"
  shows "n \<le> length (pending cutoff rows (ck_lastIngestSeq ck)) \<and>
     pd_model db' = apply_events (take n (pending cutoff rows (ck_lastIngestSeq ck))) (pd_model db) \<and>
     pending cutoff rows (ck_lastIngestSeq ck') = drop n (pending cutoff rows (ck_lastIngestSeq ck)) \<and>
     (n < batchSize \<longrightarrow> pending cutoff rows (ck_lastIngestSeq ck') = []) \<and>
     ck_eventsApplied ck' = ck_eventsApplied ck + int n \<and> ck_lastRebuiltAt ck' = ck_lastRebuiltAt ck \<and>
     pd_checkpoint db' = (if n = 0 then pd_checkpoint db else Some ck') \<and> (n = 0 \<longrightarrow> ck' = ck)"
proof -
  let ?p = "pending cutoff rows (ck_lastIngestSeq ck)"
  show ?thesis
  proof (cases "?p = []")
    case True
    with assms(3) show ?thesis by (auto simp: applyNextBatch_def apply_nothing)
  next
    case False
    let ?xs = "take batchSize ?p"
    have ne: "?xs \<noteq> []" using False assms(1) by simp
    have n: "n = length ?xs" "ck' = ck\<lparr>ck_lastIngestSeq := ie_ingestSeq (last ?xs),
         ck_eventsApplied := ck_eventsApplied ck + int (length ?xs)\<rparr>"
      "db' = \<lparr>pd_model = apply_events ?xs (pd_model db), pd_checkpoint = Some ck'\<rparr>"
      using assms(3) ne by (auto simp: applyNextBatch_def Let_def)
    have "pending cutoff rows (ie_ingestSeq (last ?xs)) = drop batchSize ?p"
      using pending_after [OF assms(2), of cutoff "ck_lastIngestSeq ck" ?xs "drop batchSize ?p"] ne by simp
    with n ne show ?thesis by (auto simp: min_def)
  qed
qed

lemma catch_up_loop_spec:
  assumes "0 < batchSize" and "distinct (map ie_ingestSeq rows)"
  shows "\<exists>lastSeq db'. catch_up_loop apply_events cutoff batchSize rows soFar db =
       Some (soFar + length (pending cutoff rows (ck_lastIngestSeq (loadCheckpoint db))), lastSeq, db') \<and>
     pd_model db' = apply_events (pending cutoff rows (ck_lastIngestSeq (loadCheckpoint db))) (pd_model db) \<and>
     pending cutoff rows (ck_lastIngestSeq (loadCheckpoint db')) = [] \<and>
     ck_eventsApplied (loadCheckpoint db') = ck_eventsApplied (loadCheckpoint db) +
       int (length (pending cutoff rows (ck_lastIngestSeq (loadCheckpoint db))))"
proof (induction "length (pending cutoff rows (ck_lastIngestSeq (loadCheckpoint db)))" arbitrary: soFar db
    rule: less_induct)
  case less
  let ?p = "pending cutoff rows (ck_lastIngestSeq (loadCheckpoint db))"
  obtain n ck1 db1 where step: "applyNextBatch apply_events cutoff batchSize rows (loadCheckpoint db) db
      = (n, ck1, db1)"
    by (cases "applyNextBatch apply_events cutoff batchSize rows (loadCheckpoint db) db")
  note s = batch_step [OF assms step]
  have ck1: "loadCheckpoint db1 = ck1"
    using s by (cases "n = 0") (auto simp: loadCheckpoint_def)
  show ?case
  proof (cases "n < batchSize")
    case True
    with s have "drop n ?p = []" by metis
    with s have "n = length ?p" by simp
    with True s step ck1 show ?thesis
      by (subst catch_up_loop.simps) simp
  next
    case False
    then have "0 < n" using assms(1) by simp
    with s have "length (pending cutoff rows (ck_lastIngestSeq (loadCheckpoint db1))) < length ?p"
      unfolding ck1 by auto
    from less [OF this, of "soFar + n"] s ck1 obtain lastSeq db' where
      *: "catch_up_loop apply_events cutoff batchSize rows (soFar + n) db1 =
          Some (soFar + n + length (drop n ?p), lastSeq, db')"
      "pd_model db' = apply_events (drop n ?p) (apply_events (take n ?p) (pd_model db))"
      "pending cutoff rows (ck_lastIngestSeq (loadCheckpoint db')) = []"
      "ck_eventsApplied (loadCheckpoint db') = ck_eventsApplied ck1 + int (length (drop n ?p))"
      by auto
    have "catch_up_loop apply_events cutoff batchSize rows soFar db
        = catch_up_loop apply_events cutoff batchSize rows (soFar + n) db1"
      by (subst catch_up_loop.simps) (simp add: step False)
    with * s show ?thesis
      by (simp add: apply_append [symmetric] del: length_drop)
        (simp add: of_nat_diff)
  qed
qed

lemma rebuild_loop_spec:
  assumes "0 < batchSize" and "distinct (map ie_ingestSeq rows)"
  shows "\<exists>ck' db'. rebuild_loop apply_events cutoff batchSize rows soFar ck db =
       Some (soFar + length (pending cutoff rows (ck_lastIngestSeq ck)), ck', db') \<and>
     pd_model db' = apply_events (pending cutoff rows (ck_lastIngestSeq ck)) (pd_model db) \<and>
     pending cutoff rows (ck_lastIngestSeq ck') = [] \<and>
     ck_eventsApplied ck' = ck_eventsApplied ck + int (length (pending cutoff rows (ck_lastIngestSeq ck))) \<and>
     ck_lastRebuiltAt ck' = ck_lastRebuiltAt ck"
proof (induction "length (pending cutoff rows (ck_lastIngestSeq ck))" arbitrary: soFar ck db
    rule: less_induct)
  case less
  let ?p = "pending cutoff rows (ck_lastIngestSeq ck)"
  obtain n ck1 db1 where step: "applyNextBatch apply_events cutoff batchSize rows ck db = (n, ck1, db1)"
    by (cases "applyNextBatch apply_events cutoff batchSize rows ck db")
  note s = batch_step [OF assms step]
  show ?case
  proof (cases "n < batchSize")
    case True
    with s have "drop n ?p = []" by metis
    with s have "n = length ?p" by simp
    with True s step show ?thesis
      by (subst rebuild_loop.simps) simp
  next
    case False
    then have "0 < n" using assms(1) by simp
    with s have "length (pending cutoff rows (ck_lastIngestSeq ck1)) < length ?p" by auto
    from less [OF this, of "soFar + n" db1] s obtain ck' db' where
      *: "rebuild_loop apply_events cutoff batchSize rows (soFar + n) ck1 db1 =
          Some (soFar + n + length (drop n ?p), ck', db')"
      "pd_model db' = apply_events (drop n ?p) (apply_events (take n ?p) (pd_model db))"
      "pending cutoff rows (ck_lastIngestSeq ck') = []"
      "ck_eventsApplied ck' = ck_eventsApplied ck1 + int (length (drop n ?p))"
      "ck_lastRebuiltAt ck' = ck_lastRebuiltAt ck1"
      by auto
    have "rebuild_loop apply_events cutoff batchSize rows soFar ck db
        = rebuild_loop apply_events cutoff batchSize rows (soFar + n) ck1 db1"
      by (subst rebuild_loop.simps) (simp add: step False)
    with * s show ?thesis
      by (simp add: apply_append [symmetric] del: length_drop)
        (simp add: of_nat_diff)
  qed
qed

text \<open>A rebuilt model is the whole settled stream applied to a reset model.\<close>

lemma rebuildOne_spec:
  assumes "0 < batchSize" and "distinct (map ie_ingestSeq rows)"
  shows "\<exists>res db'. rebuildOne pname reset_model apply_events now cutoff batchSize rows db = Some (res, db') \<and>
     pd_model db' = apply_events (pending cutoff rows 0) (reset_model (pd_model db)) \<and>
     pr_eventsApplied res = length (pending cutoff rows 0) \<and> pr_rebuilt res \<and>
     ck_eventsApplied (loadCheckpoint db') = int (length (pending cutoff rows 0)) \<and>
     pending cutoff rows (ck_lastIngestSeq (loadCheckpoint db')) = [] \<and>
     ck_lastRebuiltAt (loadCheckpoint db') = Some now"
proof -
  let ?ck = "(loadCheckpoint db)\<lparr>ck_lastIngestSeq := 0, ck_eventsApplied := 0, ck_lastRebuiltAt := Some now\<rparr>"
  from rebuild_loop_spec [OF assms, of cutoff 0 ?ck "db\<lparr>pd_model := reset_model (pd_model db)\<rparr>"]
  show ?thesis by (auto simp: rebuildOne_def loadCheckpoint_def Let_def)
qed

text \<open>Catching up after a rebuild, when more rows have settled, is rebuilding later.\<close>

lemma catch_up_after_rebuild:
  assumes "0 < batchSize" and "distinct (map ie_ingestSeq rows)"
    and "pending cutoff rows 0 = applied @ pending cutoff rows (ck_lastIngestSeq (loadCheckpoint db))"
    and "pd_model db = apply_events applied (reset_model m)"
  shows "\<exists>res db'. catchUpOne pname apply_events cutoff batchSize rows db = Some (res, db') \<and>
     pd_model db' = apply_events (pending cutoff rows 0) (reset_model m) \<and>
     pr_eventsApplied res = length (pending cutoff rows (ck_lastIngestSeq (loadCheckpoint db)))"
  using catch_up_loop_spec [OF assms(1,2), of cutoff 0 db]
  by (auto simp: catchUpOne_def assms(4) apply_append [symmetric] assms(3) [symmetric])

end

subsection \<open>The event counts\<close>

text \<open>
  \<open>onchain_event_counts\<close> maps network, contract type and event type to a count. The totals of a
  batch are a JavaScript map, in order of first occurrence; its string key joins the three parts with
  NUL characters, which a database string cannot contain, and is the triple here.
\<close>

type_synonym count_key = "string \<times> string \<times> string"

type_synonym event_counts = "count_key \<rightharpoonup> int"

definition count_key :: "indexed_event \<Rightarrow> count_key" where
  "count_key r =
     (ie_network r, (if truthy (ie_contractType r) then the (ie_contractType r) else ''unknown''),
      ie_eventType r)"

fun add_total :: "count_key \<Rightarrow> (count_key \<times> int) list \<Rightarrow> (count_key \<times> int) list" where
  "add_total k [] = [(k, 1)]"
| "add_total k ((k', c) # ts) = (if k' = k then (k', c + 1) # ts else (k', c) # add_total k ts)"

definition batch_totals :: "indexed_event list \<Rightarrow> (count_key \<times> int) list" where
  "batch_totals events = fold (\<lambda>r. add_total (count_key r)) events []"

text \<open>\<open>INSERT ... ON CONFLICT DO UPDATE SET count = count + EXCLUDED.count\<close>, row by row.\<close>

fun upsert_counts :: "(count_key \<times> int) list \<Rightarrow> event_counts \<Rightarrow> event_counts" where
  "upsert_counts [] m = m"
| "upsert_counts ((k, c) # rows) m =
     upsert_counts rows (m(k \<mapsto> (case m k of None \<Rightarrow> c | Some c0 \<Rightarrow> c0 + c)))"

definition apply_counts :: "indexed_event list \<Rightarrow> event_counts \<Rightarrow> event_counts" where
  "apply_counts events m =
     (let totals = batch_totals events in if totals = [] then m else upsert_counts totals m)"

definition reset_counts :: "event_counts \<Rightarrow> event_counts" where
  "reset_counts m = Map.empty"

definition occurrences :: "count_key \<Rightarrow> indexed_event list \<Rightarrow> int" where
  "occurrences k events = int (length (filter (\<lambda>r. count_key r = k) events))"

lemma add_total_keys: "fst ` set (add_total k ts) = insert k (fst ` set ts)"
  by (induction ts rule: add_total.induct) auto

lemma add_total_distinct: "distinct (map fst ts) \<Longrightarrow> distinct (map fst (add_total k ts))"
proof (induction ts rule: add_total.induct)
  case (2 k k' c ts)
  then show ?case using add_total_keys [of k ts] by (auto simp: image_iff)
qed simp

lemma add_total_map_of:
  "map_of (add_total k ts) = (map_of ts)(k \<mapsto> (case map_of ts k of None \<Rightarrow> 1 | Some c \<Rightarrow> c + 1))"
  by (induction ts rule: add_total.induct) (auto simp: fun_upd_twist)

lemma totals_spec:
  "distinct (map fst ts) \<Longrightarrow>
     distinct (map fst (fold (\<lambda>r. add_total (count_key r)) events ts)) \<and>
     map_of (fold (\<lambda>r. add_total (count_key r)) events ts) k =
       (if occurrences k events = 0 then map_of ts k
        else Some ((case map_of ts k of None \<Rightarrow> 0 | Some c \<Rightarrow> c) + occurrences k events))"
proof (induction events arbitrary: ts)
  case Nil
  then show ?case by (simp add: occurrences_def)
next
  case (Cons r events)
  from Cons.IH [OF add_total_distinct [OF Cons.prems], of "count_key r"] show ?case
    by (auto simp: occurrences_def add_total_map_of split: option.splits)
qed

lemma upsert_counts_spec:
  "distinct (map fst rows) \<Longrightarrow>
   upsert_counts rows m k = (case map_of rows k of None \<Rightarrow> m k
      | Some c \<Rightarrow> Some ((case m k of None \<Rightarrow> 0 | Some c0 \<Rightarrow> c0) + c))"
proof (induction rows arbitrary: m)
  case (Cons r rows)
  obtain k' c where r: "r = (k', c)" by (cases r)
  have fresh: "map_of rows k' = None" using Cons.prems by (auto simp: r map_of_eq_None_iff)
  have IH: "upsert_counts rows m k = (case map_of rows k of None \<Rightarrow> m k
      | Some c \<Rightarrow> Some ((case m k of None \<Rightarrow> 0 | Some c0 \<Rightarrow> c0) + c))" for m
    using Cons by simp
  have "upsert_counts (r # rows) m k
      = upsert_counts rows (m(k' \<mapsto> (case m k' of None \<Rightarrow> c | Some c0 \<Rightarrow> c0 + c))) k"
    by (simp add: r)
  then show ?case unfolding IH using fresh by (auto simp: r split: option.split)
qed simp

lemma apply_counts_spec:
  "apply_counts events m k =
     (if occurrences k events = 0 then m k
      else Some ((case m k of None \<Rightarrow> 0 | Some c \<Rightarrow> c) + occurrences k events))"
proof -
  have "distinct (map fst (batch_totals events))"
    "map_of (batch_totals events) k = (if occurrences k events = 0 then None else Some (occurrences k events))"
    using totals_spec [of "[]" events k] by (auto simp: batch_totals_def)
  moreover have "apply_counts events m = upsert_counts (batch_totals events) m"
    by (simp add: apply_counts_def Let_def)
  ultimately show ?thesis by (simp add: upsert_counts_spec)
qed

lemma occurrences_append: "occurrences k (xs @ ys) = occurrences k xs + occurrences k ys"
  and occurrences_ge: "0 \<le> occurrences k xs"
  by (simp_all add: occurrences_def)

interpretation counts: event_projection reset_counts apply_counts
proof unfold_locales
  show "apply_counts (xs @ ys) m = apply_counts ys (apply_counts xs m)" for xs ys m
  proof
    fix k
    show "apply_counts (xs @ ys) m k = apply_counts ys (apply_counts xs m) k"
      using occurrences_ge [of k xs] occurrences_ge [of k ys]
      by (auto simp: apply_counts_spec occurrences_append split: option.splits)
  qed
qed (auto simp: reset_counts_def apply_counts_def batch_totals_def)

subsection \<open>Properties\<close>

text \<open>
  A rebuild of the event counts always returns with a positive batch size, and afterwards the
  count of every network, contract type and event type is the number of settled raw events of that
  kind, whatever the table held before.
\<close>

theorem rebuilt_counts_are_exact:
  assumes "0 < batchSize" and "distinct (map ie_ingestSeq rows)"
    and "\<forall>r\<in>set rows. 0 < ie_ingestSeq r"
  shows "\<exists>res db'. rebuildOne pname reset_counts apply_counts now cutoff batchSize rows db = Some (res, db') \<and>
     (\<forall>k. pd_model db' k =
        (let n = length (filter (\<lambda>r. ie_indexedAt r \<le> cutoff \<and> count_key r = k) rows)
         in if n = 0 then None else Some (int n)))"
proof -
  have "filter (\<lambda>r. 0 < ie_ingestSeq r \<and> ie_indexedAt r \<le> cutoff) rows
      = filter (\<lambda>r. ie_indexedAt r \<le> cutoff) rows"
    using assms(3) by (intro filter_cong) auto
  then have "mset (pending cutoff rows 0) = mset (filter (\<lambda>r. ie_indexedAt r \<le> cutoff) rows)"
    by (simp add: pending_def)
  then have "occurrences k (pending cutoff rows 0)
      = occurrences k (filter (\<lambda>r. ie_indexedAt r \<le> cutoff) rows)" for k
    unfolding occurrences_def by (metis mset_filter size_mset)
  moreover have "occurrences k (filter (\<lambda>r. ie_indexedAt r \<le> cutoff) rows)
      = int (length (filter (\<lambda>r. ie_indexedAt r \<le> cutoff \<and> count_key r = k) rows))" for k
    by (simp add: occurrences_def conj_commute)
  ultimately show ?thesis
    using counts.rebuildOne_spec [OF assms(1,2), of pname now cutoff db]
    by (auto simp: apply_counts_spec reset_counts_def Let_def)
qed

definition sample_rows :: "indexed_event list" where
  "sample_rows = [event_row 10 1 sample_dto, event_row 11 2 sample_dto, event_row 99 3 sample_dto]"

definition no_projection :: "event_counts projection_db" where
  "no_projection = \<lparr>pd_model = Map.empty, pd_checkpoint = None\<rparr>"

theorem rebuilt_counts_are_exact_witness:
  "\<exists>res db'. rebuildOne ''counts'' reset_counts apply_counts 60 50 1 sample_rows no_projection = Some (res, db') \<and>
     pd_model db' (''stellar-testnet'', ''nft'', ''mint'') = Some 2"
proof -
  have "distinct (map ie_ingestSeq sample_rows)" "\<forall>r\<in>set sample_rows. 0 < ie_ingestSeq r"
    by (simp_all add: sample_rows_def event_row_def)
  from rebuilt_counts_are_exact [OF _ this, of 1 "''counts''" 60 50 no_projection] show ?thesis
    by (auto simp: sample_rows_def event_row_def count_key_def sample_dto_def dto_net_def truthy_def Let_def)
qed

text \<open>
  C11: Catching up is exactly once: from a read model that holds the settled events up to its
  checkpoint, a catch-up applies the remaining settled events and no other, each once, and ends with
  the read model a rebuild at the same moment would give.
\<close>

theorem catch_up_equals_rebuild:
  assumes "0 < batchSize" and "distinct (map ie_ingestSeq rows)"
    and "pending cutoff rows 0 = applied @ pending cutoff rows (ck_lastIngestSeq (loadCheckpoint db))"
    and "pd_model db = apply_counts applied (reset_counts m)"
  shows "\<exists>res db' res' db''. catchUpOne pname apply_counts cutoff batchSize rows db = Some (res, db') \<and>
     rebuildOne pname reset_counts apply_counts now cutoff batchSize rows db = Some (res', db'') \<and>
     pd_model db' = pd_model db'' \<and>
     pr_eventsApplied res + length applied = pr_eventsApplied res'"
proof -
  obtain res db' where c: "catchUpOne pname apply_counts cutoff batchSize rows db = Some (res, db')"
    "pd_model db' = apply_counts (pending cutoff rows 0) (reset_counts m)"
    "pr_eventsApplied res = length (pending cutoff rows (ck_lastIngestSeq (loadCheckpoint db)))"
    using counts.catch_up_after_rebuild [OF assms] by blast
  obtain res' db'' where r: "rebuildOne pname reset_counts apply_counts now cutoff batchSize rows db
      = Some (res', db'')" "pd_model db'' = apply_counts (pending cutoff rows 0) (reset_counts (pd_model db))"
    "pr_eventsApplied res' = length (pending cutoff rows 0)"
    using counts.rebuildOne_spec [OF assms(1,2), of pname now cutoff db] by blast
  have "pd_model db' = pd_model db''"
    unfolding c(2) r(2) by (simp add: reset_counts_def)
  moreover have "pr_eventsApplied res + length applied = pr_eventsApplied res'"
    unfolding c(3) r(3) assms(3) by simp
  ultimately show ?thesis using c(1) r(1) by blast
qed

theorem catch_up_equals_rebuild_witness:
  "\<exists>res db'. catchUpOne ''counts'' apply_counts 50 1 sample_rows no_projection = Some (res, db') \<and>
     pr_eventsApplied res = 2"
proof -
  have d: "distinct (map ie_ingestSeq sample_rows)" by (simp add: sample_rows_def event_row_def)
  have l: "length (pending 50 sample_rows 0) = 2" by (simp add: pending_def sample_rows_def event_row_def)
  have "\<exists>res' db''. rebuildOne ''counts'' reset_counts apply_counts 60 50 1 sample_rows no_projection
      = Some (res', db'') \<and> pr_eventsApplied res' = 2"
    using counts.rebuildOne_spec [OF _ d, of 1 "''counts''" 60 50 no_projection] l by auto
  moreover have "pending 50 sample_rows 0 = [] @ pending 50 sample_rows (ck_lastIngestSeq (loadCheckpoint no_projection))"
    by (simp add: no_projection_def loadCheckpoint_def fresh_checkpoint_def)
  moreover have "pd_model no_projection = apply_counts [] (reset_counts Map.empty)"
    by (simp add: no_projection_def apply_counts_def batch_totals_def reset_counts_def)
  ultimately show ?thesis
    using catch_up_equals_rebuild [OF _ d, of 1 50 "[]" no_projection Map.empty "''counts''" 60] by fastforce
qed

end
