(* ===== verification/Playlists.thy ===== *)
theory Playlists
  imports AppErrors Complex_Main "HOL-Library.Multiset"
begin

text \<open>
  Playlists: \<open>services/PlaylistService.ts\<close> over the entities \<open>Playlist\<close>, \<open>PlaylistSong\<close>,
  \<open>PlaylistCollaborator\<close> and \<open>PlaylistFollow\<close>. Every public operation that changes state, its guards in
  the order of the code and its error values, and the reads that decide access. Foreign keys cascade
  on delete. The AI curation, which writes nothing, is left out.
\<close>

subsection \<open>Entities\<close>

text \<open>\<open>savedWithinDays\<close> is a JavaScript number, so it may be fractional.\<close>

record playlist_rule =
  ru_tags :: "string list option"
  ru_genres :: "string list option"
  ru_savedWithinDays :: "rat option"

record playlist =
  pl_id :: ident
  pl_userId :: ident
  pl_name :: string
  pl_description :: "string option"
  pl_isPublic :: bool
  pl_coverImageUrl :: "string option"
  pl_isRuleBased :: bool
  pl_rule :: "playlist_rule option"
  pl_createdAt :: timestamp

record playlist_song =
  pls_playlistId :: ident
  pls_songId :: ident
  pls_position :: int
  pls_addedAt :: timestamp

datatype collaborator_role = EDITOR | VIEWER

record playlist_collaborator =
  plc_playlistId :: ident
  plc_userId :: ident
  plc_role :: collaborator_role
  plc_createdAt :: timestamp

record playlist_follow =
  plf_userId :: ident
  plf_playlistId :: ident
  plf_createdAt :: timestamp

text \<open>The columns of \<open>songs\<close> the playlist rules read.\<close>

record catalog_song =
  cat_id :: ident
  cat_ready :: bool
  cat_flagged :: bool
  cat_genre :: "string option"
  cat_tags :: "string list"
  cat_createdAt :: timestamp

record playlist_db =
  pdb_playlists :: "playlist table"
  pdb_songs :: "playlist_song table"
  pdb_collaborators :: "playlist_collaborator table"
  pdb_follows :: "playlist_follow table"
  pdb_catalog :: "catalog_song table"

record playlist_input =
  in_name :: "string option"
  in_description :: "string option"
  in_isPublic :: "bool option"
  in_coverImageUrl :: "string option"
  in_isRuleBased :: "bool option"
  in_rule :: "playlist_rule option option"

subsection \<open>Access\<close>

definition find_playlist :: "ident \<Rightarrow> playlist_db \<Rightarrow> playlist option" where
  "find_playlist pid db = tbl_find (\<lambda>p. pl_id p = pid) (pdb_playlists db)"

definition find_collaborator :: "ident \<Rightarrow> ident \<Rightarrow> playlist_db \<Rightarrow> playlist_collaborator option" where
  "find_collaborator pid uid db =
     tbl_find (\<lambda>c. plc_playlistId c = pid \<and> plc_userId c = uid) (pdb_collaborators db)"

definition isCollaborator :: "ident \<Rightarrow> ident \<Rightarrow> playlist_db \<Rightarrow> bool" where
  "isCollaborator pid uid db \<longleftrightarrow> find_collaborator pid uid db \<noteq> None"

definition isEditorCollaborator :: "ident \<Rightarrow> ident \<Rightarrow> playlist_db \<Rightarrow> bool" where
  "isEditorCollaborator pid uid db \<longleftrightarrow>
     tbl_find (\<lambda>c. plc_playlistId c = pid \<and> plc_userId c = uid \<and> plc_role c = EDITOR)
       (pdb_collaborators db) \<noteq> None"

definition canRead :: "playlist \<Rightarrow> ident option \<Rightarrow> playlist_db \<Rightarrow> bool" where
  "canRead p viewer db \<longleftrightarrow>
     (if pl_isPublic p then True
      else if \<not> truthy viewer then False
      else if pl_userId p = the viewer then True
      else isCollaborator (pl_id p) (the viewer) db)"

abbreviation err_no_playlist :: js_error where
  "err_no_playlist \<equiv> err_notFound ''Playlist not found'' ''PLAYLIST_NOT_FOUND''"

definition getOwnedPlaylist :: "ident \<Rightarrow> ident \<Rightarrow> playlist_db \<Rightarrow> js_error + playlist" where
  "getOwnedPlaylist pid uid db =
     (case find_playlist pid db of
        None \<Rightarrow> Inl err_no_playlist
      | Some p \<Rightarrow>
          if pl_userId p \<noteq> uid
          then Inl (err_authorization ''You can only modify your own playlists'' ''NOT_PLAYLIST_OWNER'')
          else Inr p)"

definition getEditablePlaylist :: "ident \<Rightarrow> ident \<Rightarrow> playlist_db \<Rightarrow> js_error + playlist" where
  "getEditablePlaylist pid uid db =
     (case find_playlist pid db of
        None \<Rightarrow> Inl err_no_playlist
      | Some p \<Rightarrow>
          if \<not> (pl_userId p = uid \<or> isEditorCollaborator pid uid db)
          then Inl (err_authorization ''You do not have edit access to this playlist'' ''NOT_PLAYLIST_EDITOR'')
          else Inr p)"

definition getReadablePlaylist :: "ident \<Rightarrow> ident option \<Rightarrow> playlist_db \<Rightarrow> js_error + playlist" where
  "getReadablePlaylist pid viewer db =
     (case find_playlist pid db of
        None \<Rightarrow> Inl err_no_playlist
      | Some p \<Rightarrow>
          if \<not> canRead p viewer db
          then Inl (err_authorization ''You do not have access to this playlist'' ''PLAYLIST_PRIVATE'')
          else Inr p)"

subsection \<open>Rules\<close>

definition is_integer :: "rat \<Rightarrow> bool" where
  "is_integer r \<longleftrightarrow> of_int \<lfloor>r\<rfloor> = r"

definition some_nonempty :: "'a list option \<Rightarrow> bool" where
  "some_nonempty xs = (case xs of None \<Rightarrow> False | Some ys \<Rightarrow> ys \<noteq> [])"

definition empty_rule :: playlist_rule where
  "empty_rule = \<lparr>ru_tags = None, ru_genres = None, ru_savedWithinDays = None\<rparr>"

definition has_criteria :: "playlist_rule \<Rightarrow> bool" where
  "has_criteria r \<longleftrightarrow>
     some_nonempty (ru_tags r) \<or> some_nonempty (ru_genres r) \<or>
     (case ru_savedWithinDays r of Some d \<Rightarrow> d > 0 | None \<Rightarrow> False)"

definition days_invalid :: "playlist_rule \<Rightarrow> bool" where
  "days_invalid r \<longleftrightarrow>
     (case ru_savedWithinDays r of Some d \<Rightarrow> \<not> is_integer d \<or> d \<le> 0 | None \<Rightarrow> False)"

text \<open>\<open>assertValidRule\<close>; the rule argument is absent, null or a rule.\<close>

definition assertValidRule :: "bool \<Rightarrow> playlist_rule option option \<Rightarrow> js_error option" where
  "assertValidRule isRuleBased rule =
     (if \<not> isRuleBased then None
      else let r = (case rule of Some (Some x) \<Rightarrow> x | _ \<Rightarrow> empty_rule) in
        if \<not> has_criteria r
        then Some (err_validation
               ''A rule-based playlist requires at least one criterion (tags, genres, or savedWithinDays)''
               ''PLAYLIST_RULE_EMPTY'')
        else if days_invalid r
        then Some (err_validation ''savedWithinDays must be a positive integer'' ''PLAYLIST_RULE_INVALID'')
        else None)"

definition DAY_MS :: int where
  "DAY_MS = 24 * 60 * 60 * 1000"

definition rule_matches :: "timestamp \<Rightarrow> playlist_rule \<Rightarrow> catalog_song \<Rightarrow> bool" where
  "rule_matches now r s \<longleftrightarrow>
     cat_ready s \<and> \<not> cat_flagged s \<and>
     (some_nonempty (ru_genres r) \<longrightarrow> list_ex (\<lambda>g. cat_genre s = Some g) (the (ru_genres r))) \<and>
     (some_nonempty (ru_tags r) \<longrightarrow> list_ex (\<lambda>t. t \<in> set (cat_tags s)) (the (ru_tags r))) \<and>
     (case ru_savedWithinDays r of
        Some d \<Rightarrow> d > 0 \<longrightarrow> of_int (cat_createdAt s) \<ge> of_int now - d * of_int DAY_MS
      | None \<Rightarrow> True)"

text \<open>Newest first; the rows are shaped like stored ones.\<close>

definition resolveRuleSongs :: "timestamp \<Rightarrow> playlist \<Rightarrow> playlist_db \<Rightarrow> playlist_song list" where
  "resolveRuleSongs now p db =
     (let r = (case pl_rule p of Some x \<Rightarrow> x | None \<Rightarrow> empty_rule);
          songs = rev (sort_key cat_createdAt (filter (rule_matches now r) (pdb_catalog db)))
      in map (\<lambda>(i, s). \<lparr>pls_playlistId = pl_id p, pls_songId = cat_id s, pls_position = int i,
                         pls_addedAt = cat_createdAt s\<rparr>) (enumerate 0 songs))"

subsection \<open>Reading\<close>

definition entries_of :: "ident \<Rightarrow> playlist_db \<Rightarrow> playlist_song list" where
  "entries_of pid db = filter (\<lambda>e. pls_playlistId e = pid) (pdb_songs db)"

definition ordered_entries :: "ident \<Rightarrow> playlist_db \<Rightarrow> playlist_song list" where
  "ordered_entries pid db = sort_key pls_position (entries_of pid db)"

definition countFollowers :: "ident \<Rightarrow> playlist_db \<Rightarrow> nat" where
  "countFollowers pid db = tbl_count (\<lambda>f. plf_playlistId f = pid) (pdb_follows db)"

definition isFollowing :: "ident \<Rightarrow> ident \<Rightarrow> playlist_db \<Rightarrow> bool" where
  "isFollowing uid pid db \<longleftrightarrow>
     tbl_find (\<lambda>f. plf_userId f = uid \<and> plf_playlistId f = pid) (pdb_follows db) \<noteq> None"

record playlist_view =
  pv_playlist :: playlist
  pv_songs :: "playlist_song list"
  pv_followerCount :: nat

definition getById :: "timestamp \<Rightarrow> ident \<Rightarrow> ident option \<Rightarrow> playlist_db \<Rightarrow> js_error + playlist_view" where
  "getById now pid viewer db =
     (case getReadablePlaylist pid viewer db of
        Inl e \<Rightarrow> Inl e
      | Inr p \<Rightarrow> Inr \<lparr>pv_playlist = p,
            pv_songs = (if pl_isRuleBased p then resolveRuleSongs now p db else ordered_entries pid db),
            pv_followerCount = countFollowers pid db\<rparr>)"

record page_info =
  pi_page :: int
  pi_limit :: int
  pi_total :: nat
  pi_totalPages :: int

definition page_of :: "int \<Rightarrow> int \<Rightarrow> 'a list \<Rightarrow> 'a list \<times> page_info" where
  "page_of page limit items =
     (let safePage = max 1 page; safeLimit = min (max 1 limit) 100 in
      (take (nat safeLimit) (drop (nat ((safePage - 1) * safeLimit)) items),
       \<lparr>pi_page = safePage, pi_limit = safeLimit, pi_total = length items,
        pi_totalPages = ceil_div (int (length items)) safeLimit\<rparr>))"

definition listForUser :: "ident \<Rightarrow> int \<Rightarrow> int \<Rightarrow> playlist_db \<Rightarrow> playlist list \<times> page_info" where
  "listForUser uid page limit db =
     page_of page limit (rev (sort_key pl_createdAt (filter (\<lambda>p. pl_userId p = uid) (pdb_playlists db))))"

definition listFollowedPlaylists :: "ident \<Rightarrow> int \<Rightarrow> int \<Rightarrow> playlist_db \<Rightarrow> playlist_follow list \<times> page_info" where
  "listFollowedPlaylists uid page limit db =
     page_of (if page = 0 then 1 else page) (if limit = 0 then 20 else limit)
       (rev (sort_key plf_createdAt (filter (\<lambda>f. plf_userId f = uid) (pdb_follows db))))"

definition listCollaborators ::
  "ident \<Rightarrow> ident option \<Rightarrow> playlist_db \<Rightarrow> js_error + playlist_collaborator list" where
  "listCollaborators pid viewer db =
     (case getReadablePlaylist pid viewer db of
        Inl e \<Rightarrow> Inl e
      | Inr _ \<Rightarrow> Inr (sort_key plc_createdAt (filter (\<lambda>c. plc_playlistId c = pid) (pdb_collaborators db))))"

subsection \<open>Operations on playlists\<close>

definition create_playlist ::
  "ident \<Rightarrow> timestamp \<Rightarrow> ident \<Rightarrow> playlist_input \<Rightarrow> (playlist_db, playlist) service" where
  "create_playlist newId now uid inp db =
     (if \<not> truthy (in_name inp) \<or> js_blank (the (in_name inp))
      then (Inl (err_validation ''Playlist name is required'' ''PLAYLIST_NAME_REQUIRED''), db)
      else let isRuleBased = (in_isRuleBased inp = Some True) in
        case assertValidRule isRuleBased (in_rule inp) of
          Some e \<Rightarrow> (Inl e, db)
        | None \<Rightarrow>
            let p = \<lparr>pl_id = newId, pl_userId = uid, pl_name = js_trim (the (in_name inp)),
                     pl_description = or_none (map_option js_trim (in_description inp)),
                     pl_isPublic = (case in_isPublic inp of Some b \<Rightarrow> b | None \<Rightarrow> True),
                     pl_coverImageUrl = or_none (in_coverImageUrl inp),
                     pl_isRuleBased = isRuleBased,
                     pl_rule = (if isRuleBased then (case in_rule inp of Some r \<Rightarrow> r | None \<Rightarrow> None) else None),
                     pl_createdAt = now\<rparr>
            in (Inr p, db\<lparr>pdb_playlists := pdb_playlists db @ [p]\<rparr>))"

definition save_playlist :: "playlist \<Rightarrow> playlist_db \<Rightarrow> playlist_db" where
  "save_playlist p db = db\<lparr>pdb_playlists := tbl_put pl_id p (pdb_playlists db)\<rparr>"

text \<open>The rule part of \<open>update\<close>: a rule change is checked against the resulting kind.\<close>

definition update_rule :: "playlist_input \<Rightarrow> playlist \<Rightarrow> js_error + playlist" where
  "update_rule inp p =
     (case in_isRuleBased inp of
        Some b \<Rightarrow>
          (case assertValidRule b (in_rule inp) of
             Some e \<Rightarrow> Inl e
           | None \<Rightarrow>
               let p1 = p\<lparr>pl_isRuleBased := b\<rparr> in
               if \<not> b then Inr (p1\<lparr>pl_rule := None\<rparr>)
               else (case in_rule inp of Some r \<Rightarrow> Inr (p1\<lparr>pl_rule := r\<rparr>) | None \<Rightarrow> Inr p1))
      | None \<Rightarrow>
          (case in_rule inp of
             None \<Rightarrow> Inr p
           | Some r \<Rightarrow>
               (case assertValidRule (pl_isRuleBased p) (Some r) of
                  Some e \<Rightarrow> Inl e
                | None \<Rightarrow> Inr (p\<lparr>pl_rule := r\<rparr>))))"

definition update_playlist ::
  "ident \<Rightarrow> ident \<Rightarrow> playlist_input \<Rightarrow> (playlist_db, playlist) service" where
  "update_playlist pid uid inp db =
     (case getEditablePlaylist pid uid db of
        Inl e \<Rightarrow> (Inl e, db)
      | Inr p \<Rightarrow>
          if (case in_name inp of Some n \<Rightarrow> js_blank n | None \<Rightarrow> False)
          then (Inl (err_validation ''Playlist name cannot be empty'' ''PLAYLIST_NAME_REQUIRED''), db)
          else
            let p1 = p\<lparr>pl_name := (case in_name inp of Some n \<Rightarrow> js_trim n | None \<Rightarrow> pl_name p),
                       pl_description := (case in_description inp of
                           Some d \<Rightarrow> Some (js_trim d) | None \<Rightarrow> pl_description p),
                       pl_isPublic := (case in_isPublic inp of Some b \<Rightarrow> b | None \<Rightarrow> pl_isPublic p),
                       pl_coverImageUrl := (case in_coverImageUrl inp of
                           Some c \<Rightarrow> Some c | None \<Rightarrow> pl_coverImageUrl p)\<rparr>
            in case update_rule inp p1 of
                 Inl e \<Rightarrow> (Inl e, db)
               | Inr p2 \<Rightarrow> (Inr p2, save_playlist p2 db))"

definition remove_playlist :: "ident \<Rightarrow> ident \<Rightarrow> (playlist_db, unit) service" where
  "remove_playlist pid uid db =
     (case getOwnedPlaylist pid uid db of
        Inl e \<Rightarrow> (Inl e, db)
      | Inr _ \<Rightarrow> (Inr (), db\<lparr>
          pdb_playlists := tbl_delete (\<lambda>p. pl_id p = pid) (pdb_playlists db),
          pdb_songs := tbl_delete (\<lambda>e. pls_playlistId e = pid) (pdb_songs db),
          pdb_collaborators := tbl_delete (\<lambda>c. plc_playlistId c = pid) (pdb_collaborators db),
          pdb_follows := tbl_delete (\<lambda>f. plf_playlistId f = pid) (pdb_follows db)\<rparr>))"

subsection \<open>Operations on the songs of a playlist\<close>

definition is_entry :: "ident \<Rightarrow> ident \<Rightarrow> playlist_song \<Rightarrow> bool" where
  "is_entry pid sid e \<longleftrightarrow> pls_playlistId e = pid \<and> pls_songId e = sid"

text \<open>\<open>maximum('position', ...) ?? -1\<close>\<close>

definition max_position :: "playlist_song list \<Rightarrow> int" where
  "max_position es = (case es of [] \<Rightarrow> -1 | e # es' \<Rightarrow> fold (\<lambda>x m. max m (pls_position x)) es' (pls_position e))"

definition addSong :: "timestamp \<Rightarrow> ident \<Rightarrow> ident \<Rightarrow> ident \<Rightarrow> (playlist_db, playlist_song) service" where
  "addSong now pid uid sid db =
     (case getEditablePlaylist pid uid db of
        Inl e \<Rightarrow> (Inl e, db)
      | Inr p \<Rightarrow>
          if pl_isRuleBased p
          then (Inl (err_validation ''Cannot manually add songs to a rule-based playlist''
                       ''PLAYLIST_RULE_BASED''), db)
          else (case tbl_find (\<lambda>s. cat_id s = sid) (pdb_catalog db) of
              None \<Rightarrow> (Inl (err_notFound ''Song not found'' ''SONG_NOT_FOUND''), db)
            | Some _ \<Rightarrow>
                (case tbl_find (is_entry pid sid) (pdb_songs db) of
                   Some existing \<Rightarrow> (Inr existing, db)
                 | None \<Rightarrow>
                     let entry = \<lparr>pls_playlistId = pid, pls_songId = sid,
                                  pls_position = max_position (entries_of pid db) + 1, pls_addedAt = now\<rparr>
                     in (Inr entry, db\<lparr>pdb_songs := pdb_songs db @ [entry]\<rparr>))))"

definition removeSong :: "ident \<Rightarrow> ident \<Rightarrow> ident \<Rightarrow> (playlist_db, unit) service" where
  "removeSong pid uid sid db =
     (case getEditablePlaylist pid uid db of
        Inl e \<Rightarrow> (Inl e, db)
      | Inr p \<Rightarrow>
          if pl_isRuleBased p
          then (Inl (err_validation ''Cannot manually remove songs from a rule-based playlist''
                       ''PLAYLIST_RULE_BASED''), db)
          else if tbl_count (is_entry pid sid) (pdb_songs db) = 0
          then (Inl (err_notFound ''Song is not in this playlist'' ''PLAYLIST_SONG_NOT_FOUND''), db)
          else (Inr (), db\<lparr>pdb_songs := tbl_delete (is_entry pid sid) (pdb_songs db)\<rparr>))"

text \<open>Saving entries whose positions were set to their index in a list of song ids.\<close>

fun set_positions :: "ident \<Rightarrow> int \<Rightarrow> ident list \<Rightarrow> playlist_song table \<Rightarrow> playlist_song table" where
  "set_positions pid i [] t = t"
| "set_positions pid i (sid # sids) t =
     set_positions pid (i + 1) sids
       (map (\<lambda>e. if is_entry pid sid e then e\<lparr>pls_position := i\<rparr> else e) t)"

definition reorder ::
  "timestamp \<Rightarrow> ident \<Rightarrow> ident \<Rightarrow> ident list \<Rightarrow> (playlist_db, playlist_view) service" where
  "reorder now pid uid songIds db =
     (case getEditablePlaylist pid uid db of
        Inl e \<Rightarrow> (Inl e, db)
      | Inr p \<Rightarrow>
          if pl_isRuleBased p
          then (Inl (err_validation ''Cannot manually reorder a rule-based playlist'' ''PLAYLIST_RULE_BASED''), db)
          else if songIds = []
          then (Inl (err_validation ''songIds must be a non-empty array of song ids''
                       ''PLAYLIST_REORDER_INVALID''), db)
          else let missing = filter (\<lambda>sid. sid \<notin> pls_songId ` set (entries_of pid db)) songIds in
            if missing \<noteq> []
            then (Inl (err_validation (''Songs not in playlist: '' @ join_with '', '' missing)
                         ''PLAYLIST_SONG_NOT_FOUND''), db)
            else let db1 = db\<lparr>pdb_songs := set_positions pid 0 songIds (pdb_songs db)\<rparr>
                 in (getById now pid (Some uid) db1, db1))"

text \<open>\<open>newPosition\<close> as an integer; the source rejects other numbers with the same error.\<close>

definition moveSong ::
  "timestamp \<Rightarrow> ident \<Rightarrow> ident \<Rightarrow> ident \<Rightarrow> int \<Rightarrow> (playlist_db, playlist_view) service" where
  "moveSong now pid uid sid newPosition db =
     (case getEditablePlaylist pid uid db of
        Inl e \<Rightarrow> (Inl e, db)
      | Inr p \<Rightarrow>
          if pl_isRuleBased p
          then (Inl (err_validation ''Cannot manually reorder a rule-based playlist'' ''PLAYLIST_RULE_BASED''), db)
          else if newPosition < 0
          then (Inl (err_validation ''newPosition must be a non-negative integer''
                       ''PLAYLIST_REORDER_INVALID''), db)
          else let entries = ordered_entries pid db in
            (case List.find (\<lambda>e. pls_songId e = sid) entries of
               None \<Rightarrow> (Inl (err_notFound ''Song is not in this playlist'' ''PLAYLIST_SONG_NOT_FOUND''), db)
             | Some entry \<Rightarrow>
                 let maxIndex = int (length entries) - 1;
                     target = min newPosition maxIndex in
                 if target = pls_position entry then (getById now pid (Some uid) db, db)
                 else let ordered = insert_nth (nat target) entry
                                      (filter (\<lambda>e. pls_songId e \<noteq> sid) entries);
                          db1 = db\<lparr>pdb_songs := set_positions pid 0 (map pls_songId ordered) (pdb_songs db)\<rparr>
                      in (getById now pid (Some uid) db1, db1)))"

subsection \<open>Collaborators and followers\<close>

fun parse_role :: "string \<Rightarrow> collaborator_role option" where
  "parse_role r = (if r = ''editor'' then Some EDITOR else if r = ''viewer'' then Some VIEWER else None)"

definition err_role :: js_error where
  "err_role = err_validation ''role must be one of: editor, viewer'' ''COLLABORATOR_ROLE_INVALID''"

definition addCollaborator ::
  "timestamp \<Rightarrow> ident \<Rightarrow> ident \<Rightarrow> ident \<Rightarrow> string option \<Rightarrow> (playlist_db, playlist_collaborator) service" where
  "addCollaborator now pid ownerId uid role db =
     (case getOwnedPlaylist pid ownerId db of
        Inl e \<Rightarrow> (Inl e, db)
      | Inr _ \<Rightarrow>
          if uid = [] then (Inl (err_validation ''userId is required'' ''COLLABORATOR_USER_REQUIRED''), db)
          else if uid = ownerId
          then (Inl (err_validation ''The owner is already a collaborator'' ''COLLABORATOR_IS_OWNER''), db)
          else (case (case role of None \<Rightarrow> Some EDITOR | Some r \<Rightarrow> parse_role r) of
              None \<Rightarrow> (Inl err_role, db)
            | Some ro \<Rightarrow>
                if isCollaborator pid uid db
                then (Inl (AppErr (AE_conflict ''This user is already a collaborator on this playlist''
                             NoDetails None)), db)
                else let c = \<lparr>plc_playlistId = pid, plc_userId = uid, plc_role = ro, plc_createdAt = now\<rparr>
                     in (Inr c, db\<lparr>pdb_collaborators := pdb_collaborators db @ [c]\<rparr>)))"

definition err_no_collaborator :: js_error where
  "err_no_collaborator =
     AppErr (AE_notFound ''Collaborator not found on this playlist'' NoDetails None)"

definition updateCollaboratorRole ::
  "ident \<Rightarrow> ident \<Rightarrow> ident \<Rightarrow> string \<Rightarrow> (playlist_db, playlist_collaborator) service" where
  "updateCollaboratorRole pid ownerId uid role db =
     (case getOwnedPlaylist pid ownerId db of
        Inl e \<Rightarrow> (Inl e, db)
      | Inr _ \<Rightarrow>
          (case parse_role role of
             None \<Rightarrow> (Inl err_role, db)
           | Some ro \<Rightarrow>
               (case find_collaborator pid uid db of
                  None \<Rightarrow> (Inl err_no_collaborator, db)
                | Some c \<Rightarrow>
                    let c1 = c\<lparr>plc_role := ro\<rparr> in
                    (Inr c1, db\<lparr>pdb_collaborators :=
                       tbl_put (\<lambda>x. (plc_playlistId x, plc_userId x)) c1 (pdb_collaborators db)\<rparr>))))"

definition removeCollaborator :: "ident \<Rightarrow> ident \<Rightarrow> ident \<Rightarrow> (playlist_db, unit) service" where
  "removeCollaborator pid requesterId uid db =
     (case find_playlist pid db of
        None \<Rightarrow> (Inl err_no_playlist, db)
      | Some p \<Rightarrow>
          if pl_userId p \<noteq> requesterId \<and> requesterId \<noteq> uid
          then (Inl (err_authorization ''Only the owner can remove another collaborator''
                       ''COLLABORATOR_REMOVE_FORBIDDEN''), db)
          else if \<not> isCollaborator pid uid db then (Inl err_no_collaborator, db)
          else (Inr (), db\<lparr>pdb_collaborators :=
                  tbl_delete (\<lambda>c. plc_playlistId c = pid \<and> plc_userId c = uid) (pdb_collaborators db)\<rparr>))"

definition followPlaylist :: "timestamp \<Rightarrow> ident \<Rightarrow> ident \<Rightarrow> (playlist_db, bool \<times> nat) service" where
  "followPlaylist now uid pid db =
     (case getReadablePlaylist pid (Some uid) db of
        Inl e \<Rightarrow> (Inl e, db)
      | Inr p \<Rightarrow>
          if pl_userId p = uid
          then (Inl (err_validation ''You cannot follow your own playlist'' ''PLAYLIST_FOLLOW_SELF''), db)
          else if isFollowing uid pid db then (Inr (False, countFollowers pid db), db)
          else let db1 = db\<lparr>pdb_follows := pdb_follows db @
                     [\<lparr>plf_userId = uid, plf_playlistId = pid, plf_createdAt = now\<rparr>]\<rparr>
               in (Inr (True, countFollowers pid db1), db1))"

definition unfollowPlaylist :: "ident \<Rightarrow> ident \<Rightarrow> (playlist_db, unit) service" where
  "unfollowPlaylist uid pid db =
     (Inr (), db\<lparr>pdb_follows :=
        tbl_delete (\<lambda>f. plf_userId f = uid \<and> plf_playlistId f = pid) (pdb_follows db)\<rparr>)"

subsection \<open>The service as a machine\<close>

datatype playlist_op =
    PO_create ident playlist_input
  | PO_update ident playlist_input
  | PO_remove ident
  | PO_addSong ident ident
  | PO_removeSong ident ident
  | PO_reorder ident "ident list"
  | PO_move ident ident int
  | PO_addCollaborator ident ident "string option"
  | PO_setRole ident ident string
  | PO_removeCollaborator ident ident
  | PO_follow ident
  | PO_unfollow ident

text \<open>One request of user \<open>uid\<close> at time \<open>now\<close>.\<close>

fun playlist_step :: "timestamp \<times> ident \<times> playlist_op \<Rightarrow> playlist_db \<Rightarrow> playlist_db" where
  "playlist_step (now, uid, PO_create newId inp) db = snd (create_playlist newId now uid inp db)"
| "playlist_step (now, uid, PO_update pid inp) db = snd (update_playlist pid uid inp db)"
| "playlist_step (now, uid, PO_remove pid) db = snd (remove_playlist pid uid db)"
| "playlist_step (now, uid, PO_addSong pid sid) db = snd (addSong now pid uid sid db)"
| "playlist_step (now, uid, PO_removeSong pid sid) db = snd (removeSong pid uid sid db)"
| "playlist_step (now, uid, PO_reorder pid sids) db = snd (reorder now pid uid sids db)"
| "playlist_step (now, uid, PO_move pid sid pos) db = snd (moveSong now pid uid sid pos db)"
| "playlist_step (now, uid, PO_addCollaborator pid u role) db = snd (addCollaborator now pid uid u role db)"
| "playlist_step (now, uid, PO_setRole pid u role) db = snd (updateCollaboratorRole pid uid u role db)"
| "playlist_step (now, uid, PO_removeCollaborator pid u) db = snd (removeCollaborator pid uid u db)"
| "playlist_step (now, uid, PO_follow pid) db = snd (followPlaylist now uid pid db)"
| "playlist_step (now, uid, PO_unfollow pid) db = snd (unfollowPlaylist uid pid db)"

subsection \<open>The invariant\<close>

definition entry_key :: "playlist_song \<Rightarrow> ident \<times> ident" where
  "entry_key e = (pls_playlistId e, pls_songId e)"

definition collaborator_key :: "playlist_collaborator \<Rightarrow> ident \<times> ident" where
  "collaborator_key c = (plc_playlistId c, plc_userId c)"

definition follow_key :: "playlist_follow \<Rightarrow> ident \<times> ident" where
  "follow_key f = (plf_userId f, plf_playlistId f)"

definition rule_ok :: "playlist \<Rightarrow> bool" where
  "rule_ok p \<longleftrightarrow> (pl_isRuleBased p \<longrightarrow>
     (case pl_rule p of Some r \<Rightarrow> has_criteria r \<and> \<not> days_invalid r | None \<Rightarrow> False))"

definition playlists_ok :: "playlist_db \<Rightarrow> bool" where
  "playlists_ok db \<longleftrightarrow>
     list_all rule_ok (pdb_playlists db) \<and> tbl_ok entry_key (pdb_songs db) \<and>
     tbl_ok collaborator_key (pdb_collaborators db) \<and> tbl_ok follow_key (pdb_follows db)"

lemmas access_defs = getOwnedPlaylist_def getEditablePlaylist_def getReadablePlaylist_def

lemma empty_rule_no_criteria: "\<not> has_criteria empty_rule"
  by (simp add: has_criteria_def empty_rule_def some_nonempty_def)

lemma assertValidRule_None_iff:
  "assertValidRule b rule = None \<longleftrightarrow>
     (b \<longrightarrow> (case rule of Some (Some r) \<Rightarrow> has_criteria r \<and> \<not> days_invalid r | _ \<Rightarrow> False))"
  by (simp add: assertValidRule_def Let_def empty_rule_no_criteria split: option.split)

lemma getEditable_find:
  "getEditablePlaylist pid uid db = Inr p \<Longrightarrow>
     find_playlist pid db = Some p \<and> (pl_userId p = uid \<or> isEditorCollaborator pid uid db)"
  by (auto simp: getEditablePlaylist_def split: option.splits if_splits)

lemma getOwned_find:
  "getOwnedPlaylist pid uid db = Inr p \<Longrightarrow> find_playlist pid db = Some p \<and> pl_userId p = uid"
  by (auto simp: getOwnedPlaylist_def split: option.splits if_splits)

lemma update_rule_ok: "update_rule inp p = Inr p' \<Longrightarrow> rule_ok p \<Longrightarrow> rule_ok p'"
proof (cases "in_isRuleBased inp")
  case None
  then show "update_rule inp p = Inr p' \<Longrightarrow> rule_ok p \<Longrightarrow> rule_ok p'"
    by (cases "in_rule inp"; cases "assertValidRule (pl_isRuleBased p) (in_rule inp)")
      (auto simp: update_rule_def rule_ok_def assertValidRule_None_iff split: option.splits)
next
  case (Some b)
  then show "update_rule inp p = Inr p' \<Longrightarrow> rule_ok p \<Longrightarrow> rule_ok p'"
    by (cases b; cases "in_rule inp"; cases "assertValidRule b (in_rule inp)")
      (auto simp: update_rule_def rule_ok_def assertValidRule_None_iff split: option.splits)
qed

lemma set_positions_map:
  "\<exists>f. set_positions pid i sids t = map f t \<and> (\<forall>e. entry_key (f e) = entry_key e) \<and>
       (\<forall>e. pls_playlistId e \<noteq> pid \<longrightarrow> f e = e)"
proof (induction sids arbitrary: i t)
  case Nil
  then show ?case by (auto intro!: exI [of _ id])
next
  case (Cons sid sids)
  let ?g = "\<lambda>e. if is_entry pid sid e then e\<lparr>pls_position := i\<rparr> else e"
  from Cons obtain f where "set_positions pid (i + 1) sids (map ?g t) = map f (map ?g t)"
    and "\<forall>e. entry_key (f e) = entry_key e" and "\<forall>e. pls_playlistId e \<noteq> pid \<longrightarrow> f e = e" by blast
  then show ?case
    by (intro exI [of _ "f \<circ> ?g"]) (auto simp: entry_key_def is_entry_def)
qed

lemma set_positions_ok: "tbl_ok entry_key t \<Longrightarrow> tbl_ok entry_key (set_positions pid i sids t)"
  using set_positions_map [of pid i sids t] by (auto simp: tbl_ok_def comp_def)

lemma tbl_ok_snoc: "tbl_ok key t \<Longrightarrow> (\<forall>x\<in>set t. key x \<noteq> key r) \<Longrightarrow> tbl_ok key (t @ [r])"
  by (auto simp: tbl_ok_def)

lemma create_ok: "playlists_ok db \<Longrightarrow> playlists_ok (snd (create_playlist newId now uid inp db))"
  by (auto simp: create_playlist_def playlists_ok_def rule_ok_def assertValidRule_None_iff Let_def
      split: option.splits)

lemma rules_put:
  "list_all rule_ok t \<Longrightarrow> rule_ok p \<Longrightarrow> list_all rule_ok (tbl_put pl_id p t)"
  using set_tbl_put_subset [of pl_id p t] by (auto simp: list_all_iff)

lemma update_ok:
  assumes "playlists_ok db"
  shows "playlists_ok (snd (update_playlist pid uid inp db))"
proof (cases "getEditablePlaylist pid uid db")
  case (Inl e)
  with assms show ?thesis by (simp add: update_playlist_def)
next
  case (Inr p)
  then have "p \<in> set (pdb_playlists db)"
    by (auto simp: find_playlist_def dest!: getEditable_find tbl_find_SomeD)
  with assms have p: "rule_ok p" by (simp add: playlists_ok_def list_all_iff)
  let ?p1 = "p\<lparr>pl_name := (case in_name inp of Some n \<Rightarrow> js_trim n | None \<Rightarrow> pl_name p),
      pl_description := (case in_description inp of Some d \<Rightarrow> Some (js_trim d) | None \<Rightarrow> pl_description p),
      pl_isPublic := (case in_isPublic inp of Some b \<Rightarrow> b | None \<Rightarrow> pl_isPublic p),
      pl_coverImageUrl := (case in_coverImageUrl inp of Some c \<Rightarrow> Some c | None \<Rightarrow> pl_coverImageUrl p)\<rparr>"
  have "rule_ok ?p1" using p by (simp add: rule_ok_def)
  then have "update_rule inp ?p1 = Inr p' \<Longrightarrow> rule_ok p'" for p' by (rule update_rule_ok [rotated])
  with assms Inr show ?thesis
    by (auto simp: update_playlist_def playlists_ok_def save_playlist_def Let_def intro: rules_put
        split: sum.split)
qed

lemma remove_ok: "playlists_ok db \<Longrightarrow> playlists_ok (snd (remove_playlist pid uid db))"
  by (auto simp: remove_playlist_def playlists_ok_def list_all_iff tbl_simps split: sum.split)

lemma addSong_ok: "playlists_ok db \<Longrightarrow> playlists_ok (snd (addSong now pid uid sid db))"
  by (auto simp: addSong_def playlists_ok_def Let_def entry_key_def is_entry_def tbl_find_None_iff
      intro!: tbl_ok_snoc split: sum.split option.split)

lemma removeSong_ok: "playlists_ok db \<Longrightarrow> playlists_ok (snd (removeSong pid uid sid db))"
  by (auto simp: removeSong_def playlists_ok_def tbl_simps split: sum.split)

lemma reorder_ok: "playlists_ok db \<Longrightarrow> playlists_ok (snd (reorder now pid uid sids db))"
  by (auto simp: reorder_def playlists_ok_def set_positions_ok Let_def split: sum.split)

lemma move_ok: "playlists_ok db \<Longrightarrow> playlists_ok (snd (moveSong now pid uid sid pos db))"
  by (auto simp: moveSong_def playlists_ok_def set_positions_ok Let_def split: sum.split option.split)

lemma collaborators_ok:
  "playlists_ok db \<Longrightarrow> playlists_ok (snd (addCollaborator now pid uid u role db))"
  "playlists_ok db \<Longrightarrow> playlists_ok (snd (updateCollaboratorRole pid uid u role2 db))"
  "playlists_ok db \<Longrightarrow> playlists_ok (snd (removeCollaborator pid uid u db))"
proof -
  have key: "(\<lambda>x. (plc_playlistId x, plc_userId x)) = collaborator_key"
    by (simp add: fun_eq_iff collaborator_key_def)
  show "playlists_ok db \<Longrightarrow> playlists_ok (snd (addCollaborator now pid uid u role db))"
    by (auto simp: addCollaborator_def playlists_ok_def isCollaborator_def find_collaborator_def
        collaborator_key_def tbl_find_None_iff Let_def intro!: tbl_ok_snoc split: sum.split option.split)
  show "playlists_ok db \<Longrightarrow> playlists_ok (snd (updateCollaboratorRole pid uid u role2 db))"
    by (auto simp: updateCollaboratorRole_def playlists_ok_def tbl_simps key Let_def
        split: sum.split option.split)
  show "playlists_ok db \<Longrightarrow> playlists_ok (snd (removeCollaborator pid uid u db))"
    by (auto simp: removeCollaborator_def playlists_ok_def tbl_simps split: option.split)
qed

lemma follows_ok:
  "playlists_ok db \<Longrightarrow> playlists_ok (snd (followPlaylist now uid pid db))"
  "playlists_ok db \<Longrightarrow> playlists_ok (snd (unfollowPlaylist uid pid db))"
  by (auto simp: followPlaylist_def unfollowPlaylist_def playlists_ok_def isFollowing_def follow_key_def
      tbl_find_None_iff tbl_simps Let_def intro!: tbl_ok_snoc split: sum.split)

lemmas playlist_op_ok = create_ok update_ok remove_ok addSong_ok removeSong_ok reorder_ok move_ok
  collaborators_ok follows_ok

lemma playlist_step_ok: "playlists_ok db \<Longrightarrow> playlists_ok (playlist_step r db)"
proof -
  assume ok: "playlists_ok db"
  obtain now uid op where "r = (now, uid, op)" by (cases r)
  with ok show ?thesis by (cases op) (simp_all add: playlist_op_ok)
qed

interpretation plm: machine playlist_step playlists_ok
  by unfold_locales (rule playlist_step_ok)

subsection \<open>Order\<close>

lemma set_positions_index:
  "distinct sids \<Longrightarrow> set_positions pid i sids t =
     map (\<lambda>e. if pls_playlistId e = pid \<and> pls_songId e \<in> set sids
              then e\<lparr>pls_position := i + int (index_in sids (pls_songId e))\<rparr> else e) t"
proof (induction sids arbitrary: i t)
  case (Cons sid sids)
  have "set_positions pid i (sid # sids) t
      = set_positions pid (i + 1) sids (map (\<lambda>e. if is_entry pid sid e then e\<lparr>pls_position := i\<rparr> else e) t)"
    by simp
  also have "\<dots> = map (\<lambda>e. if pls_playlistId e = pid \<and> pls_songId e \<in> set (sid # sids)
              then e\<lparr>pls_position := i + int (index_in (sid # sids) (pls_songId e))\<rparr> else e) t"
    using Cons by (auto simp: is_entry_def index_in_Cons)
  finally show ?case .
qed simp

lemma entries_of_map:
  assumes "\<forall>e. pls_playlistId (f e) = pls_playlistId e"
  shows "entries_of pid (db\<lparr>pdb_songs := map f (pdb_songs db)\<rparr>) = map f (entries_of pid db)"
  using assms by (simp add: entries_of_def filter_map comp_def)

lemma entries_distinct:
  "tbl_ok entry_key (pdb_songs db) \<Longrightarrow> distinct (map pls_songId (entries_of pid db))"
  by (auto simp: tbl_ok_def entries_of_def distinct_map inj_on_def entry_key_def)

text \<open>Writing the positions of a list of all the songs makes that list the order.\<close>

lemma order_after_set_positions:
  assumes "tbl_ok entry_key (pdb_songs db)" and "distinct sids"
    and "set sids = pls_songId ` set (entries_of pid db)"
  defines "db' \<equiv> db\<lparr>pdb_songs := set_positions pid 0 sids (pdb_songs db)\<rparr>"
  shows "map pls_songId (ordered_entries pid db') = sids"
    and "map pls_position (ordered_entries pid db') = map int [0..<length sids]"
    and "pid' \<noteq> pid \<Longrightarrow> entries_of pid' db' = entries_of pid' db"
proof -
  let ?f = "\<lambda>e. if pls_playlistId e = pid \<and> pls_songId e \<in> set sids
              then e\<lparr>pls_position := int (index_in sids (pls_songId e))\<rparr> else e"
  let ?pos = "\<lambda>s. int (index_in sids s)"
  have sp: "set_positions pid 0 sids (pdb_songs db) = map ?f (pdb_songs db)"
    by (simp add: set_positions_index [OF assms(2)])
  have ents: "entries_of q db' = map ?f (entries_of q db)" for q
    unfolding db'_def sp by (rule entries_of_map) simp
  show "pid' \<noteq> pid \<Longrightarrow> entries_of pid' db' = entries_of pid' db"
    unfolding ents by (intro map_idI) (auto simp: entries_of_def)
  have songs: "map pls_songId (entries_of pid db') = map pls_songId (entries_of pid db)"
    unfolding ents by simp
  have pos: "pls_position e = ?pos (pls_songId e)" if "e \<in> set (entries_of pid db')" for e
    using that assms(3) unfolding ents by (auto simp: entries_of_def)
  let ?xs = "ordered_entries pid db'"
  have set_xs: "set ?xs = set (entries_of pid db')" by (simp add: ordered_entries_def)
  have posxs: "map pls_position ?xs = map ?pos (map pls_songId ?xs)"
    using pos set_xs by simp
  have inj: "inj_on ?pos (set sids)"
    using inj_index_in [OF assms(2)] by (auto simp: inj_on_def)
  have songset: "set (map pls_songId ?xs) = set sids"
    using songs assms(3) by (simp add: set_xs) (metis list.set_map)
  have songs_distinct: "distinct (map pls_songId ?xs)"
  proof -
    have "mset (map pls_songId ?xs) = mset (map pls_songId (entries_of pid db'))"
      by (simp add: ordered_entries_def)
    then show ?thesis
      using entries_distinct [OF assms(1), of pid] songs by (metis mset_eq_imp_distinct_iff)
  qed
  have "distinct (map pls_position ?xs)"
    unfolding posxs distinct_map [of ?pos] using songs_distinct inj by (simp only: songset simp_thms)
  then have s1: "sorted_wrt (<) (map ?pos (map pls_songId ?xs))"
    unfolding posxs [symmetric] strict_sorted_iff by (simp add: ordered_entries_def)
  have upt: "map ?pos sids = map int [0..<length sids]"
    using map_index_in [OF assms(2)] by (metis (mono_tags, lifting) map_map comp_apply map_eq_conv)
  have s2: "sorted_wrt (<) (map ?pos sids)"
    unfolding upt by (simp add: sorted_wrt_map strict_sorted_iff [symmetric] del: strict_sorted_iff)
  show order: "map pls_songId ?xs = sids"
    by (rule sorted_wrt_set_unique [OF s1 s2 songset]) (simp only: songset inj)
  show "map pls_position ?xs = map int [0..<length sids]"
    unfolding posxs order by (rule upt)
qed

text \<open>The columns of a playlist's entries; unfolds an entry list given by its songs and positions.\<close>

lemma find_entry_songs:
  "List.find (\<lambda>e. pls_songId e = sid) es = None \<longleftrightarrow> sid \<notin> set (map pls_songId es)"
  "List.find (\<lambda>e. pls_songId e = sid) es = Some e \<Longrightarrow> e \<in> set es \<and> pls_songId e = sid"
  by (induction es) (auto split: if_splits)

lemma map_insert_nth: "map f (insert_nth i x xs) = insert_nth i (f x) (map f xs)"
  by (simp add: insert_nth_def take_map drop_map)

lemma distinct_insert_nth: "distinct xs \<Longrightarrow> x \<notin> set xs \<Longrightarrow> distinct (insert_nth i x xs)"
  unfolding insert_nth_def
  by (auto dest: in_set_takeD in_set_dropD simp: set_take_disj_set_drop_if_distinct)

subsection \<open>Who may change what\<close>

definition can_edit :: "ident \<Rightarrow> ident \<Rightarrow> playlist_db \<Rightarrow> bool" where
  "can_edit uid pid db \<longleftrightarrow>
     (case find_playlist pid db of
        Some p \<Rightarrow> pl_userId p = uid \<or> isEditorCollaborator pid uid db | None \<Rightarrow> False)"

definition owns :: "ident \<Rightarrow> ident \<Rightarrow> playlist_db \<Rightarrow> bool" where
  "owns uid pid db \<longleftrightarrow> (case find_playlist pid db of Some p \<Rightarrow> pl_userId p = uid | None \<Rightarrow> False)"

definition guarded :: "ident \<Rightarrow> playlist_db \<Rightarrow> playlist_db \<Rightarrow> bool" where
  "guarded uid db db' \<longleftrightarrow>
     (\<forall>q. (entries_of q db' \<noteq> entries_of q db \<longrightarrow> can_edit uid q db) \<and>
          (find_playlist q db \<noteq> None \<and> find_playlist q db' \<noteq> find_playlist q db \<longrightarrow> can_edit uid q db) \<and>
          (find_playlist q db \<noteq> None \<and> find_playlist q db' = None \<longrightarrow> owns uid q db) \<and>
          (\<forall>v. find_collaborator q v db' \<noteq> find_collaborator q v db \<longrightarrow>
             owns uid q db \<or> (v = uid \<and> find_collaborator q v db' = None)))"

lemma guarded_refl [simp]: "guarded uid db db"
  by (auto simp: guarded_def)

lemma editable_can_edit: "getEditablePlaylist pid uid db = Inr p \<Longrightarrow> can_edit uid pid db"
  by (auto simp: can_edit_def dest!: getEditable_find)

lemma owned_owns: "getOwnedPlaylist pid uid db = Inr p \<Longrightarrow> owns uid pid db \<and> can_edit uid pid db"
  by (auto simp: owns_def can_edit_def dest!: getOwned_find)

lemma guarded_create: "guarded uid db (snd (create_playlist newId now uid inp db))"
  by (auto simp: create_playlist_def guarded_def entries_of_def find_playlist_def find_collaborator_def
      tbl_find_append Let_def split: option.split)

lemma guarded_save:
  assumes "can_edit uid (pl_id p) db"
  shows "guarded uid db (save_playlist p db)"
proof -
  have "find_playlist q (save_playlist p db) = (if q = pl_id p then Some p else find_playlist q db)" for q
    by (auto simp: find_playlist_def save_playlist_def tbl_simps)
  moreover have "entries_of q (save_playlist p db) = entries_of q db"
    "find_collaborator q v (save_playlist p db) = find_collaborator q v db" for q v
    by (simp_all add: entries_of_def find_collaborator_def save_playlist_def)
  ultimately show ?thesis using assms by (auto simp: guarded_def)
qed

lemma update_rule_id: "update_rule inp p = Inr p' \<Longrightarrow> pl_id p' = pl_id p"
  by (auto simp: update_rule_def Let_def split: option.splits if_splits)

lemma guarded_update: "guarded uid db (snd (update_playlist pid uid inp db))"
proof (cases "getEditablePlaylist pid uid db")
  case (Inl e)
  then show ?thesis by (simp add: update_playlist_def)
next
  case (Inr p)
  then have "pl_id p = pid" by (auto simp: find_playlist_def dest!: getEditable_find tbl_find_SomeD)
  with Inr editable_can_edit [OF Inr] show ?thesis
    by (auto simp: update_playlist_def Let_def dest!: update_rule_id intro!: guarded_save split: sum.split)
qed

lemma guarded_songs:
  assumes "can_edit uid pid db" and "\<And>q. q \<noteq> pid \<Longrightarrow> entries_of q (db\<lparr>pdb_songs := t\<rparr>) = entries_of q db"
  shows "guarded uid db (db\<lparr>pdb_songs := t\<rparr>)"
proof -
  have "can_edit uid q db" if "entries_of q (db\<lparr>pdb_songs := t\<rparr>) \<noteq> entries_of q db" for q
    using that assms by (cases "q = pid") auto
  moreover have "find_playlist q (db\<lparr>pdb_songs := t\<rparr>) = find_playlist q db"
    "find_collaborator q v (db\<lparr>pdb_songs := t\<rparr>) = find_collaborator q v db" for q v
    by (simp_all add: find_playlist_def find_collaborator_def)
  ultimately show ?thesis by (auto simp: guarded_def)
qed

lemma entries_set_positions:
  assumes "q \<noteq> pid"
  shows "entries_of q (db\<lparr>pdb_songs := set_positions pid 0 sids (pdb_songs db)\<rparr>) = entries_of q db"
proof -
  obtain f where f: "set_positions pid 0 sids (pdb_songs db) = map f (pdb_songs db)"
    "\<forall>e. entry_key (f e) = entry_key e" "\<forall>e. pls_playlistId e \<noteq> pid \<longrightarrow> f e = e"
    using set_positions_map by blast
  have "\<forall>e. pls_playlistId (f e) = pls_playlistId e" using f(2) by (simp add: entry_key_def)
  then show ?thesis
    unfolding f(1) using assms f(3) by (subst entries_of_map) (auto simp: entries_of_def intro!: map_idI)
qed

lemma guarded_positions:
  "can_edit uid pid db \<Longrightarrow> guarded uid db (db\<lparr>pdb_songs := set_positions pid 0 sids (pdb_songs db)\<rparr>)"
  by (rule guarded_songs, assumption, rule entries_set_positions)

lemma filter_delete_other:
  "(\<And>x. P x \<Longrightarrow> \<not> Q x) \<Longrightarrow> filter P (tbl_delete Q t) = filter P t"
  unfolding tbl_delete_def by (induction t) auto

lemma guarded_song_ops:
  "guarded uid db (snd (addSong now pid uid sid db))"
  "guarded uid db (snd (removeSong pid uid sid db))"
  "guarded uid db (snd (reorder now pid uid sids db))"
  "guarded uid db (snd (moveSong now pid uid sid pos db))"
proof -
  have del: "entries_of q (db\<lparr>pdb_songs := tbl_delete (is_entry pid sid) (pdb_songs db)\<rparr>) = entries_of q db"
    if "q \<noteq> pid" for q
    using that by (simp add: entries_of_def tbl_delete_def is_entry_def)
      (metis (mono_tags, lifting) filter_cong)
  show "guarded uid db (snd (addSong now pid uid sid db))"
    by (auto simp: addSong_def Let_def entries_of_def intro!: guarded_songs dest: editable_can_edit
        split: sum.split option.split)
  show "guarded uid db (snd (removeSong pid uid sid db))"
    by (auto simp: removeSong_def intro!: guarded_songs del dest: editable_can_edit split: sum.split)
  show "guarded uid db (snd (reorder now pid uid sids db))"
    by (auto simp: reorder_def Let_def intro!: guarded_positions dest: editable_can_edit split: sum.split)
  show "guarded uid db (snd (moveSong now pid uid sid pos db))"
    by (auto simp: moveSong_def Let_def intro!: guarded_positions dest: editable_can_edit
        split: sum.split option.split)
qed

lemma guarded_remove: "guarded uid db (snd (remove_playlist pid uid db))"
proof (cases "getOwnedPlaylist pid uid db")
  case (Inl e)
  then show ?thesis by (simp add: remove_playlist_def)
next
  case (Inr p)
  let ?db = "snd (remove_playlist pid uid db)"
  have "find_playlist q ?db = find_playlist q db" "entries_of q ?db = entries_of q db"
    "find_collaborator q v ?db = find_collaborator q v db" if "q \<noteq> pid" for q v
    using that Inr
    by (auto simp: remove_playlist_def find_playlist_def entries_of_def find_collaborator_def
        tbl_delete_def filter_filter intro!: tbl_find_delete_other [unfolded tbl_delete_def]
        filter_cong)
  with owned_owns [OF Inr] show ?thesis unfolding guarded_def by metis
qed

lemma guarded_collaborators:
  assumes "\<And>q v. find_collaborator q v (db\<lparr>pdb_collaborators := t\<rparr>) \<noteq> find_collaborator q v db \<Longrightarrow>
      owns uid q db \<or> (v = uid \<and> find_collaborator q v (db\<lparr>pdb_collaborators := t\<rparr>) = None)"
  shows "guarded uid db (db\<lparr>pdb_collaborators := t\<rparr>)"
proof -
  have "find_playlist q (db\<lparr>pdb_collaborators := t\<rparr>) = find_playlist q db"
    "entries_of q (db\<lparr>pdb_collaborators := t\<rparr>) = entries_of q db" for q
    by (simp_all add: find_playlist_def entries_of_def)
  with assms show ?thesis by (auto simp: guarded_def)
qed

lemma guarded_owner:
  assumes "owns uid pid db"
    and "\<And>q v. q \<noteq> pid \<Longrightarrow> find_collaborator q v (db\<lparr>pdb_collaborators := t\<rparr>) = find_collaborator q v db"
  shows "guarded uid db (db\<lparr>pdb_collaborators := t\<rparr>)"
proof (rule guarded_collaborators)
  fix q v
  assume "find_collaborator q v (db\<lparr>pdb_collaborators := t\<rparr>) \<noteq> find_collaborator q v db"
  with assms have "q = pid" by blast
  with assms(1) show "owns uid q db \<or>
      (v = uid \<and> find_collaborator q v (db\<lparr>pdb_collaborators := t\<rparr>) = None)" by simp
qed

lemma guarded_addCollaborator: "guarded uid db (snd (addCollaborator now pid uid u role db))"
proof (cases "getOwnedPlaylist pid uid db")
  case (Inl e)
  then show ?thesis by (simp add: addCollaborator_def)
next
  case (Inr p)
  have app: "find_collaborator q v (db\<lparr>pdb_collaborators := pdb_collaborators db @ [c]\<rparr>)
      = find_collaborator q v db" if "q \<noteq> pid" "plc_playlistId c = pid" for q v c
    using that by (simp add: find_collaborator_def tbl_find_append tbl_simps split: option.split)
  from owned_owns [OF Inr] have "owns uid pid db" by simp
  then have "guarded uid db (db\<lparr>pdb_collaborators := pdb_collaborators db @ [c]\<rparr>)"
    if "plc_playlistId c = pid" for c
    by (rule guarded_owner) (simp add: app that)
  with Inr show ?thesis by (simp add: addCollaborator_def Let_def split: option.split)
qed

lemma guarded_setRole: "guarded uid db (snd (updateCollaboratorRole pid uid u role db))"
proof (cases "getOwnedPlaylist pid uid db")
  case (Inl e)
  then show ?thesis by (simp add: updateCollaboratorRole_def)
next
  case (Inr p)
  have put: "find_collaborator q v (db\<lparr>pdb_collaborators :=
        tbl_put (\<lambda>x. (plc_playlistId x, plc_userId x)) c (pdb_collaborators db)\<rparr>)
      = find_collaborator q v db" if "q \<noteq> plc_playlistId c" for q v c
    using that by (simp add: find_collaborator_def) (rule tbl_find_put_update; auto)
  from owned_owns [OF Inr] have "owns uid pid db" by simp
  then have g: "guarded uid db (db\<lparr>pdb_collaborators :=
      tbl_put (\<lambda>x. (plc_playlistId x, plc_userId x)) c (pdb_collaborators db)\<rparr>)"
    if "plc_playlistId c = pid" for c
    by (rule guarded_owner) (simp add: put that)
  show ?thesis
  proof (cases "find_collaborator pid u db")
    case None
    with Inr show ?thesis by (simp add: updateCollaboratorRole_def split: option.split)
  next
    case (Some c)
    then have "plc_playlistId c = pid" by (auto simp: find_collaborator_def dest: tbl_find_SomeD)
    with Inr Some show ?thesis
      by (simp add: updateCollaboratorRole_def Let_def g split: option.split)
  qed
qed

lemma guarded_removeCollaborator: "guarded uid db (snd (removeCollaborator pid uid u db))"
proof (cases "find_playlist pid db")
  case None
  then show ?thesis by (simp add: removeCollaborator_def)
next
  case (Some p)
  have del: "find_collaborator q v (db\<lparr>pdb_collaborators :=
        tbl_delete (\<lambda>c. plc_playlistId c = pid \<and> plc_userId c = u) (pdb_collaborators db)\<rparr>)
      = (if q = pid \<and> v = u then None else find_collaborator q v db)" for q v
    by (auto simp: find_collaborator_def tbl_simps intro: tbl_find_delete_other)
  have "guarded uid db (db\<lparr>pdb_collaborators :=
        tbl_delete (\<lambda>c. plc_playlistId c = pid \<and> plc_userId c = u) (pdb_collaborators db)\<rparr>)"
    if "pl_userId p = uid \<or> uid = u"
    using that Some by (intro guarded_collaborators) (auto simp: del owns_def split: if_splits)
  with Some show ?thesis by (auto simp: removeCollaborator_def)
qed

lemmas guarded_collaborator_ops = guarded_addCollaborator guarded_setRole guarded_removeCollaborator

lemma guarded_follows:
  "guarded uid db (snd (followPlaylist now uid pid db))"
  "guarded uid db (snd (unfollowPlaylist uid pid db))"
  by (auto simp: followPlaylist_def unfollowPlaylist_def guarded_def entries_of_def find_playlist_def
      find_collaborator_def Let_def split: sum.split)

lemmas guarded_ops = guarded_create guarded_update guarded_remove guarded_song_ops
  guarded_collaborator_ops guarded_follows

lemma guarded_step: "guarded uid db (playlist_step (now, uid, op) db)"
  by (cases op) (simp_all add: guarded_ops)

subsection \<open>Only the playlist a request names\<close>

text \<open>The playlist a request is about.\<close>

fun playlist_of :: "playlist_op \<Rightarrow> ident" where
  "playlist_of (PO_create newId inp) = newId"
| "playlist_of (PO_update pid inp) = pid"
| "playlist_of (PO_remove pid) = pid"
| "playlist_of (PO_addSong pid sid) = pid"
| "playlist_of (PO_removeSong pid sid) = pid"
| "playlist_of (PO_reorder pid sids) = pid"
| "playlist_of (PO_move pid sid pos) = pid"
| "playlist_of (PO_addCollaborator pid u role) = pid"
| "playlist_of (PO_setRole pid u role) = pid"
| "playlist_of (PO_removeCollaborator pid u) = pid"
| "playlist_of (PO_follow pid) = pid"
| "playlist_of (PO_unfollow pid) = pid"

text \<open>Everything stored about the playlist \<open>q\<close>: its row, its songs, collaborators and followers.\<close>

definition same_playlist :: "ident \<Rightarrow> playlist_db \<Rightarrow> playlist_db \<Rightarrow> bool" where
  "same_playlist q db db' \<longleftrightarrow>
     find_playlist q db' = find_playlist q db \<and> entries_of q db' = entries_of q db \<and>
     (\<forall>v. find_collaborator q v db' = find_collaborator q v db \<and> isFollowing v q db' = isFollowing v q db)"

lemma same_playlist_refl [simp]: "same_playlist q db db"
  by (simp add: same_playlist_def)

lemma same_songs:
  "entries_of q (db\<lparr>pdb_songs := t\<rparr>) = entries_of q db \<Longrightarrow> same_playlist q db (db\<lparr>pdb_songs := t\<rparr>)"
  by (simp add: same_playlist_def find_playlist_def find_collaborator_def isFollowing_def)

lemma same_save: "pl_id p \<noteq> q \<Longrightarrow> same_playlist q db (save_playlist p db)"
  by (simp add: same_playlist_def save_playlist_def find_playlist_def find_collaborator_def entries_of_def
      isFollowing_def tbl_simps)

lemma same_collaborators:
  "(\<And>v. find_collaborator q v (db\<lparr>pdb_collaborators := t\<rparr>) = find_collaborator q v db) \<Longrightarrow>
   same_playlist q db (db\<lparr>pdb_collaborators := t\<rparr>)"
  by (simp add: same_playlist_def find_playlist_def entries_of_def isFollowing_def)

lemma same_follows:
  "(\<And>v. isFollowing v q (db\<lparr>pdb_follows := t\<rparr>) = isFollowing v q db) \<Longrightarrow>
   same_playlist q db (db\<lparr>pdb_follows := t\<rparr>)"
  by (simp add: same_playlist_def find_playlist_def entries_of_def find_collaborator_def)

lemma tbl_find_snoc: "\<not> p r \<Longrightarrow> tbl_find p (t @ [r]) = tbl_find p t"
  by (induction t) (auto simp: tbl_simps)

lemma same_create: "newId \<noteq> q \<Longrightarrow> same_playlist q db (snd (create_playlist newId now uid inp db))"
  by (simp add: create_playlist_def same_playlist_def entries_of_def find_playlist_def find_collaborator_def
      isFollowing_def tbl_find_snoc Let_def split: option.split)

lemma same_update: "pid \<noteq> q \<Longrightarrow> same_playlist q db (snd (update_playlist pid uid inp db))"
proof (cases "getEditablePlaylist pid uid db")
  case (Inr p)
  then have "pl_id p = pid" by (auto simp: find_playlist_def dest!: getEditable_find tbl_find_SomeD)
  moreover assume "pid \<noteq> q"
  ultimately show ?thesis using Inr
    by (auto simp: update_playlist_def Let_def dest!: update_rule_id intro!: same_save split: sum.split)
qed (simp add: update_playlist_def)

lemma same_remove:
  assumes "pid \<noteq> q"
  shows "same_playlist q db (snd (remove_playlist pid uid db))"
proof -
  have "tbl_find (\<lambda>p. pl_id p = q) (tbl_delete (\<lambda>p. pl_id p = pid) t1) = tbl_find (\<lambda>p. pl_id p = q) t1"
    "filter (\<lambda>e. pls_playlistId e = q) (tbl_delete (\<lambda>e. pls_playlistId e = pid) t2) = filter (\<lambda>e. pls_playlistId e = q) t2"
    "tbl_find (\<lambda>c. plc_playlistId c = q \<and> plc_userId c = v) (tbl_delete (\<lambda>c. plc_playlistId c = pid) t3) =
       tbl_find (\<lambda>c. plc_playlistId c = q \<and> plc_userId c = v) t3"
    "tbl_find (\<lambda>f. plf_userId f = v \<and> plf_playlistId f = q) (tbl_delete (\<lambda>f. plf_playlistId f = pid) t4) =
       tbl_find (\<lambda>f. plf_userId f = v \<and> plf_playlistId f = q) t4"
    for t1 :: "playlist table" and t2 :: "playlist_song table" and t3 :: "playlist_collaborator table" and
      t4 :: "playlist_follow table" and v
    using assms by (intro tbl_find_delete_other filter_delete_other; auto)+
  then show ?thesis
    by (simp add: remove_playlist_def same_playlist_def entries_of_def find_playlist_def find_collaborator_def
        isFollowing_def split: sum.split)
qed

lemma same_song_ops:
  assumes "pid \<noteq> q"
  shows "same_playlist q db (snd (addSong now pid uid sid db))"
    and "same_playlist q db (snd (removeSong pid uid sid db))"
    and "same_playlist q db (snd (reorder now pid uid sids db))"
    and "same_playlist q db (snd (moveSong now pid uid sid pos db))"
proof -
  note pos = same_songs [OF entries_set_positions [OF assms [symmetric]]]
  have "same_playlist q db (db\<lparr>pdb_songs := tbl_delete (is_entry pid sid) (pdb_songs db)\<rparr>)"
    using assms by (intro same_songs) (simp add: entries_of_def, rule filter_delete_other, auto simp: is_entry_def)
  then show "same_playlist q db (snd (removeSong pid uid sid db))"
    by (simp add: removeSong_def split: sum.split)
  show "same_playlist q db (snd (addSong now pid uid sid db))"
    using assms by (auto simp: addSong_def Let_def entries_of_def intro!: same_songs split: sum.split option.split)
  show "same_playlist q db (snd (reorder now pid uid sids db))"
    by (simp add: reorder_def Let_def pos split: sum.split)
  show "same_playlist q db (snd (moveSong now pid uid sid pos db))"
    by (simp add: moveSong_def Let_def pos split: sum.split option.split)
qed

lemma same_collaborator_ops:
  assumes "pid \<noteq> q"
  shows "same_playlist q db (snd (addCollaborator now pid uid u role db))"
    and "same_playlist q db (snd (updateCollaboratorRole pid uid u role' db))"
    and "same_playlist q db (snd (removeCollaborator pid uid u db))"
proof -
  show "same_playlist q db (snd (addCollaborator now pid uid u role db))"
    using assms by (simp add: addCollaborator_def Let_def find_collaborator_def tbl_find_snoc
        same_collaborators split: sum.split option.split)
  have "same_playlist q db (db\<lparr>pdb_collaborators :=
      tbl_put (\<lambda>x. (plc_playlistId x, plc_userId x)) c (pdb_collaborators db)\<rparr>)" if "plc_playlistId c = pid" for c
    using assms that by (intro same_collaborators) (simp add: find_collaborator_def, rule tbl_find_put_update; auto)
  moreover have "plc_playlistId c = pid" if "find_collaborator pid u db = Some c" for c
    using that by (auto simp: find_collaborator_def dest: tbl_find_SomeD)
  ultimately show "same_playlist q db (snd (updateCollaboratorRole pid uid u role' db))"
    by (auto simp: updateCollaboratorRole_def Let_def split: sum.split option.split)
  show "same_playlist q db (snd (removeCollaborator pid uid u db))"
    using assms by (auto simp: removeCollaborator_def find_collaborator_def
        intro!: same_collaborators tbl_find_delete_other split: option.split)
qed

lemma same_follow_ops:
  assumes "pid \<noteq> q"
  shows "same_playlist q db (snd (followPlaylist now uid pid db))"
    and "same_playlist q db (snd (unfollowPlaylist uid pid db))"
proof -
  show "same_playlist q db (snd (followPlaylist now uid pid db))"
    using assms by (simp add: followPlaylist_def Let_def isFollowing_def tbl_find_snoc
        same_follows split: sum.split option.split)
  have "tbl_find (\<lambda>f. plf_userId f = v \<and> plf_playlistId f = q) (tbl_delete (\<lambda>f. plf_userId f = uid \<and> plf_playlistId f = pid) t) =
      tbl_find (\<lambda>f. plf_userId f = v \<and> plf_playlistId f = q) t" for v and t :: "playlist_follow table"
    using assms by (intro tbl_find_delete_other) auto
  then show "same_playlist q db (snd (unfollowPlaylist uid pid db))"
    by (simp add: unfollowPlaylist_def isFollowing_def same_follows)
qed

lemmas same_ops = same_create same_update same_remove same_song_ops same_collaborator_ops same_follow_ops

lemma other_playlists_same: "q \<noteq> playlist_of op \<Longrightarrow> same_playlist q db (playlist_step (now, uid, op) db)"
  by (cases op) (simp_all add: same_ops)

subsection \<open>Properties\<close>

text \<open>
  C37: Only the owner or an editor changes a playlist, and a request changes no other playlist than the
  one it names: in any state and for any request, if the songs of a playlist or its own data differ
  afterwards then the requester owned it or was an editor collaborator; if it is gone the requester
  owned it; a collaborator's row changes only by the owner's request or because that collaborator
  removed itself; and the row, songs, collaborators and followers of every playlist other than the one
  named in the request are as before.
\<close>

theorem playlist_changes_are_authorised:
  "let db' = playlist_step (now, uid, op) db in
     (entries_of q db' \<noteq> entries_of q db \<longrightarrow> can_edit uid q db) \<and>
     (find_playlist q db \<noteq> None \<and> find_playlist q db' \<noteq> find_playlist q db \<longrightarrow> can_edit uid q db) \<and>
     (find_playlist q db \<noteq> None \<and> find_playlist q db' = None \<longrightarrow> owns uid q db) \<and>
     (find_collaborator q v db' \<noteq> find_collaborator q v db \<longrightarrow>
        owns uid q db \<or> (v = uid \<and> find_collaborator q v db' = None)) \<and>
     (q \<noteq> playlist_of op \<longrightarrow>
        find_playlist q db' = find_playlist q db \<and> entries_of q db' = entries_of q db \<and>
        find_collaborator q v db' = find_collaborator q v db \<and> isFollowing v q db' = isFollowing v q db)"
  using guarded_step [of uid db now op] other_playlists_same [of q op db now uid]
  by (simp add: guarded_def same_playlist_def Let_def)

definition plain_input :: "string \<Rightarrow> playlist_input" where
  "plain_input n = \<lparr>in_name = Some n, in_description = None, in_isPublic = None,
     in_coverImageUrl = None, in_isRuleBased = None, in_rule = None\<rparr>"

text \<open>A library of three songs without playlists, and one playlist of user \<open>u\<close> with all three.\<close>

definition empty_library :: playlist_db where
  "empty_library = \<lparr>pdb_playlists = [], pdb_songs = [], pdb_collaborators = [], pdb_follows = [],
     pdb_catalog = map (\<lambda>i. \<lparr>cat_id = i, cat_ready = True, cat_flagged = False, cat_genre = None,
                            cat_tags = [], cat_createdAt = 0\<rparr>) [''a'', ''b'', ''c'']\<rparr>"

definition setup_ops :: "(timestamp \<times> ident \<times> playlist_op) list" where
  "setup_ops = [(1, ''u'', PO_create ''p'' (plain_input ''mix'')), (2, ''u'', PO_addSong ''p'' ''a''),
     (3, ''u'', PO_addSong ''p'' ''b''), (4, ''u'', PO_addSong ''p'' ''c'')]"

definition mix_playlist :: playlist where
  "mix_playlist = \<lparr>pl_id = ''p'', pl_userId = ''u'', pl_name = ''mix'', pl_description = None,
     pl_isPublic = True, pl_coverImageUrl = None, pl_isRuleBased = False, pl_rule = None, pl_createdAt = 1\<rparr>"

definition mix_entry :: "ident \<Rightarrow> int \<Rightarrow> timestamp \<Rightarrow> playlist_song" where
  "mix_entry sid pos t = \<lparr>pls_playlistId = ''p'', pls_songId = sid, pls_position = pos, pls_addedAt = t\<rparr>"

definition mix_db :: playlist_db where
  "mix_db = empty_library\<lparr>pdb_playlists := [mix_playlist],
     pdb_songs := [mix_entry ''a'' 0 2, mix_entry ''b'' 1 3, mix_entry ''c'' 2 4]\<rparr>"

lemma setup_run: "fold playlist_step setup_ops empty_library = mix_db"
  by (simp add: setup_ops_def plain_input_def create_playlist_def truthy_def js_blank_def js_trim_def
      js_space_def assertValidRule_def or_none_def addSong_def getEditablePlaylist_def find_playlist_def
      tbl_simps empty_library_def is_entry_def entries_of_def max_position_def mix_playlist_def
      mix_entry_def mix_db_def Let_def)

lemma mix_access:
  "find_playlist ''p'' mix_db = Some mix_playlist" "\<not> isEditorCollaborator ''p'' ''x'' mix_db"
  by (simp_all add: mix_db_def find_playlist_def mix_playlist_def tbl_simps isEditorCollaborator_def
      empty_library_def)

lemma mix_entries:
  "entries_of ''p'' mix_db = [mix_entry ''a'' 0 2, mix_entry ''b'' 1 3, mix_entry ''c'' 2 4]"
  by (simp add: mix_db_def entries_of_def mix_entry_def)

lemma mix_editable: "getEditablePlaylist ''p'' ''u'' mix_db = Inr mix_playlist"
  by (simp add: getEditablePlaylist_def mix_access) (simp add: mix_playlist_def)

theorem playlist_changes_are_authorised_witness:
  "\<not> can_edit ''x'' ''p'' mix_db \<and>
   entries_of ''p'' (playlist_step (9, ''x'', PO_removeSong ''p'' ''a'') mix_db) = entries_of ''p'' mix_db"
proof -
  have "\<not> can_edit ''x'' ''p'' mix_db"
    by (simp add: can_edit_def mix_access) (simp add: mix_playlist_def)
  with playlist_changes_are_authorised [of 9 "''x''" "PO_removeSong ''p'' ''a''" mix_db "''p''" "''x''"]
  show ?thesis unfolding Let_def by blast
qed

text \<open>
  C38: Whatever is requested, by whomever, every rule-based playlist keeps a rule with at least one
  criterion and a positive whole number of days if any, a song is in a playlist at most once, and a
  user collaborates on or follows a playlist at most once.
\<close>

theorem playlists_stay_well_formed:
  assumes "playlists_ok db"
  shows "let db' = fold playlist_step rs db in
     list_all rule_ok (pdb_playlists db') \<and> distinct (map entry_key (pdb_songs db')) \<and>
     distinct (map collaborator_key (pdb_collaborators db')) \<and> distinct (map follow_key (pdb_follows db'))"
proof -
  have "playlists_ok (fold playlist_step rs db)" using assms by (rule plm.run_ok)
  then show ?thesis by (simp add: playlists_ok_def tbl_ok_def Let_def)
qed

lemma empty_library_ok: "playlists_ok empty_library"
  by (simp add: playlists_ok_def empty_library_def tbl_simps)

theorem playlists_stay_well_formed_witness:
  "distinct (map entry_key (pdb_songs mix_db)) \<and> fold playlist_step setup_ops empty_library = mix_db"
  using playlists_stay_well_formed [OF empty_library_ok, of setup_ops] by (simp add: setup_run Let_def)

lemma mix_db_ok: "playlists_ok mix_db"
  unfolding setup_run [symmetric] by (rule plm.run_ok [OF empty_library_ok])

text \<open>
  Reordering with the ids of all the songs of a playlist puts them in exactly that order, at the
  positions from 0 on, and leaves every other playlist as it is.
\<close>

theorem reorder_sets_order:
  assumes "playlists_ok db" and "getEditablePlaylist pid uid db = Inr p" and "\<not> pl_isRuleBased p"
    and "distinct sids" and "sids \<noteq> []" and "set sids = pls_songId ` set (entries_of pid db)"
  shows "let db' = snd (reorder now pid uid sids db) in
     map pls_songId (ordered_entries pid db') = sids \<and>
     map pls_position (ordered_entries pid db') = map int [0..<length sids] \<and>
     (\<forall>q. q \<noteq> pid \<longrightarrow> entries_of q db' = entries_of q db)"
proof -
  have "filter (\<lambda>sid. sid \<notin> pls_songId ` set (entries_of pid db)) sids = []"
    using assms(6) by (auto simp: filter_empty_conv)
  with assms(2,3,5) have "snd (reorder now pid uid sids db)
      = db\<lparr>pdb_songs := set_positions pid 0 sids (pdb_songs db)\<rparr>"
    by (simp add: reorder_def Let_def)
  with order_after_set_positions [of db sids pid] assms show ?thesis
    by (simp add: playlists_ok_def Let_def)
qed

theorem reorder_sets_order_witness:
  "map pls_songId (ordered_entries ''p'' (snd (reorder 9 ''p'' ''u'' [''c'', ''a'', ''b''] mix_db)))
     = [''c'', ''a'', ''b'']"
  using reorder_sets_order [OF mix_db_ok mix_editable, of "[''c'', ''a'', ''b'']" 9]
  by (simp add: mix_entries mix_playlist_def mix_entry_def insert_commute Let_def)

text \<open>
  Moving a song to a position other than the one it is stored at takes it out of the order and
  puts it back at that index, the last one when the position is too large; all positions are then
  those from 0 on, and every other playlist is as it was.
\<close>

theorem moveSong_moves:
  assumes "playlists_ok db" and "getEditablePlaylist pid uid db = Inr p" and "\<not> pl_isRuleBased p"
    and "List.find (\<lambda>e. pls_songId e = sid) (ordered_entries pid db) = Some entry" and "0 \<le> newPosition"
    and "min newPosition (int (length (ordered_entries pid db)) - 1) \<noteq> pls_position entry"
  shows "let db' = snd (moveSong now pid uid sid newPosition db);
        old = map pls_songId (ordered_entries pid db);
        target = min (nat newPosition) (length old - 1) in
     map pls_songId (ordered_entries pid db') = insert_nth target sid (filter (\<lambda>s. s \<noteq> sid) old) \<and>
     map pls_position (ordered_entries pid db') = map int [0..<length old] \<and>
     (\<forall>q. q \<noteq> pid \<longrightarrow> entries_of q db' = entries_of q db)"
proof -
  let ?es = "ordered_entries pid db"
  let ?old = "map pls_songId ?es"
  let ?rest = "filter (\<lambda>s. s \<noteq> sid) ?old"
  let ?target = "min (nat newPosition) (length ?old - 1)"
  let ?new = "insert_nth ?target sid ?rest"
  have entry: "entry \<in> set ?es" "pls_songId entry = sid" using find_entry_songs(2) [OF assms(4)] by simp_all
  then have "sid \<in> set ?old" and "0 < length ?es" by auto
  have target: "nat (min newPosition (int (length ?es) - 1)) = ?target"
    using assms(5) \<open>0 < length ?es\<close> by (simp add: min_def nat_diff_distrib')
  have songs: "map pls_songId (insert_nth ?target entry (filter (\<lambda>e. pls_songId e \<noteq> sid) ?es)) = ?new"
    by (simp add: map_insert_nth entry(2) filter_map comp_def)
  have ok: "tbl_ok entry_key (pdb_songs db)" using assms(1) by (simp add: playlists_ok_def)
  have "mset ?old = mset (map pls_songId (entries_of pid db))" by (simp add: ordered_entries_def)
  with entries_distinct [OF ok] have dist: "distinct ?old" by (metis mset_eq_imp_distinct_iff)
  then have "distinct ?new" by (intro distinct_insert_nth) auto
  moreover have "set ?new = pls_songId ` set (entries_of pid db)"
    using \<open>sid \<in> set ?old\<close> by (auto simp: ordered_entries_def)
  moreover have "length ?new = length ?old"
  proof -
    have "length ?new = card (set ?new)" by (rule distinct_card [OF \<open>distinct ?new\<close>, symmetric])
    also have "set ?new = set ?old" using \<open>sid \<in> set ?old\<close> by auto
    also have "card (set ?old) = length ?old" by (rule distinct_card [OF dist])
    finally show ?thesis .
  qed
  moreover have "snd (moveSong now pid uid sid newPosition db)
      = db\<lparr>pdb_songs := set_positions pid 0 ?new (pdb_songs db)\<rparr>"
    using assms(2-6) songs target by (simp add: moveSong_def Let_def)
  ultimately show ?thesis
    using order_after_set_positions [OF ok, of ?new pid] by (simp add: Let_def)
qed

theorem moveSong_moves_witness:
  "map pls_songId (ordered_entries ''p'' (snd (moveSong 9 ''p'' ''u'' ''a'' 7 mix_db)))
     = [''b'', ''c'', ''a'']"
proof -
  have es: "ordered_entries ''p'' mix_db = [mix_entry ''a'' 0 2, mix_entry ''b'' 1 3, mix_entry ''c'' 2 4]"
    by (simp add: ordered_entries_def mix_entries) (simp add: mix_entry_def)
  show ?thesis
    using moveSong_moves [OF mix_db_ok mix_editable, of "''a''" "mix_entry ''a'' 0 2" 7 9]
    by (simp add: es mix_playlist_def insert_nth_def mix_entry_def Let_def)
qed

text \<open>
  Positions are not compacted after a removal, and the no-op test of a move compares the clamped
  target with the stored position: with songs left at the positions 1 and 2, moving the first one to
  index 1 does nothing.
\<close>

theorem moveSong_ignored_after_removal:
  "let db = snd (removeSong ''p'' ''u'' ''a'' mix_db) in
     map pls_songId (ordered_entries ''p'' db) = [''b'', ''c''] \<and>
     snd (moveSong 9 ''p'' ''u'' ''b'' 1 db) = db"
  by (simp add: removeSong_def mix_editable mix_db_def tbl_simps)
    (simp add: moveSong_def ordered_entries_def entries_of_def tbl_delete_def is_entry_def mix_entry_def
      mix_playlist_def getEditablePlaylist_def find_playlist_def tbl_simps Let_def)

text \<open>
  Reordering with only some of the songs leaves two songs at the same position.
\<close>

theorem reorder_subset_collides:
  "let db = snd (reorder 9 ''p'' ''u'' [''c''] mix_db) in
     map pls_position (filter (\<lambda>e. pls_songId e \<in> {''a'', ''c''}) (entries_of ''p'' db)) = [0, 0]"
  by (simp add: reorder_def mix_editable mix_entries)
    (simp add: mix_playlist_def mix_entry_def mix_db_def entries_of_def is_entry_def Let_def)

end
