(* ===== verification/Subscriptions.thy ===== *)
theory Subscriptions
  imports AppErrors Complex_Main
begin

text \<open>
  Subscriptions: \<open>services/SubscriptionService.ts\<close> over \<open>entities/Subscription.ts\<close>. Every operation
  starts with \<open>getUserSubscription\<close>, a read that also writes: it expires a subscription whose end has
  passed and ends a trial that has elapsed. \<open>now\<close> is the clock of one request.
\<close>

subsection \<open>Entities\<close>

datatype subscription_tier = FREE | ARTIST_PRO | LABEL

datatype subscription_status = SUB_ACTIVE | SUB_CANCELLED | SUB_EXPIRED

record subscription =
  sub_id :: ident
  sub_userId :: ident
  sub_tier :: subscription_tier
  sub_status :: subscription_status
  sub_startDate :: timestamp
  sub_endDate :: "timestamp option"
  sub_trialEndsAt :: "timestamp option"
  sub_createdAt :: timestamp

type_synonym subscription_db = "subscription table"

text \<open>\<open>Object.values(SubscriptionTier)\<close>, and \<open>includes\<close> as the parse of a tier given from outside.\<close>

definition tier_values :: "(string \<times> subscription_tier) list" where
  "tier_values = [(''free'', FREE), (''artist_pro'', ARTIST_PRO), (''label'', LABEL)]"

fun tierHierarchy :: "subscription_tier \<Rightarrow> nat" where
  "tierHierarchy FREE = 0"
| "tierHierarchy ARTIST_PRO = 1"
| "tierHierarchy LABEL = 2"

text \<open>The hierarchy is a linear order, so that the comparisons below are those of the library.\<close>

lemma tierHierarchy_inject [simp]: "tierHierarchy a = tierHierarchy b \<longleftrightarrow> a = b"
  by (cases a; cases b) auto

instantiation subscription_tier :: linorder
begin

definition less_eq_subscription_tier :: "subscription_tier \<Rightarrow> subscription_tier \<Rightarrow> bool" where
  "a \<le> b \<longleftrightarrow> tierHierarchy a \<le> tierHierarchy b"

definition less_subscription_tier :: "subscription_tier \<Rightarrow> subscription_tier \<Rightarrow> bool" where
  "a < b \<longleftrightarrow> tierHierarchy a < tierHierarchy b"

instance
  by standard (auto simp: less_eq_subscription_tier_def less_subscription_tier_def dest: antisym)

end

lemma FREE_le [simp]: "FREE \<le> t"
  by (simp add: less_eq_subscription_tier_def)

lemma le_FREE_iff [simp]: "t \<le> FREE \<longleftrightarrow> t = FREE"
  by (cases t) (auto simp: less_eq_subscription_tier_def)

subsection \<open>Operations\<close>

definition DEFAULT_BILLING_PERIOD_MS :: int where
  "DEFAULT_BILLING_PERIOD_MS = 30 * 24 * 60 * 60 * 1000"

definition is_active :: "ident \<Rightarrow> subscription \<Rightarrow> bool" where
  "is_active uid s \<longleftrightarrow> sub_userId s = uid \<and> sub_status s = SUB_ACTIVE"

text \<open>\<open>findOne\<close> with \<open>order: {createdAt: 'DESC'}\<close>: a newest row, the first of those created together.\<close>

definition find_newest :: "(subscription \<Rightarrow> bool) \<Rightarrow> subscription_db \<Rightarrow> subscription option" where
  "find_newest p db =
     (case filter p db of
        [] \<Rightarrow> None
      | s # ss \<Rightarrow> Some (fold (\<lambda>x m. if sub_createdAt m < sub_createdAt x then x else m) ss s))"

definition save_subscription :: "subscription \<Rightarrow> subscription_db \<Rightarrow> subscription_db" where
  "save_subscription = tbl_put sub_id"

text \<open>\<open>if (s.endDate && new Date() > s.endDate)\<close>\<close>

definition is_expired :: "timestamp \<Rightarrow> subscription \<Rightarrow> bool" where
  "is_expired now s = (case sub_endDate s of None \<Rightarrow> False | Some e \<Rightarrow> e < now)"

definition end_trial :: "subscription \<Rightarrow> timestamp \<Rightarrow> subscription" where
  "end_trial s ended = s\<lparr>
     sub_trialEndsAt := None,
     sub_endDate := (case sub_endDate s of
                       None \<Rightarrow> Some (ended + DEFAULT_BILLING_PERIOD_MS)
                     | Some e \<Rightarrow> Some e)\<rparr>"

definition finalizeTrialTransition :: "subscription \<Rightarrow> subscription_db \<Rightarrow> subscription \<times> subscription_db" where
  "finalizeTrialTransition s db =
     (case sub_trialEndsAt s of
        None \<Rightarrow> (s, db)
      | Some ended \<Rightarrow> let s' = end_trial s ended in (s', save_subscription s' db))"

definition current_subscription :: "timestamp \<Rightarrow> ident \<Rightarrow> subscription_db \<Rightarrow> subscription option \<times> subscription_db" where
  "current_subscription now uid db =
     (case find_newest (is_active uid) db of
        None \<Rightarrow> (None, db)
      | Some s \<Rightarrow>
          if is_expired now s then (None, save_subscription (s\<lparr>sub_status := SUB_EXPIRED\<rparr>) db)
          else (case sub_trialEndsAt s of
                  None \<Rightarrow> (Some s, db)
                | Some t \<Rightarrow>
                    if now < t then (Some s, db)
                    else let (s', db') = finalizeTrialTransition s db in (Some s', db')))"

definition getUserSubscription :: "timestamp \<Rightarrow> ident \<Rightarrow> (subscription_db, subscription option) service" where
  "getUserSubscription now uid db =
     (case validateRequired (Some uid) ''userId'' of
        Some e \<Rightarrow> (Inl e, db)
      | None \<Rightarrow> let (s, db') = current_subscription now uid db in (Inr s, db'))"

definition tier_error :: "string \<Rightarrow> string \<Rightarrow> js_error" where
  "tier_error tier msg = AppErr (AE_validation (''Invalid tier: '' @ tier)
     (ManyDetails [[(''field'', DStr ''tier''), (''message'', DStr msg)]]) None)"

text \<open>\<open>sid\<close> is the uuid the database gives a row that is inserted.\<close>

definition createOrUpgradeSubscription ::
  "timestamp \<Rightarrow> ident \<Rightarrow> ident \<Rightarrow> string \<Rightarrow> timestamp option \<Rightarrow> (subscription_db, subscription) service" where
  "createOrUpgradeSubscription now sid uid raw_tier endDate db =
     (case (validateRequired (Some uid) ''userId'', validateRequired (Some raw_tier) ''tier'') of
        (Some e, _) \<Rightarrow> (Inl e, db)
      | (None, Some e) \<Rightarrow> (Inl e, db)
      | (None, None) \<Rightarrow>
          (case map_of tier_values raw_tier of
             None \<Rightarrow> (Inl (tier_error raw_tier
                        (''Tier must be one of: '' @ join_with '', '' (map fst tier_values))), db)
           | Some tier \<Rightarrow>
               (case getUserSubscription now uid db of
                  (Inl e, db1) \<Rightarrow> (Inl e, db1)
                | (Inr (Some s), db1) \<Rightarrow>
                    let s' = s\<lparr>sub_tier := tier,
                               sub_endDate := (case endDate of None \<Rightarrow> sub_endDate s | Some e \<Rightarrow> Some e)\<rparr>
                    in (Inr s', save_subscription s' db1)
                | (Inr None, db1) \<Rightarrow>
                    let s = \<lparr>sub_id = sid, sub_userId = uid, sub_tier = tier, sub_status = SUB_ACTIVE,
                             sub_startDate = now, sub_endDate = endDate, sub_trialEndsAt = None,
                             sub_createdAt = now\<rparr>
                    in insert_row sub_id s db1)))"

text \<open>
  \<open>trialDays\<close> is a number that may be fractional; \<open>None\<close> stands for \<open>NaN\<close> and the infinities. A date
  keeps the whole milliseconds of its argument.
\<close>

definition startTrial ::
  "timestamp \<Rightarrow> ident \<Rightarrow> ident \<Rightarrow> string \<Rightarrow> rat option \<Rightarrow> (subscription_db, subscription) service" where
  "startTrial now sid uid raw_tier trialDays db =
     (case validateRequired (Some uid) ''userId'' of
        Some e \<Rightarrow> (Inl e, db)
      | None \<Rightarrow>
          (case map_of tier_values raw_tier of
             None \<Rightarrow> (Inl (tier_error raw_tier ''Tier must be a valid subscription tier''), db)
           | Some tier \<Rightarrow>
               (case trialDays of
                  None \<Rightarrow> (Inl (AppErr (AE_validation ''trialDays must be a positive number''
                     (ManyDetails [[(''field'', DStr ''trialDays''),
                       (''message'', DStr ''Trial duration must be greater than zero days'')]]) None)), db)
                | Some days \<Rightarrow>
                    if days \<le> 0
                    then (Inl (AppErr (AE_validation ''trialDays must be a positive number''
                       (ManyDetails [[(''field'', DStr ''trialDays''),
                         (''message'', DStr ''Trial duration must be greater than zero days'')]]) None)), db)
                    else (case getUserSubscription now uid db of
                        (Inl e, db1) \<Rightarrow> (Inl e, db1)
                      | (Inr (Some _), db1) \<Rightarrow>
                          (Inl (AppErr (AE_validation
                             ''Cannot start a trial: user already has an active subscription''
                             (ManyDetails [[(''field'', DStr ''trial''),
                               (''message'', DStr ''An active subscription already exists'')]]) None)), db1)
                      | (Inr None, db1) \<Rightarrow>
                          let s = \<lparr>sub_id = sid, sub_userId = uid, sub_tier = tier, sub_status = SUB_ACTIVE,
                                   sub_startDate = now, sub_endDate = None,
                                   sub_trialEndsAt = Some (now + \<lfloor>days * 24 * 60 * 60 * 1000\<rfloor>),
                                   sub_createdAt = now\<rparr>
                          in insert_row sub_id s db1))))"

definition isInTrial :: "timestamp \<Rightarrow> ident \<Rightarrow> (subscription_db, bool) service" where
  "isInTrial now uid db =
     (case getUserSubscription now uid db of
        (Inl e, db') \<Rightarrow> (Inl e, db')
      | (Inr None, db') \<Rightarrow> (Inr False, db')
      | (Inr (Some s), db') \<Rightarrow>
          (Inr (case sub_trialEndsAt s of None \<Rightarrow> False | Some t \<Rightarrow> now < t), db'))"

definition cancelSubscription :: "timestamp \<Rightarrow> ident \<Rightarrow> (subscription_db, subscription) service" where
  "cancelSubscription now uid db =
     (case validateRequired (Some uid) ''userId'' of
        Some e \<Rightarrow> (Inl e, db)
      | None \<Rightarrow>
          (case getUserSubscription now uid db of
             (Inl e, db') \<Rightarrow> (Inl e, db')
           | (Inr None, db') \<Rightarrow> (Inl (AppErr (AE_notFound ''No active subscription found'' NoDetails None)), db')
           | (Inr (Some s), db') \<Rightarrow>
               let s' = s\<lparr>sub_status := SUB_CANCELLED\<rparr> in (Inr s', save_subscription s' db')))"

definition hasTierAccess :: "timestamp \<Rightarrow> ident \<Rightarrow> subscription_tier \<Rightarrow> (subscription_db, bool) service" where
  "hasTierAccess now uid required db =
     (case getUserSubscription now uid db of
        (Inl e, db') \<Rightarrow> (Inl e, db')
      | (Inr None, db') \<Rightarrow> (Inr (required = FREE), db')
      | (Inr (Some s), db') \<Rightarrow> (Inr (tierHierarchy required \<le> tierHierarchy (sub_tier s)), db'))"

subsection \<open>The service as a machine\<close>

datatype subscription_op =
    SO_get ident
  | SO_upgrade ident ident string "timestamp option"
  | SO_trial ident ident string "rat option"
  | SO_isInTrial ident
  | SO_cancel ident
  | SO_access ident subscription_tier

fun subscription_step :: "timestamp \<times> subscription_op \<Rightarrow> subscription_db \<Rightarrow> subscription_db" where
  "subscription_step (now, SO_get uid) db = snd (getUserSubscription now uid db)"
| "subscription_step (now, SO_upgrade sid uid tier e) db =
     snd (createOrUpgradeSubscription now sid uid tier e db)"
| "subscription_step (now, SO_trial sid uid tier days) db = snd (startTrial now sid uid tier days db)"
| "subscription_step (now, SO_isInTrial uid) db = snd (isInTrial now uid db)"
| "subscription_step (now, SO_cancel uid) db = snd (cancelSubscription now uid db)"
| "subscription_step (now, SO_access uid t) db = snd (hasTierAccess now uid t db)"

subsection \<open>The invariant and the abstract reading\<close>

definition active_of :: "ident \<Rightarrow> subscription_db \<Rightarrow> subscription list" where
  "active_of uid db = filter (is_active uid) db"

definition subs_ok :: "subscription_db \<Rightarrow> bool" where
  "subs_ok db \<longleftrightarrow> tbl_ok sub_id db \<and> list_all (\<lambda>s. length (active_of (sub_userId s) db) \<le> 1) db"

text \<open>The tier a user is entitled to: that of an active subscription that has not expired.\<close>

definition entitled :: "timestamp \<Rightarrow> ident \<Rightarrow> subscription_db \<Rightarrow> subscription_tier" where
  "entitled now uid db =
     (case active_of uid db of
        [] \<Rightarrow> FREE
      | s # _ \<Rightarrow> if is_expired now s then FREE else sub_tier s)"

lemma subs_ok_iff: "subs_ok db \<longleftrightarrow> tbl_ok sub_id db \<and> (\<forall>uid. length (active_of uid db) \<le> 1)"
proof -
  have "length (active_of uid db) \<le> 1" if "\<forall>s\<in>set db. length (active_of (sub_userId s) db) \<le> 1" for uid
  proof (cases "active_of uid db")
    case (Cons s ss)
    then have "s \<in> set (active_of uid db)" by simp
    then have "s \<in> set db" "sub_userId s = uid" by (auto simp: active_of_def is_active_def)
    with that show ?thesis by auto
  qed simp
  then show ?thesis by (auto simp: subs_ok_def list_all_iff)
qed

lemma active_of_Nil_or_single:
  assumes "subs_ok db"
  shows "active_of uid db = [] \<or> (\<exists>s. active_of uid db = [s])"
proof -
  have "length (active_of uid db) \<le> 1" using assms by (simp add: subs_ok_iff)
  then show ?thesis by (cases "active_of uid db") auto
qed

text \<open>Saving a changed row: the lists of active rows afterwards.\<close>

lemma active_of_save:
  assumes "subs_ok db" and "active_of uid db = [s]" and "sub_id s' = sub_id s" and "sub_userId s' = sub_userId s"
  shows "active_of u (save_subscription s' db) =
     (if u = uid then (if sub_status s' = SUB_ACTIVE then [s'] else []) else active_of u db)"
    and "tbl_ok sub_id (save_subscription s' db)"
proof -
  from assms(2) obtain us vs where db: "db = us @ s # vs" and others: "\<forall>x\<in>set us. \<not> is_active uid x"
      "filter (is_active uid) vs = []" and s: "is_active uid s"
    unfolding active_of_def filter_eq_Cons_iff by auto
  have put: "save_subscription s' (us @ s # vs) = us @ s' # vs"
    using assms(1,3) by (simp add: save_subscription_def db subs_ok_def tbl_ok_def tbl_put_middle)
  have "filter (is_active uid) us = []" using others(1) by (simp add: filter_empty_conv)
  then show "active_of u (save_subscription s' db) =
     (if u = uid then (if sub_status s' = SUB_ACTIVE then [s'] else []) else active_of u db)"
    using others(2) s assms(4) by (auto simp: put db active_of_def is_active_def)
  show "tbl_ok sub_id (save_subscription s' db)"
    using assms(1) by (simp add: save_subscription_def subs_ok_def tbl_simps)
qed

lemma save_ok:
  assumes "subs_ok db" and "active_of uid db = [s]" and "sub_id s' = sub_id s" and "sub_userId s' = sub_userId s"
  shows "subs_ok (save_subscription s' db)"
  using active_of_save [OF assms] assms(1) by (auto simp: subs_ok_iff)

lemma find_newest_active:
  "subs_ok db \<Longrightarrow> find_newest (is_active uid) db = (case active_of uid db of [] \<Rightarrow> None | s # _ \<Rightarrow> Some s)"
  using active_of_Nil_or_single [of db uid] by (auto simp: find_newest_def active_of_def)

lemma insert_active_ok:
  assumes "subs_ok db" and "active_of (sub_userId s) db = []"
  shows "subs_ok (snd (insert_row sub_id s db))"
  using assms tbl_ok_insert_row [of sub_id db s]
  by (auto simp: subs_ok_iff insert_row_def active_of_def is_active_def filter_empty_conv split: if_splits)

lemma insert_active:
  assumes "insert_row sub_id s db = (Inr r, db')" and "subs_ok db" and "active_of (sub_userId s) db = []"
    and "sub_status s = SUB_ACTIVE"
  shows "r = s" "subs_ok db'" "active_of u db' = (if u = sub_userId s then [s] else active_of u db)"
proof -
  show "subs_ok db'" using insert_active_ok [OF assms(2,3)] by (simp add: assms(1))
  show "r = s" "active_of u db' = (if u = sub_userId s then [s] else active_of u db)"
    using assms by (auto simp: insert_row_def active_of_def is_active_def split: if_splits)
qed

text \<open>What the read with its two writes does, for the user and for everyone else.\<close>

definition read_result :: "timestamp \<Rightarrow> subscription \<Rightarrow> subscription option" where
  "read_result now s =
     (if is_expired now s then None
      else Some (case sub_trialEndsAt s of
                   None \<Rightarrow> s
                 | Some t \<Rightarrow> if now < t then s else end_trial s t))"

lemma end_trial_simps [simp]:
  "sub_id (end_trial s t) = sub_id s" "sub_userId (end_trial s t) = sub_userId s"
  "sub_tier (end_trial s t) = sub_tier s" "sub_status (end_trial s t) = sub_status s"
  "sub_trialEndsAt (end_trial s t) = None"
  by (simp_all add: end_trial_def)

lemma read_result_Some:
  assumes "read_result now s = Some s'"
  shows "sub_id s' = sub_id s" "sub_userId s' = sub_userId s" "sub_tier s' = sub_tier s"
    "sub_status s' = sub_status s"
  using assms by (auto simp: read_result_def split: if_splits option.splits)

lemma current_subscription_spec:
  assumes "subs_ok db"
  shows "fst (current_subscription now uid db)
      = (case active_of uid db of [] \<Rightarrow> None | s # _ \<Rightarrow> read_result now s)" (is ?res)
    and "active_of u (snd (current_subscription now uid db)) =
      (if u = uid then (case active_of uid db of [] \<Rightarrow> [] | s # _ \<Rightarrow>
         (case read_result now s of None \<Rightarrow> [] | Some s' \<Rightarrow> [s'])) else active_of u db)" (is ?act)
    and "subs_ok (snd (current_subscription now uid db))" (is ?ok)
proof -
  have "?res \<and> ?act \<and> ?ok"
  proof (cases "active_of uid db")
    case Nil
    with assms show ?thesis by (simp add: current_subscription_def find_newest_active)
  next
    case (Cons s ss)
    with active_of_Nil_or_single [OF assms, of uid] have act: "active_of uid db = [s]" by auto
    have "s \<in> set (active_of uid db)" by (simp add: act)
    then have s: "sub_userId s = uid" "sub_status s = SUB_ACTIVE" by (auto simp: active_of_def is_active_def)
    note save = active_of_save [OF assms act] save_ok [OF assms act]
    show ?thesis using s assms
      by (auto simp: current_subscription_def find_newest_active act read_result_def
          finalizeTrialTransition_def save Let_def split: option.split)
  qed
  then show ?res ?act ?ok by blast+
qed

lemma active_row: "active_of uid db = s # ss \<Longrightarrow> sub_userId s = uid \<and> sub_status s = SUB_ACTIVE"
proof -
  assume "active_of uid db = s # ss"
  then have "s \<in> set (active_of uid db)" by simp
  then show ?thesis by (auto simp: active_of_def is_active_def)
qed

lemma entitled_current:
  "subs_ok db \<Longrightarrow> entitled now uid db =
     (case fst (current_subscription now uid db) of None \<Rightarrow> FREE | Some s \<Rightarrow> sub_tier s)"
  by (auto simp: entitled_def current_subscription_spec read_result_def split: list.split option.split)

text \<open>The result of the read is the only active row of its user.\<close>

lemma current_Some:
  assumes "subs_ok db" and "current_subscription now uid db = (Some s, db')"
  shows "subs_ok db'" "active_of uid db' = [s]" "sub_userId s = uid" "sub_status s = SUB_ACTIVE"
    "u \<noteq> uid \<Longrightarrow> active_of u db' = active_of u db"
proof -
  note spec = current_subscription_spec [OF assms(1), where now = now and uid = uid, unfolded assms(2), simplified]
  show "subs_ok db'" by (rule spec(3))
  show "u \<noteq> uid \<Longrightarrow> active_of u db' = active_of u db" by (simp add: spec(2))
  show act: "active_of uid db' = [s]"
    using spec(1) [symmetric] by (auto simp: spec(2) split: list.splits)
  then show "sub_userId s = uid" "sub_status s = SUB_ACTIVE" using active_row by blast+
qed

lemma current_None:
  assumes "subs_ok db" and "current_subscription now uid db = (None, db')"
  shows "subs_ok db'" "active_of uid db' = []" "u \<noteq> uid \<Longrightarrow> active_of u db' = active_of u db"
proof -
  note spec = current_subscription_spec [OF assms(1), where now = now and uid = uid, unfolded assms(2), simplified]
  show "subs_ok db'" by (rule spec(3))
  show "u \<noteq> uid \<Longrightarrow> active_of u db' = active_of u db" by (simp add: spec(2))
  show "active_of uid db' = []" using spec(1) [symmetric] by (auto simp: spec(2) split: list.splits)
qed

lemma validateRequired_None_iff [simp]: "validateRequired (Some v) f = None \<longleftrightarrow> v \<noteq> []"
  by (simp add: validateRequired_def truthy_def)

lemma getUserSubscription_eq:
  "uid \<noteq> [] \<Longrightarrow> getUserSubscription now uid db =
     (Inr (fst (current_subscription now uid db)), snd (current_subscription now uid db))"
  by (simp add: getUserSubscription_def validateRequired_def truthy_def case_prod_unfold Let_def)

text \<open>Every operation starts with the read, so its cases are those of the read.\<close>

lemma get_cases [consumes 1, case_names error none some]:
  assumes "subs_ok db"
  obtains e where "getUserSubscription now uid db = (Inl e, db)" "uid = []"
  | db' where "getUserSubscription now uid db = (Inr None, db')" "uid \<noteq> []" "subs_ok db'" "active_of uid db' = []"
      "\<And>u. u \<noteq> uid \<Longrightarrow> active_of u db' = active_of u db" "\<And>t. t = now \<Longrightarrow> entitled t uid db = FREE"
  | s db' where "getUserSubscription now uid db = (Inr (Some s), db')" "uid \<noteq> []" "subs_ok db'"
      "active_of uid db' = [s]" "sub_userId s = uid" "sub_status s = SUB_ACTIVE"
      "\<And>u. u \<noteq> uid \<Longrightarrow> active_of u db' = active_of u db" "\<And>t. t = now \<Longrightarrow> entitled t uid db = sub_tier s"
proof (cases "uid = []")
  case True
  then have "getUserSubscription now uid db
      = (Inl (the (validateRequired (Some uid) ''userId'')), db)"
    by (simp add: getUserSubscription_def validateRequired_def truthy_def)
  with True that(1) show ?thesis by blast
next
  case False
  obtain r db' where cur: "current_subscription now uid db = (r, db')" by fastforce
  then have get: "getUserSubscription now uid db = (Inr r, db')"
    using False by (simp add: getUserSubscription_eq)
  show ?thesis
  proof (cases r)
    case None
    note cur' = cur [unfolded None]
    show ?thesis
      by (rule that(2) [OF get [unfolded None] False current_None(1,2) [OF assms cur']])
        (simp_all add: current_None(3) [OF assms cur'] entitled_current [OF assms] cur')
  next
    case (Some s)
    note cur' = cur [unfolded Some]
    show ?thesis
      by (rule that(3) [OF get [unfolded Some] False current_Some(1-4) [OF assms cur']])
        (simp_all add: current_Some(5) [OF assms cur'] entitled_current [OF assms] cur')
  qed
qed

lemma get_ok: "subs_ok db \<Longrightarrow> subs_ok (snd (getUserSubscription now uid db))"
  by (rule get_cases [of db now uid], assumption) auto

lemma hasTierAccess_ok: "subs_ok db \<Longrightarrow> subs_ok (snd (hasTierAccess now uid t db))"
  by (rule get_cases [of db now uid], assumption) (auto simp: hasTierAccess_def)

lemma isInTrial_ok: "subs_ok db \<Longrightarrow> subs_ok (snd (isInTrial now uid db))"
  by (rule get_cases [of db now uid], assumption) (auto simp: isInTrial_def)

lemma cancelSubscription_ok: "subs_ok db \<Longrightarrow> subs_ok (snd (cancelSubscription now uid db))"
  by (rule get_cases [of db now uid], assumption)
    (auto simp: cancelSubscription_def Let_def split: option.split intro: save_ok)

lemma createOrUpgrade_ok: "subs_ok db \<Longrightarrow> subs_ok (snd (createOrUpgradeSubscription now sid uid raw e db))"
  by (rule get_cases [of db now uid], assumption)
    (auto simp: createOrUpgradeSubscription_def Let_def split: option.split intro!: save_ok insert_active_ok)

lemma startTrial_ok: "subs_ok db \<Longrightarrow> subs_ok (snd (startTrial now sid uid raw days db))"
  by (rule get_cases [of db now uid], assumption)
    (auto simp: startTrial_def Let_def split: option.split intro!: insert_active_ok)

lemmas subscription_op_ok = get_ok hasTierAccess_ok isInTrial_ok cancelSubscription_ok createOrUpgrade_ok startTrial_ok

interpretation subm: machine subscription_step subs_ok
proof unfold_locales
  fix db :: subscription_db and r :: "timestamp \<times> subscription_op"
  assume "subs_ok db"
  moreover obtain now op where "r = (now, op)" by (cases r)
  ultimately show "subs_ok (subscription_step r db)" by (cases op) (simp_all add: subscription_op_ok)
qed

subsection \<open>Properties\<close>

definition no_subscriptions :: subscription_db where
  "no_subscriptions = []"

definition trial_row :: subscription where
  "trial_row = \<lparr>sub_id = ''s'', sub_userId = ''u'', sub_tier = ARTIST_PRO, sub_status = SUB_ACTIVE,
     sub_startDate = 0, sub_endDate = None, sub_trialEndsAt = Some 86400000, sub_createdAt = 0\<rparr>"

lemma no_subscriptions_ok: "subs_ok no_subscriptions"
  by (simp add: no_subscriptions_def subs_ok_def tbl_simps)

lemma trial_row_ok: "subs_ok [trial_row]"
  by (simp add: subs_ok_def tbl_ok_def active_of_def is_active_def trial_row_def)

text \<open>
  Whatever sequence of requests is served, no user has two active subscriptions and the ids of
  the rows are unique.
\<close>

theorem one_active_subscription:
  assumes "subs_ok db"
  shows "length (active_of uid (fold subscription_step ops db)) \<le> 1 \<and>
         tbl_ok sub_id (fold subscription_step ops db)"
  using subm.run_ok [OF assms] by (simp add: subs_ok_iff)

theorem one_active_subscription_witness:
  "length (active_of ''u'' (fold subscription_step
     [(0, SO_trial ''s'' ''u'' ''artist_pro'' (Some 1)), (5, SO_upgrade ''t'' ''u'' ''label'' None)]
     no_subscriptions)) \<le> 1"
  using one_active_subscription [OF no_subscriptions_ok] by blast

lemma access_eq:
  assumes "subs_ok db" and "uid \<noteq> []"
  shows "fst (hasTierAccess now uid required db) = Inr (required \<le> entitled now uid db)"
  using assms
  by (cases rule: get_cases [of db now uid]) (auto simp: hasTierAccess_def less_eq_subscription_tier_def [symmetric])

text \<open>
  Feature gating answers exactly whether the required tier is at most the tier the user is
  entitled to: the tier of the active subscription, or the free tier when there is none or it has
  expired.
\<close>

theorem tier_access:
  assumes "subs_ok db" and "uid \<noteq> []"
  shows "fst (hasTierAccess now uid required db) = Inr (required \<le> entitled now uid db)"
  using assms by (rule access_eq)

theorem tier_access_witness:
  "fst (hasTierAccess 7 ''u'' LABEL [trial_row]) = Inr False"
  using tier_access [OF trial_row_ok, of "''u''" 7 LABEL]
  by (simp add: entitled_def active_of_def is_active_def trial_row_def is_expired_def
      less_eq_subscription_tier_def)

text \<open>What a list of active rows says about a user's tier.\<close>

lemma entitled_single: "active_of uid db = [s] \<Longrightarrow> entitled t uid db = (if is_expired t s then FREE else sub_tier s)"
  by (simp add: entitled_def)

lemma entitled_Nil: "active_of uid db = [] \<Longrightarrow> entitled t uid db = FREE"
  by (simp add: entitled_def)

lemma upgrade_effect:
  assumes "subs_ok db" and "createOrUpgradeSubscription now sid uid raw e db = (Inr s, db')"
  shows "subs_ok db' \<and> active_of uid db' = [s] \<and> map_of tier_values raw = Some (sub_tier s) \<and>
    (\<forall>u. u \<noteq> uid \<longrightarrow> active_of u db' = active_of u db)"
  using assms(1)
proof (cases rule: get_cases [of db now uid])
  case (error e)
  then show ?thesis using assms(2) by (auto simp: createOrUpgradeSubscription_def split: option.splits)
next
  case (none db1)
  with assms(2) obtain tier where tier: "map_of tier_values raw = Some tier" and
    ins: "insert_row sub_id \<lparr>sub_id = sid, sub_userId = uid, sub_tier = tier,
      sub_status = SUB_ACTIVE, sub_startDate = now, sub_endDate = e, sub_trialEndsAt = None,
      sub_createdAt = now\<rparr> db1 = (Inr s, db')"
    by (auto simp: createOrUpgradeSubscription_def split: option.splits)
  note row = insert_active [OF ins none(3), simplified, OF none(4)]
  show ?thesis using row(1) row(2) row(3) none(5) tier by simp
next
  case (some s1 db1)
  with assms(2) obtain tier where tier: "map_of tier_values raw = Some tier" and
    s: "s = s1\<lparr>sub_tier := tier, sub_endDate := (case e of None \<Rightarrow> sub_endDate s1 | Some e \<Rightarrow> Some e)\<rparr>"
    and db': "db' = save_subscription s db1"
    by (auto simp: createOrUpgradeSubscription_def Let_def split: option.splits)
  have same: "sub_id s = sub_id s1" "sub_userId s = sub_userId s1" "sub_tier s = tier" "sub_status s = SUB_ACTIVE"
    using some(6) by (simp_all add: s)
  show ?thesis
    using active_of_save(1) [OF some(3,4) same(1,2)] save_ok [OF some(3,4) same(1,2)] some(7) tier same(3,4)
    by (simp add: db')
qed

text \<open>
  A successful create-or-upgrade gives the user at once exactly the requested tier, until the end
  date of the returned row, and changes no other user's entitlement.
\<close>

theorem upgrade_takes_effect:
  assumes "subs_ok db" and "createOrUpgradeSubscription now sid uid raw e db = (Inr s, db')"
  shows "map_of tier_values raw = Some (sub_tier s) \<and>
    (\<forall>t u. entitled t u db' =
       (if u = uid then if is_expired t s then FREE else sub_tier s else entitled t u db))"
proof -
  note eff = upgrade_effect [OF assms]
  then have "entitled t u db' =
      (if u = uid then if is_expired t s then FREE else sub_tier s else entitled t u db)" for t u
    by (simp add: entitled_def)
  with eff show ?thesis by blast
qed

lemma trial_row_read: "getUserSubscription 5 ''u'' [trial_row] = (Inr (Some trial_row), [trial_row])"
  by (simp add: getUserSubscription_eq current_subscription_def find_newest_def)
    (simp add: is_active_def is_expired_def trial_row_def)

theorem upgrade_takes_effect_witness:
  "entitled 9 ''u'' (snd (createOrUpgradeSubscription 5 ''t'' ''u'' ''label'' None [trial_row])) = LABEL"
proof -
  have "createOrUpgradeSubscription 5 ''t'' ''u'' ''label'' None [trial_row]
      = (Inr (trial_row\<lparr>sub_tier := LABEL\<rparr>), [trial_row\<lparr>sub_tier := LABEL\<rparr>])"
    by (simp add: createOrUpgradeSubscription_def validateRequired_def truthy_def tier_values_def
        trial_row_read)
      (simp add: trial_row_def save_subscription_def Let_def)
  with upgrade_takes_effect [OF trial_row_ok this] show ?thesis
    by (simp add: is_expired_def trial_row_def)
qed

text \<open>
  Cancelling takes the tier away at once, whatever is left of the paid period: from the moment of
  the cancellation the user is entitled to the free tier at every time, also before the end date the
  returned row still carries.
\<close>

theorem cancel_revokes_at_once:
  assumes "subs_ok db" and "cancelSubscription now uid db = (Inr s, db')"
  shows "fst (hasTierAccess t uid required db') = Inr (required = FREE) \<and>
    (\<forall>u. u \<noteq> uid \<longrightarrow> entitled t u db' = entitled t u db)"
  using assms(1)
proof (cases rule: get_cases [of db now uid])
  case (some s1 db1)
  with assms(2) have s: "s = s1\<lparr>sub_status := SUB_CANCELLED\<rparr>" and db': "db' = save_subscription s db1"
    by (auto simp: cancelSubscription_def Let_def split: option.splits)
  have same: "sub_id s = sub_id s1" "sub_userId s = sub_userId s1" "sub_status s = SUB_CANCELLED"
    by (simp_all add: s)
  have "subs_ok db'" "active_of uid db' = []" "u \<noteq> uid \<Longrightarrow> active_of u db' = active_of u db" for u
    using active_of_save(1) [OF some(3,4) same(1,2)] save_ok [OF some(3,4) same(1,2)] some(7) same(3)
    by (simp_all add: db')
  with some(2) show ?thesis by (simp add: access_eq entitled_def)
qed (use assms(2) in \<open>auto simp: cancelSubscription_def split: option.splits\<close>)

theorem cancel_revokes_at_once_witness:
  "fst (hasTierAccess 6 ''u'' ARTIST_PRO (snd (cancelSubscription 5 ''u'' [trial_row]))) = Inr False"
proof -
  have "cancelSubscription 5 ''u'' [trial_row]
      = (Inr (trial_row\<lparr>sub_status := SUB_CANCELLED\<rparr>), [trial_row\<lparr>sub_status := SUB_CANCELLED\<rparr>])"
    by (simp add: cancelSubscription_def trial_row_read validateRequired_def truthy_def)
      (simp add: trial_row_def save_subscription_def Let_def)
  from cancel_revokes_at_once [OF trial_row_ok this, of 6 ARTIST_PRO] show ?thesis
    using \<open>cancelSubscription 5 ''u'' [trial_row] = _\<close> by simp
qed

text \<open>What \<open>startTrial\<close> leaves behind.\<close>

lemma trial_effect:
  assumes "subs_ok db" and "startTrial now sid uid raw (Some days) db = (Inr s, db')"
  shows "subs_ok db'" "active_of uid db' = [s]" "sub_endDate s = None" "0 < days" "uid \<noteq> []"
    "sub_trialEndsAt s = Some (now + \<lfloor>days * 24 * 60 * 60 * 1000\<rfloor>)"
proof -
  from assms(1) have "subs_ok db' \<and> active_of uid db' = [s] \<and> sub_endDate s = None \<and> 0 < days \<and> uid \<noteq> [] \<and>
    sub_trialEndsAt s = Some (now + \<lfloor>days * 24 * 60 * 60 * 1000\<rfloor>)"
  proof (cases rule: get_cases [of db now uid])
    case (none db1)
    with assms(2) obtain tier where days: "0 < days" and
      ins: "insert_row sub_id \<lparr>sub_id = sid, sub_userId = uid, sub_tier = tier, sub_status = SUB_ACTIVE,
        sub_startDate = now, sub_endDate = None,
        sub_trialEndsAt = Some (now + \<lfloor>days * 24 * 60 * 60 * 1000\<rfloor>), sub_createdAt = now\<rparr> db1 = (Inr s, db')"
      by (auto simp: startTrial_def split: option.splits if_splits)
    note row = insert_active [OF ins none(3), simplified, OF none(4)]
    show ?thesis using row(1) row(2) row(3) none(2) days by simp
  qed (use assms(2) in \<open>auto simp: startTrial_def split: option.splits if_splits\<close>)
  then show "subs_ok db'" "active_of uid db' = [s]" "sub_endDate s = None" "0 < days" "uid \<noteq> []"
    "sub_trialEndsAt s = Some (now + \<lfloor>days * 24 * 60 * 60 * 1000\<rfloor>)" by blast+
qed

lemma access_after_read:
  "uid \<noteq> [] \<Longrightarrow> snd (hasTierAccess now uid required db) = snd (current_subscription now uid db)"
  by (simp add: hasTierAccess_def getUserSubscription_eq split: option.split)

text \<open>
  During a trial the user has the tier of the trial and no end date, so is not billed. After the
  trial the first check still grants the tier, however late it comes, and makes it a billed period of
  30 days from the end of the trial: so when that period is over as well, the first check grants the
  tier and the second one, at the same time, refuses it.
\<close>

theorem trial_lifecycle:
  assumes "subs_ok db" and "startTrial now sid uid raw (Some days) db = (Inr s, db')"
  shows "let ends = now + \<lfloor>days * 24 * 60 * 60 * 1000\<rfloor>;
       first = (\<lambda>t req. hasTierAccess t uid req db');
       again = (\<lambda>t req. hasTierAccess t uid req (snd (first t req)))
     in sub_endDate s = None \<and>
        (\<forall>t req. fst (first t req) = Inr (req \<le> sub_tier s)) \<and>
        (\<forall>t. fst (isInTrial t uid db') = Inr (t < ends)) \<and>
        (\<forall>t req. fst (again t req) =
           Inr (if t \<le> ends + DEFAULT_BILLING_PERIOD_MS then req \<le> sub_tier s else req = FREE))"
proof -
  let ?ends = "now + \<lfloor>days * 24 * 60 * 60 * 1000\<rfloor>"
  note eff = trial_effect [OF assms]
  have "0 < DEFAULT_BILLING_PERIOD_MS" by (simp add: DEFAULT_BILLING_PERIOD_MS_def)
  note read = current_subscription_spec [OF eff(1), where uid = uid]
  have result: "read_result t s = Some (if t < ?ends then s else end_trial s ?ends)" for t
    using eff(3,6) by (simp add: read_result_def is_expired_def)
  have act: "active_of uid (snd (current_subscription t uid db'))
      = [if t < ?ends then s else end_trial s ?ends]" for t
    by (simp add: read(2) eff(2) result)
  have "entitled t uid (snd (current_subscription t uid db')) =
      (if t \<le> ?ends + DEFAULT_BILLING_PERIOD_MS then sub_tier s else FREE)" for t
    using act [of t] eff(3) \<open>0 < DEFAULT_BILLING_PERIOD_MS\<close>
    by (simp add: entitled_single is_expired_def end_trial_def)
  then have again: "fst (hasTierAccess t uid req (snd (hasTierAccess t uid req db'))) =
      Inr (if t \<le> ?ends + DEFAULT_BILLING_PERIOD_MS then req \<le> sub_tier s else req = FREE)" for t req
    by (simp add: access_after_read [OF eff(5)] access_eq [OF read(3) eff(5)])
  have first: "fst (hasTierAccess t uid req db') = Inr (req \<le> sub_tier s)" for t req
    using eff by (simp add: access_eq entitled_single is_expired_def)
  have "fst (isInTrial t uid db') = Inr (t < ?ends)" for t
    using eff by (simp add: isInTrial_def getUserSubscription_eq read(1) result split: if_splits)
  with again first eff(3) show ?thesis by (simp add: Let_def)
qed

theorem trial_lifecycle_witness:
  "\<exists>db. fst (hasTierAccess 9999999999 ''u'' ARTIST_PRO db) = Inr True \<and>
     fst (hasTierAccess 9999999999 ''u'' ARTIST_PRO (snd (hasTierAccess 9999999999 ''u'' ARTIST_PRO db))) = Inr False"
proof -
  have "startTrial 0 ''s'' ''u'' ''artist_pro'' (Some 1) no_subscriptions = (Inr trial_row, [trial_row])"
    by (simp add: startTrial_def validateRequired_def truthy_def tier_values_def getUserSubscription_eq
        current_subscription_def find_newest_def no_subscriptions_def insert_row_def trial_row_def Let_def)
  from trial_lifecycle [OF no_subscriptions_ok this] show ?thesis
    by (intro exI [of _ "[trial_row]"])
      (simp add: DEFAULT_BILLING_PERIOD_MS_def trial_row_def less_eq_subscription_tier_def Let_def)
qed

end
