(* ===== verification/Moderation.thy ===== *)
theory Moderation
  imports AppErrors
begin

text \<open>
  The moderation state of the songs and bulk moderation: \<open>services/Song/SongModerationService.ts\<close> over
  the columns of \<open>entities/Song.ts\<close>, \<open>entities/ContentReport.ts\<close>, \<open>entities/TakedownRequest.ts\<close> and
  the audit log. Content reports and takedowns, which share this state, are in the theories
  \<open>Content_Reports\<close> and \<open>Takedowns\<close>. Cache invalidation and log lines are left out.
\<close>

subsection \<open>Entities\<close>

datatype song_status = ST_PROCESSING | ST_READY | ST_FAILED

record song_row =
  sg_id :: ident
  sg_status :: song_status
  sg_errorReason :: "string option"
  sg_flagged :: bool
  sg_flaggedAt :: "timestamp option"
  sg_flaggedBy :: "ident option"
  sg_flagReason :: "string option"

datatype report_reason = RR_COPYRIGHT | RR_EXPLICIT | RR_SPAM | RR_OTHER

datatype report_status = RS_PENDING | RS_RESOLVED

datatype report_action = RA_NO_ACTION | RA_SONG_FLAGGED | RA_SONG_REMOVED | RA_DISMISSED

text \<open>The five advisory columns the AI scoring sets together.\<close>

record ai_score =
  ai_severityScore :: int
  ai_suggestedPriority :: string
  ai_categories :: "string list"
  ai_reasoning :: "string option"
  ai_provider :: string

record content_report =
  cr_id :: ident
  cr_songId :: ident
  cr_reporterId :: ident
  cr_reason :: report_reason
  cr_description :: "string option"
  cr_status :: report_status
  cr_actionTaken :: "report_action option"
  cr_resolvedBy :: "ident option"
  cr_resolvedAt :: "timestamp option"
  cr_resolutionNote :: "string option"
  cr_ai :: "ai_score option"
  cr_aiConsent :: bool
  cr_createdAt :: timestamp

datatype takedown_status = TS_PENDING | TS_APPROVED | TS_REJECTED | TS_REVERSED

datatype takedown_reason = TR_COPYRIGHT | TR_TRADEMARK | TR_OTHER

record takedown =
  td_id :: ident
  td_songId :: ident
  td_requestedBy :: ident
  td_reason :: takedown_reason
  td_description :: "string option"
  td_evidenceUrl :: "string option"
  td_status :: takedown_status
  td_reviewedBy :: "ident option"
  td_reviewNotes :: "string option"
  td_previousFlagged :: bool
  td_resolvedAt :: "timestamp option"
  td_createdAt :: timestamp

text \<open>
  The two shapes of an audit entry. \<open>LogEntry\<close> has the four arguments of \<open>createLogEntry\<close>, which sets
  the column \<open>user_id\<close>. \<open>DetailsEntry\<close> is an object \<open>{ userId, action, details }\<close> given to the
  repository as it is; it sets the column \<open>userId\<close> and leaves \<open>user_id\<close> unset.
\<close>

datatype audit_entry =
    LogEntry ident string string string
  | DetailsEntry ident string "(string \<times> string) list"

record moderation_db =
  md_songs :: "song_row table"
  md_reports :: "content_report table"
  md_takedowns :: "takedown table"
  md_audit :: "audit_entry table"

text \<open>
  The column \<open>user_id\<close> of \<open>transactions_logs\<close> is not nullable and has no default, so the database refuses
  every \<open>DetailsEntry\<close>. It may refuse a \<open>LogEntry\<close> too: \<open>refused\<close> gives the error of such an entry. An
  entry that is not refused is appended.
\<close>

type_synonym audit_policy = "audit_entry \<Rightarrow> js_error option"

definition audit_refusal :: "audit_policy \<Rightarrow> audit_entry \<Rightarrow> js_error option" where
  "audit_refusal refused a = (case a of DetailsEntry _ _ _ \<Rightarrow> Some not_null_error | LogEntry _ _ _ _ \<Rightarrow> refused a)"

lemma audit_refusal_simps [simp]:
  "audit_refusal refused (DetailsEntry u what ds) = Some not_null_error"
  "audit_refusal refused (LogEntry u h what d) = refused (LogEntry u h what d)"
  by (simp_all add: audit_refusal_def)

definition write_audit :: "audit_policy \<Rightarrow> audit_entry \<Rightarrow> (moderation_db, unit) service" where
  "write_audit refused a db =
     (case audit_refusal refused a of
        Some e \<Rightarrow> (Inl e, db)
      | None \<Rightarrow> (Inr (), db\<lparr>md_audit := md_audit db @ [a]\<rparr>))"

definition find_song :: "ident \<Rightarrow> moderation_db \<Rightarrow> song_row option" where
  "find_song sid db = tbl_find (\<lambda>s. sg_id s = sid) (md_songs db)"

definition save_song :: "song_row \<Rightarrow> moderation_db \<Rightarrow> moderation_db" where
  "save_song s db = db\<lparr>md_songs := tbl_put sg_id s (md_songs db)\<rparr>"

subsection \<open>Bulk moderation\<close>

datatype bulk_action = BA_APPROVE | BA_REJECT | BA_FLAG_FOR_REVIEW

definition bulk_actions :: "(string \<times> bulk_action) list" where
  "bulk_actions = [(''approve'', BA_APPROVE), (''reject'', BA_REJECT), (''flag_for_review'', BA_FLAG_FOR_REVIEW)]"

definition BULK_MODERATION_MAX_BATCH :: nat where
  "BULK_MODERATION_MAX_BATCH = 50"

record bulk_result =
  br_songId :: ident
  br_success :: bool
  br_status :: "song_status option"
  br_flagged :: "bool option"
  br_reason :: "string option"

record bulk_response =
  bp_action :: bulk_action
  bp_requested :: nat
  bp_succeeded :: nat
  bp_failed :: nat
  bp_results :: "bulk_result list"

text \<open>\<open>raw\<close> is \<open>String(raw ?? '')\<close>.\<close>

definition parse_bulk_action :: "string \<Rightarrow> js_error + bulk_action" where
  "parse_bulk_action raw =
     (case map_of bulk_actions (ascii_lower (js_trim raw)) of
        None \<Rightarrow> Inl (AppErr (AE_validation (''action must be one of: '' @ join_with '', '' (map fst bulk_actions))
          (OneDetail [(''field'', DStr ''action''), (''value'', DStr raw)]) (Some ''INVALID_MODERATION_ACTION'')))
      | Some a \<Rightarrow> Inr a)"

text \<open>\<open>[...new Set(xs)]\<close> keeps the first occurrence of each element.\<close>

definition js_dedup :: "'a list \<Rightarrow> 'a list" where
  "js_dedup xs = rev (remdups (rev xs))"

definition ids_error :: "string \<Rightarrow> js_error" where
  "ids_error msg = AppErr (AE_validation msg (OneDetail [(''field'', DStr ''songIds'')]) (Some ''INVALID_SONG_IDS''))"

text \<open>\<open>None\<close> is a value that is not an array, an element \<open>None\<close> one that is not a string.\<close>

definition parse_song_ids :: "string option list option \<Rightarrow> js_error + ident list" where
  "parse_song_ids raw =
     (case raw of
        None \<Rightarrow> Inl (ids_error ''songIds must be a non-empty array'')
      | Some [] \<Rightarrow> Inl (ids_error ''songIds must be a non-empty array'')
      | Some xs \<Rightarrow>
          if list_ex (\<lambda>x. case x of None \<Rightarrow> True | Some s \<Rightarrow> js_trim s = []) xs
          then Inl (ids_error ''songIds must contain only non-empty strings'')
          else let ids = js_dedup (map (\<lambda>x. js_trim (the x)) xs) in
            if length ids > BULK_MODERATION_MAX_BATCH
            then Inl (AppErr (AE_validation
                   (''Batch size exceeds the maximum of '' @ nat_str BULK_MODERATION_MAX_BATCH @
                    '' songs per request'')
                   (OneDetail [(''field'', DStr ''songIds''), (''value'', DNum (int (length ids)))])
                   (Some ''BATCH_TOO_LARGE'')))
            else Inr ids)"

fun moderated :: "timestamp \<Rightarrow> ident \<Rightarrow> bulk_action \<Rightarrow> song_row \<Rightarrow> song_row" where
  "moderated now admin BA_APPROVE s =
     s\<lparr>sg_flagged := False, sg_flaggedAt := None, sg_flaggedBy := None, sg_flagReason := None\<rparr>"
| "moderated now admin BA_REJECT s =
     s\<lparr>sg_flagged := True, sg_flaggedAt := Some now, sg_flaggedBy := Some admin,
       sg_flagReason := Some ''Rejected by admin moderation'', sg_status := ST_FAILED,
       sg_errorReason := Some ''Rejected by admin moderation''\<rparr>"
| "moderated now admin BA_FLAG_FOR_REVIEW s =
     s\<lparr>sg_flagged := True, sg_flaggedAt := Some now, sg_flaggedBy := Some admin,
       sg_flagReason := Some ''Flagged for review by admin moderation''\<rparr>"

fun bulk_action_name :: "bulk_action \<Rightarrow> string" where
  "bulk_action_name BA_APPROVE = ''approve''"
| "bulk_action_name BA_REJECT = ''reject''"
| "bulk_action_name BA_FLAG_FOR_REVIEW = ''flag_for_review''"

fun bulk_action_upper :: "bulk_action \<Rightarrow> string" where
  "bulk_action_upper BA_APPROVE = ''APPROVE''"
| "bulk_action_upper BA_REJECT = ''REJECT''"
| "bulk_action_upper BA_FLAG_FOR_REVIEW = ''FLAG_FOR_REVIEW''"

definition bulk_entry :: "ident \<Rightarrow> bulk_action \<Rightarrow> ident \<Rightarrow> audit_entry" where
  "bulk_entry admin action sid =
     LogEntry admin '''' (''BULK_MODERATION_'' @ bulk_action_upper action)
       (''Admin '' @ admin @ '' applied '' @ bulk_action_name action @ '' to song '' @ sid)"

definition applyAction ::
  "audit_policy \<Rightarrow> timestamp \<Rightarrow> ident \<Rightarrow> bulk_action \<Rightarrow> song_row \<Rightarrow> (moderation_db, song_row) service" where
  "applyAction refused now admin action song db =
     (if action = BA_APPROVE \<and> sg_status song = ST_PROCESSING
      then (Inl (PlainErr ''Song is still processing and cannot be approved'' None), db)
      else let song' = moderated now admin action song in
        case write_audit refused (bulk_entry admin action (sg_id song)) (save_song song' db) of
          (Inl e, db') \<Rightarrow> (Inl e, db')
        | (Inr _, db') \<Rightarrow> (Inr song', db'))"

text \<open>\<open>err instanceof Error ? err.message : 'Moderation failed'\<close>\<close>

fun failure_reason :: "js_error \<Rightarrow> string" where
  "failure_reason (AppErr e) = ae_message e"
| "failure_reason (PlainErr m _) = m"
| "failure_reason (StringErr _) = ''Moderation failed''"
| "failure_reason OtherErr = ''Moderation failed''"

definition moderate_one ::
  "audit_policy \<Rightarrow> timestamp \<Rightarrow> ident \<Rightarrow> bulk_action \<Rightarrow> song_row option \<Rightarrow> ident \<Rightarrow>
   moderation_db \<Rightarrow> bulk_result \<times> moderation_db" where
  "moderate_one refused now admin action found sid db =
     (case found of
        None \<Rightarrow> (\<lparr>br_songId = sid, br_success = False, br_status = None, br_flagged = None,
                  br_reason = Some ''Song not found''\<rparr>, db)
      | Some song \<Rightarrow>
          (case applyAction refused now admin action song db of
             (Inr song', db') \<Rightarrow>
               (\<lparr>br_songId = sid, br_success = True, br_status = Some (sg_status song'),
                 br_flagged = Some (sg_flagged song'), br_reason = None\<rparr>, db')
           | (Inl e, db') \<Rightarrow>
               (\<lparr>br_songId = sid, br_success = False, br_status = None, br_flagged = None,
                 br_reason = Some (failure_reason e)\<rparr>, db')))"

text \<open>The loop over the ids; \<open>db0\<close> is the database the songs were loaded from.\<close>

fun moderate_loop ::
  "audit_policy \<Rightarrow> timestamp \<Rightarrow> ident \<Rightarrow> bulk_action \<Rightarrow> moderation_db \<Rightarrow> ident list \<Rightarrow>
   moderation_db \<Rightarrow> bulk_result list \<times> moderation_db" where
  "moderate_loop refused now admin action db0 [] db = ([], db)"
| "moderate_loop refused now admin action db0 (sid # ids) db =
     (let (r, db1) = moderate_one refused now admin action (find_song sid db0) sid db;
          (rs, db2) = moderate_loop refused now admin action db0 ids db1
      in (r # rs, db2))"

definition bulkModerate ::
  "audit_policy \<Rightarrow> timestamp \<Rightarrow> string option list option \<Rightarrow> string \<Rightarrow> ident \<Rightarrow>
   (moderation_db, bulk_response) service" where
  "bulkModerate refused now songIds rawAction admin db =
     (case parse_bulk_action rawAction of
        Inl e \<Rightarrow> (Inl e, db)
      | Inr action \<Rightarrow>
          (case parse_song_ids songIds of
             Inl e \<Rightarrow> (Inl e, db)
           | Inr ids \<Rightarrow>
               let (results, db') = moderate_loop refused now admin action db ids db;
                   succeeded = length (filter br_success results)
               in (Inr \<lparr>bp_action = action, bp_requested = length ids, bp_succeeded = succeeded,
                        bp_failed = length ids - succeeded, bp_results = results\<rparr>, db')))"

subsection \<open>The songs table\<close>

interpretation songs: keyed_store sg_id "\<lambda>k. tbl_find (\<lambda>x. sg_id x = k)" "tbl_put sg_id"
  "\<lambda>k. tbl_delete (\<lambda>x. sg_id x = k)" "tbl_ok sg_id"
  by (rule tbl_keyed_store)

lemma find_song_id: "find_song sid db = Some s \<Longrightarrow> sg_id s = sid"
  by (auto simp: find_song_def dest: songs.lookup_key)

lemma find_save_song: "find_song k (save_song s db) = (if k = sg_id s then Some s else find_song k db)"
  by (simp add: find_song_def save_song_def songs.lookup_store)

lemma save_song_frame [simp]:
  "md_reports (save_song s db) = md_reports db" "md_takedowns (save_song s db) = md_takedowns db"
  "md_audit (save_song s db) = md_audit db"
  by (simp_all add: save_song_def)

lemma find_song_frame [simp]:
  "find_song k (db\<lparr>md_audit := a\<rparr>) = find_song k db" "find_song k (db\<lparr>md_reports := r\<rparr>) = find_song k db"
  "find_song k (db\<lparr>md_takedowns := t\<rparr>) = find_song k db"
  by (simp_all add: find_song_def)

lemma bulk_entry_refusal [simp]: "audit_refusal refused (bulk_entry admin action sid) = refused (bulk_entry admin action sid)"
  by (simp add: bulk_entry_def)

lemma moderated_id [simp]: "sg_id (moderated now admin action s) = sg_id s"
  by (cases action) simp_all

subsection \<open>What a batch does\<close>

definition applicable :: "bulk_action \<Rightarrow> song_row \<Rightarrow> bool" where
  "applicable action s \<longleftrightarrow> \<not> (action = BA_APPROVE \<and> sg_status s = ST_PROCESSING)"

definition bulk_effect :: "timestamp \<Rightarrow> ident \<Rightarrow> bulk_action \<Rightarrow> song_row \<Rightarrow> song_row" where
  "bulk_effect now admin action s = (if applicable action s then moderated now admin action s else s)"

lemma moderate_one_spec:
  assumes "find_song sid db = found"
  shows "find_song k (snd (moderate_one refused now admin action found sid db)) =
      (if k = sid then map_option (bulk_effect now admin action) found else find_song k db)"
    and "br_success (fst (moderate_one refused now admin action found sid db)) \<longleftrightarrow>
      (\<exists>s. found = Some s \<and> applicable action s \<and> refused (bulk_entry admin action sid) = None)"
    and "br_songId (fst (moderate_one refused now admin action found sid db)) = sid"
    and "md_audit (snd (moderate_one refused now admin action found sid db)) = md_audit db @
      (if br_success (fst (moderate_one refused now admin action found sid db))
       then [bulk_entry admin action sid] else [])"
    and "md_reports (snd (moderate_one refused now admin action found sid db)) = md_reports db"
    and "md_takedowns (snd (moderate_one refused now admin action found sid db)) = md_takedowns db"
  using assms find_song_id [of sid db]
  by (auto simp: moderate_one_def applyAction_def write_audit_def applicable_def bulk_effect_def
      find_save_song Let_def split: option.split)

lemma moderate_loop_spec:
  assumes "distinct ids" and "\<forall>sid\<in>set ids. find_song sid db = find_song sid db0"
    and "moderate_loop refused now admin action db0 ids db = (rs, db')"
  shows "find_song k db' =
        (if k \<in> set ids then map_option (bulk_effect now admin action) (find_song k db0) else find_song k db) \<and>
      map br_songId rs = ids \<and>
      list_all (\<lambda>r. br_success r \<longleftrightarrow> (\<exists>s. find_song (br_songId r) db0 = Some s \<and> applicable action s \<and>
        refused (bulk_entry admin action (br_songId r)) = None)) rs \<and>
      md_audit db' = md_audit db @ map (\<lambda>r. bulk_entry admin action (br_songId r)) (filter br_success rs) \<and>
      md_reports db' = md_reports db \<and> md_takedowns db' = md_takedowns db"
  using assms
proof (induction ids arbitrary: db rs)
  case (Cons sid ids)
  let ?one = "moderate_one refused now admin action (find_song sid db0) sid db"
  obtain rs1 db1 where "moderate_loop refused now admin action db0 ids (snd ?one) = (rs1, db1)" by fastforce
  then have loop: "moderate_loop refused now admin action db0 ids (snd ?one) = (rs1, db')"
    and rs: "rs = fst ?one # rs1"
    using Cons.prems(3) by (simp_all add: case_prod_unfold Let_def)
  have found: "find_song sid db = find_song sid db0" using Cons.prems(2) by simp
  note one = moderate_one_spec [OF found, where refused = refused and now = now and admin = admin and action = action]
  have "\<forall>i\<in>set ids. find_song i (snd ?one) = find_song i db0"
    using Cons.prems(1,2) by (auto simp: one(1))
  with Cons.IH [OF _ _ loop] Cons.prems(1) show ?case by (auto simp: rs one)
qed simp

lemma js_dedup_props: "distinct (js_dedup xs)" "set (js_dedup xs) = set xs"
  by (simp_all add: js_dedup_def)

lemma parse_song_ids_Inr:
  assumes "parse_song_ids raw = Inr ids"
  shows "distinct ids" "length ids \<le> BULK_MODERATION_MAX_BATCH"
    "set ids = (\<lambda>x. js_trim (the x)) ` set (the raw)"
  using assms by (auto simp: parse_song_ids_def js_dedup_props Let_def split: option.splits list.splits if_splits)

text \<open>
  C20: A batch that is accepted treats each song on its own: every song of the batch that exists and to
  which the action applies gets exactly the action, whatever happens to the others; every id has one
  result, successful exactly when the song exists, the action applies and its audit entry is written;
  the audit log gains one entry per success, and reports, takedowns and other songs are untouched.
\<close>

theorem bulk_moderation_isolates:
  assumes "bulkModerate refused now raw rawAction admin db = (Inr resp, db')"
  shows "\<exists>ids. parse_song_ids raw = Inr ids \<and> length ids \<le> 50 \<and> map br_songId (bp_results resp) = ids \<and>
      (\<forall>k. find_song k db' =
        (if k \<in> set ids then map_option (bulk_effect now admin (bp_action resp)) (find_song k db)
         else find_song k db)) \<and>
      list_all (\<lambda>r. br_success r \<longleftrightarrow> (\<exists>s. find_song (br_songId r) db = Some s \<and> applicable (bp_action resp) s \<and>
        refused (bulk_entry admin (bp_action resp) (br_songId r)) = None)) (bp_results resp) \<and>
      bp_succeeded resp + bp_failed resp = length ids \<and>
      md_audit db' = md_audit db @
        map (\<lambda>r. bulk_entry admin (bp_action resp) (br_songId r)) (filter br_success (bp_results resp)) \<and>
      md_reports db' = md_reports db \<and> md_takedowns db' = md_takedowns db"
proof -
  from assms obtain ids where ids: "parse_song_ids raw = Inr ids"
    and loop: "moderate_loop refused now admin (bp_action resp) db ids db = (bp_results resp, db')"
    and n: "bp_succeeded resp = length (filter br_success (bp_results resp))"
      "bp_failed resp = length ids - length (filter br_success (bp_results resp))"
    by (auto simp: bulkModerate_def Let_def split: sum.splits prod.splits)
  note props = parse_song_ids_Inr [OF ids]
  note spec = moderate_loop_spec [OF props(1) _ loop, simplified]
  have "length (bp_results resp) = length ids" using spec by (metis length_map)
  with n length_filter_le [of br_success "bp_results resp"]
  have "bp_succeeded resp + bp_failed resp = length ids" by simp
  with ids props(2) spec show ?thesis by (auto simp: BULK_MODERATION_MAX_BATCH_def)
qed

text \<open>Two songs for the concrete runs: one ready and flagged, one being processed.\<close>

definition demo_song :: "ident \<Rightarrow> song_status \<Rightarrow> song_row" where
  "demo_song i st = \<lparr>sg_id = i, sg_status = st, sg_errorReason = None, sg_flagged = True,
     sg_flaggedAt = Some 1, sg_flaggedBy = None, sg_flagReason = Some ''spam''\<rparr>"

definition demo_db :: moderation_db where
  "demo_db = \<lparr>md_songs = [demo_song ''a'' ST_READY, demo_song ''b'' ST_PROCESSING],
     md_reports = [], md_takedowns = [], md_audit = []\<rparr>"

theorem bulk_moderation_isolates_witness:
  "find_song ''a'' (snd (bulkModerate (\<lambda>_. None) 5 (Some [Some '' a'', Some ''b'']) ''Approve'' ''adm'' demo_db))
     = Some (moderated 5 ''adm'' BA_APPROVE (demo_song ''a'' ST_READY))"
proof -
  let ?run = "bulkModerate (\<lambda>_. None) 5 (Some [Some '' a'', Some ''b'']) ''Approve'' ''adm'' demo_db"
  have action: "map_option bp_action (case fst ?run of Inl _ \<Rightarrow> None | Inr r \<Rightarrow> Some r) = Some BA_APPROVE"
    by code_simp
  then obtain resp where "fst ?run = Inr resp" and approve: "bp_action resp = BA_APPROVE"
    by (cases "fst ?run") auto
  then have run: "?run = (Inr resp, snd ?run)" by (simp add: prod_eq_iff)
  have "parse_song_ids (Some [Some '' a'', Some ''b'']) = Inr [''a'', ''b'']" by code_simp
  moreover have "find_song ''a'' demo_db = Some (demo_song ''a'' ST_READY)" by code_simp
  moreover have "applicable BA_APPROVE (demo_song ''a'' ST_READY)" by code_simp
  ultimately show ?thesis
    using bulk_moderation_isolates [OF run] approve by (auto simp: bulk_effect_def)
qed

end
