(* ===== verification/Content_Reports.thy ===== *)
theory Content_Reports
  imports Moderation
begin

text \<open>
  Content reports: \<open>services/ReportService.ts\<close>. A listener reports a song at most once; when the number
  of pending reports reaches a threshold the song is flagged, and a moderator resolves the queue. The
  AI scoring, which is advisory, is a parameter that gives a score or fails.
\<close>

subsection \<open>Input\<close>

definition report_reasons :: "(string \<times> report_reason) list" where
  "report_reasons = [(''copyright'', RR_COPYRIGHT), (''explicit'', RR_EXPLICIT), (''spam'', RR_SPAM), (''other'', RR_OTHER)]"

definition report_actions :: "(string \<times> report_action) list" where
  "report_actions = [(''no_action'', RA_NO_ACTION), (''song_flagged'', RA_SONG_FLAGGED),
     (''song_removed'', RA_SONG_REMOVED), (''dismissed'', RA_DISMISSED)]"

fun report_action_str :: "report_action \<Rightarrow> string" where
  "report_action_str RA_NO_ACTION = ''no_action''"
| "report_action_str RA_SONG_FLAGGED = ''song_flagged''"
| "report_action_str RA_SONG_REMOVED = ''song_removed''"
| "report_action_str RA_DISMISSED = ''dismissed''"

text \<open>\<open>raw\<close> is \<open>String(raw ?? '')\<close> in both.\<close>

definition parseReason :: "string \<Rightarrow> js_error + report_reason" where
  "parseReason raw =
     (case map_of report_reasons (ascii_lower (js_trim raw)) of
        None \<Rightarrow> Inl (AppErr (AE_validation (''reason must be one of: '' @ join_with '', '' (map fst report_reasons))
          (OneDetail [(''field'', DStr ''reason''), (''value'', DStr raw)]) (Some ''INVALID_REPORT_REASON'')))
      | Some r \<Rightarrow> Inr r)"

definition parseReportAction :: "string \<Rightarrow> js_error + report_action" where
  "parseReportAction raw =
     (case map_of report_actions (ascii_lower (js_trim raw)) of
        None \<Rightarrow> Inl (AppErr (AE_validation
          (''actionTaken must be one of: '' @ join_with '', '' (map fst report_actions))
          (OneDetail [(''field'', DStr ''actionTaken''), (''value'', DStr raw)]) (Some ''INVALID_REPORT_ACTION'')))
      | Some a \<Rightarrow> Inr a)"

subsection \<open>Submitting\<close>

definition countPendingForSong :: "ident \<Rightarrow> moderation_db \<Rightarrow> nat" where
  "countPendingForSong sid db = tbl_count (\<lambda>r. cr_songId r = sid \<and> cr_status r = RS_PENDING) (md_reports db)"

definition auto_flag :: "timestamp \<Rightarrow> nat \<Rightarrow> song_row \<Rightarrow> song_row" where
  "auto_flag now n s = s\<lparr>sg_flagged := True, sg_flaggedAt := Some now, sg_flaggedBy := None,
     sg_flagReason := Some (''Auto-flagged after '' @ nat_str n @ '' pending content reports'')\<rparr>"

definition applyThreshold :: "nat \<Rightarrow> timestamp \<Rightarrow> song_row \<Rightarrow> nat \<Rightarrow> moderation_db \<Rightarrow> bool \<times> moderation_db" where
  "applyThreshold threshold now song n db =
     (if sg_flagged song \<or> n < threshold then (False, db) else (True, save_song (auto_flag now n song) db))"

text \<open>The provider fails with \<open>None\<close>, which leaves the stored report without a score.\<close>

definition scoreReportWithAI ::
  "(content_report \<Rightarrow> song_row \<Rightarrow> ai_score option) \<Rightarrow> content_report \<Rightarrow> song_row \<Rightarrow>
   moderation_db \<Rightarrow> content_report \<times> moderation_db" where
  "scoreReportWithAI provider report song db =
     (case provider report song of
        None \<Rightarrow> (report, db)
      | Some score \<Rightarrow>
          let report' = report\<lparr>cr_ai := Some score\<rparr>
          in (report', db\<lparr>md_reports := tbl_put cr_id report' (md_reports db)\<rparr>))"

definition same_report :: "ident \<Rightarrow> ident \<Rightarrow> content_report \<Rightarrow> bool" where
  "same_report sid uid r \<longleftrightarrow> cr_songId r = sid \<and> cr_reporterId r = uid"

text \<open>\<open>s?.trim() || null\<close>\<close>

definition trimmed :: "string option \<Rightarrow> string option" where
  "trimmed s = or_none (map_option js_trim s)"

definition new_report ::
  "timestamp \<Rightarrow> ident \<Rightarrow> ident \<Rightarrow> ident \<Rightarrow> report_reason \<Rightarrow> string option \<Rightarrow> bool option \<Rightarrow> content_report" where
  "new_report now rid sid uid reason description aiConsent =
     \<lparr>cr_id = rid, cr_songId = sid, cr_reporterId = uid, cr_reason = reason,
      cr_description = trimmed description, cr_status = RS_PENDING, cr_actionTaken = None,
      cr_resolvedBy = None, cr_resolvedAt = None, cr_resolutionNote = None, cr_ai = None,
      cr_aiConsent = (aiConsent = Some True), cr_createdAt = now\<rparr>"

definition submitReport ::
  "nat \<Rightarrow> (content_report \<Rightarrow> song_row \<Rightarrow> ai_score option) \<Rightarrow> timestamp \<Rightarrow> ident \<Rightarrow> ident \<Rightarrow> ident \<Rightarrow>
   string \<Rightarrow> string option \<Rightarrow> bool option \<Rightarrow> (moderation_db, content_report \<times> bool \<times> nat) service" where
  "submitReport threshold provider now rid sid uid rawReason description aiConsent db =
     (case parseReason rawReason of
        Inl e \<Rightarrow> (Inl e, db)
      | Inr reason \<Rightarrow>
          (case find_song sid db of
             None \<Rightarrow> (Inl (err_notFound ''Song not found'' ''SONG_NOT_FOUND''), db)
           | Some song \<Rightarrow>
               (case tbl_find (same_report sid uid) (md_reports db) of
                  Some _ \<Rightarrow> (Inl (AppErr (AE_conflict ''You have already reported this song'' NoDetails
                                        (Some ''DUPLICATE_REPORT''))), db)
                | None \<Rightarrow>
                    let report = new_report now rid sid uid reason description aiConsent
                    in (case insert_row cr_id report (md_reports db) of
                          (Inl e, _) \<Rightarrow> (Inl e, db)
                        | (Inr _, reports) \<Rightarrow>
                            let db1 = db\<lparr>md_reports := reports\<rparr>;
                                (report', db2) = (if cr_aiConsent report
                                                  then scoreReportWithAI provider report song db1
                                                  else (report, db1));
                                n = countPendingForSong sid db2;
                                (flagged, db3) = applyThreshold threshold now song n db2
                            in (Inr (report', flagged, n), db3)))))"

subsection \<open>Resolving\<close>

definition resolution_flag :: "timestamp \<Rightarrow> ident \<Rightarrow> report_action \<Rightarrow> song_row \<Rightarrow> song_row" where
  "resolution_flag now moderator action s = s\<lparr>sg_flagged := True, sg_flaggedAt := Some now,
     sg_flaggedBy := Some moderator,
     sg_flagReason := Some (''Content report resolution: '' @ report_action_str action)\<rparr>"

definition applyResolutionToSong ::
  "timestamp \<Rightarrow> ident \<Rightarrow> ident \<Rightarrow> report_action \<Rightarrow> moderation_db \<Rightarrow> moderation_db" where
  "applyResolutionToSong now sid moderator action db =
     (case find_song sid db of
        None \<Rightarrow> db
      | Some song \<Rightarrow>
          if action = RA_SONG_FLAGGED \<or> action = RA_SONG_REMOVED
          then save_song (resolution_flag now moderator action song) db
          else if countPendingForSong sid db = 0 \<and> sg_flagged song \<and> sg_flaggedBy song = None
          then save_song (song\<lparr>sg_flagged := False, sg_flaggedAt := None, sg_flagReason := None\<rparr>) db
          else db)"

definition resolve_entry :: "ident \<Rightarrow> ident \<Rightarrow> ident \<Rightarrow> report_action \<Rightarrow> audit_entry" where
  "resolve_entry moderator rid sid action = LogEntry moderator '''' ''REPORT_RESOLVED''
     (''Report '' @ rid @ '' on song '' @ sid @ '' resolved with action '' @ report_action_str action)"

definition resolveReport ::
  "audit_policy \<Rightarrow> timestamp \<Rightarrow> ident \<Rightarrow> ident \<Rightarrow> string \<Rightarrow> string option \<Rightarrow>
   (moderation_db, content_report) service" where
  "resolveReport refused now rid moderator rawAction note db =
     (case parseReportAction rawAction of
        Inl e \<Rightarrow> (Inl e, db)
      | Inr action \<Rightarrow>
          (case tbl_find (\<lambda>r. cr_id r = rid) (md_reports db) of
             None \<Rightarrow> (Inl (err_notFound ''Report not found'' ''REPORT_NOT_FOUND''), db)
           | Some report \<Rightarrow>
               if cr_status report = RS_RESOLVED
               then (Inl (AppErr (AE_conflict ''Report is already resolved'' NoDetails
                                    (Some ''REPORT_ALREADY_RESOLVED''))), db)
               else let report' = report\<lparr>cr_status := RS_RESOLVED, cr_actionTaken := Some action,
                          cr_resolvedBy := Some moderator, cr_resolvedAt := Some now,
                          cr_resolutionNote := trimmed note\<rparr>;
                        db1 = db\<lparr>md_reports := tbl_put cr_id report' (md_reports db)\<rparr>;
                        db2 = applyResolutionToSong now (cr_songId report') moderator action db1
                 in (case write_audit refused (resolve_entry moderator rid (cr_songId report') action) db2 of
                       (Inl e, db3) \<Rightarrow> (Inl e, db3)
                     | (Inr _, db3) \<Rightarrow> (Inr report', db3))))"

subsection \<open>The queue\<close>

record report_page =
  rp_reports :: "content_report list"
  rp_page :: int
  rp_limit :: int
  rp_total :: nat
  rp_totalPages :: int

text \<open>\<open>Math.max(1, Math.floor(page) || 1)\<close> and the same for the limit, on integers.\<close>

definition safe_page :: "int \<Rightarrow> int" where
  "safe_page page = max 1 (if page = 0 then 1 else page)"

definition safe_limit :: "int \<Rightarrow> int" where
  "safe_limit limit = min (max 1 (if limit = 0 then 20 else limit)) 100"

definition listPendingReports :: "int \<Rightarrow> int \<Rightarrow> ident option \<Rightarrow> moderation_db \<Rightarrow> report_page" where
  "listPendingReports page limit sid db =
     (let p = safe_page page; l = safe_limit limit;
          pending = sort_key cr_createdAt (filter (\<lambda>r. cr_status r = RS_PENDING \<and>
            (truthy sid \<longrightarrow> cr_songId r = the sid)) (md_reports db))
      in \<lparr>rp_reports = take (nat l) (drop (nat ((p - 1) * l)) pending), rp_page = p, rp_limit = l,
          rp_total = length pending, rp_totalPages = ceil_div (int (length pending)) l\<rparr>)"

subsection \<open>The invariant\<close>

datatype report_op =
    RO_submit ident ident ident string "string option" "bool option"
  | RO_resolve ident ident string "string option"

text \<open>The threshold, the AI provider and the audit policy are those of the deployment and the moment.\<close>

fun report_step ::
  "nat \<Rightarrow> (content_report \<Rightarrow> song_row \<Rightarrow> ai_score option) \<times> audit_policy \<times> timestamp \<times> report_op \<Rightarrow>
   moderation_db \<Rightarrow> moderation_db" where
  "report_step threshold (provider, refused, now, RO_submit rid sid uid reason d c) db =
     snd (submitReport threshold provider now rid sid uid reason d c db)"
| "report_step threshold (provider, refused, now, RO_resolve rid m action note) db =
     snd (resolveReport refused now rid m action note db)"

definition report_key :: "content_report \<Rightarrow> ident \<times> ident" where
  "report_key r = (cr_songId r, cr_reporterId r)"

definition pending_for :: "ident \<Rightarrow> moderation_db \<Rightarrow> content_report set" where
  "pending_for sid db = {r \<in> set (md_reports db). cr_songId r = sid \<and> cr_status r = RS_PENDING}"

definition reports_ok :: "nat \<Rightarrow> moderation_db \<Rightarrow> bool" where
  "reports_ok threshold db \<longleftrightarrow>
     tbl_ok sg_id (md_songs db) \<and> tbl_ok cr_id (md_reports db) \<and> tbl_ok report_key (md_reports db) \<and>
     list_all (\<lambda>s. \<not> sg_flagged s \<longrightarrow> countPendingForSong (sg_id s) db < threshold) (md_songs db)"

lemma list_all_songs_iff:
  assumes "tbl_ok sg_id (md_songs db)"
  shows "list_all p (md_songs db) \<longleftrightarrow> (\<forall>sid s. find_song sid db = Some s \<longrightarrow> p s)"
proof -
  have "s \<in> set (md_songs db) \<longleftrightarrow> (\<exists>sid. find_song sid db = Some s)" for s
    unfolding find_song_def using tbl_find_key_eq [OF assms] tbl_find_SomeD by metis
  then show ?thesis by (auto simp: list_all_iff)
qed

lemma reports_ok_iff:
  "reports_ok threshold db \<longleftrightarrow>
     tbl_ok sg_id (md_songs db) \<and> tbl_ok cr_id (md_reports db) \<and> tbl_ok report_key (md_reports db) \<and>
     (\<forall>sid s. find_song sid db = Some s \<longrightarrow> \<not> sg_flagged s \<longrightarrow> countPendingForSong sid db < threshold)"
  using list_all_songs_iff [of db] find_song_id by (auto simp: reports_ok_def)

lemma count_is_card: "tbl_ok cr_id (md_reports db) \<Longrightarrow> countPendingForSong sid db = card (pending_for sid db)"
  by (simp add: countPendingForSong_def pending_for_def tbl_count_card)

lemma pending_frame [simp]:
  "countPendingForSong sid (save_song s db) = countPendingForSong sid db"
  "countPendingForSong sid (db\<lparr>md_audit := a\<rparr>) = countPendingForSong sid db"
  "pending_for sid (save_song s db) = pending_for sid db"
  "pending_for sid (db\<lparr>md_audit := a\<rparr>) = pending_for sid db"
  by (simp_all add: countPendingForSong_def pending_for_def)

lemma songs_ok_save [simp]: "tbl_ok sg_id (md_songs db) \<Longrightarrow> tbl_ok sg_id (md_songs (save_song s db))"
  by (simp add: save_song_def tbl_simps)

text \<open>Saving a report under its id: keys, and the pending reports of every song.\<close>

lemma put_report_key_ok:
  assumes "tbl_ok cr_id t" and "tbl_ok report_key t" and "r \<in> set t" and "cr_id r' = cr_id r"
    and "report_key r' = report_key r"
  shows "tbl_ok report_key (tbl_put cr_id r' t)"
  by (rule tbl_put_split [OF assms(1,3,4)]) (use assms(2,5) in \<open>simp add: tbl_ok_def\<close>)

lemma pending_after_put:
  assumes "tbl_ok cr_id (md_reports db)" and "r \<in> set (md_reports db)" and "cr_id r' = cr_id r"
    and "cr_songId r' = cr_songId r"
  shows "pending_for sid (db\<lparr>md_reports := tbl_put cr_id r' (md_reports db)\<rparr>) =
     (if sid = cr_songId r \<and> cr_status r' = RS_PENDING then insert r' (pending_for sid db - {r})
      else pending_for sid db - {r})"
  using assms tbl_ok_unique [OF assms(1)] by (auto simp: pending_for_def set_tbl_put)

lemma new_report_simps [simp]:
  "cr_id (new_report now rid sid uid reason d c) = rid" "cr_status (new_report now rid sid uid reason d c) = RS_PENDING"
  "report_key (new_report now rid sid uid reason d c) = (sid, uid)"
  by (simp_all add: new_report_def report_key_def)

text \<open>Submitting: what a report adds, with or without a score.\<close>

lemma submit_cases:
  assumes "submitReport threshold provider now rid sid uid raw description aiConsent db = (res, db')"
  obtains (refused) e where "res = Inl e" "db' = db"
  | (filed) song r r' flagged db2 where
      "find_song sid db = Some song" "tbl_find (same_report sid uid) (md_reports db) = None"
      "rid \<notin> cr_id ` set (md_reports db)" "cr_id r = rid" "report_key r = (sid, uid)" "cr_status r = RS_PENDING"
      "md_reports db2 = md_reports db @ [r']" "cr_id r' = rid" "report_key r' = (sid, uid)" "cr_status r' = RS_PENDING"
      "md_songs db2 = md_songs db"
      "applyThreshold threshold now song (countPendingForSong sid db2) db2 = (flagged, db')"
      "res = Inr (r', flagged, countPendingForSong sid db2)"
proof -
  show thesis
  proof (cases "\<exists>e. res = Inl e")
    case True
    then show thesis using assms that(1)
      by (auto simp: submitReport_def insert_row_def Let_def split: sum.splits option.splits prod.splits if_splits)
  next
    case False
    with assms obtain reason song where song: "find_song sid db = Some song"
      and fresh: "tbl_find (same_report sid uid) (md_reports db) = None"
      and reason: "parseReason raw = Inr reason" and id: "rid \<notin> cr_id ` set (md_reports db)"
      by (auto simp: submitReport_def insert_row_def Let_def split: sum.splits option.splits if_splits)
    define r where "r = new_report now rid sid uid reason description aiConsent"
    define db1 where "db1 = db\<lparr>md_reports := md_reports db @ [r]\<rparr>"
    define scored where "scored = (if cr_aiConsent r then scoreReportWithAI provider r song db1 else (r, db1))"
    define r' where "r' = fst scored"
    define db2 where "db2 = snd scored"
    have key: "report_key r = (sid, uid)" "cr_id r = rid" "cr_status r = RS_PENDING"
      by (simp_all add: r_def)
    have put: "tbl_put cr_id x (md_reports db @ [r]) = md_reports db @ [x]" if "cr_id x = rid" for x
      using id that key(2) by (intro tbl_put_snoc) simp_all
    have r': "md_reports db2 = md_reports db @ [r']" "cr_id r' = rid" "report_key r' = (sid, uid)"
        "cr_status r' = RS_PENDING" "md_songs db2 = md_songs db"
      using key put by (auto simp: r'_def db2_def scored_def db1_def scoreReportWithAI_def report_key_def Let_def
          split: option.split)
    obtain flagged db3 where thr: "applyThreshold threshold now song (countPendingForSong sid db2) db2 = (flagged, db3)"
      by fastforce
    have "submitReport threshold provider now rid sid uid raw description aiConsent db
        = (Inr (r', flagged, countPendingForSong sid db2), db3)"
      using song fresh reason id thr
      by (simp add: submitReport_def insert_row_def Let_def r_def [symmetric] key(2) db1_def [symmetric]
          scored_def [symmetric] r'_def db2_def case_prod_unfold)
    with assms that(2) [OF song fresh id key(2,1,3) r' ] thr show thesis by simp
  qed
qed

text \<open>Resolving a pending report: the three tables afterwards.\<close>

definition resolution :: "timestamp \<Rightarrow> ident \<Rightarrow> report_action \<Rightarrow> string option \<Rightarrow> content_report \<Rightarrow> content_report" where
  "resolution now moderator action note r = r\<lparr>cr_status := RS_RESOLVED, cr_actionTaken := Some action,
     cr_resolvedBy := Some moderator, cr_resolvedAt := Some now, cr_resolutionNote := trimmed note\<rparr>"

lemma resolution_simps [simp]:
  "cr_id (resolution now m a n r) = cr_id r" "cr_songId (resolution now m a n r) = cr_songId r"
  "cr_status (resolution now m a n r) = RS_RESOLVED" "report_key (resolution now m a n r) = report_key r"
  by (simp_all add: resolution_def report_key_def)

definition put_report :: "content_report \<Rightarrow> moderation_db \<Rightarrow> moderation_db" where
  "put_report r db = db\<lparr>md_reports := tbl_put cr_id r (md_reports db)\<rparr>"

lemma resolve_cases:
  assumes "resolveReport refused now rid moderator raw note db = (res, db')"
  obtains (refused_request) e where "res = Inl e" "db' = db"
      "\<And>action r. parseReportAction raw = Inr action \<Longrightarrow>
        tbl_find (\<lambda>x. cr_id x = rid) (md_reports db) = Some r \<Longrightarrow> cr_status r = RS_RESOLVED"
  | (resolved) action r where "parseReportAction raw = Inr action"
      "tbl_find (\<lambda>x. cr_id x = rid) (md_reports db) = Some r" "cr_status r = RS_PENDING"
      "md_songs db' = md_songs (applyResolutionToSong now (cr_songId r) moderator action
         (put_report (resolution now moderator action note r) db))"
      "md_reports db' = tbl_put cr_id (resolution now moderator action note r) (md_reports db)"
      "md_takedowns db' = md_takedowns db"
proof (cases "parseReportAction raw")
  case (Inl e)
  then show thesis using assms that(1) by (auto simp: resolveReport_def)
next
  case (Inr action)
  show thesis
  proof (cases "tbl_find (\<lambda>x. cr_id x = rid) (md_reports db)")
    case None
    with Inr assms that(1) show thesis by (auto simp: resolveReport_def)
  next
    case (Some r)
    let ?db2 = "applyResolutionToSong now (cr_songId r) moderator action (put_report (resolution now moderator action note r) db)"
    show thesis
    proof (cases "cr_status r")
      case RS_PENDING
      have "md_reports ?db2 = tbl_put cr_id (resolution now moderator action note r) (md_reports db)"
        "md_takedowns ?db2 = md_takedowns db"
        by (simp_all add: applyResolutionToSong_def put_report_def split: option.split)
      moreover have "snd (resolveReport refused now rid moderator raw note db)
          = snd (write_audit refused (resolve_entry moderator rid (cr_songId r) action) ?db2)"
        using Inr Some RS_PENDING
        by (simp add: resolveReport_def resolution_def [symmetric] put_report_def [symmetric] Let_def
            split: prod.split sum.split)
      moreover have "md_songs (snd (write_audit refused a x)) = md_songs x"
        "md_reports (snd (write_audit refused a x)) = md_reports x"
        "md_takedowns (snd (write_audit refused a x)) = md_takedowns x" for a x
        by (simp_all add: write_audit_def split: option.split)
      ultimately show thesis using assms that(2) [OF Inr Some RS_PENDING] by simp
    next
      case RS_RESOLVED
      with Inr Some assms that(1) show thesis by (auto simp: resolveReport_def)
    qed
  qed
qed

lemma find_resolution_song:
  "find_song k (applyResolutionToSong now sid m action db) =
     (if k = sid then map_option (\<lambda>s.
        if action = RA_SONG_FLAGGED \<or> action = RA_SONG_REMOVED then resolution_flag now m action s
        else if countPendingForSong sid db = 0 \<and> sg_flagged s \<and> sg_flaggedBy s = None
        then s\<lparr>sg_flagged := False, sg_flaggedAt := None, sg_flagReason := None\<rparr> else s) (find_song k db)
      else find_song k db)"
  using find_song_id [of sid db]
  by (auto simp: applyResolutionToSong_def find_save_song resolution_flag_def split: option.split)

lemma songs_ok_resolution [simp]:
  "tbl_ok sg_id (md_songs db) \<Longrightarrow> tbl_ok sg_id (md_songs (applyResolutionToSong now sid m action db))"
  by (simp add: applyResolutionToSong_def split: option.split)

lemma find_song_cong: "md_songs db' = md_songs db \<Longrightarrow> find_song k db' = find_song k db"
  by (simp add: find_song_def)

lemma pending_cong:
  assumes "md_reports db' = md_reports db"
  shows "pending_for sid db' = pending_for sid db" "countPendingForSong sid db' = countPendingForSong sid db"
  by (simp_all add: pending_for_def countPendingForSong_def assms)

lemma finite_pending [simp]: "finite (pending_for sid db)"
  by (simp add: pending_for_def)

lemma put_report_props:
  assumes "tbl_ok cr_id (md_reports db)" and "tbl_find (\<lambda>x. cr_id x = rid) (md_reports db) = Some r"
    and "cr_status r = RS_PENDING"
  shows "pending_for sid (put_report (resolution now m a n r) db) = pending_for sid db - {r}"
    and "r \<in> pending_for (cr_songId r) db"
  using assms pending_after_put [of db r "resolution now m a n r" sid] tbl_find_SomeD [OF assms(2)]
  by (auto simp: put_report_def pending_for_def)

lemma submit_ok:
  assumes "reports_ok threshold db"
  shows "reports_ok threshold (snd (submitReport threshold provider now rid sid uid raw d c db))"
proof -
  obtain res db' where run: "submitReport threshold provider now rid sid uid raw d c db = (res, db')" by fastforce
  have "reports_ok threshold db'" using run
  proof (cases rule: submit_cases)
    case (filed song r r' flagged db2)
    have "report_key r' \<notin> report_key ` set (md_reports db)"
      using filed(2,9) by (auto simp: tbl_find_None_iff same_report_def report_key_def)
    then have keys: "tbl_ok cr_id (md_reports db2)" "tbl_ok report_key (md_reports db2)"
      using assms filed(3,7,8) by (auto simp: reports_ok_def tbl_ok_def)
    have count: "countPendingForSong k db2 = (if k = sid then Suc (countPendingForSong k db) else countPendingForSong k db)" for k
      using filed(7,9,10) by (simp add: countPendingForSong_def tbl_simps report_key_def)
    have "tbl_ok sg_id (md_songs db2)" using assms by (simp add: reports_ok_def filed(11))
    then have "md_reports db' = md_reports db2" and "tbl_ok sg_id (md_songs db')"
      using filed(12) by (auto simp: applyThreshold_def split: if_splits)
    moreover have songs: "find_song k db' = (if flagged \<and> k = sid
        then Some (auto_flag now (countPendingForSong sid db2) song) else find_song k db)"
      and fl: "flagged \<longleftrightarrow> \<not> sg_flagged song \<and> threshold \<le> countPendingForSong sid db2" for k
      using filed(12) find_song_id [OF filed(1)] find_song_cong [OF filed(11)]
      by (auto simp: applyThreshold_def find_save_song auto_flag_def split: if_splits)
    ultimately show ?thesis
      using assms keys filed(1) pending_cong(2) [OF \<open>md_reports db' = md_reports db2\<close>]
      by (auto simp: reports_ok_iff count auto_flag_def split: if_splits)
  qed (use assms in simp)
  with run show ?thesis by simp
qed

lemma resolve_ok:
  assumes "0 < threshold" and "reports_ok threshold db"
  shows "reports_ok threshold (snd (resolveReport refused now rid m raw note db))"
proof -
  obtain res db' where run: "resolveReport refused now rid m raw note db = (res, db')" by fastforce
  have "reports_ok threshold db'" using run
  proof (cases rule: resolve_cases)
    case (resolved action r)
    let ?db1 = "put_report (resolution now m action note r) db"
    have ids: "tbl_ok cr_id (md_reports db)" "tbl_ok report_key (md_reports db)" "r \<in> set (md_reports db)"
      using assms(2) resolved(2) by (auto simp: reports_ok_def dest: tbl_find_SomeD)
    have same: "md_reports db' = md_reports ?db1" "md_songs ?db1 = md_songs db"
      by (simp_all add: put_report_def resolved(5))
    have keys: "tbl_ok cr_id (md_reports db')" "tbl_ok report_key (md_reports db')"
      using ids put_report_key_ok [OF ids] by (simp_all add: resolved(5) tbl_simps)
    have "pending_for k db' = pending_for k db - {r}" for k
      by (simp add: pending_cong(1) [OF same(1)] put_report_props(1) [OF ids(1) resolved(2,3)])
    then have count: "countPendingForSong k db' \<le> countPendingForSong k db" for k
      by (simp add: count_is_card ids(1) keys(1) card_mono)
    have "tbl_ok sg_id (md_songs ?db1)" using assms(2) same(2) by (simp add: reports_ok_def)
    then have "tbl_ok sg_id (md_songs db')" by (simp add: resolved(4))
    moreover have "countPendingForSong k db' < threshold"
      if s: "find_song k db' = Some s" "\<not> sg_flagged s" for k s
    proof (cases "find_song k db = Some s")
      case True
      with assms(2) s(2) count [of k] show ?thesis by (auto simp: reports_ok_iff intro: le_less_trans)
    next
      case False
      with s have "countPendingForSong k ?db1 = 0"
        by (auto simp: find_song_cong [OF resolved(4)] find_resolution_song find_song_cong [OF same(2)]
            resolution_flag_def split: if_splits)
      with assms(1) pending_cong(2) [OF same(1)] show ?thesis by simp
    qed
    ultimately show ?thesis using keys by (simp add: reports_ok_iff)
  qed (use assms in simp)
  with run show ?thesis by simp
qed

interpretation repm: machine "report_step (Suc t)" "reports_ok (Suc t)" for t
proof unfold_locales
  fix db :: moderation_db
    and e :: "(content_report \<Rightarrow> song_row \<Rightarrow> ai_score option) \<times> audit_policy \<times> timestamp \<times> report_op"
  assume "reports_ok (Suc t) db"
  moreover obtain provider refused now op where "e = (provider, refused, now, op)" by (cases e)
  ultimately show "reports_ok (Suc t) (report_step (Suc t) e db)"
    by (cases op) (simp_all add: submit_ok resolve_ok)
qed

text \<open>
  C16: Whatever sequence of reports and resolutions is served, whatever the AI provider answers and the
  audit log refuses, a listener has at most one report per song, and a song whose pending reports
  reach the threshold is flagged.
\<close>

theorem reported_songs_are_flagged:
  assumes "reports_ok threshold db" and "0 < threshold"
  shows "let db' = fold (report_step threshold) es db in
     distinct (map report_key (md_reports db')) \<and>
     (\<forall>sid s. find_song sid db' = Some s \<longrightarrow> threshold \<le> countPendingForSong sid db' \<longrightarrow> sg_flagged s)"
proof -
  obtain t where "threshold = Suc t" using assms(2) gr0_implies_Suc by blast
  with assms(1) repm.run_ok [of t db es] have "reports_ok threshold (fold (report_step threshold) es db)" by simp
  then show ?thesis by (fastforce simp: reports_ok_iff tbl_ok_def Let_def)
qed

definition quiet_ai :: "content_report \<Rightarrow> song_row \<Rightarrow> ai_score option" where
  "quiet_ai r s = None"

definition open_log :: audit_policy where
  "open_log a = None"

definition clean_song :: "ident \<Rightarrow> song_row" where
  "clean_song i = \<lparr>sg_id = i, sg_status = ST_READY, sg_errorReason = None, sg_flagged = False,
     sg_flaggedAt = None, sg_flaggedBy = None, sg_flagReason = None\<rparr>"

definition clean_db :: moderation_db where
  "clean_db = \<lparr>md_songs = [clean_song ''a''], md_reports = [], md_takedowns = [], md_audit = []\<rparr>"

lemma clean_db_ok: "0 < threshold \<Longrightarrow> reports_ok threshold clean_db"
  by (simp add: reports_ok_def clean_db_def tbl_ok_def countPendingForSong_def tbl_simps)

definition two_reports :: moderation_db where
  "two_reports = fold (report_step 2)
     [(quiet_ai, open_log, 3, RO_submit ''r'' ''a'' ''u'' ''Spam'' None None),
      (quiet_ai, open_log, 4, RO_submit ''q'' ''a'' ''v'' ''other'' None None)] clean_db"

theorem reported_songs_are_flagged_witness:
  "map_option sg_flagged (find_song ''a'' two_reports) = Some True"
proof -
  have "countPendingForSong ''a'' two_reports = 2" and "find_song ''a'' two_reports \<noteq> None" by code_simp+
  moreover have pos: "0 < (2::nat)" by simp
  have "\<forall>sid s. find_song sid two_reports = Some s \<longrightarrow>
      2 \<le> countPendingForSong sid two_reports \<longrightarrow> sg_flagged s"
    using reported_songs_are_flagged [OF clean_db_ok [OF pos] pos]
    unfolding two_reports_def Let_def by blast
  ultimately show ?thesis by auto
qed

text \<open>Dismissing the pending reports of an automatically flagged song, one by one.\<close>

definition auto_flagged :: "song_row \<Rightarrow> bool" where
  "auto_flagged s \<longleftrightarrow> sg_flagged s \<and> sg_flaggedBy s = None"

definition dismiss_all ::
  "audit_policy \<Rightarrow> timestamp \<Rightarrow> ident \<Rightarrow> string option \<Rightarrow> ident list \<Rightarrow> moderation_db \<Rightarrow> moderation_db" where
  "dismiss_all refused now m note rids db =
     fold (\<lambda>rid d. snd (resolveReport refused now rid m ''dismissed'' note d)) rids db"

lemma dismiss_one:
  assumes "tbl_ok cr_id (md_reports db)" and "find_song sid db = Some s" and "auto_flagged s"
    and "r \<in> pending_for sid db"
  shows "let db' = snd (resolveReport refused now (cr_id r) m ''dismissed'' note db) in
     tbl_ok cr_id (md_reports db') \<and> pending_for sid db' = pending_for sid db - {r} \<and>
     find_song sid db' = Some (if pending_for sid db = {r}
       then s\<lparr>sg_flagged := False, sg_flaggedAt := None, sg_flagReason := None\<rparr> else s)"
proof -
  have r: "r \<in> set (md_reports db)" "cr_songId r = sid" "cr_status r = RS_PENDING"
    using assms(4) by (simp_all add: pending_for_def)
  have find: "tbl_find (\<lambda>x. cr_id x = cr_id r) (md_reports db) = Some r"
    by (rule tbl_find_key_eq [OF assms(1) r(1)])
  obtain res db' where run: "resolveReport refused now (cr_id r) m ''dismissed'' note db = (res, db')" by fastforce
  have parse: "parseReportAction ''dismissed'' = Inr RA_DISMISSED" by code_simp
  have "tbl_ok cr_id (md_reports db') \<and> pending_for sid db' = pending_for sid db - {r} \<and>
     find_song sid db' = Some (if pending_for sid db = {r}
       then s\<lparr>sg_flagged := False, sg_flaggedAt := None, sg_flagReason := None\<rparr> else s)"
    using run
  proof (cases rule: resolve_cases)
    case (refused_request e)
    with parse find r(3) show ?thesis by fastforce
  next
    case (resolved action r2)
    then have [simp]: "r2 = r" "action = RA_DISMISSED" using find parse by simp_all
    let ?db1 = "put_report (resolution now m RA_DISMISSED note r) db"
    have same: "md_reports db' = md_reports ?db1" "md_songs ?db1 = md_songs db"
      by (simp_all add: put_report_def resolved(5))
    have pend: "pending_for k ?db1 = pending_for k db - {r}" for k
      by (rule put_report_props(1) [OF assms(1) find r(3)])
    have ok: "tbl_ok cr_id (md_reports ?db1)" using assms(1) by (simp add: put_report_def tbl_simps)
    have "countPendingForSong sid ?db1 = card (pending_for sid db - {r})"
      by (simp add: count_is_card [OF ok] pend)
    also have "\<dots> = 0 \<longleftrightarrow> pending_for sid db - {r} = {}" by (rule card_0_eq) simp
    finally have "countPendingForSong sid ?db1 = 0 \<longleftrightarrow> pending_for sid db = {r}"
      using assms(4) by blast
    then have "find_song sid db' = Some (if pending_for sid db = {r}
       then s\<lparr>sg_flagged := False, sg_flaggedAt := None, sg_flagReason := None\<rparr> else s)"
      using assms(2,3) r(2)
      by (simp add: find_song_cong [OF resolved(4)] find_resolution_song find_song_cong [OF same(2)] auto_flagged_def)
    with ok pend same(1) pending_cong(1) [OF same(1)] show ?thesis by simp
  qed
  with run show ?thesis by (simp add: Let_def)
qed

lemma dismiss_all_Cons:
  "dismiss_all refused now m note (rid # rids) db =
     dismiss_all refused now m note rids (snd (resolveReport refused now rid m ''dismissed'' note db))"
  by (simp add: dismiss_all_def)

lemma dismiss_all_restores:
  assumes "tbl_ok cr_id (md_reports db)" and "find_song sid db = Some s" and "auto_flagged s"
    and "distinct rids" and "set rids = cr_id ` pending_for sid db" and "rids \<noteq> []"
  shows "find_song sid (dismiss_all refused now m note rids db)
    = Some (s\<lparr>sg_flagged := False, sg_flaggedAt := None, sg_flagReason := None\<rparr>)"
  using assms
proof (induction rids arbitrary: db)
  case (Cons rid rids)
  have "rid \<in> set (rid # rids)" by simp
  then have "rid \<in> cr_id ` pending_for sid db" by (simp only: Cons.prems(5))
  then obtain r where r: "r \<in> pending_for sid db" "rid = cr_id r" by blast
  let ?db' = "snd (resolveReport refused now rid m ''dismissed'' note db)"
  have one: "tbl_ok cr_id (md_reports ?db')" "pending_for sid ?db' = pending_for sid db - {r}"
    "find_song sid ?db' = Some (if pending_for sid db = {r}
       then s\<lparr>sg_flagged := False, sg_flaggedAt := None, sg_flagReason := None\<rparr> else s)"
    using dismiss_one [OF Cons.prems(1-3) r(1), of refused now m "note"] unfolding r(2) Let_def by blast+
  have inj: "inj_on cr_id (pending_for sid db)"
    using Cons.prems(1) by (auto simp: tbl_ok_def distinct_map pending_for_def inj_on_def)
  have "cr_id ` pending_for sid ?db' = cr_id ` pending_for sid db - {cr_id r}"
    unfolding one(2) using inj_on_image_set_diff [OF inj, of "pending_for sid db" "{r}"] r(1) by simp
  also have "\<dots> = set rids" using Cons.prems(4) unfolding Cons.prems(5) [symmetric] r(2) by simp
  finally have rest: "set rids = cr_id ` pending_for sid ?db'" by (rule sym)
  show ?case
  proof (cases "rids = []")
    case True
    with rest one(2) r(1) have "pending_for sid db = {r}" by auto
    with True one(3) show ?thesis by (simp add: dismiss_all_Cons) (simp add: dismiss_all_def)
  next
    case False
    with rest one(2) have "pending_for sid db \<noteq> {r}" by auto
    then have "find_song sid ?db' = Some s" using one(3) by simp
    from Cons.IH [OF one(1) this Cons.prems(3) _ rest False] Cons.prems(4) show ?thesis
      by (simp add: dismiss_all_Cons)
  qed
qed simp

text \<open>
  When the moderator dismisses all pending reports of an automatically flagged song, in any order
  and even if the audit log refuses its entries, the song ends up unflagged and available again.
\<close>

theorem dismissing_all_restores_song:
  assumes "reports_ok threshold db" and "find_song sid db = Some s" and "auto_flagged s"
    and "distinct rids" and "set rids = cr_id ` pending_for sid db" and "rids \<noteq> []"
  shows "map_option sg_flagged (find_song sid (dismiss_all refused now m note rids db)) = Some False"
  using assms dismiss_all_restores [of db sid s rids] by (simp add: reports_ok_def)

theorem dismissing_all_restores_song_witness:
  "map_option sg_flagged (find_song ''a'' (dismiss_all open_log 9 ''m'' None [''q'', ''r''] two_reports)) = Some False"
proof -
  have "0 < (2::nat)" by simp
  then have "reports_ok (Suc 1) (fold (report_step (Suc 1)) es clean_db)" for es
    by (intro repm.run_ok clean_db_ok) simp
  then have ok: "reports_ok 2 two_reports" unfolding two_reports_def numeral_2_eq_2 One_nat_def .
  have song: "find_song ''a'' two_reports = Some (auto_flag 4 2 (clean_song ''a''))" by code_simp
  have reports: "map (\<lambda>r. (cr_id r, cr_songId r, cr_status r)) (md_reports two_reports)
      = [(''r'', ''a'', RS_PENDING), (''q'', ''a'', RS_PENDING)]" by code_simp
  then obtain r q where "md_reports two_reports = [r, q]" "cr_id r = ''r''" "cr_id q = ''q''"
      "cr_songId r = ''a''" "cr_songId q = ''a''" "cr_status r = RS_PENDING" "cr_status q = RS_PENDING"
    by (auto simp: map_eq_Cons_conv)
  then have "cr_id ` pending_for ''a'' two_reports = {''r'', ''q''}"
    by (auto simp: pending_for_def image_def)
  then show ?thesis
    by (intro dismissing_all_restores_song [OF ok song]) (auto simp: auto_flagged_def auto_flag_def)
qed

end
