(* ===== verification/Takedowns.thy ===== *)
theory Takedowns
  imports Content_Reports
begin

text \<open>
  Takedown requests: \<open>services/TakedownService.ts\<close>, which shares the songs and the audit log with
  moderation and reports. A review changes the song first, then writes the audit entry, and saves the
  request last. The entry is an object without \<open>user_id\<close>, which the database refuses, so a review
  leaves the song changed and the request as it was, and a new request is stored but answered with an
  error.
\<close>

subsection \<open>Operations\<close>

fun takedown_reason_str :: "takedown_reason \<Rightarrow> string" where
  "takedown_reason_str TR_COPYRIGHT = ''copyright''"
| "takedown_reason_str TR_TRADEMARK = ''trademark''"
| "takedown_reason_str TR_OTHER = ''other''"

definition find_takedown :: "ident \<Rightarrow> moderation_db \<Rightarrow> takedown option" where
  "find_takedown tid db = tbl_find (\<lambda>t. td_id t = tid) (md_takedowns db)"

definition save_takedown :: "takedown \<Rightarrow> moderation_db \<Rightarrow> moderation_db" where
  "save_takedown t db = db\<lparr>md_takedowns := tbl_put td_id t (md_takedowns db)\<rparr>"

definition createRequest ::
  "audit_policy \<Rightarrow> timestamp \<Rightarrow> ident \<Rightarrow> ident \<Rightarrow> ident \<Rightarrow> takedown_reason option \<Rightarrow> string option \<Rightarrow>
   string option \<Rightarrow> (moderation_db, takedown) service" where
  "createRequest refused now tid requestedBy sid reason description evidenceUrl db =
     (case find_song sid db of
        None \<Rightarrow> (Inl (PlainErr ''Song not found'' (Some 404)), db)
      | Some song \<Rightarrow>
          let rsn = (case reason of None \<Rightarrow> TR_COPYRIGHT | Some r \<Rightarrow> r);
              t = \<lparr>td_id = tid, td_songId = sid, td_requestedBy = requestedBy, td_reason = rsn,
                   td_description = or_none description, td_evidenceUrl = or_none evidenceUrl,
                   td_status = TS_PENDING, td_reviewedBy = None, td_reviewNotes = None,
                   td_previousFlagged = sg_flagged song, td_resolvedAt = None, td_createdAt = now\<rparr>
          in (case insert_row td_id t (md_takedowns db) of
                (Inl e, _) \<Rightarrow> (Inl e, db)
              | (Inr _, takedowns) \<Rightarrow>
                  (case write_audit refused (DetailsEntry requestedBy ''takedown_request_created''
                           [(''takedownId'', tid), (''songId'', sid), (''reason'', takedown_reason_str rsn)])
                         (db\<lparr>md_takedowns := takedowns\<rparr>) of
                     (Inl e, db') \<Rightarrow> (Inl e, db')
                   | (Inr _, db') \<Rightarrow> (Inr t, db'))))"

definition listRequests :: "takedown_status option \<Rightarrow> ident option \<Rightarrow> moderation_db \<Rightarrow> takedown list" where
  "listRequests status sid db =
     rev (sort_key td_createdAt (filter (\<lambda>t. (case status of None \<Rightarrow> True | Some st \<Rightarrow> td_status t = st) \<and>
       (truthy sid \<longrightarrow> td_songId t = the sid)) (md_takedowns db)))"

definition getRequest :: "ident \<Rightarrow> moderation_db \<Rightarrow> js_error + takedown" where
  "getRequest tid db =
     (case find_takedown tid db of
        None \<Rightarrow> Inl (PlainErr ''Takedown request not found'' (Some 404))
      | Some t \<Rightarrow> Inr t)"

text \<open>The fields every review sets.\<close>

definition reviewed :: "timestamp \<Rightarrow> ident \<Rightarrow> string option \<Rightarrow> takedown_status \<Rightarrow> takedown \<Rightarrow> takedown" where
  "reviewed now admin notes st t = t\<lparr>td_status := st, td_reviewedBy := Some admin,
     td_reviewNotes := or_none notes, td_resolvedAt := Some now\<rparr>"

definition takedown_tag :: "takedown \<Rightarrow> string" where
  "takedown_tag t = ''takedown:'' @ td_id t"

definition takedown_flag :: "timestamp \<Rightarrow> ident \<Rightarrow> string option \<Rightarrow> takedown \<Rightarrow> song_row \<Rightarrow> song_row" where
  "takedown_flag now admin notes t s = s\<lparr>sg_flagged := True, sg_flaggedAt := Some now, sg_flaggedBy := Some admin,
     sg_flagReason := Some (take 500 (takedown_tag t @ '':'' @ takedown_reason_str (td_reason t) @ '':'' @
       (case notes of None \<Rightarrow> '''' | Some n \<Rightarrow> n)))\<rparr>"

definition restored :: "takedown \<Rightarrow> song_row \<Rightarrow> song_row" where
  "restored t s =
     (if \<not> td_previousFlagged t
      then s\<lparr>sg_flagged := False, sg_flaggedAt := None, sg_flaggedBy := None, sg_flagReason := None\<rparr>
      else if (case sg_flagReason s of None \<Rightarrow> False | Some r \<Rightarrow> occurs (takedown_tag t) r)
      then s\<lparr>sg_flagReason := Some ''previously_flagged''\<rparr>
      else s)"

definition review_entry :: "ident \<Rightarrow> string \<Rightarrow> ident \<Rightarrow> ident \<Rightarrow> audit_entry" where
  "review_entry admin what tid sid = DetailsEntry admin what [(''takedownId'', tid), (''songId'', sid)]"

text \<open>The audit entry, then the request is saved: the end of every branch of the review.\<close>

definition finish_review ::
  "audit_policy \<Rightarrow> audit_entry \<Rightarrow> takedown \<Rightarrow> (moderation_db, takedown) service" where
  "finish_review refused entry t db =
     (case write_audit refused entry db of
        (Inl e, db') \<Rightarrow> (Inl e, db')
      | (Inr _, db') \<Rightarrow> (Inr t, save_takedown t db'))"

definition reviewRequest ::
  "audit_policy \<Rightarrow> timestamp \<Rightarrow> ident \<Rightarrow> ident \<Rightarrow> string \<Rightarrow> string option \<Rightarrow> (moderation_db, takedown) service" where
  "reviewRequest refused now tid admin action notes db =
     (case find_takedown tid db of
        None \<Rightarrow> (Inl (PlainErr ''Takedown request not found'' (Some 404)), db)
      | Some t \<Rightarrow>
          (case find_song (td_songId t) db of
             None \<Rightarrow> (Inl (PlainErr ''Song not found for takedown'' (Some 404)), db)
           | Some song \<Rightarrow>
               if action = ''approve'' then
                 (if td_status t = TS_APPROVED then (Inl (PlainErr ''Takedown already approved'' None), db)
                  else finish_review refused (review_entry admin ''takedown_approved'' tid (sg_id song))
                         (reviewed now admin notes TS_APPROVED (t\<lparr>td_previousFlagged := sg_flagged song\<rparr>))
                         (save_song (takedown_flag now admin notes t song) db))
               else if action = ''reject'' then
                 (if td_status t \<noteq> TS_PENDING
                  then (Inl (PlainErr ''Only pending takedowns can be rejected'' None), db)
                  else finish_review refused (review_entry admin ''takedown_rejected'' tid (sg_id song))
                         (reviewed now admin notes TS_REJECTED t) db)
               else if action = ''reverse'' then
                 (if td_status t \<noteq> TS_APPROVED
                  then (Inl (PlainErr ''Only approved takedowns can be reversed'' None), db)
                  else finish_review refused (review_entry admin ''takedown_reversed'' tid (sg_id song))
                         (reviewed now admin notes TS_REVERSED t) (save_song (restored t song) db))
               else (Inl (PlainErr ''Invalid action'' None), db)))"

subsection \<open>What a request changes\<close>

interpretation takedowns: keyed_store td_id "\<lambda>k. tbl_find (\<lambda>x. td_id x = k)" "tbl_put td_id"
  "\<lambda>k. tbl_delete (\<lambda>x. td_id x = k)" "tbl_ok td_id"
  by (rule tbl_keyed_store)

lemma find_takedown_id: "find_takedown tid db = Some t \<Longrightarrow> td_id t = tid"
  by (auto simp: find_takedown_def dest: takedowns.lookup_key)

lemma find_save_takedown: "find_takedown k (save_takedown t db) = (if k = td_id t then Some t else find_takedown k db)"
  by (simp add: find_takedown_def save_takedown_def takedowns.lookup_store)

lemma takedown_frame [simp]:
  "find_takedown k (db\<lparr>md_audit := a\<rparr>) = find_takedown k db" "find_takedown k (save_song s db) = find_takedown k db"
  "find_song k (save_takedown t db) = find_song k db"
  by (simp_all add: find_takedown_def save_song_def save_takedown_def find_song_def)

lemma review_simps [simp]:
  "td_id (reviewed now admin notes st t) = td_id t" "td_status (reviewed now admin notes st t) = st"
  "td_songId (reviewed now admin notes st t) = td_songId t"
  "td_previousFlagged (reviewed now admin notes st t) = td_previousFlagged t"
  "sg_id (takedown_flag now admin notes t s) = sg_id s" "sg_flagged (takedown_flag now admin notes t s)"
  "sg_id (restored t s) = sg_id s"
  by (simp_all add: reviewed_def takedown_flag_def restored_def)

lemma finish_review_fails:
  "finish_review refused (review_entry admin what tid sid) t db = (Inl not_null_error, db)"
  by (simp add: finish_review_def write_audit_def review_entry_def)

text \<open>Requests as events of a run.\<close>

datatype takedown_op =
    TO_create ident ident ident "takedown_reason option" "string option" "string option"
  | TO_review ident ident string "string option"

type_synonym takedown_event = "audit_policy \<times> timestamp \<times> takedown_op"

fun takedown_do :: "takedown_event \<Rightarrow> (moderation_db, takedown) service" where
  "takedown_do (refused, now, TO_create tid u sid rsn d ev) db = createRequest refused now tid u sid rsn d ev db"
| "takedown_do (refused, now, TO_review tid admin action notes) db = reviewRequest refused now tid admin action notes db"

definition takedown_step :: "takedown_event \<Rightarrow> moderation_db \<Rightarrow> moderation_db" where
  "takedown_step e db = snd (takedown_do e db)"

text \<open>The song an event approves a takedown of.\<close>

fun approves :: "takedown_event \<Rightarrow> moderation_db \<Rightarrow> ident option" where
  "approves (_, _, TO_create tid u sid rsn d ev) db = None"
| "approves (_, _, TO_review tid admin action notes) db =
     (if action = ''approve'' then map_option td_songId (find_takedown tid db) else None)"

definition all_pending :: "moderation_db \<Rightarrow> bool" where
  "all_pending db \<longleftrightarrow> list_all (\<lambda>t. td_status t = TS_PENDING \<and> td_reviewedBy t = None \<and> td_resolvedAt t = None) (md_takedowns db)"

definition flag_state :: "ident \<Rightarrow> moderation_db \<Rightarrow> (song_status \<times> bool) option" where
  "flag_state sid db = map_option (\<lambda>s. (sg_status s, sg_flagged s)) (find_song sid db)"

lemma pending_found: "all_pending db \<Longrightarrow> find_takedown tid db = Some t \<Longrightarrow> td_status t = TS_PENDING"
  by (auto simp: all_pending_def find_takedown_def list_all_iff dest: tbl_find_SomeD)

lemma create_effect:
  "createRequest refused now tid u sid rsn d ev db = (res, db') \<Longrightarrow>
   (\<exists>e. res = Inl e) \<and> md_audit db' = md_audit db \<and> md_songs db' = md_songs db \<and>
   (\<exists>new. md_takedowns db' = md_takedowns db @ new \<and>
      list_all (\<lambda>t. td_status t = TS_PENDING \<and> td_reviewedBy t = None \<and> td_resolvedAt t = None) new)"
  by (auto simp: createRequest_def Let_def insert_row_def write_audit_def split: option.splits if_splits)

lemma review_effect:
  assumes "all_pending db" and "reviewRequest refused now tid admin action notes db = (res, db')"
  shows "(\<exists>e. res = Inl e) \<and> md_audit db' = md_audit db \<and> md_takedowns db' = md_takedowns db \<and>
    (\<forall>sid. flag_state sid db' = (if approves (refused, now, TO_review tid admin action notes) db = Some sid
       then map_option (\<lambda>(st, _). (st, True)) (flag_state sid db) else flag_state sid db))"
proof (cases "find_takedown tid db")
  case None
  with assms(2) show ?thesis by (auto simp: reviewRequest_def)
next
  case t: (Some t)
  show ?thesis
  proof (cases "find_song (td_songId t) db")
    case None
    with assms(2) t show ?thesis by (auto simp: reviewRequest_def flag_state_def)
  next
    case s: (Some s)
    have "(res, db') = (if action = ''approve'' then (Inl not_null_error, save_song (takedown_flag now admin notes t s) db)
        else if action = ''reject'' then (Inl not_null_error, db)
        else if action = ''reverse'' then (Inl (PlainErr ''Only approved takedowns can be reversed'' None), db)
        else (Inl (PlainErr ''Invalid action'' None), db))"
      using assms(2) [symmetric] pending_found [OF assms(1) t] t s
      by (simp add: reviewRequest_def finish_review_fails split: if_split)
    moreover have "sg_id s = td_songId t" using s by (rule find_song_id)
    moreover have "sg_status (takedown_flag now admin notes t s) = sg_status s" by (simp add: takedown_flag_def)
    ultimately show ?thesis using t s by (auto simp: flag_state_def find_save_song split: if_splits)
  qed
qed

lemma takedown_step_effect:
  assumes "all_pending db"
  shows "(\<exists>err. fst (takedown_do e db) = Inl err)" and "all_pending (takedown_step e db)"
    and "md_audit (takedown_step e db) = md_audit db"
    and "\<exists>new. md_takedowns (takedown_step e db) = md_takedowns db @ new"
    and "flag_state sid (takedown_step e db) =
      (if approves e db = Some sid then map_option (\<lambda>(st, _). (st, True)) (flag_state sid db) else flag_state sid db)"
proof -
  obtain refused now op where e: "e = (refused, now, op)" by (cases e)
  obtain res db' where run: "takedown_do e db = (res, db')" by fastforce
  have "(\<exists>e. res = Inl e) \<and> all_pending db' \<and> md_audit db' = md_audit db \<and> (\<exists>new. md_takedowns db' = md_takedowns db @ new) \<and>
    flag_state sid db' =
      (if approves e db = Some sid then map_option (\<lambda>(st, _). (st, True)) (flag_state sid db) else flag_state sid db)"
  proof (cases op)
    case (TO_create tid u song rsn d ev)
    with create_effect [of refused now tid u song rsn d ev db res db'] run e assms show ?thesis
      by (auto simp: all_pending_def flag_state_def find_song_def)
  next
    case (TO_review tid admin action why)
    with review_effect [OF assms, of refused now tid admin action why res db'] run e assms show ?thesis
      by (simp add: all_pending_def)
  qed
  with run show "(\<exists>err. fst (takedown_do e db) = Inl err)" and "all_pending (takedown_step e db)"
    and "md_audit (takedown_step e db) = md_audit db"
    and "\<exists>new. md_takedowns (takedown_step e db) = md_takedowns db @ new"
    and "flag_state sid (takedown_step e db) =
      (if approves e db = Some sid then map_option (\<lambda>(st, _). (st, True)) (flag_state sid db) else flag_state sid db)"
    by (simp_all add: takedown_step_def)
qed

text \<open>A run that attempts to approve a takedown of the song.\<close>

fun approved_in :: "ident \<Rightarrow> takedown_event list \<Rightarrow> moderation_db \<Rightarrow> bool" where
  "approved_in sid [] db = False"
| "approved_in sid (e # es) db = (approves e db = Some sid \<or> approved_in sid es (takedown_step e db))"

lemma takedown_run_effect:
  "all_pending db \<Longrightarrow>
   all_pending (fold takedown_step es db) \<and> md_audit (fold takedown_step es db) = md_audit db \<and>
   (\<exists>new. md_takedowns (fold takedown_step es db) = md_takedowns db @ new) \<and>
   flag_state sid (fold takedown_step es db) =
     (if approved_in sid es db then map_option (\<lambda>(st, _). (st, True)) (flag_state sid db) else flag_state sid db)"
proof (induction es arbitrary: db)
  case (Cons e es)
  note step = takedown_step_effect(2-4) [OF Cons.prems, where e = e]
    takedown_step_effect(5) [OF Cons.prems, where e = e and sid = sid]
  have twice: "map_option (\<lambda>(st, _). (st, True)) (map_option (\<lambda>(st, _). (st, True)) x) =
      (map_option (\<lambda>(st, _). (st, True)) x :: (song_status \<times> bool) option)" for x :: "(song_status \<times> bool) option"
    by (cases x) auto
  from Cons.IH [OF step(1)] step(2-4) show ?case by (auto simp: twice)
qed simp

text \<open>
  C17: Nothing ever comes of a takedown request, because the audit entry lacks the required user. After
  any run of new requests and reviews that starts with pending requests only, every request of either
  kind is answered with an error, every request filed so far is stored and still pending, and no audit
  entry is written. Yet an approval does flag its song: a song is flagged exactly when it was at the
  start or an approval of one of its requests was attempted, and nothing in the service lifts the flag.
\<close>

theorem takedowns_never_complete:
  assumes "all_pending db"
  shows "let db' = fold takedown_step es db in
     all_pending db' \<and> (\<exists>new. md_takedowns db' = md_takedowns db @ new) \<and> md_audit db' = md_audit db \<and>
     (\<forall>e. \<exists>err. fst (takedown_do e db') = Inl err) \<and>
     (\<forall>sid s. find_song sid db = Some s \<longrightarrow> (\<exists>s'. find_song sid db' = Some s' \<and> sg_status s' = sg_status s \<and>
        (sg_flagged s' \<longleftrightarrow> sg_flagged s \<or> approved_in sid es db)))"
proof -
  note run = takedown_run_effect [OF assms, of es]
  have "\<exists>err. fst (takedown_do e (fold takedown_step es db)) = Inl err" for e
    using run by (intro takedown_step_effect(1)) simp
  moreover have "\<exists>s'. find_song sid (fold takedown_step es db) = Some s' \<and> sg_status s' = sg_status s \<and>
        (sg_flagged s' \<longleftrightarrow> sg_flagged s \<or> approved_in sid es db)"
    if "find_song sid db = Some s" for sid s
    using run [of sid] that by (cases "approved_in sid es db") (auto simp: flag_state_def)
  ultimately show ?thesis using run by (simp add: Let_def)
qed

text \<open>A request for the song, its approval and the attempt to reverse it.\<close>

definition takedown_events :: "takedown_event list" where
  "takedown_events = [(open_log, 5, TO_create ''t1'' ''holder'' ''a'' None None None),
     (open_log, 6, TO_review ''t1'' ''adm'' ''approve'' None), (open_log, 7, TO_review ''t1'' ''adm'' ''reverse'' None)]"

theorem takedowns_never_complete_witness:
  "map_option sg_flagged (find_song ''a'' (fold takedown_step takedown_events clean_db)) = Some True \<and>
   all_pending (fold takedown_step takedown_events clean_db)"
proof -
  have pend: "all_pending clean_db" by code_simp
  have clean: "find_song ''a'' clean_db = Some (clean_song ''a'')" by code_simp
  have "approved_in ''a'' takedown_events clean_db" by code_simp
  with takedowns_never_complete [OF pend, of takedown_events, unfolded Let_def] clean
  obtain s' where "find_song ''a'' (fold takedown_step takedown_events clean_db) = Some s'" "sg_flagged s'" by blast
  moreover have "all_pending (fold takedown_step takedown_events clean_db)"
    using takedowns_never_complete [OF pend, of takedown_events, unfolded Let_def] by blast
  ultimately show ?thesis by simp
qed

text \<open>
  A song that was flagged by its reports when the approval of a takedown was attempted stays unavailable
  after all its reports are dismissed: the approval replaces the automatic flag by the admin's.
\<close>

lemma takedown_blocks_report_restoration:
  "let db = dismiss_all open_log 9 ''m'' None [''r'', ''q''] (fold takedown_step takedown_events two_reports) in
     countPendingForSong ''a'' db = 0 \<and> map td_status (md_takedowns db) = [TS_PENDING] \<and>
     map_option sg_flagged (find_song ''a'' db) = Some True"
  by code_simp

end
