(* ===== verification/Job_Queue.thy ===== *)
theory Job_Queue
  imports AppErrors "HOL-Library.Multiset"
begin

text \<open>
  The background job queue: \<open>services/JobQueueService.ts\<close> and the worker loop of
  \<open>workers/JobQueueWorker.ts\<close>. The state is what Redis holds (the three lists, the job records, the
  dead-letter list and the counters) and what the process holds: the jobs its workers have reserved and
  the timers that will put failed jobs back. Ids come from a counter, which stands for \<open>randomUUID\<close>
  never repeating itself.
\<close>

subsection \<open>State\<close>

datatype job_priority = P_CRITICAL | P_NORMAL | P_LOW

datatype job_status = J_PENDING | J_PROCESSING | J_COMPLETED | J_FAILED

record job =
  job_id :: nat
  job_type :: string
  job_payload :: string
  job_priority_of :: job_priority
  job_status_of :: job_status
  job_attempts :: int
  job_maxAttempts :: int
  job_createdAt :: timestamp
  job_updatedAt :: timestamp
  job_lastError :: "string option"

text \<open>
  A Redis list has its left end first: \<open>LPUSH\<close> adds at the head and \<open>BRPOP\<close> takes from the end. A
  record carries the time to live it was saved with.
\<close>

record job_state =
  jq_queue :: "job_priority \<Rightarrow> nat list"
  jq_records :: "nat \<Rightarrow> (job \<times> int option) option"
  jq_dlq :: "nat list"
  jq_stats :: "job_status \<Rightarrow> int"
  jq_held :: "job list"
  jq_timers :: "(nat \<times> job_priority) list"
  jq_nextId :: nat

record job_config =
  jc_maxAttempts :: int
  jc_backoffBaseMs :: int
  jc_backoffMaxMs :: int
  jc_completedTtlS :: int

definition PRIORITIES :: "job_priority list" where
  "PRIORITIES = [P_CRITICAL, P_NORMAL, P_LOW]"

definition empty_queues :: job_state where
  "empty_queues = \<lparr>jq_queue = (\<lambda>_. []), jq_records = Map.empty, jq_dlq = [], jq_stats = (\<lambda>_. 0),
     jq_held = [], jq_timers = [], jq_nextId = 0\<rparr>"

subsection \<open>Operations\<close>

definition backoffDelay :: "job_config \<Rightarrow> nat \<Rightarrow> int" where
  "backoffDelay cfg attempt = min (jc_backoffBaseMs cfg * 2 ^ (attempt - 1)) (jc_backoffMaxMs cfg)"

definition lpush_job :: "job_priority \<Rightarrow> nat \<Rightarrow> job_state \<Rightarrow> job_state" where
  "lpush_job p i s = s\<lparr>jq_queue := (jq_queue s)(p := i # jq_queue s p)\<rparr>"

definition saveRecord :: "job \<Rightarrow> int option \<Rightarrow> job_state \<Rightarrow> job_state" where
  "saveRecord j ttl s =
     s\<lparr>jq_records := (jq_records s)(job_id j \<mapsto> (j, case ttl of None \<Rightarrow> None | Some t \<Rightarrow> if 0 < t then Some t else None))\<rparr>"

definition setStatus :: "timestamp \<Rightarrow> job_status \<Rightarrow> job \<Rightarrow> job_state \<Rightarrow> job \<times> job_state" where
  "setStatus now st j s =
     (j\<lparr>job_status_of := st, job_updatedAt := now\<rparr>,
      if job_status_of j \<noteq> st
      then s\<lparr>jq_stats := (jq_stats s)(job_status_of j := jq_stats s (job_status_of j) - 1, st := jq_stats s st + 1)\<rparr>
      else s)"

definition enqueue_job ::
  "job_config \<Rightarrow> timestamp \<Rightarrow> string \<Rightarrow> string \<Rightarrow> job_priority option \<Rightarrow> int option \<Rightarrow> job_state \<Rightarrow> job \<times> job_state" where
  "enqueue_job cfg now ty payload prio maxAttempts s =
     (let j = \<lparr>job_id = jq_nextId s, job_type = ty, job_payload = payload,
               job_priority_of = (case prio of None \<Rightarrow> P_NORMAL | Some p \<Rightarrow> p), job_status_of = J_PENDING,
               job_attempts = 0,
               job_maxAttempts = (case maxAttempts of None \<Rightarrow> jc_maxAttempts cfg | Some m \<Rightarrow> m),
               job_createdAt = now, job_updatedAt = now, job_lastError = None\<rparr>;
          s1 = saveRecord j None (s\<lparr>jq_nextId := jq_nextId s + 1\<rparr>);
          s2 = s1\<lparr>jq_stats := (jq_stats s1)(J_PENDING := jq_stats s1 J_PENDING + 1)\<rparr>
      in (j, lpush_job (job_priority_of j) (job_id j) s2))"

definition getJob :: "nat \<Rightarrow> job_state \<Rightarrow> job option" where
  "getJob i s = map_option fst (jq_records s i)"

text \<open>\<open>BRPOP\<close> over several lists: the end of the first one that is not empty.\<close>

fun brpop :: "job_priority list \<Rightarrow> job_state \<Rightarrow> (nat \<times> job_state) option" where
  "brpop [] s = None"
| "brpop (p # ps) s =
     (case jq_queue s p of
        [] \<Rightarrow> brpop ps s
      | xs \<Rightarrow> Some (last xs, s\<lparr>jq_queue := (jq_queue s)(p := butlast xs)\<rparr>))"

text \<open>A reserved job stays in the memory of the worker that took it.\<close>

definition reserve :: "timestamp \<Rightarrow> job_state \<Rightarrow> job option \<times> job_state" where
  "reserve now s =
     (case brpop PRIORITIES s of
        None \<Rightarrow> (None, s)
      | Some (i, s1) \<Rightarrow>
          (case getJob i s1 of
             None \<Rightarrow> (None, s1)
           | Some j \<Rightarrow>
               let (j', s2) = setStatus now J_PROCESSING (j\<lparr>job_attempts := job_attempts j + 1\<rparr>) s1;
                   s3 = saveRecord j' None s2
               in (Some j', s3\<lparr>jq_held := jq_held s3 @ [j']\<rparr>)))"

definition complete_job :: "job_config \<Rightarrow> timestamp \<Rightarrow> job \<Rightarrow> job_state \<Rightarrow> job_state" where
  "complete_job cfg now j s =
     (let (j', s1) = setStatus now J_COMPLETED j s in saveRecord j' (Some (jc_completedTtlS cfg)) s1)"

definition moveToDLQ :: "timestamp \<Rightarrow> job \<Rightarrow> job_state \<Rightarrow> job_state" where
  "moveToDLQ now j s =
     (let (j', s1) = setStatus now J_FAILED j s;
          s2 = saveRecord j' None s1
      in s2\<lparr>jq_dlq := job_id j' # jq_dlq s2\<rparr>)"

definition fail_job :: "timestamp \<Rightarrow> job \<Rightarrow> string \<Rightarrow> job_state \<Rightarrow> bool \<times> job_state" where
  "fail_job now j err s =
     (let j1 = j\<lparr>job_lastError := Some err\<rparr> in
      if job_attempts j1 < job_maxAttempts j1
      then let (j2, s1) = setStatus now J_PENDING j1 s;
               s2 = saveRecord j2 None s1
           in (True, s2\<lparr>jq_timers := jq_timers s2 @ [(job_id j2, job_priority_of j2)]\<rparr>)
      else (False, moveToDLQ now j1 s))"

text \<open>\<open>LRANGE\<close> from 0; a negative end counts from the right, so a limit of 0 asks for everything.\<close>

definition lrange_to :: "int \<Rightarrow> 'a list \<Rightarrow> 'a list" where
  "lrange_to stop xs = take (nat (if stop < 0 then int (length xs) + stop + 1 else stop + 1)) xs"

definition getDeadLetterJobs :: "int \<Rightarrow> job_state \<Rightarrow> job list" where
  "getDeadLetterJobs limit s = List.map_filter (\<lambda>i. getJob i s) (lrange_to (limit - 1) (jq_dlq s))"

record job_queue_stats =
  js_queues :: "(job_priority \<times> nat) list"
  js_totalQueued :: nat
  js_dlq :: nat
  js_byStatus :: "(job_status \<times> int) list"

definition getStats :: "job_state \<Rightarrow> job_queue_stats" where
  "getStats s = \<lparr>js_queues = map (\<lambda>p. (p, length (jq_queue s p))) PRIORITIES,
     js_totalQueued = length (jq_queue s P_CRITICAL) + length (jq_queue s P_NORMAL) + length (jq_queue s P_LOW),
     js_dlq = length (jq_dlq s),
     js_byStatus = map (\<lambda>st. (st, jq_stats s st)) [J_PENDING, J_PROCESSING, J_COMPLETED, J_FAILED]\<rparr>"

subsection \<open>The worker and its environment\<close>

text \<open>
  What became of a reserved job: no handler for its type, or the handler returned or threw. A worker
  takes the \<open>i\<close>th of the jobs held; \<open>i\<close> out of range is no event.
\<close>

datatype handler_outcome = NoHandler | Handled | Threw string

definition finish_job :: "job_config \<Rightarrow> timestamp \<Rightarrow> nat \<Rightarrow> handler_outcome \<Rightarrow> job_state \<Rightarrow> job_state" where
  "finish_job cfg now i out s =
     (if i < length (jq_held s)
      then let j = jq_held s ! i;
               s1 = s\<lparr>jq_held := remove_nth i (jq_held s)\<rparr>
           in (case out of
                 NoHandler \<Rightarrow> snd (fail_job now j (''No handler registered for job type \"'' @ job_type j @ ''\"'') s1)
               | Handled \<Rightarrow> complete_job cfg now j s1
               | Threw e \<Rightarrow> snd (fail_job now j e s1))
      else s)"

text \<open>A re-queue timer fires; a completed record outlives its time to live; the process dies.\<close>

definition timer_due :: "nat \<Rightarrow> job_state \<Rightarrow> job_state" where
  "timer_due i s =
     (if i < length (jq_timers s)
      then lpush_job (snd (jq_timers s ! i)) (fst (jq_timers s ! i)) (s\<lparr>jq_timers := remove_nth i (jq_timers s)\<rparr>)
      else s)"

definition expire_record :: "nat \<Rightarrow> job_state \<Rightarrow> job_state" where
  "expire_record i s =
     (case jq_records s i of
        Some (_, Some _) \<Rightarrow> s\<lparr>jq_records := (jq_records s)(i := None)\<rparr>
      | _ \<Rightarrow> s)"

definition process_restart :: "job_state \<Rightarrow> job_state" where
  "process_restart s = s\<lparr>jq_held := [], jq_timers := []\<rparr>"

datatype job_event =
    JE_enqueue string string "job_priority option" "int option"
  | JE_reserve
  | JE_finish nat handler_outcome
  | JE_timer nat
  | JE_expire nat

fun job_step :: "job_config \<Rightarrow> timestamp \<times> job_event \<Rightarrow> job_state \<Rightarrow> job_state" where
  "job_step cfg (now, JE_enqueue ty payload p m) s = snd (enqueue_job cfg now ty payload p m s)"
| "job_step cfg (now, JE_reserve) s = snd (reserve now s)"
| "job_step cfg (now, JE_finish i out) s = finish_job cfg now i out s"
| "job_step cfg (now, JE_timer i) s = timer_due i s"
| "job_step cfg (now, JE_expire i) s = expire_record i s"

subsection \<open>Where a job is\<close>

definition live_ids :: "job_state \<Rightarrow> nat list" where
  "live_ids s = concat (map (jq_queue s) PRIORITIES) @ map job_id (jq_held s) @ map fst (jq_timers s) @ jq_dlq s"

lemma live_ids_records [simp]: "live_ids (s\<lparr>jq_records := r\<rparr>) = live_ids s"
  by (simp add: live_ids_def)

definition waits :: "job_state \<Rightarrow> nat \<Rightarrow> job_priority \<Rightarrow> bool" where
  "waits s i p \<longleftrightarrow> i \<in> set (jq_queue s p) \<or> (i, p) \<in> set (jq_timers s)"

definition allowed_attempts :: "job \<Rightarrow> int" where
  "allowed_attempts j = max 1 (job_maxAttempts j)"

definition job_ok :: "job_state \<Rightarrow> nat \<Rightarrow> bool" where
  "job_ok s i \<longleftrightarrow>
     (case jq_records s i of
        None \<Rightarrow> i \<notin> set (live_ids s)
      | Some (j, ttl) \<Rightarrow>
          job_id j = i \<and> 0 \<le> job_attempts j \<and> job_attempts j \<le> allowed_attempts j \<and>
          (case job_status_of j of
             J_PENDING \<Rightarrow> ttl = None \<and> waits s i (job_priority_of j) \<and> job_attempts j < allowed_attempts j
           | J_PROCESSING \<Rightarrow> ttl = None \<and> j \<in> set (jq_held s) \<and> 1 \<le> job_attempts j
           | J_FAILED \<Rightarrow> ttl = None \<and> i \<in> set (jq_dlq s) \<and> job_maxAttempts j \<le> job_attempts j
           | J_COMPLETED \<Rightarrow> i \<notin> set (live_ids s)))"

text \<open>The status the counters have for a job: a record that expired was completed.\<close>

definition status_at :: "job_state \<Rightarrow> nat \<Rightarrow> job_status" where
  "status_at s i = (case jq_records s i of None \<Rightarrow> J_COMPLETED | Some (j, _) \<Rightarrow> job_status_of j)"

definition count_at :: "job_state \<Rightarrow> job_status \<Rightarrow> int" where
  "count_at s st = (\<Sum>i<jq_nextId s. of_bool (status_at s i = st))"

definition jobs_ok :: "job_state \<Rightarrow> bool" where
  "jobs_ok s \<longleftrightarrow> distinct (live_ids s) \<and> (\<forall>i\<in>set (live_ids s). i < jq_nextId s) \<and>
     (\<forall>i<jq_nextId s. job_ok s i) \<and> (\<forall>i\<ge>jq_nextId s. jq_records s i = None) \<and>
     (\<forall>st. jq_stats s st = count_at s st)"

lemma all_priorities: "(\<forall>p. P p) \<longleftrightarrow> P P_CRITICAL \<and> P P_NORMAL \<and> P P_LOW"
  by (metis job_priority.exhaust)

lemma ex_priority: "(\<exists>p. P p) \<longleftrightarrow> P P_CRITICAL \<or> P P_NORMAL \<or> P P_LOW"
  by (metis job_priority.exhaust)

lemma live_iff:
  "i \<in> set (live_ids s) \<longleftrightarrow> (\<exists>p. waits s i p) \<or> (\<exists>j\<in>set (jq_held s). job_id j = i) \<or> i \<in> set (jq_dlq s)"
proof -
  have "i \<in> set (concat (map (jq_queue s) PRIORITIES)) \<longleftrightarrow> (\<exists>p. i \<in> set (jq_queue s p))"
    by (simp add: PRIORITIES_def ex_priority)
  moreover have "i \<in> set (map fst (jq_timers s)) \<longleftrightarrow> (\<exists>p. (i, p) \<in> set (jq_timers s))" by force
  ultimately show ?thesis unfolding live_ids_def waits_def by (auto simp: image_iff)
qed

lemma mset_live:
  "mset (live_ids s) = mset (jq_queue s P_CRITICAL) + mset (jq_queue s P_NORMAL) + mset (jq_queue s P_LOW) +
     image_mset job_id (mset (jq_held s)) + image_mset fst (mset (jq_timers s)) + mset (jq_dlq s)"
  by (simp add: live_ids_def PRIORITIES_def ac_simps)

lemma job_ok_frame:
  assumes "jq_records s' k = jq_records s k" and "\<And>p. k \<in> set (jq_queue s' p) \<longleftrightarrow> k \<in> set (jq_queue s p)"
    and "\<And>p. (k, p) \<in> set (jq_timers s') \<longleftrightarrow> (k, p) \<in> set (jq_timers s)"
    and "\<And>j. job_id j = k \<Longrightarrow> j \<in> set (jq_held s') \<longleftrightarrow> j \<in> set (jq_held s)"
    and "k \<in> set (jq_dlq s') \<longleftrightarrow> k \<in> set (jq_dlq s)"
  shows "job_ok s' k \<longleftrightarrow> job_ok s k"
proof -
  have waits: "waits s' k p \<longleftrightarrow> waits s k p" for p using assms(2,3) by (simp add: waits_def)
  have "(\<exists>j\<in>set (jq_held s'). job_id j = k) \<longleftrightarrow> (\<exists>j\<in>set (jq_held s). job_id j = k)"
    using assms(4) by blast
  then have live: "k \<in> set (live_ids s') \<longleftrightarrow> k \<in> set (live_ids s)" using waits assms(5) by (simp add: live_iff)
  show ?thesis
    by (simp only: job_ok_def assms(1) waits live assms(5))
      (auto simp: assms(4) split: option.split job_status.split)
qed

text \<open>One job changes its record: the counters.\<close>

lemma count_at_update:
  assumes "i < jq_nextId s" and "jq_nextId s' = jq_nextId s" and "\<And>k. k \<noteq> i \<Longrightarrow> jq_records s' k = jq_records s k"
  shows "count_at s' st = count_at s st - of_bool (status_at s i = st) + of_bool (status_at s' i = st)"
proof -
  let ?R = "{..<jq_nextId s} - {i}"
  have split: "(\<Sum>k<jq_nextId s. f k) = f i + (\<Sum>k\<in>?R. f k)" for f :: "nat \<Rightarrow> int"
    using assms(1) by (simp add: sum.remove)
  have "(\<Sum>k\<in>?R. of_bool (status_at s' k = st)) = (\<Sum>k\<in>?R. of_bool (status_at s k = st) :: int)"
    by (rule sum.cong) (simp_all add: status_at_def assms(3))
  then show ?thesis by (simp add: count_at_def assms(2) split)
qed

text \<open>
  An operation that moves one job \<open>i\<close> to another place and rewrites its record keeps the invariant when
  the ids in the places stay the same, nothing else changes and \<open>i\<close> is right where it is now.
\<close>

definition others_same :: "nat \<Rightarrow> job_state \<Rightarrow> job_state \<Rightarrow> bool" where
  "others_same i s s' \<longleftrightarrow> jq_nextId s' = jq_nextId s \<and> (\<forall>k. k \<noteq> i \<longrightarrow>
     jq_records s' k = jq_records s k \<and> (\<forall>p. k \<in> set (jq_queue s' p) \<longleftrightarrow> k \<in> set (jq_queue s p)) \<and>
     (\<forall>p. (k, p) \<in> set (jq_timers s') \<longleftrightarrow> (k, p) \<in> set (jq_timers s)) \<and>
     (\<forall>j. job_id j = k \<longrightarrow> (j \<in> set (jq_held s') \<longleftrightarrow> j \<in> set (jq_held s))) \<and>
     (k \<in> set (jq_dlq s') \<longleftrightarrow> k \<in> set (jq_dlq s)))"

lemma jobs_ok_move:
  assumes "jobs_ok s" and "i < jq_nextId s" and "others_same i s s'" and "job_ok s' i"
    and "distinct (live_ids s')" and "set (live_ids s') \<subseteq> set (live_ids s)"
    and "\<And>st. jq_stats s' st = jq_stats s st - of_bool (status_at s i = st) + of_bool (status_at s' i = st)"
  shows "jobs_ok s'"
proof -
  have nid: "jq_nextId s' = jq_nextId s" using assms(3) by (simp add: others_same_def)
  have "job_ok s' k" if "k < jq_nextId s'" for k
  proof (cases "k = i")
    case False
    then have "job_ok s' k \<longleftrightarrow> job_ok s k" using assms(3) by (intro job_ok_frame) (simp_all add: others_same_def)
    with assms(1) that nid show ?thesis by (simp add: jobs_ok_def)
  qed (use assms(4) in simp)
  moreover have "jq_records s' k = None" if "jq_nextId s' \<le> k" for k
    using that assms(1,2,3) nid by (auto simp: others_same_def jobs_ok_def)
  moreover have "jq_stats s' st = count_at s' st" for st
    using assms(1,7) count_at_update [OF assms(2) nid] assms(3)
    by (simp add: jobs_ok_def others_same_def)
  ultimately show ?thesis using assms(1,5,6) nid by (auto simp: jobs_ok_def)
qed

text \<open>Reading the invariant: the record of a job in each of the places.\<close>

lemma unique_place:
  assumes "jobs_ok s"
  shows "i \<in> set (jq_queue s p) \<Longrightarrow> waits s i p' \<Longrightarrow> p' = p"
    and "(i, p) \<in> set (jq_timers s) \<Longrightarrow> waits s i p' \<Longrightarrow> p' = p"
    and "waits s i p \<Longrightarrow> j \<in> set (jq_held s) \<Longrightarrow> job_id j \<noteq> i" and "waits s i p \<Longrightarrow> i \<notin> set (jq_dlq s)"
    and "j \<in> set (jq_held s) \<Longrightarrow> job_id j \<notin> set (jq_dlq s)"
    and "j \<in> set (jq_held s) \<Longrightarrow> j' \<in> set (jq_held s) \<Longrightarrow> job_id j' = job_id j \<Longrightarrow> j' = j"
proof -
  have d: "distinct (live_ids s)" using assms by (simp add: jobs_ok_def)
  define cq where "cq p k = count (mset (jq_queue s p)) k" for p k
  define ch where "ch k = count (image_mset job_id (mset (jq_held s))) k" for k
  define ct where "ct k = count (image_mset fst (mset (jq_timers s))) k" for k
  define cd where "cd k = count (mset (jq_dlq s)) k" for k
  have one: "cq P_CRITICAL k + cq P_NORMAL k + cq P_LOW k + ch k + ct k + cd k \<le> 1" for k
  proof -
    have "count (mset (live_ids s)) k \<le> 1" using d unfolding distinct_count_atmost_1 by simp
    then show ?thesis by (simp only: mset_live count_union cq_def ch_def ct_def cd_def)
  qed
  have q: "i \<in> set (jq_queue s p) \<Longrightarrow> 0 < cq p i" and dl: "i \<in> set (jq_dlq s) \<Longrightarrow> 0 < cd i" for i p
    by (simp_all add: cq_def cd_def)
  have t: "(i, p) \<in> set (jq_timers s) \<Longrightarrow> 0 < ct i" for i p by (force simp: ct_def image_iff)
  have h: "j \<in> set (jq_held s) \<Longrightarrow> 0 < ch (job_id j)" for j by (force simp: ch_def image_iff)
  have qq: "i \<in> set (jq_queue s p) \<Longrightarrow> i \<in> set (jq_queue s p') \<Longrightarrow> p' = p" for i p p'
    using one [of i] q [of i p] q [of i p'] by (cases p; cases p') simp_all
  have inj: "inj_on fst (set (jq_timers s))" using d unfolding live_ids_def by (simp add: distinct_map)
  have tt: "(i, p) \<in> set (jq_timers s) \<Longrightarrow> (i, p') \<in> set (jq_timers s) \<Longrightarrow> p' = p" for i p p'
    using inj_onD [OF inj, of "(i, p)" "(i, p')"] by simp
  have qt: "i \<in> set (jq_queue s p) \<Longrightarrow> (i, p') \<notin> set (jq_timers s)" for i p p'
    using one [of i] q [of i p] t [of i p'] by (cases p) fastforce+
  show "i \<in> set (jq_queue s p) \<Longrightarrow> waits s i p' \<Longrightarrow> p' = p"
    "(i, p) \<in> set (jq_timers s) \<Longrightarrow> waits s i p' \<Longrightarrow> p' = p"
    using qq tt qt unfolding waits_def by blast+
  have w: "waits s i p \<Longrightarrow> 0 < cq P_CRITICAL i + cq P_NORMAL i + cq P_LOW i + ct i" for i p
    using q [of i p] t [of i p] unfolding waits_def by (cases p) auto
  show "waits s i p \<Longrightarrow> j \<in> set (jq_held s) \<Longrightarrow> job_id j \<noteq> i"
    using one [of i] w [of i p] h [of j] by auto
  show "waits s i p \<Longrightarrow> i \<notin> set (jq_dlq s)"
    using one [of i] w [of i p] dl [of i] by auto
  show "j \<in> set (jq_held s) \<Longrightarrow> job_id j \<notin> set (jq_dlq s)"
    using one [of "job_id j"] h [of j] dl [of "job_id j"] by auto
  have inj_h: "inj_on job_id (set (jq_held s))" using d unfolding live_ids_def by (simp add: distinct_map)
  show "j \<in> set (jq_held s) \<Longrightarrow> j' \<in> set (jq_held s) \<Longrightarrow> job_id j' = job_id j \<Longrightarrow> j' = j"
    using inj_onD [OF inj_h] by blast
qed

lemma distinct_live_queue_timer:
  assumes "jobs_ok s" and "(i, p) \<in> set (jq_timers s)"
  shows "i \<notin> set (jq_queue s q)"
proof
  assume "i \<in> set (jq_queue s q)"
  moreover have "i \<in> set (map fst (jq_timers s))" using assms(2) by force
  moreover have "distinct (concat (map (jq_queue s) PRIORITIES) @ map job_id (jq_held s) @ map fst (jq_timers s) @ jq_dlq s)"
    using assms(1) by (simp add: jobs_ok_def live_ids_def)
  moreover have "set (jq_queue s q) \<subseteq> set (concat (map (jq_queue s) PRIORITIES))"
    by (cases q) (auto simp: PRIORITIES_def)
  ultimately show False by auto
qed

lemma job_ok_live: "jobs_ok s \<Longrightarrow> i \<in> set (live_ids s) \<Longrightarrow> job_ok s i \<and> i < jq_nextId s"
  by (simp add: jobs_ok_def)

lemma waiting_record:
  assumes "jobs_ok s" and "waits s i p"
  obtains j where "jq_records s i = Some (j, None)" "job_id j = i" "job_status_of j = J_PENDING"
    "job_priority_of j = p" "0 \<le> job_attempts j" "job_attempts j < allowed_attempts j" "i < jq_nextId s"
proof -
  have live: "i \<in> set (live_ids s)" using assms(2) by (auto simp: live_iff)
  note ok = job_ok_live [OF assms(1) live]
  then obtain j ttl where j: "jq_records s i = Some (j, ttl)" using live by (auto simp: job_ok_def split: option.splits)
  have "job_status_of j = J_PENDING"
    using ok j live unique_place(3,4) [OF assms]
    by (auto simp: job_ok_def split: job_status.splits)
  moreover from this ok j have "ttl = None" "waits s i (job_priority_of j)" by (auto simp: job_ok_def)
  moreover have "job_priority_of j = p"
    using assms(2) calculation(3) unique_place(1,2) [OF assms(1)] unfolding waits_def by metis
  ultimately show thesis using that ok j by (auto simp: job_ok_def)
qed

lemma held_record:
  assumes "jobs_ok s" and "j \<in> set (jq_held s)"
  shows "jq_records s (job_id j) = Some (j, None) \<and> job_status_of j = J_PROCESSING \<and> 1 \<le> job_attempts j \<and>
     job_attempts j \<le> allowed_attempts j \<and> job_id j < jq_nextId s"
proof -
  have live: "job_id j \<in> set (live_ids s)" using assms(2) by (auto simp: live_iff)
  note ok = job_ok_live [OF assms(1) live]
  then obtain j' ttl where j': "jq_records s (job_id j) = Some (j', ttl)"
    using live by (auto simp: job_ok_def split: option.splits)
  have "job_status_of j' = J_PROCESSING"
    using ok j' live unique_place(3,5) [OF assms(1)] assms(2)
    by (auto simp: job_ok_def split: job_status.splits)
  moreover from this ok j' unique_place(6) [OF assms] have "j' = j" by (auto simp: job_ok_def)
  ultimately show ?thesis using ok j' by (auto simp: job_ok_def)
qed

subsection \<open>Every step keeps the invariant\<close>

lemma brpop_Some:
  assumes "brpop ps s = Some (i, s1)"
  obtains p where "p \<in> set ps" "jq_queue s p \<noteq> []" "i = last (jq_queue s p)"
    "s1 = s\<lparr>jq_queue := (jq_queue s)(p := butlast (jq_queue s p))\<rparr>"
    "\<forall>p'\<in>set (takeWhile (\<lambda>x. x \<noteq> p) ps). jq_queue s p' = []"
  using assms
proof (induction ps arbitrary: thesis)
  case (Cons q qs)
  show ?case
  proof (cases "jq_queue s q")
    case Nil
    with Cons.prems(2) have "brpop qs s = Some (i, s1)" by simp
    then show thesis
    proof (rule Cons.IH [rotated])
      fix p assume p: "p \<in> set qs" "jq_queue s p \<noteq> []" "i = last (jq_queue s p)"
        "s1 = s\<lparr>jq_queue := (jq_queue s)(p := butlast (jq_queue s p))\<rparr>"
        "\<forall>p'\<in>set (takeWhile (\<lambda>x. x \<noteq> p) qs). jq_queue s p' = []"
      show thesis by (rule Cons.prems(1) [OF _ p(2-4)]) (use p Nil in auto)
    qed
  next
    case (Cons x xs)
    then have i: "i = last (jq_queue s q)"
      and s1: "s1 = s\<lparr>jq_queue := (jq_queue s)(q := butlast (jq_queue s q))\<rparr>"
      using Cons.prems(2) by (simp_all split: if_splits)
    show thesis by (rule Cons.prems(1) [OF _ _ i s1]) (simp_all add: Cons)
  qed
qed simp

lemma distinct_of_mset: "mset xs = mset ys \<Longrightarrow> distinct ys \<Longrightarrow> distinct xs \<and> set xs \<subseteq> set ys"
  by (metis mset_eq_imp_distinct_iff order_refl set_mset_mset)

lemma jobs_ok_moved:
  assumes "jobs_ok s" and "i < jq_nextId s" and "others_same i s s'" and "job_ok s' i"
    and "mset (live_ids s') = mset (live_ids s)"
    and "\<And>st. jq_stats s' st = jq_stats s st - of_bool (status_at s i = st) + of_bool (status_at s' i = st)"
  shows "jobs_ok s'"
proof -
  have "distinct (live_ids s)" using assms(1) by (simp add: jobs_ok_def)
  with distinct_of_mset [OF assms(5)] show ?thesis
    by (intro jobs_ok_move [OF assms(1-4) _ _ assms(6)]) simp_all
qed

text \<open>A record saved under its id with a status, and the counters moved along.\<close>

lemma setStatus_save:
  "snd (setStatus now st j s) = s\<lparr>jq_stats := \<lambda>x. jq_stats s x - of_bool (job_status_of j = x) + of_bool (st = x)\<rparr>"
  by (auto simp: setStatus_def fun_eq_iff)

lemma setStatus_job:
  "fst (setStatus now st j s) = j\<lparr>job_status_of := st, job_updatedAt := now\<rparr>"
  by (simp add: setStatus_def)

lemma setStatus_eq:
  "setStatus now st j s = (j\<lparr>job_status_of := st, job_updatedAt := now\<rparr>,
     s\<lparr>jq_stats := \<lambda>x. jq_stats s x - of_bool (job_status_of j = x) + of_bool (st = x)\<rparr>)"
  by (simp add: prod_eq_iff setStatus_save setStatus_job)

lemma allowed_attempts_update [simp]:
  "allowed_attempts (j\<lparr>job_status_of := st\<rparr>) = allowed_attempts j"
  "allowed_attempts (j\<lparr>job_updatedAt := t\<rparr>) = allowed_attempts j"
  "allowed_attempts (j\<lparr>job_attempts := n\<rparr>) = allowed_attempts j"
  "allowed_attempts (j\<lparr>job_lastError := e\<rparr>) = allowed_attempts j"
  by (simp_all add: allowed_attempts_def)

lemma reserve_ok:
  assumes "jobs_ok s"
  shows "jobs_ok (snd (reserve now s))"
proof (cases "brpop PRIORITIES s")
  case None
  with assms show ?thesis by (simp add: reserve_def)
next
  case (Some r)
  then obtain i s1 where "brpop PRIORITIES s = Some (i, s1)" by (cases r) auto
  then obtain p where p: "jq_queue s p \<noteq> []" "i = last (jq_queue s p)"
    and s1: "s1 = s\<lparr>jq_queue := (jq_queue s)(p := butlast (jq_queue s p))\<rparr>" and pop: "brpop PRIORITIES s = Some (i, s1)"
    by (auto elim: brpop_Some)
  have waits: "waits s i p" using p by (simp add: waits_def)
  obtain j where j: "jq_records s i = Some (j, None)" "job_id j = i" "job_status_of j = J_PENDING"
      "0 \<le> job_attempts j" "job_attempts j < allowed_attempts j" "i < jq_nextId s"
    using waiting_record [OF assms waits] by metis
  define j' where "j' = j\<lparr>job_attempts := job_attempts j + 1, job_status_of := J_PROCESSING, job_updatedAt := now\<rparr>"
  define s' where "s' = snd (reserve now s)"
  have s': "s' = s\<lparr>jq_queue := (jq_queue s)(p := butlast (jq_queue s p)),
      jq_records := (jq_records s)(i \<mapsto> (j', None)), jq_held := jq_held s @ [j'],
      jq_stats := \<lambda>x. jq_stats s x - of_bool (J_PENDING = x) + of_bool (J_PROCESSING = x)\<rparr>"
    using pop j by (simp add: s'_def reserve_def getJob_def s1 setStatus_eq saveRecord_def j'_def)
  have j'_simps: "job_id j' = i" "job_status_of j' = J_PROCESSING" "job_attempts j' = job_attempts j + 1"
      "allowed_attempts j' = allowed_attempts j"
    using j(2) by (simp_all add: j'_def)
  have queue: "jq_queue s p = butlast (jq_queue s p) @ [i]" using p by simp
  then have in_queue: "k \<noteq> i \<Longrightarrow> k \<in> set (butlast (jq_queue s p)) \<longleftrightarrow> k \<in> set (jq_queue s p)" for k
    by (metis Un_iff empty_iff insert_iff list.set(1,2) set_append)
  have "mset (jq_queue s p) = add_mset i (mset (butlast (jq_queue s p)))"
    using arg_cong [OF queue, of mset] by simp
  then have "mset (live_ids s') = mset (live_ids s)"
    by (cases p) (simp_all add: mset_live s' j'_simps)
  moreover have "others_same i s s'" using in_queue by (auto simp: others_same_def s' j'_simps)
  moreover have "job_ok s' i" using j by (simp add: job_ok_def s' j'_simps)
  ultimately show ?thesis
    using jobs_ok_moved [OF assms j(6), of s'] j(1,3)
    by (simp add: s'_def [symmetric]) (simp add: s' status_at_def j'_simps)
qed

lemma mset_remove_nth: "i < length xs \<Longrightarrow> mset xs = add_mset (xs ! i) (mset (remove_nth i xs))"
  by (erule remove_nth_split) (metis mset.simps(2) mset_append union_mset_add_mset_right)

lemma in_remove_nth: "i < length xs \<Longrightarrow> x \<noteq> xs ! i \<Longrightarrow> x \<in> set (remove_nth i xs) \<longleftrightarrow> x \<in> set xs"
  by (erule remove_nth_split) (metis Un_iff insert_iff list.set(2) set_append)

lemma fail_eq:
  "snd (fail_job now j e s) =
     (let st = if job_attempts j < job_maxAttempts j then J_PENDING else J_FAILED;
          j' = j\<lparr>job_lastError := Some e, job_status_of := st, job_updatedAt := now\<rparr>;
          s' = s\<lparr>jq_stats := \<lambda>x. jq_stats s x - of_bool (job_status_of j = x) + of_bool (st = x),
                 jq_records := (jq_records s)(job_id j \<mapsto> (j', None))\<rparr>
      in if st = J_PENDING then s'\<lparr>jq_timers := jq_timers s @ [(job_id j, job_priority_of j)]\<rparr>
         else s'\<lparr>jq_dlq := job_id j # jq_dlq s\<rparr>)"
  by (simp add: fail_job_def moveToDLQ_def setStatus_eq saveRecord_def Let_def)

lemma fail_held_ok:
  assumes "jobs_ok s" and "n < length (jq_held s)"
  shows "jobs_ok (snd (fail_job now (jq_held s ! n) e (s\<lparr>jq_held := remove_nth n (jq_held s)\<rparr>)))"
proof -
  let ?j = "jq_held s ! n"
  define st where "st = (if job_attempts ?j < job_maxAttempts ?j then J_PENDING else J_FAILED)"
  define j' where "j' = ?j\<lparr>job_lastError := Some e, job_status_of := st, job_updatedAt := now\<rparr>"
  define s' where "s' = snd (fail_job now ?j e (s\<lparr>jq_held := remove_nth n (jq_held s)\<rparr>))"
  have held: "jq_records s (job_id ?j) = Some (?j, None)" "job_status_of ?j = J_PROCESSING" "1 \<le> job_attempts ?j"
      "job_attempts ?j \<le> allowed_attempts ?j" "job_id ?j < jq_nextId s"
    using held_record [OF assms(1) nth_mem [OF assms(2)]] by simp_all
  have s': "s' = (let s1 = s\<lparr>jq_held := remove_nth n (jq_held s),
      jq_stats := \<lambda>x. jq_stats s x - of_bool (J_PROCESSING = x) + of_bool (st = x),
      jq_records := (jq_records s)(job_id ?j \<mapsto> (j', None))\<rparr>
    in if st = J_PENDING then s1\<lparr>jq_timers := jq_timers s @ [(job_id ?j, job_priority_of ?j)]\<rparr>
       else s1\<lparr>jq_dlq := job_id ?j # jq_dlq s\<rparr>)"
    unfolding s'_def fail_eq st_def [symmetric] j'_def by (simp add: held(2) Let_def)
  have j'_simps: "job_id j' = job_id ?j" "job_status_of j' = st" "job_attempts j' = job_attempts ?j"
      "allowed_attempts j' = allowed_attempts ?j" "job_priority_of j' = job_priority_of ?j"
      "job_maxAttempts j' = job_maxAttempts ?j"
    by (simp_all add: j'_def)
  have "mset (live_ids s') = mset (live_ids s)"
    by (simp add: mset_live s' mset_remove_nth [OF assms(2)] Let_def)
  moreover have "k \<noteq> job_id ?j \<Longrightarrow> job_id j = k \<Longrightarrow> j \<in> set (remove_nth n (jq_held s)) \<longleftrightarrow> j \<in> set (jq_held s)" for k j
    by (rule in_remove_nth [OF assms(2)]) auto
  then have "others_same (job_id ?j) s s'" by (auto simp: others_same_def s' Let_def)
  moreover have "job_ok s' (job_id ?j)"
    using held(3,4) by (auto simp: job_ok_def s' j'_simps st_def waits_def allowed_attempts_def Let_def)
  ultimately have "jobs_ok s'"
    by (intro jobs_ok_moved [OF assms(1) held(5)]) (simp_all add: s' status_at_def held j'_simps Let_def)
  then show ?thesis by (simp add: s'_def)
qed

lemma complete_held_ok:
  assumes "jobs_ok s" and "n < length (jq_held s)"
  shows "jobs_ok (complete_job cfg now (jq_held s ! n) (s\<lparr>jq_held := remove_nth n (jq_held s)\<rparr>))"
proof -
  let ?j = "jq_held s ! n"
  define s' where "s' = complete_job cfg now ?j (s\<lparr>jq_held := remove_nth n (jq_held s)\<rparr>)"
  define j' where "j' = ?j\<lparr>job_status_of := J_COMPLETED, job_updatedAt := now\<rparr>"
  have held: "jq_records s (job_id ?j) = Some (?j, None)" "job_status_of ?j = J_PROCESSING" "1 \<le> job_attempts ?j"
      "job_attempts ?j \<le> allowed_attempts ?j" "job_id ?j < jq_nextId s"
    using held_record [OF assms(1) nth_mem [OF assms(2)]] by simp_all
  obtain ttl where s': "s' = s\<lparr>jq_held := remove_nth n (jq_held s),
      jq_stats := \<lambda>x. jq_stats s x - of_bool (J_PROCESSING = x) + of_bool (J_COMPLETED = x),
      jq_records := (jq_records s)(job_id ?j \<mapsto> (j', ttl))\<rparr>"
    unfolding s'_def j'_def by (simp add: complete_job_def setStatus_eq saveRecord_def held(2) del: fun_upd_apply)
  have j'_simps: "job_id j' = job_id ?j" "job_status_of j' = J_COMPLETED" "job_attempts j' = job_attempts ?j"
      "allowed_attempts j' = allowed_attempts ?j"
    by (simp_all add: j'_def)
  have live: "mset (live_ids s) = add_mset (job_id ?j) (mset (live_ids s'))"
    by (simp add: mset_live s' mset_remove_nth [OF assms(2)])
  have "distinct (live_ids s)" using assms(1) by (simp add: jobs_ok_def)
  then have "distinct (job_id ?j # live_ids s')" using live by (metis mset.simps(2) mset_eq_imp_distinct_iff)
  moreover have "set (live_ids s') \<subseteq> set (live_ids s)" using live by (metis mset_subset_eq_add_left add_mset_add_single mset_subset_eqD set_mset_mset subsetI union_commute)
  moreover have "k \<noteq> job_id ?j \<Longrightarrow> job_id j = k \<Longrightarrow> j \<in> set (remove_nth n (jq_held s)) \<longleftrightarrow> j \<in> set (jq_held s)" for k j
    by (rule in_remove_nth [OF assms(2)]) auto
  then have "others_same (job_id ?j) s s'" by (auto simp: others_same_def s')
  moreover have "job_ok s' (job_id ?j)"
    using held(3,4) calculation(1) by (simp add: job_ok_def s' j'_simps)
  ultimately have "jobs_ok s'"
    by (intro jobs_ok_move [OF assms(1) held(5)]) (simp_all add: s' status_at_def held j'_simps)
  then show ?thesis by (simp add: s'_def)
qed

lemma finish_ok: "jobs_ok s \<Longrightarrow> jobs_ok (finish_job cfg now n out s)"
  by (simp add: finish_job_def fail_held_ok complete_held_ok Let_def split: handler_outcome.split)

lemma timer_ok:
  assumes "jobs_ok s"
  shows "jobs_ok (timer_due n s)"
proof (cases "n < length (jq_timers s)")
  case False
  with assms show ?thesis by (simp add: timer_due_def)
next
  case True
  obtain i p where ip: "jq_timers s ! n = (i, p)" by fastforce
  define s' where "s' = timer_due n s"
  have s': "s' = s\<lparr>jq_timers := remove_nth n (jq_timers s), jq_queue := (jq_queue s)(p := i # jq_queue s p)\<rparr>"
    using True ip by (simp add: s'_def timer_due_def lpush_job_def)
  have "(i, p) \<in> set (jq_timers s)" using True ip by (metis nth_mem)
  then have w: "waits s i p" by (simp add: waits_def)
  obtain j where j: "jq_records s i = Some (j, None)" "job_id j = i" "job_status_of j = J_PENDING"
      "job_priority_of j = p" "0 \<le> job_attempts j" "job_attempts j < allowed_attempts j" "i < jq_nextId s"
    using waiting_record [OF assms w] by metis
  have "mset (live_ids s') = mset (live_ids s)"
    by (cases p) (simp_all add: mset_live s' mset_remove_nth [OF True] ip)
  moreover have "k \<noteq> i \<Longrightarrow> (k, q) \<in> set (remove_nth n (jq_timers s)) \<longleftrightarrow> (k, q) \<in> set (jq_timers s)" for k q
    by (rule in_remove_nth [OF True]) (simp add: ip)
  then have "others_same i s s'" by (auto simp: others_same_def s')
  moreover have "job_ok s' i" using j by (simp add: job_ok_def s' waits_def)
  ultimately have "jobs_ok s'"
    by (intro jobs_ok_moved [OF assms j(7)]) (simp_all add: s' status_at_def)
  then show ?thesis by (simp add: s'_def)
qed

lemma expire_ok:
  assumes "jobs_ok s"
  shows "jobs_ok (expire_record i s)"
proof (cases "\<exists>j ttl. jq_records s i = Some (j, Some ttl)")
  case False
  then have "expire_record i s = s" by (auto simp: expire_record_def split: option.split)
  with assms show ?thesis by simp
next
  case True
  then obtain j ttl where j: "jq_records s i = Some (j, Some ttl)" by blast
  then have i: "i < jq_nextId s" using assms by (metis jobs_ok_def not_le option.distinct(1))
  then have ok: "job_ok s i" using assms by (simp add: jobs_ok_def)
  define s' where "s' = expire_record i s"
  have s': "s' = s\<lparr>jq_records := (jq_records s)(i := None)\<rparr>" using j by (simp add: s'_def expire_record_def)
  have fin: "job_status_of j = J_COMPLETED" "i \<notin> set (live_ids s)"
    using ok j by (auto simp: job_ok_def split: job_status.splits)
  have "others_same i s s'" by (simp add: others_same_def s')
  moreover have "job_ok s' i" using fin(2) by (simp add: job_ok_def s')
  ultimately have "jobs_ok s'"
    by (intro jobs_ok_moved [OF assms i]) (simp_all add: s' status_at_def j fin(1))
  then show ?thesis by (simp add: s'_def)
qed

lemma enqueue_ok:
  assumes "jobs_ok s"
  shows "jobs_ok (snd (enqueue_job cfg now ty payload prio m s))"
proof -
  let ?n = "jq_nextId s"
  define j where "j = fst (enqueue_job cfg now ty payload prio m s)"
  define s' where "s' = snd (enqueue_job cfg now ty payload prio m s)"
  let ?p = "job_priority_of j"
  have j: "job_id j = ?n" "job_status_of j = J_PENDING" "job_attempts j = 0"
    by (simp_all add: j_def enqueue_job_def Let_def)
  have s': "s' = s\<lparr>jq_nextId := ?n + 1, jq_records := (jq_records s)(?n \<mapsto> (j, None)),
      jq_stats := (jq_stats s)(J_PENDING := jq_stats s J_PENDING + 1), jq_queue := (jq_queue s)(?p := ?n # jq_queue s ?p)\<rparr>"
    by (simp add: s'_def j_def enqueue_job_def saveRecord_def lpush_job_def Let_def)
  have old: "\<forall>k\<in>set (live_ids s). k < ?n" "distinct (live_ids s)" using assms by (simp_all add: jobs_ok_def)
  have live: "mset (live_ids s') = add_mset ?n (mset (live_ids s))"
    by (cases ?p) (simp_all add: mset_live s')
  then have "set (live_ids s') = insert ?n (set (live_ids s))" by (metis set_mset_add_mset_insert set_mset_mset)
  moreover have "distinct (live_ids s')"
    using old live by (metis distinct.simps(2) less_irrefl mset.simps(2) mset_eq_imp_distinct_iff)
  moreover have "job_ok s' k" if "k < jq_nextId s'" for k
  proof (cases "k = ?n")
    case True
    then show ?thesis by (simp add: job_ok_def s' j waits_def allowed_attempts_def max_def)
  next
    case False
    then have "job_ok s' k \<longleftrightarrow> job_ok s k" by (intro job_ok_frame) (simp_all add: s')
    with False that assms show ?thesis by (simp add: jobs_ok_def s')
  qed
  moreover have "jq_stats s' st = count_at s' st" for st
  proof -
    have "(\<Sum>k<?n. of_bool (status_at s' k = st)) = count_at s st"
      unfolding count_at_def by (rule sum.cong) (simp_all add: status_at_def s')
    then have "count_at s' st = count_at s st + of_bool (J_PENDING = st)"
      by (simp add: count_at_def s') (simp add: status_at_def j(2))
    with assms show ?thesis by (auto simp: jobs_ok_def s')
  qed
  moreover have "jq_records s' k = None" if "jq_nextId s' \<le> k" for k
    using that assms by (simp add: jobs_ok_def s')
  moreover have "jq_nextId s' = Suc ?n" by (simp add: s')
  ultimately have "jobs_ok s'" using old(1) by (auto simp: jobs_ok_def less_SucI)
  then show ?thesis by (simp add: s'_def)
qed

lemmas job_op_ok = enqueue_ok reserve_ok finish_ok timer_ok expire_ok

interpretation jobm: machine "job_step cfg" jobs_ok for cfg
proof unfold_locales
  fix s :: job_state and e :: "timestamp \<times> job_event"
  assume "jobs_ok s"
  moreover obtain now ev where "e = (now, ev)" by (cases e)
  ultimately show "jobs_ok (job_step cfg e s)" by (cases ev) (simp_all add: job_op_ok)
qed

lemma empty_queues_ok: "jobs_ok empty_queues"
  by (simp add: jobs_ok_def empty_queues_def live_ids_def PRIORITIES_def count_at_def)

subsection \<open>Properties\<close>

text \<open>
  C14: Without a restart no job is lost or duplicated: after any run, whatever the handlers do, every job
  ever enqueued is in exactly one place that agrees with its record (waiting in the queue of its
  priority or for its back-off timer, reserved by a worker, dead-lettered with its attempts used up, or
  completed, with its record possibly expired), and no handler was started more often than the job's
  attempts allow.
\<close>

theorem no_job_lost:
  assumes "jobs_ok s" and "i < jq_nextId (fold (job_step cfg) es s)"
  shows "let s' = fold (job_step cfg) es s in distinct (live_ids s') \<and>
     (case jq_records s' i of
        None \<Rightarrow> i \<notin> set (live_ids s')
      | Some (j, ttl) \<Rightarrow> job_attempts j \<le> max 1 (job_maxAttempts j) \<and>
          (case job_status_of j of
             J_PENDING \<Rightarrow> i \<in> set (jq_queue s' (job_priority_of j)) \<or> (i, job_priority_of j) \<in> set (jq_timers s')
           | J_PROCESSING \<Rightarrow> j \<in> set (jq_held s')
           | J_FAILED \<Rightarrow> i \<in> set (jq_dlq s') \<and> job_maxAttempts j \<le> job_attempts j
           | J_COMPLETED \<Rightarrow> i \<notin> set (live_ids s')))"
proof -
  let ?s = "fold (job_step cfg) es s"
  have "jobs_ok ?s" by (rule jobm.run_ok [OF assms(1)])
  then have "job_ok ?s i" "distinct (live_ids ?s)" using assms(2) by (simp_all add: jobs_ok_def)
  then show ?thesis
    by (auto simp: job_ok_def waits_def allowed_attempts_def Let_def split: option.splits job_status.splits)
qed

definition demo_cfg :: job_config where
  "demo_cfg = \<lparr>jc_maxAttempts = 3, jc_backoffBaseMs = 2000, jc_backoffMaxMs = 30000, jc_completedTtlS = 3600\<rparr>"

theorem no_job_lost_witness:
  "let s = fold (job_step demo_cfg)
       [(0, JE_enqueue ''mail'' ''x'' None (Some 1)), (1, JE_reserve), (2, JE_finish 0 (Threw ''boom''))] empty_queues
   in jq_dlq s = [0] \<and> distinct (live_ids s)"
  using no_job_lost [OF empty_queues_ok, of 0 demo_cfg
      "[(0, JE_enqueue ''mail'' ''x'' None (Some 1)), (1, JE_reserve), (2, JE_finish 0 (Threw ''boom''))]"]
  by (simp add: Let_def enqueue_job_def saveRecord_def lpush_job_def empty_queues_def reserve_def PRIORITIES_def
      getJob_def setStatus_def finish_job_def fail_job_def moveToDLQ_def remove_nth_def)

text \<open>
  The status counters of the queue are exact: in every run without a restart the counter of each
  status is the number of jobs in it, with the completed ones whose record has expired still counted.
\<close>

theorem job_counters_exact:
  "let s = fold (job_step cfg) es empty_queues in
     map snd (js_byStatus (getStats s)) =
       map (\<lambda>st. int (card {i. i < jq_nextId s \<and> status_at s i = st})) [J_PENDING, J_PROCESSING, J_COMPLETED, J_FAILED]"
proof -
  let ?s = "fold (job_step cfg) es empty_queues"
  have "jobs_ok ?s" by (rule jobm.run_ok [OF empty_queues_ok])
  moreover have "count_at ?s st = int (card {i. i < jq_nextId ?s \<and> status_at ?s i = st})" for st
  proof -
    have "{..<jq_nextId ?s} \<inter> {i. status_at ?s i = st} = {i. i < jq_nextId ?s \<and> status_at ?s i = st}" by auto
    then show ?thesis by (simp add: count_at_def)
  qed
  ultimately show ?thesis by (simp add: getStats_def jobs_ok_def Let_def)
qed

text \<open>
  A reservation takes the oldest job of the most urgent priority that has one: no queue before it
  is occupied, and within its queue it is the one that was put in first.
\<close>

theorem reserve_most_urgent_oldest:
  assumes "jobs_ok s" and "reserve now s = (Some j, s')"
  shows "last (jq_queue s (job_priority_of j)) = job_id j \<and> jq_queue s (job_priority_of j) \<noteq> [] \<and>
    (\<forall>p\<in>set (takeWhile (\<lambda>p. p \<noteq> job_priority_of j) PRIORITIES). jq_queue s p = []) \<and>
    jq_queue s' (job_priority_of j) = butlast (jq_queue s (job_priority_of j))"
proof -
  from assms(2) obtain i s1 where pop: "brpop PRIORITIES s = Some (i, s1)"
    by (cases "brpop PRIORITIES s") (auto simp: reserve_def)
  then obtain p where p: "jq_queue s p \<noteq> []" "i = last (jq_queue s p)"
    and s1: "s1 = s\<lparr>jq_queue := (jq_queue s)(p := butlast (jq_queue s p))\<rparr>"
    and urgent: "\<forall>p'\<in>set (takeWhile (\<lambda>x. x \<noteq> p) PRIORITIES). jq_queue s p' = []"
    by (auto elim: brpop_Some)
  have w: "waits s i p" using p by (simp add: waits_def)
  obtain j0 where j0: "jq_records s i = Some (j0, None)" "job_id j0 = i" "job_priority_of j0 = p"
    using waiting_record [OF assms(1) w] by metis
  have "job_id j = i" "job_priority_of j = p" "jq_queue s' = (jq_queue s)(p := butlast (jq_queue s p))"
    using assms(2) pop j0 by (auto simp: reserve_def getJob_def s1 setStatus_eq saveRecord_def)
  with p urgent show ?thesis by simp
qed

theorem reserve_most_urgent_oldest_witness:
  "map_option job_type (fst (reserve 9 (fold (job_step demo_cfg)
     [(0, JE_enqueue ''a'' ''x'' None None), (1, JE_enqueue ''b'' ''y'' (Some P_CRITICAL) None),
      (2, JE_enqueue ''c'' ''z'' (Some P_CRITICAL) None)] empty_queues))) = Some ''b''"
proof -
  let ?s = "fold (job_step demo_cfg)
     [(0, JE_enqueue ''a'' ''x'' None None), (1, JE_enqueue ''b'' ''y'' (Some P_CRITICAL) None),
      (2, JE_enqueue ''c'' ''z'' (Some P_CRITICAL) None)] empty_queues"
  have ok: "jobs_ok ?s" by (rule jobm.run_ok [OF empty_queues_ok])
  have run: "map_option (\<lambda>j. (job_type j, job_priority_of j, job_id j)) (fst (reserve 9 ?s)) = Some (''b'', P_CRITICAL, 1)"
    by (simp add: enqueue_job_def saveRecord_def lpush_job_def empty_queues_def reserve_def PRIORITIES_def
        getJob_def setStatus_def Let_def)
  then obtain j where "reserve 9 ?s = (Some j, snd (reserve 9 ?s))"
    by (cases "reserve 9 ?s") auto
  from reserve_most_urgent_oldest [OF ok this] run show ?thesis
    by (cases "fst (reserve 9 ?s)") auto
qed

text \<open>A job in no place is out of the reach of every event.\<close>

definition orphaned :: "nat \<Rightarrow> (job \<times> int option) option \<Rightarrow> job_state \<Rightarrow> bool" where
  "orphaned i r s \<longleftrightarrow> jq_records s i = r \<and> (\<forall>j ttl. r = Some (j, ttl) \<longrightarrow> ttl = None) \<and> i \<notin> set (live_ids s) \<and>
     i < jq_nextId s \<and> (\<forall>k j ttl. jq_records s k = Some (j, ttl) \<longrightarrow> job_id j = k)"

lemma live_queue: "set (jq_queue s p) \<subseteq> set (live_ids s)"
  by (auto simp: live_iff waits_def)

lemma live_held: "j \<in> set (jq_held s) \<Longrightarrow> job_id j \<in> set (live_ids s)"
  by (auto simp: live_iff)

lemma set_remove_nth: "n < length xs \<Longrightarrow> set (remove_nth n xs) \<subseteq> set xs"
  by (auto simp: remove_nth_def dest: in_set_takeD in_set_dropD)

lemma orphan_reserve: "orphaned i r s \<Longrightarrow> orphaned i r (snd (reserve now s))"
proof (cases "brpop PRIORITIES s")
  case (Some x)
  assume o: "orphaned i r s"
  from Some obtain k s1 where "brpop PRIORITIES s = Some (k, s1)" by (cases x) auto
  then obtain p where p: "jq_queue s p \<noteq> []" "k = last (jq_queue s p)"
    and s1: "s1 = s\<lparr>jq_queue := (jq_queue s)(p := butlast (jq_queue s p))\<rparr>" and pop: "brpop PRIORITIES s = Some (k, s1)"
    by (auto elim: brpop_Some)
  have "k \<in> set (live_ids s)" using p live_queue [of s p] by auto
  with o have "k \<noteq> i" by (auto simp: orphaned_def)
  moreover have "set (butlast (jq_queue s p)) \<subseteq> set (jq_queue s p)" by (auto dest: in_set_butlastD)
  moreover have "job_id j = k'" if "jq_records s k' = Some (j, ttl)" for k' j ttl
    using o that by (simp add: orphaned_def)
  ultimately show ?thesis
    using o pop by (auto simp: reserve_def orphaned_def getJob_def s1 setStatus_eq saveRecord_def live_iff waits_def
        split: option.splits)
qed (simp add: reserve_def)

lemma orphan_finish: "orphaned i r s \<Longrightarrow> orphaned i r (finish_job cfg now n out s)"
proof (cases "n < length (jq_held s)")
  case True
  assume o: "orphaned i r s"
  let ?j = "jq_held s ! n"
  have "job_id ?j \<in> set (live_ids s)" using True by (simp add: live_held)
  with o have ne: "job_id ?j \<noteq> i" by (auto simp: orphaned_def)
  have sub: "set (remove_nth n (jq_held s)) \<subseteq> set (jq_held s)" by (rule set_remove_nth [OF True])
  show ?thesis
  proof (cases out)
    case Handled
    with o True ne sub show ?thesis
      by (auto simp: finish_job_def complete_job_def setStatus_eq saveRecord_def orphaned_def live_iff waits_def Let_def)
  next
    case NoHandler
    with o True ne sub show ?thesis
      by (auto simp: finish_job_def fail_eq orphaned_def live_iff waits_def Let_def)
  next
    case (Threw e)
    with o True ne sub show ?thesis
      by (auto simp: finish_job_def fail_eq orphaned_def live_iff waits_def Let_def)
  qed
qed (simp add: finish_job_def)

lemma orphan_timer: "orphaned i r s \<Longrightarrow> orphaned i r (timer_due n s)"
proof (cases "n < length (jq_timers s)")
  case True
  assume o: "orphaned i r s"
  obtain k p where kp: "jq_timers s ! n = (k, p)" by fastforce
  then have "(k, p) \<in> set (jq_timers s)" using True by (metis nth_mem)
  with o have "k \<noteq> i" by (auto simp: orphaned_def live_iff waits_def)
  with o True kp set_remove_nth [OF True] show ?thesis
    by (auto simp: timer_due_def lpush_job_def orphaned_def live_iff waits_def)
qed (simp add: timer_due_def)

lemma orphan_expire: "orphaned i r s \<Longrightarrow> orphaned i r (expire_record k s)"
  by (auto simp: expire_record_def orphaned_def split: option.split)

lemma orphan_enqueue: "orphaned i r s \<Longrightarrow> orphaned i r (snd (enqueue_job cfg now ty pl prio m s))"
  by (auto simp: enqueue_job_def orphaned_def saveRecord_def lpush_job_def live_iff waits_def Let_def)

interpretation orphan: machine "job_step cfg" "orphaned i r" for cfg i r
proof unfold_locales
  fix s :: job_state and e :: "timestamp \<times> job_event"
  assume "orphaned i r s"
  moreover obtain now ev where "e = (now, ev)" by (cases e)
  ultimately show "orphaned i r (job_step cfg e s)"
    by (cases ev) (simp_all add: orphan_reserve orphan_finish orphan_timer orphan_expire orphan_enqueue)
qed

text \<open>
  A restart of the process abandons every job a worker had reserved and every failed job waiting
  for its back-off: whatever happens afterwards, such a job is in no queue and not dead-lettered, and
  its record still says processing, or pending.
\<close>

theorem restart_abandons_jobs:
  assumes "jobs_ok s" and "i \<in> job_id ` set (jq_held s) \<union> fst ` set (jq_timers s)"
  shows "let s' = fold (job_step cfg) es (process_restart s) in
     i \<notin> set (live_ids s') \<and> jq_records s' i = jq_records s i \<and>
     map_option (\<lambda>(j, _). job_status_of j) (jq_records s' i) \<in> {Some J_PROCESSING, Some J_PENDING}"
proof -
  have ids: "jq_records s k = Some (j, ttl) \<Longrightarrow> job_id j = k" for k j ttl
    using assms(1) by (cases "k < jq_nextId s") (auto simp: jobs_ok_def job_ok_def)
  have live: "set (live_ids (process_restart s)) = (\<Union>p. set (jq_queue s p)) \<union> set (jq_dlq s)"
    by (auto simp: live_iff waits_def process_restart_def)
  obtain j where j: "jq_records s i = Some (j, None)" "job_status_of j \<in> {J_PROCESSING, J_PENDING}" "i < jq_nextId s"
    "i \<notin> set (live_ids (process_restart s))"
  proof (cases "i \<in> job_id ` set (jq_held s)")
    case True
    then obtain j where "j \<in> set (jq_held s)" "i = job_id j" by blast
    with held_record [OF assms(1), of j] unique_place(3,5) [OF assms(1)] that show thesis
      by (auto simp: live waits_def)
  next
    case False
    with assms(2) obtain p where t: "(i, p) \<in> set (jq_timers s)" by auto
    then have w: "waits s i p" by (simp add: waits_def)
    have "i \<notin> set (jq_queue s q)" for q
      using distinct_live_queue_timer [OF assms(1) t] by blast
    with waiting_record [OF assms(1) w] unique_place(4) [OF assms(1) w] that show thesis
      by (metis (no_types, lifting) UN_E UnE insertI1 insertI2 live)
  qed
  then have "orphaned i (jq_records s i) (process_restart s)"
    using ids by (simp add: orphaned_def process_restart_def)
  from orphan.run_ok [OF this, of cfg es] j show ?thesis by (auto simp: orphaned_def Let_def)
qed

theorem restart_abandons_jobs_witness:
  "let s = fold (job_step demo_cfg) [(0, JE_enqueue ''mail'' ''x'' None None), (1, JE_reserve)] empty_queues;
       s' = fold (job_step demo_cfg) [(2, JE_reserve), (3, JE_finish 0 Handled)] (process_restart s)
   in (0 :: nat) \<notin> set (live_ids s')"
proof -
  let ?s = "fold (job_step demo_cfg) [(0, JE_enqueue ''mail'' ''x'' None None), (1, JE_reserve)] empty_queues"
  have ok: "jobs_ok ?s" by (rule jobm.run_ok [OF empty_queues_ok])
  have "map job_id (jq_held ?s) = [0]"
    by (simp add: enqueue_job_def saveRecord_def lpush_job_def empty_queues_def reserve_def PRIORITIES_def
        getJob_def setStatus_def Let_def)
  then have "0 \<in> job_id ` set (jq_held ?s) \<union> fst ` set (jq_timers ?s)"
    by (metis UnI1 list.set_intros(1) list.set_map)
  from restart_abandons_jobs [OF ok this, of demo_cfg "[(2, JE_reserve), (3, JE_finish 0 Handled)]"]
  show ?thesis unfolding Let_def by (rule conjunct1)
qed

text \<open>One attempt of a handler that always throws: reserve, fail, wait for the timer.\<close>

definition failing_attempt :: "job_config \<Rightarrow> timestamp \<Rightarrow> string \<Rightarrow> job_state \<Rightarrow> job_state" where
  "failing_attempt cfg now e s = fold (job_step cfg) [(now, JE_reserve), (now, JE_finish 0 (Threw e)), (now, JE_timer 0)] s"

definition only_waiting :: "job \<Rightarrow> job_state \<Rightarrow> bool" where
  "only_waiting j s \<longleftrightarrow> jq_queue s = (\<lambda>_. [])(job_priority_of j := [job_id j]) \<and> jq_held s = [] \<and> jq_timers s = [] \<and>
     jq_dlq s = [] \<and> jq_records s (job_id j) = Some (j, None) \<and> job_status_of j = J_PENDING"

definition only_dead :: "nat \<Rightarrow> job_state \<Rightarrow> bool" where
  "only_dead i s \<longleftrightarrow> live_ids s = [i] \<and> jq_dlq s = [i]"

lemma failing_attempt_reserve:
  assumes "only_waiting j s"
  shows "reserve now s = (let j' = j\<lparr>job_attempts := job_attempts j + 1, job_status_of := J_PROCESSING, job_updatedAt := now\<rparr>
    in (Some j', s\<lparr>jq_queue := (\<lambda>_. []), jq_held := [j'], jq_records := (jq_records s)(job_id j \<mapsto> (j', None)),
         jq_stats := \<lambda>x. jq_stats s x - of_bool (J_PENDING = x) + of_bool (J_PROCESSING = x)\<rparr>))"
  using assms by (cases "job_priority_of j")
    (simp_all add: only_waiting_def reserve_def PRIORITIES_def getJob_def setStatus_eq saveRecord_def Let_def fun_upd_def
      cong: if_cong)

lemma failing_attempt_step:
  assumes "only_waiting j s"
  shows "job_attempts j + 1 < job_maxAttempts j \<Longrightarrow>
      \<exists>j'. only_waiting j' (failing_attempt cfg now e s) \<and> job_attempts j' = job_attempts j + 1 \<and>
        job_maxAttempts j' = job_maxAttempts j \<and> job_id j' = job_id j"
    and "job_maxAttempts j \<le> job_attempts j + 1 \<Longrightarrow> only_dead (job_id j) (failing_attempt cfg now e s)"
proof -
  let ?j1 = "j\<lparr>job_attempts := job_attempts j + 1, job_status_of := J_PROCESSING, job_updatedAt := now\<rparr>"
  let ?j2 = "?j1\<lparr>job_lastError := Some e, job_status_of := J_PENDING, job_updatedAt := now\<rparr>"
  note w = assms [unfolded only_waiting_def]
  assume "job_attempts j + 1 < job_maxAttempts j"
  then have "only_waiting ?j2 (failing_attempt cfg now e s)"
    using w by (simp add: failing_attempt_def failing_attempt_reserve [OF assms] finish_job_def fail_eq remove_nth_def
        timer_due_def lpush_job_def only_waiting_def Let_def)
  then show "\<exists>j'. only_waiting j' (failing_attempt cfg now e s) \<and> job_attempts j' = job_attempts j + 1 \<and>
        job_maxAttempts j' = job_maxAttempts j \<and> job_id j' = job_id j"
    by (intro exI [of _ ?j2]) simp
next
  assume "job_maxAttempts j \<le> job_attempts j + 1"
  then show "only_dead (job_id j) (failing_attempt cfg now e s)"
    using assms by (simp add: failing_attempt_def failing_attempt_reserve [OF assms] finish_job_def fail_eq remove_nth_def
        timer_due_def only_dead_def live_ids_def PRIORITIES_def only_waiting_def Let_def)
qed

lemma failing_attempts:
  assumes "only_waiting j s" and "job_attempts j + int (Suc n) = max (job_attempts j + 1) (job_maxAttempts j)"
  shows "only_dead (job_id j) ((failing_attempt cfg now e ^^ Suc n) s) \<and>
    (\<forall>k\<le>n. jq_dlq ((failing_attempt cfg now e ^^ k) s) = [])"
  using assms
proof (induction n arbitrary: j s)
  case 0
  then have "job_maxAttempts j \<le> job_attempts j + 1" by simp
  from failing_attempt_step(2) [OF 0(1) this] 0(1) show ?case by (simp add: only_waiting_def)
next
  case (Suc n)
  then have more: "job_attempts j + 1 < job_maxAttempts j" by (simp split: if_splits)
  obtain j' where j': "only_waiting j' (failing_attempt cfg now e s)" "job_attempts j' = job_attempts j + 1"
      "job_maxAttempts j' = job_maxAttempts j" "job_id j' = job_id j"
    using failing_attempt_step(1) [OF Suc.prems(1) more] by blast
  have "job_attempts j' + int (Suc n) = max (job_attempts j' + 1) (job_maxAttempts j')"
    using Suc.prems(2) more j'(2,3) by simp
  from Suc.IH [OF j'(1) this] have IH: "only_dead (job_id j) ((failing_attempt cfg now e ^^ Suc (Suc n)) s)"
      "\<forall>k\<le>n. jq_dlq ((failing_attempt cfg now e ^^ Suc k) s) = []"
    unfolding j'(4) funpow_Suc_right [of "Suc n"] by (simp_all add: funpow_swap1)
  have "jq_dlq ((failing_attempt cfg now e ^^ k) s) = []" if "k \<le> Suc n" for k
    using that IH(2) Suc.prems(1) by (cases k) (auto simp: only_waiting_def)
  with IH(1) show ?case by blast
qed

text \<open>
  A job whose handler always throws is dead-lettered after exactly its allowed number of attempts,
  at least one, and not before.
\<close>

theorem failing_job_is_dead_lettered:
  "let s = snd (enqueue_job cfg now ty payload prio (Some m) empty_queues); n = nat (max 1 m) in
     only_dead 0 ((failing_attempt cfg now e ^^ n) s) \<and>
     list_all (\<lambda>k. jq_dlq ((failing_attempt cfg now e ^^ k) s) = []) [0..<n]"
proof -
  let ?s = "snd (enqueue_job cfg now ty payload prio (Some m) empty_queues)"
  let ?j = "fst (enqueue_job cfg now ty payload prio (Some m) empty_queues)"
  have w: "only_waiting ?j ?s"
    by (simp add: only_waiting_def enqueue_job_def saveRecord_def lpush_job_def empty_queues_def Let_def)
  have j: "job_attempts ?j = 0" "job_maxAttempts ?j = m" "job_id ?j = 0"
    by (simp_all add: enqueue_job_def empty_queues_def Let_def)
  obtain n where n: "nat (max 1 m) = Suc n" by (cases "nat (max 1 m)") auto
  have "int (Suc n) = max 1 m" unfolding n [symmetric] by simp
  then have "job_attempts ?j + int (Suc n) = max (job_attempts ?j + 1) (job_maxAttempts ?j)"
    unfolding j by simp
  from failing_attempts [OF w this] show ?thesis by (auto simp: n j(3) list_all_iff Let_def less_Suc_eq_le simp del: upt_Suc)
qed

end
