(* ===== verification/Collaborations.thy ===== *)
theory Collaborations
  imports AppErrors Complex_Main
begin

text \<open>
  Song collaborators and their royalty shares: \<open>services/CollaborationService.ts\<close> over
  \<open>entities/SongCollaborator.ts\<close>. A share is a \<open>float\<close> column; it is an exact rational here, so sums carry
  no rounding. The notification of an added collaborator, whose failure is caught, is left out. \<open>fmt\<close>
  renders a number in an error message.
\<close>

subsection \<open>Entities\<close>

datatype mint_status = MS_NOT_MINTED | MS_PENDING | MS_MINTING | MS_MINTED | MS_FAILED

record owned_song =
  os_id :: ident
  os_artistId :: ident
  os_mintStatus :: mint_status

datatype song_role = SR_PRIMARY | SR_FEATURED | SR_PRODUCER | SR_WRITER | SR_MIXER

datatype collaboration_status = CS_PENDING | CS_ACTIVE | CS_REMOVED

datatype dispute_status = DS_NONE | DS_DISPUTED | DS_RESOLVED

record song_collaborator =
  co_songId :: ident
  co_userId :: ident
  co_role :: song_role
  co_royaltyShare :: rat
  co_status :: collaboration_status
  co_disputeStatus :: dispute_status
  co_createdAt :: timestamp

record collaboration_db =
  cdb_songs :: "owned_song table"
  cdb_collaborators :: "song_collaborator table"

text \<open>The unique constraint on \<open>(songId, userId)\<close>; it is the key rows are saved under.\<close>

definition collaboration_key :: "song_collaborator \<Rightarrow> ident \<times> ident" where
  "collaboration_key c = (co_songId c, co_userId c)"

definition song_roles :: "(string \<times> song_role) list" where
  "song_roles = [(''primary'', SR_PRIMARY), (''featured'', SR_FEATURED), (''producer'', SR_PRODUCER),
     (''writer'', SR_WRITER), (''mixer'', SR_MIXER)]"

definition SHARE_TOTAL_TOLERANCE :: rat where
  "SHARE_TOTAL_TOLERANCE = 1 / 100"

subsection \<open>Guards\<close>

definition getSongOrThrow :: "ident \<Rightarrow> collaboration_db \<Rightarrow> js_error + owned_song" where
  "getSongOrThrow sid db =
     (case tbl_find (\<lambda>s. os_id s = sid) (cdb_songs db) of
        None \<Rightarrow> Inl (AppErr (AE_notFound ''Song not found'' NoDetails None))
      | Some s \<Rightarrow> Inr s)"

definition assertIsPrimaryArtist :: "owned_song \<Rightarrow> ident \<Rightarrow> js_error option" where
  "assertIsPrimaryArtist s uid =
     (if os_artistId s \<noteq> uid
      then Some (AppErr (AE_authorization ''Only the primary artist can manage collaborators'' NoDetails None))
      else None)"

definition assertNotMinted :: "owned_song \<Rightarrow> js_error option" where
  "assertNotMinted s =
     (if os_mintStatus s = MS_PENDING \<or> os_mintStatus s = MS_MINTED
      then Some (AppErr (AE_conflict ''Collaborators cannot be changed after the song is minted'' NoDetails None))
      else None)"

text \<open>The three guards in front of every change of the credits.\<close>

definition manageable :: "ident \<Rightarrow> ident \<Rightarrow> collaboration_db \<Rightarrow> js_error + owned_song" where
  "manageable sid uid db =
     (case getSongOrThrow sid db of
        Inl e \<Rightarrow> Inl e
      | Inr s \<Rightarrow>
          (case assertIsPrimaryArtist s uid of
             Some e \<Rightarrow> Inl e
           | None \<Rightarrow> (case assertNotMinted s of Some e \<Rightarrow> Inl e | None \<Rightarrow> Inr s)))"

definition role_error :: js_error where
  "role_error = AppErr (AE_validation (''role must be one of: '' @ join_with '', '' (map fst song_roles)) NoDetails None)"

definition assertSharesWithin100 :: "(rat \<Rightarrow> string) \<Rightarrow> rat list \<Rightarrow> js_error option" where
  "assertSharesWithin100 fmt shares =
     (if sum_list shares > 100 + SHARE_TOTAL_TOLERANCE
      then Some (AppErr (AE_validation (''Total royalty shares cannot exceed 100% (got '' @ fmt (sum_list shares) @ ''%)'')
             NoDetails None))
      else None)"

subsection \<open>Operations\<close>

definition active_collaborators :: "ident \<Rightarrow> collaboration_db \<Rightarrow> song_collaborator list" where
  "active_collaborators sid db = filter (\<lambda>c. co_songId c = sid \<and> co_status c = CS_ACTIVE) (cdb_collaborators db)"

definition listSongCollaborators :: "ident \<Rightarrow> collaboration_db \<Rightarrow> js_error + song_collaborator list" where
  "listSongCollaborators sid db =
     (case getSongOrThrow sid db of
        Inl e \<Rightarrow> Inl e
      | Inr _ \<Rightarrow> Inr (sort_key co_createdAt (active_collaborators sid db)))"

definition save_collaborator :: "song_collaborator \<Rightarrow> collaboration_db \<Rightarrow> collaboration_db" where
  "save_collaborator c db = db\<lparr>cdb_collaborators := tbl_put collaboration_key c (cdb_collaborators db)\<rparr>"

definition addSongCollaborator ::
  "(rat \<Rightarrow> string) \<Rightarrow> timestamp \<Rightarrow> ident \<Rightarrow> ident \<Rightarrow> ident \<Rightarrow> string \<Rightarrow> rat \<Rightarrow>
   (collaboration_db, song_collaborator) service" where
  "addSongCollaborator fmt now sid requester uid raw_role share db =
     (case manageable sid requester db of
        Inl e \<Rightarrow> (Inl e, db)
      | Inr _ \<Rightarrow>
          (case map_of song_roles raw_role of
             None \<Rightarrow> (Inl role_error, db)
           | Some role \<Rightarrow>
               let existing = tbl_find (\<lambda>c. co_songId c = sid \<and> co_userId c = uid) (cdb_collaborators db) in
               if (case existing of None \<Rightarrow> False | Some c \<Rightarrow> co_status c = CS_ACTIVE)
               then (Inl (AppErr (AE_conflict ''This user is already a collaborator on this song'' NoDetails None)), db)
               else (case listSongCollaborators sid db of
                   Inl e \<Rightarrow> (Inl e, db)
                 | Inr others \<Rightarrow>
                     (case assertSharesWithin100 fmt (map co_royaltyShare others @ [share]) of
                        Some e \<Rightarrow> (Inl e, db)
                      | None \<Rightarrow>
                          let base = (case existing of
                                  Some c \<Rightarrow> c
                                | None \<Rightarrow> \<lparr>co_songId = sid, co_userId = uid, co_role = role, co_royaltyShare = share,
                                           co_status = CS_ACTIVE, co_disputeStatus = DS_NONE, co_createdAt = now\<rparr>);
                              c = base\<lparr>co_role := role, co_royaltyShare := share, co_status := CS_ACTIVE\<rparr>
                          in (Inr c, save_collaborator c db)))))"

definition find_active_collaborator :: "ident \<Rightarrow> ident \<Rightarrow> collaboration_db \<Rightarrow> song_collaborator option" where
  "find_active_collaborator sid uid db =
     tbl_find (\<lambda>c. co_songId c = sid \<and> co_userId c = uid \<and> co_status c = CS_ACTIVE) (cdb_collaborators db)"

definition updateCollaborator ::
  "(rat \<Rightarrow> string) \<Rightarrow> ident \<Rightarrow> ident \<Rightarrow> ident \<Rightarrow> string option \<Rightarrow> rat option \<Rightarrow>
   (collaboration_db, song_collaborator) service" where
  "updateCollaborator fmt sid uid requester raw_role share db =
     (case manageable sid requester db of
        Inl e \<Rightarrow> (Inl e, db)
      | Inr _ \<Rightarrow>
          (case find_active_collaborator sid uid db of
             None \<Rightarrow> (Inl (AppErr (AE_notFound ''Collaborator not found on this song'' NoDetails None)), db)
           | Some c \<Rightarrow>
               (case (case raw_role of None \<Rightarrow> Some (co_role c) | Some r \<Rightarrow> map_of song_roles r) of
                  None \<Rightarrow> (Inl role_error, db)
                | Some role \<Rightarrow>
                    let c1 = c\<lparr>co_role := role\<rparr> in
                    (case share of
                       None \<Rightarrow> (Inr c1, save_collaborator c1 db)
                     | Some sh \<Rightarrow>
                         (case listSongCollaborators sid db of
                            Inl e \<Rightarrow> (Inl e, db)
                          | Inr others \<Rightarrow>
                              (case assertSharesWithin100 fmt
                                      (map co_royaltyShare (filter (\<lambda>x. co_userId x \<noteq> uid) others) @ [sh]) of
                                 Some e \<Rightarrow> (Inl e, db)
                               | None \<Rightarrow>
                                   let c2 = c1\<lparr>co_royaltyShare := sh\<rparr> in (Inr c2, save_collaborator c2 db)))))))"

definition disputeSplit :: "ident \<Rightarrow> ident \<Rightarrow> (collaboration_db, song_collaborator) service" where
  "disputeSplit sid requester db =
     (case getSongOrThrow sid db of
        Inl e \<Rightarrow> (Inl e, db)
      | Inr _ \<Rightarrow>
          (case find_active_collaborator sid requester db of
             None \<Rightarrow> (Inl (AppErr (AE_authorization ''Only active collaborators can dispute splits'' NoDetails None)), db)
           | Some c \<Rightarrow> let c' = c\<lparr>co_disputeStatus := DS_DISPUTED\<rparr> in (Inr c', save_collaborator c' db)))"

definition resolveDispute :: "ident \<Rightarrow> ident \<Rightarrow> ident \<Rightarrow> (collaboration_db, song_collaborator) service" where
  "resolveDispute sid uid requester db =
     (case getSongOrThrow sid db of
        Inl e \<Rightarrow> (Inl e, db)
      | Inr s \<Rightarrow>
          (case assertIsPrimaryArtist s requester of
             Some e \<Rightarrow> (Inl e, db)
           | None \<Rightarrow>
               (case find_active_collaborator sid uid db of
                  None \<Rightarrow> (Inl (AppErr (AE_notFound ''Collaborator not found'' NoDetails None)), db)
                | Some c \<Rightarrow> let c' = c\<lparr>co_disputeStatus := DS_RESOLVED\<rparr> in (Inr c', save_collaborator c' db))))"

datatype collaboration_op =
    CO_add ident ident ident string rat
  | CO_update ident ident ident "string option" "rat option"
  | CO_dispute ident ident
  | CO_resolve ident ident ident

fun collaboration_step ::
  "(rat \<Rightarrow> string) \<Rightarrow> timestamp \<times> collaboration_op \<Rightarrow> collaboration_db \<Rightarrow> collaboration_db" where
  "collaboration_step fmt (now, CO_add sid req uid role share) db = snd (addSongCollaborator fmt now sid req uid role share db)"
| "collaboration_step fmt (now, CO_update sid uid req role share) db = snd (updateCollaborator fmt sid uid req role share db)"
| "collaboration_step fmt (now, CO_dispute sid req) db = snd (disputeSplit sid req db)"
| "collaboration_step fmt (now, CO_resolve sid uid req) db = snd (resolveDispute sid uid req db)"

subsection \<open>The share bound\<close>

definition song_share_total :: "ident \<Rightarrow> collaboration_db \<Rightarrow> rat" where
  "song_share_total sid db = sum_list (map co_royaltyShare (active_collaborators sid db))"

definition collaborations_ok :: "collaboration_db \<Rightarrow> bool" where
  "collaborations_ok db \<longleftrightarrow> tbl_ok collaboration_key (cdb_collaborators db) \<and>
     (\<forall>sid. song_share_total sid db \<le> 100 + SHARE_TOTAL_TOLERANCE)"

lemma sum_list_insort_key: "sum_list (map g (insort_key k x xs)) = (g x + sum_list (map g xs) :: 'a::comm_monoid_add)"
  by (induction xs) (auto simp: add.assoc add.commute add.left_commute)

lemma sum_list_sort_key [simp]: "sum_list (map g (sort_key k xs)) = (sum_list (map g xs) :: 'a::comm_monoid_add)"
  by (induction xs) (simp_all add: sort_key_simps sum_list_insort_key)

lemma filter_insort_sum:
  "sum_list (map g (filter p (insort_key k x xs))) = ((if p x then g x else 0) + sum_list (map g (filter p xs)) :: 'a::comm_monoid_add)"
  by (induction xs) (auto simp: add.assoc add.commute add.left_commute)

lemma filter_sort_sum [simp]:
  "sum_list (map g (filter p (sort_key k xs))) = (sum_list (map g (filter p xs)) :: 'a::comm_monoid_add)"
  by (induction xs) (simp_all add: sort_key_simps filter_insort_sum)

text \<open>The total of a column over the rows of a filter, after one row was saved.\<close>

lemma sum_filter_put:
  fixes g :: "'r \<Rightarrow> 'a::comm_monoid_add"
  assumes "tbl_ok key t"
  shows "sum_list (map g (filter p (tbl_put key r t))) =
     sum_list (map g (filter (\<lambda>x. p x \<and> key x \<noteq> key r) t)) + (if p r then g r else 0)"
  using assms
proof (induction t)
  case (Cons x xs)
  then have "key x = key r \<Longrightarrow> filter (\<lambda>y. p y \<and> key y \<noteq> key r) xs = filter p xs"
    by (auto simp: tbl_ok_def image_iff intro!: filter_cong)
  with Cons show ?case by (auto simp: tbl_ok_def add.assoc add.commute add.left_commute)
qed simp

lemma song_share_total_save:
  assumes "tbl_ok collaboration_key (cdb_collaborators db)"
  shows "song_share_total sid (save_collaborator c db) =
     sum_list (map co_royaltyShare (filter (\<lambda>x. co_songId x = sid \<and> co_status x = CS_ACTIVE \<and>
        (co_songId c = sid \<longrightarrow> co_userId x \<noteq> co_userId c)) (cdb_collaborators db)))
     + (if co_songId c = sid \<and> co_status c = CS_ACTIVE then co_royaltyShare c else 0)"
proof -
  have "filter (\<lambda>x. (co_songId x = sid \<and> co_status x = CS_ACTIVE) \<and> collaboration_key x \<noteq> collaboration_key c) (cdb_collaborators db)
    = filter (\<lambda>x. co_songId x = sid \<and> co_status x = CS_ACTIVE \<and> (co_songId c = sid \<longrightarrow> co_userId x \<noteq> co_userId c)) (cdb_collaborators db)"
    by (rule filter_cong) (auto simp: collaboration_key_def)
  then show ?thesis
    unfolding song_share_total_def active_collaborators_def save_collaborator_def
    by (simp add: sum_filter_put [OF assms])
qed

lemma song_share_total_filter:
  "song_share_total sid db =
     sum_list (map co_royaltyShare (filter (\<lambda>x. co_songId x = sid \<and> co_status x = CS_ACTIVE) (cdb_collaborators db)))"
  by (simp add: song_share_total_def active_collaborators_def)

text \<open>A row saved keeps the bound when the shares of the others of its song with its own are within it.\<close>

lemma collaborations_ok_save:
  assumes "collaborations_ok db"
    and "sum_list (map co_royaltyShare (filter (\<lambda>x. co_userId x \<noteq> co_userId c) (active_collaborators (co_songId c) db)))
       + co_royaltyShare c \<le> 100 + SHARE_TOTAL_TOLERANCE"
    and "co_status c = CS_ACTIVE"
  shows "collaborations_ok (save_collaborator c db)"
  unfolding collaborations_ok_def
proof (intro conjI allI)
  have ok: "tbl_ok collaboration_key (cdb_collaborators db)"
    using assms(1) by (simp add: collaborations_ok_def)
  then show "tbl_ok collaboration_key (cdb_collaborators (save_collaborator c db))"
    by (simp add: save_collaborator_def tbl_simps)
  fix sid
  show "song_share_total sid (save_collaborator c db) \<le> 100 + SHARE_TOTAL_TOLERANCE"
  proof (cases "co_songId c = sid")
    case True
    then have "filter (\<lambda>x. co_songId x = sid \<and> co_status x = CS_ACTIVE \<and> (co_songId c = sid \<longrightarrow> co_userId x \<noteq> co_userId c)) (cdb_collaborators db)
      = filter (\<lambda>x. co_userId x \<noteq> co_userId c) (active_collaborators (co_songId c) db)"
      by (auto simp: active_collaborators_def intro: filter_cong)
    with assms(2,3) True show ?thesis by (simp add: song_share_total_save [OF ok])
  next
    case False
    with assms(1) show ?thesis
      by (simp add: song_share_total_save [OF ok] song_share_total_filter [symmetric] collaborations_ok_def)
  qed
qed

text \<open>Saving a row whose share and user are unchanged leaves every total as it was.\<close>

lemma collaborations_ok_resave:
  assumes "collaborations_ok db" and "c \<in> set (cdb_collaborators db)" and "co_status c = CS_ACTIVE"
    and "co_songId c' = co_songId c" "co_userId c' = co_userId c" "co_royaltyShare c' = co_royaltyShare c"
      "co_status c' = co_status c"
  shows "collaborations_ok (save_collaborator c' db)"
proof (rule collaborations_ok_save [OF assms(1)])
  have ok: "tbl_ok collaboration_key (cdb_collaborators db)" and bound: "song_share_total (co_songId c) db \<le> 100 + SHARE_TOTAL_TOLERANCE"
    using assms(1) by (auto simp: collaborations_ok_def)
  have "tbl_find (\<lambda>x. collaboration_key x = collaboration_key c) (cdb_collaborators db) = Some c"
    by (rule tbl_find_key_eq [OF ok assms(2)])
  with ok assms(2) obtain us vs where uv: "cdb_collaborators db = us @ c # vs" "tbl_put collaboration_key c (cdb_collaborators db) = us @ c # vs"
    by (elim tbl_put_split [where r = c and r' = c]) auto
  then have "save_collaborator c db = db" by (simp add: save_collaborator_def)
  with song_share_total_save [OF ok, of "co_songId c" c]
  have "song_share_total (co_songId c) db = sum_list (map co_royaltyShare (filter (\<lambda>x. co_songId x = co_songId c \<and> co_status x = CS_ACTIVE \<and>
        co_userId x \<noteq> co_userId c) (cdb_collaborators db))) + co_royaltyShare c"
    using assms(3) by simp
  moreover have "filter (\<lambda>x. co_userId x \<noteq> co_userId c) (active_collaborators (co_songId c) db) =
     filter (\<lambda>x. co_songId x = co_songId c \<and> co_status x = CS_ACTIVE \<and> co_userId x \<noteq> co_userId c) (cdb_collaborators db)"
    by (auto simp: active_collaborators_def intro: filter_cong)
  ultimately show "sum_list (map co_royaltyShare (filter (\<lambda>x. co_userId x \<noteq> co_userId c') (active_collaborators (co_songId c') db)))
       + co_royaltyShare c' \<le> 100 + SHARE_TOTAL_TOLERANCE"
    using bound assms(4-6) by simp
qed (use assms in simp)

text \<open>What a request that succeeds has checked and done.\<close>

lemma manageable_Inr:
  "manageable sid uid db = Inr s \<Longrightarrow> tbl_find (\<lambda>s. os_id s = sid) (cdb_songs db) = Some s \<and> os_artistId s = uid \<and>
     os_mintStatus s \<notin> {MS_PENDING, MS_MINTED}"
  by (auto simp: manageable_def getSongOrThrow_def assertIsPrimaryArtist_def assertNotMinted_def
      split: option.splits if_splits sum.splits)

lemma listSongCollaborators_Inr:
  "listSongCollaborators sid db = Inr cs \<Longrightarrow> cs = sort_key co_createdAt (active_collaborators sid db)"
  by (auto simp: listSongCollaborators_def split: sum.splits)

lemma assertSharesWithin100_None:
  "assertSharesWithin100 fmt shares = None \<longleftrightarrow> sum_list shares \<le> 100 + SHARE_TOTAL_TOLERANCE"
  by (auto simp: assertSharesWithin100_def)

lemma find_active_Some:
  "find_active_collaborator sid uid db = Some c \<Longrightarrow>
     c \<in> set (cdb_collaborators db) \<and> co_songId c = sid \<and> co_userId c = uid \<and> co_status c = CS_ACTIVE"
  unfolding find_active_collaborator_def by (auto dest: tbl_find_SomeD)

text \<open>Under the unique constraint, a user found without an active row has none.\<close>

lemma others_of_inactive:
  assumes "tbl_ok collaboration_key (cdb_collaborators db)"
    and "\<not> (case tbl_find (\<lambda>c. co_songId c = sid \<and> co_userId c = uid) (cdb_collaborators db) of
            None \<Rightarrow> False | Some c \<Rightarrow> co_status c = CS_ACTIVE)"
  shows "filter (\<lambda>x. co_userId x \<noteq> uid) (active_collaborators sid db) = active_collaborators sid db"
proof (rule filter_True, rule ballI)
  fix x assume "x \<in> set (active_collaborators sid db)"
  then have x: "x \<in> set (cdb_collaborators db)" "co_songId x = sid" "co_status x = CS_ACTIVE"
    by (auto simp: active_collaborators_def)
  show "co_userId x \<noteq> uid"
  proof
    assume "co_userId x = uid"
    with x(2) have "(\<lambda>c. co_songId c = sid \<and> co_userId c = uid) = (\<lambda>c. collaboration_key c = collaboration_key x)"
      by (auto simp: collaboration_key_def)
    with assms(2) x(3) tbl_find_key_eq [OF assms(1) x(1)] show False by simp
  qed
qed

definition saves_share :: "ident \<Rightarrow> ident \<Rightarrow> song_collaborator \<Rightarrow> collaboration_db \<Rightarrow> bool" where
  "saves_share sid uid c db \<longleftrightarrow> co_songId c = sid \<and> co_userId c = uid \<and> co_status c = CS_ACTIVE \<and>
     sum_list (map co_royaltyShare (filter (\<lambda>x. co_userId x \<noteq> uid) (active_collaborators sid db))) + co_royaltyShare c
       \<le> 100 + SHARE_TOTAL_TOLERANCE"

definition resaves :: "ident \<Rightarrow> ident \<Rightarrow> song_collaborator \<Rightarrow> collaboration_db \<Rightarrow> bool" where
  "resaves sid uid c' db \<longleftrightarrow> (\<exists>c. find_active_collaborator sid uid db = Some c \<and> co_songId c' = sid \<and> co_userId c' = uid \<and>
     co_royaltyShare c' = co_royaltyShare c \<and> co_status c' = CS_ACTIVE)"

lemma add_share_cases:
  assumes "tbl_ok collaboration_key (cdb_collaborators db)"
  obtains e where "addSongCollaborator fmt now sid req uid role share db = (Inl e, db)"
  | s c where "addSongCollaborator fmt now sid req uid role share db = (Inr c, save_collaborator c db)"
      "manageable sid req db = Inr s" "saves_share sid uid c db"
proof (cases "fst (addSongCollaborator fmt now sid req uid role share db)")
  case (Inl e)
  then have "addSongCollaborator fmt now sid req uid role share db = (Inl e, db)"
    by (auto simp: addSongCollaborator_def Let_def split: sum.splits option.splits if_splits)
  then show ?thesis by (rule that(1))
next
  case (Inr c)
  let ?ex = "tbl_find (\<lambda>c. co_songId c = sid \<and> co_userId c = uid) (cdb_collaborators db)"
  from Inr obtain s cs where s: "manageable sid req db = Inr s" and l: "listSongCollaborators sid db = Inr cs"
    and inactive: "\<not> (case ?ex of None \<Rightarrow> False | Some c \<Rightarrow> co_status c = CS_ACTIVE)"
    and n: "assertSharesWithin100 fmt (map co_royaltyShare cs @ [share]) = None"
    and c: "addSongCollaborator fmt now sid req uid role share db = (Inr c, save_collaborator c db)"
      "co_royaltyShare c = share" "co_status c = CS_ACTIVE" "co_songId c = sid" "co_userId c = uid"
    unfolding addSongCollaborator_def Let_def
    by (auto dest: tbl_find_SomeD split: sum.splits option.splits if_splits)
  have "saves_share sid uid c db"
    using n c others_of_inactive [OF assms inactive] listSongCollaborators_Inr [OF l]
    by (simp add: saves_share_def assertSharesWithin100_None)
  from that(2) [OF c(1) s this] show ?thesis .
qed

lemma update_share_cases:
  obtains e where "updateCollaborator fmt sid uid req role share db = (Inl e, db)"
  | s c where "updateCollaborator fmt sid uid req role share db = (Inr c, save_collaborator c db)"
      "manageable sid req db = Inr s" "saves_share sid uid c db \<or> resaves sid uid c db"
proof (cases "fst (updateCollaborator fmt sid uid req role share db)")
  case (Inl e)
  then have "updateCollaborator fmt sid uid req role share db = (Inl e, db)"
    by (auto simp: updateCollaborator_def Let_def split: sum.splits option.splits)
  then show ?thesis by (rule that(1))
next
  case (Inr c)
  then obtain s where s: "manageable sid req db = Inr s"
    by (auto simp: updateCollaborator_def split: sum.splits)
  from Inr have c: "updateCollaborator fmt sid uid req role share db = (Inr c, save_collaborator c db)"
    by (auto simp: updateCollaborator_def Let_def split: sum.splits option.splits)
  from Inr have "saves_share sid uid c db \<or> resaves sid uid c db"
    by (auto simp: updateCollaborator_def Let_def saves_share_def resaves_def assertSharesWithin100_None
        dest!: find_active_Some listSongCollaborators_Inr split: sum.splits option.splits)
  from that(2) [OF c s this] show ?thesis .
qed

lemma dispute_split_cases:
  obtains e where "disputeSplit sid req db = (Inl e, db)"
  | c where "disputeSplit sid req db = (Inr c, save_collaborator c db)" "resaves sid req c db"
proof (cases "fst (disputeSplit sid req db)")
  case (Inl e)
  then have "disputeSplit sid req db = (Inl e, db)"
    by (auto simp: disputeSplit_def Let_def split: sum.splits option.splits)
  then show ?thesis by (rule that(1))
next
  case (Inr c)
  then have "disputeSplit sid req db = (Inr c, save_collaborator c db)" "resaves sid req c db"
    by (auto simp: disputeSplit_def Let_def resaves_def dest!: find_active_Some split: sum.splits option.splits)
  then show ?thesis by (rule that(2))
qed

lemma resolve_split_cases:
  obtains e where "resolveDispute sid uid req db = (Inl e, db)"
  | c where "resolveDispute sid uid req db = (Inr c, save_collaborator c db)" "resaves sid uid c db"
proof (cases "fst (resolveDispute sid uid req db)")
  case (Inl e)
  then have "resolveDispute sid uid req db = (Inl e, db)"
    by (auto simp: resolveDispute_def Let_def split: sum.splits option.splits)
  then show ?thesis by (rule that(1))
next
  case (Inr c)
  then have "resolveDispute sid uid req db = (Inr c, save_collaborator c db)" "resaves sid uid c db"
    by (auto simp: resolveDispute_def Let_def resaves_def dest!: find_active_Some split: sum.splits option.splits)
  then show ?thesis by (rule that(2))
qed

lemma saves_share_ok: "collaborations_ok db \<Longrightarrow> saves_share sid uid c db \<Longrightarrow> collaborations_ok (save_collaborator c db)"
  by (auto simp: saves_share_def intro: collaborations_ok_save)

lemma resaves_ok:
  assumes "collaborations_ok db" and "resaves sid uid c' db"
  shows "collaborations_ok (save_collaborator c' db)"
proof -
  from assms(2) obtain c where c: "find_active_collaborator sid uid db = Some c" "co_songId c' = sid" "co_userId c' = uid"
      "co_royaltyShare c' = co_royaltyShare c" "co_status c' = CS_ACTIVE"
    by (auto simp: resaves_def)
  with find_active_Some [OF c(1)] show ?thesis
    by (intro collaborations_ok_resave [OF assms(1), of c]) auto
qed

interpretation collm: machine "collaboration_step fmt" collaborations_ok for fmt
proof unfold_locales
  fix db :: collaboration_db and e :: "timestamp \<times> collaboration_op"
  assume ok: "collaborations_ok db"
  then have keys: "tbl_ok collaboration_key (cdb_collaborators db)" by (simp add: collaborations_ok_def)
  obtain now req where e: "e = (now, req)" by fastforce
  show "collaborations_ok (collaboration_step fmt e db)"
  proof (cases req)
    case (CO_add sid r uid role share)
    then show ?thesis using ok e add_share_cases [OF keys, of fmt now sid r uid role share] saves_share_ok
      by (cases rule: add_share_cases [OF keys, of fmt now sid r uid role share]) auto
  next
    case (CO_update sid uid r role share)
    then show ?thesis using ok e saves_share_ok resaves_ok
      by (cases rule: update_share_cases [of fmt sid uid r role share db]) auto
  next
    case (CO_dispute sid r)
    then show ?thesis using ok e resaves_ok by (cases rule: dispute_split_cases [of sid r db]) auto
  next
    case (CO_resolve sid uid r)
    then show ?thesis using ok e resaves_ok by (cases rule: resolve_split_cases [of sid uid r db]) auto
  qed
qed

text \<open>
  C15: Whatever sequence of requests (adding, updating, disputing, resolving) is made from a song base without
  collaborators, the active royalty shares of a song never add up to more than 100.01 percent and a user has
  at most one row per song.
\<close>

theorem shares_stay_within_bound:
  assumes "cdb_collaborators db = []"
  shows "let db' = fold (collaboration_step fmt) ops db in
     song_share_total sid db' \<le> 100 + 1 / 100 \<and> distinct (map collaboration_key (cdb_collaborators db'))"
proof -
  have "collaborations_ok db"
    using assms by (simp add: collaborations_ok_def tbl_simps song_share_total_filter SHARE_TOTAL_TOLERANCE_def)
  then have "collaborations_ok (fold (collaboration_step fmt) ops db)" by (rule collm.run_ok)
  then show ?thesis by (simp add: collaborations_ok_def tbl_ok_def SHARE_TOTAL_TOLERANCE_def Let_def)
qed

text \<open>The tolerance is used up by two collaborators with shares 50 and 50.01.\<close>

definition bare_song :: "mint_status \<Rightarrow> collaboration_db" where
  "bare_song st = \<lparr>cdb_songs = [\<lparr>os_id = ''s'', os_artistId = ''a'', os_mintStatus = st\<rparr>], cdb_collaborators = []\<rparr>"

lemma bare_song_none: "cdb_collaborators (bare_song st) = []"
  by (simp add: bare_song_def)

definition tolerance_run :: "(timestamp \<times> collaboration_op) list" where
  "tolerance_run = [(1, CO_add ''s'' ''a'' ''u'' ''writer'' 50), (2, CO_add ''s'' ''a'' ''v'' ''mixer'' (5001 / 100)),
     (3, CO_add ''s'' ''a'' ''w'' ''mixer'' 1), (4, CO_update ''s'' ''u'' ''a'' None (Some 51)), (5, CO_dispute ''s'' ''v'')]"

lemma tolerance_run_total:
  "song_share_total ''s'' (fold (collaboration_step (\<lambda>_. [])) tolerance_run (bare_song MS_NOT_MINTED)) = 10001 / 100"
  by code_simp

theorem shares_stay_within_bound_witness:
  "song_share_total ''s'' (fold (collaboration_step (\<lambda>_. [])) tolerance_run (bare_song MS_NOT_MINTED)) = 100 + 1 / 100 \<and>
   distinct (map collaboration_key (cdb_collaborators
     (fold (collaboration_step (\<lambda>_. [])) tolerance_run (bare_song MS_NOT_MINTED))))"
  using shares_stay_within_bound [OF bare_song_none [of MS_NOT_MINTED], where fmt = "\<lambda>_. []" and ops = tolerance_run and sid = "''s''"]
  unfolding tolerance_run_total Let_def by simp

subsection \<open>Who changes a share\<close>

definition active_share :: "ident \<Rightarrow> ident \<Rightarrow> collaboration_db \<Rightarrow> rat option" where
  "active_share sid uid db = map_option co_royaltyShare (find_active_collaborator sid uid db)"

fun sets_shares :: "collaboration_op \<Rightarrow> (ident \<times> ident \<times> ident) option" where
  "sets_shares (CO_add sid req uid role share) = Some (sid, uid, req)"
| "sets_shares (CO_update sid uid req role share) = Some (sid, uid, req)"
| "sets_shares (CO_dispute sid req) = None"
| "sets_shares (CO_resolve sid uid req) = None"

lemma tbl_find_put_new:
  "p r \<Longrightarrow> (\<And>x. key x \<noteq> key r \<Longrightarrow> \<not> p x) \<Longrightarrow> tbl_find p (tbl_put key r t) = Some r"
  by (induction t) (auto simp: tbl_simps)

lemma active_share_save:
  assumes "co_status c = CS_ACTIVE"
  shows "active_share sid uid (save_collaborator c db) =
     (if collaboration_key c = (sid, uid) then Some (co_royaltyShare c) else active_share sid uid db)"
proof (cases "collaboration_key c = (sid, uid)")
  case True
  have "tbl_find (\<lambda>c. co_songId c = sid \<and> co_userId c = uid \<and> co_status c = CS_ACTIVE)
      (tbl_put collaboration_key c (cdb_collaborators db)) = Some c"
    by (rule tbl_find_put_new) (use assms True in \<open>auto simp: collaboration_key_def\<close>)
  with True show ?thesis by (simp add: active_share_def find_active_collaborator_def save_collaborator_def)
next
  case False
  have "tbl_find (\<lambda>c. co_songId c = sid \<and> co_userId c = uid \<and> co_status c = CS_ACTIVE)
      (tbl_put collaboration_key c (cdb_collaborators db)) =
    tbl_find (\<lambda>c. co_songId c = sid \<and> co_userId c = uid \<and> co_status c = CS_ACTIVE) (cdb_collaborators db)"
    by (rule tbl_find_put_update) (use False in \<open>auto simp: collaboration_key_def\<close>)
  with False show ?thesis by (simp add: active_share_def find_active_collaborator_def save_collaborator_def)
qed

lemma resaves_share:
  assumes "resaves s u c db"
  shows "active_share sid uid (save_collaborator c db) = active_share sid uid db"
proof -
  from assms obtain c0 where "find_active_collaborator s u db = Some c0" "co_songId c = s" "co_userId c = u"
      "co_royaltyShare c = co_royaltyShare c0" "co_status c = CS_ACTIVE"
    by (auto simp: resaves_def)
  then show ?thesis
    by (subst active_share_save) (auto simp: collaboration_key_def active_share_def)
qed

lemma saves_share_changes:
  assumes "saves_share s u c db" and "active_share sid uid (save_collaborator c db) \<noteq> active_share sid uid db"
  shows "s = sid \<and> u = uid"
  using assms by (auto simp: saves_share_def active_share_save collaboration_key_def split: if_splits)

text \<open>
  A request changes the active share of a collaborator only if it adds or updates that collaborator on
  that song, comes from the song's primary artist, and the song is neither pending nor minted.
\<close>

theorem only_artist_changes_shares:
  assumes "distinct (map collaboration_key (cdb_collaborators db))"
    and "active_share sid uid (collaboration_step fmt (now, req) db) \<noteq> active_share sid uid db"
  shows "\<exists>s. tbl_find (\<lambda>s. os_id s = sid) (cdb_songs db) = Some s \<and> sets_shares req = Some (sid, uid, os_artistId s) \<and>
     os_mintStatus s \<notin> {MS_PENDING, MS_MINTED}"
proof -
  have keys: "tbl_ok collaboration_key (cdb_collaborators db)" using assms(1) by (simp add: tbl_ok_def)
  show ?thesis
  proof (cases req)
    case (CO_add s r u role share)
    then show ?thesis using assms(2)
      by (cases rule: add_share_cases [OF keys, of fmt now s r u role share])
        (auto dest!: manageable_Inr dest: saves_share_changes)
  next
    case (CO_update s u r role share)
    then show ?thesis using assms(2)
      by (cases rule: update_share_cases [of fmt s u r role share db])
        (auto dest!: manageable_Inr dest: saves_share_changes simp: resaves_share)
  next
    case (CO_dispute s r)
    then show ?thesis using assms(2) by (cases rule: dispute_split_cases [of s r db]) (auto simp: resaves_share)
  next
    case (CO_resolve s u r)
    then show ?thesis using assms(2) by (cases rule: resolve_split_cases [of s u r db]) (auto simp: resaves_share)
  qed
qed

text \<open>At the concrete input the song is being minted: the guard does not know that state.\<close>

theorem only_artist_changes_shares_witness:
  "\<exists>s. tbl_find (\<lambda>s. os_id s = ''s'') (cdb_songs (bare_song MS_MINTING)) = Some s \<and>
     sets_shares (CO_add ''s'' ''a'' ''u'' ''writer'' 50) = Some (''s'', ''u'', os_artistId s) \<and>
     os_mintStatus s \<notin> {MS_PENDING, MS_MINTED}"
proof (rule only_artist_changes_shares)
  show "distinct (map collaboration_key (cdb_collaborators (bare_song MS_MINTING)))" by (simp add: bare_song_def)
  have "active_share ''s'' ''u'' (collaboration_step (\<lambda>_. []) (1, CO_add ''s'' ''a'' ''u'' ''writer'' 50) (bare_song MS_MINTING)) = Some 50"
    and "active_share ''s'' ''u'' (bare_song MS_MINTING) = None" by code_simp+
  then show "active_share ''s'' ''u'' (collaboration_step (\<lambda>_. []) (1, CO_add ''s'' ''a'' ''u'' ''writer'' 50) (bare_song MS_MINTING))
     \<noteq> active_share ''s'' ''u'' (bare_song MS_MINTING)" by simp
qed

end
