(* ===== verification/Royalties.thy ===== *)
theory Royalties
  imports Collaborations Soroban_Events
begin

text \<open>
  Royalty payouts: \<open>services/RoyaltyPayoutService.ts\<close> over \<open>entities/RoyaltyPayout.ts\<close>, with the reader
  of the royalty contract's events in \<open>services/Soroban/SorobanService.ts\<close>. A sale's gross amount is split
  among the active collaborators of its song, recorded, and later compared with what the contract paid.
  Amounts are strings of digits as in the source; \<open>js_BigInt\<close> reads them. The RPC is a parameter, and so is
  the value an event carries (\<open>js_value\<close>). The best-effort notification and the metric are left out.
\<close>

subsection \<open>Amounts\<close>

text \<open>\<open>BigInt(s)\<close> on a string: blank is 0, a sign only before decimal digits, \<open>0x\<close>, \<open>0o\<close>, \<open>0b\<close> prefixes.\<close>

definition digit_value :: "char \<Rightarrow> int option" where
  "digit_value c = (let n = of_char c :: int in
     if 48 \<le> n \<and> n \<le> 57 then Some (n - 48)
     else if 97 \<le> n \<and> n \<le> 122 then Some (n - 87)
     else if 65 \<le> n \<and> n \<le> 90 then Some (n - 55) else None)"

fun read_digits :: "int \<Rightarrow> int \<Rightarrow> string \<Rightarrow> int option" where
  "read_digits base acc [] = Some acc"
| "read_digits base acc (c # cs) =
     (case digit_value c of None \<Rightarrow> None
      | Some d \<Rightarrow> if d < base then read_digits base (acc * base + d) cs else None)"

definition read_number :: "int \<Rightarrow> string \<Rightarrow> int option" where
  "read_number base s = (if s = [] then None else read_digits base 0 s)"

definition js_BigInt :: "string \<Rightarrow> int option" where
  "js_BigInt s =
     (let t = js_trim s in
      if t = [] then Some 0
      else if take 2 t \<in> {''0x'', ''0X''} then read_number 16 (drop 2 t)
      else if take 2 t \<in> {''0o'', ''0O''} then read_number 8 (drop 2 t)
      else if take 2 t \<in> {''0b'', ''0B''} then read_number 2 (drop 2 t)
      else if hd t = CHR ''-'' then map_option uminus (read_number 10 (tl t))
      else if hd t = CHR ''+'' then read_number 10 (tl t)
      else read_number 10 t)"

text \<open>Division of bigints truncates.\<close>

definition bigint_div :: "int \<Rightarrow> int \<Rightarrow> int" where
  "bigint_div a b = sgn a * sgn b * (\<bar>a\<bar> div \<bar>b\<bar>)"

text \<open>\<open>Math.round\<close>: halves go up.\<close>

definition round_bps :: "rat \<Rightarrow> int" where
  "round_bps x = \<lfloor>x + 1 / 2\<rfloor>"

subsection \<open>Entities\<close>

datatype royalty_status = RP_PENDING | RP_RECONCILED | RP_DISCREPANCY

record royalty_split =
  sp_recipient :: ident
  sp_shareBps :: int
  sp_expectedAmount :: string
  sp_actualAmount :: "string option"

record royalty_payout =
  rp_id :: ident
  rp_saleEventId :: ident
  rp_saleTxHash :: "string option"
  rp_onChainEventId :: "string option"
  rp_songId :: "ident option"
  rp_tokenId :: "string option"
  rp_buyerPublicKey :: "ident option"
  rp_sellerPublicKey :: "ident option"
  rp_currency :: string
  rp_grossAmount :: string
  rp_expectedSplits :: "royalty_split list"
  rp_status :: royalty_status
  rp_discrepancyReason :: "string option"
  rp_reconciledAt :: "timestamp option"
  rp_artist_id :: "ident option"
  rp_createdAt :: timestamp

record payout_input =
  pi_saleEventId :: ident
  pi_saleTxHash :: "string option"
  pi_songId :: "ident option"
  pi_tokenId :: "string option"
  pi_buyerPublicKey :: "ident option"
  pi_sellerPublicKey :: "ident option"
  pi_artistId :: "ident option"
  pi_currency :: "string option"
  pi_grossAmount :: string
  pi_expectedSplits :: "royalty_split list"

record payout_event =
  pe_saleEventId :: ident
  pe_onChainEventId :: string
  pe_recipient :: ident
  pe_amount :: string

subsection \<open>Splitting a sale\<close>

text \<open>\<open>key_of\<close> is the \<open>stellarPublicKey\<close> of the users found; \<open>None\<close> for no user or no key.\<close>

definition split_of :: "(ident \<Rightarrow> string option) \<Rightarrow> int \<Rightarrow> song_collaborator \<Rightarrow> royalty_split" where
  "split_of key_of gross c =
     (let bps = round_bps (co_royaltyShare c * 100) in
      \<lparr>sp_recipient = the (key_of (co_userId c)), sp_shareBps = bps,
       sp_expectedAmount = int_str (bigint_div (gross * bps) 10000), sp_actualAmount = None\<rparr>)"

definition buildSplitsFromCollaborators ::
  "(ident \<Rightarrow> string option) \<Rightarrow> ident \<Rightarrow> string \<Rightarrow> collaboration_db \<Rightarrow> js_error + royalty_split list" where
  "buildSplitsFromCollaborators key_of sid gross_s db =
     (let cs = active_collaborators sid db in
      if cs = [] then Inr []
      else (case js_BigInt gross_s of
          None \<Rightarrow> Inl (PlainErr (''Cannot convert '' @ gross_s @ '' to a BigInt'') None)
        | Some gross \<Rightarrow> Inr (map (split_of key_of gross) (filter (\<lambda>c. truthy (key_of (co_userId c))) cs))))"

subsection \<open>Recording and reconciling\<close>

definition recordExpectedPayout :: "timestamp \<Rightarrow> ident \<Rightarrow> payout_input \<Rightarrow> (royalty_payout table, royalty_payout) service" where
  "recordExpectedPayout now pid i t =
     insert_row rp_saleEventId
       \<lparr>rp_id = pid, rp_saleEventId = pi_saleEventId i, rp_saleTxHash = pi_saleTxHash i, rp_onChainEventId = None,
        rp_songId = pi_songId i, rp_tokenId = pi_tokenId i, rp_buyerPublicKey = pi_buyerPublicKey i,
        rp_sellerPublicKey = pi_sellerPublicKey i,
        rp_currency = (case or_none (pi_currency i) of None \<Rightarrow> ''stroops'' | Some c \<Rightarrow> c),
        rp_grossAmount = pi_grossAmount i, rp_expectedSplits = pi_expectedSplits i, rp_status = RP_PENDING,
        rp_discrepancyReason = None, rp_reconciledAt = None, rp_artist_id = pi_artistId i, rp_createdAt = now\<rparr> t"

text \<open>\<open>new Map(pairs)\<close>: a later pair replaces an earlier one.\<close>

definition actualByRecipient :: "payout_event list \<Rightarrow> ident \<rightharpoonup> string" where
  "actualByRecipient evs = fold (\<lambda>e m. m(pe_recipient e \<mapsto> pe_amount e)) evs Map.empty"

definition split_mismatch :: "royalty_split \<Rightarrow> bool" where
  "split_mismatch s \<longleftrightarrow> sp_actualAmount s \<noteq> Some (sp_expectedAmount s)"

definition mismatch_text :: "royalty_split \<Rightarrow> string" where
  "mismatch_text s = sp_recipient s @ '' expected '' @ sp_expectedAmount s @ '', actual '' @
     (case or_none (sp_actualAmount s) of None \<Rightarrow> ''missing'' | Some a \<Rightarrow> a)"

text \<open>
  One payout of the loop, as the entity in memory and as the row written. \<open>save\<close> leaves out properties
  that are \<open>undefined\<close>, so the \<open>undefined\<close> reason of a reconciled payout does not reach the row.
\<close>

definition reconcile_payout :: "timestamp \<Rightarrow> payout_event list \<Rightarrow> royalty_payout \<Rightarrow> royalty_payout" where
  "reconcile_payout now evs p =
     (let saleEvents = filter (\<lambda>e. pe_saleEventId e = rp_saleEventId p) evs;
          results = map (\<lambda>s. s\<lparr>sp_actualAmount := actualByRecipient saleEvents (sp_recipient s)\<rparr>) (rp_expectedSplits p);
          bad = filter split_mismatch results;
          p1 = p\<lparr>rp_expectedSplits := results,
                 rp_onChainEventId := (case saleEvents of [] \<Rightarrow> None | e # _ \<Rightarrow> Some (pe_onChainEventId e)),
                 rp_reconciledAt := Some now\<rparr>
      in if bad \<noteq> [] then p1\<lparr>rp_status := RP_DISCREPANCY, rp_discrepancyReason := Some (join_with ''; '' (map mismatch_text bad))\<rparr>
         else p1\<lparr>rp_status := RP_RECONCILED, rp_discrepancyReason := None\<rparr>)"

definition save_payout :: "royalty_payout \<Rightarrow> royalty_payout table \<Rightarrow> royalty_payout table" where
  "save_payout p t =
     tbl_put rp_saleEventId
       (case rp_discrepancyReason p of
          Some _ \<Rightarrow> p
        | None \<Rightarrow> p\<lparr>rp_discrepancyReason :=
            Option.bind (tbl_find (\<lambda>x. rp_saleEventId x = rp_saleEventId p) t) rp_discrepancyReason\<rparr>) t"

text \<open>The loop over the payouts found, with the two result lists it fills.\<close>

fun reconcile_loop ::
  "timestamp \<Rightarrow> payout_event list \<Rightarrow> royalty_payout list \<Rightarrow> royalty_payout list \<times> royalty_payout list \<Rightarrow>
   royalty_payout table \<Rightarrow> (royalty_payout list \<times> royalty_payout list) \<times> royalty_payout table" where
  "reconcile_loop now evs [] acc t = (acc, t)"
| "reconcile_loop now evs (p # ps) (good, bad) t =
     (let p' = reconcile_payout now evs p in
      reconcile_loop now evs ps
        (if rp_status p' = RP_DISCREPANCY then (good, bad @ [p']) else (good @ [p'], bad)) (save_payout p' t))"

definition reconcileEvents ::
  "timestamp \<Rightarrow> payout_event list \<Rightarrow> royalty_payout table \<Rightarrow> (royalty_payout list \<times> royalty_payout list) \<times> royalty_payout table" where
  "reconcileEvents now evs t =
     (if evs = [] then (([], []), t)
      else reconcile_loop now evs (filter (\<lambda>p. rp_saleEventId p \<in> set (map pe_saleEventId evs)) t) ([], []) t)"

subsection \<open>Reading the contract's events\<close>

text \<open>\<open>String(v)\<close>.\<close>

fun js_string :: "js_value \<Rightarrow> string" where
  "js_string JUndef = ''undefined''"
| "js_string JNull = ''null''"
| "js_string (JBool b) = (if b then ''true'' else ''false'')"
| "js_string (JNum n) = int_str n"
| "js_string (JBig n) = int_str n"
| "js_string (JStr s) = s"
| "js_string (JArr vs) = join_with '','' (map (\<lambda>v. if v = JUndef \<or> v = JNull then [] else js_string v) vs)"
| "js_string (JObj fs) = ''[object Object]''"

definition parseRoyaltyPayoutEvent :: "js_value \<times> js_value \<Rightarrow> payout_event option" where
  "parseRoyaltyPayoutEvent ev =
     (let (eid, v) = ev; field = js_get v in
      if \<not> js_true v \<or> \<not> js_true (field ''saleEventId'') \<or> \<not> js_true (field ''recipientPublicKey'') \<or>
         \<not> js_true (field ''amountStroops'')
      then None
      else Some \<lparr>pe_saleEventId = js_string (field ''saleEventId''),
        pe_onChainEventId = js_string (if js_true (field ''onChainEventId'') then field ''onChainEventId''
          else if js_true eid then eid else JStr []),
        pe_recipient = js_string (field ''recipientPublicKey''),
        pe_amount = js_string (field ''amountStroops'')\<rparr>)"

text \<open>
  The request asks for one page of 200 events of the contract and nothing else; \<open>rpc\<close> answers it with an
  error or with pairs of an event's id and value.
\<close>

definition getRoyaltyPayoutEvents ::
  "(string \<Rightarrow> nat \<Rightarrow> js_error + (js_value \<times> js_value) list) \<Rightarrow> string \<Rightarrow> ident list \<Rightarrow> js_error + payout_event list" where
  "getRoyaltyPayoutEvents rpc contract ids =
     (if ids = [] then Inr []
      else (case rpc contract 200 of
          Inl e \<Rightarrow> Inl e
        | Inr evs \<Rightarrow> Inr (filter (\<lambda>e. pe_saleEventId e \<in> set ids) (List.map_filter parseRoyaltyPayoutEvent evs))))"

definition reconcilePendingPayouts ::
  "(string \<Rightarrow> nat \<Rightarrow> js_error + (js_value \<times> js_value) list) \<Rightarrow> string \<Rightarrow> timestamp \<Rightarrow>
   (royalty_payout table, royalty_payout list \<times> royalty_payout list) service" where
  "reconcilePendingPayouts rpc contract now t =
     (let pending = filter (\<lambda>p. rp_status p \<in> {RP_PENDING, RP_DISCREPANCY}) t in
      if pending = [] then (Inr ([], []), t)
      else (case getRoyaltyPayoutEvents rpc contract (map rp_saleEventId pending) of
          Inl e \<Rightarrow> (Inl e, t)
        | Inr evs \<Rightarrow> (case reconcileEvents now evs t of (res, t') \<Rightarrow> (Inr res, t'))))"

definition listDiscrepancies :: "royalty_payout table \<Rightarrow> royalty_payout list" where
  "listDiscrepancies t = filter (\<lambda>p. rp_status p = RP_DISCREPANCY) t"

subsection \<open>Export\<close>

fun royalty_status_str :: "royalty_status \<Rightarrow> string" where
  "royalty_status_str RP_PENDING = ''pending''"
| "royalty_status_str RP_RECONCILED = ''reconciled''"
| "royalty_status_str RP_DISCREPANCY = ''discrepancy''"

definition payout_headers :: "string list" where
  "payout_headers = [''ID'', ''SaleEventId'', ''Status'', ''Currency'', ''GrossAmount'', ''CreatedAt'']"

definition newline :: string where
  "newline = [CHR 10]"

text \<open>\<open>toISO\<close> is \<open>Date.toISOString\<close>.\<close>

definition exportHistory :: "(timestamp \<Rightarrow> string) \<Rightarrow> ident \<Rightarrow> royalty_payout table \<Rightarrow> string" where
  "exportHistory toISO artist t =
     (let ps = sort_key (\<lambda>p. - rp_createdAt p) (filter (\<lambda>p. rp_artist_id p = Some artist) t) in
      if ps = [] then join_with '','' payout_headers @ newline
      else join_with newline (join_with '','' payout_headers #
        map (\<lambda>p. join_with '','' [rp_id p, rp_saleEventId p, royalty_status_str (rp_status p), rp_currency p,
          rp_grossAmount p, toISO (rp_createdAt p)]) ps))"

subsection \<open>Reading an amount back\<close>

lemma digit_value_digit: "n < 10 \<Longrightarrow> digit_value (char_of (48 + n :: nat)) = Some (int n)"
proof -
  assume "n < 10"
  then have "n \<in> {0, 1, 2, 3, 4, 5, 6, 7, 8, 9}" by auto
  then show ?thesis by (elim insertE emptyE; hypsubst; code_simp)
qed

lemma read_digits_append:
  "read_digits b a (xs @ ys) = (case read_digits b a xs of None \<Rightarrow> None | Some a' \<Rightarrow> read_digits b a' ys)"
  by (induction xs arbitrary: a) (auto split: option.splits)

lemma read_digits_nat_str: "\<exists>k. \<forall>a. read_digits 10 a (nat_str n) = Some (a * 10 ^ k + int n)"
proof (induction n rule: nat_str.induct)
  case (1 n)
  show ?case
  proof (cases "n < 10")
    case True
    then have "\<forall>a. read_digits 10 a (nat_str n) = Some (a * 10 ^ 1 + int n)"
      by (simp add: nat_str.simps [of n] digit_value_digit)
    then show ?thesis by blast
  next
    case False
    with 1 obtain k where k: "\<forall>a. read_digits 10 a (nat_str (n div 10)) = Some (a * 10 ^ k + int (n div 10))" by blast
    have "int n = 10 * int (n div 10) + int (n mod 10)"
      by (metis mult_div_mod_eq of_nat_add of_nat_mult of_nat_numeral)
    then have "\<forall>a. read_digits 10 a (nat_str n) = Some (a * 10 ^ Suc k + int n)"
      using False k by (simp add: nat_str.simps [of n] read_digits_append digit_value_digit algebra_simps)
    then show ?thesis by blast
  qed
qed

definition is_digit :: "char \<Rightarrow> bool" where
  "is_digit c \<longleftrightarrow> c \<in> set ''0123456789''"

lemma is_digit_char: "n < 10 \<Longrightarrow> is_digit (char_of (48 + n :: nat))"
proof -
  assume "n < 10"
  then have "n \<in> {0, 1, 2, 3, 4, 5, 6, 7, 8, 9}" by auto
  then show ?thesis by (elim insertE emptyE; hypsubst; code_simp)
qed

lemma nat_str_digits: "nat_str n \<noteq> [] \<and> list_all is_digit (nat_str n)"
  by (induction n rule: nat_str.induct) (subst nat_str.simps, auto simp: is_digit_char)+

lemma is_digit_facts: "is_digit c \<Longrightarrow> \<not> js_space c \<and> c \<noteq> CHR ''x'' \<and> c \<noteq> CHR ''X'' \<and> c \<noteq> CHR ''o'' \<and> c \<noteq> CHR ''O'' \<and>
   c \<noteq> CHR ''b'' \<and> c \<noteq> CHR ''B'' \<and> c \<noteq> CHR ''-'' \<and> c \<noteq> CHR ''+''"
  by (auto simp: is_digit_def js_space_def)

lemma js_trim_solid:
  assumes "s \<noteq> []" and "\<not> js_space (hd s)" and "\<not> js_space (last s)"
  shows "js_trim s = s"
proof -
  have "dropWhile js_space s = s" using assms(1,2) by (cases s) auto
  moreover have "dropWhile js_space (rev s) = rev s" using assms(1,3) by (cases "rev s") (auto simp: last_rev [symmetric] hd_rev dest: sym)
  ultimately show ?thesis by (simp add: js_trim_def)
qed

text \<open>The decimal string of an integer reads back as the integer.\<close>

lemma js_BigInt_int_str: "js_BigInt (int_str n) = Some n"
proof -
  have dig: "nat_str m \<noteq> []" "list_all is_digit (nat_str m)" for m using nat_str_digits [of m] by auto
  have rd: "read_number 10 (nat_str m) = Some (int m)" for m
    using read_digits_nat_str [of m] dig [of m] by (auto simp: read_number_def)
  have ends: "is_digit (hd (nat_str m))" "is_digit (last (nat_str m))" for m
    using dig [of m] by (auto simp: list_all_iff)
  have minus: "\<not> js_space (CHR ''-'')" by (simp add: js_space_def)
  show ?thesis
  proof (cases "n < 0")
    case True
    have "js_trim (CHR ''-'' # nat_str (nat (- n))) = CHR ''-'' # nat_str (nat (- n))"
      using ends(2) [of "nat (- n)"] dig(1) [of "nat (- n)"] by (intro js_trim_solid) (auto simp: is_digit_facts minus)
    with True show ?thesis by (simp add: js_BigInt_def int_str_def rd)
  next
    case False
    let ?s = "nat_str (nat n)"
    have t: "js_trim ?s = ?s" using ends [of "nat n"] dig(1) [of "nat n"] by (intro js_trim_solid) (auto simp: is_digit_facts)
    have "\<not> (\<exists>c. take 2 ?s = [CHR ''0'', c] \<and> \<not> is_digit c)"
      using dig(2) [of "nat n"] by (metis in_set_takeD list.set_intros list_all_iff)
    then have "take 2 ?s \<notin> {''0x'', ''0X''}" "take 2 ?s \<notin> {''0o'', ''0O''}" "take 2 ?s \<notin> {''0b'', ''0B''}"
      by (auto simp: is_digit_def)
    moreover have "hd ?s \<noteq> CHR ''-''" "hd ?s \<noteq> CHR ''+''" using ends(1) [of "nat n"] is_digit_facts by blast+
    ultimately show ?thesis using False dig(1) [of "nat n"] unfolding js_BigInt_def int_str_def by (simp add: t rd)
  qed
qed

subsection \<open>What a sale is split into\<close>

lemma bigint_div_nonneg: "0 \<le> a \<Longrightarrow> 0 < b \<Longrightarrow> bigint_div a b = a div b"
  by (cases "a = 0") (auto simp: bigint_div_def)

lemma round_bps_bounds: "of_int (round_bps x) \<le> x + 1 / 2" "0 \<le> x \<Longrightarrow> 0 \<le> round_bps x"
  by (simp_all add: round_bps_def)

text \<open>The request bodies, as \<open>AddCollaboratorDTO\<close> and \<open>UpdateCollaboratorDTO\<close> let them through.\<close>

definition share_ok :: "rat \<Rightarrow> bool" where
  "share_ok share \<longleftrightarrow> 1 / 100 \<le> share \<and> share \<le> 100"

fun request_ok :: "(string \<Rightarrow> bool) \<Rightarrow> collaboration_op \<Rightarrow> bool" where
  "request_ok is_uuid (CO_add sid req uid role share) = (is_uuid uid \<and> map_of song_roles role \<noteq> None \<and> share_ok share)"
| "request_ok is_uuid (CO_update sid uid req role share) =
     ((case role of None \<Rightarrow> True | Some r \<Rightarrow> map_of song_roles r \<noteq> None) \<and> (case share of None \<Rightarrow> True | Some sh \<Rightarrow> share_ok sh))"
| "request_ok is_uuid _ = True"

definition validated_step ::
  "(string \<Rightarrow> bool) \<Rightarrow> (rat \<Rightarrow> string) \<Rightarrow> timestamp \<times> collaboration_op \<Rightarrow> collaboration_db \<Rightarrow> collaboration_db" where
  "validated_step is_uuid fmt e db = (if request_ok is_uuid (snd e) then collaboration_step fmt e db else db)"

definition shares_positive :: "collaboration_db \<Rightarrow> bool" where
  "shares_positive db \<longleftrightarrow> list_all (\<lambda>c. 0 \<le> co_royaltyShare c) (cdb_collaborators db)"

lemma shares_positive_save:
  "shares_positive db \<Longrightarrow> 0 \<le> co_royaltyShare c \<Longrightarrow> shares_positive (save_collaborator c db)"
  using set_tbl_put_subset [of collaboration_key c "cdb_collaborators db"]
  by (auto simp: shares_positive_def save_collaborator_def list_all_iff)

lemma shares_positive_find:
  "shares_positive db \<Longrightarrow> find_active_collaborator sid uid db = Some c \<Longrightarrow> 0 \<le> co_royaltyShare c"
  by (auto simp: shares_positive_def list_all_iff dest: find_active_Some)

lemma shares_positive_step:
  assumes "shares_positive db" and "request_ok is_uuid op"
  shows "shares_positive (collaboration_step fmt (now, op) db)"
proof (cases op)
  case (CO_add sid req uid role share)
  with assms show ?thesis
    by (auto simp: addSongCollaborator_def Let_def share_ok_def intro!: shares_positive_save
        split: sum.splits option.splits)
next
  case (CO_update sid uid req role share)
  with assms show ?thesis
    by (auto simp: updateCollaborator_def Let_def share_ok_def intro!: shares_positive_save dest: shares_positive_find
        split: sum.splits option.splits)
next
  case (CO_dispute sid req)
  with assms show ?thesis
    by (auto simp: disputeSplit_def Let_def intro!: shares_positive_save dest: shares_positive_find
        split: sum.splits option.splits)
next
  case (CO_resolve sid uid req)
  with assms show ?thesis
    by (auto simp: resolveDispute_def Let_def intro!: shares_positive_save dest: shares_positive_find
        split: sum.splits option.splits)
qed

interpretation valm: machine "validated_step is_uuid fmt" "\<lambda>db. collaborations_ok db \<and> shares_positive db" for is_uuid fmt
proof unfold_locales
  fix e :: "timestamp \<times> collaboration_op" and db
  assume "collaborations_ok db \<and> shares_positive db"
  then show "collaborations_ok (validated_step is_uuid fmt e db) \<and> shares_positive (validated_step is_uuid fmt e db)"
    by (cases e) (auto simp: validated_step_def intro: shares_positive_step collm.step_ok)
qed

lemma sum_list_filter_le:
  fixes g :: "'a \<Rightarrow> 'b::ordered_comm_monoid_add"
  shows "list_all (\<lambda>x. 0 \<le> g x) xs \<Longrightarrow> sum_list (map g (filter p xs)) \<le> sum_list (map g xs)"
  by (induction xs) (auto simp: add_increasing add_left_mono)

lemma round_total:
  "list_all (\<lambda>x. 0 \<le> x) xs \<Longrightarrow>
     of_int (sum_list (map (\<lambda>x. round_bps (x * 100)) xs)) \<le> 100 * sum_list xs + of_nat (length xs) / 2 \<and>
     0 \<le> sum_list (map (\<lambda>x. round_bps (x * 100)) xs)"
proof (induction xs)
  case (Cons x xs)
  moreover have "of_int (round_bps (x * 100)) \<le> x * 100 + 1 / 2" by (rule round_bps_bounds)
  moreover have "0 \<le> round_bps (x * 100)" using Cons.prems by (intro round_bps_bounds) simp
  ultimately show ?case by (simp add: field_simps)
qed simp

lemma split_amount_total:
  "0 \<le> gross \<Longrightarrow> list_all (\<lambda>b. 0 \<le> b) bs \<Longrightarrow>
     sum_list (map (\<lambda>b. bigint_div (gross * b) 10000) bs) \<le> gross * sum_list bs div 10000"
proof (induction bs)
  case (Cons b bs)
  have "gross * b div 10000 + gross * sum_list bs div 10000 \<le> (gross * b + gross * sum_list bs) div 10000"
    unfolding div_add1_eq [of "gross * b" "gross * sum_list bs" 10000] by simp
  with Cons show ?case by (simp add: bigint_div_nonneg distrib_left)
qed simp

text \<open>The splits a song's collaborators give, with their amounts as numbers.\<close>

lemma splits_total:
  assumes "buildSplitsFromCollaborators key_of sid gross_s db = Inr sps" and "js_BigInt gross_s = Some gross" and "0 \<le> gross"
    and "shares_positive db"
  obtains amounts where "map (\<lambda>sp. js_BigInt (sp_expectedAmount sp)) sps = map Some amounts"
    "sum_list amounts \<le> gross * sum_list (map sp_shareBps sps) div 10000" "0 \<le> sum_list (map sp_shareBps sps)"
    "(of_int (sum_list (map sp_shareBps sps)) :: rat) \<le> 100 * song_share_total sid db + of_nat (length sps) / 2"
proof -
  define cs where "cs = (if active_collaborators sid db = [] then [] else filter (\<lambda>c. truthy (key_of (co_userId c))) (active_collaborators sid db))"
  have sps: "sps = map (split_of key_of gross) cs"
    using assms(1,2) by (auto simp: buildSplitsFromCollaborators_def cs_def Let_def split: if_splits)
  let ?shares = "map co_royaltyShare cs"
  let ?bps = "map (\<lambda>x. round_bps (x * 100)) ?shares"
  have bps: "map sp_shareBps sps = ?bps" by (simp add: sps split_of_def Let_def)
  have amounts: "map (\<lambda>sp. js_BigInt (sp_expectedAmount sp)) sps = map Some (map (\<lambda>b. bigint_div (gross * b) 10000) ?bps)"
    by (simp add: sps split_of_def Let_def js_BigInt_int_str)
  have pos: "list_all (\<lambda>c. 0 \<le> co_royaltyShare c) (active_collaborators sid db)"
    using assms(4) by (auto simp: shares_positive_def active_collaborators_def list_all_iff)
  then have pos': "list_all (\<lambda>x. 0 \<le> x) ?shares" by (auto simp: cs_def list_all_iff)
  have "sum_list ?shares \<le> song_share_total sid db"
    using sum_list_filter_le [OF pos] by (auto simp: cs_def song_share_total_def)
  with round_total [OF pos'] have tot: "(of_int (sum_list ?bps) :: rat) \<le> 100 * song_share_total sid db + of_nat (length sps) / 2"
    by (simp add: sps)
  have "list_all (\<lambda>b. 0 \<le> b) ?bps" using pos' by (auto simp: list_all_iff intro!: round_bps_bounds(2))
  from that [OF amounts] split_amount_total [OF assms(3) this] tot round_total [OF pos'] show ?thesis
    by (simp add: bps)
qed

lemma div_mult_10000_le: "(x :: int) div 10000 * 10000 \<le> x"
  by presburger

lemma bps_to_amount:
  fixes gross k :: int
  assumes "0 \<le> gross" and "(of_int k :: rat) \<le> 100 * b + c"
  shows "(of_int (gross * k div 10000) :: rat) \<le> of_int gross * (b / 100 + c / 10000)"
proof -
  have "(of_int (gross * k div 10000) :: rat) * 10000 \<le> of_int (gross * k)"
    using div_mult_10000_le [of "gross * k"] by (simp flip: of_int_mult of_int_le_iff)
  also have "\<dots> \<le> of_int gross * (100 * b + c)"
    using assms by (simp add: mult_left_mono)
  finally show ?thesis by (simp add: field_simps)
qed

text \<open>
  C36: After any sequence of validated collaboration requests, the amounts expected for a sale of a song are
  numbers that add up to at most the gross amount times 1.0001 plus half a basis point per split: the share
  bound's tolerance and the rounding of each share are all that can be allocated beyond the sale.
\<close>

theorem expected_amounts_bounded:
  assumes "cdb_collaborators db0 = []"
    and "buildSplitsFromCollaborators key_of sid gross_s (fold (validated_step is_uuid fmt) ops db0) = Inr sps"
    and "js_BigInt gross_s = Some gross" and "0 \<le> gross"
  shows "\<exists>amounts. map (\<lambda>sp. js_BigInt (sp_expectedAmount sp)) sps = map Some amounts \<and>
     (of_int (sum_list amounts) :: rat) \<le> of_int gross * (1 + 1 / 10000 + of_nat (length sps) / 20000)"
proof -
  let ?db = "fold (validated_step is_uuid fmt) ops db0"
  have "collaborations_ok db0 \<and> shares_positive db0"
    using assms(1) by (simp add: collaborations_ok_def tbl_simps song_share_total_filter SHARE_TOTAL_TOLERANCE_def shares_positive_def)
  then have ok: "collaborations_ok ?db" "shares_positive ?db" using valm.run_ok by blast+
  then have le: "song_share_total sid ?db \<le> 100 + 1 / 100" by (auto simp: collaborations_ok_def SHARE_TOTAL_TOLERANCE_def)
  obtain amounts where a: "map (\<lambda>sp. js_BigInt (sp_expectedAmount sp)) sps = map Some amounts"
      "sum_list amounts \<le> gross * sum_list (map sp_shareBps sps) div 10000"
      "(of_int (sum_list (map sp_shareBps sps)) :: rat) \<le> 100 * song_share_total sid ?db + of_nat (length sps) / 2"
    using splits_total [OF assms(2-4) ok(2)] by metis
  have "(of_int (sum_list (map sp_shareBps sps)) :: rat) \<le> 100 * (100 + 1 / 100) + of_nat (length sps) / 2"
    by (rule order_trans [OF a(3)]) (use le in simp)
  from bps_to_amount [OF assms(4) this]
  have "(of_int (gross * sum_list (map sp_shareBps sps) div 10000) :: rat)
      \<le> of_int gross * (1 + 1 / 10000 + of_nat (length sps) / 20000)"
    by (simp add: field_simps)
  moreover have "(of_int (sum_list amounts) :: rat) \<le> of_int (gross * sum_list (map sp_shareBps sps) div 10000)"
    using a(2) by (simp only: of_int_le_iff)
  ultimately show ?thesis using a(1) by (intro exI [of _ amounts]) (auto intro: order_trans)
qed

text \<open>The shares 50 and 50.01 are accepted and allocate 10001 of 10000.\<close>

definition two_keys :: "ident \<Rightarrow> string option" where
  "two_keys u = (if u = ''w'' then None else Some (''G'' @ u))"

definition over_run :: collaboration_db where
  "over_run = fold (validated_step (\<lambda>_. True) (\<lambda>_. [])) tolerance_run (bare_song MS_NOT_MINTED)"

definition over_splits :: "royalty_split list" where
  "over_splits = [\<lparr>sp_recipient = ''Gu'', sp_shareBps = 5000, sp_expectedAmount = ''5000'', sp_actualAmount = None\<rparr>,
     \<lparr>sp_recipient = ''Gv'', sp_shareBps = 5001, sp_expectedAmount = ''5001'', sp_actualAmount = None\<rparr>]"

definition over_row :: "ident \<Rightarrow> song_role \<Rightarrow> rat \<Rightarrow> dispute_status \<Rightarrow> timestamp \<Rightarrow> song_collaborator" where
  "over_row uid role share d now = \<lparr>co_songId = ''s'', co_userId = uid, co_role = role, co_royaltyShare = share,
     co_status = CS_ACTIVE, co_disputeStatus = d, co_createdAt = now\<rparr>"

lemma over_run_rows:
  "active_collaborators ''s'' over_run =
     [over_row ''u'' SR_WRITER 50 DS_NONE 1, over_row ''v'' SR_MIXER (5001 / 100) DS_DISPUTED 2]"
  by code_simp

lemma digit_chars:
  "char_of (48 :: nat) = CHR ''0''" "char_of (49 :: nat) = CHR ''1''" "char_of (53 :: nat) = CHR ''5''"
  by code_simp+

lemma over_row_splits:
  "map (split_of two_keys 10000) [over_row ''u'' SR_WRITER 50 DS_NONE 1, over_row ''v'' SR_MIXER (5001 / 100) DS_DISPUTED 2] = over_splits"
proof -
  have "int_str 5000 = ''5000''" "int_str 5001 = ''5001''" by (simp_all add: int_str_def nat_str.simps digit_chars)
  moreover have "round_bps (50 * 100) = 5000" "round_bps (5001 / 100 * 100) = 5001" by code_simp+
  ultimately show ?thesis by (simp add: split_of_def over_row_def over_splits_def two_keys_def bigint_div_def)
qed

lemma over_run_splits: "buildSplitsFromCollaborators two_keys ''s'' ''10000'' over_run = Inr over_splits"
proof -
  have "js_BigInt ''10000'' = Some 10000" by code_simp
  moreover have "truthy (two_keys ''u'')" "truthy (two_keys ''v'')" by code_simp+
  ultimately show ?thesis
    using over_row_splits by (simp add: buildSplitsFromCollaborators_def over_run_rows Let_def) (simp add: over_row_def)
qed

theorem expected_amounts_bounded_witness:
  "\<exists>amounts. map (\<lambda>sp. js_BigInt (sp_expectedAmount sp)) over_splits = map Some amounts \<and>
     (of_int (sum_list amounts) :: rat) \<le> 10000 * (1 + 1 / 10000 + 2 / 20000) \<and> sum_list amounts = 10001"
proof -
  have "js_BigInt ''10000'' = Some 10000" "length over_splits = 2"
    "map (\<lambda>sp. js_BigInt (sp_expectedAmount sp)) over_splits = map Some [5000, 5001]" by code_simp+
  with expected_amounts_bounded [OF bare_song_none over_run_splits [unfolded over_run_def], of 10000]
  obtain amounts where a: "map (\<lambda>sp. js_BigInt (sp_expectedAmount sp)) over_splits = map Some amounts"
      "(of_int (sum_list amounts) :: rat) \<le> 10000 * (1 + 1 / 10000 + 2 / 20000)"
      "map Some amounts = map Some [5000, 5001 :: int]"
    by (metis of_int_numeral of_nat_numeral zero_le_numeral)
  from a(3) have "amounts = [5000, 5001]" by (rule map_injective) simp
  with a(1,2) show ?thesis by (intro exI [of _ amounts]) simp
qed

subsection \<open>Reconciliation\<close>

interpretation payouts: keyed_store rp_saleEventId "\<lambda>k. tbl_find (\<lambda>x. rp_saleEventId x = k)" "tbl_put rp_saleEventId"
    "\<lambda>k. tbl_delete (\<lambda>x. rp_saleEventId x = k)" "tbl_ok rp_saleEventId"
  by (rule tbl_keyed_store)

definition find_payout :: "ident \<Rightarrow> royalty_payout table \<Rightarrow> royalty_payout option" where
  "find_payout sale t = tbl_find (\<lambda>p. rp_saleEventId p = sale) t"

text \<open>The row a payout is left with, and what was paid last to a recipient of a sale.\<close>

definition reconciled_row :: "timestamp \<Rightarrow> payout_event list \<Rightarrow> royalty_payout \<Rightarrow> royalty_payout" where
  "reconciled_row now evs p =
     (let p' = reconcile_payout now evs p in
      case rp_discrepancyReason p' of Some _ \<Rightarrow> p' | None \<Rightarrow> p'\<lparr>rp_discrepancyReason := rp_discrepancyReason p\<rparr>)"

definition last_paid :: "payout_event list \<Rightarrow> ident \<Rightarrow> ident \<Rightarrow> string option" where
  "last_paid evs sale recipient =
     map_option pe_amount (List.find (\<lambda>e. pe_saleEventId e = sale \<and> pe_recipient e = recipient) (rev evs))"

lemma actualByRecipient_fold:
  "fold (\<lambda>e m. m(pe_recipient e \<mapsto> pe_amount e)) evs m r =
     (case List.find (\<lambda>e. pe_recipient e = r) (rev evs) of None \<Rightarrow> m r | Some e \<Rightarrow> Some (pe_amount e))"
proof (induction evs rule: rev_induct)
  case (snoc e evs)
  then show ?case by auto
qed simp

lemma find_filter: "List.find p (filter q xs) = List.find (\<lambda>x. q x \<and> p x) xs"
  by (induction xs) auto

lemma actualByRecipient_last_paid:
  "actualByRecipient (filter (\<lambda>e. pe_saleEventId e = sale) evs) r = last_paid evs sale r"
  by (simp add: actualByRecipient_def actualByRecipient_fold rev_filter find_filter last_paid_def split: option.split)

definition paid_as_expected :: "payout_event list \<Rightarrow> royalty_payout \<Rightarrow> bool" where
  "paid_as_expected evs p \<longleftrightarrow>
     list_all (\<lambda>s. last_paid evs (rp_saleEventId p) (sp_recipient s) = Some (sp_expectedAmount s)) (rp_expectedSplits p)"

lemma reconcile_payout_facts:
  "rp_saleEventId (reconcile_payout now evs p) = rp_saleEventId p"
  "rp_grossAmount (reconcile_payout now evs p) = rp_grossAmount p"
  "rp_expectedSplits (reconcile_payout now evs p) =
     map (\<lambda>s. s\<lparr>sp_actualAmount := last_paid evs (rp_saleEventId p) (sp_recipient s)\<rparr>) (rp_expectedSplits p)"
  "rp_status (reconcile_payout now evs p) = (if paid_as_expected evs p then RP_RECONCILED else RP_DISCREPANCY)"
  "rp_discrepancyReason (reconcile_payout now evs p) = None \<longleftrightarrow> paid_as_expected evs p"
  by (auto simp: reconcile_payout_def Let_def actualByRecipient_last_paid filter_empty_conv split_mismatch_def
      paid_as_expected_def list_all_iff)

lemma reconciled_row_facts:
  "rp_saleEventId (reconciled_row now evs p) = rp_saleEventId p"
  "rp_grossAmount (reconciled_row now evs p) = rp_grossAmount p"
  "rp_expectedSplits (reconciled_row now evs p) =
     map (\<lambda>s. s\<lparr>sp_actualAmount := last_paid evs (rp_saleEventId p) (sp_recipient s)\<rparr>) (rp_expectedSplits p)"
  "rp_status (reconciled_row now evs p) = (if paid_as_expected evs p then RP_RECONCILED else RP_DISCREPANCY)"
  "paid_as_expected evs p \<Longrightarrow> rp_discrepancyReason (reconciled_row now evs p) = rp_discrepancyReason p"
  using reconcile_payout_facts [of now evs p]
  by (auto simp: reconciled_row_def Let_def split: option.split)

lemma save_reconciled:
  "find_payout (rp_saleEventId p) t = Some p \<Longrightarrow>
     save_payout (reconcile_payout now evs p) t = tbl_put rp_saleEventId (reconciled_row now evs p) t"
  by (cases "rp_discrepancyReason (reconcile_payout now evs p)")
    (simp_all add: save_payout_def reconciled_row_def find_payout_def reconcile_payout_facts(1) Let_def)

text \<open>The loop saves each payout it was given once and nothing else.\<close>

lemma reconcile_loop_rows:
  assumes "distinct (map rp_saleEventId ps)" and "\<forall>p\<in>set ps. find_payout (rp_saleEventId p) t = Some p"
  shows "find_payout k (snd (reconcile_loop now evs ps acc t)) =
     (case List.find (\<lambda>p. rp_saleEventId p = k) ps of None \<Rightarrow> find_payout k t | Some p \<Rightarrow> Some (reconciled_row now evs p))"
  using assms
proof (induction ps arbitrary: acc t)
  case (Cons p ps)
  obtain good bad where acc: "acc = (good, bad)" by fastforce
  let ?t = "tbl_put rp_saleEventId (reconciled_row now evs p) t"
  have put: "find_payout k' ?t = (if k' = rp_saleEventId p then Some (reconciled_row now evs p) else find_payout k' t)" for k'
    unfolding find_payout_def payouts.lookup_store reconciled_row_facts(1) by (rule refl)
  have fresh: "\<forall>q\<in>set ps. rp_saleEventId q \<noteq> rp_saleEventId p"
    using Cons.prems(1) by (metis distinct.simps(2) image_eqI list.set_map list.simps(9))
  then have "\<forall>q\<in>set ps. find_payout (rp_saleEventId q) ?t = Some q"
    unfolding put using Cons.prems(2) by simp
  moreover have "save_payout (reconcile_payout now evs p) t = ?t"
    using Cons.prems(2) by (simp add: save_reconciled)
  then have "snd (reconcile_loop now evs (p # ps) acc t) =
      snd (reconcile_loop now evs ps
        (if rp_status (reconcile_payout now evs p) = RP_DISCREPANCY then (good, bad @ [reconcile_payout now evs p])
         else (good @ [reconcile_payout now evs p], bad)) ?t)"
    by (simp only: acc reconcile_loop.simps Let_def)
  ultimately have "find_payout k (snd (reconcile_loop now evs (p # ps) acc t)) =
      (case List.find (\<lambda>p. rp_saleEventId p = k) ps of None \<Rightarrow> find_payout k ?t | Some p \<Rightarrow> Some (reconciled_row now evs p))"
    using Cons.prems(1) by (simp only: Cons.IH distinct.simps list.map)
  moreover have "List.find (\<lambda>q. rp_saleEventId q = rp_saleEventId p) ps = None"
    using fresh by (simp add: find_None_iff)
  ultimately show ?case by (cases "k = rp_saleEventId p") (simp_all add: put split: option.split)
qed simp

lemma tbl_ok_reconcile_loop: "tbl_ok rp_saleEventId t \<Longrightarrow> tbl_ok rp_saleEventId (snd (reconcile_loop now evs ps acc t))"
  by (induction now evs ps acc t rule: reconcile_loop.induct) (auto simp: Let_def save_payout_def tbl_simps)

lemma reconcileEvents_rows:
  assumes "tbl_ok rp_saleEventId t"
  shows "find_payout k (snd (reconcileEvents now evs t)) =
     (if k \<in> set (map pe_saleEventId evs) then map_option (reconciled_row now evs) (find_payout k t) else find_payout k t)"
proof (cases "evs = []")
  case True
  then show ?thesis by (simp add: reconcileEvents_def)
next
  case False
  let ?ps = "filter (\<lambda>p. rp_saleEventId p \<in> set (map pe_saleEventId evs)) t"
  have "distinct (map rp_saleEventId ?ps)" using assms by (simp add: tbl_ok_def distinct_map_filter)
  moreover have "\<forall>p\<in>set ?ps. find_payout (rp_saleEventId p) t = Some p"
    using assms by (auto simp: find_payout_def tbl_find_key_eq)
  moreover have "List.find (\<lambda>p. rp_saleEventId p = k) ?ps = (if k \<in> set (map pe_saleEventId evs) then find_payout k t else None)"
    by (auto simp: find_filter find_payout_def tbl_find_def find_None_iff intro: arg_cong2 [where f = List.find])
  ultimately show ?thesis
    using False by (auto simp: reconcileEvents_def reconcile_loop_rows split: option.split)
qed

text \<open>
  Reconciling a batch of contract events marks a recorded payout reconciled exactly when, for each of its
  expected splits, the last payment to the recipient in the batch is the expected amount, and as a discrepancy
  otherwise; the expected amounts are kept, the actual ones filled in, and payouts of other sales are untouched.
\<close>

theorem reconcile_compares_last_payment:
  assumes "distinct (map rp_saleEventId t)" and "find_payout sale t = Some p"
  shows "\<exists>p'. find_payout sale (snd (reconcileEvents now evs t)) = Some p' \<and>
     (if sale \<in> set (map pe_saleEventId evs)
      then rp_status p' = (if paid_as_expected evs p then RP_RECONCILED else RP_DISCREPANCY) \<and>
        map sp_expectedAmount (rp_expectedSplits p') = map sp_expectedAmount (rp_expectedSplits p) \<and>
        map sp_actualAmount (rp_expectedSplits p') =
          map (last_paid evs sale) (map sp_recipient (rp_expectedSplits p)) \<and>
        rp_grossAmount p' = rp_grossAmount p
      else p' = p)"
proof -
  have "rp_saleEventId p = sale" using assms(2) by (auto simp: find_payout_def dest: payouts.lookup_key)
  with assms show ?thesis
    by (auto simp: reconcileEvents_rows tbl_ok_def reconciled_row_facts o_def)
qed

definition over_input :: payout_input where
  "over_input = \<lparr>pi_saleEventId = ''sale'', pi_saleTxHash = None, pi_songId = Some ''s'', pi_tokenId = None,
     pi_buyerPublicKey = None, pi_sellerPublicKey = None, pi_artistId = Some ''a'', pi_currency = Some [],
     pi_grossAmount = ''10000'', pi_expectedSplits = over_splits\<rparr>"

definition recorded :: "royalty_payout table" where
  "recorded = snd (recordExpectedPayout 1 ''p1'' over_input [])"

definition recorded_row :: royalty_payout where
  "recorded_row = hd recorded"

definition paid :: "ident \<Rightarrow> string \<Rightarrow> payout_event" where
  "paid r amount = \<lparr>pe_saleEventId = ''sale'', pe_onChainEventId = ''e'' @ r, pe_recipient = r, pe_amount = amount\<rparr>"

lemma recorded_find: "find_payout ''sale'' recorded = Some recorded_row" "distinct (map rp_saleEventId recorded)"
  "rp_expectedSplits recorded_row = over_splits"
  by code_simp+

theorem reconcile_compares_last_payment_witness:
  "map_option rp_status (find_payout ''sale'' (snd (reconcileEvents 2 [paid ''Gu'' ''5000'', paid ''Gv'' ''1'', paid ''Gv'' ''5001''] recorded)))
     = Some RP_RECONCILED \<and>
   map_option rp_status (find_payout ''sale'' (snd (reconcileEvents 2 [paid ''Gu'' ''5000'', paid ''Gv'' ''5001'', paid ''Gv'' ''1''] recorded)))
     = Some RP_DISCREPANCY"
proof -
  have "''sale'' \<in> set (map pe_saleEventId [paid ''Gu'' ''5000'', paid ''Gv'' ''1'', paid ''Gv'' ''5001''])"
    and "''sale'' \<in> set (map pe_saleEventId [paid ''Gu'' ''5000'', paid ''Gv'' ''5001'', paid ''Gv'' ''1''])"
    and "paid_as_expected [paid ''Gu'' ''5000'', paid ''Gv'' ''1'', paid ''Gv'' ''5001''] recorded_row"
    and "\<not> paid_as_expected [paid ''Gu'' ''5000'', paid ''Gv'' ''5001'', paid ''Gv'' ''1''] recorded_row" by code_simp+
  with reconcile_compares_last_payment [OF recorded_find(2,1),
      where now = 2 and evs = "[paid ''Gu'' ''5000'', paid ''Gv'' ''1'', paid ''Gv'' ''5001'']"]
    reconcile_compares_last_payment [OF recorded_find(2,1),
      where now = 2 and evs = "[paid ''Gu'' ''5000'', paid ''Gv'' ''5001'', paid ''Gv'' ''1'']"]
  show ?thesis by fastforce
qed

text \<open>
  A payout that once was a discrepancy and is reconciled later keeps the text of the discrepancy: the
  service clears the reason with \<open>undefined\<close>, which \<open>save\<close> does not write.
\<close>

theorem reconciled_keeps_stale_reason:
  assumes "distinct (map rp_saleEventId t)" and "find_payout sale t = Some p" and "rp_discrepancyReason p = Some reason"
    and "sale \<in> set (map pe_saleEventId evs)" and "paid_as_expected evs p"
  shows "\<exists>p'. find_payout sale (snd (reconcileEvents now evs t)) = Some p' \<and>
     rp_status p' = RP_RECONCILED \<and> rp_discrepancyReason p' = Some reason"
proof -
  have "find_payout sale (snd (reconcileEvents now evs t)) = Some (reconciled_row now evs p)"
    using assms(1,2,4) by (simp add: reconcileEvents_rows tbl_ok_def)
  with assms(3,5) show ?thesis by (simp add: reconciled_row_facts)
qed

definition disputed :: "royalty_payout table" where
  "disputed = snd (reconcileEvents 2 [paid ''Gu'' ''5000''] recorded)"

definition disputed_row :: royalty_payout where
  "disputed_row = hd disputed"

lemma disputed_facts:
  "distinct (map rp_saleEventId disputed)" "find_payout ''sale'' disputed = Some disputed_row"
  "rp_discrepancyReason disputed_row = Some ''Gv expected 5001, actual missing''"
  "''sale'' \<in> set (map pe_saleEventId [paid ''Gu'' ''5000'', paid ''Gv'' ''5001''])"
  "paid_as_expected [paid ''Gu'' ''5000'', paid ''Gv'' ''5001''] disputed_row"
  by code_simp+

theorem reconciled_keeps_stale_reason_witness:
  "\<exists>p'. find_payout ''sale'' (snd (reconcileEvents 3 [paid ''Gu'' ''5000'', paid ''Gv'' ''5001''] disputed)) = Some p' \<and>
     rp_status p' = RP_RECONCILED \<and> rp_discrepancyReason p' = Some ''Gv expected 5001, actual missing''"
  by (rule reconciled_keeps_stale_reason [OF disputed_facts])

subsection \<open>Runs of the job\<close>

text \<open>The operations that write: a sale is recorded, and the reconciliation job runs against some answer of the RPC.\<close>

datatype royalty_op =
    RO_record timestamp ident payout_input
  | RO_reconcile "string \<Rightarrow> nat \<Rightarrow> js_error + (js_value \<times> js_value) list" string timestamp

fun royalty_step :: "royalty_op \<Rightarrow> royalty_payout table \<Rightarrow> royalty_payout table" where
  "royalty_step (RO_record now pid i) t = snd (recordExpectedPayout now pid i t)"
| "royalty_step (RO_reconcile rpc contract now) t = snd (reconcilePendingPayouts rpc contract now t)"

lemma tbl_ok_reconcileEvents: "tbl_ok rp_saleEventId t \<Longrightarrow> tbl_ok rp_saleEventId (snd (reconcileEvents now evs t))"
  by (simp add: reconcileEvents_def tbl_ok_reconcile_loop)

lemma getRoyaltyPayoutEvents_sales:
  "getRoyaltyPayoutEvents rpc contract ids = Inr evs \<Longrightarrow> set (map pe_saleEventId evs) \<subseteq> set ids"
  by (auto simp: getRoyaltyPayoutEvents_def split: if_splits sum.splits)

text \<open>The job touches only payouts that are not reconciled.\<close>

lemma reconcilePending_keeps:
  assumes "tbl_ok rp_saleEventId t" and "find_payout sale t = Some p" and "rp_status p = RP_RECONCILED"
  shows "find_payout sale (snd (reconcilePendingPayouts rpc contract now t)) = Some p"
proof -
  let ?pending = "filter (\<lambda>p. rp_status p \<in> {RP_PENDING, RP_DISCREPANCY}) t"
  have "sale \<notin> set (map rp_saleEventId ?pending)"
  proof
    assume "sale \<in> set (map rp_saleEventId ?pending)"
    then obtain q where q: "q \<in> set t" "rp_saleEventId q = sale" "rp_status q \<noteq> RP_RECONCILED" by auto
    have "find_payout (rp_saleEventId q) t = Some q"
      unfolding find_payout_def by (rule tbl_find_key_eq [OF assms(1) q(1)])
    with q assms(2,3) show False by simp
  qed
  then have "sale \<notin> set (map pe_saleEventId evs)"
    if "getRoyaltyPayoutEvents rpc contract (map rp_saleEventId ?pending) = Inr evs" for evs
    using getRoyaltyPayoutEvents_sales [OF that] by blast
  then have "find_payout sale (snd (reconcileEvents now evs t)) = Some p"
    if "getRoyaltyPayoutEvents rpc contract (map rp_saleEventId ?pending) = Inr evs" for evs
    using that assms(1,2) reconcileEvents_rows by simp
  then show ?thesis
    using assms(2) by (auto simp: reconcilePendingPayouts_def Let_def split: sum.splits prod.splits)
qed

interpretation royalm: machine royalty_step
  "\<lambda>t. tbl_ok rp_saleEventId t \<and> find_payout sale t = Some p \<and> rp_status p = RP_RECONCILED" for sale p
proof unfold_locales
  fix t op assume ok: "tbl_ok rp_saleEventId t \<and> find_payout sale t = Some p \<and> rp_status p = RP_RECONCILED"
  show "tbl_ok rp_saleEventId (royalty_step op t) \<and> find_payout sale (royalty_step op t) = Some p \<and> rp_status p = RP_RECONCILED"
  proof (cases op)
    case (RO_record now pid i)
    with ok show ?thesis
      by (auto simp: recordExpectedPayout_def tbl_ok_insert_row)
        (auto simp: insert_row_def find_payout_def tbl_find_append)
  next
    case (RO_reconcile rpc contract now)
    have "tbl_ok rp_saleEventId (snd (reconcilePendingPayouts rpc contract now t))"
      using ok tbl_ok_reconcileEvents [of t now]
      by (auto simp: reconcilePendingPayouts_def Let_def split: sum.splits prod.splits) (metis snd_conv)
    with RO_reconcile ok reconcilePending_keeps show ?thesis by simp
  qed
qed

text \<open>
  Once a payout is reconciled, no further recording and no run of the reconciliation job, whatever the RPC
  answers, changes anything of it.
\<close>

theorem reconciled_is_final:
  assumes "distinct (map rp_saleEventId t)" and "find_payout sale t = Some p" and "rp_status p = RP_RECONCILED"
  shows "find_payout sale (fold royalty_step ops t) = Some p"
  using royalm.run_ok [of t sale p ops] assms by (simp add: tbl_ok_def)

definition settled :: "royalty_payout table" where
  "settled = snd (reconcileEvents 3 [paid ''Gu'' ''5000'', paid ''Gv'' ''5001''] recorded)"

definition wrong_rpc :: "string \<Rightarrow> nat \<Rightarrow> js_error + (js_value \<times> js_value) list" where
  "wrong_rpc contract limit = Inr [(JStr ''x'', JObj [(''saleEventId'', JStr ''sale''),
     (''recipientPublicKey'', JStr ''Gu''), (''amountStroops'', JBig 1)])]"

definition later_ops :: "royalty_op list" where
  "later_ops = [RO_record 4 ''p2'' over_input, RO_record 5 ''p3'' (over_input\<lparr>pi_saleEventId := ''sale2''\<rparr>),
     RO_reconcile wrong_rpc ''royalty'' 6]"

theorem reconciled_is_final_witness:
  "find_payout ''sale'' (fold royalty_step later_ops settled) = Some (hd settled) \<and> rp_status (hd settled) = RP_RECONCILED"
proof -
  have "distinct (map rp_saleEventId settled)" "find_payout ''sale'' settled = Some (hd settled)"
    "rp_status (hd settled) = RP_RECONCILED" by code_simp+
  with reconciled_is_final [OF this, of later_ops] show ?thesis by simp
qed

end
