(* ===== verification/Soroban_Calls.thy ===== *)
theory Soroban_Calls
  imports AppErrors
begin

text \<open>
  RPC calls of \<open>services/Soroban/SorobanService.ts\<close>: the semaphore that limits the calls in flight, the retry
  loop \<open>withBackoff\<close> around each request as a process over the semaphore, and the wait for a submitted
  transaction. What a request answers and when is the environment's choice. Metrics are left out.
\<close>

subsection \<open>Failures of a request\<close>

datatype rpc_failure =
    PreparedTransactionError
  | ErrorMessage string
  | NotAnError

fun rpc_retryable :: "rpc_failure \<Rightarrow> bool" where
  "rpc_retryable PreparedTransactionError = False"
| "rpc_retryable NotAnError = False"
| "rpc_retryable (ErrorMessage m) =
     (let msg = ascii_lower m in
      occurs ''429'' msg \<or> occurs ''rate limit'' msg \<or>
      (occurs ''5'' msg \<and> (occurs ''internal'' msg \<or> occurs ''server'' msg)) \<or>
      occurs ''econnrefused'' msg \<or> occurs ''etimedout'' msg)"

record rpc_limits =
  lim_concurrent :: int
  lim_base :: int
  lim_max :: int
  lim_retries :: int

definition rpc_delay :: "rpc_limits \<Rightarrow> nat \<Rightarrow> int" where
  "rpc_delay lim attempt = min (lim_base lim * 2 ^ attempt) (lim_max lim)"

subsection \<open>The semaphore and the calls over it\<close>

text \<open>
  A call is a number. \<open>Waiting\<close>: in \<open>acquire\<close>'s queue; \<open>Calling\<close>: its request is in flight; \<open>Sleeping\<close>: in the
  back-off pause, which comes before \<open>finally\<close> releases the permit. The number is that of the attempt.
\<close>

datatype call_phase =
    Idle
  | Waiting nat
  | Calling nat
  | Sleeping nat
  | Returned nat
  | Thrown nat rpc_failure

record rpc_gate =
  rg_running :: int
  rg_queue :: "nat list"
  rg_call :: "nat \<Rightarrow> call_phase"

definition new_gate :: rpc_gate where
  "new_gate = \<lparr>rg_running = 0, rg_queue = [], rg_call = (\<lambda>_. Idle)\<rparr>"

definition acquire :: "rpc_limits \<Rightarrow> nat \<Rightarrow> nat \<Rightarrow> rpc_gate \<Rightarrow> rpc_gate" where
  "acquire lim i attempt g =
     (if rg_running g < lim_concurrent lim
      then g\<lparr>rg_running := rg_running g + 1, rg_call := (rg_call g)(i := Calling attempt)\<rparr>
      else g\<lparr>rg_queue := rg_queue g @ [i], rg_call := (rg_call g)(i := Waiting attempt)\<rparr>)"

definition admitted :: "call_phase \<Rightarrow> call_phase" where
  "admitted p = (case p of Waiting a \<Rightarrow> Calling a | _ \<Rightarrow> p)"

definition release :: "rpc_gate \<Rightarrow> rpc_gate" where
  "release g =
     (let g1 = g\<lparr>rg_running := rg_running g - 1\<rparr> in
      case rg_queue g1 of
        [] \<Rightarrow> g1
      | n # q \<Rightarrow> g1\<lparr>rg_queue := q, rg_running := rg_running g1 + 1,
                   rg_call := (rg_call g1)(n := admitted (rg_call g1 n))\<rparr>)"

text \<open>
  A call starts, its request is answered or fails, its back-off timer fires; an event that does not fit the
  call's phase is ignored. Between the release after a pause and the next \<open>acquire\<close>, which follows in the same
  turn, the call holds nothing. With a negative retry limit the loop makes no request at all.
\<close>

datatype rpc_event =
    RE_start nat
  | RE_answer nat
  | RE_fail nat rpc_failure
  | RE_timer nat

fun rpc_step :: "rpc_limits \<Rightarrow> rpc_event \<Rightarrow> rpc_gate \<Rightarrow> rpc_gate" where
  "rpc_step lim (RE_start i) g =
     (if rg_call g i = Idle \<and> 0 \<le> lim_retries lim then acquire lim i 0 g else g)"
| "rpc_step lim (RE_answer i) g =
     (case rg_call g i of
        Calling a \<Rightarrow> release (g\<lparr>rg_call := (rg_call g)(i := Returned a)\<rparr>)
      | _ \<Rightarrow> g)"
| "rpc_step lim (RE_fail i e) g =
     (case rg_call g i of
        Calling a \<Rightarrow>
          if int a < lim_retries lim \<and> rpc_retryable e then g\<lparr>rg_call := (rg_call g)(i := Sleeping a)\<rparr>
          else release (g\<lparr>rg_call := (rg_call g)(i := Thrown a e)\<rparr>)
      | _ \<Rightarrow> g)"
| "rpc_step lim (RE_timer i) g =
     (case rg_call g i of
        Sleeping a \<Rightarrow> acquire lim i (Suc a) (release (g\<lparr>rg_call := (rg_call g)(i := Idle)\<rparr>))
      | _ \<Rightarrow> g)"

subsection \<open>The invariant\<close>

definition holds_permit :: "call_phase \<Rightarrow> bool" where
  "holds_permit p = (case p of Calling _ \<Rightarrow> True | Sleeping _ \<Rightarrow> True | _ \<Rightarrow> False)"

definition waits :: "call_phase \<Rightarrow> bool" where
  "waits p = (case p of Waiting _ \<Rightarrow> True | _ \<Rightarrow> False)"

definition holders :: "rpc_gate \<Rightarrow> nat set" where
  "holders g = {i. holds_permit (rg_call g i)}"

fun phase_ok :: "rpc_limits \<Rightarrow> call_phase \<Rightarrow> bool" where
  "phase_ok lim Idle = True"
| "phase_ok lim (Waiting a) = (int a \<le> lim_retries lim)"
| "phase_ok lim (Calling a) = (int a \<le> lim_retries lim)"
| "phase_ok lim (Sleeping a) = (int a < lim_retries lim)"
| "phase_ok lim (Returned a) = (int a \<le> lim_retries lim)"
| "phase_ok lim (Thrown a e) = (int a \<le> lim_retries lim \<and> (int a = lim_retries lim \<or> \<not> rpc_retryable e))"


text \<open>\<open>extra\<close> is 1 between the end of a call and the release of its permit.\<close>

definition gate_inv :: "rpc_limits \<Rightarrow> int \<Rightarrow> rpc_gate \<Rightarrow> bool" where
  "gate_inv lim extra g \<longleftrightarrow> finite (holders g) \<and> rg_running g = int (card (holders g)) + extra \<and>
     rg_running g \<le> max 0 (lim_concurrent lim) \<and>
     distinct (rg_queue g) \<and> set (rg_queue g) = {i. waits (rg_call g i)} \<and>
     (rg_queue g \<noteq> [] \<longrightarrow> lim_concurrent lim \<le> rg_running g) \<and>
     (\<forall>i. phase_ok lim (rg_call g i))"

lemma holds_waits_simps [simp]:
  "holds_permit (Calling a)" "holds_permit (Sleeping a)" "\<not> holds_permit Idle" "\<not> holds_permit (Waiting a)"
  "\<not> holds_permit (Returned a)" "\<not> holds_permit (Thrown a e)"
  "waits (Waiting a)" "\<not> waits Idle" "\<not> waits (Calling a)" "\<not> waits (Sleeping a)" "\<not> waits (Returned a)" "\<not> waits (Thrown a e)"
  by (simp_all add: holds_permit_def waits_def)

lemma waits_Waiting: "waits p \<Longrightarrow> \<exists>a. p = Waiting a"
  by (cases p) auto

lemma holders_update:
  "holders (g\<lparr>rg_call := (rg_call g)(i := p)\<rparr>) = (if holds_permit p then insert i (holders g) else holders g - {i})"
  by (auto simp: holders_def)

lemma gate_inv_leave:
  assumes "gate_inv lim 0 g" and "holds_permit (rg_call g i)" and "\<not> holds_permit p" "\<not> waits p" "phase_ok lim p"
  shows "gate_inv lim 1 (g\<lparr>rg_call := (rg_call g)(i := p)\<rparr>)"
proof -
  have i: "i \<in> holders g" using assms(2) by (simp add: holders_def)
  then have "0 < card (holders g)" using assms(1) by (auto simp: gate_inv_def card_gt_0_iff)
  moreover have "\<not> waits (rg_call g i)" using assms(2) by (cases "rg_call g i") auto
  then have "{k. waits (((rg_call g)(i := p)) k)} = {k. waits (rg_call g k)}" using assms(4) by auto
  ultimately show ?thesis
    using assms i by (auto simp: gate_inv_def holders_update card_Diff_singleton)
qed

lemma gate_inv_sleep:
  assumes "gate_inv lim 0 g" and "rg_call g i = Calling a" and "int a < lim_retries lim"
  shows "gate_inv lim 0 (g\<lparr>rg_call := (rg_call g)(i := Sleeping a)\<rparr>)"
proof -
  have "holders (g\<lparr>rg_call := (rg_call g)(i := Sleeping a)\<rparr>) = holders g"
    unfolding holders_update using assms(2) by (auto simp: holders_def)
  moreover have "{k. waits (((rg_call g)(i := Sleeping a)) k)} = {k. waits (rg_call g k)}" using assms(2) by auto
  ultimately show ?thesis using assms by (auto simp: gate_inv_def)
qed

lemma gate_inv_release:
  assumes "gate_inv lim 1 g"
  shows "gate_inv lim 0 (release g)"
proof (cases "rg_queue g")
  case Nil
  with assms show ?thesis by (simp add: release_def gate_inv_def Let_def holders_def)
next
  case (Cons n q)
  have n: "waits (rg_call g n)" "n \<notin> set q" "set q = {i. waits (rg_call g i)} - {n}"
    using assms Cons by (auto simp: gate_inv_def)
  then obtain a where a: "rg_call g n = Waiting a" using waits_Waiting by blast
  let ?g = "g\<lparr>rg_queue := q, rg_call := (rg_call g)(n := Calling a)\<rparr>"
  have g: "release g = ?g" using Cons a by (simp add: release_def Let_def admitted_def)
  have "holders ?g = insert n (holders g)" by (auto simp: holders_def)
  moreover have "n \<notin> holders g" using a by (simp add: holders_def)
  moreover have "{k. waits (((rg_call g)(n := Calling a)) k)} = {i. waits (rg_call g i)} - {n}" by auto
  moreover have "phase_ok lim (rg_call g n)" using assms by (simp add: gate_inv_def)
  ultimately show ?thesis
    unfolding g using assms Cons n a by (auto simp: gate_inv_def)
qed

lemma gate_inv_acquire:
  assumes "gate_inv lim 0 g" and "\<not> holds_permit (rg_call g i)" "\<not> waits (rg_call g i)" and "int a \<le> lim_retries lim"
  shows "gate_inv lim 0 (acquire lim i a g)"
proof (cases "rg_running g < lim_concurrent lim")
  case True
  have i: "i \<notin> holders g" using assms(2) by (simp add: holders_def)
  have "holders (acquire lim i a g) = insert i (holders g)" using True by (auto simp: acquire_def holders_def)
  moreover have "{k. waits (((rg_call g)(i := Calling a)) k)} = {k. waits (rg_call g k)}" using assms(3) by auto
  ultimately show ?thesis using assms True i by (auto simp: gate_inv_def acquire_def)
next
  case False
  have "holders (acquire lim i a g) = holders g" using False assms(2) by (auto simp: acquire_def holders_def)
  moreover have "{k. waits (((rg_call g)(i := Waiting a)) k)} = insert i {k. waits (rg_call g k)}" by auto
  ultimately show ?thesis using assms False by (auto simp: gate_inv_def acquire_def)
qed

lemma release_call: "i \<notin> set (rg_queue g) \<Longrightarrow> rg_call (release g) i = rg_call g i"
  by (auto simp: release_def Let_def split: list.split)

interpretation rpcm: machine "rpc_step lim" "gate_inv lim 0" for lim
proof unfold_locales
  fix g and e :: rpc_event
  assume ok: "gate_inv lim 0 g"
  have ph: "phase_ok lim (rg_call g i)" for i using ok by (simp add: gate_inv_def)
  show "gate_inv lim 0 (rpc_step lim e g)"
  proof (cases e)
    case (RE_start i)
    with ok show ?thesis by (auto intro: gate_inv_acquire)
  next
    case (RE_answer i)
    with ok ph [of i] show ?thesis
      by (cases "rg_call g i") (auto intro!: gate_inv_release gate_inv_leave)
  next
    case (RE_fail i err)
    with ok ph [of i] show ?thesis
      by (cases "rg_call g i") (auto intro!: gate_inv_release gate_inv_leave gate_inv_sleep)
  next
    case (RE_timer i)
    show ?thesis
    proof (cases "\<exists>a. rg_call g i = Sleeping a")
      case True
      then obtain a where a: "rg_call g i = Sleeping a" by blast
      let ?g = "g\<lparr>rg_call := (rg_call g)(i := Idle)\<rparr>"
      have "gate_inv lim 1 ?g" using ok a by (intro gate_inv_leave) auto
      then have "gate_inv lim 0 (release ?g)" by (rule gate_inv_release)
      moreover have "rg_call (release ?g) i = Idle"
        using ok a by (subst release_call) (auto simp: gate_inv_def)
      ultimately show ?thesis using RE_timer a ph [of i] by (auto intro!: gate_inv_acquire)
    next
      case False
      with ok RE_timer show ?thesis by (auto split: call_phase.split)
    qed
  qed
qed

lemma new_gate_inv: "gate_inv lim 0 new_gate"
  by (simp add: gate_inv_def new_gate_def holders_def)

subsection \<open>The limit and the order of admission\<close>

text \<open>
  In every interleaving of calls, answers, failures and timers at most the configured number of calls hold a
  permit, a call waits only while all permits are held, no call makes more attempts than the retry limit allows,
  and one that gives up did so on its last attempt or on a failure that is not retried.
\<close>

theorem rpc_calls_bounded:
  "let g = fold (rpc_step lim) es new_gate in
     finite (holders g) \<and> int (card (holders g)) \<le> max 0 (lim_concurrent lim) \<and>
     (waits (rg_call g i) \<longrightarrow> int (card (holders g)) = max 0 (lim_concurrent lim)) \<and>
     phase_ok lim (rg_call g i)"
proof -
  let ?g = "fold (rpc_step lim) es new_gate"
  have inv: "gate_inv lim 0 ?g" by (rule rpcm.run_ok [OF new_gate_inv])
  then have "waits (rg_call ?g i) \<longrightarrow> rg_queue ?g \<noteq> []" by (auto simp: gate_inv_def)
  with inv show ?thesis by (auto simp: gate_inv_def Let_def)
qed

definition small_limits :: rpc_limits where
  "small_limits = \<lparr>lim_concurrent = 1, lim_base = 1000, lim_max = 30000, lim_retries = 1\<rparr>"

definition small_run :: rpc_gate where
  "small_run = fold (rpc_step small_limits)
     [RE_start 0, RE_start 1, RE_fail 0 (ErrorMessage ''HTTP 429''), RE_timer 0, RE_fail 1 NotAnError, RE_start 2] new_gate"

lemma small_run_calls: "rg_call small_run 0 = Calling 1 \<and> rg_call small_run 1 = Thrown 0 NotAnError \<and> rg_call small_run 2 = Waiting 0"
proof -
  have "rpc_retryable (ErrorMessage ''HTTP 429'')" by code_simp
  then show ?thesis
    by (simp add: small_run_def small_limits_def new_gate_def acquire_def release_def admitted_def Let_def del: rpc_retryable.simps(3))
qed

theorem rpc_calls_bounded_witness:
  "card (holders small_run) = 1 \<and> rg_call small_run 0 = Calling 1 \<and> rg_call small_run 2 = Waiting 0"
proof -
  have "waits (rg_call small_run 2)" using small_run_calls by simp
  with rpc_calls_bounded [where lim = small_limits and i = 2, folded small_run_def]
  have "int (card (holders small_run)) = max 0 (lim_concurrent small_limits)"
    unfolding small_run_def Let_def by blast
  then show ?thesis using small_run_calls by (simp add: small_limits_def)
qed

text \<open>Whether an event gives a permit back, and how often a run does.\<close>

fun gives_back :: "rpc_limits \<Rightarrow> rpc_event \<Rightarrow> rpc_gate \<Rightarrow> bool" where
  "gives_back lim (RE_start i) g = False"
| "gives_back lim (RE_answer i) g = (case rg_call g i of Calling a \<Rightarrow> True | _ \<Rightarrow> False)"
| "gives_back lim (RE_fail i e) g =
     (case rg_call g i of Calling a \<Rightarrow> \<not> (int a < lim_retries lim \<and> rpc_retryable e) | _ \<Rightarrow> False)"
| "gives_back lim (RE_timer i) g = (case rg_call g i of Sleeping a \<Rightarrow> True | _ \<Rightarrow> False)"

fun permits_given_back :: "rpc_limits \<Rightarrow> rpc_event list \<Rightarrow> rpc_gate \<Rightarrow> nat" where
  "permits_given_back lim [] g = 0"
| "permits_given_back lim (e # es) g = (if gives_back lim e g then 1 else 0) + permits_given_back lim es (rpc_step lim e g)"

lemma queue_acquire: "\<exists>xs. rg_queue (acquire lim i a g) = rg_queue g @ xs"
  by (simp add: acquire_def)

lemma call_acquire: "k \<noteq> i \<Longrightarrow> rg_call (acquire lim i a g) k = rg_call g k"
  by (simp add: acquire_def)

lemma release_Cons:
  assumes "rg_queue g = n # q"
  shows "rg_queue (release g) = q" "rg_call (release g) n = admitted (rg_call g n)" "k \<noteq> n \<Longrightarrow> rg_call (release g) k = rg_call g k"
  using assms by (simp_all add: release_def Let_def)

text \<open>A step without a permit given back keeps the queue in place; one with a permit admits its head.\<close>

lemma step_keeps_queue:
  assumes "\<not> gives_back lim e g" and "waits (rg_call g k)"
  shows "\<exists>xs. rg_queue (rpc_step lim e g) = rg_queue g @ xs" "rg_call (rpc_step lim e g) k = rg_call g k"
proof -
  have "(\<exists>xs. rg_queue (rpc_step lim e g) = rg_queue g @ xs) \<and> rg_call (rpc_step lim e g) k = rg_call g k"
    using assms by (cases e) (auto simp: queue_acquire call_acquire split: call_phase.splits if_splits,
        (metis assms(2) call_acquire holds_waits_simps(8))+)
  then show "\<exists>xs. rg_queue (rpc_step lim e g) = rg_queue g @ xs" "rg_call (rpc_step lim e g) k = rg_call g k" by auto
qed

lemma step_admits_head:
  assumes "gives_back lim e g" and "rg_queue g = n # q" and "waits (rg_call g n)"
  shows "\<exists>xs. rg_queue (rpc_step lim e g) = q @ xs" "rg_call (rpc_step lim e g) n = admitted (rg_call g n)"
    "k \<noteq> n \<Longrightarrow> waits (rg_call g k) \<Longrightarrow> rg_call (rpc_step lim e g) k = rg_call g k"
proof -
  have A: "(\<exists>xs. rg_queue (rpc_step lim e g) = q @ xs) \<and> rg_call (rpc_step lim e g) n = admitted (rg_call g n) \<and>
     (k \<noteq> n \<longrightarrow> waits (rg_call g k) \<longrightarrow> rg_call (rpc_step lim e g) k = rg_call g k)"
  proof (cases e)
    case (RE_timer i)
    then obtain a where a: "rg_call g i = Sleeping a" using assms(1) by (auto split: call_phase.splits)
    let ?g = "g\<lparr>rg_call := (rg_call g)(i := Idle)\<rparr>"
    have "i \<noteq> n" using a assms(3) by auto
    moreover have "rg_queue ?g = n # q" using assms(2) by simp
    ultimately show ?thesis
      using RE_timer a queue_acquire [of lim i "Suc a" "release ?g"] release_Cons [of ?g n q]
      by (cases "k = i") (auto simp: call_acquire)
  qed (use assms in \<open>auto simp: release_Cons split: call_phase.splits\<close>)
  from A show "\<exists>xs. rg_queue (rpc_step lim e g) = q @ xs" "rg_call (rpc_step lim e g) n = admitted (rg_call g n)" by auto
  from A show "k \<noteq> n \<Longrightarrow> waits (rg_call g k) \<Longrightarrow> rg_call (rpc_step lim e g) k = rg_call g k" by blast
qed

lemma admission_order:
  assumes "gate_inv lim 0 g" and "rg_queue g = us @ i # vs" and "n = permits_given_back lim es g"
  shows "if n \<le> length us then \<exists>vs'. rg_queue (fold (rpc_step lim) es g) = drop n us @ i # vs'
     else \<exists>k\<le>length es. rg_call (fold (rpc_step lim) (take k es) g) i = admitted (rg_call g i)"
  using assms
proof (induction es arbitrary: g us vs n)
  case (Cons e es)
  let ?g = "rpc_step lim e g"
  have inv: "gate_inv lim 0 ?g" using Cons.prems(1) by (rule rpcm.step_ok)
  have w: "waits (rg_call g i)" "distinct (rg_queue g)" using Cons.prems(1,2) by (auto simp: gate_inv_def)
  show ?case
  proof (cases "gives_back lim e g")
    case False
    obtain xs where q: "rg_queue ?g = us @ i # (vs @ xs)" "rg_call ?g i = rg_call g i"
      using step_keeps_queue [OF False w(1)] Cons.prems(2) by auto
    from Cons.IH [OF inv q(1) refl] Cons.prems(3) False q(2) show ?thesis
      by (auto split: if_splits intro: exI [of _ "Suc _"])
  next
    case True
    show ?thesis
    proof (cases us)
      case Nil
      then have "rg_call ?g i = admitted (rg_call g i)"
        using step_admits_head(2) [OF True, of i vs] Cons.prems(2) w(1) by simp
      with True Cons.prems(3) Nil show ?thesis by (auto intro!: exI [of _ 1])
    next
      case (Cons u us')
      have u: "waits (rg_call g u)" "u \<noteq> i" using Cons.prems(1,2) Cons by (auto simp: gate_inv_def)
      have gq: "rg_queue g = u # (us' @ i # vs)" using Cons.prems(2) Cons by simp
      obtain xs where q: "rg_queue ?g = us' @ i # (vs @ xs)"
        using step_admits_head(1) [OF True gq u(1)] by auto
      have c: "rg_call ?g i = rg_call g i" using step_admits_head(3) [OF True gq u(1) u(2) [symmetric] w(1)] .
      from Cons.IH [OF inv q refl] Cons.prems(3) True c Cons show ?thesis
        by (auto split: if_splits intro: exI [of _ "Suc _"])
    qed
  qed
qed simp

text \<open>
  Waiting calls are admitted in the order they came: after as many permits given back as calls waited before
  it, a waiting call is still in the queue, now at its head, and the next permit given back lets it make its
  request, whatever other calls start, fail or pause meanwhile.
\<close>

theorem waiting_call_is_admitted:
  assumes "rg_queue (fold (rpc_step lim) es0 new_gate) = us @ i # vs"
    and "g = fold (rpc_step lim) es0 new_gate" and "n = permits_given_back lim es g"
  shows "if n \<le> length us then \<exists>vs'. rg_queue (fold (rpc_step lim) es g) = drop n us @ i # vs'
     else \<exists>k\<le>length es. rg_call (fold (rpc_step lim) (take k es) g) i = admitted (rg_call g i)"
proof -
  have "gate_inv lim 0 g" unfolding assms(2) by (rule rpcm.run_ok [OF new_gate_inv])
  moreover have "rg_queue g = us @ i # vs" using assms(1,2) by simp
  ultimately show ?thesis using assms(3) by (rule admission_order)
qed

theorem waiting_call_is_admitted_witness:
  "\<exists>k\<le>2. rg_call (fold (rpc_step small_limits) (take k [RE_answer 0, RE_start 3])
     (fold (rpc_step small_limits) [RE_start 0, RE_start 1, RE_start 2] new_gate)) 1 = Calling 0"
proof -
  let ?g = "fold (rpc_step small_limits) [RE_start 0, RE_start 1, RE_start 2] new_gate"
  have "rg_queue ?g = [] @ 1 # [2]" "rg_call ?g 1 = Waiting 0"
    "permits_given_back small_limits [RE_answer 0, RE_start 3] ?g = 1"
    by (simp_all add: small_limits_def new_gate_def acquire_def)
  with waiting_call_is_admitted [where lim = small_limits and es = "[RE_answer 0, RE_start 3]"
      and ?es0.0 = "[RE_start 0, RE_start 1, RE_start 2]", OF this(1) refl this(3) [symmetric]]
  show ?thesis unfolding \<open>rg_call ?g 1 = Waiting 0\<close> by (simp add: admitted_def numeral_2_eq_2)
qed

subsection \<open>The pauses\<close>

text \<open>Pauses are bounded by the configured maximum and double from one attempt to the next below it.\<close>

lemma rpc_delay_bounds:
  assumes "0 \<le> lim_base lim"
  shows "rpc_delay lim a \<le> lim_max lim" "rpc_delay lim a \<le> rpc_delay lim (Suc a)"
    "lim_base lim * 2 ^ Suc a \<le> lim_max lim \<Longrightarrow> rpc_delay lim (Suc a) = 2 * rpc_delay lim a"
proof -
  have "lim_base lim * 2 ^ a \<le> lim_base lim * 2 ^ Suc a" using assms by (simp add: mult_left_mono)
  then show "rpc_delay lim a \<le> lim_max lim" "rpc_delay lim a \<le> rpc_delay lim (Suc a)"
    and "lim_base lim * 2 ^ Suc a \<le> lim_max lim \<Longrightarrow> rpc_delay lim (Suc a) = 2 * rpc_delay lim a"
    by (auto simp: rpc_delay_def min_def)
qed

subsection \<open>Waiting for a submitted transaction\<close>

text \<open>
  \<open>submitSignedTransaction\<close>: the result of \<open>sendTransaction\<close>, then \<open>getTransaction\<close> until it is found. The
  \<open>k\<close>-th request's outcome (after its retries) and the clock at the \<open>k\<close>-th look at it are parameters; the
  value of a result is given as decoded.
\<close>

datatype send_status = SendError string | SendAccepted string

datatype 'v tx_status = TxNotFound | TxSuccess "'v option" | TxOther string

definition POLL_INTERVAL_MS :: int where
  "POLL_INTERVAL_MS = 1500"

definition POLL_TIMEOUT_MS :: int where
  "POLL_TIMEOUT_MS = 30000"

partial_function (option) await_transaction ::
  "string \<Rightarrow> timestamp \<Rightarrow> (nat \<Rightarrow> js_error + 'v tx_status) \<Rightarrow> (nat \<Rightarrow> timestamp) \<Rightarrow> nat \<Rightarrow> ((js_error + string \<times> 'v option) \<times> nat) option"
where
  "await_transaction hash deadline get clock k =
     (case get k of
        Inl e \<Rightarrow> Some (Inl e, Suc k)
      | Inr (TxSuccess v) \<Rightarrow> Some (Inr (hash, v), Suc k)
      | Inr (TxOther st) \<Rightarrow> Some (Inl (PlainErr (''Soroban transaction '' @ hash @ '' failed with status '' @ st) None), Suc k)
      | Inr TxNotFound \<Rightarrow>
          if clock k > deadline
          then Some (Inl (PlainErr (''Timed out waiting for Soroban transaction '' @ hash) None), Suc k)
          else await_transaction hash deadline get clock (Suc k))"

definition submitSignedTransaction ::
  "js_error + send_status \<Rightarrow> timestamp \<Rightarrow> (nat \<Rightarrow> js_error + 'v tx_status) \<Rightarrow> (nat \<Rightarrow> timestamp) \<Rightarrow>
   ((js_error + string \<times> 'v option) \<times> nat) option" where
  "submitSignedTransaction sent now get clock =
     (case sent of
        Inl e \<Rightarrow> Some (Inl e, 0)
      | Inr (SendError r) \<Rightarrow> Some (Inl (PlainErr (''Soroban transaction rejected: '' @ r) None), 0)
      | Inr (SendAccepted hash) \<Rightarrow> await_transaction hash (now + POLL_TIMEOUT_MS) get clock 0)"

lemma await_returns:
  assumes "clock n > deadline" and "k \<le> n"
  shows "\<exists>r m. await_transaction hash deadline get clock k = Some (r, m) \<and> k < m \<and> m \<le> Suc n \<and>
     (\<forall>h v. r = Inr (h, v) \<longrightarrow> h = hash \<and> get (m - 1) = Inr (TxSuccess v))"
  using assms(2)
proof (induction "n - k" arbitrary: k)
  case 0
  then have "k = n" by simp
  then show ?case using assms(1)
    by (subst await_transaction.simps) (auto split: sum.split tx_status.split)
next
  case (Suc d)
  then have "d = n - Suc k" "Suc k \<le> n" by auto
  from Suc.hyps(1) [OF this] show ?case
    by (subst await_transaction.simps) (use Suc.prems in \<open>auto split: sum.split tx_status.split\<close>)
qed

text \<open>
  C39: A submission does not poll for ever. When each look at a submitted transaction comes at least the poll interval
  after the one before, and every request to the node is answered, submitting ends after at most 22 requests for the
  status, whatever the answers are, and it reports success only with the hash that was sent and a status reply that
  reports success. No bound on the time is claimed: the deadline is tested between two requests only, and a request
  with its own retries takes as long as it takes.
\<close>

theorem submission_returns:
  assumes "now \<le> clock 0" and "\<forall>k. clock k + POLL_INTERVAL_MS \<le> clock (Suc k)"
  shows "\<exists>r m. submitSignedTransaction sent now get clock = Some (r, m) \<and> m \<le> 22 \<and>
     (case r of Inl _ \<Rightarrow> True
      | Inr (h, v) \<Rightarrow> sent = Inr (SendAccepted h) \<and> 0 < m \<and> get (m - 1) = Inr (TxSuccess v))"
proof -
  have grow: "now + 1500 * int k \<le> clock k" for k
  proof (induction k)
    case (Suc k)
    then show ?case using assms(2) [rule_format, of k] by (simp add: POLL_INTERVAL_MS_def algebra_simps)
  qed (use assms(1) in simp)
  have "clock 21 > now + POLL_TIMEOUT_MS" using grow [of 21] by (simp add: POLL_TIMEOUT_MS_def)
  note wait = await_returns [where clock = clock and n = 21 and k = 0, OF this]
  show ?thesis
  proof (cases sent)
    case (Inr st)
    show ?thesis
    proof (cases st)
      case (SendAccepted h)
      obtain r m where "await_transaction h (now + POLL_TIMEOUT_MS) get clock 0 = Some (r, m)" "0 < m" "m \<le> 22"
          "\<forall>h' v. r = Inr (h', v) \<longrightarrow> h' = h \<and> get (m - 1) = Inr (TxSuccess v)"
        using wait [where hash = h and get = get] by auto
      with Inr SendAccepted show ?thesis by (auto simp: submitSignedTransaction_def split: sum.split)
    qed (use Inr in \<open>simp add: submitSignedTransaction_def\<close>)
  qed (simp add: submitSignedTransaction_def)
qed

definition late_success :: "nat \<Rightarrow> js_error + int tx_status" where
  "late_success k = Inr (if k < 20 then TxNotFound else TxSuccess (Some 7))"

theorem submission_returns_witness:
  "\<exists>r m. submitSignedTransaction (Inr (SendAccepted ''h'')) 0 late_success (\<lambda>k. 1500 * int k) = Some (r, m) \<and> m \<le> 22"
proof -
  have "\<forall>k. 1500 * int k + POLL_INTERVAL_MS \<le> 1500 * int (Suc k)" by (simp add: POLL_INTERVAL_MS_def)
  with submission_returns [where now = 0 and clock = "\<lambda>k. 1500 * int k" and sent = "Inr (SendAccepted ''h'')" and get = late_success]
  show ?thesis by fastforce
qed

end
