(* ===== verification/Users.thy ===== *)
theory Users
  imports AppErrors Complex_Main
begin

text \<open>
  The \<open>users\<close> table (\<open>entities/User.ts\<close>) and what the account services do with it: finding a user, inserting
  one, and \<open>save\<close>. \<open>save\<close> leaves out properties that are \<open>undefined\<close>, so a column set to \<open>undefined\<close> keeps
  its value; \<open>written\<close> is the row it leaves. The columns of the two social accounts are grouped in records,
  and columns that no modelled service reads or writes are left out.
\<close>

datatype user_role = UR_LISTENER | UR_ARTIST | UR_MODERATOR | UR_ADMIN | UR_SUPER_ADMIN

record twitter_columns =
  tw_id :: "string option"
  tw_username :: "string option"
  tw_displayName :: "string option"
  tw_profileImage :: "string option"
  tw_verified :: bool
  tw_connected :: "bool option"

record facebook_columns =
  fb_id :: "string option"
  fb_name :: "string option"
  fb_email :: "string option"
  fb_profileImage :: "string option"
  fb_connected :: bool

record user =
  us_id :: ident
  us_dynamixUserId :: "string option"
  us_privyUserId :: "string option"
  us_profileImage :: "string option"
  us_role :: user_role
  us_walletAddress :: "string option"
  us_passwordHash :: "string option"
  us_twoFactorEnabled :: bool
  us_emailVerified :: bool
  us_twoFactorSecret :: "string option"
  us_emailVerificationToken :: "string option"
  us_emailVerificationTokenExpiry :: "timestamp option"
  us_passwordResetToken :: "string option"
  us_passwordResetTokenExpiry :: "timestamp option"
  us_recoveryHashes :: "string list option"
  us_stellarPublicKey :: "string option"
  us_stellarArtistId :: "string option"
  us_stellarArtistTokenId :: "string option"
  us_username :: "string option"
  us_name :: "string option"
  us_email :: "string option"
  us_rewardPoints :: rat
  us_bio :: "string option"
  us_pageCover :: "string option"
  us_website :: "string option"
  us_twitter :: twitter_columns
  us_facebook :: facebook_columns
  us_avatarIpfsHash :: "string option"
  us_isProfilePublic :: bool
  us_deletionRequestedAt :: "timestamp option"
  us_deletionScheduledFor :: "timestamp option"
  us_deletedAt :: "timestamp option"
  us_deletionReason :: "string option"

definition find_user :: "ident \<Rightarrow> user table \<Rightarrow> user option" where
  "find_user uid t = tbl_find (\<lambda>u. us_id u = uid) t"

text \<open>The unique columns; two rows never share a value other than null.\<close>

definition unique_columns :: "(user \<Rightarrow> string option) list" where
  "unique_columns = [us_dynamixUserId, us_privyUserId, us_stellarPublicKey, us_username, us_name, us_email]"

definition user_clash :: "user \<Rightarrow> user \<Rightarrow> bool" where
  "user_clash u v \<longleftrightarrow> us_id u \<noteq> us_id v \<and> list_ex (\<lambda>c. c u \<noteq> None \<and> c u = c v) unique_columns"

definition user_refused :: "user \<Rightarrow> user table \<Rightarrow> bool" where
  "user_refused u t \<longleftrightarrow> list_ex (user_clash u) t"

definition or_else :: "'a option \<Rightarrow> 'a option \<Rightarrow> 'a option" where
  "or_else a b = (case a of None \<Rightarrow> b | Some _ \<Rightarrow> a)"

definition written :: "user \<Rightarrow> user \<Rightarrow> user" where
  "written old u = u\<lparr>
     us_dynamixUserId := or_else (us_dynamixUserId u) (us_dynamixUserId old),
     us_privyUserId := or_else (us_privyUserId u) (us_privyUserId old),
     us_profileImage := or_else (us_profileImage u) (us_profileImage old),
     us_walletAddress := or_else (us_walletAddress u) (us_walletAddress old),
     us_passwordHash := or_else (us_passwordHash u) (us_passwordHash old),
     us_twoFactorSecret := or_else (us_twoFactorSecret u) (us_twoFactorSecret old),
     us_emailVerificationToken := or_else (us_emailVerificationToken u) (us_emailVerificationToken old),
     us_emailVerificationTokenExpiry := or_else (us_emailVerificationTokenExpiry u) (us_emailVerificationTokenExpiry old),
     us_passwordResetToken := or_else (us_passwordResetToken u) (us_passwordResetToken old),
     us_passwordResetTokenExpiry := or_else (us_passwordResetTokenExpiry u) (us_passwordResetTokenExpiry old),
     us_recoveryHashes := or_else (us_recoveryHashes u) (us_recoveryHashes old),
     us_stellarPublicKey := or_else (us_stellarPublicKey u) (us_stellarPublicKey old),
     us_username := or_else (us_username u) (us_username old),
     us_name := or_else (us_name u) (us_name old),
     us_email := or_else (us_email u) (us_email old)\<rparr>"

text \<open>\<open>save\<close> of an entity that was loaded: the entity as it is in memory, and the table.\<close>

definition save_user :: "user \<Rightarrow> (user table, user) service" where
  "save_user u t =
     (let row = (case find_user (us_id u) t of None \<Rightarrow> u | Some old \<Rightarrow> written old u) in
      if user_refused row t then (Inl duplicate_key_error, t) else (Inr u, tbl_put us_id row t))"

interpretation users: keyed_store us_id "\<lambda>k. tbl_find (\<lambda>x. us_id x = k)" "tbl_put us_id"
    "\<lambda>k. tbl_delete (\<lambda>x. us_id x = k)" "tbl_ok us_id"
  by (rule tbl_keyed_store)

lemma or_else_simps [simp]: "or_else None b = b" "or_else (Some x) b = Some x" "or_else a a = a"
  by (auto simp: or_else_def split: option.split)

lemma written_id [simp]: "us_id (written old u) = us_id u"
  by (simp add: written_def)

lemma find_user_id: "find_user uid t = Some u \<Longrightarrow> us_id u = uid"
  by (auto simp: find_user_def dest: users.lookup_key)

text \<open>Users as the registration and the first login with a provider create them.\<close>

definition blank_user :: "ident \<Rightarrow> user" where
  "blank_user uid = \<lparr>us_id = uid, us_dynamixUserId = None, us_privyUserId = None, us_profileImage = None,
     us_role = UR_LISTENER, us_walletAddress = None, us_passwordHash = None, us_twoFactorEnabled = False,
     us_emailVerified = False, us_twoFactorSecret = None, us_emailVerificationToken = None,
     us_emailVerificationTokenExpiry = None, us_passwordResetToken = None, us_passwordResetTokenExpiry = None,
     us_recoveryHashes = None, us_stellarPublicKey = None, us_stellarArtistId = None,
     us_stellarArtistTokenId = None, us_username = None, us_name = None, us_email = None, us_rewardPoints = 0, us_bio = None, us_pageCover = None, us_website = None,
     us_twitter = \<lparr>tw_id = None, tw_username = None, tw_displayName = None, tw_profileImage = None,
       tw_verified = False, tw_connected = None\<rparr>,
     us_facebook = \<lparr>fb_id = None, fb_name = None, fb_email = None, fb_profileImage = None, fb_connected = False\<rparr>,
     us_avatarIpfsHash = None, us_isProfilePublic = True, us_deletionRequestedAt = None, us_deletionScheduledFor = None, us_deletedAt = None, us_deletionReason = None\<rparr>"

end
