(* ===== verification/Auth_Sessions.thy ===== *)
theory Auth_Sessions
  imports Users
begin

text \<open>
  Sessions of \<open>services/AuthService.ts\<close>: signing tokens, the \<open>refresh_tokens\<close> table (\<open>entities/RefreshToken.ts\<close>),
  rotation with reuse detection, and logging out. \<open>jsonwebtoken\<close> is a parameter: \<open>ae_sign\<close> makes a token of a
  secret, claims and an expiry, \<open>ae_verify\<close> checks one at a time against a secret. The audit log, which never
  throws, is left out. A refresh is one step, and also two, at the awaits between its reading and its writing.
\<close>

subsection \<open>Tokens\<close>

record jwt_claims =
  jc_id :: "ident option"
  jc_type :: "string option"
  jc_jti :: "string option"
  jc_dynamixUserId :: "string option"
  jc_email :: "string option"
  jc_walletAddress :: "string option"
  jc_stellarPublicKey :: "string option"
  jc_role :: "user_role option"
  jc_username :: "string option"
  jc_profileImage :: "string option"
  jc_name :: "string option"
  jc_rewardPoints :: "rat option"
  jc_emailVerified :: "bool option"

definition no_claims :: jwt_claims where
  "no_claims = \<lparr>jc_id = None, jc_type = None, jc_jti = None, jc_dynamixUserId = None, jc_email = None,
     jc_walletAddress = None, jc_stellarPublicKey = None, jc_role = None, jc_username = None,
     jc_profileImage = None, jc_name = None, jc_rewardPoints = None, jc_emailVerified = None\<rparr>"

datatype jwt_failure = JwtExpired | JwtInvalid

record 'tok auth_env =
  ae_sign :: "string \<Rightarrow> jwt_claims \<Rightarrow> timestamp \<Rightarrow> 'tok"
  ae_verify :: "timestamp \<Rightarrow> string \<Rightarrow> 'tok \<Rightarrow> jwt_failure + jwt_claims"
  ae_JWT_SECRET :: "string option"
  ae_REFRESH_TOKEN_SECRET :: "string option"

definition seconds :: "int \<Rightarrow> int" where
  "seconds n = n * 1000"

definition REFRESH_TOKEN_EXPIRY_SECONDS :: int where
  "REFRESH_TOKEN_EXPIRY_SECONDS = 7 * 24 * 60 * 60"

definition user_claims :: "user \<Rightarrow> jwt_claims" where
  "user_claims u = no_claims\<lparr>jc_id := Some (us_id u), jc_dynamixUserId := us_dynamixUserId u, jc_email := us_email u,
     jc_walletAddress := us_walletAddress u, jc_stellarPublicKey := us_stellarPublicKey u, jc_role := Some (us_role u),
     jc_username := us_username u, jc_profileImage := us_profileImage u, jc_name := us_name u,
     jc_rewardPoints := Some (us_rewardPoints u), jc_emailVerified := Some (us_emailVerified u)\<rparr>"

definition signToken :: "'tok auth_env \<Rightarrow> timestamp \<Rightarrow> user \<Rightarrow> js_error + 'tok" where
  "signToken env now u =
     (case or_none (ae_JWT_SECRET env) of
        None \<Rightarrow> Inl (PlainErr ''JWT_SECRET not set in environment variables'' None)
      | Some s \<Rightarrow> Inr (ae_sign env s (user_claims u) (now + seconds (15 * 60))))"

definition refresh_secret :: "'tok auth_env \<Rightarrow> string" where
  "refresh_secret env =
     (case or_none (ae_REFRESH_TOKEN_SECRET env) of
        Some s \<Rightarrow> s
      | None \<Rightarrow> (case or_none (ae_JWT_SECRET env) of Some s \<Rightarrow> s | None \<Rightarrow> ''secret''))"

definition signRefreshToken :: "'tok auth_env \<Rightarrow> timestamp \<Rightarrow> string \<Rightarrow> user \<Rightarrow> 'tok" where
  "signRefreshToken env now jti u =
     ae_sign env (refresh_secret env) (no_claims\<lparr>jc_id := Some (us_id u), jc_jti := Some jti\<rparr>)
       (now + seconds (7 * 24 * 60 * 60))"

definition auth_failed :: "string \<Rightarrow> js_error" where
  "auth_failed msg = AppErr (AE_authentication msg NoDetails None)"

definition verifyRefreshToken :: "'tok auth_env \<Rightarrow> timestamp \<Rightarrow> 'tok \<Rightarrow> js_error + jwt_claims" where
  "verifyRefreshToken env now tok =
     (case ae_verify env now (refresh_secret env) tok of
        Inl _ \<Rightarrow> Inl (auth_failed ''Invalid refresh token'')
      | Inr c \<Rightarrow> Inr c)"

subsection \<open>The table of refresh tokens\<close>

record 'tok refresh_token =
  rt_token :: 'tok
  rt_userId :: ident
  rt_expiresAt :: timestamp
  rt_revoked :: bool
  rt_familyId :: "ident option"

record 'tok auth_db =
  adb_users :: "user table"
  adb_tokens :: "'tok refresh_token table"

definition find_token :: "'tok \<Rightarrow> 'tok auth_db \<Rightarrow> 'tok refresh_token option" where
  "find_token tok db = tbl_find (\<lambda>r. rt_token r = tok) (adb_tokens db)"

definition revoke_where :: "('tok refresh_token \<Rightarrow> bool) \<Rightarrow> 'tok auth_db \<Rightarrow> 'tok auth_db" where
  "revoke_where p db = db\<lparr>adb_tokens := map (\<lambda>r. if p r then r\<lparr>rt_revoked := True\<rparr> else r) (adb_tokens db)\<rparr>"

definition revoke_family :: "'tok refresh_token \<Rightarrow> 'tok auth_db \<Rightarrow> 'tok auth_db" where
  "revoke_family rt db =
     (case or_none (rt_familyId rt) of None \<Rightarrow> db | Some f \<Rightarrow> revoke_where (\<lambda>r. rt_familyId r = Some f) db)"

definition revoke_user :: "ident \<Rightarrow> 'tok auth_db \<Rightarrow> 'tok auth_db" where
  "revoke_user uid db = revoke_where (\<lambda>r. rt_userId r = uid) db"

text \<open>\<open>uuid\<close> is the random family of a token that is given none.\<close>

definition storeRefreshToken ::
  "timestamp \<Rightarrow> ident \<Rightarrow> ident \<Rightarrow> 'tok \<Rightarrow> ident option \<Rightarrow> 'tok auth_db \<Rightarrow> (js_error option) \<times> 'tok auth_db" where
  "storeRefreshToken now uuid uid tok family db =
     (case insert_row rt_token
         \<lparr>rt_token = tok, rt_userId = uid, rt_expiresAt = now + seconds REFRESH_TOKEN_EXPIRY_SECONDS, rt_revoked = False,
          rt_familyId = Some (case or_none family of None \<Rightarrow> uuid | Some f \<Rightarrow> f)\<rparr> (adb_tokens db) of
        (Inl e, _) \<Rightarrow> (Some e, db)
      | (Inr _, t) \<Rightarrow> (None, db\<lparr>adb_tokens := t\<rparr>))"

subsection \<open>Rotation\<close>

text \<open>The checks on a stored token: reuse kills the family, expiry only refuses.\<close>

definition check_stored ::
  "timestamp \<Rightarrow> 'tok refresh_token \<Rightarrow> 'tok auth_db \<Rightarrow> js_error option \<times> 'tok auth_db" where
  "check_stored now rt db =
     (if rt_revoked rt then (Some (auth_failed ''Refresh token reuse detected''), revoke_family rt db)
      else if rt_expiresAt rt < now then (Some (auth_failed ''Refresh token expired''), db)
      else (None, db))"

text \<open>\<open>refreshToken\<close> up to the last read, and from the first write on.\<close>

definition refresh_read ::
  "'tok auth_env \<Rightarrow> timestamp \<Rightarrow> 'tok \<Rightarrow> ('tok auth_db, 'tok refresh_token \<times> user) service" where
  "refresh_read env now tok db =
     (case verifyRefreshToken env now tok of
        Inl e \<Rightarrow> (Inl e, db)
      | Inr c \<Rightarrow>
          (case or_none (jc_id c) of
             None \<Rightarrow> (Inl (auth_failed ''Invalid refresh token''), db)
           | Some uid \<Rightarrow>
               (case find_token tok db of
                  None \<Rightarrow> (Inl (auth_failed ''Invalid refresh token''), db)
                | Some rt \<Rightarrow>
                    (case check_stored now rt db of
                       (Some e, db1) \<Rightarrow> (Inl e, db1)
                     | (None, db1) \<Rightarrow>
                         (case find_user uid (adb_users db1) of
                            None \<Rightarrow> (Inl (auth_failed ''Invalid refresh token''), db1)
                          | Some u \<Rightarrow> (Inr (rt, u), db1))))))"

definition rotate_session ::
  "'tok auth_env \<Rightarrow> timestamp \<Rightarrow> string \<Rightarrow> ident \<Rightarrow> 'tok refresh_token \<Rightarrow> user \<Rightarrow> ('tok auth_db, 'tok \<times> 'tok) service" where
  "rotate_session env now jti uuid rt u db =
     (let db1 = db\<lparr>adb_tokens := tbl_put rt_token (rt\<lparr>rt_revoked := True\<rparr>) (adb_tokens db)\<rparr> in
      case signToken env now u of
        Inl e \<Rightarrow> (Inl e, db1)
      | Inr access \<Rightarrow>
          let new = signRefreshToken env now jti u in
          (case storeRefreshToken now uuid (us_id u) new (rt_familyId rt) db1 of
             (Some e, db2) \<Rightarrow> (Inl e, db2)
           | (None, db2) \<Rightarrow> (Inr (access, new), db2)))"

definition refreshToken ::
  "'tok auth_env \<Rightarrow> timestamp \<Rightarrow> string \<Rightarrow> ident \<Rightarrow> 'tok \<Rightarrow> ('tok auth_db, 'tok \<times> 'tok) service" where
  "refreshToken env now jti uuid tok db =
     (case refresh_read env now tok db of
        (Inl e, db1) \<Rightarrow> (Inl e, db1)
      | (Inr (rt, u), db1) \<Rightarrow> rotate_session env now jti uuid rt u db1)"

definition privyRefreshToken ::
  "'tok auth_env \<Rightarrow> timestamp \<Rightarrow> string \<Rightarrow> ident \<Rightarrow> ident \<Rightarrow> 'tok \<Rightarrow> ('tok auth_db, 'tok \<times> 'tok) service" where
  "privyRefreshToken env now jti uuid uid tok db =
     (if uid = [] then (Inl (AppErr (AE_validation ''User ID and refresh token required'' NoDetails None)), db)
      else (case find_user uid (adb_users db) of
          None \<Rightarrow> (Inl (AppErr (AE_notFound ''User not found'' NoDetails None)), db)
        | Some u \<Rightarrow>
            (case find_token tok db of
               None \<Rightarrow> (Inl (auth_failed ''Invalid refresh token''), db)
             | Some rt \<Rightarrow>
                 if rt_userId rt \<noteq> uid then (Inl (auth_failed ''Invalid refresh token''), revoke_user uid db)
                 else (case check_stored now rt db of
                     (Some e, db1) \<Rightarrow> (Inl e, db1)
                   | (None, db1) \<Rightarrow> rotate_session env now jti uuid rt u db1))))"

subsection \<open>Logging out\<close>

definition auth_logout :: "'tok auth_env \<Rightarrow> timestamp \<Rightarrow> 'tok \<Rightarrow> ('tok auth_db, unit) service" where
  "auth_logout env now tok db =
     (case verifyRefreshToken env now tok of
        Inl e \<Rightarrow> (Inl e, db)
      | Inr c \<Rightarrow> (case or_none (jc_id c) of None \<Rightarrow> (Inr (), db) | Some uid \<Rightarrow> (Inr (), revoke_user uid db)))"

definition privyLogout :: "ident \<Rightarrow> ('tok auth_db, unit) service" where
  "privyLogout uid db =
     (if uid = [] then (Inl (PlainErr ''User ID required'' None), db) else (Inr (), revoke_user uid db))"

text \<open>A login's last step: a session of its own family for a user.\<close>

definition open_session ::
  "'tok auth_env \<Rightarrow> timestamp \<Rightarrow> string \<Rightarrow> ident \<Rightarrow> user \<Rightarrow> ('tok auth_db, 'tok \<times> 'tok) service" where
  "open_session env now jti uuid u db =
     (case signToken env now u of
        Inl e \<Rightarrow> (Inl e, db)
      | Inr access \<Rightarrow>
          let new = signRefreshToken env now jti u in
          (case storeRefreshToken now uuid (us_id u) new None db of
             (Some e, db1) \<Rightarrow> (Inl e, db1)
           | (None, db1) \<Rightarrow> (Inr (access, new), db1)))"

subsection \<open>Sessions as a machine\<close>

text \<open>
  A random family or token that repeats an earlier one is not a step of the environment: a login is given an
  unused family.
\<close>

datatype 'tok session_op =
    SO_login ident string ident
  | SO_refresh ident string 'tok
  | SO_privy_refresh ident string ident 'tok
  | SO_logout 'tok
  | SO_privy_logout ident

definition family_unused :: "ident \<Rightarrow> 'tok auth_db \<Rightarrow> bool" where
  "family_unused f db \<longleftrightarrow> f \<noteq> [] \<and> list_all (\<lambda>r. rt_familyId r \<noteq> Some f) (adb_tokens db)"

fun session_step :: "'tok auth_env \<Rightarrow> timestamp \<times> 'tok session_op \<Rightarrow> 'tok auth_db \<Rightarrow> 'tok auth_db" where
  "session_step env (now, SO_login uuid jti uid) db =
     (case find_user uid (adb_users db) of
        None \<Rightarrow> db
      | Some u \<Rightarrow> if family_unused uuid db then snd (open_session env now jti uuid u db) else db)"
| "session_step env (now, SO_refresh uuid jti tok) db = snd (refreshToken env now jti uuid tok db)"
| "session_step env (now, SO_privy_refresh uuid jti uid tok) db = snd (privyRefreshToken env now jti uuid uid tok db)"
| "session_step env (now, SO_logout tok) db = snd (auth_logout env now tok db)"
| "session_step env (now, SO_privy_logout uid) db = snd (privyLogout uid db)"

definition live_in :: "ident \<Rightarrow> 'tok auth_db \<Rightarrow> nat" where
  "live_in f db = tbl_count (\<lambda>r. \<not> rt_revoked r \<and> rt_familyId r = Some f) (adb_tokens db)"

definition sessions_ok :: "'tok auth_db \<Rightarrow> bool" where
  "sessions_ok db \<longleftrightarrow> tbl_ok rt_token (adb_tokens db) \<and> (\<forall>r\<in>set (adb_tokens db). truthy (rt_familyId r)) \<and>
     (\<forall>f. live_in f db \<le> 1)"

lemma or_none_truthy: "truthy x \<Longrightarrow> or_none x = x"
  by (simp add: or_none_def)

lemma revoke_where_props:
  "tbl_ok rt_token (adb_tokens (revoke_where p db)) = tbl_ok rt_token (adb_tokens db)"
  "live_in f (revoke_where p db) \<le> live_in f db"
  "rt_familyId ` set (adb_tokens (revoke_where p db)) = rt_familyId ` set (adb_tokens db)"
proof -
  have "map rt_token (map (\<lambda>r. if p r then r\<lparr>rt_revoked := True\<rparr> else r) t) = map rt_token t" for t by auto
  then show "tbl_ok rt_token (adb_tokens (revoke_where p db)) = tbl_ok rt_token (adb_tokens db)"
    by (simp add: tbl_ok_def revoke_where_def del: map_map)
  have "tbl_count (\<lambda>r. \<not> rt_revoked r \<and> rt_familyId r = Some f) (map (\<lambda>r. if p r then r\<lparr>rt_revoked := True\<rparr> else r) t)
      \<le> tbl_count (\<lambda>r. \<not> rt_revoked r \<and> rt_familyId r = Some f) t" for t :: "'a refresh_token list"
    by (induction t) (auto simp: tbl_simps)
  then show "live_in f (revoke_where p db) \<le> live_in f db" by (simp add: live_in_def revoke_where_def)
  show "rt_familyId ` set (adb_tokens (revoke_where p db)) = rt_familyId ` set (adb_tokens db)"
    unfolding set_map [symmetric] by (simp add: revoke_where_def o_def if_distrib [of rt_familyId] cong: if_cong)
qed

lemma sessions_ok_families:
  "sessions_ok db \<longleftrightarrow> tbl_ok rt_token (adb_tokens db) \<and> (\<forall>x\<in>rt_familyId ` set (adb_tokens db). truthy x) \<and> (\<forall>f. live_in f db \<le> 1)"
  by (auto simp: sessions_ok_def)

lemma sessions_ok_revoke: "sessions_ok db \<Longrightarrow> sessions_ok (revoke_where p db)"
  unfolding sessions_ok_families revoke_where_props by (meson le_trans revoke_where_props(2))

lemma check_stored_ok: "sessions_ok db \<Longrightarrow> sessions_ok (snd (check_stored now rt db))"
  by (auto simp: check_stored_def revoke_family_def sessions_ok_revoke split: option.split)

lemma check_stored_None: "check_stored now rt db = (None, db1) \<Longrightarrow> db1 = db \<and> \<not> rt_revoked rt \<and> now \<le> rt_expiresAt rt"
  by (auto simp: check_stored_def split: if_splits)

lemma storeRefreshToken_ok:
  assumes "sessions_ok db" and "uuid \<noteq> []" "live_in (case or_none fam of None \<Rightarrow> uuid | Some f \<Rightarrow> f) db = 0"
  shows "sessions_ok (snd (storeRefreshToken now uuid uid tok fam db))"
proof -
  have "truthy (Some (case or_none fam of None \<Rightarrow> uuid | Some f \<Rightarrow> f))"
    using assms(2) by (auto simp: truthy_def or_none_def split: option.split)
  with assms show ?thesis
    by (auto simp: storeRefreshToken_def insert_row_def sessions_ok_def tbl_ok_def live_in_def tbl_simps)
qed

text \<open>Revoking the one live token of a family, then storing its successor.\<close>

lemma revoked_put:
  assumes "sessions_ok db" and "rt \<in> set (adb_tokens db)" and "\<not> rt_revoked rt"
  defines "db1 \<equiv> db\<lparr>adb_tokens := tbl_put rt_token (rt\<lparr>rt_revoked := True\<rparr>) (adb_tokens db)\<rparr>"
  shows "sessions_ok db1" "live_in f db1 = (if rt_familyId rt = Some f then 0 else live_in f db)"
proof -
  obtain us vs where t: "adb_tokens db = us @ rt # vs" "adb_tokens db1 = us @ rt\<lparr>rt_revoked := True\<rparr> # vs"
    using tbl_put_split [of rt_token "adb_tokens db" rt "rt\<lparr>rt_revoked := True\<rparr>"] assms(1,2)
    by (auto simp: sessions_ok_def db1_def)
  have live: "live_in f db1 = live_in f db - (if rt_familyId rt = Some f then 1 else 0)" for f
    using assms(3) by (simp add: live_in_def t tbl_simps)
  then show "live_in f db1 = (if rt_familyId rt = Some f then 0 else live_in f db)"
    using assms(1) by (auto simp: sessions_ok_def)
  show "sessions_ok db1"
    using assms(1) live by (auto simp: sessions_ok_def t tbl_ok_def le_diff_conv intro: le_trans)
qed

lemma rotate_ok:
  assumes "sessions_ok db" and "rt \<in> set (adb_tokens db)" and "\<not> rt_revoked rt"
  shows "sessions_ok (snd (rotate_session env now jti uuid rt u db))"
proof -
  let ?db1 = "db\<lparr>adb_tokens := tbl_put rt_token (rt\<lparr>rt_revoked := True\<rparr>) (adb_tokens db)\<rparr>"
  have t: "truthy (rt_familyId rt)" using assms(1,2) by (auto simp: sessions_ok_def)
  then obtain f where f: "rt_familyId rt = Some f" "f \<noteq> []" by (auto simp: truthy_def split: option.splits)
  then have fs: "or_none (Some f) = Some f" by (simp add: or_none_def truthy_def)
  have ok1: "sessions_ok ?db1" and l1: "live_in f ?db1 = 0" using revoked_put [OF assms] f by auto
  have "storeRefreshToken now uuid (us_id u) tok (rt_familyId rt) ?db1 = storeRefreshToken now f (us_id u) tok (rt_familyId rt) ?db1" for tok
    by (simp add: storeRefreshToken_def f fs)
  moreover have "sessions_ok (snd (storeRefreshToken now f (us_id u) tok (rt_familyId rt) ?db1))" for tok
    using ok1 f(2) l1 by (intro storeRefreshToken_ok) (simp_all add: f(1) fs)
  ultimately show ?thesis
    using ok1 by (auto simp: rotate_session_def Let_def split: sum.split prod.split option.split) (metis snd_conv)+
qed

lemma find_token_in: "find_token tok db = Some rt \<Longrightarrow> rt \<in> set (adb_tokens db) \<and> rt_token rt = tok"
  by (auto simp: find_token_def dest: tbl_find_SomeD)

lemma refresh_read_Inr:
  "refresh_read env now tok db = (Inr (rt, u), db1) \<Longrightarrow>
     db1 = db \<and> find_token tok db = Some rt \<and> \<not> rt_revoked rt \<and> now \<le> rt_expiresAt rt \<and>
     (\<exists>uid. find_user uid (adb_users db) = Some u)"
  by (auto simp: refresh_read_def dest!: check_stored_None split: sum.splits option.splits prod.splits)

lemma refresh_read_Inl:
  "refresh_read env now tok db = (Inl e, db1) \<Longrightarrow> db1 = db \<or> (\<exists>rt. db1 = revoke_family rt db)"
  by (auto simp: refresh_read_def check_stored_def split: sum.splits option.splits prod.splits if_splits)

lemma revoke_family_ok: "sessions_ok db \<Longrightarrow> sessions_ok (revoke_family rt db)"
  by (auto simp: revoke_family_def sessions_ok_revoke split: option.split)

lemma refreshToken_ok: "sessions_ok db \<Longrightarrow> sessions_ok (snd (refreshToken env now jti uuid tok db))"
proof (cases "refresh_read env now tok db")
  case (Pair r db1)
  assume ok: "sessions_ok db"
  show ?thesis
  proof (cases r)
    case (Inl e)
    with Pair have "db1 = db \<or> (\<exists>rt. db1 = revoke_family rt db)" using refresh_read_Inl by metis
    with ok Pair Inl show ?thesis by (auto simp: refreshToken_def revoke_family_ok)
  next
    case (Inr ru)
    obtain rt u where ru: "ru = (rt, u)" by fastforce
    with Pair Inr refresh_read_Inr have "db1 = db" "find_token tok db = Some rt" "\<not> rt_revoked rt" by metis+
    with ok Pair Inr ru show ?thesis by (auto simp: refreshToken_def dest: find_token_in intro: rotate_ok)
  qed
qed

lemma privyRefreshToken_ok: "sessions_ok db \<Longrightarrow> sessions_ok (snd (privyRefreshToken env now jti uuid uid tok db))"
  by (auto simp: privyRefreshToken_def revoke_user_def check_stored_def sessions_ok_revoke revoke_family_ok
      split: option.split dest!: find_token_in intro!: rotate_ok)

lemma open_session_ok: "sessions_ok db \<Longrightarrow> family_unused uuid db \<Longrightarrow> sessions_ok (snd (open_session env now jti uuid u db))"
proof -
  assume ok: "sessions_ok db" and new: "family_unused uuid db"
  then have "live_in uuid db = 0" "uuid \<noteq> []"
    by (auto simp: live_in_def family_unused_def tbl_count_def list_all_iff filter_empty_conv)
  then have "sessions_ok (snd (storeRefreshToken now uuid (us_id u) tok None db))" for tok
    using ok by (intro storeRefreshToken_ok) (auto simp: or_none_def truthy_def)
  with ok show ?thesis
    by (auto simp: open_session_def Let_def split: sum.split prod.split option.split) (metis snd_conv)+
qed

interpretation sessm: machine "session_step env" sessions_ok for env :: "'tok auth_env"
proof unfold_locales
  fix db :: "'tok auth_db" and e :: "timestamp \<times> 'tok session_op"
  assume ok: "sessions_ok db"
  obtain now op where e: "e = (now, op)" by fastforce
  show "sessions_ok (session_step env e db)"
    using ok unfolding e
    by (cases op) (auto simp: refreshToken_ok privyRefreshToken_ok open_session_ok auth_logout_def privyLogout_def
        revoke_user_def sessions_ok_revoke split: option.split sum.split)
qed

lemma no_sessions_ok: "adb_tokens db = [] \<Longrightarrow> sessions_ok db"
  by (simp add: sessions_ok_def tbl_simps live_in_def)

subsection \<open>Revoked tokens stay revoked\<close>

definition token_dead :: "'tok \<Rightarrow> 'tok auth_db \<Rightarrow> bool" where
  "token_dead tok db \<longleftrightarrow> (\<exists>r. find_token tok db = Some r \<and> rt_revoked r)"

definition family_dead :: "ident \<Rightarrow> 'tok auth_db \<Rightarrow> bool" where
  "family_dead f db \<longleftrightarrow> Some f \<in> rt_familyId ` set (adb_tokens db) \<and> live_in f db = 0"

lemma find_token_revoke:
  "find_token tok (revoke_where p db) = map_option (\<lambda>r. if p r then r\<lparr>rt_revoked := True\<rparr> else r) (find_token tok db)"
proof -
  have "tbl_find (\<lambda>r. rt_token r = tok) (map (\<lambda>r. if p r then r\<lparr>rt_revoked := True\<rparr> else r) t) =
    map_option (\<lambda>r. if p r then r\<lparr>rt_revoked := True\<rparr> else r) (tbl_find (\<lambda>r. rt_token r = tok) t)" for t
    by (induction t) (auto simp: tbl_simps)
  then show ?thesis by (simp add: find_token_def revoke_where_def)
qed

lemma token_dead_revoke:
  assumes "token_dead tok db"
  shows "token_dead tok (revoke_where p db)"
proof -
  obtain r where r: "find_token tok db = Some r" "rt_revoked r" using assms by (auto simp: token_dead_def)
  let ?r = "if p r then r\<lparr>rt_revoked := True\<rparr> else r"
  have "find_token tok (revoke_where p db) = Some ?r" "rt_revoked ?r" using r by (simp_all add: find_token_revoke)
  then show ?thesis unfolding token_dead_def by blast
qed

lemma family_dead_revoke: "family_dead f db \<Longrightarrow> family_dead f (revoke_where p db)"
  using revoke_where_props(2) [of f p db] by (simp add: family_dead_def revoke_where_props(3))

lemma store_keeps:
  assumes "storeRefreshToken now uuid uid tok fam db = (res, db')"
  shows "token_dead tok' db \<Longrightarrow> token_dead tok' db'"
    "family_dead f db \<Longrightarrow> (case or_none fam of None \<Rightarrow> uuid | Some g \<Rightarrow> g) \<noteq> f \<Longrightarrow> family_dead f db'"
  using assms
  by (auto simp: storeRefreshToken_def insert_row_def token_dead_def find_token_def tbl_find_append family_dead_def
      live_in_def tbl_simps split: if_splits option.splits prod.splits sum.splits) (metis option.inject)+

lemma put_revoked_keeps:
  defines "db1 rt db \<equiv> db\<lparr>adb_tokens := tbl_put rt_token (rt\<lparr>rt_revoked := True\<rparr>) (adb_tokens db)\<rparr>"
  shows "token_dead tok db \<Longrightarrow> token_dead tok (db1 rt db)"
    "family_dead f db \<Longrightarrow> sessions_ok db \<Longrightarrow> rt \<in> set (adb_tokens db) \<Longrightarrow> \<not> rt_revoked rt \<Longrightarrow> family_dead f (db1 rt db)"
proof -
  assume "token_dead tok db"
  then show "token_dead tok (db1 rt db)"
    using tbl_find_put_same [of rt_token "rt\<lparr>rt_revoked := True\<rparr>" "adb_tokens db"]
      tbl_find_put_other [of tok rt_token "rt\<lparr>rt_revoked := True\<rparr>" "adb_tokens db"]
    by (cases "tok = rt_token rt") (auto simp: token_dead_def find_token_def db1_def)
next
  assume dead: "family_dead f db" and ok: "sessions_ok db" and rt: "rt \<in> set (adb_tokens db)" "\<not> rt_revoked rt"
  obtain us vs where "adb_tokens db = us @ rt # vs" "adb_tokens (db1 rt db) = us @ rt\<lparr>rt_revoked := True\<rparr> # vs"
    using tbl_put_split [of rt_token "adb_tokens db" rt "rt\<lparr>rt_revoked := True\<rparr>"] ok rt(1)
    by (auto simp: sessions_ok_def db1_def)
  then have "rt_familyId ` set (adb_tokens (db1 rt db)) = rt_familyId ` set (adb_tokens db)" by simp
  with dead revoked_put(2) [OF ok rt, of f] show "family_dead f (db1 rt db)"
    by (auto simp: family_dead_def db1_def)
qed

lemma dead_family_rt:
  "family_dead f db \<Longrightarrow> rt \<in> set (adb_tokens db) \<Longrightarrow> \<not> rt_revoked rt \<Longrightarrow> rt_familyId rt \<noteq> Some f"
  by (auto simp: family_dead_def live_in_def tbl_count_def filter_empty_conv)

lemma rotate_keeps:
  assumes "db' = snd (rotate_session env now jti uuid rt u db)" and "sessions_ok db" "rt \<in> set (adb_tokens db)" "\<not> rt_revoked rt"
  shows "token_dead tok db \<Longrightarrow> token_dead tok db'" "family_dead f db \<Longrightarrow> family_dead f db'"
proof -
  let ?db1 = "db\<lparr>adb_tokens := tbl_put rt_token (rt\<lparr>rt_revoked := True\<rparr>) (adb_tokens db)\<rparr>"
  have cases: "db' = ?db1 \<or> (\<exists>new r. storeRefreshToken now uuid (us_id u) new (rt_familyId rt) ?db1 = (r, db'))"
    using assms(1) by (auto simp: rotate_session_def Let_def split: sum.splits prod.splits option.splits)
  show "token_dead tok db \<Longrightarrow> token_dead tok db'"
    using cases put_revoked_keeps(1) [of tok db rt] store_keeps(1) [of _ _ _ _ _ ?db1 _ db' tok] by metis
  assume dead: "family_dead f db"
  have "truthy (rt_familyId rt)" using assms(2,3) by (auto simp: sessions_ok_def)
  with dead_family_rt [OF dead assms(3,4)] have "(case or_none (rt_familyId rt) of None \<Rightarrow> uuid | Some g \<Rightarrow> g) \<noteq> f"
    by (auto simp: truthy_def or_none_def split: option.splits)
  moreover have "family_dead f ?db1" by (rule put_revoked_keeps(2) [OF dead assms(2-4)])
  ultimately show "family_dead f db'" using cases store_keeps(2) [of _ _ _ _ _ ?db1 _ db' f] by metis
qed

lemma refresh_keeps:
  assumes "sessions_ok db"
  shows "token_dead t db \<Longrightarrow> token_dead t (snd (refreshToken env now jti uuid tok db))"
    "family_dead f db \<Longrightarrow> family_dead f (snd (refreshToken env now jti uuid tok db))"
proof -
  let ?db' = "snd (refreshToken env now jti uuid tok db)"
  have cases: "?db' = db \<or> (\<exists>rt. ?db' = revoke_family rt db) \<or>
    (\<exists>rt u. rt \<in> set (adb_tokens db) \<and> \<not> rt_revoked rt \<and> ?db' = snd (rotate_session env now jti uuid rt u db))"
  proof (cases "refresh_read env now tok db")
    case (Pair r db1)
    show ?thesis
    proof (cases r)
      case (Inl e)
      then have "db1 = db \<or> (\<exists>rt. db1 = revoke_family rt db)" using Pair refresh_read_Inl by metis
      moreover have "?db' = db1" using Pair Inl by (simp add: refreshToken_def)
      ultimately show ?thesis by blast
    next
      case (Inr ru)
      obtain rt u where ru: "ru = (rt, u)" by fastforce
      with Pair Inr refresh_read_Inr have "db1 = db" "rt \<in> set (adb_tokens db)" "\<not> rt_revoked rt"
        by (metis find_token_in)+
      moreover have "?db' = snd (rotate_session env now jti uuid rt u db1)" using Pair Inr ru by (simp add: refreshToken_def)
      ultimately show ?thesis by blast
    qed
  qed
  then have "(token_dead t db \<longrightarrow> token_dead t ?db') \<and> (family_dead f db \<longrightarrow> family_dead f ?db')"
    by (elim disjE exE conjE) (use rotate_keeps [OF _ assms] in
        \<open>auto simp: revoke_family_def intro: token_dead_revoke family_dead_revoke split: option.splits\<close>)
  then show "token_dead t db \<Longrightarrow> token_dead t ?db'" "family_dead f db \<Longrightarrow> family_dead f ?db'" by auto
qed

lemma privy_refresh_keeps:
  assumes "sessions_ok db"
  shows "token_dead t db \<Longrightarrow> token_dead t (snd (privyRefreshToken env now jti uuid uid tok db))"
    "family_dead f db \<Longrightarrow> family_dead f (snd (privyRefreshToken env now jti uuid uid tok db))"
proof -
  let ?db' = "snd (privyRefreshToken env now jti uuid uid tok db)"
  have "?db' = db \<or> (\<exists>p. ?db' = revoke_where p db) \<or>
    (\<exists>rt u. rt \<in> set (adb_tokens db) \<and> \<not> rt_revoked rt \<and> ?db' = snd (rotate_session env now jti uuid rt u db))"
    by (auto simp: privyRefreshToken_def check_stored_def revoke_family_def revoke_user_def dest!: find_token_in
        split: option.split)
  then have "(token_dead t db \<longrightarrow> token_dead t ?db') \<and> (family_dead f db \<longrightarrow> family_dead f ?db')"
    by (elim disjE exE conjE) (use rotate_keeps [OF _ assms] in \<open>auto intro: token_dead_revoke family_dead_revoke\<close>)
  then show "token_dead t db \<Longrightarrow> token_dead t ?db'" "family_dead f db \<Longrightarrow> family_dead f ?db'" by auto
qed

lemma open_session_keeps:
  assumes "family_unused uuid db"
  shows "token_dead t db \<Longrightarrow> token_dead t (snd (open_session env now jti uuid u db))"
    "family_dead f db \<Longrightarrow> family_dead f (snd (open_session env now jti uuid u db))"
proof -
  let ?db' = "snd (open_session env now jti uuid u db)"
  have cases: "?db' = db \<or> (\<exists>new r. storeRefreshToken now uuid (us_id u) new None db = (r, ?db'))"
    by (auto simp: open_session_def Let_def split: sum.splits prod.splits option.splits)
  then show "token_dead t db \<Longrightarrow> token_dead t ?db'" using store_keeps(1) by metis
  assume dead: "family_dead f db"
  then have "(case or_none None of None \<Rightarrow> uuid | Some g \<Rightarrow> g) \<noteq> f"
    using assms by (auto simp: family_dead_def family_unused_def list_all_iff or_none_def truthy_def)
  with cases dead store_keeps(2) show "family_dead f ?db'" by metis
qed

lemma session_step_keeps:
  assumes "sessions_ok db"
  shows "token_dead t db \<Longrightarrow> token_dead t (session_step env (now, op) db)"
    "family_dead f db \<Longrightarrow> family_dead f (session_step env (now, op) db)"
  using assms
  by (cases op; auto simp: refresh_keeps privy_refresh_keeps open_session_keeps auth_logout_def privyLogout_def
      revoke_user_def token_dead_revoke family_dead_revoke split: option.split sum.split)+

interpretation deadm: machine "session_step env" "\<lambda>db. sessions_ok db \<and> token_dead tok db" for env :: "'tok auth_env" and tok
  by unfold_locales (metis sessm.step_ok session_step_keeps(1) prod.collapse)

interpretation deadf: machine "session_step env" "\<lambda>db. sessions_ok db \<and> family_dead f db" for env :: "'tok auth_env" and f
  by unfold_locales (metis sessm.step_ok session_step_keeps(2) prod.collapse)

lemma dead_token_refused:
  assumes "token_dead tok db"
  shows "isl (fst (refreshToken env now jti uuid tok db))" "isl (fst (privyRefreshToken env now jti uuid uid tok db))"
proof -
  obtain r where r: "find_token tok db = Some r" "rt_revoked r" using assms by (auto simp: token_dead_def)
  show "isl (fst (refreshToken env now jti uuid tok db))"
  proof (cases "refresh_read env now tok db")
    case (Pair x db1)
    with r refresh_read_Inr [of env now tok db] show ?thesis by (cases x) (auto simp: refreshToken_def)
  qed
  show "isl (fst (privyRefreshToken env now jti uuid uid tok db))"
    using r by (auto simp: privyRefreshToken_def check_stored_def split: option.split)
qed

subsection \<open>Properties\<close>

text \<open>
  C13: When refreshes are not interleaved, every session family has at most one refresh token that is not revoked,
  whatever logins, refreshes (through either endpoint) and logouts are made, and no two rows share a token.
\<close>

theorem one_live_token_per_family:
  assumes "adb_tokens db = []"
  shows "let db' = fold (session_step env) ops db in
     live_in f db' \<le> 1 \<and> distinct (map rt_token (adb_tokens db'))"
proof -
  have "sessions_ok (fold (session_step env) ops db)" by (rule sessm.run_ok [OF no_sessions_ok [OF assms]])
  then show ?thesis by (simp add: sessions_ok_def tbl_ok_def Let_def)
qed

text \<open>
  Presenting a refresh token that was already rotated is refused as reuse and ends its family: whatever happens
  afterwards, every token of that family, also the one its rotation issued, is refused by both refresh endpoints.
\<close>

theorem reuse_ends_family:
  assumes "adb_tokens db0 = []" and "db = fold (session_step env) ops0 db0"
    and "find_token tok db = Some rt" "rt_revoked rt"
    and "verifyRefreshToken env now tok = Inr c" "truthy (jc_id c)"
    and "find_token tok' (fold (session_step env) ops (snd (refreshToken env now jti uuid tok db))) = Some rt'"
    and "rt_familyId rt' = rt_familyId rt"
  shows "fst (refreshToken env now jti uuid tok db) = Inl (auth_failed ''Refresh token reuse detected'') \<and>
     (let db' = fold (session_step env) ops (snd (refreshToken env now jti uuid tok db)) in
      isl (fst (refreshToken env now' jti' uuid' tok' db')) \<and> isl (fst (privyRefreshToken env now' jti' uuid' uid' tok' db')))"
proof -
  have ok: "sessions_ok db" unfolding assms(2) by (rule sessm.run_ok [OF no_sessions_ok [OF assms(1)]])
  have rt: "rt \<in> set (adb_tokens db)" using assms(3) by (auto dest: find_token_in)
  with ok obtain f where f: "rt_familyId rt = Some f" "f \<noteq> []"
    by (auto simp: sessions_ok_def truthy_def split: option.splits)
  let ?db1 = "revoke_where (\<lambda>r. rt_familyId r = Some f) db"
  have fam: "revoke_family rt db = ?db1" using f by (simp add: revoke_family_def or_none_def truthy_def)
  have run: "refreshToken env now jti uuid tok db = (Inl (auth_failed ''Refresh token reuse detected''), ?db1)"
    using assms(3-6) by (auto simp: refreshToken_def refresh_read_def check_stored_def fam or_none_truthy truthy_def
        split: option.splits)
  have "live_in f ?db1 = 0"
    by (auto simp: live_in_def tbl_count_def revoke_where_def filter_empty_conv)
  moreover have "Some f \<in> rt_familyId ` set (adb_tokens ?db1)"
    unfolding revoke_where_props(3) using rt f(1) by (metis image_eqI)
  ultimately have "sessions_ok ?db1 \<and> family_dead f ?db1"
    using ok by (simp add: family_dead_def sessions_ok_revoke)
  then have dead: "sessions_ok (fold (session_step env) ops ?db1) \<and> family_dead f (fold (session_step env) ops ?db1)"
    by (rule deadf.run_ok)
  have "rt' \<in> set (adb_tokens (fold (session_step env) ops ?db1))" "rt_familyId rt' = Some f"
    using assms(7,8) f(1) by (auto simp: run dest: find_token_in)
  then have "rt_revoked rt'" using dead_family_rt [OF conjunct2 [OF dead]] by blast
  with assms(7) have "token_dead tok' (fold (session_step env) ops ?db1)" by (auto simp: run token_dead_def)
  from dead_token_refused [OF this] show ?thesis by (simp add: run Let_def)
qed

text \<open>
  After a logout every refresh token the user had is refused for ever by both refresh endpoints, whatever new
  sessions are opened later.
\<close>

theorem logout_is_final:
  assumes "adb_tokens db0 = []" and "db = fold (session_step env) ops0 db0"
    and "verifyRefreshToken env now tok = Inr c" "jc_id c = Some uid" "uid \<noteq> []"
    and "find_token tok' db = Some rt'" "rt_userId rt' = uid"
  shows "let db' = fold (session_step env) ops (snd (auth_logout env now tok db)) in
      isl (fst (refreshToken env now' jti' uuid' tok' db')) \<and> isl (fst (privyRefreshToken env now' jti' uuid' uid' tok' db'))"
proof -
  have ok: "sessions_ok db" unfolding assms(2) by (rule sessm.run_ok [OF no_sessions_ok [OF assms(1)]])
  have out: "snd (auth_logout env now tok db) = revoke_user uid db"
    using assms(3-5) by (simp add: auth_logout_def or_none_def truthy_def)
  have "token_dead tok' (revoke_user uid db)"
    using assms(6,7) by (simp add: token_dead_def revoke_user_def find_token_revoke)
  then have "sessions_ok (revoke_user uid db) \<and> token_dead tok' (revoke_user uid db)"
    using ok by (simp add: revoke_user_def sessions_ok_revoke)
  then have "sessions_ok (fold (session_step env) ops (revoke_user uid db)) \<and>
      token_dead tok' (fold (session_step env) ops (revoke_user uid db))" by (rule deadm.run_ok)
  from dead_token_refused [OF conjunct2 [OF this]] show ?thesis by (simp add: out Let_def)
qed

text \<open>
  Two refreshes with one token that both read before either writes both succeed, and leave two tokens of the
  family that are not revoked: neither the rotation nor the reuse detection notices.
\<close>

theorem concurrent_refresh_forks_family:
  assumes "refresh_read env now tok db = (Inr (rt, u), db)" and "ae_JWT_SECRET env = Some secret" "secret \<noteq> []"
    and "sessions_ok db" and "n1 = signRefreshToken env now jti1 u" "n2 = signRefreshToken env now jti2 u"
    and "n1 \<noteq> n2" "n1 \<notin> set (map rt_token (adb_tokens db))" "n2 \<notin> set (map rt_token (adb_tokens db))"
  shows "let (r1, db1) = rotate_session env now jti1 uuid1 rt u db; (r2, db2) = rotate_session env now jti2 uuid2 rt u db1 in
     r1 = Inr (ae_sign env secret (user_claims u) (now + seconds 900), n1) \<and>
     r2 = Inr (ae_sign env secret (user_claims u) (now + seconds 900), n2) \<and>
     list_all (\<lambda>n. \<exists>r. find_token n db2 = Some r \<and> \<not> rt_revoked r \<and> rt_familyId r = rt_familyId rt) [n1, n2]"
proof -
  have rt: "rt \<in> set (adb_tokens db)" "\<not> rt_revoked rt" using refresh_read_Inr [OF assms(1)] by (auto dest: find_token_in)
  have "truthy (rt_familyId rt)" using assms(4) rt(1) by (auto simp: sessions_ok_def)
  then obtain f where f: "rt_familyId rt = Some f" "or_none (Some f) = Some f" "f \<noteq> []"
    by (auto simp: truthy_def or_none_def split: option.splits)
  let ?old = "rt\<lparr>rt_revoked := True\<rparr>"
  let ?new = "\<lambda>n. \<lparr>rt_token = n, rt_userId = us_id u, rt_expiresAt = now + seconds REFRESH_TOKEN_EXPIRY_SECONDS,
      rt_revoked = False, rt_familyId = Some f\<rparr>"
  let ?t1 = "tbl_put rt_token ?old (adb_tokens db)"
  have key: "rt_token ?old \<in> rt_token ` set (adb_tokens db)" using rt(1) by simp
  have k1: "rt_token ` set ?t1 = rt_token ` set (adb_tokens db)"
    using map_key_tbl_put [of rt_token ?old "adb_tokens db"] key by (metis list.set_map)
  have tok: "signToken env now u = Inr (ae_sign env secret (user_claims u) (now + seconds 900))"
    using assms(2,3) by (simp add: signToken_def or_none_def truthy_def)
  have r1: "rotate_session env now jti1 uuid1 rt u db =
      (Inr (ae_sign env secret (user_claims u) (now + seconds 900), n1), db\<lparr>adb_tokens := ?t1 @ [?new n1]\<rparr>)"
    using assms(5,8) by (simp add: rotate_session_def tok Let_def storeRefreshToken_def insert_row_def f k1)
  have n1: "rt_token rt \<noteq> n1" "rt_token rt \<noteq> n2" using assms(8,9) rt(1) by auto
  have "tbl_put rt_token ?old (?t1 @ [?new n1]) = ?t1 @ [?new n1]"
  proof -
    have "tbl_put rt_token r (xs @ ys) = tbl_put rt_token r xs @ ys" if "rt_token r \<in> rt_token ` set xs" for r :: "'a refresh_token" and xs ys
      using that by (induction xs) auto
    moreover have "tbl_put rt_token ?old ?t1 = ?t1" by (rule tbl_put_put) simp
    ultimately show ?thesis using key k1 by simp
  qed
  then have r2: "rotate_session env now jti2 uuid2 rt u (db\<lparr>adb_tokens := ?t1 @ [?new n1]\<rparr>) =
      (Inr (ae_sign env secret (user_claims u) (now + seconds 900), n2), db\<lparr>adb_tokens := (?t1 @ [?new n1]) @ [?new n2]\<rparr>)"
    using assms(6,7,9) by (simp add: rotate_session_def tok Let_def storeRefreshToken_def insert_row_def f k1)
  have "tbl_find (\<lambda>r. rt_token r = n) ?t1 = None" if "n \<notin> set (map rt_token (adb_tokens db))" for n
    using that k1 by (auto simp: tbl_find_None_iff)
  then show ?thesis
    using assms(7-9) by (simp add: r1 r2 find_token_def tbl_find_append f(1) tbl_simps)
qed

subsection \<open>A concrete library and runs\<close>

text \<open>Tokens that carry their secret in the open: enough to run the model.\<close>

type_synonym plain_token = "string \<times> jwt_claims \<times> timestamp"

definition plain_verify :: "timestamp \<Rightarrow> string \<Rightarrow> plain_token \<Rightarrow> jwt_failure + jwt_claims" where
  "plain_verify now secret tok =
     (case tok of (s, c, e) \<Rightarrow> if s \<noteq> secret then Inl JwtInvalid else if e \<le> now then Inl JwtExpired else Inr c)"

definition plain_env :: "plain_token auth_env" where
  "plain_env = \<lparr>ae_sign = (\<lambda>s c e. (s, c, e)), ae_verify = plain_verify, ae_JWT_SECRET = Some ''k'', ae_REFRESH_TOKEN_SECRET = None\<rparr>"

definition plain_refresh :: "string \<Rightarrow> timestamp \<Rightarrow> plain_token" where
  "plain_refresh jti now = signRefreshToken plain_env now jti (blank_user ''u'')"

definition one_user_db :: "plain_token auth_db" where
  "one_user_db = \<lparr>adb_users = [blank_user ''u''], adb_tokens = []\<rparr>"

definition plain_row :: "string \<Rightarrow> timestamp \<Rightarrow> bool \<Rightarrow> plain_token refresh_token" where
  "plain_row jti now revoked = \<lparr>rt_token = plain_refresh jti now, rt_userId = ''u'',
     rt_expiresAt = now + seconds REFRESH_TOKEN_EXPIRY_SECONDS, rt_revoked = revoked, rt_familyId = Some ''f''\<rparr>"

definition login_ops :: "(timestamp \<times> plain_token session_op) list" where
  "login_ops = [(0, SO_login ''f'' ''j1'' ''u'')]"

definition rotate_ops :: "(timestamp \<times> plain_token session_op) list" where
  "rotate_ops = [(0, SO_login ''f'' ''j1'' ''u''), (1, SO_refresh ''x'' ''j2'' (plain_refresh ''j1'' 0))]"

lemma blank_user_facts: "find_user ''u'' [blank_user ''u''] = Some (blank_user ''u'')" "us_id (blank_user ''u'') = ''u''"
  by (simp_all add: find_user_def tbl_simps blank_user_def)

lemma plain_token_eq: "plain_refresh a s = plain_refresh b t \<longleftrightarrow> a = b \<and> s = t"
  by (auto simp: plain_refresh_def signRefreshToken_def plain_env_def no_claims_def)

lemma plain_sign: "signRefreshToken plain_env now jti (blank_user ''u'') = plain_refresh jti now"
  by (simp add: plain_refresh_def)

lemma plain_verify_refresh:
  "now < t + 604800000 \<Longrightarrow> verifyRefreshToken plain_env now (plain_refresh jti t) =
     Inr (no_claims\<lparr>jc_id := Some ''u'', jc_jti := Some jti\<rparr>)"
  by (simp add: verifyRefreshToken_def plain_refresh_def signRefreshToken_def plain_env_def plain_verify_def refresh_secret_def
      seconds_def blank_user_facts)

lemma plain_access: "signToken plain_env now u = Inr (''k'', user_claims u, now + seconds 900)"
  by (simp add: signToken_def plain_env_def or_none_def truthy_def)

lemma one_user_facts: "adb_tokens one_user_db = []" "adb_users one_user_db = [blank_user ''u'']"
  by (simp_all add: one_user_db_def)

lemma login_run: "fold (session_step plain_env) login_ops one_user_db = one_user_db\<lparr>adb_tokens := [plain_row ''j1'' 0 False]\<rparr>"
  by (simp add: login_ops_def one_user_facts blank_user_facts family_unused_def open_session_def plain_access plain_sign
      storeRefreshToken_def insert_row_def or_none_def truthy_def plain_row_def Let_def)

lemma rotate_run:
  "fold (session_step plain_env) rotate_ops one_user_db =
     one_user_db\<lparr>adb_tokens := [plain_row ''j1'' 0 True, plain_row ''j2'' 1 False]\<rparr>"
proof -
  have "fold (session_step plain_env) rotate_ops one_user_db =
    session_step plain_env (1, SO_refresh ''x'' ''j2'' (plain_refresh ''j1'' 0)) (fold (session_step plain_env) login_ops one_user_db)"
    by (simp add: rotate_ops_def login_ops_def)
  also have "\<dots> = one_user_db\<lparr>adb_tokens := [plain_row ''j1'' 0 True, plain_row ''j2'' 1 False]\<rparr>"
    unfolding login_run
    by (simp add: refreshToken_def refresh_read_def plain_verify_refresh or_none_def truthy_def find_token_def tbl_simps
        plain_row_def check_stored_def one_user_facts blank_user_facts rotate_session_def plain_access plain_sign
        storeRefreshToken_def insert_row_def plain_token_eq Let_def seconds_def REFRESH_TOKEN_EXPIRY_SECONDS_def no_claims_def)
  finally show ?thesis .
qed

theorem one_live_token_per_family_witness:
  "live_in ''f'' (fold (session_step plain_env) rotate_ops one_user_db) = 1 \<and>
   distinct (map rt_token (adb_tokens (fold (session_step plain_env) rotate_ops one_user_db)))"
proof -
  have "live_in ''f'' (fold (session_step plain_env) rotate_ops one_user_db) = 1"
    unfolding rotate_run by (simp add: live_in_def plain_row_def tbl_simps)
  with one_live_token_per_family [OF one_user_facts(1), of plain_env rotate_ops] show ?thesis by (simp add: Let_def)
qed

theorem reuse_ends_family_witness:
  "let db = fold (session_step plain_env) rotate_ops one_user_db;
       db' = fold (session_step plain_env) [] (snd (refreshToken plain_env 2 ''j3'' ''y'' (plain_refresh ''j1'' 0) db))
   in isl (fst (refreshToken plain_env 3 ''j4'' ''z'' (plain_refresh ''j2'' 1) db'))"
proof -
  let ?db = "fold (session_step plain_env) rotate_ops one_user_db"
  have tok: "find_token (plain_refresh ''j1'' 0) ?db = Some (plain_row ''j1'' 0 True)" "rt_revoked (plain_row ''j1'' 0 True)"
    unfolding rotate_run by (simp_all add: find_token_def plain_row_def tbl_simps)
  have ver: "verifyRefreshToken plain_env 2 (plain_refresh ''j1'' 0) = Inr (no_claims\<lparr>jc_id := Some ''u'', jc_jti := Some ''j1''\<rparr>)"
    by (simp add: plain_verify_refresh)
  have id: "truthy (jc_id (no_claims\<lparr>jc_id := Some ''u'', jc_jti := Some ''j1''\<rparr>))" by (simp add: truthy_def no_claims_def)
  have "snd (refreshToken plain_env 2 ''j3'' ''y'' (plain_refresh ''j1'' 0) ?db) =
      one_user_db\<lparr>adb_tokens := [plain_row ''j1'' 0 True, plain_row ''j2'' 1 True]\<rparr>"
    unfolding rotate_run
    by (simp add: refreshToken_def refresh_read_def ver or_none_def truthy_def find_token_def tbl_simps plain_row_def
        check_stored_def revoke_family_def revoke_where_def no_claims_def)
  then have "find_token (plain_refresh ''j2'' 1) (fold (session_step plain_env) [] (snd (refreshToken plain_env 2 ''j3'' ''y'' (plain_refresh ''j1'' 0) ?db))) =
      Some (plain_row ''j2'' 1 True)"
    by (simp add: find_token_def plain_row_def tbl_simps plain_token_eq)
  from reuse_ends_family [OF one_user_facts(1) refl tok ver id this] show ?thesis by (simp add: plain_row_def Let_def)
qed

theorem logout_is_final_witness:
  "let db = fold (session_step plain_env) rotate_ops one_user_db;
       db' = fold (session_step plain_env) [(3, SO_login ''g'' ''j5'' ''u'')] (snd (auth_logout plain_env 2 (plain_refresh ''j2'' 1) db))
   in isl (fst (refreshToken plain_env 4 ''j4'' ''z'' (plain_refresh ''j2'' 1) db'))"
proof -
  let ?db = "fold (session_step plain_env) rotate_ops one_user_db"
  have tok: "find_token (plain_refresh ''j2'' 1) ?db = Some (plain_row ''j2'' 1 False)" "rt_userId (plain_row ''j2'' 1 False) = ''u''"
    unfolding rotate_run by (simp_all add: find_token_def plain_row_def tbl_simps plain_token_eq)
  have ver: "verifyRefreshToken plain_env 2 (plain_refresh ''j2'' 1) = Inr (no_claims\<lparr>jc_id := Some ''u'', jc_jti := Some ''j2''\<rparr>)"
    by (simp add: plain_verify_refresh)
  have id: "jc_id (no_claims\<lparr>jc_id := Some ''u'', jc_jti := Some ''j2''\<rparr>) = Some ''u''" "''u'' \<noteq> []" by simp_all
  show ?thesis
    unfolding Let_def by (rule conjunct1 [OF logout_is_final [OF one_user_facts(1) refl ver id tok, unfolded Let_def]])
qed

theorem concurrent_refresh_forks_family_witness:
  "let db = fold (session_step plain_env) login_ops one_user_db;
       db1 = snd (rotate_session plain_env 1 ''j2'' ''x'' (plain_row ''j1'' 0 False) (blank_user ''u'') db);
       db2 = snd (rotate_session plain_env 1 ''j3'' ''y'' (plain_row ''j1'' 0 False) (blank_user ''u'') db1)
   in list_all (\<lambda>n. \<exists>r. find_token n db2 = Some r \<and> \<not> rt_revoked r) [plain_refresh ''j2'' 1, plain_refresh ''j3'' 1]"
proof -
  let ?db = "fold (session_step plain_env) login_ops one_user_db"
  have ok: "sessions_ok ?db" by (rule sessm.run_ok [OF no_sessions_ok [OF one_user_facts(1)]])
  have read: "refresh_read plain_env 1 (plain_refresh ''j1'' 0) ?db = (Inr (plain_row ''j1'' 0 False, blank_user ''u''), ?db)"
    unfolding login_run
    by (simp add: refresh_read_def plain_verify_refresh or_none_def truthy_def find_token_def tbl_simps plain_row_def
        check_stored_def one_user_facts blank_user_facts seconds_def REFRESH_TOKEN_EXPIRY_SECONDS_def no_claims_def)
  have new: "plain_refresh ''j2'' 1 \<noteq> plain_refresh ''j3'' 1" "plain_refresh ''j2'' 1 \<notin> set (map rt_token (adb_tokens ?db))"
    "plain_refresh ''j3'' 1 \<notin> set (map rt_token (adb_tokens ?db))"
    unfolding login_run by (simp_all add: plain_token_eq plain_row_def)
  have secret: "ae_JWT_SECRET plain_env = Some ''k''" "''k'' \<noteq> []" by (simp_all add: plain_env_def)
  from concurrent_refresh_forks_family [OF read secret ok plain_sign [symmetric] plain_sign [symmetric] new,
      where ?uuid1.0 = "''x''" and ?uuid2.0 = "''y''"]
  show ?thesis by (auto simp: Let_def split: prod.splits)
qed

end
