(* ===== verification/Auth_Accounts.thy ===== *)
theory Auth_Accounts
  imports Auth_Sessions
begin

text \<open>
  Accounts of \<open>services/AuthService.ts\<close>: registration, the logins by password, wallet message and identity
  provider, two-factor authentication with recovery codes, e-mail verification and password reset, token
  introspection, and linking an existing account on a provider login (\<open>services/AccountMergeService.ts\<close>).
  The libraries are parameters: \<open>bcrypt\<close>, the TOTP check, the decoding of a JWT payload, and the violations
  \<open>class-validator\<close> reports for a request body. E-mails and the audit log are left out.
\<close>

subsection \<open>Parameters and state\<close>

record linked_account =
  la_type :: string
  la_wallet_client :: "string option"
  la_connector_type :: "string option"
  la_address :: "string option"
  la_email :: "string option"
  la_verified_email :: bool
  la_username :: "string option"
  la_subject :: "string option"
  la_id :: "string option"
  la_name :: "string option"
  la_profile_picture_url :: "string option"
  la_verified :: bool

record privy_payload =
  pp_sub :: "string option"
  pp_id :: "string option"
  pp_email :: "string option"
  pp_email_verified :: bool
  pp_wallet_address :: "string option"
  pp_walletAddress :: "string option"
  pp_linked_accounts :: "linked_account list"

text \<open>
  \<open>ac_hash\<close> takes the random salt and a plain text. \<open>ac_decode\<close> is \<open>JSON.parse\<close> of a base64 text, \<open>None\<close> when
  it throws or gives no object; the fields have the types the provider documents.
\<close>

record 'tok account_env =
  ac_auth :: "'tok auth_env"
  ac_hash :: "string \<Rightarrow> string \<Rightarrow> string"
  ac_compare :: "string \<Rightarrow> string \<Rightarrow> bool"
  ac_totp :: "timestamp \<Rightarrow> string \<Rightarrow> string \<Rightarrow> bool"
  ac_decode :: "string \<Rightarrow> privy_payload option"

record 'tok account_db = "'tok auth_db" +
  acc_nonces :: "ident \<Rightarrow> (string \<times> timestamp) option"

definition auth_part :: "'tok account_db \<Rightarrow> 'tok auth_db" where
  "auth_part db = auth_db.truncate db"

definition with_auth :: "'tok auth_db \<Rightarrow> 'tok account_db \<Rightarrow> 'tok account_db" where
  "with_auth a db = db\<lparr>adb_users := adb_users a, adb_tokens := adb_tokens a\<rparr>"

definition find_user_by :: "(user \<Rightarrow> bool) \<Rightarrow> 'tok account_db \<Rightarrow> user option" where
  "find_user_by p db = tbl_find p (adb_users db)"

definition update_user :: "user \<Rightarrow> ('tok account_db, user) service" where
  "update_user u db = (case save_user u (adb_users db) of (r, t) \<Rightarrow> (r, db\<lparr>adb_users := t\<rparr>))"

definition insert_user :: "user \<Rightarrow> ('tok account_db, user) service" where
  "insert_user u db =
     (if user_refused u (adb_users db) then (Inl duplicate_key_error, db)
      else (Inr u, db\<lparr>adb_users := adb_users db @ [u]\<rparr>))"

definition session_for ::
  "'tok account_env \<Rightarrow> timestamp \<Rightarrow> string \<Rightarrow> ident \<Rightarrow> user \<Rightarrow> ('tok account_db, 'tok \<times> 'tok) service" where
  "session_for env now jti uuid u db =
     (case open_session (ac_auth env) now jti uuid u (auth_part db) of (r, a) \<Rightarrow> (r, with_auth a db))"

definition plain_error :: "string \<Rightarrow> js_error" where
  "plain_error msg = PlainErr msg None"

definition user_not_found :: js_error where
  "user_not_found = AppErr (AE_notFound ''User not found'' NoDetails None)"

subsection \<open>Registration\<close>

record registration =
  rg_email :: string
  rg_password :: string
  rg_role :: user_role
  rg_username :: "string option"
  rg_name :: "string option"

definition registered_user :: "'tok account_env \<Rightarrow> timestamp \<Rightarrow> ident \<Rightarrow> string \<Rightarrow> string \<Rightarrow> registration \<Rightarrow> user" where
  "registered_user env now uid salt vtoken dto =
     (blank_user uid)\<lparr>us_email := Some (rg_email dto), us_passwordHash := Some (ac_hash env salt (rg_password dto)),
       us_role := rg_role dto, us_username := rg_username dto, us_name := rg_name dto,
       us_emailVerificationToken := Some vtoken, us_emailVerificationTokenExpiry := Some (now + seconds (24 * 60 * 60)),
       us_emailVerified := False\<rparr>"

definition registerWithEmail ::
  "'tok account_env \<Rightarrow> timestamp \<Rightarrow> ident \<Rightarrow> string \<Rightarrow> string \<Rightarrow> string \<Rightarrow> ident \<Rightarrow> string list \<Rightarrow> registration \<Rightarrow>
   ('tok account_db, user \<times> 'tok \<times> 'tok) service" where
  "registerWithEmail env now uid salt vtoken jti uuid violations dto db =
     (if violations \<noteq> [] then (Inl (plain_error (join_with '', '' violations)), db)
      else if find_user_by (\<lambda>u. us_email u = Some (rg_email dto)) db \<noteq> None
      then (Inl (AppErr (AE_conflict ''User already exists'' NoDetails None)), db)
      else (case insert_user (registered_user env now uid salt vtoken dto) db of
          (Inl e, db1) \<Rightarrow> (Inl e, db1)
        | (Inr u, db1) \<Rightarrow>
            (case session_for env now jti uuid u db1 of
               (Inl e, db2) \<Rightarrow> (Inl e, db2)
             | (Inr (access, refresh), db2) \<Rightarrow> (Inr (u, access, refresh), db2))))"

subsection \<open>Two-factor codes\<close>

text \<open>\<open>s.replace(/\\s/g, '')\<close> and \<open>toUpperCase\<close> on the letters recovery codes are made of.\<close>

definition strip_spaces :: "string \<Rightarrow> string" where
  "strip_spaces s = filter (\<lambda>c. \<not> js_space c) s"

definition ascii_upper :: "string \<Rightarrow> string" where
  "ascii_upper s = map (\<lambda>c. if 97 \<le> (of_char c :: nat) \<and> (of_char c :: nat) \<le> 122
                              then char_of ((of_char c :: nat) - 32) else c) s"

definition normalizeRecoveryCode :: "string \<Rightarrow> string" where
  "normalizeRecoveryCode code = ascii_upper (strip_spaces (js_trim code))"

definition verifyTotpCode :: "'tok account_env \<Rightarrow> timestamp \<Rightarrow> user \<Rightarrow> string \<Rightarrow> bool" where
  "verifyTotpCode env now u code =
     (case or_none (us_twoFactorSecret u) of None \<Rightarrow> False | Some secret \<Rightarrow> ac_totp env now secret (strip_spaces code))"

text \<open>The first stored hash the code matches decides; a hash stored twice is refused.\<close>

definition verifyAndConsumeRecoveryCode ::
  "'tok account_env \<Rightarrow> user \<Rightarrow> string \<Rightarrow> ('tok account_db, bool \<times> user) service" where
  "verifyAndConsumeRecoveryCode env u code db =
     (let hashes = (case us_recoveryHashes u of None \<Rightarrow> [] | Some hs \<Rightarrow> hs) in
      case List.find (ac_compare env (normalizeRecoveryCode code)) hashes of
        None \<Rightarrow> (Inr (False, u), db)
      | Some h \<Rightarrow>
          let remaining = filter (\<lambda>x. x \<noteq> h) hashes in
          if length remaining \<noteq> length hashes - 1 then (Inr (False, u), db)
          else (case update_user (u\<lparr>us_recoveryHashes := Some remaining\<rparr>) db of
              (Inl e, db1) \<Rightarrow> (Inl e, db1)
            | (Inr u1, db1) \<Rightarrow> (Inr (True, u1), db1)))"

definition generatePartialToken :: "'tok account_env \<Rightarrow> timestamp \<Rightarrow> user \<Rightarrow> js_error + 'tok" where
  "generatePartialToken env now u =
     (case or_none (ae_JWT_SECRET (ac_auth env)) of
        None \<Rightarrow> Inl (AppErr (AE_businessLogic ''JWT_SECRET not set in environment variables'' NoDetails None))
      | Some s \<Rightarrow> Inr (ae_sign (ac_auth env) s (no_claims\<lparr>jc_id := Some (us_id u), jc_type := Some ''2fa_partial''\<rparr>)
                        (now + seconds 300)))"

subsection \<open>Login with a password\<close>

record login_request =
  lr_email :: string
  lr_password :: string
  lr_twoFactorCode :: "string option"
  lr_recoveryCode :: "string option"

datatype 'tok login_result = LoggedIn user 'tok | TwoFactorRequired 'tok user

definition second_factor ::
  "'tok account_env \<Rightarrow> timestamp \<Rightarrow> user \<Rightarrow> login_request \<Rightarrow> ('tok account_db, bool \<times> user) service" where
  "second_factor env now u dto db =
     (case or_none (lr_twoFactorCode dto) of
        Some code \<Rightarrow> (Inr (verifyTotpCode env now u code, u), db)
      | None \<Rightarrow> verifyAndConsumeRecoveryCode env u (case lr_recoveryCode dto of Some c \<Rightarrow> c | None \<Rightarrow> []) db)"

definition bad_credentials :: js_error where
  "bad_credentials = auth_failed ''Invalid email or password''"

definition finish_login :: "'tok account_env \<Rightarrow> timestamp \<Rightarrow> user \<Rightarrow> ('tok account_db, 'tok login_result) service" where
  "finish_login env now u db =
     (case signToken (ac_auth env) now u of Inl e \<Rightarrow> (Inl e, db) | Inr tok \<Rightarrow> (Inr (LoggedIn u tok), db))"

definition loginWithEmail ::
  "'tok account_env \<Rightarrow> timestamp \<Rightarrow> string list \<Rightarrow> login_request \<Rightarrow> ('tok account_db, 'tok login_result) service" where
  "loginWithEmail env now violations dto db =
     (if violations \<noteq> [] then (Inl (plain_error (join_with '', '' violations)), db)
      else (case find_user_by (\<lambda>u. us_email u = Some (lr_email dto)) db of
          None \<Rightarrow> (Inl bad_credentials, db)
        | Some u \<Rightarrow>
            (case or_none (us_passwordHash u) of
               None \<Rightarrow> (Inl bad_credentials, db)
             | Some h \<Rightarrow>
                 if \<not> ac_compare env (lr_password dto) h then (Inl bad_credentials, db)
                 else if \<not> us_twoFactorEnabled u then finish_login env now u db
                 else if \<not> truthy (lr_twoFactorCode dto) \<and> \<not> truthy (lr_recoveryCode dto)
                 then (case generatePartialToken env now u of
                     Inl e \<Rightarrow> (Inl e, db) | Inr tok \<Rightarrow> (Inr (TwoFactorRequired tok u), db))
                 else (case second_factor env now u dto db of
                     (Inl e, db1) \<Rightarrow> (Inl e, db1)
                   | (Inr (ok, u1), db1) \<Rightarrow>
                       if \<not> ok then (Inl (auth_failed ''Invalid two-factor code''), db1)
                       else finish_login env now u1 db1))))"

subsection \<open>Enrolling and leaving two-factor authentication\<close>

text \<open>The secret, the codes and their salts are random; \<open>backup\<close> pairs each code with its salt.\<close>

definition enableTwoFactor ::
  "'tok account_env \<Rightarrow> string \<Rightarrow> (string \<times> string) list \<Rightarrow> ident \<Rightarrow> ('tok account_db, string \<times> string list) service" where
  "enableTwoFactor env secret backup uid db =
     (case find_user uid (adb_users db) of
        None \<Rightarrow> (Inl (plain_error ''User not found''), db)
      | Some u \<Rightarrow>
          if \<not> truthy (us_passwordHash u)
          then (Inl (plain_error ''Two-factor authentication is only available for email/password accounts''), db)
          else (case update_user (u\<lparr>us_twoFactorEnabled := True, us_twoFactorSecret := Some secret,
                  us_recoveryHashes := Some (map (\<lambda>(code, salt). ac_hash env salt (normalizeRecoveryCode code)) backup)\<rparr>) db of
              (Inl e, db1) \<Rightarrow> (Inl e, db1)
            | (Inr _, db1) \<Rightarrow> (Inr (secret, map fst backup), db1)))"

definition verifyTwoFactor :: "'tok account_env \<Rightarrow> timestamp \<Rightarrow> ident \<Rightarrow> string \<Rightarrow> 'tok account_db \<Rightarrow> js_error option" where
  "verifyTwoFactor env now uid code db =
     (case find_user uid (adb_users db) of
        None \<Rightarrow> Some user_not_found
      | Some u \<Rightarrow>
          if \<not> truthy (us_twoFactorSecret u)
          then Some (AppErr (AE_businessLogic ''Two-factor authentication not enrolled'' NoDetails None))
          else if \<not> verifyTotpCode env now u code then Some (auth_failed ''Invalid two-factor code'') else None)"

definition disableTwoFactor ::
  "'tok account_env \<Rightarrow> timestamp \<Rightarrow> ident \<Rightarrow> string \<Rightarrow> ('tok account_db, unit) service" where
  "disableTwoFactor env now uid code db =
     (case find_user uid (adb_users db) of
        None \<Rightarrow> (Inl user_not_found, db)
      | Some u \<Rightarrow>
          if \<not> us_twoFactorEnabled u
          then (Inl (AppErr (AE_businessLogic ''Two-factor authentication is not enabled'' NoDetails None)), db)
          else if \<not> verifyTotpCode env now u code then (Inl (auth_failed ''Invalid two-factor code''), db)
          else (case update_user (u\<lparr>us_twoFactorEnabled := False, us_twoFactorSecret := None, us_recoveryHashes := None\<rparr>) db of
              (Inl e, db1) \<Rightarrow> (Inl e, db1)
            | (Inr _, db1) \<Rightarrow> (Inr (), db1)))"

definition completeTwoFactorLogin ::
  "'tok account_env \<Rightarrow> timestamp \<Rightarrow> string \<Rightarrow> ident \<Rightarrow> 'tok \<Rightarrow> string \<Rightarrow> ('tok account_db, 'tok \<times> 'tok) service" where
  "completeTwoFactorLogin env now jti uuid partial code db =
     (case or_none (ae_JWT_SECRET (ac_auth env)) of
        None \<Rightarrow> (Inl (AppErr (AE_businessLogic ''JWT_SECRET not set in environment variables'' NoDetails None)), db)
      | Some s \<Rightarrow>
          (case ae_verify (ac_auth env) now s partial of
             Inl _ \<Rightarrow> (Inl (auth_failed ''Invalid or expired partial token''), db)
           | Inr c \<Rightarrow>
               if jc_type c \<noteq> Some ''2fa_partial'' then (Inl (auth_failed ''Invalid token type''), db)
               else (case Option.bind (jc_id c) (\<lambda>uid. find_user uid (adb_users db)) of
                   None \<Rightarrow> (Inl user_not_found, db)
                 | Some u \<Rightarrow>
                     if \<not> us_twoFactorEnabled u
                     then (Inl (AppErr (AE_businessLogic ''Two-factor authentication is not enabled for this user'' NoDetails None)), db)
                     else if \<not> verifyTotpCode env now u code then (Inl (auth_failed ''Invalid two-factor code''), db)
                     else session_for env now jti uuid u db)))"

subsection \<open>Login with a wallet message\<close>

text \<open>The first match of the regular expression \<open>Nonce: (\w+)\<close>.\<close>

definition word_char :: "char \<Rightarrow> bool" where
  "word_char c \<longleftrightarrow> (let n = of_char c :: nat in 48 \<le> n \<and> n \<le> 57 \<or> 65 \<le> n \<and> n \<le> 90 \<or> n = 95 \<or> 97 \<le> n \<and> n \<le> 122)"

fun nonce_in :: "string \<Rightarrow> string option" where
  "nonce_in [] = None"
| "nonce_in (c # cs) =
     (let rest = takeWhile word_char (drop 7 (c # cs)) in
      if starts_with ''Nonce: '' (c # cs) \<and> rest \<noteq> [] then Some rest else nonce_in cs)"

definition getNonce :: "timestamp \<Rightarrow> string \<Rightarrow> string \<Rightarrow> ('tok account_db, string) service" where
  "getNonce now nonce email db =
     (if email = [] then (Inl (plain_error ''Email is required''), db)
      else (Inr nonce, db\<lparr>acc_nonces := (acc_nonces db)(email \<mapsto> (nonce, now + seconds 300))\<rparr>))"

definition stored_nonce :: "timestamp \<Rightarrow> string \<Rightarrow> 'tok account_db \<Rightarrow> string option" where
  "stored_nonce now email db =
     (case acc_nonces db email of None \<Rightarrow> None | Some (n, e) \<Rightarrow> if now < e then Some n else None)"

definition login_as ::
  "'tok account_env \<Rightarrow> timestamp \<Rightarrow> string \<Rightarrow> ident \<Rightarrow> string \<Rightarrow> ('tok account_db, user \<times> 'tok \<times> 'tok) service" where
  "login_as env now jti uuid email db =
     (case find_user_by (\<lambda>u. us_email u = Some email) db of
        None \<Rightarrow> (Inl (plain_error ''User not found''), db)
      | Some u \<Rightarrow>
          (case session_for env now jti uuid u db of
             (Inl e, db1) \<Rightarrow> (Inl e, db1)
           | (Inr (access, refresh), db1) \<Rightarrow> (Inr (u, access, refresh), db1)))"

text \<open>The signature of the request is not an input: nothing reads it.\<close>

definition wallet_login ::
  "'tok account_env \<Rightarrow> timestamp \<Rightarrow> string \<Rightarrow> ident \<Rightarrow> nat \<Rightarrow> string \<Rightarrow> string \<Rightarrow> ('tok account_db, user \<times> 'tok \<times> 'tok) service" where
  "wallet_login env now jti uuid violations message email db =
     (if violations > 0 then (Inl (plain_error (join_with '', '' (replicate violations ''[object Object]''))), db)
      else if message = [] then login_as env now jti uuid email db
      else (case nonce_in message of
          None \<Rightarrow> (Inl (plain_error ''Nonce missing in message''), db)
        | Some n \<Rightarrow>
            if or_none (stored_nonce now email db) \<noteq> Some n then (Inl (plain_error ''Invalid or expired nonce''), db)
            else login_as env now jti uuid email (db\<lparr>acc_nonces := (acc_nonces db)(email := None)\<rparr>)))"

subsection \<open>E-mail verification and password reset\<close>

definition verifyEmail :: "timestamp \<Rightarrow> string \<Rightarrow> ('tok account_db, user) service" where
  "verifyEmail now token db =
     (case find_user_by (\<lambda>u. us_emailVerificationToken u = Some token) db of
        None \<Rightarrow> (Inl (plain_error ''Invalid verification token''), db)
      | Some u \<Rightarrow>
          if (case us_emailVerificationTokenExpiry u of None \<Rightarrow> False | Some e \<Rightarrow> e < now)
          then (Inl (plain_error ''Verification token has expired''), db)
          else update_user (u\<lparr>us_emailVerified := True, us_emailVerificationToken := None,
                 us_emailVerificationTokenExpiry := None\<rparr>) db)"

definition forgotPassword :: "timestamp \<Rightarrow> string \<Rightarrow> string \<Rightarrow> ('tok account_db, unit) service" where
  "forgotPassword now reset email db =
     (case find_user_by (\<lambda>u. us_email u = Some email) db of
        None \<Rightarrow> (Inr (), db)
      | Some u \<Rightarrow>
          (case update_user (u\<lparr>us_passwordResetToken := Some reset, us_passwordResetTokenExpiry := Some (now + 60 * 60 * 1000)\<rparr>) db of
             (Inl e, db1) \<Rightarrow> (Inl e, db1)
           | (Inr _, db1) \<Rightarrow> (Inr (), db1)))"

definition resetPassword ::
  "'tok account_env \<Rightarrow> timestamp \<Rightarrow> string \<Rightarrow> string \<Rightarrow> string \<Rightarrow> ('tok account_db, unit) service" where
  "resetPassword env now salt token password db =
     (case find_user_by (\<lambda>u. us_passwordResetToken u = Some token) db of
        None \<Rightarrow> (Inl (plain_error ''Invalid reset token''), db)
      | Some u \<Rightarrow>
          if (case us_passwordResetTokenExpiry u of None \<Rightarrow> False | Some e \<Rightarrow> e < now)
          then (Inl (plain_error ''Reset token has expired''), db)
          else (case update_user (u\<lparr>us_passwordHash := Some (ac_hash env salt password), us_passwordResetToken := None,
                  us_passwordResetTokenExpiry := None\<rparr>) db of
              (Inl e, db1) \<Rightarrow> (Inl e, db1)
            | (Inr _, db1) \<Rightarrow> (Inr (), db1)))"

subsection \<open>Introspection\<close>

definition introspectToken :: "'tok account_env \<Rightarrow> timestamp \<Rightarrow> 'tok \<Rightarrow> 'tok account_db \<Rightarrow> user option" where
  "introspectToken env now tok db =
     (case ae_verify (ac_auth env) now (case or_none (ae_JWT_SECRET (ac_auth env)) of Some s \<Rightarrow> s | None \<Rightarrow> ''secret'') tok of
        Inl _ \<Rightarrow> None
      | Inr c \<Rightarrow> Option.bind (or_none (jc_id c)) (\<lambda>uid. find_user uid (adb_users db)))"

subsection \<open>Login with the identity provider\<close>

definition autoMergeDuringLogin ::
  "string \<Rightarrow> string option \<Rightarrow> string option \<Rightarrow> ('tok account_db, user option) service" where
  "autoMergeDuringLogin pid email wallet db =
     (case find_user_by (\<lambda>u. us_privyUserId u = Some pid) db of
        Some u \<Rightarrow> (Inr (Some u), db)
      | None \<Rightarrow>
          let link = (\<lambda>u. case update_user (u\<lparr>us_privyUserId := Some pid\<rparr>) db of
                (Inl e, db1) \<Rightarrow> (Inl e, db1) | (Inr u1, db1) \<Rightarrow> (Inr (Some u1), db1));
              free = (\<lambda>u. \<not> truthy (us_privyUserId u) \<and> us_deletedAt u = None);
              by_email = (if truthy email then find_user_by (\<lambda>u. us_email u = email \<and> us_emailVerified u) db else None);
              by_wallet = (if truthy wallet then find_user_by (\<lambda>u. us_walletAddress u = wallet) db else None)
          in case by_email of
               Some u \<Rightarrow> if free u then link u
                 else (case by_wallet of Some w \<Rightarrow> if free w then link w else (Inr None, db) | None \<Rightarrow> (Inr None, db))
             | None \<Rightarrow> (case by_wallet of Some w \<Rightarrow> if free w then link w else (Inr None, db) | None \<Rightarrow> (Inr None, db)))"

definition external_wallets :: "privy_payload \<Rightarrow> linked_account list" where
  "external_wallets p = filter (\<lambda>a. la_type a = ''wallet'' \<and>
     (la_wallet_client a = Some ''metamask'' \<or> la_wallet_client a = Some ''walletconnect'' \<or>
      la_connector_type a = Some ''injected'' \<or> la_connector_type a = Some ''wallet_connect'')) (pp_linked_accounts p)"

definition first_address :: "linked_account list \<Rightarrow> string option" where
  "first_address ws = (case ws of [] \<Rightarrow> None | w # _ \<Rightarrow> la_address w)"

text \<open>The updates of the entity from the payload, each with whether it was made, in the order of the code.\<close>

definition sync_email :: "privy_payload \<Rightarrow> user \<Rightarrow> user \<times> bool" where
  "sync_email p u =
     (if truthy (pp_email p) \<and> pp_email p \<noteq> us_email u \<and> pp_email_verified p
      then (u\<lparr>us_email := pp_email p, us_emailVerified := True\<rparr>, True) else (u, False))"

definition sync_wallet :: "privy_payload \<Rightarrow> string option \<Rightarrow> user \<Rightarrow> user \<times> bool" where
  "sync_wallet p wallet u =
     (if external_wallets p \<noteq> [] \<and> \<not> truthy (us_walletAddress u)
      then (u\<lparr>us_walletAddress := first_address (external_wallets p)\<rparr>, True)
      else if truthy wallet \<and> \<not> truthy (us_walletAddress u) then (u\<lparr>us_walletAddress := wallet\<rparr>, True) else (u, False))"

definition account_of :: "string \<Rightarrow> privy_payload \<Rightarrow> linked_account option" where
  "account_of ty p = List.find (\<lambda>a. la_type a = ty) (pp_linked_accounts p)"

definition sync_google :: "privy_payload \<Rightarrow> user \<Rightarrow> user \<times> bool" where
  "sync_google p u =
     (case account_of ''google'' p of
        None \<Rightarrow> (u, False)
      | Some g \<Rightarrow>
          if \<not> truthy (us_email u) \<and> truthy (la_email g)
          then (u\<lparr>us_email := la_email g, us_emailVerified := la_verified_email g\<rparr>, True) else (u, False))"

definition sync_twitter :: "privy_payload \<Rightarrow> user \<Rightarrow> user \<times> bool" where
  "sync_twitter p u =
     (case account_of ''twitter'' p of
        None \<Rightarrow> (u, False)
      | Some t \<Rightarrow>
          if truthy (la_username t) \<and> \<not> truthy (tw_username (us_twitter u))
          then (u\<lparr>us_twitter := \<lparr>tw_id = (if truthy (la_subject t) then la_subject t else la_id t),
                  tw_username = la_username t, tw_displayName = la_name t, tw_profileImage = la_profile_picture_url t,
                  tw_verified = la_verified t, tw_connected = Some True\<rparr>\<rparr>, True)
          else (u, False))"

definition sync_user :: "privy_payload \<Rightarrow> string option \<Rightarrow> user \<Rightarrow> user \<times> bool" where
  "sync_user p wallet u =
     (let (u1, b1) = sync_email p u; (u2, b2) = sync_wallet p wallet u1; (u3, b3) = sync_google p u2;
          (u4, b4) = sync_twitter p u3
      in (u4, b1 \<or> b2 \<or> b3 \<or> b4))"

fun split_dots :: "string \<Rightarrow> string list" where
  "split_dots [] = [[]]"
| "split_dots (c # cs) =
     (if c = CHR ''.'' then [] # split_dots cs
      else (case split_dots cs of [] \<Rightarrow> [[c]] | p # ps \<Rightarrow> (c # p) # ps))"

text \<open>Either the account found or linked, or a new entity, which has no row yet.\<close>

definition privy_account :: "ident \<Rightarrow> string \<Rightarrow> privy_payload \<Rightarrow> string option \<Rightarrow> user option \<Rightarrow> user \<times> bool" where
  "privy_account uid pid p wallet found =
     (case found of
        Some u \<Rightarrow> (u, False)
      | None \<Rightarrow> ((blank_user uid)\<lparr>us_privyUserId := Some pid, us_email := or_none (pp_email p),
          us_walletAddress := (if truthy wallet then wallet else or_none (first_address (external_wallets p))),
          us_role := UR_LISTENER, us_emailVerified := pp_email_verified p \<or> truthy (pp_email p)\<rparr>, True))"

definition privyLogin ::
  "'tok account_env \<Rightarrow> timestamp \<Rightarrow> ident \<Rightarrow> string \<Rightarrow> ident \<Rightarrow> string \<Rightarrow> ('tok account_db, user \<times> 'tok \<times> 'tok) service" where
  "privyLogin env now uid jti uuid idToken db =
     (let malformed = auth_failed ''Invalid or malformed Privy ID token''; parts = split_dots (js_trim idToken) in
      if js_trim idToken = [] then (Inl (AppErr (AE_validation ''Privy ID token is required'' NoDetails None)), db)
      else if length parts \<noteq> 3 then (Inl malformed, db)
      else (case ac_decode env (parts ! 1) of
          None \<Rightarrow> (Inl malformed, db)
        | Some p \<Rightarrow>
            (case (if truthy (pp_sub p) then pp_sub p else or_none (pp_id p)) of
               None \<Rightarrow> (Inl (auth_failed ''Privy user ID (sub) is required in token''), db)
             | Some pid \<Rightarrow>
                 let wallet = (if truthy (pp_wallet_address p) then pp_wallet_address p else pp_walletAddress p) in
                 (case autoMergeDuringLogin pid (pp_email p) wallet db of
                    (Inl e, db1) \<Rightarrow> (Inl e, db1)
                  | (Inr found, db1) \<Rightarrow>
                      let (u, fresh) = privy_account uid pid p wallet found; (u1, updated) = sync_user p wallet u in
                      (case (if fresh then insert_user u1 db1 else if updated then update_user u1 db1 else (Inr u1, db1)) of
                         (Inl e, db2) \<Rightarrow> (Inl e, db2)
                       | (Inr u2, db2) \<Rightarrow>
                           (case session_for env now jti uuid u2 db2 of
                              (Inl e, db3) \<Rightarrow> (Inl e, db3)
                            | (Inr (access, refresh), db3) \<Rightarrow> (Inr (u2, access, refresh), db3)))))))"

subsection \<open>Updating a row in place\<close>

lemma find_put_in_place:
  assumes "tbl_find p t = Some old" and "key row = key old" and "p row" and "tbl_ok key t"
  shows "tbl_find p (tbl_put key row t) = Some row"
  using assms
proof (induction t)
  case (Cons x xs)
  show ?case
  proof (cases "p x")
    case True
    with Cons.prems show ?thesis by (simp add: tbl_simps)
  next
    case False
    then have "tbl_find p xs = Some old" using Cons.prems(1) by (simp add: tbl_simps)
    moreover have "key x \<noteq> key row"
      using Cons.prems(2,4) tbl_find_SomeD [OF calculation] by (auto simp: tbl_ok_def)
    ultimately show ?thesis using Cons.IH Cons.prems False by (simp add: tbl_simps tbl_ok_def)
  qed
qed (simp add: tbl_simps)

lemma found_row:
  assumes "tbl_ok us_id (adb_users db)" and "find_user_by p db = Some u"
  shows "find_user (us_id u) (adb_users db) = Some u" "p u"
  using assms tbl_find_key_eq [OF assms(1), of u]
  by (auto simp: find_user_by_def find_user_def dest: tbl_find_SomeD)

text \<open>A saved change of a user found: the row it leaves, and what a search then finds.\<close>

lemma update_found:
  assumes "tbl_ok us_id (adb_users db)" and "find_user_by p db = Some u" and "us_id u' = us_id u"
    and "update_user u' db = (Inr u1, db1)"
  shows "u1 = u'" "adb_users db1 = tbl_put us_id (written u u') (adb_users db)" "adb_tokens db1 = adb_tokens db"
    "acc_nonces db1 = acc_nonces db" "tbl_ok us_id (adb_users db1)"
    "q (written u u') \<Longrightarrow> find_user_by q db = Some u \<Longrightarrow> find_user_by q db1 = Some (written u u')"
proof -
  have row: "find_user (us_id u') (adb_users db) = Some u" using found_row(1) [OF assms(1,2)] assms(3) by simp
  show a: "u1 = u'" "adb_users db1 = tbl_put us_id (written u u') (adb_users db)" "adb_tokens db1 = adb_tokens db"
    "acc_nonces db1 = acc_nonces db"
    using assms(4) by (auto simp: update_user_def save_user_def row Let_def split: if_splits)
  show "tbl_ok us_id (adb_users db1)" using assms(1) by (simp add: a(2) tbl_simps)
  show "q (written u u') \<Longrightarrow> find_user_by q db = Some u \<Longrightarrow> find_user_by q db1 = Some (written u u')"
    using find_put_in_place [of q "adb_users db" u us_id "written u u'"] assms(1,3) by (simp add: find_user_by_def a(2))
qed

text \<open>An update that leaves the unique columns alone is not refused.\<close>

definition users_ok :: "'tok account_db \<Rightarrow> bool" where
  "users_ok db \<longleftrightarrow> tbl_ok us_id (adb_users db) \<and> list_all (\<lambda>u. \<not> user_refused u (adb_users db)) (adb_users db)"

lemma update_not_refused:
  assumes "users_ok db" and "find_user_by p db = Some u" and "us_id u' = us_id u"
    and "map (\<lambda>c. c (written u u')) unique_columns = map (\<lambda>c. c u) unique_columns"
  shows "\<exists>db1. update_user u' db = (Inr u', db1)"
proof -
  have t: "tbl_ok us_id (adb_users db)" using assms(1) by (simp add: users_ok_def)
  have u: "u \<in> set (adb_users db)" using assms(2) by (auto simp: find_user_by_def dest: tbl_find_SomeD)
  have "user_clash (written u u') = user_clash u"
    using assms(3,4) by (auto simp: user_clash_def unique_columns_def fun_eq_iff)
  then have "user_refused (written u u') (adb_users db) = user_refused u (adb_users db)" by (simp add: user_refused_def)
  moreover have "\<not> user_refused u (adb_users db)" using assms(1) u by (auto simp: users_ok_def list_all_iff)
  ultimately show ?thesis
    using found_row(1) [OF t assms(2)] assms(3) by (simp add: update_user_def save_user_def Let_def)
qed

lemma session_for_Inr:
  assumes "ae_JWT_SECRET (ac_auth env) = Some s" "s \<noteq> []"
    and "signRefreshToken (ac_auth env) now jti u \<notin> set (map rt_token (adb_tokens db))"
  shows "\<exists>db1. session_for env now jti uuid u db =
     (Inr (ae_sign (ac_auth env) s (user_claims u) (now + seconds 900), signRefreshToken (ac_auth env) now jti u), db1) \<and>
     adb_users db1 = adb_users db"
proof -
  have "signToken (ac_auth env) now u = Inr (ae_sign (ac_auth env) s (user_claims u) (now + seconds 900))"
    using assms(1,2) by (simp add: signToken_def or_none_def truthy_def)
  with assms(3) show ?thesis
    by (simp add: session_for_def open_session_def Let_def storeRefreshToken_def insert_row_def auth_part_def with_auth_def
        auth_db.truncate_def)
qed

subsection \<open>The password login\<close>

text \<open>What a recovery code that is accepted leaves.\<close>

lemma recovery_consumes:
  assumes "verifyAndConsumeRecoveryCode env u code db = (Inr (True, u1), db1)"
    and "tbl_ok us_id (adb_users db)" and "find_user_by p db = Some u"
  obtains hs r where "us_recoveryHashes u = Some hs" "List.find (ac_compare env (normalizeRecoveryCode code)) hs = Some r"
    "r \<in> set hs" "ac_compare env (normalizeRecoveryCode code) r"
    "u1 = u\<lparr>us_recoveryHashes := Some (filter (\<lambda>x. x \<noteq> r) hs)\<rparr>" "update_user u1 db = (Inr u1, db1)"
    "find_user (us_id u) (adb_users db1) = Some (written u u1)"
proof -
  obtain hs r where r: "us_recoveryHashes u = Some hs" "List.find (ac_compare env (normalizeRecoveryCode code)) hs = Some r"
    "update_user (u\<lparr>us_recoveryHashes := Some (filter (\<lambda>x. x \<noteq> r) hs)\<rparr>) db = (Inr u1, db1)"
    using assms(1)
    by (auto simp: verifyAndConsumeRecoveryCode_def Let_def split: option.splits if_splits sum.splits prod.splits)
  let ?u' = "u\<lparr>us_recoveryHashes := Some (filter (\<lambda>x. x \<noteq> r) hs)\<rparr>"
  from update_found [OF assms(2,3) _ r(3)] have s: "u1 = ?u'" "adb_users db1 = tbl_put us_id (written u ?u') (adb_users db)"
    by simp_all
  have "find_user (us_id u) (adb_users db1) = Some (written u u1)"
    using users.lookup_store_same [of "written u ?u'" "adb_users db"] by (simp add: find_user_def s)
  moreover have "r \<in> set hs" "ac_compare env (normalizeRecoveryCode code) r" using r(2) by (auto simp: find_Some_iff)
  ultimately show ?thesis using that r s(1) by blast
qed

text \<open>The login after the password was accepted.\<close>

definition login_rest :: "'tok account_env \<Rightarrow> timestamp \<Rightarrow> login_request \<Rightarrow> user \<Rightarrow> ('tok account_db, 'tok login_result) service" where
  "login_rest env now dto u db =
     (if \<not> us_twoFactorEnabled u then finish_login env now u db
      else if \<not> truthy (lr_twoFactorCode dto) \<and> \<not> truthy (lr_recoveryCode dto)
      then (case generatePartialToken env now u of Inl e \<Rightarrow> (Inl e, db) | Inr tok \<Rightarrow> (Inr (TwoFactorRequired tok u), db))
      else (case second_factor env now u dto db of
          (Inl e, db1) \<Rightarrow> (Inl e, db1)
        | (Inr (ok, u1), db1) \<Rightarrow>
            if \<not> ok then (Inl (auth_failed ''Invalid two-factor code''), db1) else finish_login env now u1 db1))"

lemma login_after_password:
  assumes "find_user_by (\<lambda>u. us_email u = Some (lr_email dto)) db = Some u" and "us_passwordHash u = Some h" "h \<noteq> []"
    and "ac_compare env (lr_password dto) h"
  shows "loginWithEmail env now [] dto db = login_rest env now dto u db"
  using assms by (simp add: loginWithEmail_def login_rest_def or_none_def truthy_def)

lemma login_needs_password:
  assumes "loginWithEmail env now violations dto db = (Inr r, db')"
  obtains u h where "find_user_by (\<lambda>u. us_email u = Some (lr_email dto)) db = Some u" "us_passwordHash u = Some h"
    "ac_compare env (lr_password dto) h" "login_rest env now dto u db = (Inr r, db')"
  using assms by (auto simp: loginWithEmail_def login_rest_def or_none_def split: if_splits option.splits)

lemma second_factor_cases:
  assumes "login_rest env now dto u db = (Inr (LoggedIn u1 tok), db1)" and "us_twoFactorEnabled u"
  obtains (totp) code where "lr_twoFactorCode dto = Some code" "verifyTotpCode env now u code" "u1 = u" "db1 = db"
      "signToken (ac_auth env) now u1 = Inr tok"
  | (recovery) code where "lr_recoveryCode dto = Some code" "verifyAndConsumeRecoveryCode env u code db = (Inr (True, u1), db1)"
      "signToken (ac_auth env) now u1 = Inr tok"
proof -
  obtain u2 db2 where f: "second_factor env now u dto db = (Inr (True, u2), db2)"
    "finish_login env now u2 db2 = (Inr (LoggedIn u1 tok), db1)" "truthy (lr_twoFactorCode dto) \<or> truthy (lr_recoveryCode dto)"
    using assms by (auto simp: login_rest_def split: if_splits sum.splits prod.splits)
  then have fin: "u1 = u2" "db1 = db2" "signToken (ac_auth env) now u1 = Inr tok"
    by (auto simp: finish_login_def split: sum.splits)
  show ?thesis
  proof (cases "truthy (lr_twoFactorCode dto)")
    case True
    then obtain code where c: "lr_twoFactorCode dto = Some code" "code \<noteq> []" by (auto simp: truthy_def split: option.splits)
    then have "verifyTotpCode env now u code" "u2 = u" "db2 = db"
      using f(1) by (auto simp: second_factor_def or_none_def truthy_def)
    with c fin show ?thesis by (intro totp [of code]) auto
  next
    case False
    with f(3) obtain code where code: "lr_recoveryCode dto = Some code" by (auto simp: truthy_def split: option.splits)
    with f(1) False have "verifyAndConsumeRecoveryCode env u code db = (Inr (True, u2), db2)"
      by (simp add: second_factor_def or_none_def)
    with code fin recovery show ?thesis by blast
  qed
qed

text \<open>
  C18: A password login succeeds only for the account of the e-mail, with a password that matches its hash and, when
  two-factor authentication is on, with a valid code of the authenticator or a recovery code that matches a stored
  hash; that hash is no longer stored afterwards. The token issued carries the account's own claims.
\<close>

theorem password_login_checks_factors:
  assumes "loginWithEmail env now violations dto db = (Inr (LoggedIn u tok), db')" and "tbl_ok us_id (adb_users db)"
  shows "\<exists>u0 h. find_user_by (\<lambda>u. us_email u = Some (lr_email dto)) db = Some u0 \<and> us_passwordHash u0 = Some h \<and>
     ac_compare env (lr_password dto) h \<and> us_id u = us_id u0 \<and> signToken (ac_auth env) now u = Inr tok \<and>
     (\<not> us_twoFactorEnabled u0 \<and> db' = db \<or>
      us_twoFactorEnabled u0 \<and> (\<exists>code. lr_twoFactorCode dto = Some code \<and> verifyTotpCode env now u0 code) \<and> db' = db \<or>
      us_twoFactorEnabled u0 \<and> (\<exists>code hs r. lr_recoveryCode dto = Some code \<and> us_recoveryHashes u0 = Some hs \<and> r \<in> set hs \<and>
        ac_compare env (normalizeRecoveryCode code) r \<and>
        map_option us_recoveryHashes (find_user (us_id u0) (adb_users db')) = Some (Some (filter (\<lambda>x. x \<noteq> r) hs))))"
proof -
  obtain u0 h where u0: "find_user_by (\<lambda>u. us_email u = Some (lr_email dto)) db = Some u0" "us_passwordHash u0 = Some h"
    "ac_compare env (lr_password dto) h" "login_rest env now dto u0 db = (Inr (LoggedIn u tok), db')"
    using login_needs_password [OF assms(1)] .
  show ?thesis
  proof (cases "us_twoFactorEnabled u0")
    case False
    with u0 show ?thesis by (auto simp: login_rest_def finish_login_def split: sum.splits)
  next
    case True
    with u0(4) show ?thesis
    proof (cases rule: second_factor_cases)
      case (totp code)
      with u0 True show ?thesis by auto
    next
      case (recovery code)
      from recovery_consumes [OF recovery(2) assms(2) u0(1)] obtain hs r where
        "us_recoveryHashes u0 = Some hs" "r \<in> set hs" "ac_compare env (normalizeRecoveryCode code) r"
        "u = u0\<lparr>us_recoveryHashes := Some (filter (\<lambda>x. x \<noteq> r) hs)\<rparr>"
        "find_user (us_id u0) (adb_users db') = Some (written u0 u)" by blast
      with u0 True recovery show ?thesis by (auto simp: written_def)
    qed
  qed
qed

text \<open>
  A recovery code works once: when exactly one stored hash matches it, the request that logged in with it is
  refused when it is made again.
\<close>

theorem recovery_code_works_once:
  assumes "loginWithEmail env now violations dto db = (Inr (LoggedIn u tok), db')" and "tbl_ok us_id (adb_users db)"
    and "find_user_by (\<lambda>u. us_email u = Some (lr_email dto)) db = Some u0" and "us_twoFactorEnabled u0"
    and "lr_twoFactorCode dto = None" "lr_recoveryCode dto = Some code"
    and "us_recoveryHashes u0 = Some hs" "length (filter (ac_compare env (normalizeRecoveryCode code)) hs) = 1"
  shows "fst (loginWithEmail env now' violations dto db') = Inl (auth_failed ''Invalid two-factor code'')"
proof -
  have v: "violations = []" using assms(1) by (auto simp: loginWithEmail_def split: if_splits)
  obtain h where h: "us_passwordHash u0 = Some h" "ac_compare env (lr_password dto) h"
    "login_rest env now dto u0 db = (Inr (LoggedIn u tok), db')"
    using login_needs_password [OF assms(1)] assms(3) by (metis option.inject)
  have "h \<noteq> []" using assms(1,3) h(1) by (auto simp: loginWithEmail_def or_none_def truthy_def split: if_splits)
  have "verifyAndConsumeRecoveryCode env u0 code db = (Inr (True, u), db')"
    using h(3) assms(4,5,6) by (cases rule: second_factor_cases) auto
  from recovery_consumes [OF this assms(2,3)] obtain r where
    r: "List.find (ac_compare env (normalizeRecoveryCode code)) hs = Some r" "r \<in> set hs"
      "ac_compare env (normalizeRecoveryCode code) r"
      "u = u0\<lparr>us_recoveryHashes := Some (filter (\<lambda>x. x \<noteq> r) hs)\<rparr>" "update_user u db = (Inr u, db')"
    using assms(7) by (metis option.inject)
  let ?u = "written u0 u"
  have found: "find_user_by (\<lambda>u. us_email u = Some (lr_email dto)) db' = Some ?u"
    using update_found(6) [OF assms(2,3) _ r(5) _ assms(3)] found_row(2) [OF assms(2,3)] r(4) by (simp add: written_def)
  have u: "us_passwordHash ?u = Some h" "us_twoFactorEnabled ?u" "us_recoveryHashes ?u = Some (filter (\<lambda>x. x \<noteq> r) hs)"
    using h(1) assms(4) r(4) by (simp_all add: written_def)
  have "filter (ac_compare env (normalizeRecoveryCode code)) hs = [r]"
  proof -
    obtain a where a: "filter (ac_compare env (normalizeRecoveryCode code)) hs = [a]"
      using assms(8) by (auto simp: length_Suc_conv)
    have "r \<in> set (filter (ac_compare env (normalizeRecoveryCode code)) hs)" using r(2,3) by simp
    with a show ?thesis by simp
  qed
  then have "set (filter (ac_compare env (normalizeRecoveryCode code)) hs) = {r}" by simp
  then have "List.find (ac_compare env (normalizeRecoveryCode code)) (filter (\<lambda>x. x \<noteq> r) hs) = None"
    unfolding set_filter find_None_iff by blast
  then have "verifyAndConsumeRecoveryCode env ?u code db' = (Inr (False, ?u), db')"
    by (simp add: verifyAndConsumeRecoveryCode_def u(3) Let_def)
  moreover have "truthy (lr_recoveryCode dto)"
    using h(3) assms(4,5) by (auto simp: login_rest_def generatePartialToken_def truthy_def split: if_splits option.splits sum.splits)
  ultimately show ?thesis
    using login_after_password [OF found u(1) \<open>h \<noteq> []\<close> h(2)] u(2) assms(5,6) v
    by (simp add: login_rest_def second_factor_def or_none_def truthy_def)
qed

subsection \<open>Password reset\<close>

lemma hash_compare_login:
  assumes "find_user_by (\<lambda>u. us_email u = Some e) db = Some u" and "us_passwordHash u = Some h" "h \<noteq> []" "ac_compare env pw h"
    and "\<not> us_twoFactorEnabled u" "signToken (ac_auth env) now u = Inr tok"
  shows "loginWithEmail env now [] \<lparr>lr_email = e, lr_password = pw, lr_twoFactorCode = None, lr_recoveryCode = None\<rparr> db =
     (Inr (LoggedIn u tok), db)"
  using assms by (subst login_after_password) (auto simp: login_rest_def finish_login_def)

text \<open>The row of a user who asked for a reset, and the row after the reset.\<close>

definition with_reset :: "timestamp \<Rightarrow> string \<Rightarrow> user \<Rightarrow> user" where
  "with_reset now reset u = u\<lparr>us_passwordResetToken := Some reset, us_passwordResetTokenExpiry := Some (now + 60 * 60 * 1000)\<rparr>"

definition with_password :: "string \<Rightarrow> user \<Rightarrow> user" where
  "with_password h u = u\<lparr>us_passwordHash := Some h\<rparr>"

lemma written_rows:
  "written u (u\<lparr>us_passwordResetToken := Some reset, us_passwordResetTokenExpiry := Some e\<rparr>) =
     u\<lparr>us_passwordResetToken := Some reset, us_passwordResetTokenExpiry := Some e\<rparr>"
  "written u (u\<lparr>us_passwordHash := Some h, us_passwordResetToken := None, us_passwordResetTokenExpiry := None\<rparr>) =
     u\<lparr>us_passwordHash := Some h\<rparr>"
  by (simp_all add: written_def)

lemma forgotPassword_row:
  assumes "users_ok db" and "find_user_by (\<lambda>u. us_email u = Some e) db = Some u"
  shows "\<exists>db1. forgotPassword now reset e db = (Inr (), db1) \<and> adb_users db1 = tbl_put us_id (with_reset now reset u) (adb_users db) \<and>
     adb_tokens db1 = adb_tokens db"
proof -
  let ?u' = "u\<lparr>us_passwordResetToken := Some reset, us_passwordResetTokenExpiry := Some (now + 60 * 60 * 1000)\<rparr>"
  have t: "tbl_ok us_id (adb_users db)" using assms(1) by (simp add: users_ok_def)
  obtain db1 where up: "update_user ?u' db = (Inr ?u', db1)"
    using update_not_refused [OF assms, of ?u'] by (auto simp: written_rows unique_columns_def)
  from update_found(2,3) [OF t assms(2) _ up] up assms(2) show ?thesis
    by (simp add: forgotPassword_def written_rows with_reset_def)
qed

lemma resetPassword_row:
  assumes "users_ok db" and "find_user_by (\<lambda>u. us_passwordResetToken u = Some reset) db = Some u"
    and "us_passwordResetTokenExpiry u = Some e" "now \<le> e"
  shows "\<exists>db1. resetPassword env now salt reset pw db = (Inr (), db1) \<and>
     adb_users db1 = tbl_put us_id (with_password (ac_hash env salt pw) u) (adb_users db) \<and> adb_tokens db1 = adb_tokens db"
proof -
  let ?u' = "u\<lparr>us_passwordHash := Some (ac_hash env salt pw), us_passwordResetToken := None, us_passwordResetTokenExpiry := None\<rparr>"
  have t: "tbl_ok us_id (adb_users db)" using assms(1) by (simp add: users_ok_def)
  obtain db1 where up: "update_user ?u' db = (Inr ?u', db1)"
    using update_not_refused [OF assms(1,2), of ?u'] by (auto simp: written_rows unique_columns_def)
  from update_found(2,3) [OF t assms(2) _ up] up assms(2-4) show ?thesis
    by (simp add: resetPassword_def written_rows with_password_def)
qed

lemma only_reset_holder:
  assumes "tbl_ok us_id t" and "\<forall>v\<in>set t. us_passwordResetToken v \<noteq> Some reset" and "find_user (us_id u) t = Some u"
    and "us_id u' = us_id u" "us_passwordResetToken u' = Some reset"
  shows "tbl_find (\<lambda>u. us_passwordResetToken u = Some reset) (tbl_put us_id u' t) = Some u'"
proof -
  have "u \<in> set t" using assms(3) by (auto simp: find_user_def dest: tbl_find_SomeD)
  then show ?thesis using assms(2,4,5)
  proof (induction t)
    case (Cons x xs)
    then show ?case by (cases "us_id x = us_id u") (auto simp: tbl_simps)
  qed simp
qed

lemma users_ok_put:
  assumes "users_ok db" and "find_user_by p db = Some u" and "us_id u' = us_id u"
    and "map (\<lambda>c. c u') unique_columns = map (\<lambda>c. c u) unique_columns" and "adb_users db1 = tbl_put us_id u' (adb_users db)"
  shows "users_ok db1"
proof -
  have t: "tbl_ok us_id (adb_users db)" using assms(1) by (simp add: users_ok_def)
  have u: "u \<in> set (adb_users db)" using assms(2) by (auto simp: find_user_by_def dest: tbl_find_SomeD)
  have set1: "set (adb_users db1) = insert u' {x \<in> set (adb_users db). us_id x \<noteq> us_id u}"
    using set_tbl_put [OF t, of u'] assms(3,5) by simp
  have "user_clash u' = user_clash u" "user_clash x u' = user_clash x u" for x
    using assms(3,4) by (auto simp: user_clash_def unique_columns_def fun_eq_iff)
  then have "\<not> user_clash x y" if "x \<in> set (adb_users db1)" "y \<in> set (adb_users db1)" for x y
    using that assms(1) u unfolding set1 by (auto simp: users_ok_def user_refused_def list_all_iff list_ex_iff)
  then show ?thesis using t by (simp add: users_ok_def assms(5) tbl_simps user_refused_def list_all_iff list_ex_iff)
qed

text \<open>A user found by e-mail and by reset token, with a token that has not expired at \<open>now\<close>.\<close>

definition resettable :: "string \<Rightarrow> string \<Rightarrow> timestamp \<Rightarrow> user \<Rightarrow> 'tok account_db \<Rightarrow> bool" where
  "resettable e reset until u db \<longleftrightarrow> users_ok db \<and> find_user_by (\<lambda>u. us_email u = Some e) db = Some u \<and>
     find_user_by (\<lambda>u. us_passwordResetToken u = Some reset) db = Some u \<and> us_passwordResetTokenExpiry u = Some until"

lemmas reset_columns = with_reset_def with_password_def unique_columns_def

lemma found_after_put:
  assumes "users_ok db" and "find_user_by p db = Some u" and "us_id u' = us_id u" "p u'"
    and "adb_users db1 = tbl_put us_id u' (adb_users db)"
  shows "find_user_by p db1 = Some u'"
  using find_put_in_place [of p "adb_users db" u us_id u'] assms by (simp add: find_user_by_def users_ok_def)

lemma forgot_makes_resettable:
  assumes "users_ok db" and "find_user_by (\<lambda>u. us_email u = Some e) db = Some u"
    and "\<forall>v\<in>set (adb_users db). us_passwordResetToken v \<noteq> Some reset"
  obtains db1 where "forgotPassword t0 reset e db = (Inr (), db1)"
    "resettable e reset (t0 + 60 * 60 * 1000) (with_reset t0 reset u) db1"
proof -
  have t: "tbl_ok us_id (adb_users db)" using assms(1) by (simp add: users_ok_def)
  obtain db1 where d1: "forgotPassword t0 reset e db = (Inr (), db1)"
      "adb_users db1 = tbl_put us_id (with_reset t0 reset u) (adb_users db)"
    using forgotPassword_row [OF assms(1,2)] by blast
  have "users_ok db1" by (rule users_ok_put [OF assms(1,2) _ _ d1(2)]) (simp_all add: reset_columns)
  moreover have "find_user_by (\<lambda>u. us_email u = Some e) db1 = Some (with_reset t0 reset u)"
    using found_row(2) [OF t assms(2)] by (intro found_after_put [OF assms(1,2) _ _ d1(2)]) (simp_all add: reset_columns)
  moreover have "find_user_by (\<lambda>u. us_passwordResetToken u = Some reset) db1 = Some (with_reset t0 reset u)"
    using only_reset_holder [OF t assms(3) found_row(1) [OF t assms(2)], of "with_reset t0 reset u"]
    by (simp add: find_user_by_def d1(2) reset_columns)
  ultimately show ?thesis using that d1(1) by (simp add: resettable_def with_reset_def)
qed

lemma reset_keeps_resettable:
  assumes "resettable e reset until u db" and "now \<le> until"
  obtains db1 where "resetPassword env now salt reset pw db = (Inr (), db1)"
    "resettable e reset until (with_password (ac_hash env salt pw) u) db1"
proof -
  have r: "users_ok db" "find_user_by (\<lambda>u. us_email u = Some e) db = Some u"
    "find_user_by (\<lambda>u. us_passwordResetToken u = Some reset) db = Some u" "us_passwordResetTokenExpiry u = Some until"
    using assms(1) by (simp_all add: resettable_def)
  have t: "tbl_ok us_id (adb_users db)" using r(1) by (simp add: users_ok_def)
  obtain db1 where d: "resetPassword env now salt reset pw db = (Inr (), db1)"
      "adb_users db1 = tbl_put us_id (with_password (ac_hash env salt pw) u) (adb_users db)"
    using resetPassword_row [OF r(1,3,4) assms(2)] by blast
  have "users_ok db1" by (rule users_ok_put [OF r(1,2) _ _ d(2)]) (simp_all add: reset_columns)
  moreover have "find_user_by (\<lambda>u. us_email u = Some e) db1 = Some (with_password (ac_hash env salt pw) u)"
    using found_row(2) [OF t r(2)] by (intro found_after_put [OF r(1,2) _ _ d(2)]) (simp_all add: reset_columns)
  moreover have "find_user_by (\<lambda>u. us_passwordResetToken u = Some reset) db1 = Some (with_password (ac_hash env salt pw) u)"
    using found_row(2) [OF t r(3)] by (intro found_after_put [OF r(1,3) _ _ d(2)]) (simp_all add: reset_columns)
  ultimately show ?thesis using that d(1) r(4) by (simp add: resettable_def with_password_def)
qed

text \<open>
  Asking for a reset and resetting within the hour sets the password: the user then logs in with the new
  password (when two-factor authentication is off). The reset token is not consumed: with it the password can be
  set again, and the login follows that one.
\<close>

theorem password_reset_round_trip:
  assumes "users_ok db" and "find_user_by (\<lambda>u. us_email u = Some e) db = Some u" and "\<not> us_twoFactorEnabled u"
    and "\<forall>v\<in>set (adb_users db). us_passwordResetToken v \<noteq> Some reset"
    and "\<forall>salt p. ac_compare env p (ac_hash env salt p) \<and> ac_hash env salt p \<noteq> []"
    and "t1 \<le> t0 + 60 * 60 * 1000" "t2 \<le> t0 + 60 * 60 * 1000" and "ae_JWT_SECRET (ac_auth env) = Some s" "s \<noteq> []"
  shows "let db1 = snd (forgotPassword t0 reset e db); db2 = snd (resetPassword env t1 salt reset pw db1);
       db3 = snd (resetPassword env t2 salt' reset pw' db2);
       login = (\<lambda>p. loginWithEmail env t3 [] \<lparr>lr_email = e, lr_password = p, lr_twoFactorCode = None, lr_recoveryCode = None\<rparr>) in
     fst (resetPassword env t1 salt reset pw db1) = Inr () \<and>
     (\<exists>u' tok. fst (login pw db2) = Inr (LoggedIn u' tok) \<and> us_id u' = us_id u) \<and>
     fst (resetPassword env t2 salt' reset pw' db2) = Inr () \<and>
     (\<exists>u' tok. fst (login pw' db3) = Inr (LoggedIn u' tok) \<and> us_id u' = us_id u)"
proof -
  obtain db1 where d1: "forgotPassword t0 reset e db = (Inr (), db1)"
    "resettable e reset (t0 + 60 * 60 * 1000) (with_reset t0 reset u) db1"
    by (rule forgot_makes_resettable [OF assms(1,2,4)])
  obtain db2 where d2: "resetPassword env t1 salt reset pw db1 = (Inr (), db2)"
    "resettable e reset (t0 + 60 * 60 * 1000) (with_password (ac_hash env salt pw) (with_reset t0 reset u)) db2"
    by (rule reset_keeps_resettable [OF d1(2) assms(6)])
  obtain db3 where d3: "resetPassword env t2 salt' reset pw' db2 = (Inr (), db3)"
    "resettable e reset (t0 + 60 * 60 * 1000)
       (with_password (ac_hash env salt' pw') (with_password (ac_hash env salt pw) (with_reset t0 reset u))) db3"
    by (rule reset_keeps_resettable [OF d2(2) assms(7)])
  have tok: "signToken (ac_auth env) t3 v = Inr (ae_sign (ac_auth env) s (user_claims v) (t3 + seconds 900))" for v
    using assms(8,9) by (simp add: signToken_def or_none_def truthy_def)
  note found = d2(2) [unfolded resettable_def] d3(2) [unfolded resettable_def]
  show ?thesis
    using hash_compare_login [OF _ _ _ _ _ tok, where db = db2 and h = "ac_hash env salt pw" and pw = pw and e = e]
      hash_compare_login [OF _ _ _ _ _ tok, where db = db3 and h = "ac_hash env salt' pw'" and pw = pw' and e = e]
      found assms(3,5)
    by (simp add: d1(1) d2(1) d3(1) Let_def reset_columns)
qed

subsection \<open>Logins without proof of identity\<close>

lemma link_not_refused:
  assumes "users_ok db" and "find_user_by p db = Some u" and "find_user_by (\<lambda>u. us_privyUserId u = Some pid) db = None"
  shows "\<exists>db1. update_user (u\<lparr>us_privyUserId := Some pid\<rparr>) db = (Inr (u\<lparr>us_privyUserId := Some pid\<rparr>), db1) \<and>
     adb_tokens db1 = adb_tokens db"
proof -
  let ?u' = "u\<lparr>us_privyUserId := Some pid\<rparr>"
  have t: "tbl_ok us_id (adb_users db)" using assms(1) by (simp add: users_ok_def)
  have u: "u \<in> set (adb_users db)" using assms(2) by (auto simp: find_user_by_def dest: tbl_find_SomeD)
  have w: "written u ?u' = ?u'" by (simp add: written_def)
  have none: "us_privyUserId v \<noteq> Some pid" if "v \<in> set (adb_users db)" for v
    using assms(3) that by (auto simp: find_user_by_def tbl_find_None_iff)
  have "\<not> user_clash ?u' v" if "v \<in> set (adb_users db)" for v
  proof -
    have "\<not> user_clash u v" using assms(1) u that by (auto simp: users_ok_def user_refused_def list_all_iff list_ex_iff)
    with none [OF that] show ?thesis by (auto simp: user_clash_def unique_columns_def)
  qed
  then have "\<not> user_refused ?u' (adb_users db)" by (auto simp: user_refused_def list_ex_iff)
  then show ?thesis
    using found_row(1) [OF t assms(2)] w by (simp add: update_user_def save_user_def Let_def)
qed

text \<open>
  The provider login reads the payload of the token it is given and checks no signature: with any header and
  any signature, a payload that names an unused provider identity and the e-mail of a verified account that is not
  linked yet opens a session as that account, with the account's role.
\<close>

theorem provider_login_checks_no_signature:
  assumes "users_ok db" and "split_dots (js_trim idToken) = [header, body, signature]" and "ac_decode env body = Some p"
    and "pp_sub p = Some pid" "pid \<noteq> []" "pp_email p = Some e" "e \<noteq> []"
      "pp_wallet_address p = None" "pp_walletAddress p = None" "pp_linked_accounts p = []"
    and "find_user_by (\<lambda>u. us_privyUserId u = Some pid) db = None"
    and "find_user_by (\<lambda>u. us_email u = Some e \<and> us_emailVerified u) db = Some u" "us_privyUserId u = None" "us_deletedAt u = None"
    and "ae_JWT_SECRET (ac_auth env) = Some s" "s \<noteq> []"
    and "signRefreshToken (ac_auth env) now jti u \<notin> set (map rt_token (adb_tokens db))"
  shows "\<exists>access refresh. fst (privyLogin env now uid jti uuid idToken db) =
     Inr (u\<lparr>us_privyUserId := Some pid\<rparr>, access, refresh) \<and>
     access = ae_sign (ac_auth env) s (user_claims u) (now + seconds 900)"
proof -
  let ?u' = "u\<lparr>us_privyUserId := Some pid\<rparr>"
  have t: "tbl_ok us_id (adb_users db)" using assms(1) by (simp add: users_ok_def)
  have email: "us_email u = Some e" using found_row(2) [OF t assms(12)] by simp
  obtain db1 where up: "update_user ?u' db = (Inr ?u', db1)" "adb_tokens db1 = adb_tokens db"
    using link_not_refused [OF assms(1,12,11)] by blast
  have merge: "autoMergeDuringLogin pid (Some e) None db = (Inr (Some ?u'), db1)"
    using assms(7,11-14) up(1) by (simp add: autoMergeDuringLogin_def Let_def truthy_def)
  have sync: "sync_user p None ?u' = (?u', False)"
    using assms(6,10) email
    by (simp add: sync_user_def sync_email_def sync_wallet_def sync_google_def sync_twitter_def external_wallets_def
        account_of_def truthy_def Let_def)
  have fresh: "signRefreshToken (ac_auth env) now jti ?u' \<notin> set (map rt_token (adb_tokens db1))"
    using assms(17) by (simp add: up(2) signRefreshToken_def)
  have claims: "user_claims ?u' = user_claims u" by (simp add: user_claims_def)
  have "js_trim idToken \<noteq> []" using assms(2) by auto
  then show ?thesis
    using session_for_Inr [OF assms(15,16) fresh, of uuid] merge sync assms(2-6,8,9) claims
    by (auto simp: privyLogin_def Let_def truthy_def privy_account_def split: prod.splits)
qed

text \<open>
  The wallet login asks for no proof of the wallet either: whoever knows the e-mail of an account gets a nonce
  for it and a session from a message that repeats the nonce, and also from an empty message.
\<close>

theorem wallet_login_needs_only_email:
  assumes "find_user_by (\<lambda>u. us_email u = Some e) db = Some u" and "e \<noteq> []" and "nonce \<noteq> []" "list_all word_char nonce"
    and "ae_JWT_SECRET (ac_auth env) = Some s" "s \<noteq> []"
    and "signRefreshToken (ac_auth env) now jti u \<notin> set (map rt_token (adb_tokens db))"
  shows "\<exists>refresh. fst (wallet_login env now jti uuid 0 (''Nonce: '' @ nonce) e (snd (getNonce now nonce e db))) =
        Inr (u, ae_sign (ac_auth env) s (user_claims u) (now + seconds 900), refresh) \<and>
      fst (wallet_login env now jti uuid 0 [] e db) = Inr (u, ae_sign (ac_auth env) s (user_claims u) (now + seconds 900), refresh)"
proof -
  let ?db1 = "snd (getNonce now nonce e db)" and ?tok = "signRefreshToken (ac_auth env) now jti u"
  have db1: "adb_users ?db1 = adb_users db" "adb_tokens ?db1 = adb_tokens db" "stored_nonce now e ?db1 = Some nonce"
    using assms(2) by (simp_all add: getNonce_def stored_nonce_def seconds_def)
  have "takeWhile word_char nonce = nonce" using assms(4) by (simp add: list_all_iff takeWhile_eq_all_conv)
  then have msg: "nonce_in (''Nonce: '' @ nonce) = Some nonce" using assms(3) by (simp del: takeWhile_eq_all_conv add: Let_def)
  have as: "fst (login_as env now jti uuid e d) = Inr (u, ae_sign (ac_auth env) s (user_claims u) (now + seconds 900), ?tok)"
    if "adb_users d = adb_users db" "adb_tokens d = adb_tokens db" for d :: "'a account_db"
  proof -
    have "find_user_by (\<lambda>u. us_email u = Some e) d = Some u" using assms(1) that(1) by (simp add: find_user_by_def)
    moreover have "?tok \<notin> set (map rt_token (adb_tokens d))" using assms(7) that(2) by simp
    ultimately show ?thesis
      using session_for_Inr [OF assms(5,6), of now jti u d uuid] by (auto simp: login_as_def split: prod.splits)
  qed
  show ?thesis
    using as [of "?db1\<lparr>acc_nonces := (acc_nonces ?db1)(e := None)\<rparr>"] as [of db] db1 msg assms(3)
    by (simp add: wallet_login_def or_none_def truthy_def)
qed

lemma session_signs:
  assumes "session_for env now jti uuid u db = (Inr (access, refresh), db1)"
  shows "signToken (ac_auth env) now u = Inr access"
  using assms by (auto simp: session_for_def open_session_def Let_def split: sum.splits prod.splits option.splits)

lemma insert_user_Inr: "insert_user u db = (Inr v, db1) \<Longrightarrow> v = u"
  by (auto simp: insert_user_def split: if_splits)

text \<open>
  A self-registration gives the account whatever role the request names, administrator roles included, and its
  first token is signed for that role at once.
\<close>

theorem registration_grants_requested_role:
  assumes "registerWithEmail env now uid salt vtoken jti uuid violations dto db = (Inr (u, access, refresh), db')"
  shows "us_role u = rg_role dto \<and> signToken (ac_auth env) now u = Inr access"
proof -
  obtain v db1 db2 where s: "insert_user (registered_user env now uid salt vtoken dto) db = (Inr v, db1)"
    "session_for env now jti uuid v db1 = (Inr (access, refresh), db2)" "u = v"
    using assms by (auto simp: registerWithEmail_def split: if_splits sum.splits prod.splits)
  then have "u = registered_user env now uid salt vtoken dto" using insert_user_Inr by metis
  then show ?thesis using session_signs [OF s(2)] s(3) by (simp add: registered_user_def)
qed

subsection \<open>Concrete runs\<close>

text \<open>
  A library for runs: tokens are their contents, a hash is its plain text after a mark, the authenticator's code is
  its secret, and one payload decodes.
\<close>

definition sample_payload :: privy_payload where
  "sample_payload = \<lparr>pp_sub = Some ''did'', pp_id = None, pp_email = Some ''a'', pp_email_verified = False,
     pp_wallet_address = None, pp_walletAddress = None, pp_linked_accounts = []\<rparr>"

definition sample_env :: "plain_token account_env" where
  "sample_env = \<lparr>ac_auth = plain_env, ac_hash = (\<lambda>salt p. CHR ''#'' # p), ac_compare = (\<lambda>p h. h = CHR ''#'' # p),
     ac_totp = (\<lambda>now secret code. code = secret), ac_decode = (\<lambda>b. if b = ''p'' then Some sample_payload else None)\<rparr>"

definition sample_user :: user where
  "sample_user = (blank_user ''u'')\<lparr>us_email := Some ''a'', us_passwordHash := Some ''#pw'', us_emailVerified := True\<rparr>"

definition two_factor_user :: user where
  "two_factor_user = sample_user\<lparr>us_twoFactorEnabled := True, us_twoFactorSecret := Some ''s'',
     us_recoveryHashes := Some [''#AB'', ''#CD'']\<rparr>"

definition db_of :: "user \<Rightarrow> plain_token account_db" where
  "db_of u = \<lparr>adb_users = [u], adb_tokens = [], acc_nonces = (\<lambda>_. None)\<rparr>"

definition recovery_login :: login_request where
  "recovery_login = \<lparr>lr_email = ''a'', lr_password = ''pw'', lr_twoFactorCode = None, lr_recoveryCode = Some '' ab ''\<rparr>"

lemma sample_facts [simp]:
  "ac_auth sample_env = plain_env" "ac_hash sample_env salt x = CHR ''#'' # x"
  "ac_compare sample_env x h \<longleftrightarrow> h = CHR ''#'' # x" "ac_totp sample_env now secret code \<longleftrightarrow> code = secret"
  "ac_decode sample_env b = (if b = ''p'' then Some sample_payload else None)"
  "ae_JWT_SECRET plain_env = Some ''k''" "adb_users (db_of u) = [u]" "adb_tokens (db_of u) = []"
  "find_user_by p (db_of u) = (if p u then Some u else None)"
  by (simp_all add: sample_env_def plain_env_def db_of_def find_user_by_def tbl_simps)

lemma db_of_tbl: "tbl_ok us_id (adb_users (db_of u))"
  by (simp add: tbl_ok_def)

lemma db_of_ok: "users_ok (db_of u)"
  using db_of_tbl [of u] by (simp add: users_ok_def user_refused_def user_clash_def)

lemma db_of_update: "us_id u' = us_id u \<Longrightarrow> update_user u' (db_of u) = (Inr u', db_of (written u u'))"
  by (simp add: update_user_def save_user_def find_user_def tbl_simps user_refused_def user_clash_def db_of_def Let_def)

lemma code_normal: "normalizeRecoveryCode '' ab '' = ''AB''"
  by code_simp

lemma sample_users:
  "us_id sample_user = ''u''" "us_email sample_user = Some ''a''" "us_passwordHash sample_user = Some ''#pw''"
  "us_emailVerified sample_user" "\<not> us_twoFactorEnabled sample_user" "us_privyUserId sample_user = None"
  "us_deletedAt sample_user = None" "us_passwordResetToken sample_user = None"
  "us_id two_factor_user = ''u''" "us_email two_factor_user = Some ''a''" "us_passwordHash two_factor_user = Some ''#pw''"
  "us_twoFactorEnabled two_factor_user" "us_recoveryHashes two_factor_user = Some [''#AB'', ''#CD'']"
  by (simp_all add: two_factor_user_def sample_user_def blank_user_def)

definition used_user :: user where
  "used_user = two_factor_user\<lparr>us_recoveryHashes := Some [''#CD'']\<rparr>"

lemma recovery_run:
  "loginWithEmail sample_env 0 [] recovery_login (db_of two_factor_user) =
     (Inr (LoggedIn used_user (''k'', user_claims used_user, 0 + seconds 900)), db_of used_user)"
proof -
  have "us_id used_user = us_id two_factor_user" "written two_factor_user used_user = used_user"
    by (simp_all add: used_user_def written_def)
  then have "update_user used_user (db_of two_factor_user) = (Inr used_user, db_of used_user)" by (simp add: db_of_update)
  then have "verifyAndConsumeRecoveryCode sample_env two_factor_user '' ab '' (db_of two_factor_user) =
      (Inr (True, used_user), db_of used_user)"
    by (simp add: verifyAndConsumeRecoveryCode_def code_normal sample_users used_user_def Let_def)
  then show ?thesis
    by (simp add: recovery_login_def login_after_password [of _ _ two_factor_user "''#pw''"] sample_users login_rest_def
        second_factor_def finish_login_def or_none_def truthy_def plain_access)
qed

theorem password_login_checks_factors_witness:
  "\<exists>u0 h. find_user_by (\<lambda>u. us_email u = Some ''a'') (db_of two_factor_user) = Some u0 \<and> us_passwordHash u0 = Some h \<and>
     ac_compare sample_env ''pw'' h"
  using password_login_checks_factors [OF recovery_run db_of_tbl] by (auto simp: recovery_login_def sample_users split: if_splits)

theorem recovery_code_works_once_witness:
  "fst (loginWithEmail sample_env 1 [] recovery_login (db_of used_user)) = Inl (auth_failed ''Invalid two-factor code'')"
  by (rule recovery_code_works_once [OF recovery_run db_of_tbl, of two_factor_user "'' ab ''" "[''#AB'', ''#CD'']"])
    (simp_all add: sample_users recovery_login_def code_normal)

theorem password_reset_round_trip_witness:
  "let db1 = snd (forgotPassword 0 ''r'' ''a'' (db_of sample_user)) in
   fst (resetPassword sample_env 5 ''salt'' ''r'' ''new'' db1) = Inr ()"
  using password_reset_round_trip [of "db_of sample_user" "''a''" sample_user "''r''" sample_env 5 0 6 "''k''" "''salt''" "''new''"]
  by (simp add: db_of_ok sample_users Let_def)

lemma forged_parts: "split_dots (js_trim ''h.p.forged'') = [''h'', ''p'', ''forged'']"
  by code_simp

theorem provider_login_checks_no_signature_witness:
  "\<exists>access refresh. fst (privyLogin sample_env 0 ''n'' ''j'' ''x'' ''h.p.forged'' (db_of sample_user)) =
     Inr (sample_user\<lparr>us_privyUserId := Some ''did''\<rparr>, access, refresh)"
  using provider_login_checks_no_signature [OF db_of_ok [of sample_user] forged_parts, where env = sample_env and p = sample_payload and
      pid = "''did''" and e = "''a''" and u = sample_user and s = "''k''" and now = 0 and jti = "''j''" and uid = "''n''" and uuid = "''x''"]
  by (simp add: sample_users sample_payload_def del: split_paired_Ex) blast

theorem wallet_login_needs_only_email_witness:
  "\<exists>access refresh. fst (wallet_login sample_env 0 ''j'' ''x'' 0 [] ''a'' (db_of sample_user)) = Inr (sample_user, access, refresh)"
  using wallet_login_needs_only_email [where e = "''a''" and db = "db_of sample_user" and u = sample_user and nonce = "''n0''" and
      env = sample_env and s = "''k''" and now = 0 and jti = "''j''" and uuid = "''x''"]
  by (simp add: sample_users word_char_def del: split_paired_Ex) blast

definition admin_registration :: registration where
  "admin_registration = \<lparr>rg_email = ''b'', rg_password = ''pw'', rg_role = UR_SUPER_ADMIN, rg_username = None, rg_name = None\<rparr>"

theorem registration_grants_requested_role_witness:
  "\<exists>u access refresh. fst (registerWithEmail sample_env 0 ''v'' ''s'' ''t'' ''j'' ''x'' [] admin_registration (db_of sample_user)) =
     Inr (u, access, refresh) \<and> us_role u = UR_SUPER_ADMIN"
proof -
  let ?u = "registered_user sample_env 0 ''v'' ''s'' ''t'' admin_registration"
  let ?db = "(db_of sample_user)\<lparr>adb_users := [sample_user, ?u]\<rparr>"
  have "insert_user ?u (db_of sample_user) = (Inr ?u, ?db)"
    by (simp add: insert_user_def user_refused_def user_clash_def unique_columns_def sample_users registered_user_def
        admin_registration_def blank_user_def)
  moreover obtain access refresh db2 where "session_for sample_env 0 ''j'' ''x'' ?u ?db = (Inr (access, refresh), db2)"
    using session_for_Inr [where env = sample_env and s = "''k''" and db = ?db] by simp blast
  ultimately have "registerWithEmail sample_env 0 ''v'' ''s'' ''t'' ''j'' ''x'' [] admin_registration (db_of sample_user) =
      (Inr (?u, access, refresh), db2)"
    by (simp add: registerWithEmail_def sample_users admin_registration_def)
  with registration_grants_requested_role [OF this] show ?thesis
    by (simp add: admin_registration_def del: split_paired_Ex)
qed

end
