(* ===== verification/Jwks_Cache.thy ===== *)
theory Jwks_Cache
  imports Privy_Resilience "HOL-Library.AList" "HOL-Library.Multiset"
begin

text \<open>
  The configuration of the identity provider (\<open>config/privyAuth.ts\<close>), its errors (\<open>privy/PrivyErrors.ts\<close>) and
  the cache of its signing keys (\<open>privy/PrivyJwksCache.ts\<close>). \<open>createPublicKey\<close> is a parameter, \<open>None\<close> when it
  throws; the fetch is an outcome that arrives at a later step, through the breaker and the retries of
  \<open>Privy_Resilience\<close>. Callers that overlap are modelled as a system of one cache, at most one fetch in flight and
  the callers waiting for it. Metrics and log lines are left out, except the line of a refresh.
\<close>

subsection \<open>Configuration\<close>

text \<open>\<open>ep_\<close> fields are the environment; an integer is what \<open>Number.parseInt\<close> reads, \<open>None\<close> for \<open>NaN\<close>.\<close>

record privy_environment =
  ep_APP_ID :: "string option"
  ep_APP_SECRET :: "string option"
  ep_API_URL :: "string option"
  ep_JWKS_URL :: "string option"
  ep_JWKS_TTL_MS :: "int option"
  ep_JWKS_STALE_TTL_MS :: "int option"
  ep_JWKS_NEGATIVE_TTL_MS :: "int option"
  ep_REQUEST_TIMEOUT_MS :: "int option"
  ep_RETRY_ATTEMPTS :: "int option"
  ep_RETRY_BASE_DELAY_MS :: "int option"
  ep_RETRY_MAX_DELAY_MS :: "int option"
  ep_CIRCUIT_FAILURE_THRESHOLD :: "int option"
  ep_CIRCUIT_RESET_TIMEOUT_MS :: "int option"
  ep_CIRCUIT_STARTS_OPEN :: "string option"
  ep_ALLOW_STALE_KEYS :: "string option"

definition intVar :: "int option \<Rightarrow> int \<Rightarrow> int" where
  "intVar parsed fallback = (case parsed of Some n \<Rightarrow> if n > 0 then n else fallback | None \<Rightarrow> fallback)"

definition boolVar :: "string option \<Rightarrow> bool \<Rightarrow> bool" where
  "boolVar raw fallback = (case or_none raw of None \<Rightarrow> fallback | Some r \<Rightarrow> ascii_lower r = ''true'')"

record privy_config =
  pc_appId :: string
  pc_appSecret :: "string option"
  pc_apiUrl :: string
  pc_jwksUrl :: string
  pc_jwksTtlMs :: int
  pc_jwksStaleTtlMs :: int
  pc_jwksNegativeTtlMs :: int
  pc_requestTimeoutMs :: int
  pc_retryAttempts :: int
  pc_retryBaseDelayMs :: int
  pc_retryMaxDelayMs :: int
  pc_circuitFailureThreshold :: int
  pc_circuitResetTimeoutMs :: int
  pc_circuitStartsOpen :: bool
  pc_allowStaleKeysOnError :: bool

definition or_string :: "string option \<Rightarrow> string \<Rightarrow> string" where
  "or_string v d = (case or_none v of None \<Rightarrow> d | Some s \<Rightarrow> s)"

definition strip_slashes :: "string \<Rightarrow> string" where
  "strip_slashes s = rev (dropWhile (\<lambda>c. c = CHR ''/'') (rev s))"

definition getPrivyConfig :: "(string \<Rightarrow> string) \<Rightarrow> privy_environment \<Rightarrow> js_error + privy_config" where
  "getPrivyConfig encodeURIComponent env =
     (let appId = js_trim (or_string (ep_APP_ID env) []);
          apiUrl = strip_slashes (or_string (ep_API_URL env) ''https://auth.privy.io/api'');
          jwksUrl = js_trim (or_string (ep_JWKS_URL env)
            (apiUrl @ ''/v1/apps/'' @ encodeURIComponent appId @ ''/.well-known/jwks.json''))
      in if appId = [] then Inl (PlainErr ''PRIVY_APP_ID is not set'' None)
         else Inr \<lparr>pc_appId = appId, pc_appSecret = or_none (Some (js_trim (or_string (ep_APP_SECRET env) []))),
           pc_apiUrl = apiUrl, pc_jwksUrl = jwksUrl,
           pc_jwksTtlMs = intVar (ep_JWKS_TTL_MS env) (60 * 60 * 1000),
           pc_jwksStaleTtlMs = intVar (ep_JWKS_STALE_TTL_MS env) (24 * 60 * 60 * 1000),
           pc_jwksNegativeTtlMs = intVar (ep_JWKS_NEGATIVE_TTL_MS env) (60 * 1000),
           pc_requestTimeoutMs = intVar (ep_REQUEST_TIMEOUT_MS env) 5000,
           pc_retryAttempts = intVar (ep_RETRY_ATTEMPTS env) 3,
           pc_retryBaseDelayMs = intVar (ep_RETRY_BASE_DELAY_MS env) 200,
           pc_retryMaxDelayMs = intVar (ep_RETRY_MAX_DELAY_MS env) 2000,
           pc_circuitFailureThreshold = intVar (ep_CIRCUIT_FAILURE_THRESHOLD env) 5,
           pc_circuitResetTimeoutMs = intVar (ep_CIRCUIT_RESET_TIMEOUT_MS env) 30000,
           pc_circuitStartsOpen = boolVar (ep_CIRCUIT_STARTS_OPEN env) False,
           pc_allowStaleKeysOnError = boolVar (ep_ALLOW_STALE_KEYS env) True\<rparr>)"

subsection \<open>Errors\<close>

datatype privy_failure =
    PrivyInvalidTokenError string
  | PrivyUnknownKeyError string
  | PrivyKeyUnavailableError string
  | PrivyMalformedTokenError string
  | PrivyUserNotSyncedError string
  | PrivySessionRevokedError string

fun failure_message :: "privy_failure \<Rightarrow> string" where
  "failure_message (PrivyInvalidTokenError m) = m"
| "failure_message (PrivyUnknownKeyError m) = m"
| "failure_message (PrivyKeyUnavailableError m) = m"
| "failure_message (PrivyMalformedTokenError m) = m"
| "failure_message (PrivyUserNotSyncedError _) = ''No local account is linked to this Privy identity yet''"
| "failure_message (PrivySessionRevokedError _) = ''This session has been revoked''"

definition isPrivyAvailabilityFailure :: "privy_failure \<Rightarrow> bool" where
  "isPrivyAvailabilityFailure e = (case e of PrivyKeyUnavailableError _ \<Rightarrow> True | _ \<Rightarrow> False)"

subsection \<open>Importing keys\<close>

record jwk =
  jwk_kid :: "string option"
  jwk_kty :: "string option"
  jwk_crv :: "string option"
  jwk_alg :: "string option"
  jwk_use :: "string option"
  jwk_x :: "string option"
  jwk_y :: "string option"

definition importPrivyJwk :: "(jwk \<Rightarrow> 'k option) \<Rightarrow> jwk \<Rightarrow> 'k option" where
  "importPrivyJwk createPublicKey j =
     (if jwk_kty j \<noteq> Some ''EC'' \<or> jwk_crv j \<noteq> Some ''P-256'' then None
      else if truthy (jwk_use j) \<and> jwk_use j \<noteq> Some ''sig'' then None
      else if truthy (jwk_alg j) \<and> jwk_alg j \<noteq> Some ''ES256'' then None
      else if \<not> truthy (jwk_kid j) then None
      else if jwk_x j = None \<or> jwk_y j = None then None
      else createPublicKey j)"

text \<open>The map filled from a document, a later entry with the same \<open>kid\<close> replacing an earlier one.\<close>

definition import_keys :: "(jwk \<Rightarrow> 'k option) \<Rightarrow> jwk list \<Rightarrow> (string \<times> 'k) list" where
  "import_keys createPublicKey doc =
     fold (\<lambda>j keys. case (importPrivyJwk createPublicKey j, jwk_kid j) of
         (Some k, Some kid) \<Rightarrow> AList.update kid k keys | _ \<Rightarrow> keys) doc []"

subsection \<open>The cache\<close>

record 'k jwks_entry =
  ke_keys :: "(string \<times> 'k) list"
  ke_fetchedAt :: timestamp
  ke_expiresAt :: timestamp
  ke_hardExpireAt :: timestamp

record 'k jwks_cache =
  kc_entry :: "'k jwks_entry option"
  kc_unknownKids :: "(string \<times> timestamp) list"
  kc_lastFetchAt :: "timestamp option"
  kc_breaker :: privy_breaker

text \<open>What the cache is built over: the configuration, the import of a key, and the text of a failed fetch.\<close>

record 'k jwks_world =
  kw_config :: privy_config
  kw_createPublicKey :: "jwk \<Rightarrow> 'k option"
  kw_message :: "privy_error \<Rightarrow> string"

definition new_PrivyJwksCache :: "privy_config \<Rightarrow> timestamp \<Rightarrow> 'k jwks_cache" where
  "new_PrivyJwksCache cfg now = \<lparr>kc_entry = None, kc_unknownKids = [], kc_lastFetchAt = None,
     kc_breaker = createPrivyCircuitBreaker (pc_circuitFailureThreshold cfg) (pc_circuitResetTimeoutMs cfg)
       (pc_circuitStartsOpen cfg) now\<rparr>"

definition unknown_key :: "string \<Rightarrow> privy_failure" where
  "unknown_key kid = PrivyUnknownKeyError (''No Privy signing key matches kid \"'' @ kid @ ''\"'')"

definition noteUnknownKid :: "timestamp \<Rightarrow> string \<Rightarrow> 'k jwks_cache \<Rightarrow> 'k jwks_cache" where
  "noteUnknownKid now kid c = c\<lparr>kc_unknownKids := AList.update kid now (kc_unknownKids c)\<rparr>"

definition isUnknownKidCached :: "privy_config \<Rightarrow> timestamp \<Rightarrow> string \<Rightarrow> 'k jwks_cache \<Rightarrow> bool \<times> 'k jwks_cache" where
  "isUnknownKidCached cfg now kid c =
     (case map_of (kc_unknownKids c) kid of
        None \<Rightarrow> (False, c)
      | Some seenAt \<Rightarrow>
          if now - seenAt \<ge> pc_jwksNegativeTtlMs cfg then (False, c\<lparr>kc_unknownKids := AList.delete kid (kc_unknownKids c)\<rparr>)
          else (True, c))"

definition canRefetch :: "privy_config \<Rightarrow> timestamp \<Rightarrow> 'k jwks_cache \<Rightarrow> bool" where
  "canRefetch cfg now c =
     (case kc_lastFetchAt c of None \<Rightarrow> True | Some l \<Rightarrow> now - l \<ge> pc_jwksNegativeTtlMs cfg)"

definition staleEntryOrThrow ::
  "privy_config \<Rightarrow> timestamp \<Rightarrow> privy_failure \<Rightarrow> 'k jwks_cache \<Rightarrow> privy_failure + 'k jwks_entry" where
  "staleEntryOrThrow cfg now e c =
     (case kc_entry c of
        Some entry \<Rightarrow> if pc_allowStaleKeysOnError cfg \<and> now < ke_hardExpireAt entry then Inr entry else Inl e
      | None \<Rightarrow> Inl e)"

definition fetch_failure :: "'k jwks_world \<Rightarrow> privy_error \<Rightarrow> privy_failure" where
  "fetch_failure w e = PrivyKeyUnavailableError
     (case e of CircuitOpenError _ \<Rightarrow> ''Privy is unavailable (circuit breaker open)''
      | _ \<Rightarrow> ''Privy JWKS fetch failed: '' @ kw_message w e)"

text \<open>\<open>fetchAndStore\<close> from the outcome of \<open>resilientCall\<close> on.\<close>

definition store_outcome ::
  "'k jwks_world \<Rightarrow> timestamp \<Rightarrow> (privy_error + jwk list) \<Rightarrow> 'k jwks_cache \<Rightarrow> (privy_failure + 'k jwks_entry) \<times> 'k jwks_cache" where
  "store_outcome w now r c =
     (let cfg = kw_config w in
      case r of
        Inl e \<Rightarrow> (staleEntryOrThrow cfg now (fetch_failure w e) c, c)
      | Inr doc \<Rightarrow>
          let keys = import_keys (kw_createPublicKey w) doc in
          if keys = []
          then (staleEntryOrThrow cfg now (PrivyKeyUnavailableError
                 ''Privy JWKS fetch failed: Privy JWKS response contained no usable ES256 keys'') c, c)
          else let entry = \<lparr>ke_keys = keys, ke_fetchedAt = now, ke_expiresAt = now + pc_jwksTtlMs cfg,
                            ke_hardExpireAt = now + pc_jwksStaleTtlMs cfg\<rparr>
               in (Inr entry, c\<lparr>kc_entry := Some entry, kc_lastFetchAt := Some now, kc_unknownKids := []\<rparr>))"

text \<open>
  \<open>doRefresh\<close> up to the network: it is answered at once by the cooldown or by an open breaker, or a fetch is
  under way, admitted in a state of the breaker.
\<close>

datatype 'k refresh_start = Resolved "privy_failure + 'k jwks_entry" | Fetching PrivyState

definition start_fetch :: "'k jwks_world \<Rightarrow> timestamp \<Rightarrow> 'k jwks_cache \<Rightarrow> 'k refresh_start \<times> 'k jwks_cache" where
  "start_fetch w now c =
     (case pb_enter now (kc_breaker c) of
        (Inl e, b) \<Rightarrow> (let (r, c1) = store_outcome w now (Inl e) (c\<lparr>kc_breaker := b\<rparr>) in (Resolved r, c1))
      | (Inr st, b) \<Rightarrow> (Fetching st, c\<lparr>kc_breaker := b\<rparr>))"

definition doRefresh :: "'k jwks_world \<Rightarrow> timestamp \<Rightarrow> 'k jwks_cache \<Rightarrow> 'k refresh_start \<times> 'k jwks_cache" where
  "doRefresh w now c =
     (if kc_entry c \<noteq> None \<and> \<not> canRefetch (kw_config w) now c
      then (Resolved (staleEntryOrThrow (kw_config w) now
              (PrivyKeyUnavailableError ''Privy key set refresh is in its cooldown window'') c), c)
      else start_fetch w now c)"

definition end_fetch ::
  "'k jwks_world \<Rightarrow> timestamp \<Rightarrow> PrivyState \<Rightarrow> (privy_error + jwk list) \<Rightarrow> 'k jwks_cache \<Rightarrow>
   (privy_failure + 'k jwks_entry) \<times> 'k jwks_cache" where
  "end_fetch w now st r c =
     store_outcome w now r (c\<lparr>kc_breaker := pb_leave now st (case r of Inr _ \<Rightarrow> True | Inl _ \<Rightarrow> False) (kc_breaker c)\<rparr>)"

text \<open>\<open>getKey\<close> before its \<open>await\<close> (\<open>None\<close>: it needs a refresh) and after it.\<close>

definition getKey_lookup ::
  "privy_config \<Rightarrow> timestamp \<Rightarrow> string \<Rightarrow> 'k jwks_cache \<Rightarrow> (privy_failure + 'k) option \<times> 'k jwks_cache" where
  "getKey_lookup cfg now kid c0 =
     (if kid = [] then (Some (Inl (PrivyUnknownKeyError ''Token is missing a key id (kid) header'')), c0)
      else let (seen, c) = isUnknownKidCached cfg now kid c0 in
        if seen then (Some (Inl (unknown_key kid)), c)
        else (case kc_entry c of
            None \<Rightarrow> (None, c)
          | Some entry \<Rightarrow>
              if now < ke_expiresAt entry
              then (case map_of (ke_keys entry) kid of
                  Some k \<Rightarrow> (Some (Inr k), c)
                | None \<Rightarrow> if canRefetch cfg now c then (None, c)
                    else (Some (Inl (unknown_key kid)), noteUnknownKid now kid c))
              else (None, c)))"

definition getKey_resolve ::
  "timestamp \<Rightarrow> string \<Rightarrow> (privy_failure + 'k jwks_entry) \<Rightarrow> 'k jwks_cache \<Rightarrow> (privy_failure + 'k) \<times> 'k jwks_cache" where
  "getKey_resolve now kid r c =
     (case r of
        Inl e \<Rightarrow> (Inl e, c)
      | Inr entry \<Rightarrow>
          (case map_of (ke_keys entry) kid of
             Some k \<Rightarrow> (Inr k, c\<lparr>kc_unknownKids := AList.delete kid (kc_unknownKids c)\<rparr>)
           | None \<Rightarrow> (Inl (unknown_key kid), noteUnknownKid now kid c)))"

definition invalidate :: "'k jwks_cache \<Rightarrow> 'k jwks_cache" where
  "invalidate c = c\<lparr>kc_entry := None, kc_unknownKids := [], kc_lastFetchAt := None\<rparr>"

definition isDegraded :: "timestamp \<Rightarrow> 'k jwks_cache \<Rightarrow> bool" where
  "isDegraded now c \<longleftrightarrow> pb_state (pb_getState now (kc_breaker c)) = Open"

subsection \<open>Overlapping callers\<close>

text \<open>
  Time passes by \<open>JE_wait\<close>; a caller asks for a key; the fetch under way ends with an outcome. Callers that need a
  refresh while one is under way wait for it. \<open>js_answers\<close> is what each call returned and when; \<open>js_stored\<close> are the
  refreshes logged, with the document each stored.
\<close>

record 'k jwks_system =
  js_now :: timestamp
  js_cache :: "'k jwks_cache"
  js_flight :: "PrivyState option"
  js_waiters :: "string list"
  js_answers :: "(timestamp \<times> string \<times> (privy_failure + 'k)) list"
  js_stored :: "(timestamp \<times> jwk list) list"

datatype jwks_event = JE_wait nat | JE_get string | JE_done "privy_error + jwk list"

definition answer :: "string \<Rightarrow> (privy_failure + 'k) \<times> 'k jwks_cache \<Rightarrow> 'k jwks_system \<Rightarrow> 'k jwks_system" where
  "answer kid rc s = s\<lparr>js_cache := snd rc, js_answers := js_answers s @ [(js_now s, kid, fst rc)]\<rparr>"

definition resolve :: "(privy_failure + 'k jwks_entry) \<Rightarrow> string \<Rightarrow> 'k jwks_system \<Rightarrow> 'k jwks_system" where
  "resolve r kid s = answer kid (getKey_resolve (js_now s) kid r (js_cache s)) s"

fun jwks_step :: "'k jwks_world \<Rightarrow> jwks_event \<Rightarrow> 'k jwks_system \<Rightarrow> 'k jwks_system" where
  "jwks_step w (JE_wait n) s = s\<lparr>js_now := js_now s + int n\<rparr>"
| "jwks_step w (JE_get kid) s =
     (case getKey_lookup (kw_config w) (js_now s) kid (js_cache s) of
        (Some r, c) \<Rightarrow> answer kid (r, c) s
      | (None, c) \<Rightarrow>
          (case js_flight s of
             Some _ \<Rightarrow> s\<lparr>js_cache := c, js_waiters := js_waiters s @ [kid]\<rparr>
           | None \<Rightarrow>
               (case doRefresh w (js_now s) c of
                  (Resolved r, c1) \<Rightarrow> resolve r kid (s\<lparr>js_cache := c1\<rparr>)
                | (Fetching st, c1) \<Rightarrow> s\<lparr>js_cache := c1, js_flight := Some st, js_waiters := [kid]\<rparr>)))"
| "jwks_step w (JE_done r) s =
     (case js_flight s of
        None \<Rightarrow> s
      | Some st \<Rightarrow>
          let (res, c) = end_fetch w (js_now s) st r (js_cache s);
              stored = (case r of Inr doc \<Rightarrow> if import_keys (kw_createPublicKey w) doc = [] then [] else [(js_now s, doc)] | Inl _ \<Rightarrow> [])
          in fold (resolve res) (js_waiters s)
               (s\<lparr>js_cache := c, js_flight := None, js_waiters := [], js_stored := js_stored s @ stored\<rparr>))"

definition jwks_start :: "'k jwks_world \<Rightarrow> timestamp \<Rightarrow> 'k jwks_system" where
  "jwks_start w now = \<lparr>js_now = now, js_cache = new_PrivyJwksCache (kw_config w) now, js_flight = None, js_waiters = [],
     js_answers = [], js_stored = []\<rparr>"

subsection \<open>The invariant\<close>

definition config_ok :: "privy_config \<Rightarrow> bool" where
  "config_ok cfg \<longleftrightarrow> 0 < pc_jwksTtlMs cfg \<and> 0 < pc_jwksStaleTtlMs cfg \<and> 0 < pc_jwksNegativeTtlMs cfg"

lemma intVar_pos: "0 < d \<Longrightarrow> 0 < intVar v d"
  by (auto simp: intVar_def split: option.split)

lemma getPrivyConfig_ok: "getPrivyConfig enc env = Inr cfg \<Longrightarrow> config_ok cfg"
  by (auto simp: getPrivyConfig_def config_ok_def Let_def intVar_pos split: if_splits)

definition entry_of :: "'k jwks_world \<Rightarrow> timestamp \<times> jwk list \<Rightarrow> 'k jwks_entry" where
  "entry_of w p = (case p of (t, doc) \<Rightarrow> \<lparr>ke_keys = import_keys (kw_createPublicKey w) doc, ke_fetchedAt = t,
     ke_expiresAt = t + pc_jwksTtlMs (kw_config w), ke_hardExpireAt = t + pc_jwksStaleTtlMs (kw_config w)\<rparr>)"

text \<open>The cache holds exactly the last document stored.\<close>

definition holds_last :: "'k jwks_world \<Rightarrow> 'k jwks_system \<Rightarrow> bool" where
  "holds_last w s \<longleftrightarrow>
     (if js_stored s = [] then kc_entry (js_cache s) = None \<and> kc_lastFetchAt (js_cache s) = None
      else kc_entry (js_cache s) = Some (entry_of w (last (js_stored s))) \<and>
           kc_lastFetchAt (js_cache s) = Some (fst (last (js_stored s))) \<and> fst (last (js_stored s)) \<le> js_now s)"

definition answer_ok :: "'k jwks_world \<Rightarrow> (timestamp \<times> jwk list) list \<Rightarrow> timestamp \<times> string \<times> (privy_failure + 'k) \<Rightarrow> bool" where
  "answer_ok w stored a =
     (case a of (u, kid, Inr k) \<Rightarrow>
        list_ex (\<lambda>(t, doc). map_of (import_keys (kw_createPublicKey w) doc) kid = Some k \<and> t \<le> u \<and>
          u < t + max (pc_jwksTtlMs (kw_config w)) (pc_jwksStaleTtlMs (kw_config w))) stored
      | _ \<Rightarrow> True)"

definition spaced :: "int \<Rightarrow> timestamp list \<Rightarrow> bool" where
  "spaced gap ts \<longleftrightarrow> sorted_wrt (\<lambda>a b. a + gap \<le> b) ts"

definition jwks_ok :: "'k jwks_world \<Rightarrow> 'k jwks_system \<Rightarrow> bool" where
  "jwks_ok w s \<longleftrightarrow> holds_last w s \<and> (js_flight s = None \<longrightarrow> js_waiters s = []) \<and>
     (js_flight s \<noteq> None \<longrightarrow> canRefetch (kw_config w) (js_now s) (js_cache s)) \<and>
     spaced (pc_jwksNegativeTtlMs (kw_config w)) (map fst (js_stored s)) \<and>
     list_all (answer_ok w (js_stored s)) (js_answers s) \<and>
     list_all (\<lambda>(kid, seenAt). seenAt \<le> js_now s) (kc_unknownKids (js_cache s))"

lemma list_all_update: "list_all p m \<Longrightarrow> p (k, v) \<Longrightarrow> list_all p (AList.update k v m)"
  by (induction m) auto

lemma list_all_delete: "list_all p m \<Longrightarrow> list_all p (AList.delete k m)"
  by (auto simp: list_all_iff AList.delete_eq)

text \<open>What each part of a call leaves alone.\<close>

definition same_keys :: "timestamp \<Rightarrow> 'k jwks_cache \<Rightarrow> 'k jwks_cache \<Rightarrow> bool" where
  "same_keys now c c' \<longleftrightarrow> kc_entry c' = kc_entry c \<and> kc_lastFetchAt c' = kc_lastFetchAt c \<and>
     (list_all (\<lambda>(kid, seenAt). seenAt \<le> now) (kc_unknownKids c) \<longrightarrow> list_all (\<lambda>(kid, seenAt). seenAt \<le> now) (kc_unknownKids c'))"

lemma same_keys_trans: "same_keys now a b \<Longrightarrow> same_keys now b c \<Longrightarrow> same_keys now a c"
  by (auto simp: same_keys_def)

lemma same_keys_basic [simp]: "same_keys now c c" "same_keys now c (c\<lparr>kc_breaker := b\<rparr>)" "same_keys now c (noteUnknownKid now kid c)"
  "same_keys now c (c\<lparr>kc_unknownKids := AList.delete kid (kc_unknownKids c)\<rparr>)"
  by (auto simp: same_keys_def noteUnknownKid_def intro: list_all_update list_all_delete)

lemma lookup_same: "getKey_lookup cfg now kid c = (r, c') \<Longrightarrow> same_keys now c c'"
  by (auto simp: getKey_lookup_def isUnknownKidCached_def Let_def
      intro: same_keys_trans [OF same_keys_basic(4) same_keys_basic(3)] split: if_splits option.splits)

lemma lookup_hit:
  assumes "getKey_lookup cfg now kid c = (Some (Inr k), c')"
  obtains e where "kc_entry c = Some e" "now < ke_expiresAt e" "map_of (ke_keys e) kid = Some k"
  using assms by (auto simp: getKey_lookup_def isUnknownKidCached_def Let_def split: if_splits option.splits)

lemma resolve_same: "same_keys now c (snd (getKey_resolve now kid r c))"
  by (auto simp: getKey_resolve_def split: sum.splits option.splits)

lemma resolve_key:
  assumes "fst (getKey_resolve now kid r c) = Inr k"
  obtains e where "r = Inr e" "map_of (ke_keys e) kid = Some k"
  using assms by (auto simp: getKey_resolve_def split: sum.splits option.splits)

lemma stale_Inr: "staleEntryOrThrow cfg now e c = Inr entry \<Longrightarrow> kc_entry c = Some entry \<and> now < ke_hardExpireAt entry"
  by (auto simp: staleEntryOrThrow_def split: option.splits if_splits)

lemma doRefresh_resolved:
  assumes "doRefresh w now c = (Resolved r, c')"
  shows "same_keys now c c'" "r = Inr e \<Longrightarrow> kc_entry c = Some e \<and> now < ke_hardExpireAt e"
  using assms
  by (auto simp: doRefresh_def start_fetch_def store_outcome_def Let_def staleEntryOrThrow_def
      split: if_splits sum.splits prod.splits option.splits)

lemma doRefresh_fetching:
  assumes "doRefresh w now c = (Fetching st, c')"
  shows "same_keys now c c'" "kc_entry c \<noteq> None \<Longrightarrow> canRefetch (kw_config w) now c"
  using assms
  by (auto simp: doRefresh_def start_fetch_def Let_def split: if_splits sum.splits prod.splits option.splits)

text \<open>An entry that may answer now.\<close>

definition usable :: "'k jwks_world \<Rightarrow> 'k jwks_system \<Rightarrow> 'k jwks_entry \<Rightarrow> bool" where
  "usable w s e \<longleftrightarrow> (\<exists>p\<in>set (js_stored s). e = entry_of w p \<and> fst p \<le> js_now s \<and>
     js_now s < fst p + max (pc_jwksTtlMs (kw_config w)) (pc_jwksStaleTtlMs (kw_config w)))"

lemma held_usable:
  assumes "holds_last w s" and "kc_entry (js_cache s) = Some e" and "js_now s < ke_expiresAt e \<or> js_now s < ke_hardExpireAt e"
  shows "usable w s e"
proof -
  have "js_stored s \<noteq> []" "e = entry_of w (last (js_stored s))" "fst (last (js_stored s)) \<le> js_now s"
    using assms(1,2) by (auto simp: holds_last_def split: if_splits)
  with assms(3) show ?thesis
    unfolding usable_def by (intro bexI [of _ "last (js_stored s)"]) (auto simp: entry_of_def split: prod.splits)
qed

lemma answer_keeps_ok:
  assumes "jwks_ok w s" and "same_keys (js_now s) (js_cache s) (snd rc)"
    and "\<And>k. fst rc = Inr k \<Longrightarrow> \<exists>e. usable w s e \<and> map_of (ke_keys e) kid = Some k"
  shows "jwks_ok w (answer kid rc s)"
proof -
  have "answer_ok w (js_stored s) (js_now s, kid, fst rc)"
  proof (cases "fst rc")
    case (Inr k)
    with assms(3) obtain e where "usable w s e" "map_of (ke_keys e) kid = Some k" by blast
    with Inr show ?thesis by (fastforce simp: answer_ok_def usable_def entry_of_def list_ex_iff)
  qed (simp add: answer_ok_def)
  with assms(1,2) show ?thesis
    by (auto simp: jwks_ok_def answer_def same_keys_def holds_last_def canRefetch_def)
qed

lemma resolve_keeps_ok:
  assumes "jwks_ok w s" and "\<And>e. r = Inr e \<Longrightarrow> usable w s e"
  shows "jwks_ok w (resolve r kid s)"
  unfolding resolve_def
proof (rule answer_keeps_ok [OF assms(1) resolve_same])
  fix k assume "fst (getKey_resolve (js_now s) kid r (js_cache s)) = Inr k"
  with assms(2) show "\<exists>e. usable w s e \<and> map_of (ke_keys e) kid = Some k" by (metis resolve_key)
qed

lemma usable_resolve [simp]: "usable w (resolve r kid s) e = usable w s e"
  by (simp add: usable_def resolve_def answer_def)

lemma resolve_all_ok: "jwks_ok w s \<Longrightarrow> (\<And>e. r = Inr e \<Longrightarrow> usable w s e) \<Longrightarrow> jwks_ok w (fold (resolve r) kids s)"
proof (induction kids arbitrary: s)
  case (Cons k ks)
  have "jwks_ok w (resolve r k s)" using resolve_keeps_ok Cons.prems by blast
  with Cons show ?case by simp
qed simp

lemma spaced_snoc:
  assumes "spaced g ts" and "0 < g" and "ts \<noteq> [] \<Longrightarrow> last ts + g \<le> x"
  shows "spaced g (ts @ [x])"
proof (cases ts rule: rev_cases)
  case (snoc us l)
  have "a + g \<le> x" if "a \<in> set ts" for a
    using that assms snoc by (auto simp: spaced_def sorted_wrt_append)
  with assms(1) show ?thesis by (simp add: spaced_def sorted_wrt_append)
qed (simp add: spaced_def)

lemma answer_ok_append: "answer_ok w stored a \<Longrightarrow> answer_ok w (stored @ late) a"
  by (auto simp: answer_ok_def split: sum.splits prod.splits)

text \<open>The state in which the callers that waited are resumed.\<close>

definition fetched ::
  "'k jwks_world \<Rightarrow> PrivyState \<Rightarrow> (privy_error + jwk list) \<Rightarrow> 'k jwks_system \<Rightarrow> (privy_failure + 'k jwks_entry) \<times> 'k jwks_system" where
  "fetched w st r s =
     (let (res, c) = end_fetch w (js_now s) st r (js_cache s);
          stored = (case r of Inr doc \<Rightarrow> if import_keys (kw_createPublicKey w) doc = [] then [] else [(js_now s, doc)] | Inl _ \<Rightarrow> [])
      in (res, s\<lparr>js_cache := c, js_flight := None, js_waiters := [], js_stored := js_stored s @ stored\<rparr>))"

lemma done_fetched:
  "js_flight s = Some st \<Longrightarrow> jwks_step w (JE_done r) s = fold (resolve (fst (fetched w st r s))) (js_waiters s) (snd (fetched w st r s))"
  by (simp add: fetched_def Let_def split: prod.splits)

text \<open>A fetch that gave no usable document leaves what is held; one that did replaces it.\<close>

definition gives_keys :: "'k jwks_world \<Rightarrow> (privy_error + jwk list) \<Rightarrow> bool" where
  "gives_keys w r = (case r of Inr doc \<Rightarrow> import_keys (kw_createPublicKey w) doc \<noteq> [] | Inl _ \<Rightarrow> False)"

lemma fetched_nothing:
  assumes "\<not> gives_keys w r"
  obtains b e where "snd (fetched w st r s) = s\<lparr>js_cache := (js_cache s)\<lparr>kc_breaker := b\<rparr>, js_flight := None, js_waiters := []\<rparr>"
    "fst (fetched w st r s) = staleEntryOrThrow (kw_config w) (js_now s) (PrivyKeyUnavailableError e) (js_cache s)"
  using assms
  by (auto simp: gives_keys_def fetched_def end_fetch_def store_outcome_def fetch_failure_def staleEntryOrThrow_def Let_def
      split: sum.splits)

lemma fetched_keys:
  assumes "gives_keys w (Inr doc)"
  obtains b where "fetched w st (Inr doc) s = (Inr (entry_of w (js_now s, doc)),
     s\<lparr>js_cache := (js_cache s)\<lparr>kc_breaker := b, kc_entry := Some (entry_of w (js_now s, doc)), kc_lastFetchAt := Some (js_now s),
       kc_unknownKids := []\<rparr>, js_flight := None, js_waiters := [], js_stored := js_stored s @ [(js_now s, doc)]\<rparr>)"
  using assms by (simp add: gives_keys_def fetched_def end_fetch_def store_outcome_def Let_def entry_of_def)

lemma fetched_ok:
  assumes "jwks_ok w s" and "config_ok (kw_config w)" and "js_flight s = Some st"
  shows "jwks_ok w (snd (fetched w st r s))" "fst (fetched w st r s) = Inr e \<Longrightarrow> usable w (snd (fetched w st r s)) e"
proof -
  have goal: "jwks_ok w (snd (fetched w st r s)) \<and> (\<forall>e. fst (fetched w st r s) = Inr e \<longrightarrow> usable w (snd (fetched w st r s)) e)"
  proof (cases "gives_keys w r")
    case False
    then obtain b m where f: "snd (fetched w st r s) = s\<lparr>js_cache := (js_cache s)\<lparr>kc_breaker := b\<rparr>, js_flight := None, js_waiters := []\<rparr>"
      "fst (fetched w st r s) = staleEntryOrThrow (kw_config w) (js_now s) (PrivyKeyUnavailableError m) (js_cache s)"
      by (rule fetched_nothing)
    have ok: "jwks_ok w (snd (fetched w st r s))" using assms(1) by (auto simp: f(1) jwks_ok_def holds_last_def)
    moreover have "usable w (snd (fetched w st r s)) e" if "fst (fetched w st r s) = Inr e" for e
      using stale_Inr [OF that [unfolded f(2)]] ok by (intro held_usable) (auto simp: jwks_ok_def f(1))
    ultimately show ?thesis by blast
  next
    case True
    then obtain doc where r: "r = Inr doc" by (auto simp: gives_keys_def split: sum.splits)
    obtain b where f: "fetched w st r s = (Inr (entry_of w (js_now s, doc)),
      s\<lparr>js_cache := (js_cache s)\<lparr>kc_breaker := b, kc_entry := Some (entry_of w (js_now s, doc)), kc_lastFetchAt := Some (js_now s),
       kc_unknownKids := []\<rparr>, js_flight := None, js_waiters := [], js_stored := js_stored s @ [(js_now s, doc)]\<rparr>)"
      using fetched_keys True r by metis
    have "spaced (pc_jwksNegativeTtlMs (kw_config w)) (map fst (js_stored s) @ [js_now s])"
      using assms by (intro spaced_snoc) (auto simp: jwks_ok_def config_ok_def holds_last_def canRefetch_def last_map)
    then have "jwks_ok w (snd (fetched w st r s))"
      using assms(1) by (auto simp: f jwks_ok_def holds_last_def list_all_iff intro: answer_ok_append)
    moreover have "usable w (snd (fetched w st r s)) (entry_of w (js_now s, doc))"
      using assms(2) by (auto simp: f usable_def config_ok_def)
    ultimately show ?thesis by (simp add: f)
  qed
  then show "jwks_ok w (snd (fetched w st r s))" "fst (fetched w st r s) = Inr e \<Longrightarrow> usable w (snd (fetched w st r s)) e"
    by blast+
qed

lemma jwks_ok_cache: "jwks_ok w s \<Longrightarrow> same_keys (js_now s) (js_cache s) c \<Longrightarrow> jwks_ok w (s\<lparr>js_cache := c\<rparr>)"
  by (auto simp: jwks_ok_def same_keys_def holds_last_def canRefetch_def)

lemma jwks_ok_join: "jwks_ok w s \<Longrightarrow> js_flight s = Some st \<Longrightarrow> jwks_ok w (s\<lparr>js_waiters := ks\<rparr>)"
  by (auto simp: jwks_ok_def holds_last_def)

lemma jwks_ok_take_off:
  "jwks_ok w s \<Longrightarrow> canRefetch (kw_config w) (js_now s) (js_cache s) \<Longrightarrow> jwks_ok w (s\<lparr>js_flight := Some st, js_waiters := ks\<rparr>)"
  by (auto simp: jwks_ok_def holds_last_def)

lemma jwks_get_ok:
  assumes "jwks_ok w s"
  shows "jwks_ok w (jwks_step w (JE_get kid) s)"
proof (cases "getKey_lookup (kw_config w) (js_now s) kid (js_cache s)")
  case (Pair a c)
  note same = lookup_same [OF Pair]
  have s1: "jwks_ok w (s\<lparr>js_cache := c\<rparr>)" by (rule jwks_ok_cache [OF assms same])
  show ?thesis
  proof (cases a)
    case (Some r)
    have "jwks_ok w (answer kid (r, c) s)"
    proof (rule answer_keeps_ok [OF assms])
      show "\<exists>e. usable w s e \<and> map_of (ke_keys e) kid = Some k" if "fst (r, c) = Inr k" for k
        using Pair Some that assms by (auto simp: jwks_ok_def elim!: lookup_hit intro!: held_usable)
    qed (simp add: same)
    with Pair Some show ?thesis by simp
  next
    case None
    show ?thesis
    proof (cases "js_flight s")
      case (Some st)
      with jwks_ok_join [OF s1, where ks = "js_waiters s @ [kid]"] Pair None show ?thesis by simp
    next
      case no: None
      show ?thesis
      proof (cases "doRefresh w (js_now s) c")
        case d: (Pair x c1)
        show ?thesis
        proof (cases x)
          case (Resolved r)
          have s2: "jwks_ok w (s\<lparr>js_cache := c1\<rparr>)"
            using jwks_ok_cache [OF s1, of c1] doRefresh_resolved(1) d Resolved by fastforce
          have "usable w (s\<lparr>js_cache := c1\<rparr>) e" if "r = Inr e" for e
            using doRefresh_resolved [OF d [unfolded Resolved]] that s2
            by (intro held_usable) (auto simp: jwks_ok_def same_keys_def)
          then have "jwks_ok w (resolve r kid (s\<lparr>js_cache := c1\<rparr>))" by (rule resolve_keeps_ok [OF s2])
          with Pair None no d Resolved show ?thesis by simp
        next
          case (Fetching st)
          have s2: "jwks_ok w (s\<lparr>js_cache := c1\<rparr>)"
            using jwks_ok_cache [OF s1, of c1] doRefresh_fetching(1) d Fetching by fastforce
          have "canRefetch (kw_config w) (js_now s) c1"
            using doRefresh_fetching [OF d [unfolded Fetching]] s1
            by (cases "kc_entry c") (auto simp: same_keys_def canRefetch_def jwks_ok_def holds_last_def split: if_splits)
          with jwks_ok_take_off [OF s2, where ks = "[kid]" and st = st] Pair None no d Fetching show ?thesis by simp
        qed
      qed
    qed
  qed
qed

lemma jwks_step_ok:
  assumes "jwks_ok w s" and "config_ok (kw_config w)"
  shows "jwks_ok w (jwks_step w e s)"
proof (cases e)
  case (JE_wait n)
  with assms show ?thesis
    by (auto simp: jwks_ok_def holds_last_def canRefetch_def list_all_iff split: option.splits prod.splits)
next
  case (JE_done r)
  show ?thesis
  proof (cases "js_flight s")
    case (Some st)
    have "jwks_ok w (jwks_step w (JE_done r) s)"
      unfolding done_fetched [OF Some] using fetched_ok [OF assms Some] by (intro resolve_all_ok)
    with JE_done show ?thesis by simp
  qed (use assms JE_done in simp)
qed (use jwks_get_ok assms in auto)

interpretation jwksm: machine "jwks_step w" "\<lambda>s. config_ok (kw_config w) \<and> jwks_ok w s" for w :: "'k jwks_world"
  by unfold_locales (auto intro: jwks_step_ok)

lemma jwks_start_ok: "jwks_ok w (jwks_start w now)"
  by (simp add: jwks_ok_def jwks_start_def holds_last_def new_PrivyJwksCache_def spaced_def)

lemma jwks_run_ok: "config_ok (kw_config w) \<Longrightarrow> jwks_ok w (fold (jwks_step w) es (jwks_start w now))"
  using jwksm.run_ok [of w "jwks_start w now" es] jwks_start_ok by blast

subsection \<open>What a caller gets\<close>

text \<open>
  Whatever the order of calls, fetches and outages, a key returned for a \<open>kid\<close> was imported from a document that
  was fetched, under that \<open>kid\<close>, less than the larger of the two lifetimes before the answer.
\<close>

theorem cached_keys_are_recent:
  assumes "getPrivyConfig enc env = Inr (kw_config w)"
    and "(u, kid, Inr k) \<in> set (js_answers (fold (jwks_step w) es (jwks_start w now)))"
  shows "\<exists>t doc. (t, doc) \<in> set (js_stored (fold (jwks_step w) es (jwks_start w now))) \<and>
     map_of (import_keys (kw_createPublicKey w) doc) kid = Some k \<and> t \<le> u \<and>
     u < t + max (pc_jwksTtlMs (kw_config w)) (pc_jwksStaleTtlMs (kw_config w))"
proof -
  have "answer_ok w (js_stored (fold (jwks_step w) es (jwks_start w now))) (u, kid, Inr k)"
    using jwks_run_ok [OF getPrivyConfig_ok [OF assms(1)], of es now] assms(2) by (auto simp: jwks_ok_def list_all_iff)
  then show ?thesis by (auto simp: answer_ok_def list_ex_iff)
qed

text \<open>The calls made, answered or waiting.\<close>

definition asked :: "'k jwks_system \<Rightarrow> string multiset" where
  "asked s = image_mset (\<lambda>(t, kid, r). kid) (mset (js_answers s)) + mset (js_waiters s)"

fun get_of :: "jwks_event \<Rightarrow> string list" where
  "get_of (JE_get kid) = [kid]"
| "get_of _ = []"

lemma resolve_fields: "js_answers (resolve r kid s) = js_answers s @ [(js_now s, kid, fst (getKey_resolve (js_now s) kid r (js_cache s)))]"
    "js_waiters (resolve r kid s) = js_waiters s" "js_flight (resolve r kid s) = js_flight s"
  by (simp_all add: resolve_def answer_def)

lemma resolve_all_fields:
  "image_mset (\<lambda>(t, kid, r). kid) (mset (js_answers (fold (resolve r) kids s))) =
     image_mset (\<lambda>(t, kid, r). kid) (mset (js_answers s)) + mset kids"
  "js_waiters (fold (resolve r) kids s) = js_waiters s" "js_flight (fold (resolve r) kids s) = js_flight s"
  by (induction kids arbitrary: s) (simp_all add: resolve_fields)

lemma asked_step:
  assumes "jwks_ok w s"
  shows "asked (jwks_step w e s) = asked s + mset (get_of e)"
  using assms
  by (cases e) (auto simp: asked_def jwks_ok_def answer_def resolve_fields resolve_all_fields Let_def
      split: prod.splits option.splits refresh_start.splits)

lemma asked_run:
  assumes "config_ok (kw_config w)" and "jwks_ok w s"
  shows "asked (fold (jwks_step w) es s) = asked s + mset (concat (map get_of es))"
  using assms(2)
proof (induction es arbitrary: s)
  case (Cons e es)
  then show ?case using jwks_step_ok [OF Cons.prems assms(1), of e] asked_step [of w s e] by simp
qed simp

text \<open>
  C19: Concurrent callers share one fetch: every call is answered exactly once or waits for the fetch under way, the
  end of that fetch answers all that wait, and the fetches that succeed are at least one negative-cache window
  apart.
\<close>

theorem callers_share_one_fetch:
  assumes "getPrivyConfig enc env = Inr (kw_config w)"
  shows "let s = fold (jwks_step w) es (jwks_start w now) in
     asked s = mset (concat (map get_of es)) \<and> js_waiters (jwks_step w (JE_done r) s) = [] \<and>
     spaced (pc_jwksNegativeTtlMs (kw_config w)) (map fst (js_stored s))"
proof -
  let ?s = "fold (jwks_step w) es (jwks_start w now)"
  note cfg = getPrivyConfig_ok [OF assms]
  have ok: "jwks_ok w ?s" by (rule jwks_run_ok [OF cfg])
  have "asked ?s = mset (concat (map get_of es))"
    using asked_run [OF cfg jwks_start_ok] by (simp add: asked_def jwks_start_def)
  moreover have "js_waiters (jwks_step w (JE_done r) ?s) = []"
    using ok by (auto simp: jwks_ok_def resolve_all_fields Let_def split: option.split prod.split)
  ultimately show ?thesis using ok by (simp add: jwks_ok_def Let_def)
qed

lemma not_noted_later:
  assumes "list_all (\<lambda>(kid, seenAt). seenAt \<le> now) (kc_unknownKids c)" and "now + pc_jwksNegativeTtlMs cfg \<le> u"
  obtains ks where "isUnknownKidCached cfg u kid c = (False, c\<lparr>kc_unknownKids := ks\<rparr>)"
proof (cases "map_of (kc_unknownKids c) kid")
  case None
  then show ?thesis using that [of "kc_unknownKids c"] by (simp add: isUnknownKidCached_def)
next
  case (Some seenAt)
  with assms have "seenAt \<le> now" by (auto simp: list_all_iff dest: map_of_SomeD)
  with Some assms(2) that [of "AList.delete kid (kc_unknownKids c)"] show ?thesis by (simp add: isUnknownKidCached_def)
qed

text \<open>
  A rotated key is picked up within one window: whatever was refused before, a call made a negative-cache window
  later is answered, with a key held already or with the key of the document that the fetch it starts brings.
\<close>

theorem rotated_key_is_served:
  assumes "getPrivyConfig enc env = Inr (kw_config w)" and "s = fold (jwks_step w) es (jwks_start w now)"
    and "js_flight s = None" and "kid \<noteq> []" and "pc_jwksNegativeTtlMs (kw_config w) \<le> int n"
    and "pb_enter (js_now s + int n) (kc_breaker (js_cache s)) = (Inr st, b)"
    and "map_of (import_keys (kw_createPublicKey w) doc) kid = Some k"
  shows "let s' = fold (jwks_step w) [JE_wait n, JE_get kid, JE_done (Inr doc)] s in
     last (js_answers s') = (js_now s + int n, kid, Inr k) \<or>
     js_stored s' = js_stored s \<and>
       (\<exists>k'. last (js_answers s') = (js_now s + int n, kid, Inr k') \<and>
             (\<exists>p\<in>set (js_stored s). map_of (ke_keys (entry_of w p)) kid = Some k'))"
proof -
  let ?u = "js_now s + int n" and ?c = "js_cache s"
  have ok: "jwks_ok w s" unfolding assms(2) by (rule jwks_run_ok [OF getPrivyConfig_ok [OF assms(1)]])
  obtain ks where seen: "isUnknownKidCached (kw_config w) ?u kid ?c = (False, ?c\<lparr>kc_unknownKids := ks\<rparr>)"
    using not_noted_later [of "js_now s" ?c "kw_config w" ?u kid] ok assms(5) by (auto simp: jwks_ok_def)
  have can: "canRefetch (kw_config w) ?u (?c\<lparr>kc_unknownKids := ks\<rparr>)"
    using ok assms(5) by (auto simp: jwks_ok_def holds_last_def canRefetch_def split: if_splits)
  show ?thesis
  proof (cases "\<exists>e k'. kc_entry ?c = Some e \<and> ?u < ke_expiresAt e \<and> map_of (ke_keys e) kid = Some k'")
    case True
    then obtain e k' where e: "kc_entry ?c = Some e" "?u < ke_expiresAt e" "map_of (ke_keys e) kid = Some k'" by blast
    then have "\<exists>p\<in>set (js_stored s). e = entry_of w p"
      using ok by (auto simp: jwks_ok_def holds_last_def split: if_splits)
    with e seen assms(3,4) show ?thesis by (auto simp: getKey_lookup_def answer_def Let_def)
  next
    case False
    have "getKey_lookup (kw_config w) ?u kid ?c = (None, ?c\<lparr>kc_unknownKids := ks\<rparr>)"
      using False seen can assms(4) by (auto simp: getKey_lookup_def split: option.splits)
    moreover have "doRefresh w ?u (?c\<lparr>kc_unknownKids := ks\<rparr>) = (Fetching st, ?c\<lparr>kc_unknownKids := ks, kc_breaker := b\<rparr>)"
      using can assms(6) by (simp add: doRefresh_def start_fetch_def)
    moreover have "import_keys (kw_createPublicKey w) doc \<noteq> []" using assms(7) by auto
    ultimately show ?thesis
      using assms(3,7) by (simp add: end_fetch_def store_outcome_def resolve_def answer_def getKey_resolve_def Let_def)
  qed
qed

text \<open>
  A failed fetch while an older set is held rejects a caller whose key that set lacks as a bad token, not as an
  outage; the key is then refused without asking for a whole window. The failure starts no cooldown: another
  unknown key starts another fetch at once while the breaker is closed.
\<close>

theorem outage_rejects_rotated_key:
  assumes "kc_entry c = Some e" and "pc_allowStaleKeysOnError (kw_config w)" and "now < ke_hardExpireAt e"
    and "map_of (ke_keys e) kid = None" "kid \<noteq> []" "now \<le> t" "t < now + pc_jwksNegativeTtlMs (kw_config w)"
    and "canRefetch (kw_config w) now c" and "map_of (kc_unknownKids c) kid' = None" "map_of (ke_keys e) kid' = None"
      "kid' \<noteq> kid" "kid' \<noteq> []"
    and "st = Closed" "pb_state (kc_breaker c) = Closed" "consecutiveFailures (kc_breaker c) + 1 < pb_failureThreshold (kc_breaker c)"
  shows "let (r, c1) = end_fetch w now st (Inl err) c; (r2, c2) = getKey_resolve now kid r c1 in
     r2 = Inl (unknown_key kid) \<and> \<not> isPrivyAvailabilityFailure (unknown_key kid) \<and>
     fst (getKey_lookup (kw_config w) t kid c2) = Some (Inl (unknown_key kid)) \<and>
     fst (getKey_lookup (kw_config w) now kid' c2) = None \<and> fst (doRefresh w now c2) = Fetching Closed"
proof -
  obtain b where b: "pb_leave now Closed False (kc_breaker c) = b" "pb_state b = Closed"
    using assms(14,15) by (auto simp: pb_defs)
  let ?c1 = "c\<lparr>kc_breaker := b\<rparr>"
  have r: "end_fetch w now st (Inl err) c = (Inr e, ?c1)"
    using assms(1-3,13) b(1) by (simp add: end_fetch_def store_outcome_def staleEntryOrThrow_def Let_def)
  have res: "getKey_resolve now kid (Inr e) ?c1 = (Inl (unknown_key kid), noteUnknownKid now kid ?c1)"
    using assms(4) by (simp add: getKey_resolve_def)
  have can: "canRefetch (kw_config w) now (noteUnknownKid now kid ?c1)"
    using assms(8) by (simp add: canRefetch_def noteUnknownKid_def)
  have "pb_enter now b = (Inr Closed, b)" using b(2) by (simp add: pb_enter_def pb_getState_def Let_def)
  then have "fst (doRefresh w now (noteUnknownKid now kid ?c1)) = Fetching Closed"
    using can by (simp add: doRefresh_def start_fetch_def noteUnknownKid_def)
  moreover have "fst (getKey_lookup (kw_config w) t kid (noteUnknownKid now kid ?c1)) = Some (Inl (unknown_key kid))"
    using assms(5,7) by (simp add: getKey_lookup_def isUnknownKidCached_def noteUnknownKid_def update_conv)
  moreover have "fst (getKey_lookup (kw_config w) now kid' (noteUnknownKid now kid ?c1)) = None"
    using assms(1,9-12) can
    by (simp add: getKey_lookup_def isUnknownKidCached_def noteUnknownKid_def update_conv)
  ultimately show ?thesis by (simp add: r res isPrivyAvailabilityFailure_def unknown_key_def)
qed

subsection \<open>Concrete runs\<close>

definition sample_environment :: privy_environment where
  "sample_environment = \<lparr>ep_APP_ID = Some ''app'', ep_APP_SECRET = None, ep_API_URL = None, ep_JWKS_URL = None,
     ep_JWKS_TTL_MS = None, ep_JWKS_STALE_TTL_MS = None, ep_JWKS_NEGATIVE_TTL_MS = None, ep_REQUEST_TIMEOUT_MS = None,
     ep_RETRY_ATTEMPTS = None, ep_RETRY_BASE_DELAY_MS = None, ep_RETRY_MAX_DELAY_MS = None,
     ep_CIRCUIT_FAILURE_THRESHOLD = None, ep_CIRCUIT_RESET_TIMEOUT_MS = None, ep_CIRCUIT_STARTS_OPEN = None,
     ep_ALLOW_STALE_KEYS = None\<rparr>"

definition sample_config :: privy_config where
  "sample_config = projr (getPrivyConfig (\<lambda>s. s) sample_environment)"

definition sample_jwks :: "string jwks_world" where
  "sample_jwks = \<lparr>kw_config = sample_config, kw_createPublicKey = jwk_x, kw_message = (\<lambda>_. ''timeout'')\<rparr>"

definition sample_jwk :: "string \<Rightarrow> jwk" where
  "sample_jwk kid = \<lparr>jwk_kid = Some kid, jwk_kty = Some ''EC'', jwk_crv = Some ''P-256'', jwk_alg = None, jwk_use = None,
     jwk_x = Some (CHR ''k'' # kid), jwk_y = Some ''y''\<rparr>"

definition warm_run :: "jwks_event list" where
  "warm_run = [JE_get ''a'', JE_get ''b'', JE_done (Inr [sample_jwk ''a''])]"

definition warm :: "string jwks_system" where
  "warm = fold (jwks_step sample_jwks) warm_run (jwks_start sample_jwks 0)"

lemma sample_config_eq: "getPrivyConfig (\<lambda>s. s) sample_environment = Inr (kw_config sample_jwks)"
proof -
  have "\<not> isl (getPrivyConfig (\<lambda>s. s) sample_environment)" by code_simp
  then show ?thesis by (cases "getPrivyConfig (\<lambda>s. s) sample_environment") (simp_all add: sample_jwks_def sample_config_def)
qed

lemma warm_facts:
  "js_answers warm = [(0, ''a'', Inr ''ka''), (0, ''b'', Inl (unknown_key ''b''))]"
  "map fst (js_stored warm) = [0]" "js_flight warm = None" "js_now warm = 0"
  by code_simp+

theorem cached_keys_are_recent_witness:
  "\<exists>t doc. (t, doc) \<in> set (js_stored warm) \<and> map_of (import_keys (kw_createPublicKey sample_jwks) doc) ''a'' = Some ''ka''"
  using cached_keys_are_recent [OF sample_config_eq, of 0 "''a''" "''ka''" warm_run 0] warm_facts(1) by (auto simp: warm_def)

theorem callers_share_one_fetch_witness:
  "asked warm = {#''a'', ''b''#}"
  using callers_share_one_fetch [OF sample_config_eq, of warm_run 0 "Inr []"] by (simp add: warm_def warm_run_def Let_def)

theorem rotated_key_is_served_witness:
  "\<exists>k. last (js_answers (fold (jwks_step sample_jwks) [JE_wait 60000, JE_get ''b'', JE_done (Inr [sample_jwk ''b''])] warm)) =
     (60000, ''b'', Inr k)"
proof -
  have "pc_jwksNegativeTtlMs (kw_config sample_jwks) = 60000"
    "fst (pb_enter 60000 (kc_breaker (js_cache warm))) = Inr Closed"
    "map_of (import_keys (kw_createPublicKey sample_jwks) [sample_jwk ''b'']) ''b'' = Some ''kb''"
    by code_simp+
  then show ?thesis
    using rotated_key_is_served [OF sample_config_eq warm_def warm_facts(3), of "''b''" 60000 Closed
        "snd (pb_enter 60000 (kc_breaker (js_cache warm)))" "[sample_jwk ''b'']" "''kb''"] warm_facts(4)
    by (auto simp: Let_def prod_eq_iff simp del: fold.simps)
qed

theorem outage_rejects_rotated_key_witness:
  "let (r, c1) = end_fetch sample_jwks 60000 Closed (Inl NonObject) (js_cache warm); (r2, c2) = getKey_resolve 60000 ''c'' r c1 in
   r2 = Inl (unknown_key ''c'')"
proof -
  have "map_option ke_hardExpireAt (kc_entry (js_cache warm)) = Some 86400000"
    "map_option (\<lambda>e. map_of (ke_keys e) ''c'') (kc_entry (js_cache warm)) = Some None"
    "map_option (\<lambda>e. map_of (ke_keys e) ''d'') (kc_entry (js_cache warm)) = Some None"
    by code_simp+
  then obtain e where e: "kc_entry (js_cache warm) = Some e" "60000 < ke_hardExpireAt e" "map_of (ke_keys e) ''c'' = None"
    "map_of (ke_keys e) ''d'' = None" by auto
  have "pc_allowStaleKeysOnError (kw_config sample_jwks)" "60000 < 60000 + pc_jwksNegativeTtlMs (kw_config sample_jwks)"
    "canRefetch (kw_config sample_jwks) 60000 (js_cache warm)" "map_of (kc_unknownKids (js_cache warm)) ''d'' = None"
    "pb_state (kc_breaker (js_cache warm)) = Closed"
    "consecutiveFailures (kc_breaker (js_cache warm)) + 1 < pb_failureThreshold (kc_breaker (js_cache warm))"
    by code_simp+
  with outage_rejects_rotated_key [OF e(1), of sample_jwks 60000 "''c''" 60000 "''d''" Closed NonObject] e(2-4)
  show ?thesis by (auto simp: Let_def split: prod.splits)
qed

end
