(* ===== verification/Request_Auth.thy ===== *)
theory Request_Auth
  imports Auth_Accounts Jwks_Cache
begin

text \<open>
  Authentication and authorization of a request: the mode flags (\<open>config/authFlags.ts\<close>), the permission table
  (\<open>types/Permissions.ts\<close>), revoked provider sessions (\<open>privy/PrivySessionService.ts\<close>), the verifier of provider
  tokens (\<open>privy/PrivyTokenVerifier.ts\<close>), the resolver of local accounts (\<open>privy/PrivyUserResolver.ts\<close>), and the two
  middlewares (\<open>middlewares/authMiddleware.ts\<close>, \<open>privyMiddleware.ts\<close>) with the provider routes of
  \<open>controllers/AuthController.ts\<close>. \<open>jsonwebtoken\<close>'s decoding and verification are parameters, and so is what the key
  cache answers, which \<open>Jwks_Cache\<close> models. Metrics and log lines are left out.
\<close>

subsection \<open>Flags\<close>

record auth_flags =
  fl_AUTH_MODE :: "string option"
  fl_PRIVY_ALLOW_LEGACY_FALLBACK :: "string option"
  fl_ENABLE_LEGACY_EVM_AUTH :: "string option"
  fl_PRIVY_APP_ID :: "string option"
  fl_PRIVY_REVOCATION_FAILURE_MODE :: "string option"

datatype auth_mode = LegacyMode | PrivyMode | BothModes

definition getAuthMode :: "auth_flags \<Rightarrow> auth_mode" where
  "getAuthMode f =
     (let raw = ascii_lower (js_trim (or_string (fl_AUTH_MODE f) [])) in
      if raw = ''privy'' then PrivyMode else if raw = ''both'' then BothModes else LegacyMode)"

definition isPrivyAuthEnabled :: "auth_flags \<Rightarrow> bool" where
  "isPrivyAuthEnabled f \<longleftrightarrow> getAuthMode f \<noteq> LegacyMode"

definition isLegacyAuthEnabled :: "auth_flags \<Rightarrow> bool" where
  "isLegacyAuthEnabled f \<longleftrightarrow> getAuthMode f \<noteq> PrivyMode"

definition isLegacyFallbackEnabled :: "auth_flags \<Rightarrow> bool" where
  "isLegacyFallbackEnabled f \<longleftrightarrow> ascii_lower (or_string (fl_PRIVY_ALLOW_LEGACY_FALLBACK f) ''true'') = ''true''"

definition isLegacyEvmAuthEnabled :: "auth_flags \<Rightarrow> bool" where
  "isLegacyEvmAuthEnabled f \<longleftrightarrow> ascii_lower (js_trim (or_string (fl_ENABLE_LEGACY_EVM_AUTH f) ''false'')) = ''true''"

definition isPrivyConfigured :: "auth_flags \<Rightarrow> bool" where
  "isPrivyConfigured f \<longleftrightarrow> js_trim (or_string (fl_PRIVY_APP_ID f) []) \<noteq> []"

text \<open>Whether \<open>checkAuthFlagConfig\<close> warns.\<close>

definition checkAuthFlagConfig :: "auth_flags \<Rightarrow> bool" where
  "checkAuthFlagConfig f \<longleftrightarrow> getAuthMode f \<noteq> LegacyMode \<and> \<not> isPrivyConfigured f"

subsection \<open>Permissions\<close>

datatype permission =
    CONTENT_MODERATE | CONTENT_MODERATE_BULK | JOBS_VIEW | SEARCH_MANAGE | USER_MANAGE | ROLE_ASSIGN
  | VERIFICATION_REVIEW | TRANSACTION_LOGS_VIEW | AI_USAGE_VIEW

definition all_permissions :: "permission list" where
  "all_permissions = [CONTENT_MODERATE, CONTENT_MODERATE_BULK, JOBS_VIEW, SEARCH_MANAGE, USER_MANAGE, ROLE_ASSIGN,
     VERIFICATION_REVIEW, TRANSACTION_LOGS_VIEW, AI_USAGE_VIEW]"

fun ROLE_PERMISSIONS :: "user_role \<Rightarrow> permission list" where
  "ROLE_PERMISSIONS UR_LISTENER = []"
| "ROLE_PERMISSIONS UR_ARTIST = []"
| "ROLE_PERMISSIONS UR_MODERATOR = [CONTENT_MODERATE, JOBS_VIEW, VERIFICATION_REVIEW]"
| "ROLE_PERMISSIONS UR_ADMIN = [CONTENT_MODERATE, CONTENT_MODERATE_BULK, JOBS_VIEW, SEARCH_MANAGE, USER_MANAGE,
     ROLE_ASSIGN, VERIFICATION_REVIEW, TRANSACTION_LOGS_VIEW, AI_USAGE_VIEW]"
| "ROLE_PERMISSIONS UR_SUPER_ADMIN = all_permissions"

definition roleHasPermission :: "user_role \<Rightarrow> permission \<Rightarrow> bool" where
  "roleHasPermission r p \<longleftrightarrow> p \<in> set (ROLE_PERMISSIONS r)"

subsection \<open>Revoked sessions\<close>

text \<open>
  The store: until when a session is marked revoked, and the time before which a user's tokens are. Token times
  are in seconds, the rest in milliseconds. \<open>up\<close> says whether the store answers in time.
\<close>

record revocations =
  rv_sessions :: "ident \<Rightarrow> timestamp option"
  rv_cutoffs :: "ident \<Rightarrow> timestamp option"

definition no_revocations :: revocations where
  "no_revocations = \<lparr>rv_sessions = (\<lambda>_. None), rv_cutoffs = (\<lambda>_. None)\<rparr>"

definition store_unavailable :: js_error where
  "store_unavailable = PlainErr ''Privy revocation Redis is unavailable'' None"

text \<open>\<open>Math.ceil(expiresAt - Date.now() / 1000)\<close>\<close>

definition revocation_ttl :: "timestamp \<Rightarrow> int \<Rightarrow> int" where
  "revocation_ttl now expiresAt = - ((now - seconds expiresAt) div 1000)"

definition revokeSession :: "bool \<Rightarrow> timestamp \<Rightarrow> ident \<Rightarrow> int \<Rightarrow> (revocations, unit) service" where
  "revokeSession up now sid expiresAt rv =
     (let ttl = revocation_ttl now expiresAt in
      if ttl \<le> 0 then (Inr (), rv)
      else if \<not> up then (Inl store_unavailable, rv)
      else (Inr (), rv\<lparr>rv_sessions := (rv_sessions rv)(sid \<mapsto> now + seconds ttl)\<rparr>))"

definition revokeAllForUser :: "bool \<Rightarrow> timestamp \<Rightarrow> ident \<Rightarrow> (revocations, unit) service" where
  "revokeAllForUser up now uid rv =
     (if \<not> up then (Inl store_unavailable, rv)
      else (Inr (), rv\<lparr>rv_cutoffs := (rv_cutoffs rv)(uid \<mapsto> now)\<rparr>))"

definition isSessionRevoked :: "auth_flags \<Rightarrow> bool \<Rightarrow> timestamp \<Rightarrow> ident \<Rightarrow> ident \<Rightarrow> int \<Rightarrow> revocations \<Rightarrow> bool" where
  "isSessionRevoked f up now sid uid issuedAt rv \<longleftrightarrow>
     (if \<not> up then fl_PRIVY_REVOCATION_FAILURE_MODE f \<noteq> Some ''open''
      else (case rv_sessions rv sid of Some until \<Rightarrow> now < until | None \<Rightarrow> False) \<or>
           (case (if uid = [] then None else rv_cutoffs rv uid) of Some cutoff \<Rightarrow> seconds issuedAt < cutoff | None \<Rightarrow> False))"

subsection \<open>Tokens of the provider\<close>

record jwt_header =
  jh_alg :: "string option"
  jh_kid :: "string option"
  jh_typ :: "string option"

text \<open>A claim is \<open>None\<close> when it is missing or has another type.\<close>

record privy_claims =
  cl_sub :: "string option"
  cl_sid :: "string option"
  cl_iss :: "string option"
  cl_aud :: "string option"
  cl_iat :: "int option"
  cl_exp :: "int option"

text \<open>
  The world of a request: \<open>aw_read\<close> is the token a text is, \<open>aw_header\<close> is \<open>jwt.decode\<close>, \<open>aw_verify\<close> is \<open>jwt.verify\<close>
  with the algorithm ES256, the issuer \<open>privy.io\<close> and the audience given.
\<close>

record ('tok, 'k) auth_world =
  aw_read :: "string \<Rightarrow> 'tok"
  aw_header :: "'tok \<Rightarrow> jwt_header option"
  aw_verify :: "timestamp \<Rightarrow> 'k \<Rightarrow> string \<Rightarrow> 'tok \<Rightarrow> jwt_failure + privy_claims"
  aw_auth :: "'tok auth_env"
  aw_flags :: auth_flags
  aw_config :: "js_error + privy_config"

text \<open>What a \<open>throw\<close> carries here.\<close>

datatype auth_thrown = PrivyThrown privy_failure | JsThrown js_error

record verified_token =
  vt_userId :: string
  vt_sessionId :: string
  vt_issuer :: string
  vt_appId :: string
  vt_issuedAt :: int
  vt_expiresAt :: int

definition requireString :: "string option \<Rightarrow> string \<Rightarrow> auth_thrown + string" where
  "requireString v field =
     (case or_none v of
        None \<Rightarrow> Inl (PrivyThrown (PrivyInvalidTokenError (''Privy token is missing the \"'' @ field @ ''\" claim'')))
      | Some s \<Rightarrow> Inr s)"

definition requireNumber :: "int option \<Rightarrow> string \<Rightarrow> auth_thrown + int" where
  "requireNumber v field =
     (case v of
        None \<Rightarrow> Inl (PrivyThrown (PrivyInvalidTokenError (''Privy token has a malformed \"'' @ field @ ''\" claim'')))
      | Some n \<Rightarrow> Inr n)"

definition bind_result :: "'e + 'a \<Rightarrow> ('a \<Rightarrow> 'e + 'b) \<Rightarrow> 'e + 'b" where
  "bind_result r f = (case r of Inl e \<Rightarrow> Inl e | Inr a \<Rightarrow> f a)"

definition claims_of :: "privy_claims \<Rightarrow> auth_thrown + verified_token" where
  "claims_of c =
     bind_result (requireString (cl_sub c) ''sub'') (\<lambda>sub.
     bind_result (requireString (cl_sid c) ''sid'') (\<lambda>sid.
     bind_result (requireString (cl_iss c) ''iss'') (\<lambda>iss.
     bind_result (requireString (cl_aud c) ''aud'') (\<lambda>aud.
     bind_result (requireNumber (cl_iat c) ''iat'') (\<lambda>iat.
     bind_result (requireNumber (cl_exp c) ''exp'') (\<lambda>ex.
       Inr \<lparr>vt_userId = sub, vt_sessionId = sid, vt_issuer = iss, vt_appId = aud, vt_issuedAt = iat, vt_expiresAt = ex\<rparr>))))))"

definition readJwtHeader :: "('tok, 'k) auth_world \<Rightarrow> string \<Rightarrow> auth_thrown + jwt_header" where
  "readJwtHeader w text =
     (if text = [] then Inl (PrivyThrown (PrivyMalformedTokenError ''Token is empty''))
      else (case aw_header w (aw_read w text) of
          None \<Rightarrow> Inl (PrivyThrown (PrivyMalformedTokenError ''Token is not a well-formed JWT''))
        | Some h \<Rightarrow> Inr h))"

definition looksLikePrivyToken :: "('tok, 'k) auth_world \<Rightarrow> string \<Rightarrow> bool" where
  "looksLikePrivyToken w text = (case readJwtHeader w text of Inl _ \<Rightarrow> False | Inr h \<Rightarrow> jh_alg h = Some ''ES256'')"

text \<open>\<open>keys\<close> is what the cache answers to a \<open>kid\<close>.\<close>

definition check_header ::
  "(string \<Rightarrow> privy_failure + 'k) \<Rightarrow> jwt_header \<Rightarrow> auth_thrown + 'k" where
  "check_header keys h =
     (if jh_alg h \<noteq> Some ''ES256''
      then Inl (PrivyThrown (PrivyInvalidTokenError
             (''Privy tokens must be signed with ES256, got \"'' @ (case jh_alg h of Some a \<Rightarrow> a | None \<Rightarrow> ''undefined'') @ ''\"'')))
      else (case or_none (jh_kid h) of
          None \<Rightarrow> Inl (PrivyThrown (PrivyMalformedTokenError ''Privy token is missing a key id (kid) header''))
        | Some kid \<Rightarrow>
            if truthy (jh_typ h) \<and> jh_typ h \<noteq> Some ''JWT''
            then Inl (PrivyThrown (PrivyInvalidTokenError (''Unexpected token type \"'' @ or_string (jh_typ h) [] @ ''\"'')))
            else (case keys kid of Inl e \<Rightarrow> Inl (PrivyThrown e) | Inr k \<Rightarrow> Inr k)))"

definition check_signature ::
  "('tok, 'k) auth_world \<Rightarrow> timestamp \<Rightarrow> string \<Rightarrow> string \<Rightarrow> 'k \<Rightarrow> auth_thrown + privy_claims" where
  "check_signature w now appId text k =
     (case aw_verify w now k appId (aw_read w text) of
        Inl JwtExpired \<Rightarrow> Inl (PrivyThrown (PrivyInvalidTokenError ''Privy access token has expired''))
      | Inl JwtInvalid \<Rightarrow> Inl (PrivyThrown (PrivyInvalidTokenError ''Privy access token is invalid''))
      | Inr c \<Rightarrow> Inr c)"

definition verifyPrivyAccessToken ::
  "('tok, 'k) auth_world \<Rightarrow> timestamp \<Rightarrow> (string \<Rightarrow> privy_failure + 'k) \<Rightarrow> bool \<Rightarrow> revocations \<Rightarrow> string \<Rightarrow>
   auth_thrown + verified_token" where
  "verifyPrivyAccessToken w now keys up rv text =
     (case aw_config w of
        Inl e \<Rightarrow> Inl (JsThrown e)
      | Inr cfg \<Rightarrow>
          bind_result (readJwtHeader w text) (\<lambda>h.
          bind_result (check_header keys h) (\<lambda>k.
          bind_result (check_signature w now (pc_appId cfg) text k) (\<lambda>c.
          bind_result (claims_of c) (\<lambda>v.
            if isSessionRevoked (aw_flags w) up now (vt_sessionId v) (vt_userId v) (vt_issuedAt v) rv
            then Inl (PrivyThrown (PrivySessionRevokedError (vt_sessionId v))) else Inr v)))))"

definition resolve_user :: "user table \<Rightarrow> string \<Rightarrow> auth_thrown + user" where
  "resolve_user users pid =
     (case tbl_find (\<lambda>u. us_privyUserId u = Some pid) users of
        None \<Rightarrow> Inl (PrivyThrown (PrivyUserNotSyncedError pid))
      | Some u \<Rightarrow>
          if us_deletedAt u \<noteq> None then Inl (PrivyThrown (PrivyUserNotSyncedError pid))
          else if us_deletionRequestedAt u \<noteq> None
          then Inl (JsThrown (AppErr (AE_authorization ''Account deletion is pending for this account'' NoDetails None)))
          else Inr u)"

subsection \<open>The middleware\<close>

datatype auth_method = LegacyToken | PrivyToken

text \<open>The user put on a request, and a refusal: status, code and message of the response.\<close>

type_synonym request_user = "jwt_claims \<times> auth_method"

record refusal =
  rf_status :: int
  rf_code :: string
  rf_message :: string

definition refuse :: "app_error \<Rightarrow> refusal" where
  "refuse e = \<lparr>rf_status = ae_statusCode e, rf_code = ae_code e, rf_message = ae_message e\<rparr>"

definition unauthorized :: "string \<Rightarrow> app_error" where
  "unauthorized msg = AE_authentication (''Unauthorized: '' @ msg) NoDetails None"

definition extractBearerToken :: "string option \<Rightarrow> string option" where
  "extractBearerToken header =
     (case or_none header of
        None \<Rightarrow> None
      | Some h \<Rightarrow> if starts_with ''Bearer '' h then or_none (Some (js_trim (drop 7 h))) else None)"

definition authenticateLegacyToken :: "('tok, 'k) auth_world \<Rightarrow> timestamp \<Rightarrow> string \<Rightarrow> auth_thrown + request_user" where
  "authenticateLegacyToken w now text =
     (case or_none (ae_JWT_SECRET (aw_auth w)) of
        None \<Rightarrow> Inl (JsThrown (AppErr (AE_businessLogic ''JWT_SECRET is not configured'' NoDetails None)))
      | Some s \<Rightarrow>
          (case ae_verify (aw_auth w) now s (aw_read w text) of
             Inl JwtExpired \<Rightarrow> Inl (JsThrown (AppErr (unauthorized ''Token expired'')))
           | Inl JwtInvalid \<Rightarrow> Inl (JsThrown (AppErr (unauthorized ''Invalid token'')))
           | Inr c \<Rightarrow> if truthy (jc_id c) then Inr (c, LegacyToken)
               else Inl (JsThrown (AppErr (unauthorized ''Invalid token'')))))"

definition authenticatePrivyToken ::
  "('tok, 'k) auth_world \<Rightarrow> timestamp \<Rightarrow> (string \<Rightarrow> privy_failure + 'k) \<Rightarrow> bool \<Rightarrow> revocations \<Rightarrow> user table \<Rightarrow> string \<Rightarrow>
   auth_thrown + request_user" where
  "authenticatePrivyToken w now keys up rv users text =
     (case aw_config w of
        Inl _ \<Rightarrow> Inl (PrivyThrown (PrivyKeyUnavailableError ''Privy is not configured on this deployment''))
      | Inr _ \<Rightarrow>
          bind_result (verifyPrivyAccessToken w now keys up rv text) (\<lambda>v.
          bind_result (resolve_user users (vt_userId v)) (\<lambda>u.
            Inr (no_claims\<lparr>jc_id := Some (us_id u), jc_email := us_email u, jc_walletAddress := us_walletAddress u,
              jc_stellarPublicKey := us_stellarPublicKey u, jc_role := Some (us_role u), jc_username := us_username u,
              jc_name := us_name u, jc_emailVerified := Some (us_emailVerified u)\<rparr>, PrivyToken))))"

definition privyUnavailableError :: "string \<Rightarrow> refusal" where
  "privyUnavailableError reason = \<lparr>rf_status = 503, rf_code = ''PRIVY_UNAVAILABLE'',
     rf_message = ''Authentication service temporarily unavailable: '' @ reason\<rparr>"

definition toAuthError :: "auth_thrown \<Rightarrow> refusal" where
  "toAuthError t =
     (case t of
        JsThrown (AppErr e) \<Rightarrow> refuse e
      | JsThrown _ \<Rightarrow> refuse (unauthorized ''Invalid or expired token'')
      | PrivyThrown (PrivyUserNotSyncedError pid) \<Rightarrow>
          \<lparr>rf_status = 409, rf_code = ''PRIVY_USER_NOT_SYNCED'', rf_message = failure_message (PrivyUserNotSyncedError pid)\<rparr>
      | PrivyThrown (PrivySessionRevokedError _) \<Rightarrow>
          \<lparr>rf_status = 401, rf_code = ''SESSION_REVOKED'', rf_message = ''Session has been revoked''\<rparr>
      | PrivyThrown e \<Rightarrow>
          if isPrivyAvailabilityFailure e then privyUnavailableError (failure_message e)
          else refuse (unauthorized ''Invalid or expired Privy token''))"

text \<open>\<open>degraded\<close> is \<open>isDegraded\<close> of the cache, which exists exactly when there is a configuration.\<close>

definition isPrivyDegraded :: "('tok, 'k) auth_world \<Rightarrow> bool \<Rightarrow> bool" where
  "isPrivyDegraded w degraded \<longleftrightarrow>
     isPrivyAuthEnabled (aw_flags w) \<and> truthy (fl_PRIVY_APP_ID (aw_flags w)) \<and> \<not> isl (aw_config w) \<and> degraded"

text \<open>The parts of the environment a request meets: the key cache, the revocation store, the users.\<close>

record 'k request_env =
  re_keys :: "string \<Rightarrow> privy_failure + 'k"
  re_degraded :: bool
  re_up :: bool
  re_revoked :: revocations
  re_users :: "user table"

definition authenticate_token ::
  "('tok, 'k) auth_world \<Rightarrow> timestamp \<Rightarrow> 'k request_env \<Rightarrow> string \<Rightarrow> auth_thrown + request_user" where
  "authenticate_token w now env text =
     (if looksLikePrivyToken w text
      then if \<not> isPrivyAuthEnabled (aw_flags w)
        then Inl (JsThrown (AppErr (unauthorized ''Privy authentication is not enabled'')))
        else authenticatePrivyToken w now (re_keys env) (re_up env) (re_revoked env) (re_users env) text
      else if \<not> isLegacyAuthEnabled (aw_flags w)
        then Inl (JsThrown (AppErr (unauthorized ''Legacy authentication is not enabled'')))
        else authenticateLegacyToken w now text)"

definition authenticateRequest ::
  "('tok, 'k) auth_world \<Rightarrow> timestamp \<Rightarrow> 'k request_env \<Rightarrow> string option \<Rightarrow> refusal + request_user" where
  "authenticateRequest w now env header =
     (case extractBearerToken header of
        None \<Rightarrow> Inl (refuse (unauthorized ''No token provided''))
      | Some text \<Rightarrow>
          if \<not> isLegacyFallbackEnabled (aw_flags w) \<and> isPrivyDegraded w (re_degraded env)
          then Inl (privyUnavailableError ''Privy is degraded and legacy fallback is disabled'')
          else (case authenticate_token w now env text of Inl t \<Rightarrow> Inl (toAuthError t) | Inr u \<Rightarrow> Inr u))"

text \<open>The user of an optional route, if any.\<close>

definition optionalAuth ::
  "('tok, 'k) auth_world \<Rightarrow> timestamp \<Rightarrow> 'k request_env \<Rightarrow> string option \<Rightarrow> request_user option" where
  "optionalAuth w now env header =
     (case extractBearerToken header of
        None \<Rightarrow> None
      | Some text \<Rightarrow> (case authenticate_token w now env text of Inl _ \<Rightarrow> None | Inr u \<Rightarrow> Some u))"

definition require_role :: "(user_role \<Rightarrow> bool) \<Rightarrow> string \<Rightarrow> refusal + request_user \<Rightarrow> refusal + request_user" where
  "require_role allowed msg r =
     bind_result r (\<lambda>u. case jc_role (fst u) of
        Some role \<Rightarrow> if allowed role then Inr u else Inl (refuse (AE_authorization msg NoDetails None))
      | None \<Rightarrow> Inl (refuse (AE_authorization msg NoDetails None)))"

fun role_name :: "user_role \<Rightarrow> string" where
  "role_name UR_LISTENER = ''listener''"
| "role_name UR_ARTIST = ''artist''"
| "role_name UR_MODERATOR = ''moderator''"
| "role_name UR_ADMIN = ''admin''"
| "role_name UR_SUPER_ADMIN = ''super_admin''"

definition requireRoles ::
  "user_role list \<Rightarrow> ('tok, 'k) auth_world \<Rightarrow> timestamp \<Rightarrow> 'k request_env \<Rightarrow> string option \<Rightarrow> refusal + request_user" where
  "requireRoles roles w now env header =
     require_role (\<lambda>r. r \<in> set roles)
       (''Forbidden: one of these roles is required: '' @ join_with '', '' (map role_name roles)) (authenticateRequest w now env header)"

fun permission_name :: "permission \<Rightarrow> string" where
  "permission_name CONTENT_MODERATE = ''content:moderate''"
| "permission_name CONTENT_MODERATE_BULK = ''content:moderate:bulk''"
| "permission_name JOBS_VIEW = ''jobs:view''"
| "permission_name SEARCH_MANAGE = ''search:manage''"
| "permission_name USER_MANAGE = ''user:manage''"
| "permission_name ROLE_ASSIGN = ''role:assign''"
| "permission_name VERIFICATION_REVIEW = ''verification:review''"
| "permission_name TRANSACTION_LOGS_VIEW = ''transaction-logs:view''"
| "permission_name AI_USAGE_VIEW = ''ai-usage:view''"

definition requirePermission ::
  "permission \<Rightarrow> ('tok, 'k) auth_world \<Rightarrow> timestamp \<Rightarrow> 'k request_env \<Rightarrow> string option \<Rightarrow> refusal + request_user" where
  "requirePermission p w now env header =
     require_role (\<lambda>r. roleHasPermission r p) (''Forbidden: missing required permission: '' @ permission_name p)
       (authenticateRequest w now env header)"

definition requireEmailVerified :: "request_user option \<Rightarrow> refusal option" where
  "requireEmailVerified u =
     (case u of
        None \<Rightarrow> Some (refuse (unauthorized ''No user in session''))
      | Some (c, _) \<Rightarrow> if jc_emailVerified c = Some False
          then Some (refuse (AE_authorization ''Email verification required for this action'' NoDetails None)) else None)"

definition requireArtistAndVerified ::
  "('tok, 'k) auth_world \<Rightarrow> timestamp \<Rightarrow> 'k request_env \<Rightarrow> string option \<Rightarrow> refusal + request_user" where
  "requireArtistAndVerified w now env header =
     bind_result (requireRoles [UR_ARTIST, UR_ADMIN] w now env header)
       (\<lambda>u. case requireEmailVerified (Some u) of Some r \<Rightarrow> Inl r | None \<Rightarrow> Inr u)"

subsection \<open>The routes of the provider\<close>

text \<open>
  \<open>requirePrivyAuth\<close> puts the identity of the provider on the request (\<open>privyUser\<close>), and no \<open>user\<close>. \<open>enabled\<close> is
  \<open>isPrivyEnabled\<close>, read once at start.
\<close>

definition requirePrivyAuth ::
  "('tok, 'k) auth_world \<Rightarrow> bool \<Rightarrow> timestamp \<Rightarrow> 'k request_env \<Rightarrow> string option \<Rightarrow> refusal + string" where
  "requirePrivyAuth w enabled now env header =
     (let failed = (\<lambda>msg. Inl (refuse (AE_authentication msg NoDetails None))) in
      if \<not> enabled then failed ''Privy authentication is not enabled''
      else (case or_none header of
          None \<Rightarrow> failed ''Privy token required''
        | Some h \<Rightarrow>
            if \<not> starts_with ''Bearer '' h then failed ''Privy token required''
            else if isl (aw_config w) then failed ''Privy authentication is misconfigured (no PRIVY_APP_ID)''
            else (case verifyPrivyAccessToken w now (re_keys env) (re_up env) (re_revoked env) (js_trim (drop 7 h)) of
                Inr v \<Rightarrow> Inr (vt_userId v)
              | Inl (PrivyThrown e) \<Rightarrow>
                  if isPrivyAvailabilityFailure e then Inl (privyUnavailableError (failure_message e)) else failed ''Invalid Privy token''
              | Inl (JsThrown _) \<Rightarrow> failed ''Invalid Privy token'')))"

text \<open>The handler of \<open>POST /privy/refresh-token\<close> after the middleware, and the one of \<open>POST /privy/logout\<close>.\<close>

definition privy_refresh_handler ::
  "'tok auth_env \<Rightarrow> timestamp \<Rightarrow> string \<Rightarrow> ident \<Rightarrow> string \<Rightarrow> 'tok option \<Rightarrow> ('tok auth_db, 'tok \<times> 'tok) service" where
  "privy_refresh_handler env now jti uuid privyUser tok db =
     (case tok of
        None \<Rightarrow> (Inl (auth_failed ''User ID and refresh token required''), db)
      | Some t \<Rightarrow> if privyUser = [] then (Inl (auth_failed ''User ID and refresh token required''), db)
          else privyRefreshToken env now jti uuid privyUser t db)"

definition privy_logout_handler :: "request_user option \<Rightarrow> ('tok auth_db, unit) service" where
  "privy_logout_handler reqUser db =
     (case Option.bind reqUser (\<lambda>u. or_none (jc_id (fst u))) of
        None \<Rightarrow> (Inl (auth_failed ''User ID required''), db)
      | Some uid \<Rightarrow> privyLogout uid db)"

subsection \<open>What an accepted request proves\<close>

lemma bind_result_simps [simp]: "bind_result (Inl e) f = Inl e" "bind_result (Inr a) f = f a"
  by (simp_all add: bind_result_def)

lemma bind_result_Inr: "bind_result r f = Inr b \<longleftrightarrow> (\<exists>a. r = Inr a \<and> f a = Inr b)"
  by (cases r) auto

lemma or_none_Some: "or_none v = Some s \<longleftrightarrow> v = Some s \<and> s \<noteq> []"
  by (cases v) (auto simp: or_none_def truthy_def)

lemma check_header_Inr:
  "check_header keys h = Inr k \<longleftrightarrow> jh_alg h = Some ''ES256'' \<and> (jh_typ h = Some ''JWT'' \<or> \<not> truthy (jh_typ h)) \<and>
     (\<exists>kid. jh_kid h = Some kid \<and> kid \<noteq> [] \<and> keys kid = Inr k)"
  by (auto simp: check_header_def or_none_def truthy_def split: option.split sum.split)

lemma check_signature_Inr: "check_signature w now app tx k = Inr c \<longleftrightarrow> aw_verify w now k app (aw_read w tx) = Inr c"
  by (auto simp: check_signature_def split: sum.split jwt_failure.split)

lemma claims_of_Inr:
  "claims_of c = Inr v \<Longrightarrow> cl_sub c = Some (vt_userId v) \<and> cl_sid c = Some (vt_sessionId v) \<and> cl_iat c = Some (vt_issuedAt v) \<and>
     vt_userId v \<noteq> []"
  by (auto simp: claims_of_def requireString_def requireNumber_def bind_result_Inr or_none_Some split: option.splits)

lemma verify_Inr:
  "verifyPrivyAccessToken w now keys up rv tx = Inr v \<Longrightarrow>
     \<exists>cfg h kid k c. aw_config w = Inr cfg \<and> aw_header w (aw_read w tx) = Some h \<and> jh_alg h = Some ''ES256'' \<and>
       jh_kid h = Some kid \<and> keys kid = Inr k \<and> aw_verify w now k (pc_appId cfg) (aw_read w tx) = Inr c \<and> claims_of c = Inr v \<and>
       \<not> isSessionRevoked (aw_flags w) up now (vt_sessionId v) (vt_userId v) (vt_issuedAt v) rv"
  by (auto simp: verifyPrivyAccessToken_def bind_result_Inr readJwtHeader_def check_header_Inr check_signature_Inr
      split: sum.splits if_splits option.splits)

lemma resolve_user_Inr:
  "resolve_user users pid = Inr u \<Longrightarrow> u \<in> set users \<and> us_privyUserId u = Some pid \<and> us_deletedAt u = None \<and>
     us_deletionRequestedAt u = None"
  by (auto simp: resolve_user_def dest: tbl_find_SomeD split: option.splits if_splits)

text \<open>
  C32: A request is let in as a user only on a verified credential that the mode allows: a token of the service,
  signed with its secret, naming an id; or a provider token whose signing key the cache holds, verified for this
  app, of a session that is not revoked, linked to an account that is neither deleted nor waiting for deletion. The
  provider's user gets the role the database holds.
\<close>

theorem accepted_requests_are_verified:
  assumes "authenticateRequest w now env header = Inr (c, m)"
  shows "\<exists>tx. extractBearerToken header = Some tx \<and>
     (m = LegacyToken \<and> getAuthMode (aw_flags w) \<noteq> PrivyMode \<and>
        (\<exists>s. ae_JWT_SECRET (aw_auth w) = Some s \<and> s \<noteq> [] \<and> ae_verify (aw_auth w) now s (aw_read w tx) = Inr c) \<and> truthy (jc_id c) \<or>
      m = PrivyToken \<and> getAuthMode (aw_flags w) \<noteq> LegacyMode \<and>
        (\<exists>cfg h kid k p v u. aw_config w = Inr cfg \<and> aw_header w (aw_read w tx) = Some h \<and> jh_alg h = Some ''ES256'' \<and>
           jh_kid h = Some kid \<and> re_keys env kid = Inr k \<and> aw_verify w now k (pc_appId cfg) (aw_read w tx) = Inr p \<and>
           claims_of p = Inr v \<and>
           \<not> isSessionRevoked (aw_flags w) (re_up env) now (vt_sessionId v) (vt_userId v) (vt_issuedAt v) (re_revoked env) \<and>
           u \<in> set (re_users env) \<and> us_privyUserId u = Some (vt_userId v) \<and> us_deletedAt u = None \<and> us_deletionRequestedAt u = None \<and>
           jc_id c = Some (us_id u) \<and> jc_role c = Some (us_role u)))"
proof -
  obtain tx where tx: "extractBearerToken header = Some tx" "authenticate_token w now env tx = Inr (c, m)"
    using assms by (auto simp: authenticateRequest_def split: option.splits if_splits sum.splits)
  show ?thesis
  proof (cases "looksLikePrivyToken w tx")
    case False
    with tx have "isLegacyAuthEnabled (aw_flags w)" "authenticateLegacyToken w now tx = Inr (c, m)"
      by (auto simp: authenticate_token_def split: if_splits)
    with tx(1) show ?thesis
      by (auto simp: isLegacyAuthEnabled_def authenticateLegacyToken_def or_none_Some split: option.splits sum.splits jwt_failure.splits if_splits)
  next
    case True
    with tx have on: "isPrivyAuthEnabled (aw_flags w)"
      "authenticatePrivyToken w now (re_keys env) (re_up env) (re_revoked env) (re_users env) tx = Inr (c, m)"
      by (auto simp: authenticate_token_def split: if_splits)
    then obtain v u where v: "verifyPrivyAccessToken w now (re_keys env) (re_up env) (re_revoked env) tx = Inr v"
      "resolve_user (re_users env) (vt_userId v) = Inr u" "jc_id c = Some (us_id u)" "jc_role c = Some (us_role u)" "m = PrivyToken"
      by (auto simp: authenticatePrivyToken_def bind_result_Inr split: sum.splits)
    from verify_Inr [OF v(1)] resolve_user_Inr [OF v(2)] v(3-5) on(1) tx(1) show ?thesis
      by (simp add: isPrivyAuthEnabled_def) blast
  qed
qed

subsection \<open>Outages\<close>











subsection \<open>Revocation\<close>

text \<open>Revocations at their times; the store may be down for one, which then changes nothing.\<close>

datatype revocation_op = RO_session ident int | RO_user ident

fun revocation_step :: "bool \<times> timestamp \<times> revocation_op \<Rightarrow> revocations \<Rightarrow> revocations" where
  "revocation_step (up, now, RO_session sid expiresAt) rv = snd (revokeSession up now sid expiresAt rv)"
| "revocation_step (up, now, RO_user uid) rv = snd (revokeAllForUser up now uid rv)"

text \<open>
  What an event writes, if anything: the time until which it marks a session, and the cutoff it sets for a user.
\<close>

type_synonym revocation_event = "bool \<times> timestamp \<times> revocation_op"

fun mark_of :: "ident \<Rightarrow> revocation_event \<Rightarrow> timestamp option" where
  "mark_of sid (up, now, RO_session s ex) =
     (if up \<and> s = sid \<and> now < seconds ex then Some (now + seconds (revocation_ttl now ex)) else None)"
| "mark_of sid (up, now, RO_user u) = None"

fun cutoff_of :: "ident \<Rightarrow> revocation_event \<Rightarrow> timestamp option" where
  "cutoff_of uid (up, now, RO_session s ex) = None"
| "cutoff_of uid (up, now, RO_user u) = (if up \<and> u = uid then Some now else None)"

text \<open>The last value the events of a run write.\<close>

primrec latest :: "('e \<Rightarrow> 'a option) \<Rightarrow> 'e list \<Rightarrow> 'a option" where
  "latest f [] = None"
| "latest f (e # es) = (case latest f es of None \<Rightarrow> f e | Some x \<Rightarrow> Some x)"

lemma ttl_covers: "seconds ex \<le> now + seconds (revocation_ttl now ex)" "now + seconds (revocation_ttl now ex) < seconds ex + 1000"
proof -
  have "(now - ex * 1000) div 1000 * 1000 \<le> now - ex * 1000" "now - ex * 1000 < (now - ex * 1000) div 1000 * 1000 + 1000"
    using div_mult_mod_eq [of "now - ex * 1000" 1000] pos_mod_sign [of 1000 "now - ex * 1000"]
      pos_mod_bound [of 1000 "now - ex * 1000"] by linarith+
  then show "seconds ex \<le> now + seconds (revocation_ttl now ex)" "now + seconds (revocation_ttl now ex) < seconds ex + 1000"
    by (simp_all add: revocation_ttl_def seconds_def)
qed

lemma ttl_pos: "0 < revocation_ttl now ex \<longleftrightarrow> now < seconds ex"
  using ttl_covers(1) [of ex now] ttl_covers(2) [of now ex] unfolding seconds_def by linarith

lemma session_after:
  "rv_sessions (fold revocation_step es rv) sid = (case latest (mark_of sid) es of None \<Rightarrow> rv_sessions rv sid | Some u \<Rightarrow> Some u)"
proof (induction es arbitrary: rv)
  case (Cons e es)
  obtain up now op' where e: "e = (up, now, op')" by (cases e)
  have "rv_sessions (revocation_step e rv) sid = (case mark_of sid e of None \<Rightarrow> rv_sessions rv sid | Some u \<Rightarrow> Some u)"
    by (cases op') (auto simp: e revokeSession_def revokeAllForUser_def Let_def not_le ttl_pos [symmetric])
  with Cons show ?case by (simp split: option.split)
qed simp

lemma cutoff_after:
  "rv_cutoffs (fold revocation_step es rv) uid = (case latest (cutoff_of uid) es of None \<Rightarrow> rv_cutoffs rv uid | Some u \<Rightarrow> Some u)"
proof (induction es arbitrary: rv)
  case (Cons e es)
  obtain up now op' where e: "e = (up, now, op')" by (cases e)
  have "rv_cutoffs (revocation_step e rv) uid = (case cutoff_of uid e of None \<Rightarrow> rv_cutoffs rv uid | Some u \<Rightarrow> Some u)"
    by (cases op') (auto simp: e revokeSession_def revokeAllForUser_def Let_def)
  with Cons show ?case by (simp split: option.split)
qed simp

text \<open>The tests of a token other than the revocation.\<close>

lemma verify_iff:
  "verifyPrivyAccessToken w t keys up rv tx = Inr v \<longleftrightarrow>
     verifyPrivyAccessToken w t keys True no_revocations tx = Inr v \<and>
     \<not> isSessionRevoked (aw_flags w) up t (vt_sessionId v) (vt_userId v) (vt_issuedAt v) rv"
proof -
  have "\<not> isSessionRevoked f True t sid uid iat no_revocations" for f sid uid iat
    by (simp add: isSessionRevoked_def no_revocations_def)
  then show ?thesis
    unfolding verifyPrivyAccessToken_def by (cases "aw_config w") (auto simp: bind_result_Inr split: if_splits)
qed

lemma verified_user:
  assumes "verifyPrivyAccessToken w t keys up rv tx = Inr v"
  shows "vt_userId v \<noteq> []"
proof -
  obtain c where "claims_of c = Inr v" using verify_Inr [OF assms] by blast
  then show ?thesis using claims_of_Inr by blast
qed

text \<open>
  C34: Which revocations count, exactly. With the store up, a token that passes all other tests is let through when
  the latest successful revocation of its session, if there was one, marks the session only until now or earlier, and
  the latest successful revocation of all sessions of its user, if there was one, is not later than its issue. A mark
  lasts until the expiry it was given, rounded up by less than a second, so no token of the session passes before
  that, unless a later revocation of the same session names an earlier expiry, which replaces the mark and lets the
  session in again. With the store down nothing passes when the operator chose to fail closed, and when he chose to
  fail open every revocation is ignored.
\<close>

theorem latest_revocation_decides:
  "(verifyPrivyAccessToken w t keys True (fold revocation_step es no_revocations) tx = Inr v \<longleftrightarrow>
      verifyPrivyAccessToken w t keys True no_revocations tx = Inr v \<and>
      (case latest (mark_of (vt_sessionId v)) es of None \<Rightarrow> True | Some u \<Rightarrow> u \<le> t) \<and>
      (case latest (cutoff_of (vt_userId v)) es of None \<Rightarrow> True | Some c \<Rightarrow> c \<le> seconds (vt_issuedAt v))) \<and>
   (t0 < seconds ex \<longrightarrow> (\<exists>u. mark_of sid (True, t0, RO_session sid ex) = Some u \<and> seconds ex \<le> u \<and> u < seconds ex + 1000)) \<and>
   (verifyPrivyAccessToken w t keys False (fold revocation_step es no_revocations) tx = Inr v \<longleftrightarrow>
      fl_PRIVY_REVOCATION_FAILURE_MODE (aw_flags w) = Some ''open'' \<and> verifyPrivyAccessToken w t keys True no_revocations tx = Inr v)"
proof (intro conjI impI)
  let ?rv = "fold revocation_step es no_revocations"
  have none: "rv_sessions no_revocations sid = None" "rv_cutoffs no_revocations uid = None" for sid uid
    by (simp_all add: no_revocations_def)
  have "vt_userId v \<noteq> []" if "verifyPrivyAccessToken w t keys True no_revocations tx = Inr v"
    using that by (rule verified_user)
  then show "verifyPrivyAccessToken w t keys True ?rv tx = Inr v \<longleftrightarrow>
      verifyPrivyAccessToken w t keys True no_revocations tx = Inr v \<and>
      (case latest (mark_of (vt_sessionId v)) es of None \<Rightarrow> True | Some u \<Rightarrow> u \<le> t) \<and>
      (case latest (cutoff_of (vt_userId v)) es of None \<Rightarrow> True | Some c \<Rightarrow> c \<le> seconds (vt_issuedAt v))"
    unfolding verify_iff [of w t keys True ?rv]
    by (auto simp: isSessionRevoked_def session_after cutoff_after none not_less split: option.splits)
  show "\<exists>u. mark_of sid (True, t0, RO_session sid ex) = Some u \<and> seconds ex \<le> u \<and> u < seconds ex + 1000" if "t0 < seconds ex"
    using that ttl_covers(1) [of ex t0] ttl_covers(2) [of t0 ex] by simp
  show "verifyPrivyAccessToken w t keys False ?rv tx = Inr v \<longleftrightarrow>
      fl_PRIVY_REVOCATION_FAILURE_MODE (aw_flags w) = Some ''open'' \<and> verifyPrivyAccessToken w t keys True no_revocations tx = Inr v"
    unfolding verify_iff [of w t keys False ?rv] by (auto simp: isSessionRevoked_def)
qed

subsection \<open>A second factor that is passed by\<close>

text \<open>What \<open>jsonwebtoken\<close> documents: a token verifies with the secret it was signed with until it expires.\<close>

definition jwt_lawful :: "'tok auth_env \<Rightarrow> bool" where
  "jwt_lawful a \<longleftrightarrow> (\<forall>t s c e. t < e \<longrightarrow> ae_verify a t s (ae_sign a s c e) = Inr c)"

lemma login_gives_partial:
  assumes "loginWithEmail env now violations dto db = (Inr (TwoFactorRequired tok u), db1)" and "jwt_lawful (ac_auth env)"
    and "t < now + seconds 300"
  obtains s where "ae_JWT_SECRET (ac_auth env) = Some s" "s \<noteq> []" "db1 = db"
    "find_user_by (\<lambda>u. us_email u = Some (lr_email dto)) db = Some u" "us_twoFactorEnabled u" "truthy (us_passwordHash u)"
    "ae_verify (ac_auth env) t s tok = Inr (no_claims\<lparr>jc_id := Some (us_id u), jc_type := Some ''2fa_partial''\<rparr>)"
proof -
  obtain u0 h where u0: "find_user_by (\<lambda>u. us_email u = Some (lr_email dto)) db = Some u0" "us_passwordHash u0 = Some h"
    "login_rest env now dto u0 db = (Inr (TwoFactorRequired tok u), db1)" "h \<noteq> []"
    using assms(1) login_needs_password [OF assms(1)] by (auto simp: loginWithEmail_def or_none_Some split: if_splits option.splits)
  then have "us_twoFactorEnabled u0" "generatePartialToken env now u0 = Inr tok" "u = u0" "db1 = db"
    by (auto simp: login_rest_def finish_login_def split: if_splits sum.splits prod.splits)
  moreover from this obtain s where "ae_JWT_SECRET (ac_auth env) = Some s" "s \<noteq> []"
    "tok = ae_sign (ac_auth env) s (no_claims\<lparr>jc_id := Some (us_id u), jc_type := Some ''2fa_partial''\<rparr>) (now + seconds 300)"
    by (auto simp: generatePartialToken_def or_none_Some split: option.splits)
  ultimately show ?thesis using u0 assms(2,3) by (intro that [of s]) (simp_all add: jwt_lawful_def truthy_def)
qed

text \<open>The header of a request that carries a token of the service.\<close>

definition carries :: "('tok, 'k) auth_world \<Rightarrow> string option \<Rightarrow> 'tok \<Rightarrow> bool" where
  "carries w header tok \<longleftrightarrow>
     (\<exists>tx. extractBearerToken header = Some tx \<and> aw_read w tx = tok \<and> \<not> looksLikePrivyToken w tx)"

lemma enable_overwrites:
  assumes "users_ok db" and "find_user_by p db = Some u" and "truthy (us_passwordHash u)"
  obtains db2 u2 where "enableTwoFactor env secret backup (us_id u) db = (Inr (secret, map fst backup), db2)"
    "find_user (us_id u) (adb_users db2) = Some u2" "us_id u2 = us_id u" "us_twoFactorEnabled u2" "us_twoFactorSecret u2 = Some secret"
    "adb_tokens db2 = adb_tokens db"
proof -
  let ?u = "u\<lparr>us_twoFactorEnabled := True, us_twoFactorSecret := Some secret,
    us_recoveryHashes := Some (map (\<lambda>(code, salt). ac_hash env salt (normalizeRecoveryCode code)) backup)\<rparr>"
  have t: "tbl_ok us_id (adb_users db)" using assms(1) by (simp add: users_ok_def)
  obtain db2 where up: "update_user ?u db = (Inr ?u, db2)"
    using update_not_refused [OF assms(1,2), of ?u] by (auto simp: written_def unique_columns_def)
  have row: "find_user (us_id u) (adb_users db2) = Some (written u ?u)"
    using update_found(2) [OF t assms(2) _ up] users.lookup_store_same [of "written u ?u" "adb_users db"] by (simp add: find_user_def)
  show ?thesis
  proof (rule that [OF _ row])
    show "enableTwoFactor env secret backup (us_id u) db = (Inr (secret, map fst backup), db2)"
      using found_row(1) [OF t assms(2)] assms(3) up by (simp add: enableTwoFactor_def)
    show "adb_tokens db2 = adb_tokens db" using update_found(3) [OF t assms(2) _ up] by simp
  qed (simp_all add: written_def)
qed

text \<open>
  The second factor does not protect an account whose password is known. The partial token that a login hands
  out before the second factor is accepted by the middleware as the user; with it the user's authenticator secret
  and recovery codes are replaced by a new enrolment; and a code of that new secret completes the login.
\<close>

theorem partial_token_bypasses_second_factor:
  assumes "loginWithEmail env now violations dto db = (Inr (TwoFactorRequired tok u), db1)"
    and "aw_auth w = ac_auth env" "jwt_lawful (ac_auth env)" and "users_ok db" and "us_id u \<noteq> []"
    and "carries w header tok" "isLegacyAuthEnabled (aw_flags w)" "isLegacyFallbackEnabled (aw_flags w)"
    and "t < now + seconds 300" and "secret \<noteq> []" "ac_totp env t secret (strip_spaces code)"
    and "\<And>u2. us_id u2 = us_id u \<Longrightarrow> signRefreshToken (ac_auth env) t jti u2 \<notin> set (map rt_token (adb_tokens db))"
  shows "\<exists>c db2 access refresh db3. authenticateRequest w t renv header = Inr (c, LegacyToken) \<and> jc_id c = Some (us_id u) \<and>
     enableTwoFactor env secret backup (us_id u) db1 = (Inr (secret, map fst backup), db2) \<and>
     completeTwoFactorLogin env t jti uuid tok code db2 = (Inr (access, refresh), db3)"
proof -
  obtain s where s: "ae_JWT_SECRET (ac_auth env) = Some s" "s \<noteq> []" "db1 = db"
    "find_user_by (\<lambda>u. us_email u = Some (lr_email dto)) db = Some u" "us_twoFactorEnabled u" "truthy (us_passwordHash u)"
    "ae_verify (ac_auth env) t s tok = Inr (no_claims\<lparr>jc_id := Some (us_id u), jc_type := Some ''2fa_partial''\<rparr>)"
    by (rule login_gives_partial [OF assms(1,3,9)])
  have secret: "or_none (ae_JWT_SECRET (ac_auth env)) = Some s" using s(1,2) by (simp add: or_none_Some)
  obtain tx where tx: "extractBearerToken header = Some tx" "aw_read w tx = tok" "\<not> looksLikePrivyToken w tx"
    using assms(6) by (auto simp: carries_def)
  have auth: "authenticateRequest w t renv header = Inr (no_claims\<lparr>jc_id := Some (us_id u), jc_type := Some ''2fa_partial''\<rparr>, LegacyToken)"
    using tx assms(2,5,7,8) s(7) secret
    by (simp add: authenticateRequest_def authenticate_token_def authenticateLegacyToken_def truthy_def)
  obtain db2 u2 where e: "enableTwoFactor env secret backup (us_id u) db = (Inr (secret, map fst backup), db2)"
    "find_user (us_id u) (adb_users db2) = Some u2" "us_id u2 = us_id u" "us_twoFactorEnabled u2" "us_twoFactorSecret u2 = Some secret"
    "adb_tokens db2 = adb_tokens db"
    by (rule enable_overwrites [OF assms(4) s(4,6)])
  have "verifyTotpCode env t u2 code" using e(5) assms(10,11) by (simp add: verifyTotpCode_def or_none_def truthy_def)
  moreover obtain db3 where "session_for env t jti uuid u2 db2 =
     (Inr (ae_sign (ac_auth env) s (user_claims u2) (t + seconds 900), signRefreshToken (ac_auth env) t jti u2), db3)"
    using session_for_Inr [OF s(1,2), of t jti u2 db2 uuid] assms(12) [OF e(3)] e(6) by auto
  ultimately have "completeTwoFactorLogin env t jti uuid tok code db2 =
     (Inr (ae_sign (ac_auth env) s (user_claims u2) (t + seconds 900), signRefreshToken (ac_auth env) t jti u2), db3)"
    using secret s(7) e(2,4) by (simp add: completeTwoFactorLogin_def)
  with auth e(1) s(3) show ?thesis by auto
qed

subsection \<open>The provider's routes\<close>

text \<open>
  Ids of accounts are uuids the database makes; the identity the middleware puts on a request is the provider's.
  So the refresh route never finds an account, and the logout route looks for a user the middleware never sets.
\<close>

theorem privy_routes_always_refuse:
  assumes "requirePrivyAuth w enabled now env header = Inr pid" and "list_all (\<lambda>u. us_id u \<noteq> pid) (adb_users db)"
  shows "isl (fst (privy_refresh_handler a now jti uuid pid tok db)) \<and> snd (privy_refresh_handler a now jti uuid pid tok db) = db \<and>
     privy_logout_handler None db = (Inl (auth_failed ''User ID required''), db)"
proof -
  have "find_user pid (adb_users db) = None" using assms(2) by (auto simp: find_user_def tbl_find_None_iff list_all_iff)
  then show ?thesis
    by (simp add: privy_refresh_handler_def privyRefreshToken_def privy_logout_handler_def split: option.split)
qed

subsection \<open>Concrete runs\<close>

text \<open>Three texts: a token of the service, the partial token of \<open>two_factor_user\<close>, and a provider token.\<close>

definition partial_claims :: jwt_claims where
  "partial_claims = no_claims\<lparr>jc_id := Some ''u'', jc_type := Some ''2fa_partial''\<rparr>"

definition sample_read :: "string \<Rightarrow> plain_token" where
  "sample_read tx = (if tx = ''L'' then (''k'', no_claims\<lparr>jc_id := Some ''u''\<rparr>, 900000)
     else if tx = ''T'' then (''k'', partial_claims, 0 + seconds 300) else (''p'', no_claims, 0))"

definition sample_header :: "plain_token \<Rightarrow> jwt_header option" where
  "sample_header tok = (if fst tok = ''k'' then Some \<lparr>jh_alg = Some ''HS256'', jh_kid = None, jh_typ = Some ''JWT''\<rparr>
     else Some \<lparr>jh_alg = Some ''ES256'', jh_kid = Some ''a'', jh_typ = Some ''JWT''\<rparr>)"

definition sample_claims :: privy_claims where
  "sample_claims = \<lparr>cl_sub = Some ''did'', cl_sid = Some ''s1'', cl_iss = Some ''privy.io'', cl_aud = Some ''app'',
     cl_iat = Some 5, cl_exp = Some 900\<rparr>"

definition sample_world :: "(plain_token, string) auth_world" where
  "sample_world = \<lparr>aw_read = sample_read, aw_header = sample_header, aw_verify = (\<lambda>now k app tok. Inr sample_claims),
     aw_auth = plain_env,
     aw_flags = \<lparr>fl_AUTH_MODE = Some ''both'', fl_PRIVY_ALLOW_LEGACY_FALLBACK = None, fl_ENABLE_LEGACY_EVM_AUTH = None,
       fl_PRIVY_APP_ID = Some ''app'', fl_PRIVY_REVOCATION_FAILURE_MODE = None\<rparr>,
     aw_config = Inr sample_config\<rparr>"

definition sample_request_env :: "string request_env" where
  "sample_request_env = \<lparr>re_keys = (\<lambda>_. Inl (PrivyKeyUnavailableError ''down'')), re_degraded = False, re_up = True,
     re_revoked = no_revocations, re_users = []\<rparr>"

lemma sample_world_facts [simp]:
  "aw_read sample_world = sample_read" "aw_header sample_world = sample_header" "aw_verify sample_world now k app tok = Inr sample_claims"
  "aw_auth sample_world = plain_env" "aw_config sample_world = Inr sample_config" "re_keys sample_request_env kid = Inl (PrivyKeyUnavailableError ''down'')"
  "fl_PRIVY_REVOCATION_FAILURE_MODE (aw_flags sample_world) = None"
  by (simp_all add: sample_world_def sample_request_env_def)

lemma sample_flags:
  "isLegacyAuthEnabled (aw_flags sample_world)" "isPrivyAuthEnabled (aw_flags sample_world)" "isLegacyFallbackEnabled (aw_flags sample_world)"
  by code_simp+

lemma sample_texts:
  "extractBearerToken (Some ''Bearer L'') = Some ''L''" "extractBearerToken (Some ''Bearer T'') = Some ''T''"
  "extractBearerToken (Some ''Bearer P'') = Some ''P''"
  by code_simp+

lemma sample_look: "\<not> looksLikePrivyToken sample_world ''L''" "\<not> looksLikePrivyToken sample_world ''T''"
  by (simp_all add: looksLikePrivyToken_def readJwtHeader_def sample_header_def sample_read_def)

lemma sample_lawful: "jwt_lawful plain_env"
  by (simp add: jwt_lawful_def plain_env_def plain_verify_def)

theorem accepted_requests_are_verified_witness:
  "\<exists>s. ae_JWT_SECRET (aw_auth sample_world) = Some s \<and> ae_verify (aw_auth sample_world) 0 s (sample_read ''L'') = Inr (no_claims\<lparr>jc_id := Some ''u''\<rparr>)"
proof -
  have "authenticateRequest sample_world 0 sample_request_env (Some ''Bearer L'') = Inr (no_claims\<lparr>jc_id := Some ''u''\<rparr>, LegacyToken)"
    by (simp add: authenticateRequest_def sample_texts sample_flags authenticate_token_def sample_look authenticateLegacyToken_def
        or_none_def truthy_def sample_read_def plain_env_def plain_verify_def)
  from accepted_requests_are_verified [OF this] show ?thesis by (auto simp: sample_texts)
qed


lemma sample_verified:
  "verifyPrivyAccessToken sample_world 200000 (\<lambda>_. Inr ''k'') True no_revocations ''P'' =
   Inr \<lparr>vt_userId = ''did'', vt_sessionId = ''s1'', vt_issuer = ''privy.io'', vt_appId = ''app'', vt_issuedAt = 5, vt_expiresAt = 900\<rparr>"
  by (simp add: verifyPrivyAccessToken_def readJwtHeader_def sample_header_def sample_read_def check_header_def or_none_def truthy_def
      check_signature_def claims_of_def sample_claims_def requireString_def requireNumber_def isSessionRevoked_def
      no_revocations_def seconds_def)

text \<open>Revoked until 900 s the session is out at 200 s; revoked again until 100 s only, it is in.\<close>

theorem latest_revocation_decides_witness:
  "(\<forall>v. verifyPrivyAccessToken sample_world 200000 (\<lambda>_. Inr ''k'') True
     (fold revocation_step [(True, 6000, RO_session ''s1'' 900)] no_revocations) ''P'' \<noteq> Inr v) \<and>
   (\<exists>v. verifyPrivyAccessToken sample_world 200000 (\<lambda>_. Inr ''k'') True
     (fold revocation_step [(True, 6000, RO_session ''s1'' 900), (True, 7000, RO_session ''s1'' 100)] no_revocations) ''P'' = Inr v)"
proof -
  let ?v = "\<lparr>vt_userId = ''did'', vt_sessionId = ''s1'', vt_issuer = ''privy.io'', vt_appId = ''app'', vt_issuedAt = 5, vt_expiresAt = 900\<rparr>"
  have m: "latest (mark_of ''s1'') [(True, 6000, RO_session ''s1'' 900)] = Some 900000"
    "latest (mark_of ''s1'') [(True, 6000, RO_session ''s1'' 900), (True, 7000, RO_session ''s1'' 100)] = Some 100000"
    "latest (cutoff_of ''did'') [(True, 6000, RO_session ''s1'' 900), (True, 7000, RO_session ''s1'' 100)] = None"
    by (simp_all add: revocation_ttl_def seconds_def)
  note exact = latest_revocation_decides [of sample_world 200000 "\<lambda>_. Inr ''k''" _ "''P''", THEN conjunct1]
  have "verifyPrivyAccessToken sample_world 200000 (\<lambda>_. Inr ''k'') True
     (fold revocation_step [(True, 6000, RO_session ''s1'' 900)] no_revocations) ''P'' \<noteq> Inr v" for v
    using exact [of "[(True, 6000, RO_session ''s1'' 900)]" v] m(1) sample_verified by auto
  moreover have "verifyPrivyAccessToken sample_world 200000 (\<lambda>_. Inr ''k'') True
     (fold revocation_step [(True, 6000, RO_session ''s1'' 900), (True, 7000, RO_session ''s1'' 100)] no_revocations) ''P'' = Inr ?v"
    using exact [of "[(True, 6000, RO_session ''s1'' 900), (True, 7000, RO_session ''s1'' 100)]" ?v] m(2,3) sample_verified by simp
  ultimately show ?thesis by blast
qed

lemma two_factor_login:
  "loginWithEmail sample_env 0 [] \<lparr>lr_email = ''a'', lr_password = ''pw'', lr_twoFactorCode = None, lr_recoveryCode = None\<rparr> (db_of two_factor_user) =
     (Inr (TwoFactorRequired (''k'', partial_claims, 0 + seconds 300) two_factor_user), db_of two_factor_user)"
  by (simp add: login_after_password [of _ _ two_factor_user "''#pw''"] sample_users login_rest_def generatePartialToken_def or_none_def
      truthy_def partial_claims_def plain_env_def)

theorem partial_token_bypasses_second_factor_witness:
  "\<exists>db2 access refresh db3. enableTwoFactor sample_env ''mine'' [] ''u'' (db_of two_factor_user) = (Inr (''mine'', []), db2) \<and>
     completeTwoFactorLogin sample_env 1 ''j'' ''x'' (''k'', partial_claims, 0 + seconds 300) ''mine'' db2 = (Inr (access, refresh), db3)"
proof -
  have "carries sample_world (Some ''Bearer T'') (''k'', partial_claims, 0 + seconds 300)"
    by (simp add: carries_def sample_texts sample_look sample_read_def)
  moreover have "strip_spaces ''mine'' = ''mine''" by code_simp
  ultimately show ?thesis
    using partial_token_bypasses_second_factor [OF two_factor_login _ _ db_of_ok, where w = sample_world and header = "Some ''Bearer T''" and
        t = 1 and secret = "''mine''" and code = "''mine''" and backup = "[]" and jti = "''j''" and uuid = "''x''" and renv = sample_request_env]
    by (simp add: sample_users sample_lawful sample_flags seconds_def del: split_paired_Ex) blast
qed

theorem privy_routes_always_refuse_witness:
  "isl (fst (privy_refresh_handler plain_env 20000 ''j'' ''x'' ''did'' None one_user_db))"
proof -
  have "js_trim ''P'' = ''P''" by code_simp
  then have "requirePrivyAuth sample_world True 20000 (sample_request_env\<lparr>re_keys := (\<lambda>_. Inr ''k'')\<rparr>) (Some ''Bearer P'') = Inr ''did''"
    by (simp add: requirePrivyAuth_def or_none_def truthy_def sample_request_env_def verifyPrivyAccessToken_def readJwtHeader_def
        sample_header_def sample_read_def check_header_def check_signature_def claims_of_def sample_claims_def requireString_def
        requireNumber_def isSessionRevoked_def no_revocations_def)
  from privy_routes_always_refuse [OF this, where db = one_user_db and a = plain_env] show ?thesis
    by (simp add: one_user_facts blank_user_facts)
qed

end
