(* ===== verification/Account_Deletion.thy ===== *)
theory Account_Deletion
  imports Request_Auth
begin

text \<open>
  Account deletion (\<open>services/AccountDeletionService.ts\<close>, \<open>entities/AccountDeletionRequest.ts\<close>) and the deletion of a
  provider identity (\<open>privy/PrivyIdentityService.ts\<close>). The erasure is raw SQL: a table is its columns and rows of
  texts, a statement on a table or column that does not exist fails, and the update of the user is modelled by its
  numbered parameters, the types and the constraints of the columns. Whether a failed statement makes the rest of
  its transaction fail too (as PostgreSQL does) is a parameter, and so are what the driver returns for a
  \<open>DELETE\<close>, the cache, and the provider's answer.
\<close>

subsection \<open>State\<close>

record sql_table =
  sq_columns :: "string list"
  sq_rows :: "(string \<Rightarrow> string option) list"

datatype deletion_status = DS_requested | DS_cancelled | DS_completed | DS_failed

datatype privy_deletion = PD_succeeded | PD_failed | PD_skipped

record deletion_request =
  dr_userId :: ident
  dr_status :: deletion_status
  dr_referenceId :: ident
  dr_requestedAt :: timestamp
  dr_gracePeriodEndsAt :: timestamp
  dr_processedAt :: "timestamp option"
  dr_dataExported :: bool
  dr_privyDeletionStatus :: "privy_deletion option"
  dr_notes :: "string option"

record deletion_db =
  dn_users :: "user table"
  dn_requests :: "deletion_request list"
  dn_tables :: "string \<Rightarrow> sql_table option"

definition map_table :: "string \<Rightarrow> ((string \<Rightarrow> string option) list \<Rightarrow> (string \<Rightarrow> string option) list) \<Rightarrow> deletion_db \<Rightarrow> deletion_db" where
  "map_table tbl f db = db\<lparr>dn_tables := (dn_tables db)(tbl := map_option (sq_rows_update f) (dn_tables db tbl))\<rparr>"

definition update_requests :: "(deletion_request \<Rightarrow> bool) \<Rightarrow> (deletion_request \<Rightarrow> deletion_request) \<Rightarrow> deletion_db \<Rightarrow> deletion_db" where
  "update_requests p f db = db\<lparr>dn_requests := map (\<lambda>r. if p r then f r else r) (dn_requests db)\<rparr>"

definition update_user_row :: "ident \<Rightarrow> (user \<Rightarrow> user) \<Rightarrow> deletion_db \<Rightarrow> deletion_db" where
  "update_user_row uid f db = db\<lparr>dn_users := map (\<lambda>u. if us_id u = uid then f u else u) (dn_users db)\<rparr>"

text \<open>\<open>findOne\<close> ordered by \<open>requestedAt\<close>, newest first.\<close>

fun newest :: "deletion_request list \<Rightarrow> deletion_request option" where
  "newest [] = None"
| "newest (r # rs) =
     (case newest rs of None \<Rightarrow> Some r | Some r' \<Rightarrow> if dr_requestedAt r' \<le> dr_requestedAt r then Some r else Some r')"

definition requested_of :: "ident \<Rightarrow> deletion_request \<Rightarrow> bool" where
  "requested_of uid r \<longleftrightarrow> dr_userId r = uid \<and> dr_status r = DS_requested"

definition business_error :: "string \<Rightarrow> js_error" where
  "business_error msg = AppErr (AE_businessLogic msg NoDetails None)"

subsection \<open>Requests\<close>

text \<open>\<open>days\<close> is what \<open>ACCOUNT_DELETION_GRACE_PERIOD_DAYS\<close> parses to.\<close>

definition gracePeriodDays :: "int option \<Rightarrow> int" where
  "gracePeriodDays days = intVar days 30"

record deletion_answer =
  da_referenceId :: ident
  da_requestedAt :: timestamp
  da_scheduledFor :: timestamp
  da_gracePeriodDays :: int

text \<open>The transaction writes the user, the request and the sessions; it fails when the table of sessions is missing.\<close>

definition requestDeletion ::
  "int option \<Rightarrow> timestamp \<Rightarrow> ident \<Rightarrow> ident \<Rightarrow> string option \<Rightarrow> (deletion_db, deletion_answer) service" where
  "requestDeletion days now ref uid reason db =
     (case find_user uid (dn_users db) of
        None \<Rightarrow> (Inl user_not_found, db)
      | Some u \<Rightarrow>
          if us_deletedAt u \<noteq> None then (Inl (business_error ''Account has already been deleted''), db)
          else (case newest (filter (requested_of uid) (dn_requests db)) of
              Some r \<Rightarrow> (Inr \<lparr>da_referenceId = dr_referenceId r, da_requestedAt = dr_requestedAt r,
                 da_scheduledFor = dr_gracePeriodEndsAt r, da_gracePeriodDays = gracePeriodDays days\<rparr>, db)
            | None \<Rightarrow>
                let due = now + gracePeriodDays days * 24 * 60 * 60 * 1000;
                    db1 = update_user_row uid (\<lambda>u. u\<lparr>us_deletionRequestedAt := Some now, us_deletionScheduledFor := Some due,
                            us_deletionReason := reason\<rparr>) db;
                    db2 = db1\<lparr>dn_requests := dn_requests db1 @ [\<lparr>dr_userId = uid, dr_status = DS_requested, dr_referenceId = ref,
                            dr_requestedAt = now, dr_gracePeriodEndsAt = due, dr_processedAt = None, dr_dataExported = False,
                            dr_privyDeletionStatus = None, dr_notes = None\<rparr>]\<rparr>;
                    db3 = map_table ''refresh_tokens'' (map (\<lambda>r. if r ''userId'' = Some uid then r(''revoked'' \<mapsto> ''true'') else r)) db2
                in if dn_tables db ''refresh_tokens'' = None
                   then (Inl (PlainErr ''relation refresh_tokens does not exist'' None), db)
                   else (Inr \<lparr>da_referenceId = ref, da_requestedAt = now, da_scheduledFor = due,
                            da_gracePeriodDays = gracePeriodDays days\<rparr>, db3)))"

definition cancelDeletion :: "ident \<Rightarrow> (deletion_db, unit) service" where
  "cancelDeletion uid db =
     (case find_user uid (dn_users db) of
        None \<Rightarrow> (Inl user_not_found, db)
      | Some u \<Rightarrow>
          if us_deletedAt u \<noteq> None then (Inl (business_error ''Account has already been deleted and cannot be restored''), db)
          else if us_deletionRequestedAt u = None then (Inl (business_error ''No pending deletion request to cancel''), db)
          else (Inr (), update_requests (requested_of uid) (\<lambda>r. r\<lparr>dr_status := DS_cancelled\<rparr>)
                  (update_user_row uid (\<lambda>u. u\<lparr>us_deletionRequestedAt := None, us_deletionScheduledFor := None,
                     us_deletionReason := None\<rparr>) db)))"

datatype deletion_state = NotRequested | Pending timestamp "timestamp option" "ident option" | Erased timestamp

definition deletionStatus :: "ident \<Rightarrow> deletion_db \<Rightarrow> js_error + deletion_state" where
  "deletionStatus uid db =
     (case find_user uid (dn_users db) of
        None \<Rightarrow> Inl user_not_found
      | Some u \<Rightarrow>
          (case us_deletedAt u of
             Some t \<Rightarrow> Inr (Erased t)
           | None \<Rightarrow>
               (case us_deletionRequestedAt u of
                  None \<Rightarrow> Inr NotRequested
                | Some t \<Rightarrow> Inr (Pending t (us_deletionScheduledFor u)
                    (map_option dr_referenceId (newest (filter (\<lambda>r. dr_userId r = uid \<and> dr_status r \<noteq> DS_failed) (dn_requests db))))))))"

subsection \<open>Export\<close>

definition selectRows :: "string \<Rightarrow> string \<Rightarrow> ident \<Rightarrow> deletion_db \<Rightarrow> (string \<Rightarrow> string option) list" where
  "selectRows tbl col uid db =
     (case dn_tables db tbl of
        None \<Rightarrow> []
      | Some t \<Rightarrow> if col \<in> set (sq_columns t) then filter (\<lambda>r. r col = Some uid) (sq_rows t) else [])"

definition export_tables :: "(string \<times> string) list" where
  "export_tables = [(''songs'', ''artistId''), (''albums'', ''artistId''), (''releases'', ''artistId''), (''comments'', ''userId''),
     (''playlists'', ''userId''), (''user_follows'', ''followerId''), (''user_follows'', ''followingId''), (''user_saves'', ''userId''),
     (''song_play_events'', ''listenerId''), (''royalty_payouts'', ''artist_id''), (''transaction_logs'', ''user_id'')]"

definition exportUserData ::
  "ident \<Rightarrow> (deletion_db, user \<times> ((string \<times> string) \<times> (string \<Rightarrow> string option) list) list) service" where
  "exportUserData uid db =
     (case find_user uid (dn_users db) of
        None \<Rightarrow> (Inl user_not_found, db)
      | Some u \<Rightarrow>
          if us_deletedAt u \<noteq> None then (Inl (business_error ''Account has been deleted; no personal data remains''), db)
          else if us_role u = UR_ADMIN \<or> us_role u = UR_SUPER_ADMIN
          then (Inl (AppErr (AE_authorization ''Administrators must use the audited admin data-access path'' NoDetails None)), db)
          else (Inr (u, map (\<lambda>(tbl, col). ((tbl, col), selectRows tbl col uid db)) export_tables),
                update_requests (\<lambda>r. dr_userId r = uid) (\<lambda>r. r\<lparr>dr_dataExported := True\<rparr>) db))"

subsection \<open>The erasure\<close>

definition PURGE_TABLES :: "(string \<times> string) list" where
  "PURGE_TABLES = [(''refresh_tokens'', ''userId''), (''api_keys'', ''userId''), (''webhook_subscriptions'', ''userId''),
     (''notifications'', ''userId''), (''song_saves'', ''userId''), (''user_saves'', ''userId''), (''user_follows'', ''followerId''),
     (''user_follows'', ''followingId''), (''playlist_follows'', ''userId''), (''playlist_collaborators'', ''userId''),
     (''ai_generation_records'', ''userId''), (''tweet_drafts'', ''userId''), (''activity_feeds'', ''userId''),
     (''fan_perks'', ''artistId''), (''subscriptions'', ''userId''), (''gift_subscriptions'', ''senderId''),
     (''gift_subscriptions'', ''recipientId''), (''song_play_events'', ''listenerId''), (''song_collaborators'', ''userId''),
     (''artist_verifications'', ''userId'')]"

definition ANONYMISED_FIELDS :: "string list" where
  "ANONYMISED_FIELDS = [''email'', ''username'', ''name'', ''bio'', ''profileImage'', ''avatarIpfsHash'', ''pageCover'', ''website'',
     ''walletAddress'', ''stellarPublicKey'', ''stellarArtistId'', ''stellarArtistTokenId'', ''passwordHash'', ''twoFactorSecret'',
     ''twoFactorRecoveryCodeHashes'', ''emailVerificationToken'', ''emailVerificationTokenExpiry'', ''passwordResetToken'',
     ''passwordResetTokenExpiry'', ''twitterId'', ''twitterUsername'', ''twitterDisplayName'', ''twitterProfileImage'',
     ''twitterConnected'', ''facebookId'', ''facebookName'', ''facebookEmail'', ''facebookProfileImage'', ''facebookConnected'',
     ''dynamixUserId'', ''privyUserId'']"

text \<open>The values of parameters, and the text a value has in a text column.\<close>

datatype sql_value = SqlNull | SqlTime timestamp | SqlRole user_role | SqlBool bool

fun sql_text :: "sql_value \<Rightarrow> string option option" where
  "sql_text SqlNull = Some None"
| "sql_text (SqlRole r) = Some (Some (role_name r))"
| "sql_text (SqlBool b) = Some (Some (if b then ''true'' else ''false''))"
| "sql_text (SqlTime _) = None"

text \<open>
  Assigning a value to a column of \<open>users\<close>: \<open>None\<close> when the column's type or a not-null constraint refuses it.
  \<open>facebookConnected\<close> and \<open>isProfilePublic\<close> are declared without \<open>nullable\<close>.
\<close>

definition text_columns :: "(string \<times> (string option \<Rightarrow> user \<Rightarrow> user)) list" where
  "text_columns = [
     (''email'', \<lambda>v u. u\<lparr>us_email := v\<rparr>), (''username'', \<lambda>v u. u\<lparr>us_username := v\<rparr>), (''name'', \<lambda>v u. u\<lparr>us_name := v\<rparr>),
     (''bio'', \<lambda>v u. u\<lparr>us_bio := v\<rparr>), (''profileImage'', \<lambda>v u. u\<lparr>us_profileImage := v\<rparr>),
     (''avatarIpfsHash'', \<lambda>v u. u\<lparr>us_avatarIpfsHash := v\<rparr>), (''pageCover'', \<lambda>v u. u\<lparr>us_pageCover := v\<rparr>),
     (''website'', \<lambda>v u. u\<lparr>us_website := v\<rparr>), (''walletAddress'', \<lambda>v u. u\<lparr>us_walletAddress := v\<rparr>),
     (''stellarPublicKey'', \<lambda>v u. u\<lparr>us_stellarPublicKey := v\<rparr>), (''stellarArtistId'', \<lambda>v u. u\<lparr>us_stellarArtistId := v\<rparr>),
     (''stellarArtistTokenId'', \<lambda>v u. u\<lparr>us_stellarArtistTokenId := v\<rparr>), (''passwordHash'', \<lambda>v u. u\<lparr>us_passwordHash := v\<rparr>),
     (''twoFactorSecret'', \<lambda>v u. u\<lparr>us_twoFactorSecret := v\<rparr>), (''emailVerificationToken'', \<lambda>v u. u\<lparr>us_emailVerificationToken := v\<rparr>),
     (''passwordResetToken'', \<lambda>v u. u\<lparr>us_passwordResetToken := v\<rparr>),
     (''twitterId'', \<lambda>v u. u\<lparr>us_twitter := (us_twitter u)\<lparr>tw_id := v\<rparr>\<rparr>),
     (''twitterUsername'', \<lambda>v u. u\<lparr>us_twitter := (us_twitter u)\<lparr>tw_username := v\<rparr>\<rparr>),
     (''twitterDisplayName'', \<lambda>v u. u\<lparr>us_twitter := (us_twitter u)\<lparr>tw_displayName := v\<rparr>\<rparr>),
     (''twitterProfileImage'', \<lambda>v u. u\<lparr>us_twitter := (us_twitter u)\<lparr>tw_profileImage := v\<rparr>\<rparr>),
     (''facebookId'', \<lambda>v u. u\<lparr>us_facebook := (us_facebook u)\<lparr>fb_id := v\<rparr>\<rparr>),
     (''facebookName'', \<lambda>v u. u\<lparr>us_facebook := (us_facebook u)\<lparr>fb_name := v\<rparr>\<rparr>),
     (''facebookEmail'', \<lambda>v u. u\<lparr>us_facebook := (us_facebook u)\<lparr>fb_email := v\<rparr>\<rparr>),
     (''facebookProfileImage'', \<lambda>v u. u\<lparr>us_facebook := (us_facebook u)\<lparr>fb_profileImage := v\<rparr>\<rparr>),
     (''dynamixUserId'', \<lambda>v u. u\<lparr>us_dynamixUserId := v\<rparr>), (''privyUserId'', \<lambda>v u. u\<lparr>us_privyUserId := v\<rparr>)]"

definition set_column :: "string \<Rightarrow> sql_value \<Rightarrow> user \<Rightarrow> user option" where
  "set_column col v u =
     (case map_of text_columns col of
        Some f \<Rightarrow> map_option (\<lambda>x. f x u) (sql_text v)
      | None \<Rightarrow>
          if col = ''deletedAt'' then (case v of SqlTime t \<Rightarrow> Some (u\<lparr>us_deletedAt := Some t\<rparr>) | SqlNull \<Rightarrow> Some (u\<lparr>us_deletedAt := None\<rparr>) | _ \<Rightarrow> None)
          else if col = ''role'' then (case v of SqlRole r \<Rightarrow> Some (u\<lparr>us_role := r\<rparr>) | _ \<Rightarrow> None)
          else if col = ''isProfilePublic'' then (case v of SqlBool b \<Rightarrow> Some (u\<lparr>us_isProfilePublic := b\<rparr>) | _ \<Rightarrow> None)
          else if col = ''twitterConnected''
          then (case v of SqlNull \<Rightarrow> Some (u\<lparr>us_twitter := (us_twitter u)\<lparr>tw_connected := None\<rparr>\<rparr>)
                 | SqlBool b \<Rightarrow> Some (u\<lparr>us_twitter := (us_twitter u)\<lparr>tw_connected := Some b\<rparr>\<rparr>) | _ \<Rightarrow> None)
          else if col = ''facebookConnected''
          then (case v of SqlBool b \<Rightarrow> Some (u\<lparr>us_facebook := (us_facebook u)\<lparr>fb_connected := b\<rparr>\<rparr>) | _ \<Rightarrow> None)
          else if col = ''twoFactorRecoveryCodeHashes'' then (case v of SqlNull \<Rightarrow> Some (u\<lparr>us_recoveryHashes := None\<rparr>) | _ \<Rightarrow> None)
          else if col = ''emailVerificationTokenExpiry''
          then (case v of SqlNull \<Rightarrow> Some (u\<lparr>us_emailVerificationTokenExpiry := None\<rparr>) | _ \<Rightarrow> None)
          else if col = ''passwordResetTokenExpiry''
          then (case v of SqlNull \<Rightarrow> Some (u\<lparr>us_passwordResetTokenExpiry := None\<rparr>) | _ \<Rightarrow> None)
          else None)"

text \<open>The assignments of the statement with the numbers of their parameters, counted from 1, and the parameters.\<close>

definition erasure_assignments :: "(string \<times> nat) list" where
  "erasure_assignments = [(''deletedAt'', 1), (''role'', 2), (''isProfilePublic'', 3)] @
     map (\<lambda>i. (ANONYMISED_FIELDS ! i, i + 2)) [0..<length ANONYMISED_FIELDS]"

definition erasure_params :: "timestamp \<Rightarrow> user \<Rightarrow> sql_value list" where
  "erasure_params now u = [SqlTime now, SqlRole (us_role u), SqlBool False] @ map (\<lambda>_. SqlNull) ANONYMISED_FIELDS"

definition assign_all :: "sql_value list \<Rightarrow> (string \<times> nat) list \<Rightarrow> user \<Rightarrow> user option" where
  "assign_all params as u = fold (\<lambda>(col, n) r. Option.bind r (set_column col (params ! (n - 1)))) as (Some u)"

definition erase_user :: "timestamp \<Rightarrow> user \<Rightarrow> deletion_db \<Rightarrow> string + deletion_db" where
  "erase_user now u db =
     (case find_user (us_id u) (dn_users db) of
        None \<Rightarrow> Inr db
      | Some row \<Rightarrow>
          (case assign_all (erasure_params now u) erasure_assignments row of
             None \<Rightarrow> Inl ''null value in column violates not-null constraint''
           | Some row' \<Rightarrow>
               if user_refused row' (dn_users db) then Inl ''duplicate key value violates unique constraint''
               else Inr (db\<lparr>dn_users := tbl_put us_id row' (dn_users db)\<rparr>)))"

definition delete_rows :: "string \<Rightarrow> string \<Rightarrow> ident \<Rightarrow> deletion_db \<Rightarrow> string + (nat \<times> deletion_db)" where
  "delete_rows tbl col uid db =
     (case dn_tables db tbl of
        None \<Rightarrow> Inl (''relation \"'' @ tbl @ ''\" does not exist'')
      | Some t \<Rightarrow>
          if col \<notin> set (sq_columns t) then Inl (''column \"'' @ col @ ''\" does not exist'')
          else Inr (length (filter (\<lambda>r. r col = Some uid) (sq_rows t)), map_table tbl (filter (\<lambda>r. r col \<noteq> Some uid)) db))"

record purge_state =
  ps_db :: deletion_db
  ps_aborted :: bool
  ps_deleted :: "(string \<times> nat) list"
  ps_warnings :: "string list"

text \<open>The world of an erasure.\<close>

record erasure_world =
  ew_aborts :: bool
  ew_toISOString :: "timestamp \<Rightarrow> string"
  ew_deleteLength :: "nat \<Rightarrow> nat"
  ew_cache :: "string \<Rightarrow> string option"
  ew_songs :: "ident \<Rightarrow> js_error + ident list"
  ew_deletePrivy :: "string \<Rightarrow> js_error + bool"

definition aborted_message :: string where
  "aborted_message = ''current transaction is aborted, commands ignored until end of transaction block''"

definition purge_one :: "erasure_world \<Rightarrow> ident \<Rightarrow> string \<times> string \<Rightarrow> purge_state \<Rightarrow> purge_state" where
  "purge_one w uid p s =
     (case p of (tbl, col) \<Rightarrow>
        case (if ps_aborted s then Inl aborted_message else delete_rows tbl col uid (ps_db s)) of
          Inl e \<Rightarrow> s\<lparr>ps_aborted := ps_aborted s \<or> ew_aborts w,
                     ps_warnings := ps_warnings s @ [''Could not purge '' @ tbl @ ''.'' @ col @ '': '' @ e]\<rparr>
        | Inr (n, db) \<Rightarrow> s\<lparr>ps_db := db, ps_deleted := ps_deleted s @ [(tbl @ ''.'' @ col, ew_deleteLength w n)]\<rparr>)"

definition erase_transaction :: "erasure_world \<Rightarrow> timestamp \<Rightarrow> user \<Rightarrow> deletion_db \<Rightarrow> js_error + purge_state" where
  "erase_transaction w now u db =
     (let s = fold (purge_one w (us_id u)) PURGE_TABLES \<lparr>ps_db = db, ps_aborted = False, ps_deleted = [], ps_warnings = []\<rparr> in
      if ps_aborted s then Inl (PlainErr aborted_message None)
      else (case erase_user now u (ps_db s) of
          Inl e \<Rightarrow> Inl (PlainErr e None)
        | Inr db1 \<Rightarrow> Inr (s\<lparr>ps_db := update_requests (requested_of (us_id u))
            (\<lambda>r. r\<lparr>dr_status := DS_completed, dr_processedAt := Some now\<rparr>) db1\<rparr>)))"

text \<open>Clearing the cached songs stops at the first failure.\<close>

fun clear_songs :: "(string \<Rightarrow> string option) \<Rightarrow> ident list \<Rightarrow> nat \<times> string list" where
  "clear_songs cache [] = (0, [])"
| "clear_songs cache (i # is) =
     (case cache (''song:'' @ i) of
        Some e \<Rightarrow> (0, [''Failed to invalidate song cache: '' @ e])
      | None \<Rightarrow> (let (n, ws) = clear_songs cache is in (Suc n, ws)))"

definition invalidateCaches :: "erasure_world \<Rightarrow> user \<Rightarrow> nat \<times> string list" where
  "invalidateCaches w u =
     (let (n, ws) = (case ew_cache w (''artist:'' @ us_id u) of
            None \<Rightarrow> (1, []) | Some e \<Rightarrow> (0, [''Failed to invalidate artist cache: '' @ e]));
          (m, vs) = (if us_role u \<noteq> UR_ARTIST then (0, [])
            else (case ew_songs w (us_id u) of
                Inl e \<Rightarrow> (0, [''Failed to invalidate song cache: '' @ error_message e])
              | Inr ids \<Rightarrow> clear_songs (ew_cache w) ids))
      in (n + m, ws @ vs))"

record purge_result =
  pr_deleted :: "(string \<times> nat) list"
  pr_cacheKeysInvalidated :: nat
  pr_privyDeletion :: privy_deletion
  pr_warnings :: "string list"

definition purgeUser :: "erasure_world \<Rightarrow> timestamp \<Rightarrow> bool \<Rightarrow> ident \<Rightarrow> (deletion_db, purge_result) service" where
  "purgeUser w now force uid db =
     (case find_user uid (dn_users db) of
        None \<Rightarrow> (Inl user_not_found, db)
      | Some u \<Rightarrow>
          if us_deletedAt u \<noteq> None
          then (Inr \<lparr>pr_deleted = [], pr_cacheKeysInvalidated = 0, pr_privyDeletion = PD_skipped,
                  pr_warnings = [''Account was already deleted; purge is a no-op'']\<rparr>, db)
          else if us_deletionRequestedAt u = None \<and> \<not> force
          then (Inl (business_error ''No pending deletion request for this account''), db)
          else if \<not> force \<and> (case us_deletionScheduledFor u of Some t \<Rightarrow> now < t | None \<Rightarrow> False)
          then (Inl (business_error (''Deletion is scheduled for '' @ ew_toISOString w (the (us_deletionScheduledFor u)) @
                  ''; the grace period has not elapsed'')), db)
          else (case erase_transaction w now u db of
              Inl e \<Rightarrow> (Inl e, db)
            | Inr s \<Rightarrow>
                let (keys, cw) = invalidateCaches w u;
                    (pd, pw) = (case or_none (us_privyUserId u) of
                        None \<Rightarrow> (PD_skipped, [])
                      | Some pid \<Rightarrow> (case ew_deletePrivy w pid of
                            Inr _ \<Rightarrow> (PD_succeeded, [])
                          | Inl e \<Rightarrow> (PD_failed, [''Privy identity deletion failed: '' @ error_message e])))
                in (Inr \<lparr>pr_deleted = ps_deleted s, pr_cacheKeysInvalidated = keys, pr_privyDeletion = pd,
                      pr_warnings = ps_warnings s @ cw @ pw\<rparr>,
                    update_requests (\<lambda>r. dr_userId r = uid) (\<lambda>r. r\<lparr>dr_privyDeletionStatus := Some pd\<rparr>) (ps_db s))))"

definition deletion_due :: "timestamp \<Rightarrow> user \<Rightarrow> bool" where
  "deletion_due now u \<longleftrightarrow> us_deletedAt u = None \<and> us_deletionRequestedAt u \<noteq> None \<and>
     (case us_deletionScheduledFor u of Some t \<Rightarrow> t \<le> now | None \<Rightarrow> False)"

definition due_ids :: "nat \<Rightarrow> timestamp \<Rightarrow> deletion_db \<Rightarrow> ident list" where
  "due_ids limit now db =
     map us_id (take limit (sort_key (\<lambda>u. case us_deletionScheduledFor u of Some t \<Rightarrow> t | None \<Rightarrow> 0)
       (filter (deletion_due now) (dn_users db))))"

fun process_due :: "erasure_world \<Rightarrow> timestamp \<Rightarrow> ident list \<Rightarrow> deletion_db \<Rightarrow> (ident \<times> (js_error + purge_result)) list \<times> deletion_db" where
  "process_due w now [] db = ([], db)"
| "process_due w now (i # is) db =
     (case purgeUser w now False i db of
        (Inr r, db1) \<Rightarrow> (let (rs, db2) = process_due w now is db1 in ((i, Inr r) # rs, db2))
      | (Inl e, db1) \<Rightarrow>
          let (rs, db2) = process_due w now is (update_requests (requested_of i)
                (\<lambda>r. r\<lparr>dr_status := DS_failed, dr_notes := Some (error_message e)\<rparr>) db1)
          in ((i, Inl e) # rs, db2))"

definition processDueDeletions ::
  "erasure_world \<Rightarrow> timestamp \<Rightarrow> nat \<Rightarrow> deletion_db \<Rightarrow> (ident \<times> (js_error + purge_result)) list \<times> deletion_db" where
  "processDueDeletions w now limit db = process_due w now (due_ids limit now db) db"

subsection \<open>The provider's identity\<close>

text \<open>The answer to the request: \<open>None\<close> for success, otherwise the status of the response, if any, and the error.\<close>

definition deleteLinkedPrivyIdentity ::
  "(js_error + privy_config) \<Rightarrow> (string \<Rightarrow> (int option \<times> js_error) option) \<Rightarrow> string \<Rightarrow> js_error + bool" where
  "deleteLinkedPrivyIdentity config call pid =
     (if \<not> starts_with ''did:privy:'' pid then Inl (PlainErr (CHR 0x22 # pid @ ''\" is not a valid Privy DID'') None)
      else (case config of
          Inl e \<Rightarrow> Inl e
        | Inr cfg \<Rightarrow>
            if pc_appSecret cfg = None
            then Inl (PlainErr ''PRIVY_APP_SECRET is required to delete a linked Privy identity'' None)
            else (case call pid of
                None \<Rightarrow> Inr True
              | Some (status, e) \<Rightarrow> if status = Some 404 then Inr False else Inl e)))"

subsection \<open>No account is erased\<close>

lemma assign_all_refused:
  assumes "as = pre @ (col, n) # post" and "\<And>v. set_column col (params ! (n - 1)) v = None"
  shows "assign_all params as u = None"
proof -
  have none: "fold (\<lambda>(col, n) r. Option.bind r (set_column col (params ! (n - 1)))) xs None = None" for xs
    by (induction xs) auto
  have "Option.bind r (set_column col (params ! (n - 1))) = None" for r
    by (cases r) (simp_all add: assms(2) del: One_nat_def)
  then show ?thesis by (simp add: assign_all_def assms(1) none del: One_nat_def)
qed

lemma facebook_assignment:
  "erasure_assignments = take 31 erasure_assignments @ (''facebookConnected'', 30) # drop 32 erasure_assignments"
  by code_simp

lemma erasure_refused: "assign_all (erasure_params now u) erasure_assignments row = None"
proof (rule assign_all_refused [OF facebook_assignment])
  have "erasure_params now u ! (30 - 1) = SqlNull"
    by (simp add: erasure_params_def ANONYMISED_FIELDS_def)
  then show "set_column ''facebookConnected'' (erasure_params now u ! (30 - 1)) v = None" for v
    by (simp add: set_column_def text_columns_def)
qed

lemma map_table_users [simp]: "dn_users (map_table tbl f db) = dn_users db" "dn_requests (map_table tbl f db) = dn_requests db"
  by (simp_all add: map_table_def)

lemma delete_rows_users: "delete_rows tbl col uid db = Inr (n, db') \<Longrightarrow> dn_users db' = dn_users db"
  by (auto simp: delete_rows_def split: option.splits if_splits)

lemma purge_one_users: "dn_users (ps_db (purge_one w uid p s)) = dn_users (ps_db s)"
  by (auto simp: purge_one_def delete_rows_users split: prod.splits sum.splits if_splits)

lemma purge_all_users: "dn_users (ps_db (fold (purge_one w uid) ps s)) = dn_users (ps_db s)"
  by (induction ps arbitrary: s) (simp_all add: purge_one_users)

lemma erase_transaction_fails:
  assumes "find_user (us_id u) (dn_users db) = Some u"
  shows "\<exists>e. erase_transaction w now u db = Inl e"
  using assms by (simp add: erase_transaction_def erase_user_def erasure_refused purge_all_users Let_def)

lemma purgeUser_keeps: "snd (purgeUser w now force uid db) = db"
proof (cases "find_user uid (dn_users db)")
  case (Some u)
  then have "us_id u = uid" by (rule find_user_id)
  with Some obtain e where "erase_transaction w now u db = Inl e" using erase_transaction_fails [of u db w now] by auto
  with Some show ?thesis by (simp add: purgeUser_def)
qed (simp add: purgeUser_def)

lemma purge_due_fails:
  assumes "find_user uid (dn_users db) = Some u" and "us_deletedAt u = None"
  shows "\<exists>e. fst (purgeUser w now force uid db) = Inl e"
proof -
  have "us_id u = uid" using assms(1) by (rule find_user_id)
  with assms obtain e where "erase_transaction w now u db = Inl e" using erase_transaction_fails [of u db w now] by auto
  with assms show ?thesis by (simp add: purgeUser_def)
qed

text \<open>A user without the columns of the request, and the completed requests.\<close>

definition identity_of :: "user \<Rightarrow> user" where
  "identity_of u = u\<lparr>us_deletionRequestedAt := None, us_deletionScheduledFor := None, us_deletionReason := None\<rparr>"

definition completed :: "deletion_db \<Rightarrow> nat" where
  "completed db = length (filter (\<lambda>r. dr_status r = DS_completed) (dn_requests db))"

datatype deletion_op =
    DO_request "int option" timestamp ident ident "string option"
  | DO_cancel ident
  | DO_export ident
  | DO_purge timestamp bool ident
  | DO_process timestamp nat

fun deletion_step :: "erasure_world \<Rightarrow> deletion_op \<Rightarrow> deletion_db \<Rightarrow> deletion_db" where
  "deletion_step w (DO_request days now ref uid reason) db = snd (requestDeletion days now ref uid reason db)"
| "deletion_step w (DO_cancel uid) db = snd (cancelDeletion uid db)"
| "deletion_step w (DO_export uid) db = snd (exportUserData uid db)"
| "deletion_step w (DO_purge now force uid) db = snd (purgeUser w now force uid db)"
| "deletion_step w (DO_process now limit) db = snd (processDueDeletions w now limit db)"

definition unerased :: "user list \<Rightarrow> nat \<Rightarrow> deletion_db \<Rightarrow> bool" where
  "unerased us n db \<longleftrightarrow> map identity_of (dn_users db) = us \<and> completed db = n"

lemma identity_request: "identity_of (u\<lparr>us_deletionRequestedAt := a, us_deletionScheduledFor := b, us_deletionReason := c\<rparr>) = identity_of u"
  by (simp add: identity_of_def)

lemma identity_of_not_requested: "us_deletionRequestedAt (identity_of u) = None"
  by (simp add: identity_of_def)

lemma unerased_user_row:
  "(\<And>u. identity_of (f u) = identity_of u) \<Longrightarrow> unerased us n (update_user_row uid f db) = unerased us n db"
  by (simp add: unerased_def update_user_row_def completed_def comp_def if_distrib cong: if_cong)

lemma filter_status_update:
  "(\<And>r. p r \<Longrightarrow> dr_status r = DS_requested) \<Longrightarrow> (\<And>r. dr_status (f r) \<noteq> DS_completed) \<Longrightarrow>
     length (filter (\<lambda>r. dr_status r = DS_completed) (map (\<lambda>r. if p r then f r else r) rs)) =
     length (filter (\<lambda>r. dr_status r = DS_completed) rs)"
  by (induction rs) auto

lemma unerased_requests:
  "(\<And>r. p r \<Longrightarrow> dr_status r = DS_requested) \<Longrightarrow> (\<And>r. dr_status (f r) \<noteq> DS_completed) \<Longrightarrow>
     unerased us n (update_requests p f db) = unerased us n db"
  using filter_status_update [of p f "dn_requests db"]
  by (simp add: unerased_def update_requests_def completed_def filter_map)

lemma unerased_export:
  "unerased us n (update_requests p (\<lambda>r. r\<lparr>dr_dataExported := b\<rparr>) db) = unerased us n db"
proof -
  have "length (filter (\<lambda>r. dr_status r = DS_completed) (map (\<lambda>r. if p r then r\<lparr>dr_dataExported := b\<rparr> else r) rs)) =
    length (filter (\<lambda>r. dr_status r = DS_completed) rs)" for rs by (induction rs) auto
  then show ?thesis by (simp add: unerased_def update_requests_def completed_def del: filter_map)
qed

lemma unerased_process: "unerased us n db \<Longrightarrow> unerased us n (snd (process_due w now is db))"
proof (induction "is" arbitrary: db)
  case (Cons i js)
  obtain r where r: "purgeUser w now False i db = (r, db)" using purgeUser_keeps [of w now False i db] by (metis prod.collapse)
  have "unerased us n (update_requests (requested_of i) (\<lambda>r. r\<lparr>dr_status := DS_failed, dr_notes := m\<rparr>) db)" for m
    using Cons.prems by (subst unerased_requests) (auto simp: requested_of_def)
  then have "unerased us n (snd (process_due w now js
      (case r of Inl e \<Rightarrow> update_requests (requested_of i) (\<lambda>r. r\<lparr>dr_status := DS_failed, dr_notes := Some (error_message e)\<rparr>) db
               | Inr _ \<Rightarrow> db)))" using Cons by (cases r) auto
  with r show ?case by (cases r) (simp_all add: Let_def split_beta)
qed simp

lemma unerased_step: "unerased us n db \<Longrightarrow> unerased us n (deletion_step w e db)"
proof (cases e)
  case (DO_request days now ref uid reason)
  assume u: "unerased us n db"
  then have "unerased us n (update_user_row uid (\<lambda>u. u\<lparr>us_deletionRequestedAt := a, us_deletionScheduledFor := b, us_deletionReason := c\<rparr>) db)"
    for a b c by (simp add: unerased_user_row identity_request)
  with u DO_request show ?thesis
    by (simp add: requestDeletion_def Let_def unerased_def completed_def split: option.split)
next
  case (DO_cancel uid)
  assume "unerased us n db"
  with DO_cancel show ?thesis
    by (auto simp: cancelDeletion_def requested_of_def unerased_user_row identity_request intro!: unerased_requests [THEN iffD2]
        split: option.split)
next
  case (DO_export uid)
  assume "unerased us n db"
  with DO_export show ?thesis by (simp add: exportUserData_def unerased_export split: option.split)
qed (simp_all add: purgeUser_keeps processDueDeletions_def unerased_process)

interpretation delm: machine "deletion_step w" "unerased us n" for w us n
  by unfold_locales (rule unerased_step)

text \<open>
  C21: No account is ever erased. Whatever requests, cancellations, exports, forced purges and runs of the scheduled
  job happen, no user is marked as deleted, no column outside the request's own is scrubbed, and no request is
  completed: the statement that anonymises the user puts null into a column that does not allow it, and its
  failure rolls the transaction back.
\<close>

theorem no_account_is_erased:
  "map identity_of (dn_users (fold (deletion_step w) ops db)) = map identity_of (dn_users db) \<and>
   completed (fold (deletion_step w) ops db) = completed db"
  using delm.run_ok [of "map identity_of (dn_users db)" "completed db" db w ops] by (simp add: unerased_def)

subsection \<open>Requests and the job\<close>

lemma newest_None [simp]: "newest rs = None \<longleftrightarrow> rs = []"
  by (cases rs) (auto split: option.split)

lemma newest_single [simp]: "newest [r] = Some r" by simp

lemma find_user_update:
  assumes "\<And>u. us_id (f u) = us_id u"
  shows "find_user uid (dn_users (update_user_row uid f db)) = map_option f (find_user uid (dn_users db))"
proof -
  have "find_user uid (map (\<lambda>u. if us_id u = uid then f u else u) us) = map_option f (find_user uid us)" for us
    by (induction us) (auto simp: find_user_def assms tbl_simps)
  then show ?thesis by (simp add: update_user_row_def)
qed

lemma filter_update_requests:
  "(\<And>r. p r \<Longrightarrow> \<not> p (f r)) \<Longrightarrow> filter p (dn_requests (update_requests p f db)) = []"
  by (auto simp: update_requests_def filter_empty_conv)

lemma update_requests_parts [simp]:
  "dn_users (update_requests p f db) = dn_users db" "dn_tables (update_requests p f db) = dn_tables db"
  by (simp_all add: update_requests_def)

lemma process_due_keeps: "dn_users (snd (process_due w now is db)) = dn_users db \<and>
    dn_tables (snd (process_due w now is db)) = dn_tables db"
proof (induction "is" arbitrary: db)
  case (Cons i js)
  obtain r where r: "purgeUser w now False i db = (r, db)" using purgeUser_keeps [of w now False i db] by (metis prod.collapse)
  with Cons show ?case by (cases r) (simp_all add: Let_def split_beta)
qed simp

lemma none_requested_update:
  "filter (requested_of uid) (dn_requests db) = [] \<Longrightarrow>
   filter (requested_of uid) (dn_requests (update_requests p (\<lambda>r. r\<lparr>dr_status := DS_failed, dr_notes := m\<rparr>) db)) = []"
  by (auto simp: update_requests_def filter_empty_conv requested_of_def)

lemma process_due_stays_failed:
  "filter (requested_of uid) (dn_requests db) = [] \<Longrightarrow>
   filter (requested_of uid) (dn_requests (snd (process_due w now is db))) = []"
proof (induction "is" arbitrary: db)
  case (Cons i js)
  obtain r where r: "purgeUser w now False i db = (r, db)" using purgeUser_keeps [of w now False i db] by (metis prod.collapse)
  with Cons show ?case by (cases r) (simp_all add: Let_def split_beta none_requested_update)
qed simp

lemma process_due_fails_requests:
  assumes "i \<in> set is" and "find_user i (dn_users db) = Some u" and "us_deletedAt u = None"
  shows "filter (requested_of i) (dn_requests (snd (process_due w now is db))) = []"
  using assms
proof (induction "is" arbitrary: db)
  case (Cons j js)
  obtain r where r: "purgeUser w now False j db = (r, db)" using purgeUser_keeps [of w now False j db] by (metis prod.collapse)
  show ?case
  proof (cases "i = j")
    case True
    with Cons.prems obtain e where "r = Inl e" using purge_due_fails [of i db u w now False] r by auto
    moreover have "filter (requested_of j) (dn_requests (update_requests (requested_of j)
        (\<lambda>r. r\<lparr>dr_status := DS_failed, dr_notes := Some (error_message e)\<rparr>) db)) = []"
      by (rule filter_update_requests) (simp add: requested_of_def)
    ultimately show ?thesis using r True by (simp add: Let_def split_beta process_due_stays_failed)
  next
    case False
    with Cons r show ?thesis by (cases r) (simp_all add: Let_def split_beta)
  qed
qed simp

definition requested_db :: "timestamp \<Rightarrow> timestamp \<Rightarrow> ident \<Rightarrow> ident \<Rightarrow> string option \<Rightarrow> deletion_db \<Rightarrow> deletion_db" where
  "requested_db now due ref uid reason db =
     (let db1 = update_user_row uid (\<lambda>u. u\<lparr>us_deletionRequestedAt := Some now, us_deletionScheduledFor := Some due,
                  us_deletionReason := reason\<rparr>) db
      in map_table ''refresh_tokens'' (map (\<lambda>r. if r ''userId'' = Some uid then r(''revoked'' \<mapsto> ''true'') else r))
           (db1\<lparr>dn_requests := dn_requests db1 @ [\<lparr>dr_userId = uid, dr_status = DS_requested, dr_referenceId = ref,
                  dr_requestedAt = now, dr_gracePeriodEndsAt = due, dr_processedAt = None, dr_dataExported = False,
                  dr_privyDeletionStatus = None, dr_notes = None\<rparr>]\<rparr>))"

lemma requestDeletion_fresh:
  assumes "find_user uid (dn_users db) = Some u" and "us_deletedAt u = None"
    and "filter (requested_of uid) (dn_requests db) = []" and "dn_tables db ''refresh_tokens'' \<noteq> None"
  shows "requestDeletion days now ref uid reason db =
    (Inr \<lparr>da_referenceId = ref, da_requestedAt = now, da_scheduledFor = now + gracePeriodDays days * 86400000,
        da_gracePeriodDays = gracePeriodDays days\<rparr>, requested_db now (now + gracePeriodDays days * 86400000) ref uid reason db)"
  using assms by (simp add: requestDeletion_def requested_db_def Let_def mult.assoc)

lemma requested_db_parts:
  "find_user uid (dn_users (requested_db now due ref uid reason db)) =
     map_option (\<lambda>u. u\<lparr>us_deletionRequestedAt := Some now, us_deletionScheduledFor := Some due, us_deletionReason := reason\<rparr>)
       (find_user uid (dn_users db))"
  "map_option sq_rows (dn_tables (requested_db now due ref uid reason db) ''refresh_tokens'') =
     map_option (map (\<lambda>r. if r ''userId'' = Some uid then r(''revoked'' \<mapsto> ''true'') else r) \<circ> sq_rows)
       (dn_tables db ''refresh_tokens'')"
  "filter (requested_of uid) (dn_requests db) = [] \<Longrightarrow>
   filter (requested_of uid) (dn_requests (requested_db now due ref uid reason db)) =
     [\<lparr>dr_userId = uid, dr_status = DS_requested, dr_referenceId = ref, dr_requestedAt = now, dr_gracePeriodEndsAt = due,
        dr_processedAt = None, dr_dataExported = False, dr_privyDeletionStatus = None, dr_notes = None\<rparr>]"
proof -
  show "find_user uid (dn_users (requested_db now due ref uid reason db)) =
     map_option (\<lambda>u. u\<lparr>us_deletionRequestedAt := Some now, us_deletionScheduledFor := Some due, us_deletionReason := reason\<rparr>)
       (find_user uid (dn_users db))" by (simp add: requested_db_def Let_def find_user_update)
qed (simp_all add: requested_db_def Let_def map_table_def option.map_comp comp_def update_user_row_def requested_of_def)

lemma request_repeated:
  assumes "find_user uid (dn_users db) = Some u" and "us_deletedAt u = None" and "filter (requested_of uid) (dn_requests db) = []"
  shows "requestDeletion days' now' ref' uid reason' (requested_db now due ref uid reason db) =
    (Inr \<lparr>da_referenceId = ref, da_requestedAt = now, da_scheduledFor = due, da_gracePeriodDays = gracePeriodDays days'\<rparr>,
     requested_db now due ref uid reason db)"
  using assms by (simp add: requestDeletion_def requested_db_parts)

lemma request_cancelled:
  assumes "find_user uid (dn_users db) = Some u" and "us_deletedAt u = None" and "identity_of u = u"
    and "\<forall>v \<in> set (dn_users db). us_id v = uid \<longrightarrow> v = u"
  shows "fst (cancelDeletion uid (requested_db now due ref uid reason db)) = Inr ()"
    and "dn_users (snd (cancelDeletion uid (requested_db now due ref uid reason db))) = dn_users db"
proof -
  have "map (\<lambda>u. if us_id u = uid then identity_of u else u) (dn_users db) = dn_users db"
    using assms(3,4) by (auto intro!: map_idI)
  then show "dn_users (snd (cancelDeletion uid (requested_db now due ref uid reason db))) = dn_users db"
    using assms(1,2) by (simp add: cancelDeletion_def requested_db_parts)
      (simp add: requested_db_def update_user_row_def Let_def comp_def if_distrib identity_of_def cong: if_cong)
qed (use assms(1,2) in \<open>simp add: cancelDeletion_def requested_db_parts\<close>)

text \<open>
  A request and its cancellation. The erasure is scheduled the whole grace period after the request, every
  refresh token of the user is revoked at once and nobody else's is touched; asking again, whenever and with
  whatever reason, returns the same reference and the same date and changes nothing; and cancelling restores
  the users' table as it was and leaves nothing pending.
\<close>

theorem deletion_request_and_cancellation:
  assumes "find_user uid (dn_users db) = Some u" and "us_deletedAt u = None" and "identity_of u = u"
    and "\<forall>v \<in> set (dn_users db). us_id v = uid \<longrightarrow> v = u"
    and "filter (requested_of uid) (dn_requests db) = []" and "dn_tables db ''refresh_tokens'' = Some t"
    and "requestDeletion days now ref uid reason db = (Inr a, db')"
  shows "da_referenceId a = ref \<and> da_scheduledFor a = now + gracePeriodDays days * 86400000 \<and>
    now + 86400000 \<le> da_scheduledFor a \<and>
    map_option sq_rows (dn_tables db' ''refresh_tokens'') =
      Some (map (\<lambda>r. if r ''userId'' = Some uid then r(''revoked'' \<mapsto> ''true'') else r) (sq_rows t)) \<and>
    requestDeletion days' now' ref' uid reason' db' = (Inr (a\<lparr>da_gracePeriodDays := gracePeriodDays days'\<rparr>), db') \<and>
    fst (cancelDeletion uid db') = Inr () \<and> dn_users (snd (cancelDeletion uid db')) = dn_users db \<and>
    deletionStatus uid (snd (cancelDeletion uid db')) = Inr NotRequested"
proof -
  have pos: "1 \<le> gracePeriodDays days" by (simp add: gracePeriodDays_def intVar_def split: option.split)
  have due: "now + 86400000 \<le> now + gracePeriodDays days * 86400000" using pos by simp
  have res: "a = \<lparr>da_referenceId = ref, da_requestedAt = now, da_scheduledFor = now + gracePeriodDays days * 86400000,
      da_gracePeriodDays = gracePeriodDays days\<rparr>"
    "db' = requested_db now (now + gracePeriodDays days * 86400000) ref uid reason db"
    using assms(7) requestDeletion_fresh [OF assms(1,2,5), of days now ref reason] assms(6) by simp_all
  have none: "us_deletionRequestedAt u = None" using identity_of_not_requested [of u] by (simp only: assms(3))
  have "deletionStatus uid (snd (cancelDeletion uid db')) = Inr NotRequested"
    using request_cancelled(2) [OF assms(1-4)] assms(1,2) none by (simp add: deletionStatus_def res(2))
  then show ?thesis
    using due request_cancelled [OF assms(1-4)] request_repeated [OF assms(1,2,5)]
    by (simp add: res requested_db_parts(2) assms(6))
qed

definition example_deletion_db :: "user \<Rightarrow> deletion_db" where
  "example_deletion_db u = \<lparr>dn_users = [u], dn_requests = [], dn_tables = (\<lambda>_. None)(''refresh_tokens'' \<mapsto>
     \<lparr>sq_columns = [''userId'', ''revoked''], sq_rows = [(\<lambda>_. None)(''userId'' \<mapsto> ''u1'')]\<rparr>)\<rparr>"

theorem deletion_request_and_cancellation_witness:
  "fst (cancelDeletion ''u1'' (snd (requestDeletion None 5 ''r'' ''u1'' None (example_deletion_db (blank_user ''u1''))))) = Inr ()"
proof -
  let ?db = "example_deletion_db (blank_user ''u1'')"
  have id: "identity_of (blank_user ''u1'') = blank_user ''u1''" by (simp add: identity_of_def blank_user_def)
  have u: "us_id (blank_user ''u1'') = ''u1''" "us_deletedAt (blank_user ''u1'') = None" by (simp_all add: blank_user_def)
  have f: "find_user ''u1'' (dn_users ?db) = Some (blank_user ''u1'')" by (simp add: example_deletion_db_def find_user_def tbl_simps u)
  obtain a db' where r: "requestDeletion None 5 ''r'' ''u1'' None ?db = (Inr a, db')"
    using f u by (simp add: requestDeletion_def Let_def example_deletion_db_def)
  from deletion_request_and_cancellation [OF f u(2) id _ _ _ r] r show ?thesis
    by (simp add: example_deletion_db_def)
qed

text \<open>
  A failed erasure loses the request. After a run of the scheduled job over an account that is due, the account
  is still there and still due, but it has no pending request any more: asking again is not idempotent, it returns
  a new reference and starts a new grace period from the day of asking.
\<close>

theorem failed_erasure_restarts_the_clock:
  assumes "uid \<in> set (due_ids limit now db)" and "find_user uid (dn_users db) = Some u" and "us_deletedAt u = None"
    and "dn_tables db ''refresh_tokens'' \<noteq> None"
  shows "dn_users (snd (processDueDeletions w now limit db)) = dn_users db \<and>
    filter (requested_of uid) (dn_requests (snd (processDueDeletions w now limit db))) = [] \<and>
    fst (requestDeletion days now' ref uid reason (snd (processDueDeletions w now limit db))) =
      Inr \<lparr>da_referenceId = ref, da_requestedAt = now', da_scheduledFor = now' + gracePeriodDays days * 86400000,
           da_gracePeriodDays = gracePeriodDays days\<rparr>"
  using process_due_fails_requests [OF assms(1-3), of w now] assms(2-4) process_due_keeps [of w now "due_ids limit now db" db]
  by (simp add: processDueDeletions_def requestDeletion_fresh)

definition example_erasure_world :: erasure_world where
  "example_erasure_world = \<lparr>ew_aborts = True, ew_toISOString = (\<lambda>_. ''2026-01-01T00:00:00.000Z''), ew_deleteLength = (\<lambda>_. 2),
     ew_cache = (\<lambda>_. None), ew_songs = (\<lambda>_. Inr []), ew_deletePrivy = (\<lambda>_. Inr True)\<rparr>"

definition due_user :: user where
  "due_user = (blank_user ''u1'')\<lparr>us_deletionRequestedAt := Some 1, us_deletionScheduledFor := Some 5\<rparr>"

theorem failed_erasure_restarts_the_clock_witness:
  "fst (requestDeletion None 9 ''again'' ''u1'' None
     (snd (processDueDeletions example_erasure_world 8 100 (example_deletion_db due_user)))) =
   Inr \<lparr>da_referenceId = ''again'', da_requestedAt = 9, da_scheduledFor = 2592000009, da_gracePeriodDays = 30\<rparr>"
proof -
  have u: "us_id due_user = ''u1''" "us_deletedAt due_user = None" "deletion_due 8 due_user"
    by (simp_all add: due_user_def blank_user_def deletion_due_def)
  have "''u1'' \<in> set (due_ids 100 8 (example_deletion_db due_user))" by (simp add: due_ids_def example_deletion_db_def u)
  moreover have "find_user ''u1'' (dn_users (example_deletion_db due_user)) = Some due_user"
    by (simp add: example_deletion_db_def find_user_def tbl_simps u)
  moreover have "dn_tables (example_deletion_db due_user) ''refresh_tokens'' \<noteq> None" by (simp add: example_deletion_db_def)
  ultimately show ?thesis
    using failed_erasure_restarts_the_clock [of "''u1''" 100 8 "example_deletion_db due_user" due_user example_erasure_world None 9 "''again''" None]
      u(2) by (simp add: gracePeriodDays_def intVar_def)
qed

end
