(* ===== verification/Account_Merge.thy ===== *)
theory Account_Merge
  imports Auth_Accounts
begin

text \<open>
  Merging one account into another on request (\<open>services/AccountMergeService.ts\<close>) and its two handlers
  (\<open>controllers/AccountController.ts\<close>). The merge is one transaction: a save that is refused undoes it. The audit
  entry, whose failure is swallowed, and the log are left out.
\<close>

subsection \<open>Duplicates\<close>

definition detectDuplicates :: "ident \<Rightarrow> 'tok account_db \<Rightarrow> js_error + user list" where
  "detectDuplicates uid db =
     (case find_user uid (adb_users db) of
        None \<Rightarrow> Inl user_not_found
      | Some u \<Rightarrow>
          let others = (\<lambda>p. filter (\<lambda>v. p v \<and> us_id v \<noteq> uid \<and> us_deletedAt v = None) (adb_users db))
          in Inr ((if truthy (us_email u) \<and> us_emailVerified u then others (\<lambda>v. us_email v = us_email u) else []) @
                  (if truthy (us_walletAddress u) then others (\<lambda>v. us_walletAddress v = us_walletAddress u) else [])))"

subsection \<open>What is taken over\<close>

text \<open>Each step gives the changed primary user and the names it adds to the merged fields, in the order of the code.\<close>

definition merge_privy :: "user \<Rightarrow> user \<Rightarrow> user \<times> string list" where
  "merge_privy s p =
     (if \<not> truthy (us_privyUserId p) \<and> truthy (us_privyUserId s)
      then (p\<lparr>us_privyUserId := us_privyUserId s\<rparr>, [''privyUserId'']) else (p, []))"

definition merge_wallet :: "user \<Rightarrow> user \<Rightarrow> user \<times> string list" where
  "merge_wallet s p =
     (if \<not> truthy (us_walletAddress p) \<and> truthy (us_walletAddress s)
      then (p\<lparr>us_walletAddress := us_walletAddress s\<rparr>, [''walletAddress'']) else (p, []))"

definition merge_email :: "user \<Rightarrow> user \<Rightarrow> user \<times> string list" where
  "merge_email s p =
     (if \<not> truthy (us_email p) \<and> truthy (us_email s) \<and> us_emailVerified s
      then (p\<lparr>us_emailVerified := True, us_email := us_email s\<rparr>, [''email'']) else (p, []))"

definition merge_stellar :: "user \<Rightarrow> user \<Rightarrow> user \<times> string list" where
  "merge_stellar s p =
     (if \<not> truthy (us_stellarPublicKey p) \<and> truthy (us_stellarPublicKey s)
      then (p\<lparr>us_stellarPublicKey := us_stellarPublicKey s, us_stellarArtistId := us_stellarArtistId s,
              us_stellarArtistTokenId := us_stellarArtistTokenId s\<rparr>, [''stellarPublicKey'']) else (p, []))"

definition merge_twitter :: "user \<Rightarrow> user \<Rightarrow> user \<times> string list" where
  "merge_twitter s p =
     (if tw_connected (us_twitter p) \<noteq> Some True \<and> tw_connected (us_twitter s) = Some True
      then (p\<lparr>us_twitter := us_twitter s\<rparr>, [''twitter'']) else (p, []))"

definition merge_facebook :: "user \<Rightarrow> user \<Rightarrow> user \<times> string list" where
  "merge_facebook s p =
     (if \<not> fb_connected (us_facebook p) \<and> fb_connected (us_facebook s)
      then (p\<lparr>us_facebook := us_facebook s\<rparr>, [''facebook'']) else (p, []))"

definition merge_steps :: "user \<Rightarrow> (user \<Rightarrow> user \<times> string list) list" where
  "merge_steps s = [merge_privy s, merge_wallet s, merge_email s, merge_stellar s, merge_twitter s, merge_facebook s]"

definition merged :: "user \<Rightarrow> user \<Rightarrow> user \<times> string list" where
  "merged s p = fold (\<lambda>f (u, fields). let (u', more) = f u in (u', fields @ more)) (merge_steps s) (p, [])"

subsection \<open>The merge\<close>

record merge_result =
  mg_primaryUserId :: ident
  mg_mergedUserId :: ident
  mg_mergedFields :: "string list"

definition mergeAccounts :: "timestamp \<Rightarrow> ident \<Rightarrow> ident \<Rightarrow> ('tok account_db, merge_result) service" where
  "mergeAccounts now pid sid db =
     (if pid = sid then (Inl (AppErr (AE_validation ''Cannot merge an account with itself'' NoDetails None)), db)
      else (case (find_user pid (adb_users db), find_user sid (adb_users db)) of
          (None, _) \<Rightarrow> (Inl (AppErr (AE_notFound ''Primary user not found'' NoDetails None)), db)
        | (_, None) \<Rightarrow> (Inl (AppErr (AE_notFound ''Secondary user not found'' NoDetails None)), db)
        | (Some p, Some s) \<Rightarrow>
            if us_deletedAt s \<noteq> None then (Inl (AppErr (AE_validation ''Cannot merge a deleted account'' NoDetails None)), db)
            else
              let (p1, fields) = merged s p;
                  p2 = p1\<lparr>us_rewardPoints := us_rewardPoints p1 + us_rewardPoints s\<rparr>;
                  s2 = s\<lparr>us_deletionRequestedAt := Some now, us_deletionScheduledFor := Some now,
                         us_deletionReason := Some (''Merged into account '' @ pid)\<rparr>
              in (case update_user p2 db of
                    (Inl e, _) \<Rightarrow> (Inl e, db)
                  | (Inr _, db1) \<Rightarrow>
                      (case update_user s2 db1 of
                         (Inl e, _) \<Rightarrow> (Inl e, db)
                       | (Inr _, db2) \<Rightarrow>
                           (Inr \<lparr>mg_primaryUserId = pid, mg_mergedUserId = sid, mg_mergedFields = fields\<rparr>, db2)))))"

text \<open>The handler: who is signed in, and the id named in the body.\<close>

definition merge_handler ::
  "timestamp \<Rightarrow> ident option \<Rightarrow> string option \<Rightarrow> ('tok account_db, merge_result) service" where
  "merge_handler now user secondary db =
     (case or_none user of
        None \<Rightarrow> (Inl (auth_failed ''Unauthorized''), db)
      | Some pid \<Rightarrow>
          (case or_none secondary of
             None \<Rightarrow> (Inl (AppErr (AE_validation ''secondaryUserId is required'' NoDetails None)), db)
           | Some sid \<Rightarrow> mergeAccounts now pid sid db))"

subsection \<open>What moves\<close>

lemmas merge_step_defs = merge_privy_def merge_wallet_def merge_email_def merge_stellar_def merge_twitter_def merge_facebook_def

text \<open>What each step does to the columns that identify a user.\<close>

lemma fold_merge_keeps:
  "(\<And>f u. f \<in> set fs \<Longrightarrow> g (fst (f u)) = g u) \<Longrightarrow>
   g (fst (fold (\<lambda>f (u, fields). let (u', more) = f u in (u', fields @ more)) fs (u, l))) = g u"
  by (induction fs arbitrary: u l) (simp_all add: split_beta)

lemma merge_step_frame:
  assumes "f \<in> set (merge_steps s)"
  shows "us_id (fst (f u)) = us_id u" "us_rewardPoints (fst (f u)) = us_rewardPoints u" "us_deletedAt (fst (f u)) = us_deletedAt u"
    "us_dynamixUserId (fst (f u)) = us_dynamixUserId u" "us_username (fst (f u)) = us_username u" "us_name (fst (f u)) = us_name u"
  using assms by (auto simp: merge_steps_def merge_step_defs)

lemma merged_frame [simp]: "us_id (fst (merged s p)) = us_id p" "us_rewardPoints (fst (merged s p)) = us_rewardPoints p"
  "us_deletedAt (fst (merged s p)) = us_deletedAt p" "us_dynamixUserId (fst (merged s p)) = us_dynamixUserId p"
  "us_username (fst (merged s p)) = us_username p" "us_name (fst (merged s p)) = us_name p"
  unfolding merged_def by (rule fold_merge_keeps, erule merge_step_frame)+

lemma merge_step_privy [simp]:
  "us_privyUserId (fst (merge_wallet s u)) = us_privyUserId u" "us_privyUserId (fst (merge_email s u)) = us_privyUserId u"
  "us_privyUserId (fst (merge_stellar s u)) = us_privyUserId u" "us_privyUserId (fst (merge_twitter s u)) = us_privyUserId u"
  "us_privyUserId (fst (merge_facebook s u)) = us_privyUserId u"
  by (simp_all add: merge_step_defs)

lemma merge_step_email [simp]:
  "us_email (fst (merge_privy s u)) = us_email u" "us_email (fst (merge_wallet s u)) = us_email u"
  "us_email (fst (merge_stellar s u)) = us_email u" "us_email (fst (merge_twitter s u)) = us_email u"
  "us_email (fst (merge_facebook s u)) = us_email u"
  by (simp_all add: merge_step_defs)

lemma merge_step_stellar [simp]:
  "us_stellarPublicKey (fst (merge_privy s u)) = us_stellarPublicKey u" "us_stellarPublicKey (fst (merge_wallet s u)) = us_stellarPublicKey u"
  "us_stellarPublicKey (fst (merge_email s u)) = us_stellarPublicKey u" "us_stellarPublicKey (fst (merge_twitter s u)) = us_stellarPublicKey u"
  "us_stellarPublicKey (fst (merge_facebook s u)) = us_stellarPublicKey u"
  by (simp_all add: merge_step_defs)

lemma merged_identity:
  "us_privyUserId (fst (merged s p)) = (if \<not> truthy (us_privyUserId p) \<and> truthy (us_privyUserId s) then us_privyUserId s else us_privyUserId p)"
  "us_email (fst (merged s p)) = (if \<not> truthy (us_email p) \<and> truthy (us_email s) \<and> us_emailVerified s then us_email s else us_email p)"
  "us_stellarPublicKey (fst (merged s p)) =
     (if \<not> truthy (us_stellarPublicKey p) \<and> truthy (us_stellarPublicKey s) then us_stellarPublicKey s else us_stellarPublicKey p)"
  by (simp_all add: merged_def merge_steps_def split_beta)
    (simp_all add: merge_privy_def merge_email_def merge_stellar_def)

definition identity_columns :: "string list" where
  "identity_columns = [''privyUserId'', ''email'', ''stellarPublicKey'']"

definition takes_identity :: "user \<Rightarrow> user \<Rightarrow> bool" where
  "takes_identity s p \<longleftrightarrow> \<not> truthy (us_privyUserId p) \<and> truthy (us_privyUserId s) \<or>
     \<not> truthy (us_email p) \<and> truthy (us_email s) \<and> us_emailVerified s \<or>
     \<not> truthy (us_stellarPublicKey p) \<and> truthy (us_stellarPublicKey s)"

lemma merge_step_fields:
  "snd (merge_privy s u) = (if \<not> truthy (us_privyUserId u) \<and> truthy (us_privyUserId s) then [''privyUserId''] else [])"
  "snd (merge_email s u) = (if \<not> truthy (us_email u) \<and> truthy (us_email s) \<and> us_emailVerified s then [''email''] else [])"
  "snd (merge_stellar s u) = (if \<not> truthy (us_stellarPublicKey u) \<and> truthy (us_stellarPublicKey s) then [''stellarPublicKey''] else [])"
  "set (snd (merge_wallet s u)) \<subseteq> {''walletAddress''}" "set (snd (merge_twitter s u)) \<subseteq> {''twitter''}"
  "set (snd (merge_facebook s u)) \<subseteq> {''facebook''}"
  by (simp_all add: merge_step_defs)

lemma merged_fields:
  assumes "\<not> takes_identity s p"
  shows "set (snd (merged s p)) \<subseteq> {''walletAddress'', ''twitter'', ''facebook''}"
proof -
  have "snd (merged s p) = snd (merge_privy s p) @ snd (merge_wallet s (fst (merge_privy s p))) @
      snd (merge_email s (fst (merge_wallet s (fst (merge_privy s p))))) @
      snd (merge_stellar s (fst (merge_email s (fst (merge_wallet s (fst (merge_privy s p))))))) @
      snd (merge_twitter s (fst (merge_stellar s (fst (merge_email s (fst (merge_wallet s (fst (merge_privy s p))))))))) @
      snd (merge_facebook s (fst (merge_twitter s (fst (merge_stellar s (fst (merge_email s (fst (merge_wallet s (fst (merge_privy s p)))))))))))"
    by (simp add: merged_def merge_steps_def split_beta)
  moreover have "snd (merge_privy s p) = []" "snd (merge_email s (fst (merge_wallet s (fst (merge_privy s p))))) = []"
    "snd (merge_stellar s (fst (merge_email s (fst (merge_wallet s (fst (merge_privy s p))))))) = []"
    using assms by (simp_all add: merge_step_fields takes_identity_def)
  ultimately show ?thesis using merge_step_fields(4-6) by (auto simp: subset_iff)
qed

subsection \<open>What a merge does\<close>

lemma truthy_Some: "truthy x \<Longrightarrow> x \<noteq> None" by (cases x) (simp_all add: truthy_def)

lemma written_identity:
  "us_privyUserId (written old u) = or_else (us_privyUserId u) (us_privyUserId old)"
  "us_email (written old u) = or_else (us_email u) (us_email old)"
  "us_stellarPublicKey (written old u) = or_else (us_stellarPublicKey u) (us_stellarPublicKey old)"
  by (simp_all add: written_def)

lemma or_else_left: "x \<noteq> None \<Longrightarrow> or_else x y = x" by (auto simp: or_else_def)

lemma taken_identity_clashes:
  assumes "takes_identity s p" and "us_id p \<noteq> us_id s"
  shows "user_clash (written p ((fst (merged s p))\<lparr>us_rewardPoints := r\<rparr>)) s"
proof -
  let ?w = "written p ((fst (merged s p))\<lparr>us_rewardPoints := r\<rparr>)"
  have "us_privyUserId s \<noteq> None \<and> us_privyUserId ?w = us_privyUserId s \<or> us_email s \<noteq> None \<and> us_email ?w = us_email s \<or>
      us_stellarPublicKey s \<noteq> None \<and> us_stellarPublicKey ?w = us_stellarPublicKey s"
    using assms(1) unfolding takes_identity_def
    by (elim disjE conjE) (simp_all add: written_identity merged_identity truthy_Some or_else_left)
  then have "\<exists>c\<in>set unique_columns. c ?w \<noteq> None \<and> c ?w = c s"
    unfolding unique_columns_def by simp metis
  then show ?thesis using assms(2) by (auto simp: user_clash_def list_ex_iff)
qed

lemma mergeAccounts_refused:
  assumes "find_user pid (adb_users db) = Some p" and "find_user sid (adb_users db) = Some s"
    and "pid \<noteq> sid" and "takes_identity s p" and "us_deletedAt s = None"
  shows "mergeAccounts now pid sid db = (Inl duplicate_key_error, db)"
proof -
  have id: "us_id p = pid" "us_id s = sid" using assms(1,2) find_user_id by blast+
  have "s \<in> set (adb_users db)" using assms(2) by (auto simp: find_user_def dest: tbl_find_SomeD)
  moreover have "user_clash (written p ((fst (merged s p))\<lparr>us_rewardPoints := r\<rparr>)) s" for r
    using taken_identity_clashes [OF assms(4)] id assms(3) by simp
  ultimately have "user_refused (written p ((fst (merged s p))\<lparr>us_rewardPoints := r\<rparr>)) (adb_users db)" for r
    by (auto simp: user_refused_def list_ex_iff)
  then have "fst (update_user ((fst (merged s p))\<lparr>us_rewardPoints := r\<rparr>) db) = Inl duplicate_key_error" for r
    by (simp add: update_user_def save_user_def assms(1) id Let_def)
  then obtain d where "update_user ((fst (merged s p))\<lparr>us_rewardPoints := us_rewardPoints p + us_rewardPoints s\<rparr>) db =
      (Inl duplicate_key_error, d)" by (metis prod.collapse)
  then show ?thesis using assms by (simp add: mergeAccounts_def Let_def split_beta)
qed

text \<open>
  A merge never moves an identity. If the primary account lacks a provider id, an e-mail or a Stellar key that the
  secondary account has, the merge is refused with the duplicate key error of the unique columns and changes nothing,
  since the primary account is saved while the secondary one still holds the value; so a merge that succeeds has
  taken over at most the wallet and the social accounts.
\<close>

theorem merge_never_moves_identity:
  "(find_user pid (adb_users db) = Some p \<and> find_user sid (adb_users db) = Some s \<and> pid \<noteq> sid \<and> us_deletedAt s = None \<and>
      takes_identity s p \<longrightarrow> mergeAccounts now pid sid db = (Inl duplicate_key_error, db)) \<and>
   (fst (mergeAccounts now pid sid db) = Inr r \<longrightarrow>
      set (mg_mergedFields r) \<subseteq> {''walletAddress'', ''twitter'', ''facebook''})"
proof (intro conjI impI)
  assume r: "fst (mergeAccounts now pid sid db) = Inr r"
  then obtain p' s' where f: "find_user pid (adb_users db) = Some p'" "find_user sid (adb_users db) = Some s'" "pid \<noteq> sid"
      "us_deletedAt s' = None" by (auto simp: mergeAccounts_def split: if_splits option.splits)
  then have "\<not> takes_identity s' p'" using mergeAccounts_refused [OF f(1-3) _ f(4)] r by force
  moreover have "mg_mergedFields r = snd (merged s' p')"
    using r f by (auto simp: mergeAccounts_def Let_def split_beta split: sum.splits prod.splits)
  ultimately show "set (mg_mergedFields r) \<subseteq> {''walletAddress'', ''twitter'', ''facebook''}" using merged_fields by simp
qed (use mergeAccounts_refused in blast)

text \<open>Two accounts whose merge is not refused.\<close>

definition mergeable :: "ident \<Rightarrow> ident \<Rightarrow> user \<Rightarrow> user \<Rightarrow> 'tok account_db \<Rightarrow> bool" where
  "mergeable pid sid p s db \<longleftrightarrow> users_ok db \<and> pid \<noteq> sid \<and> find_user pid (adb_users db) = Some p \<and>
     find_user sid (adb_users db) = Some s \<and> us_deletedAt s = None \<and> \<not> takes_identity s p"

lemma find_user_as_by: "find_user uid (adb_users db) = find_user_by (\<lambda>u. us_id u = uid) db"
  by (simp add: find_user_def find_user_by_def)

lemma update_same_identity:
  assumes "users_ok db" and "find_user uid (adb_users db) = Some u" and "us_id u' = us_id u"
    and "map (\<lambda>c. c (written u u')) unique_columns = map (\<lambda>c. c u) unique_columns"
  obtains db1 where "update_user u' db = (Inr u', db1)" "users_ok db1" "find_user uid (adb_users db1) = Some (written u u')"
    "\<And>k. k \<noteq> uid \<Longrightarrow> find_user k (adb_users db1) = find_user k (adb_users db)" "adb_tokens db1 = adb_tokens db"
proof -
  have by': "find_user_by (\<lambda>v. us_id v = uid) db = Some u" using assms(2) by (simp add: find_user_as_by)
  obtain db1 where up: "update_user u' db = (Inr u', db1)" using update_not_refused [OF assms(1) by' assms(3,4)] by auto
  have t: "tbl_ok us_id (adb_users db)" using assms(1) by (simp add: users_ok_def)
  note found = update_found [OF t by' assms(3) up]
  have id: "us_id u = uid" using assms(2) by (rule find_user_id)
  have "users_ok db1" by (rule users_ok_put [OF assms(1) by' _ assms(4) found(2)]) (simp add: assms(3))
  moreover have "find_user uid (adb_users db1) = Some (written u u')"
    using found(6) [of "\<lambda>v. us_id v = uid"] by' assms(3) id by (simp add: find_user_as_by)
  moreover have "find_user k (adb_users db1) = find_user k (adb_users db)" if "k \<noteq> uid" for k
    using that id assms(3) tbl_find_put_other [of k us_id "written u u'" "adb_users db"] by (simp add: find_user_def found(2))
  ultimately show ?thesis using up found(3) that by blast
qed

lemma written_unique:
  "map (\<lambda>c. c u) unique_columns = map (\<lambda>c. c old) unique_columns \<Longrightarrow>
   map (\<lambda>c. c (written old u)) unique_columns = map (\<lambda>c. c old) unique_columns"
  by (simp add: unique_columns_def written_def)

lemma written_frame [simp]: "us_rewardPoints (written old u) = us_rewardPoints u" "us_deletedAt (written old u) = us_deletedAt u"
  "us_deletionScheduledFor (written old u) = us_deletionScheduledFor u" "us_emailVerified (written old u) = us_emailVerified u"
  by (simp_all add: written_def)

definition merged_primary :: "user \<Rightarrow> user \<Rightarrow> user" where
  "merged_primary s p = (fst (merged s p))\<lparr>us_rewardPoints := us_rewardPoints p + us_rewardPoints s\<rparr>"

definition merged_secondary :: "timestamp \<Rightarrow> ident \<Rightarrow> user \<Rightarrow> user" where
  "merged_secondary now pid s = s\<lparr>us_deletionRequestedAt := Some now, us_deletionScheduledFor := Some now,
     us_deletionReason := Some (''Merged into account '' @ pid)\<rparr>"

lemma merged_primary_unique:
  "\<not> takes_identity s p \<Longrightarrow> map (\<lambda>c. c (merged_primary s p)) unique_columns = map (\<lambda>c. c p) unique_columns"
  unfolding takes_identity_def by (simp add: unique_columns_def merged_primary_def merged_identity) blast

lemma merged_secondary_unique: "map (\<lambda>c. c (merged_secondary now pid s)) unique_columns = map (\<lambda>c. c s) unique_columns"
  by (simp add: unique_columns_def merged_secondary_def)

lemma takes_identity_unique:
  assumes "map (\<lambda>c. c p') unique_columns = map (\<lambda>c. c p) unique_columns"
    and "map (\<lambda>c. c s') unique_columns = map (\<lambda>c. c s) unique_columns" and "us_emailVerified s' = us_emailVerified s"
  shows "takes_identity s' p' = takes_identity s p"
  using assms by (simp add: unique_columns_def takes_identity_def)

text \<open>One merge of two such accounts: it succeeds, and they can be merged again.\<close>

lemma merge_succeeds:
  assumes "mergeable pid sid p s db"
  obtains r db2 where "mergeAccounts now pid sid db = (Inr r, db2)"
    "mergeable pid sid (written p (merged_primary s p)) (written s (merged_secondary now pid s)) db2"
    "adb_tokens db2 = adb_tokens db"
proof -
  note m = assms [unfolded mergeable_def]
  have id: "us_id p = pid" "us_id s = sid" using m find_user_id by blast+
  have uq: "map (\<lambda>c. c (written p (merged_primary s p))) unique_columns = map (\<lambda>c. c p) unique_columns"
    "map (\<lambda>c. c (written s (merged_secondary now pid s))) unique_columns = map (\<lambda>c. c s) unique_columns"
    using m by (simp_all add: written_unique merged_primary_unique merged_secondary_unique)
  obtain db1 where db1: "update_user (merged_primary s p) db = (Inr (merged_primary s p), db1)" "users_ok db1"
      "find_user pid (adb_users db1) = Some (written p (merged_primary s p))"
      "\<And>k. k \<noteq> pid \<Longrightarrow> find_user k (adb_users db1) = find_user k (adb_users db)" "adb_tokens db1 = adb_tokens db"
    using update_same_identity [of db pid p "merged_primary s p"] m uq(1) by (auto simp: merged_primary_def)
  have s1: "find_user sid (adb_users db1) = Some s" using db1(4) [of sid] m by auto
  obtain db2 where db2: "update_user (merged_secondary now pid s) db1 = (Inr (merged_secondary now pid s), db2)" "users_ok db2"
      "find_user sid (adb_users db2) = Some (written s (merged_secondary now pid s))"
      "\<And>k. k \<noteq> sid \<Longrightarrow> find_user k (adb_users db2) = find_user k (adb_users db1)" "adb_tokens db2 = adb_tokens db1"
    using update_same_identity [of db1 sid s "merged_secondary now pid s"] db1(2) s1 uq(2) by (auto simp: merged_secondary_def)
  have "mergeAccounts now pid sid db =
      (Inr \<lparr>mg_primaryUserId = pid, mg_mergedUserId = sid, mg_mergedFields = snd (merged s p)\<rparr>, db2)"
    using m db1(1) db2(1)
    by (simp add: mergeAccounts_def Let_def split_beta merged_primary_def merged_secondary_def)
  moreover have "mergeable pid sid (written p (merged_primary s p)) (written s (merged_secondary now pid s)) db2"
    using m db1 db2 takes_identity_unique [OF uq] db2(4) [of pid] by (simp add: mergeable_def merged_secondary_def)
  ultimately show ?thesis using that db1(5) db2(5) by simp
qed

text \<open>
  C22: A merge asks for nobody's consent and can be repeated. Whoever is signed in can name any other account that
  has not been deleted, and as long as no identity would move every merge succeeds: the reward points of the other
  account are added each time, that account keeps them, stays undeleted with its sessions alive, and has its erasure
  scheduled for the moment of the last merge.
\<close>

theorem merges_pay_without_consent:
  assumes "mergeable pid sid p s db" and "pid \<noteq> []" and "sid \<noteq> []"
  shows "\<exists>p' s'. let db' = fold (\<lambda>now d. snd (merge_handler now (Some pid) (Some sid) d)) nows db in
    find_user pid (adb_users db') = Some p' \<and> find_user sid (adb_users db') = Some s' \<and>
    us_rewardPoints p' = us_rewardPoints p + of_nat (length nows) * us_rewardPoints s \<and>
    us_rewardPoints s' = us_rewardPoints s \<and> us_deletedAt s' = None \<and>
    us_deletionScheduledFor s' = (if nows = [] then us_deletionScheduledFor s else Some (last nows)) \<and>
    adb_tokens db' = adb_tokens db"
  using assms
proof (induction nows arbitrary: db p s)
  case Nil
  then show ?case by (simp add: mergeable_def)
next
  case (Cons now nows)
  obtain r db2 where m: "mergeAccounts now pid sid db = (Inr r, db2)"
      "mergeable pid sid (written p (merged_primary s p)) (written s (merged_secondary now pid s)) db2"
      "adb_tokens db2 = adb_tokens db" using merge_succeeds [OF Cons.prems(1)] .
  have "snd (merge_handler now (Some pid) (Some sid) db) = db2"
    using m(1) Cons.prems(2,3) by (simp add: merge_handler_def or_none_def truthy_def)
  with Cons.IH [OF m(2) Cons.prems(2,3)] m(3) show ?case
    by (auto simp: Let_def merged_primary_def merged_secondary_def algebra_simps)
qed

subsection \<open>Examples\<close>

definition paid_user :: user where
  "paid_user = (blank_user ''s'')\<lparr>us_walletAddress := Some ''G'', us_rewardPoints := 7\<rparr>"

definition known_user :: user where
  "known_user = (blank_user ''s'')\<lparr>us_email := Some ''e'', us_emailVerified := True\<rparr>"

definition two_users :: "user \<Rightarrow> plain_token account_db" where
  "two_users s = \<lparr>adb_users = [blank_user ''p'', s], adb_tokens = [], acc_nonces = (\<lambda>_. None)\<rparr>"

lemma two_users_mergeable: "mergeable ''p'' ''s'' (blank_user ''p'') paid_user (two_users paid_user)"
  by (simp add: mergeable_def users_ok_def two_users_def paid_user_def blank_user_def find_user_def tbl_simps tbl_ok_def
      user_refused_def user_clash_def unique_columns_def takes_identity_def truthy_def)

theorem merges_pay_without_consent_witness:
  "\<exists>p'. find_user ''p'' (adb_users (fold (\<lambda>now d. snd (merge_handler now (Some ''p'') (Some ''s'') d)) [1, 2, 3]
       (two_users paid_user))) = Some p' \<and> us_rewardPoints p' = 21"
  using merges_pay_without_consent [OF two_users_mergeable, of "[1, 2, 3]"]
  by (auto simp: Let_def paid_user_def blank_user_def)

theorem merge_never_moves_identity_witness:
  "mergeAccounts 1 ''p'' ''s'' (two_users known_user) = (Inl duplicate_key_error, two_users known_user)"
  using merge_never_moves_identity [of "''p''" "two_users known_user" "blank_user ''p''" "''s''" known_user 1]
  by (simp add: two_users_def known_user_def blank_user_def find_user_def tbl_simps takes_identity_def truthy_def)

end
