(* ===== verification/Notifications.thy ===== *)
theory Notifications
  imports AppErrors
begin

text \<open>
  Notifications, preferences and device tokens (\<open>services/NotificationService.ts\<close>, \<open>PushNotificationProvider.ts\<close>). The
  push provider is outside: a parameter says whether it takes a push, and the pushes it took are a log. Whether the
  database takes a new notification is a parameter, because a caller's error path depends on it.
\<close>

subsection \<open>State\<close>

record notification =
  nt_id :: ident
  nt_userId :: ident
  nt_type :: string
  nt_title :: string
  nt_message :: string
  nt_data :: "(string \<times> string) list option"
  nt_isRead :: bool
  nt_createdAt :: timestamp

record notification_preference =
  np_userId :: ident
  np_type :: string
  np_enabled :: bool

record device_token =
  dt_userId :: ident
  dt_token :: string
  dt_platform :: string
  dt_createdAt :: timestamp

record notification_input =
  ni_userId :: ident
  ni_type :: string
  ni_title :: string
  ni_message :: string
  ni_data :: "(string \<times> string) list option"

record notification_db =
  nd_notifications :: "notification table"
  nd_preferences :: "notification_preference table"
  nd_devices :: "device_token table"
  nd_pushed :: "(string list \<times> notification_input) list"

record notification_world =
  nw_refuses :: "notification \<Rightarrow> js_error option"
  nw_pushes :: "string list \<Rightarrow> notification_input \<Rightarrow> bool"

subsection \<open>Device tokens\<close>

definition device_key :: "device_token \<Rightarrow> ident \<times> string" where
  "device_key d = (dt_userId d, dt_token d)"

definition normalizedPlatform :: "string \<Rightarrow> string" where
  "normalizedPlatform platform =
     (let p = ascii_lower platform in if p \<in> set [''ios'', ''android'', ''web''] then p else ''web'')"

definition registerDeviceToken :: "timestamp \<Rightarrow> string \<Rightarrow> string \<Rightarrow> string \<Rightarrow> (notification_db, device_token) service" where
  "registerDeviceToken now uid tok platform db =
     (if js_blank uid then (Inl (err_validation ''User ID is required'' ''INVALID_USER_ID''), db)
      else if js_blank tok then (Inl (err_validation ''Device token is required'' ''INVALID_DEVICE_TOKEN''), db)
      else
        let d = (case tbl_find (\<lambda>d. device_key d = (uid, js_trim tok)) (nd_devices db) of
              Some d \<Rightarrow> d\<lparr>dt_platform := normalizedPlatform platform\<rparr>
            | None \<Rightarrow> \<lparr>dt_userId = uid, dt_token = js_trim tok, dt_platform = normalizedPlatform platform, dt_createdAt = now\<rparr>)
        in (Inr d, db\<lparr>nd_devices := tbl_put device_key d (nd_devices db)\<rparr>))"

definition removeDeviceToken :: "string \<Rightarrow> string \<Rightarrow> (notification_db, bool) service" where
  "removeDeviceToken uid tok db =
     (if uid = [] \<or> tok = [] then (Inl (err_validation ''User ID and device token are required'' ''INVALID_ARGUMENTS''), db)
      else
        let p = (\<lambda>d. device_key d = (uid, js_trim tok))
        in (Inr (tbl_count p (nd_devices db) > 0), db\<lparr>nd_devices := tbl_delete p (nd_devices db)\<rparr>))"

definition getDeviceTokensForUser :: "ident \<Rightarrow> notification_db \<Rightarrow> device_token list" where
  "getDeviceTokensForUser uid db = sort_key (\<lambda>d. - dt_createdAt d) (filter (\<lambda>d. dt_userId d = uid) (nd_devices db))"

subsection \<open>Preferences\<close>

definition preference_key :: "notification_preference \<Rightarrow> ident \<times> string" where
  "preference_key p = (np_userId p, np_type p)"

definition isTypeEnabled :: "ident \<Rightarrow> string \<Rightarrow> notification_db \<Rightarrow> bool" where
  "isTypeEnabled uid ty db =
     (case tbl_find (\<lambda>p. preference_key p = (uid, ty)) (nd_preferences db) of Some p \<Rightarrow> np_enabled p | None \<Rightarrow> True)"

definition getPreferences :: "ident \<Rightarrow> notification_db \<Rightarrow> notification_preference list" where
  "getPreferences uid db = filter (\<lambda>p. np_userId p = uid) (nd_preferences db)"

definition setPreference :: "ident \<Rightarrow> string \<Rightarrow> bool \<Rightarrow> notification_db \<Rightarrow> notification_preference \<times> notification_db" where
  "setPreference uid ty enabled db =
     (let p = (case tbl_find (\<lambda>p. preference_key p = (uid, ty)) (nd_preferences db) of
                 Some p \<Rightarrow> p\<lparr>np_enabled := enabled\<rparr>
               | None \<Rightarrow> \<lparr>np_userId = uid, np_type = ty, np_enabled = enabled\<rparr>)
      in (p, db\<lparr>nd_preferences := tbl_put preference_key p (nd_preferences db)\<rparr>))"

fun updatePreferences ::
  "ident \<Rightarrow> (string \<times> bool) list \<Rightarrow> notification_db \<Rightarrow> notification_preference list \<times> notification_db" where
  "updatePreferences uid [] db = ([], db)"
| "updatePreferences uid ((ty, enabled) # items) db =
     (let (p, db1) = setPreference uid ty enabled db; (ps, db2) = updatePreferences uid items db1 in (p # ps, db2))"

subsection \<open>Notifications\<close>

definition createNotification ::
  "notification_world \<Rightarrow> ident \<Rightarrow> timestamp \<Rightarrow> notification_input \<Rightarrow> (notification_db, notification option) service" where
  "createNotification w nid now i db =
     (if \<not> isTypeEnabled (ni_userId i) (ni_type i) db then (Inr None, db)
      else
        let n = \<lparr>nt_id = nid, nt_userId = ni_userId i, nt_type = ni_type i, nt_title = ni_title i, nt_message = ni_message i,
                 nt_data = ni_data i, nt_isRead = False, nt_createdAt = now\<rparr>
        in (case nw_refuses w n of
              Some e \<Rightarrow> (Inl e, db)
            | None \<Rightarrow>
                let toks = filter (\<lambda>t. t \<noteq> []) (map dt_token (filter (\<lambda>d. dt_userId d = ni_userId i) (nd_devices db)));
                    pushed = (if toks \<noteq> [] \<and> nw_pushes w toks i then [(toks, i)] else [])
                in (Inr (Some n), db\<lparr>nd_notifications := nd_notifications db @ [n], nd_pushed := nd_pushed db @ pushed\<rparr>)))"

record notification_page =
  npg_data :: "notification list"
  npg_unreadCount :: nat
  npg_page :: int
  npg_limit :: int
  npg_total :: nat
  npg_totalPages :: int

definition listNotifications :: "ident \<Rightarrow> int \<Rightarrow> int \<Rightarrow> notification_db \<Rightarrow> notification_page" where
  "listNotifications uid page limit db =
     (let safePage = max 1 page; safeLimit = min (max 1 limit) 100;
          mine = filter (\<lambda>n. nt_userId n = uid) (nd_notifications db)
      in \<lparr>npg_data = take (nat safeLimit) (drop (nat ((safePage - 1) * safeLimit)) (sort_key (\<lambda>n. - nt_createdAt n) mine)),
          npg_unreadCount = length (filter (\<lambda>n. \<not> nt_isRead n) mine), npg_page = safePage, npg_limit = safeLimit,
          npg_total = length mine, npg_totalPages = ceil_div (int (length mine)) safeLimit\<rparr>)"

definition markAsRead :: "ident \<Rightarrow> ident \<Rightarrow> (notification_db, notification) service" where
  "markAsRead nid uid db =
     (case tbl_find (\<lambda>n. nt_id n = nid) (nd_notifications db) of
        None \<Rightarrow> (Inl (err_notFound ''Notification not found'' ''NOTIFICATION_NOT_FOUND''), db)
      | Some n \<Rightarrow>
          if nt_userId n \<noteq> uid
          then (Inl (err_authorization ''You can only mark your own notifications as read'' ''NOT_NOTIFICATION_OWNER''), db)
          else if nt_isRead n then (Inr n, db)
          else (let n' = n\<lparr>nt_isRead := True\<rparr> in (Inr n', db\<lparr>nd_notifications := tbl_put nt_id n' (nd_notifications db)\<rparr>)))"

definition markAllAsRead :: "ident \<Rightarrow> notification_db \<Rightarrow> nat \<times> notification_db" where
  "markAllAsRead uid db =
     (let p = (\<lambda>n. nt_userId n = uid \<and> \<not> nt_isRead n)
      in (length (filter p (nd_notifications db)),
          db\<lparr>nd_notifications := map (\<lambda>n. if p n then n\<lparr>nt_isRead := True\<rparr> else n) (nd_notifications db)\<rparr>))"

subsection \<open>Requests\<close>

datatype notification_op =
    NO_create ident timestamp notification_input
  | NO_prefer ident string bool
  | NO_prefer_all ident "(string \<times> bool) list"
  | NO_read ident ident
  | NO_read_all ident
  | NO_register timestamp string string string
  | NO_remove string string

fun notification_step :: "notification_world \<Rightarrow> notification_op \<Rightarrow> notification_db \<Rightarrow> notification_db" where
  "notification_step w (NO_create nid now i) db = snd (createNotification w nid now i db)"
| "notification_step w (NO_prefer uid ty b) db = snd (setPreference uid ty b db)"
| "notification_step w (NO_prefer_all uid items) db = snd (updatePreferences uid items db)"
| "notification_step w (NO_read nid uid) db = snd (markAsRead nid uid db)"
| "notification_step w (NO_read_all uid) db = snd (markAllAsRead uid db)"
| "notification_step w (NO_register now uid tok platform) db = snd (registerDeviceToken now uid tok platform db)"
| "notification_step w (NO_remove uid tok) db = snd (removeDeviceToken uid tok db)"

fun turns_on :: "ident \<Rightarrow> string \<Rightarrow> notification_op \<Rightarrow> bool" where
  "turns_on uid ty (NO_prefer u t b) \<longleftrightarrow> u = uid \<and> t = ty \<and> b"
| "turns_on uid ty (NO_prefer_all u items) \<longleftrightarrow> u = uid \<and> (ty, True) \<in> set items"
| "turns_on uid ty _ \<longleftrightarrow> False"

definition sent_to :: "ident \<Rightarrow> string \<Rightarrow> notification_db \<Rightarrow> ident list \<times> (string list \<times> notification_input) list" where
  "sent_to uid ty db =
     (map nt_id (filter (\<lambda>n. nt_userId n = uid \<and> nt_type n = ty) (nd_notifications db)),
      filter (\<lambda>(_, i). ni_userId i = uid \<and> ni_type i = ty) (nd_pushed db))"

text \<open>Turned off, with nothing sent but what is given.\<close>

definition silent :: "ident \<Rightarrow> string \<Rightarrow> ident list \<times> (string list \<times> notification_input) list \<Rightarrow> notification_db \<Rightarrow> bool" where
  "silent uid ty old db \<longleftrightarrow> \<not> isTypeEnabled uid ty db \<and> sent_to uid ty db = old"

lemma notif_key_put:
  assumes "tbl_find (\<lambda>x. key x = k) t = Some r" and "key r' = k"
  shows "\<exists>xs ys. t = xs @ r # ys \<and> tbl_put key r' t = xs @ r' # ys"
  using assms(1)
proof (induction t)
  case (Cons x xs)
  show ?case
  proof (cases "key x = k")
    case True
    with Cons.prems assms(2) have "x # xs = [] @ r # xs \<and> tbl_put key r' (x # xs) = [] @ r' # xs" by (simp add: tbl_simps)
    then show ?thesis by blast
  next
    case False
    with Cons obtain as bs where "xs = as @ r # bs" "tbl_put key r' xs = as @ r' # bs" by (auto simp: tbl_simps)
    with False assms(2) have "x # xs = (x # as) @ r # bs \<and> tbl_put key r' (x # xs) = (x # as) @ r' # bs" by simp
    then show ?thesis by blast
  qed
qed (simp add: tbl_simps)

lemma setPreference_row:
  obtains p where "setPreference u t b db = (p, db\<lparr>nd_preferences := tbl_put preference_key p (nd_preferences db)\<rparr>)"
    "preference_key p = (u, t)" "np_enabled p = b"
proof (cases "tbl_find (\<lambda>p. preference_key p = (u, t)) (nd_preferences db)")
  case None
  then show ?thesis using that by (simp add: setPreference_def preference_key_def Let_def)
next
  case (Some p)
  then show ?thesis using that tbl_find_SomeD [OF Some] by (simp add: setPreference_def preference_key_def Let_def)
qed

lemma setPreference_enabled:
  "isTypeEnabled uid ty (snd (setPreference u t b db)) = (if (u, t) = (uid, ty) then b else isTypeEnabled uid ty db)"
proof -
  obtain p where p: "setPreference u t b db = (p, db\<lparr>nd_preferences := tbl_put preference_key p (nd_preferences db)\<rparr>)"
    "preference_key p = (u, t)" "np_enabled p = b" using setPreference_row .
  then show ?thesis
    using tbl_find_put_same [of preference_key p "nd_preferences db"]
      tbl_find_put_other [of "(uid, ty)" preference_key p "nd_preferences db"] by (auto simp: isTypeEnabled_def)
qed

lemma setPreference_sent: "sent_to uid ty (snd (setPreference u t b db)) = sent_to uid ty db"
  by (simp add: setPreference_def sent_to_def Let_def)

lemma silent_setPreference:
  "silent uid ty old db \<Longrightarrow> \<not> (u = uid \<and> t = ty \<and> b) \<Longrightarrow> silent uid ty old (snd (setPreference u t b db))"
  by (auto simp: silent_def setPreference_enabled setPreference_sent)

lemma silent_updatePreferences:
  "silent uid ty old db \<Longrightarrow> \<not> (u = uid \<and> (ty, True) \<in> set items) \<Longrightarrow> silent uid ty old (snd (updatePreferences u items db))"
proof (induction items arbitrary: db)
  case (Cons x items)
  obtain t b where x: "x = (t, b)" by (cases x)
  have "silent uid ty old (snd (setPreference u t b db))" using Cons.prems x by (intro silent_setPreference) auto
  with Cons x show ?case by (auto simp: split_beta Let_def)
qed simp

lemma silent_step:
  assumes "silent uid ty old db" and "\<not> turns_on uid ty e"
  shows "silent uid ty old (notification_step w e db)"
proof (cases e)
  case (NO_create nid now i)
  with assms(1) show ?thesis
    by (auto simp: silent_def createNotification_def sent_to_def isTypeEnabled_def Let_def split: option.splits)
next
  case (NO_read nid u)
  show ?thesis
  proof (cases "tbl_find (\<lambda>n. nt_id n = nid) (nd_notifications db)")
    case (Some n)
    have "nt_id n = nid" using tbl_find_SomeD [OF Some] by simp
    with notif_key_put [OF Some, of "n\<lparr>nt_isRead := True\<rparr>"] obtain xs ys where
      "nd_notifications db = xs @ n # ys" "tbl_put nt_id (n\<lparr>nt_isRead := True\<rparr>) (nd_notifications db) = xs @ n\<lparr>nt_isRead := True\<rparr> # ys"
      by auto
    with assms(1) NO_read Some show ?thesis
      by (auto simp: silent_def markAsRead_def sent_to_def isTypeEnabled_def Let_def split: if_splits)
  qed (use assms(1) NO_read in \<open>simp add: markAsRead_def\<close>)
next
  case (NO_read_all u)
  have "map nt_id (filter (\<lambda>n. nt_userId n = uid \<and> nt_type n = ty) (map (\<lambda>n. if p n then n\<lparr>nt_isRead := True\<rparr> else n) ns)) =
      map nt_id (filter (\<lambda>n. nt_userId n = uid \<and> nt_type n = ty) ns)" 
    for p and ns :: "notification list" by (induction ns) auto
  from this [of "\<lambda>n. nt_userId n = u \<and> \<not> nt_isRead n"] assms(1) NO_read_all show ?thesis
    unfolding silent_def by (simp add: markAllAsRead_def sent_to_def isTypeEnabled_def Let_def del: filter_map)
next
  case (NO_prefer u t b)
  with assms show ?thesis by (simp add: silent_setPreference)
next
  case (NO_prefer_all u items)
  with assms show ?thesis by (simp add: silent_updatePreferences)
qed (use assms(1) in \<open>simp_all add: registerDeviceToken_def removeDeviceToken_def silent_def sent_to_def isTypeEnabled_def Let_def\<close>)

text \<open>
  Turning a type of notification off silences it. Whatever creations, readings, device registrations and other
  preferences follow, until the user turns that type on again no notification of it is stored for the user and no
  push of it is sent.
\<close>

theorem muted_type_stays_silent:
  assumes "\<forall>e\<in>set ops. \<not> turns_on uid ty e"
  shows "sent_to uid ty (fold (notification_step w) ops (snd (setPreference uid ty False db))) = sent_to uid ty db"
proof -
  have "silent uid ty old (fold (notification_step w) ops d)" if "silent uid ty old d" for old d
    using that assms by (induction ops arbitrary: d) (auto intro: silent_step)
  moreover have "silent uid ty (sent_to uid ty db) (snd (setPreference uid ty False db))"
    by (simp add: silent_def setPreference_enabled setPreference_sent)
  ultimately show ?thesis by (simp add: silent_def)
qed

definition demo_notification :: notification_input where
  "demo_notification = \<lparr>ni_userId = ''u'', ni_type = ''follow'', ni_title = ''t'', ni_message = ''m'', ni_data = None\<rparr>"

definition demo_notification_world :: notification_world where
  "demo_notification_world = \<lparr>nw_refuses = (\<lambda>_. None), nw_pushes = (\<lambda>_ _. True)\<rparr>"

definition demo_notification_db :: notification_db where
  "demo_notification_db = \<lparr>nd_notifications = [], nd_preferences = [],
     nd_devices = [\<lparr>dt_userId = ''u'', dt_token = ''d'', dt_platform = ''web'', dt_createdAt = 0\<rparr>], nd_pushed = []\<rparr>"

theorem muted_type_stays_silent_witness:
  "sent_to ''u'' ''follow'' (fold (notification_step demo_notification_world)
     [NO_create ''n1'' 1 demo_notification, NO_read_all ''u'', NO_prefer ''u'' ''comment'' True, NO_create ''n2'' 2 demo_notification]
     (snd (setPreference ''u'' ''follow'' False demo_notification_db))) = ([], []) \<and>
   sent_to ''u'' ''follow'' (notification_step demo_notification_world (NO_create ''n1'' 1 demo_notification) demo_notification_db) =
     ([''n1''], [([''d''], demo_notification)])"
proof
  let ?ops = "[NO_create ''n1'' 1 demo_notification, NO_read_all ''u'', NO_prefer ''u'' ''comment'' True, NO_create ''n2'' 2 demo_notification]"
  have "\<forall>e\<in>set ?ops. \<not> turns_on ''u'' ''follow'' e" by simp
  from muted_type_stays_silent [OF this, of demo_notification_world demo_notification_db]
  show "sent_to ''u'' ''follow'' (fold (notification_step demo_notification_world) ?ops
     (snd (setPreference ''u'' ''follow'' False demo_notification_db))) = ([], [])"
    by (simp add: sent_to_def demo_notification_db_def)
qed (simp add: sent_to_def demo_notification_db_def createNotification_def isTypeEnabled_def demo_notification_def
    demo_notification_world_def tbl_simps Let_def)

text \<open>
  Reading. Marking all as read marks as many notifications as the list counted as unread, leaves none unread for
  that user and changes nobody else's; and a single notification is only ever marked by its recipient.
\<close>

theorem only_recipient_reads:
  "fst (markAllAsRead uid db) = npg_unreadCount (listNotifications uid page limit db) \<and>
   npg_unreadCount (listNotifications uid page' limit' (snd (markAllAsRead uid db))) = 0 \<and>
   filter (\<lambda>n. nt_userId n \<noteq> uid) (nd_notifications (snd (markAllAsRead uid db))) = filter (\<lambda>n. nt_userId n \<noteq> uid) (nd_notifications db) \<and>
   filter (\<lambda>n. nt_userId n \<noteq> uid) (nd_notifications (snd (markAsRead nid uid db))) = filter (\<lambda>n. nt_userId n \<noteq> uid) (nd_notifications db)"
proof (intro conjI)
  show "fst (markAllAsRead uid db) = npg_unreadCount (listNotifications uid page limit db)"
    by (simp add: markAllAsRead_def listNotifications_def Let_def conj_commute)
  show "npg_unreadCount (listNotifications uid page' limit' (snd (markAllAsRead uid db))) = 0"
    by (auto simp: markAllAsRead_def listNotifications_def Let_def filter_empty_conv)
  have "filter (\<lambda>n. nt_userId n \<noteq> uid) (map (\<lambda>n. if nt_userId n = uid \<and> \<not> nt_isRead n then n\<lparr>nt_isRead := True\<rparr> else n) ns) =
      filter (\<lambda>n. nt_userId n \<noteq> uid) ns" for ns :: "notification list" by (induction ns) auto
  then show "filter (\<lambda>n. nt_userId n \<noteq> uid) (nd_notifications (snd (markAllAsRead uid db))) =
      filter (\<lambda>n. nt_userId n \<noteq> uid) (nd_notifications db)" by (simp add: markAllAsRead_def Let_def)
  show "filter (\<lambda>n. nt_userId n \<noteq> uid) (nd_notifications (snd (markAsRead nid uid db))) =
      filter (\<lambda>n. nt_userId n \<noteq> uid) (nd_notifications db)"
  proof (cases "tbl_find (\<lambda>n. nt_id n = nid) (nd_notifications db)")
    case (Some n)
    have "nt_id n = nid" using tbl_find_SomeD [OF Some] by simp
    with notif_key_put [OF Some, of "n\<lparr>nt_isRead := True\<rparr>"] obtain xs ys where
      "nd_notifications db = xs @ n # ys" "tbl_put nt_id (n\<lparr>nt_isRead := True\<rparr>) (nd_notifications db) = xs @ n\<lparr>nt_isRead := True\<rparr> # ys"
      by auto
    with Some show ?thesis by (auto simp: markAsRead_def Let_def)
  qed (simp add: markAsRead_def)
qed

end
