(* ===== verification/Webhooks.thy ===== *)
theory Webhooks
  imports Notifications "HOL-Library.AList"
begin

text \<open>
  Webhook subscriptions and deliveries (\<open>services/WebhookService.ts\<close>, \<open>entities/WebhookSubscription.ts\<close>,
  \<open>entities/WebhookDelivery.ts\<close>). A delivery is split at its awaits: it reads the subscription once, makes up to
  three requests, and writes the entity it read back at the end, so that deliveries, deletions and each other's
  writes interleave as steps of a machine. The receiver's answers, the HMAC and the JSON text of a payload are
  parameters; a payload is the list of its fields with their values as texts.
\<close>

subsection \<open>State\<close>

type_synonym payload = "(string \<times> string) list"

record webhook_subscription =
  ws_id :: ident
  ws_userId :: ident
  ws_endpoint :: string
  ws_secret :: string
  ws_eventTypes :: "string list option"
  ws_isActive :: bool
  ws_consecutiveFailures :: int
  ws_createdAt :: timestamp

datatype delivery_status = WD_pending | WD_succeeded | WD_failed

record webhook_delivery =
  wd_id :: ident
  wd_subscriptionId :: ident
  wd_eventId :: string
  wd_eventType :: string
  wd_attempt :: nat
  wd_status :: delivery_status
  wd_responseStatus :: "int option"
  wd_durationMs :: int
  wd_error :: "string option"
  wd_payload :: "payload option"
  wd_createdAt :: timestamp

record webhook_db =
  wb_subs :: "webhook_subscription table"
  wb_deliveries :: "webhook_delivery table"
  wb_notes :: notification_db
  wb_requests :: "(string \<times> string \<times> string) list"

text \<open>The parameters: the HMAC in hexadecimal, \<open>JSON.stringify\<close>, the text of a number, the parsed limit.\<close>

record webhook_world =
  ww_hmac :: "string \<Rightarrow> string \<Rightarrow> string"
  ww_json :: "payload \<Rightarrow> string"
  ww_maxFailures :: "int option"
  ww_notes :: notification_world
  ww_http :: "string \<Rightarrow> bool"

datatype http_answer = Response int string | FetchError string

fun ok_answer :: "http_answer \<Rightarrow> bool" where
  "ok_answer (Response status _) \<longleftrightarrow> 200 \<le> status \<and> status \<le> 299"
| "ok_answer (FetchError _) \<longleftrightarrow> False"

fun answer_status :: "http_answer \<Rightarrow> int option" where
  "answer_status (Response status _) = Some status"
| "answer_status (FetchError _) = None"

fun answer_error :: "http_answer \<Rightarrow> string" where
  "answer_error (Response status t) = ''HTTP '' @ int_str status @ '': '' @ t"
| "answer_error (FetchError m) = m"

subsection \<open>Subscriptions\<close>

definition signPayload :: "webhook_world \<Rightarrow> payload \<Rightarrow> string \<Rightarrow> string" where
  "signPayload w p secret = ww_hmac w secret (ww_json w p)"

text \<open>\<open>timingSafeEqual\<close> throws on texts of different length, which the code answers with false.\<close>

definition verifySignature :: "webhook_world \<Rightarrow> payload \<Rightarrow> string \<Rightarrow> string \<Rightarrow> bool" where
  "verifySignature w p signature secret \<longleftrightarrow> signPayload w p secret = signature"

definition plain_err :: "string \<Rightarrow> js_error" where
  "plain_err m = PlainErr m None"

text \<open>\<open>ww_http\<close> says whether a text parses as a URL with scheme http or https.\<close>

definition registerSubscription ::
  "webhook_world \<Rightarrow> ident \<Rightarrow> timestamp \<Rightarrow> string \<Rightarrow> ident \<Rightarrow> string \<Rightarrow> string list option \<Rightarrow> string option \<Rightarrow>
   (webhook_db, webhook_subscription) service" where
  "registerSubscription w sid now random uid endpoint types provided db =
     (if \<not> ww_http w endpoint then (Inl (plain_err ''Invalid endpoint URL''), db)
      else
        let s = \<lparr>ws_id = sid, ws_userId = uid, ws_endpoint = endpoint,
              ws_secret = (case or_none provided of Some x \<Rightarrow> x | None \<Rightarrow> random),
              ws_eventTypes = Some (case types of Some (t # ts) \<Rightarrow> t # ts | _ \<Rightarrow> [''*'']),
              ws_isActive = True, ws_consecutiveFailures = 0, ws_createdAt = now\<rparr>
        in (Inr s, db\<lparr>wb_subs := tbl_put ws_id s (wb_subs db)\<rparr>))"

definition find_sub :: "ident \<Rightarrow> webhook_db \<Rightarrow> webhook_subscription option" where
  "find_sub sid db = tbl_find (\<lambda>s. ws_id s = sid) (wb_subs db)"

definition save_sub :: "webhook_subscription \<Rightarrow> webhook_db \<Rightarrow> webhook_db" where
  "save_sub s db = db\<lparr>wb_subs := tbl_put ws_id s (wb_subs db)\<rparr>"

definition listSubscriptions :: "ident \<Rightarrow> webhook_db \<Rightarrow> webhook_subscription list" where
  "listSubscriptions uid db = sort_key (\<lambda>s. - ws_createdAt s) (filter (\<lambda>s. ws_userId s = uid) (wb_subs db))"

text \<open>The deliveries of a subscription go with it: \<open>onDelete: 'CASCADE'\<close>.\<close>

definition deleteSubscription :: "ident \<Rightarrow> ident \<Rightarrow> (webhook_db, unit) service" where
  "deleteSubscription uid sid db =
     (case tbl_find (\<lambda>s. ws_id s = sid \<and> ws_userId s = uid) (wb_subs db) of
        None \<Rightarrow> (Inl (plain_err ''Webhook subscription not found''), db)
      | Some s \<Rightarrow> (Inr (), db\<lparr>wb_subs := tbl_delete (\<lambda>s. ws_id s = sid) (wb_subs db),
                  wb_deliveries := tbl_delete (\<lambda>d. wd_subscriptionId d = sid) (wb_deliveries db)\<rparr>))"

subsection \<open>A delivery\<close>

record delivery_run =
  dv_endpoint :: string
  dv_payload :: payload
  dv_signature :: string
  dv_sub :: "webhook_subscription option"
  dv_subId :: "ident option"
  dv_attempt :: nat
  dv_last :: "webhook_delivery option"

definition maxRetries :: nat where "maxRetries = 3"

definition backoff :: "nat \<Rightarrow> int" where
  "backoff attempt = 2 ^ attempt * 1000"

definition deliver_begin :: "webhook_world \<Rightarrow> string \<Rightarrow> payload \<Rightarrow> string \<Rightarrow> ident option \<Rightarrow> webhook_db \<Rightarrow> delivery_run" where
  "deliver_begin w endpoint p secret subId db =
     (let s = (case or_none subId of
                 Some sid \<Rightarrow> find_sub sid db
               | None \<Rightarrow> tbl_find (\<lambda>s. ws_endpoint s = endpoint) (wb_subs db))
      in \<lparr>dv_endpoint = endpoint, dv_payload = p, dv_signature = signPayload w p secret, dv_sub = s,
          dv_subId = (case or_none subId of Some sid \<Rightarrow> Some sid | None \<Rightarrow> map_option ws_id s), dv_attempt = 0, dv_last = None\<rparr>)"

text \<open>Recording an attempt; the row is refused, and the error swallowed, when its subscription does not exist.\<close>

record attempt_info =
  at_id :: ident
  at_uuid :: ident
  at_now :: timestamp
  at_duration :: int

definition record_attempt ::
  "attempt_info \<Rightarrow> http_answer \<Rightarrow> delivery_run \<Rightarrow> webhook_db \<Rightarrow> webhook_delivery option \<times> webhook_db" where
  "record_attempt i a r db =
     (case dv_subId r of
        None \<Rightarrow> (dv_last r, db)
      | Some sid \<Rightarrow>
          if find_sub sid db = None then (dv_last r, db)
          else
            let d = \<lparr>wd_id = at_id i, wd_subscriptionId = sid,
                  wd_eventId = (case or_none (map_of (dv_payload r) ''eventId'') of Some x \<Rightarrow> x | None \<Rightarrow> at_uuid i),
                  wd_eventType = (case or_none (map_of (dv_payload r) ''eventType'') of Some x \<Rightarrow> x | None \<Rightarrow> ''unknown''),
                  wd_attempt = dv_attempt r + 1, wd_status = (if ok_answer a then WD_succeeded else WD_failed),
                  wd_responseStatus = answer_status a, wd_durationMs = at_duration i,
                  wd_error = (if ok_answer a then None else Some (answer_error a)),
                  wd_payload = Some (dv_payload r), wd_createdAt = at_now i\<rparr>
            in (Some d, db\<lparr>wb_deliveries := wb_deliveries db @ [d]\<rparr>))"

definition maxFailures :: "webhook_world \<Rightarrow> int" where
  "maxFailures w = (case ww_maxFailures w of Some n \<Rightarrow> if n = 0 then 5 else n | None \<Rightarrow> 5)"

definition disabled_note :: "webhook_subscription \<Rightarrow> notification_input" where
  "disabled_note s = \<lparr>ni_userId = ws_userId s, ni_type = ''system'', ni_title = ''Webhook subscription disabled'',
     ni_message = ''Your webhook subscription to '' @ ws_endpoint s @ '' has been disabled after '' @
       int_str (ws_consecutiveFailures s) @ '' consecutive failed events.'',
     ni_data = Some [(''subscriptionId'', ws_id s), (''endpoint'', ws_endpoint s),
       (''consecutiveFailures'', int_str (ws_consecutiveFailures s))]\<rparr>"

text \<open>After the last attempt: the failure count, and the switch-off. A notification that fails skips the save.\<close>

definition count_failure :: "webhook_world \<Rightarrow> attempt_info \<Rightarrow> webhook_subscription option \<Rightarrow> webhook_db \<Rightarrow> webhook_db" where
  "count_failure w i sub db =
     (case sub of
        None \<Rightarrow> db
      | Some s \<Rightarrow>
          let s1 = s\<lparr>ws_consecutiveFailures := ws_consecutiveFailures s + 1\<rparr> in
          if maxFailures w \<le> ws_consecutiveFailures s1 \<and> ws_isActive s1
          then (let s2 = s1\<lparr>ws_isActive := False\<rparr> in
            case createNotification (ww_notes w) (at_uuid i) (at_now i) (disabled_note s2) (wb_notes db) of
              (Inl _, n) \<Rightarrow> db\<lparr>wb_notes := n\<rparr>
            | (Inr _, n) \<Rightarrow> save_sub s2 (db\<lparr>wb_notes := n\<rparr>))
          else save_sub s1 db)"

datatype delivery_outcome = Retry delivery_run int | Delivered "webhook_delivery option" | DeadLetter

definition deliver_attempt ::
  "webhook_world \<Rightarrow> attempt_info \<Rightarrow> http_answer \<Rightarrow> delivery_run \<Rightarrow> webhook_db \<Rightarrow> delivery_outcome \<times> webhook_db" where
  "deliver_attempt w i a r db0 =
     (let db = db0\<lparr>wb_requests := wb_requests db0 @ [(dv_endpoint r, dv_signature r, ww_json w (dv_payload r))]\<rparr>;
          (d, db1) = record_attempt i a r db
      in if ok_answer a
         then (Delivered d, case dv_sub r of
                Some s \<Rightarrow> if ws_consecutiveFailures s > 0 then save_sub (s\<lparr>ws_consecutiveFailures := 0\<rparr>) db1 else db1
              | None \<Rightarrow> db1)
         else if dv_attempt r < maxRetries - 1
         then (Retry (r\<lparr>dv_attempt := dv_attempt r + 1, dv_last := d\<rparr>) (backoff (dv_attempt r)), db1)
         else (DeadLetter, count_failure w i (dv_sub r) db1))"

text \<open>A delivery whose attempts are not interleaved with anything: what the receiver answers to each attempt is given.\<close>

fun run_delivery ::
  "webhook_world \<Rightarrow> (nat \<Rightarrow> attempt_info) \<Rightarrow> (nat \<Rightarrow> http_answer) \<Rightarrow> nat \<Rightarrow> delivery_run \<Rightarrow> (webhook_db, webhook_delivery option) service" where
  "run_delivery w info answers 0 r db = (Inl (plain_err []), db)"
| "run_delivery w info answers (Suc left) r db =
     (case deliver_attempt w (info (dv_attempt r)) (answers (dv_attempt r)) r db of
        (Retry r' _, db1) \<Rightarrow> run_delivery w info answers left r' db1
      | (Delivered d, db1) \<Rightarrow> (Inr d, db1)
      | (DeadLetter, db1) \<Rightarrow>
          (Inl (plain_err (''Webhook delivery failed after 3 attempts to '' @ dv_endpoint r)), db1))"

definition deliver ::
  "webhook_world \<Rightarrow> (nat \<Rightarrow> attempt_info) \<Rightarrow> (nat \<Rightarrow> http_answer) \<Rightarrow> string \<Rightarrow> payload \<Rightarrow> string \<Rightarrow> ident option \<Rightarrow>
   (webhook_db, webhook_delivery option) service" where
  "deliver w info answers endpoint p secret subId db =
     run_delivery w info answers maxRetries (deliver_begin w endpoint p secret subId db) db"

definition owned_subscription :: "ident \<Rightarrow> ident \<Rightarrow> webhook_db \<Rightarrow> js_error + webhook_subscription" where
  "owned_subscription sid uid db =
     (case find_sub sid db of
        None \<Rightarrow> Inl (plain_err ''Webhook subscription not found'')
      | Some s \<Rightarrow> if ws_userId s \<noteq> uid then Inl (plain_err ''Forbidden: You do not own this webhook subscription'') else Inr s)"

definition redelivery :: "webhook_world \<Rightarrow> ident \<Rightarrow> ident \<Rightarrow> ident \<Rightarrow> webhook_db \<Rightarrow> js_error + delivery_run" where
  "redelivery w sid did uid db =
     (case owned_subscription sid uid db of
        Inl e \<Rightarrow> Inl e
      | Inr s \<Rightarrow>
          (case tbl_find (\<lambda>d. wd_id d = did \<and> wd_subscriptionId d = sid) (wb_deliveries db) of
             None \<Rightarrow> Inl (plain_err ''Webhook delivery record not found'')
           | Some d \<Rightarrow>
               (case wd_payload d of
                  None \<Rightarrow> Inl (plain_err ''No payload available for this webhook delivery'')
                | Some p \<Rightarrow> Inr (deliver_begin w (ws_endpoint s) p (ws_secret s) (Some (ws_id s)) db))))"

definition redeliver ::
  "webhook_world \<Rightarrow> (nat \<Rightarrow> attempt_info) \<Rightarrow> (nat \<Rightarrow> http_answer) \<Rightarrow> ident \<Rightarrow> ident \<Rightarrow> ident \<Rightarrow>
   (webhook_db, webhook_delivery option) service" where
  "redeliver w info answers sid did uid db =
     (case redelivery w sid did uid db of
        Inl e \<Rightarrow> (Inl e, db)
      | Inr r \<Rightarrow> run_delivery w info answers maxRetries r db)"

record delivery_page =
  dp_data :: "webhook_delivery list"
  dp_page :: int
  dp_limit :: int
  dp_total :: nat
  dp_totalPages :: int

definition listDeliveries :: "ident \<Rightarrow> ident \<Rightarrow> int \<Rightarrow> int \<Rightarrow> webhook_db \<Rightarrow> js_error + delivery_page" where
  "listDeliveries sid uid page limit db =
     (case owned_subscription sid uid db of
        Inl e \<Rightarrow> Inl e
      | Inr s \<Rightarrow>
          let safePage = max 1 page; safeLimit = min (max 1 limit) 100;
              ds = sort_key (\<lambda>d. - wd_createdAt d) (filter (\<lambda>d. wd_subscriptionId d = sid) (wb_deliveries db))
          in Inr \<lparr>dp_data = take (nat safeLimit) (drop (nat ((safePage - 1) * safeLimit)) ds), dp_page = safePage,
                  dp_limit = safeLimit, dp_total = length ds, dp_totalPages = ceil_div (int (length ds)) safeLimit\<rparr>)"

definition cleanupOldDeliveries :: "timestamp \<Rightarrow> int \<Rightarrow> webhook_db \<Rightarrow> nat \<times> webhook_db" where
  "cleanupOldDeliveries now retentionDays db =
     (let p = (\<lambda>d. wd_createdAt d < now - retentionDays * 24 * 60 * 60 * 1000)
      in (tbl_count p (wb_deliveries db), db\<lparr>wb_deliveries := tbl_delete p (wb_deliveries db)\<rparr>))"

subsection \<open>Publishing\<close>

text \<open>The fields of the event come last and replace the ones the service sets.\<close>

definition event_payload :: "ident \<Rightarrow> string \<Rightarrow> string \<Rightarrow> payload \<Rightarrow> payload" where
  "event_payload uuid eventType now_text extra =
     AList.updates (map fst extra) (map snd extra)
       [(''eventId'', uuid), (''eventType'', eventType), (''timestamp'', now_text)]"

definition matches_event :: "string \<Rightarrow> webhook_subscription \<Rightarrow> bool" where
  "matches_event eventType s \<longleftrightarrow> ws_isActive s \<and>
     (case ws_eventTypes s of None \<Rightarrow> True | Some ts \<Rightarrow> ts = [] \<or> eventType \<in> set ts \<or> ''*'' \<in> set ts)"

definition publish_runs :: "webhook_world \<Rightarrow> ident \<Rightarrow> string \<Rightarrow> string \<Rightarrow> payload \<Rightarrow> webhook_db \<Rightarrow> delivery_run list" where
  "publish_runs w uuid now_text eventType extra db =
     map (\<lambda>s. deliver_begin w (ws_endpoint s) (event_payload uuid eventType now_text extra) (ws_secret s) (Some (ws_id s)) db)
       (filter (matches_event eventType) (wb_subs db))"

text \<open>Each notice is published twice, under its own name and under an older one: the events and their fields.\<close>

definition emitMintStatusChanged :: "ident \<Rightarrow> payload \<Rightarrow> (string \<times> payload) list" where
  "emitMintStatusChanged songId details =
     map (\<lambda>ty. (ty, AList.updates (map fst details) (map snd details) [(''songId'', songId)]))
       [''song.minted'', ''mint_status_changed'']"

definition emitSaleCompleted :: "payload \<Rightarrow> (string \<times> payload) list" where
  "emitSaleCompleted details = map (\<lambda>ty. (ty, details)) [''sale.completed'', ''sale_completed'']"

definition test_runs :: "webhook_world \<Rightarrow> ident \<Rightarrow> ident \<Rightarrow> string \<Rightarrow> string \<Rightarrow> webhook_db \<Rightarrow> delivery_run option" where
  "test_runs w uid sid now_num now_text db =
     map_option (\<lambda>s. deliver_begin w (ws_endpoint s) [(''eventId'', ''test-'' @ now_num), (''eventType'', ''test.event''),
         (''timestamp'', now_text), (''message'', ''Test webhook delivery'')] (ws_secret s) (Some (ws_id s)) db)
       (List.find (\<lambda>s. ws_id s = sid) (listSubscriptions uid db))"

subsection \<open>Overlapping deliveries\<close>

record webhook_state = webhook_db +
  wb_runs :: "delivery_run list"

datatype webhook_event =
    WE_register ident timestamp string ident string "string list option" "string option"
  | WE_delete ident ident
  | WE_publish ident string string payload
  | WE_redeliver ident ident ident
  | WE_test ident ident string string
  | WE_attempt nat attempt_info http_answer
  | WE_cleanup timestamp int

definition on_db :: "(webhook_db \<Rightarrow> webhook_db) \<Rightarrow> webhook_state \<Rightarrow> webhook_state" where
  "on_db f s = webhook_db.extend (f (webhook_db.truncate s)) (webhook_state.fields (wb_runs s))"

definition start_runs :: "delivery_run list \<Rightarrow> webhook_state \<Rightarrow> webhook_state" where
  "start_runs rs s = s\<lparr>wb_runs := wb_runs s @ rs\<rparr>"

fun webhook_step :: "webhook_world \<Rightarrow> webhook_event \<Rightarrow> webhook_state \<Rightarrow> webhook_state" where
  "webhook_step w (WE_register sid now random uid endpoint types provided) s =
     on_db (\<lambda>db. snd (registerSubscription w sid now random uid endpoint types provided db)) s"
| "webhook_step w (WE_delete uid sid) s = on_db (\<lambda>db. snd (deleteSubscription uid sid db)) s"
| "webhook_step w (WE_publish uuid now_text ty extra) s =
     start_runs (publish_runs w uuid now_text ty extra (webhook_db.truncate s)) s"
| "webhook_step w (WE_redeliver sid did uid) s =
     (case redelivery w sid did uid (webhook_db.truncate s) of Inl _ \<Rightarrow> s | Inr r \<Rightarrow> start_runs [r] s)"
| "webhook_step w (WE_test uid sid now_num now_text) s =
     (case test_runs w uid sid now_num now_text (webhook_db.truncate s) of None \<Rightarrow> s | Some r \<Rightarrow> start_runs [r] s)"
| "webhook_step w (WE_cleanup now days) s = on_db (\<lambda>db. snd (cleanupOldDeliveries now days db)) s"
| "webhook_step w (WE_attempt k i a) s =
     (if k < length (wb_runs s)
      then (case deliver_attempt w i a (wb_runs s ! k) (webhook_db.truncate s) of
          (out, db) \<Rightarrow> on_db (\<lambda>_. db) (s\<lparr>wb_runs := (case out of
              Retry r _ \<Rightarrow> (wb_runs s)[k := r] | _ \<Rightarrow> remove_nth k (wb_runs s))\<rparr>))
      else s)"

subsection \<open>Switching a failing subscription off\<close>

definition deliveries_of :: "ident \<Rightarrow> webhook_db \<Rightarrow> webhook_delivery list" where
  "deliveries_of sid db = filter (\<lambda>d. wd_subscriptionId d = sid) (wb_deliveries db)"

lemma record_attempt_keeps:
  "wb_subs (snd (record_attempt i a r db)) = wb_subs db" "wb_notes (snd (record_attempt i a r db)) = wb_notes db"
  by (simp_all add: record_attempt_def Let_def split: option.split)

lemma record_attempt_deliveries:
  "dv_subId r = Some sid \<Longrightarrow> map (\<lambda>d. (wd_attempt d, wd_status d)) (deliveries_of k (snd (record_attempt i a r db))) =
     map (\<lambda>d. (wd_attempt d, wd_status d)) (deliveries_of k db) @
     (if k = sid \<and> find_sub sid db \<noteq> None then [(dv_attempt r + 1, if ok_answer a then WD_succeeded else WD_failed)] else [])"
  by (simp add: record_attempt_def deliveries_of_def Let_def)

lemma save_sub_simps [simp]:
  "find_sub k (save_sub s db) = (if k = ws_id s then Some s else find_sub k db)" "wb_deliveries (save_sub s db) = wb_deliveries db"
  "wb_notes (save_sub s db) = wb_notes db"
  by (auto simp: find_sub_def save_sub_def tbl_simps tbl_find_put_same)

lemma find_sub_cong: "wb_subs db = wb_subs db' \<Longrightarrow> find_sub k db = find_sub k db'"
  by (simp add: find_sub_def)

lemma find_sub_id: "find_sub sid db = Some s \<Longrightarrow> ws_id s = sid"
  by (auto simp: find_sub_def dest: tbl_find_SomeD)

definition failed_once :: "webhook_world \<Rightarrow> webhook_subscription \<Rightarrow> webhook_subscription" where
  "failed_once w s = (if maxFailures w \<le> ws_consecutiveFailures s + 1 \<and> ws_isActive s
     then s\<lparr>ws_consecutiveFailures := ws_consecutiveFailures s + 1, ws_isActive := False\<rparr>
     else s\<lparr>ws_consecutiveFailures := ws_consecutiveFailures s + 1\<rparr>)"

lemma failed_once_id [simp]: "ws_id (failed_once w s) = ws_id s" by (simp add: failed_once_def)

lemma createNotification_Inr:
  "\<forall>n. nw_refuses w n = None \<Longrightarrow> \<exists>r db'. createNotification w nid now i db = (Inr r, db')"
  by (simp add: createNotification_def Let_def)

lemma count_failure_spec:
  assumes "\<forall>n. nw_refuses (ww_notes w) n = None"
  shows "wb_subs (count_failure w i (Some s) db) = tbl_put ws_id (failed_once w s) (wb_subs db)"
    "wb_deliveries (count_failure w i (Some s) db) = wb_deliveries db"
proof -
  obtain r n where "createNotification (ww_notes w) (at_uuid i) (at_now i)
      (disabled_note (s\<lparr>ws_consecutiveFailures := ws_consecutiveFailures s + 1, ws_isActive := False\<rparr>)) (wb_notes db) = (Inr r, n)"
    using createNotification_Inr [OF assms] by blast
  then show "wb_subs (count_failure w i (Some s) db) = tbl_put ws_id (failed_once w s) (wb_subs db)"
    "wb_deliveries (count_failure w i (Some s) db) = wb_deliveries db"
    by (simp_all add: count_failure_def failed_once_def Let_def save_sub_def)
qed

lemma attempt_fails:
  assumes "\<not> ok_answer a" and "dv_subId r = Some sid" and "find_sub sid db \<noteq> None" and "dv_attempt r = n"
  shows "\<exists>d db1. deliver_attempt w i a r db =
      (if n < 2 then (Retry (r\<lparr>dv_attempt := n + 1, dv_last := d\<rparr>) (backoff n), db1)
       else (DeadLetter, count_failure w i (dv_sub r) db1)) \<and> wb_subs db1 = wb_subs db \<and>
    (\<forall>k. map (\<lambda>d. (wd_attempt d, wd_status d)) (deliveries_of k db1) = map (\<lambda>d. (wd_attempt d, wd_status d)) (deliveries_of k db) @
       (if k = sid then [(n + 1, WD_failed)] else []))"
proof -
  let ?db = "db\<lparr>wb_requests := wb_requests db @ [(dv_endpoint r, dv_signature r, ww_json w (dv_payload r))]\<rparr>"
  have f: "find_sub sid ?db \<noteq> None" using assms(3) find_sub_cong [of ?db db sid] by simp
  have same: "deliveries_of k ?db = deliveries_of k db" for k by (simp add: deliveries_of_def)
  show ?thesis
    using assms(1,4) record_attempt_keeps [of i a r ?db] record_attempt_deliveries [OF assms(2), of _ i a ?db] f same
    by (intro exI [of _ "fst (record_attempt i a r ?db)"] exI [of _ "snd (record_attempt i a r ?db)"])
      (simp add: deliver_attempt_def maxRetries_def split_beta Let_def)
qed

lemma delivery_fails:
  assumes "\<forall>n. \<not> ok_answer (answers n)" and "dv_subId r = Some (ws_id s)" and "dv_sub r = Some s" and "dv_attempt r = 0"
    and "find_sub (ws_id s) db \<noteq> None" and "\<forall>n. nw_refuses (ww_notes w) n = None"
  shows "wb_subs (snd (run_delivery w info answers maxRetries r db)) = tbl_put ws_id (failed_once w s) (wb_subs db)"
    "map (\<lambda>d. (wd_attempt d, wd_status d)) (deliveries_of k (snd (run_delivery w info answers maxRetries r db))) =
       map (\<lambda>d. (wd_attempt d, wd_status d)) (deliveries_of k db) @
       (if k = ws_id s then [(1, WD_failed), (2, WD_failed), (3, WD_failed)] else [])"
proof -
  let ?log = "\<lambda>k d. map (\<lambda>d. (wd_attempt d, wd_status d)) (deliveries_of k d)"
  obtain d1 db1 where 1: "deliver_attempt w (info 0) (answers 0) r db = (Retry (r\<lparr>dv_attempt := 1, dv_last := d1\<rparr>) (backoff 0), db1)"
    "wb_subs db1 = wb_subs db" "?log k db1 = ?log k db @ (if k = ws_id s then [(1, WD_failed)] else [])"
    using attempt_fails [of "answers 0" r "ws_id s" db 0 w "info 0"] assms(1,2,4,5) by auto
  let ?r1 = "r\<lparr>dv_attempt := 1, dv_last := d1\<rparr>"
  have f1: "find_sub (ws_id s) db1 \<noteq> None" using assms(5) find_sub_cong [OF 1(2)] by simp
  obtain d2 db2 where 2: "deliver_attempt w (info 1) (answers 1) ?r1 db1 = (Retry (?r1\<lparr>dv_attempt := 2, dv_last := d2\<rparr>) (backoff 1), db2)"
    "wb_subs db2 = wb_subs db1" "?log k db2 = ?log k db1 @ (if k = ws_id s then [(2, WD_failed)] else [])"
    using attempt_fails [of "answers 1" ?r1 "ws_id s" db1 1 w "info 1"] assms(1,2) f1 by (auto simp: numeral_2_eq_2)
  let ?r2 = "?r1\<lparr>dv_attempt := 2, dv_last := d2\<rparr>"
  have f2: "find_sub (ws_id s) db2 \<noteq> None" using f1 find_sub_cong [OF 2(2)] by simp
  obtain db3 where 3: "deliver_attempt w (info 2) (answers 2) ?r2 db2 = (DeadLetter, count_failure w (info 2) (Some s) db3)"
    "wb_subs db3 = wb_subs db2" "?log k db3 = ?log k db2 @ (if k = ws_id s then [(3, WD_failed)] else [])"
    using attempt_fails [of "answers 2" ?r2 "ws_id s" db2 2 w "info 2"] assms(1,2,3) f2 by auto
  have run: "snd (run_delivery w info answers maxRetries r db) = count_failure w (info 2) (Some s) db3"
    using 1(1) 2(1) 3(1) assms(4) by (simp add: maxRetries_def numeral_3_eq_3 numeral_2_eq_2)
  show "wb_subs (snd (run_delivery w info answers maxRetries r db)) = tbl_put ws_id (failed_once w s) (wb_subs db)"
    using run count_failure_spec(1) [OF assms(6)] 1(2) 2(2) 3(2) by simp
  have "deliveries_of k (count_failure w (info 2) (Some s) db3) = deliveries_of k db3"
    using count_failure_spec(2) [OF assms(6)] by (simp add: deliveries_of_def)
  then show "map (\<lambda>d. (wd_attempt d, wd_status d)) (deliveries_of k (snd (run_delivery w info answers maxRetries r db))) =
       map (\<lambda>d. (wd_attempt d, wd_status d)) (deliveries_of k db) @
       (if k = ws_id s then [(1, WD_failed), (2, WD_failed), (3, WD_failed)] else [])"
    using run 1(3) 2(3) 3(3) by simp
qed

definition publish_in_turn ::
  "webhook_world \<Rightarrow> (nat \<Rightarrow> attempt_info) \<Rightarrow> (nat \<Rightarrow> http_answer) \<Rightarrow> ident \<times> string \<times> string \<times> payload \<Rightarrow> webhook_db \<Rightarrow> webhook_db" where
  "publish_in_turn w info answers ev db =
     (case ev of (uuid, now_text, ty, extra) \<Rightarrow>
        fold (\<lambda>r d. snd (run_delivery w info answers maxRetries r d)) (publish_runs w uuid now_text ty extra db) db)"

definition run_for :: "webhook_subscription \<Rightarrow> delivery_run \<Rightarrow> bool" where
  "run_for s r \<longleftrightarrow> dv_attempt r = 0 \<and> dv_sub r = Some s \<and> dv_subId r = Some (ws_id s)"

lemma find_sub_in: "find_sub k db \<noteq> None \<longleftrightarrow> k \<in> ws_id ` set (wb_subs db)"
  by (auto simp: find_sub_def tbl_find_None_iff)

lemma runs_fail:
  assumes "\<forall>n. \<not> ok_answer (answers n)" and "\<forall>n. nw_refuses (ww_notes w) n = None"
  shows "list_all2 run_for ss rs \<Longrightarrow> distinct (map ws_id ss) \<Longrightarrow> ws_id ` set ss \<subseteq> ws_id ` set (wb_subs db) \<Longrightarrow>
    wb_subs (fold (\<lambda>r d. snd (run_delivery w info answers maxRetries r d)) rs db) = fold (\<lambda>s. tbl_put ws_id (failed_once w s)) ss (wb_subs db) \<and>
    length (deliveries_of k (fold (\<lambda>r d. snd (run_delivery w info answers maxRetries r d)) rs db)) =
      length (deliveries_of k db) + (if k \<in> ws_id ` set ss then 3 else 0)"
proof (induction ss arbitrary: rs db)
  case (Cons s ss)
  then obtain r rs' where rs: "rs = r # rs'" "run_for s r" "list_all2 run_for ss rs'" by (auto simp: list_all2_Cons1)
  let ?d = "snd (run_delivery w info answers maxRetries r db)"
  note run = delivery_fails [OF assms(1) _ _ _ _ assms(2), where r = r and s = s and db = db and info = info]
  have found: "find_sub (ws_id s) db \<noteq> None" using Cons.prems(3) find_sub_in [of "ws_id s" db] by auto
  have d: "wb_subs ?d = tbl_put ws_id (failed_once w s) (wb_subs db)"
    "length (deliveries_of k ?d) = length (deliveries_of k db) + (if k = ws_id s then 3 else 0)"
    using rs(2) found run(1) run(2) [where k = k, THEN arg_cong [of _ _ length]] by (auto simp: run_for_def)
  have "ws_id ` set (wb_subs ?d) = ws_id ` set (wb_subs db)"
    using map_key_tbl_put [of ws_id "failed_once w s" "wb_subs db"] found find_sub_in [of "ws_id s" db]
    unfolding d(1) set_map [symmetric] by auto
  with Cons.IH [OF rs(3)] Cons.prems(2,3) d rs(1) show ?case by auto
qed simp

lemma publish_runs_for:
  assumes "tbl_ok ws_id (wb_subs db)" and "\<forall>s\<in>set (wb_subs db). ws_id s \<noteq> []"
  shows "list_all2 run_for (filter (matches_event ty) (wb_subs db)) (publish_runs w uuid now_text ty extra db)"
proof -
  have "run_for s (deliver_begin w e p secret (Some (ws_id s)) db)" if "s \<in> set (wb_subs db)" for s e p secret
    using that assms tbl_find_key_eq [OF assms(1) that]
    by (simp add: run_for_def deliver_begin_def find_sub_def or_none_def truthy_def)
  then show ?thesis by (simp add: publish_runs_def list_all2_map2 list_all2_same)
qed

lemma tbl_ok_fold_put: "tbl_ok key t \<Longrightarrow> tbl_ok key (fold (\<lambda>s. tbl_put key (f s)) ss t)"
  by (induction ss arbitrary: t) (simp_all add: tbl_simps)

lemma find_fold_put:
  assumes "\<And>s. key (f s) = key s" and "distinct (map key ss)"
  shows "tbl_find (\<lambda>x. key x = k) (fold (\<lambda>s. tbl_put key (f s)) ss t) =
    (case tbl_find (\<lambda>x. key x = k) ss of Some s \<Rightarrow> Some (f s) | None \<Rightarrow> tbl_find (\<lambda>x. key x = k) t)"
  using assms(2)
proof (induction ss arbitrary: t)
  case (Cons s ss)
  show ?case
  proof (cases "key s = k")
    case True
    then have "tbl_find (\<lambda>x. key x = k) ss = None" using Cons.prems by (auto simp: tbl_find_None_iff) (metis imageI)
    moreover have "tbl_find (\<lambda>x. key x = k) (tbl_put key (f s) t) = Some (f s)"
      using tbl_find_put_same [of key "f s" t] True assms(1) by simp
    ultimately show ?thesis using Cons True by (simp add: tbl_simps)
  next
    case False
    then have "tbl_find (\<lambda>x. key x = k) (tbl_put key (f s) t) = tbl_find (\<lambda>x. key x = k) t"
      using tbl_find_put_other [of k key "f s" t] assms(1) by auto
    with Cons False show ?thesis by (simp add: tbl_simps split: option.split)
  qed
qed (simp add: tbl_simps)

lemma ids_fold_put:
  "(\<And>s. key (f s) = key s) \<Longrightarrow> key ` set ss \<subseteq> key ` set t \<Longrightarrow> key ` set (fold (\<lambda>s. tbl_put key (f s)) ss t) = key ` set t"
proof (induction ss arbitrary: t)
  case (Cons s ss)
  have "key ` set (tbl_put key (f s) t) = key ` set t"
    using map_key_tbl_put [of key "f s" t] Cons.prems by (auto simp: set_map [symmetric] simp del: set_map)
  with Cons show ?case by simp
qed simp

text \<open>One event published while the receivers fail: every matching subscription counts one failure.\<close>

lemma publish_fails:
  assumes "\<forall>n. \<not> ok_answer (answers n)" and "\<forall>n. nw_refuses (ww_notes w) n = None"
    and "tbl_ok ws_id (wb_subs db)" and "\<forall>s\<in>set (wb_subs db). ws_id s \<noteq> []" and "find_sub sid db = Some s"
  shows "tbl_ok ws_id (wb_subs (publish_in_turn w info answers (uuid, now_text, ty, extra) db))"
    "\<forall>s\<in>set (wb_subs (publish_in_turn w info answers (uuid, now_text, ty, extra) db)). ws_id s \<noteq> []"
    "find_sub sid (publish_in_turn w info answers (uuid, now_text, ty, extra) db) = Some (if matches_event ty s then failed_once w s else s)"
    "length (deliveries_of sid (publish_in_turn w info answers (uuid, now_text, ty, extra) db)) =
       length (deliveries_of sid db) + (if matches_event ty s then 3 else 0)"
proof -
  let ?ss = "filter (matches_event ty) (wb_subs db)"
  let ?d = "publish_in_turn w info answers (uuid, now_text, ty, extra) db"
  have dis: "distinct (map ws_id ?ss)" using assms(3) by (simp add: tbl_ok_def distinct_map_filter)
  have sub: "ws_id ` set ?ss \<subseteq> ws_id ` set (wb_subs db)" by auto
  have run: "wb_subs ?d = fold (\<lambda>s. tbl_put ws_id (failed_once w s)) ?ss (wb_subs db)"
    "length (deliveries_of sid ?d) = length (deliveries_of sid db) + (if sid \<in> ws_id ` set ?ss then 3 else 0)"
    
    using runs_fail [OF assms(1,2) publish_runs_for [OF assms(3,4)] dis sub, where info = info and k = sid]
    unfolding publish_in_turn_def prod.case by blast+
  show "tbl_ok ws_id (wb_subs ?d)" unfolding run(1) using assms(3) by (rule tbl_ok_fold_put)
  have "ws_id ` set (wb_subs ?d) = ws_id ` set (wb_subs db)" 
    unfolding run(1) by (rule ids_fold_put [where f = "failed_once w", OF failed_once_id sub])
  moreover have "[] \<notin> ws_id ` set (wb_subs db)" using assms(4) by auto
  ultimately have "[] \<notin> ws_id ` set (wb_subs ?d)" by (simp only: not_False_eq_True)
  then show "\<forall>s\<in>set (wb_subs ?d). ws_id s \<noteq> []" by (intro ballI notI) (metis imageI)
  have s: "s \<in> set (wb_subs db)" "ws_id s = sid" using assms(5) by (auto simp: find_sub_def dest: tbl_find_SomeD)
  have uniq: "x = s" if "x \<in> set (wb_subs db)" "ws_id x = sid" for x using tbl_ok_unique [OF assms(3) that(1) s(1)] that s(2) by simp
  have f: "tbl_find (\<lambda>x. ws_id x = sid) ?ss = (if matches_event ty s then Some s else None)"
  proof (cases "matches_event ty s")
    case True
    then show ?thesis using tbl_find_key_eq [of ws_id ?ss s] dis s by (simp add: tbl_ok_def)
  next
    case False
    then have "\<forall>x\<in>set ?ss. ws_id x \<noteq> sid" using uniq by auto
    with False show ?thesis by (simp add: tbl_find_None_iff)
  qed
  then show "find_sub sid ?d = Some (if matches_event ty s then failed_once w s else s)"
    using find_fold_put [where key = ws_id and f = "failed_once w" and ss = ?ss and k = sid and t = "wb_subs db", OF failed_once_id dis] assms(5)
    unfolding find_sub_def run(1) by simp
  have "sid \<in> ws_id ` set ?ss \<longleftrightarrow> tbl_find (\<lambda>x. ws_id x = sid) ?ss \<noteq> None" unfolding tbl_find_None_iff by blast
  then have "sid \<in> ws_id ` set ?ss \<longleftrightarrow> matches_event ty s" unfolding f by simp
  then show "length (deliveries_of sid ?d) = length (deliveries_of sid db) + (if matches_event ty s then 3 else 0)" using run(2) by simp
qed

text \<open>
  C23: A failing endpoint is switched off, when the events are published one after the other, each only after all
  attempts at the one before, and the notification of the owner is never refused. Take a well-formed table with an
  active subscription to exactly \<open>['*']\<close> that counts no failure yet, a positive limit, and an endpoint where every
  attempt fails. Then each event makes exactly three attempts and counts as one failure, until the count reaches the
  limit: from there on the subscription is inactive, and no later event is sent to it or changes its row, however
  many follow. Other subscriptions, which the same events may also reach, do not matter.
\<close>

theorem failing_endpoint_is_switched_off:
  assumes "\<forall>n. \<not> ok_answer (answers n)" and "\<forall>n. nw_refuses (ww_notes w) n = None"
    and "tbl_ok ws_id (wb_subs db)" and "\<forall>s\<in>set (wb_subs db). ws_id s \<noteq> []" and "find_sub sid db = Some s"
    and "ws_isActive s" and "ws_consecutiveFailures s = 0" and "ws_eventTypes s = Some [''*'']" and "0 < maxFailures w"
  shows "find_sub sid (fold (publish_in_turn w info answers) evs db) =
      Some (s\<lparr>ws_isActive := int (length evs) < maxFailures w, ws_consecutiveFailures := min (int (length evs)) (maxFailures w)\<rparr>) \<and>
    int (length (deliveries_of sid (fold (publish_in_turn w info answers) evs db))) =
      int (length (deliveries_of sid db)) + 3 * min (int (length evs)) (maxFailures w)"
proof -
  define state where "state n = s\<lparr>ws_isActive := n < maxFailures w, ws_consecutiveFailures := min n (maxFailures w)\<rparr>" for n
  have step: "(if matches_event ty (state n) then failed_once w (state n) else state n) = state (n + 1)"
    "matches_event ty (state n) \<longleftrightarrow> n < maxFailures w" if "0 \<le> n" for n ty
    using that assms(8) by (auto simp: state_def matches_event_def failed_once_def)
  have "find_sub sid (fold (publish_in_turn w info answers) evs d) = Some (state (n + int (length evs))) \<and>
      int (length (deliveries_of sid (fold (publish_in_turn w info answers) evs d))) =
      int (length (deliveries_of sid d)) + 3 * (min (n + int (length evs)) (maxFailures w) - min n (maxFailures w))"
    if "tbl_ok ws_id (wb_subs d)" "\<forall>s\<in>set (wb_subs d). ws_id s \<noteq> []" "find_sub sid d = Some (state n)" "0 \<le> n" for d n
    using that
  proof (induction evs arbitrary: d n)
    case (Cons ev evs)
    obtain uuid now_text ty extra where ev: "ev = (uuid, now_text, ty, extra)" by (cases ev)
    note p = publish_fails [OF assms(1,2) Cons.prems(1-3), of info uuid now_text ty extra, folded ev]
    have "find_sub sid (publish_in_turn w info answers ev d) = Some (state (n + 1))" using p(3) step [OF Cons.prems(4)] by simp
    with Cons.IH [OF p(1,2) this] Cons.prems(4) p(4) step(2) [OF Cons.prems(4)] show ?case by (auto simp: add.assoc)
  qed simp
  from this [of db 0] assms show ?thesis by (simp add: state_def min_def)
qed

text \<open>
  C24: A write of an old copy. A delivery writes the subscription back as it read it when it began, only with the
  new failure count: whatever happened in between, a success after earlier failures or a failure below the limit
  brings the row back as it was, so a subscription its owner deleted exists again and one that was switched off,
  with its owner notified, is active again.
\<close>

theorem late_write_restores_old_copy:
  assumes "k < length (wb_runs st)" and "dv_sub (wb_runs st ! k) = Some s"
    and "if ok_answer a then 0 < ws_consecutiveFailures s
      else dv_attempt (wb_runs st ! k) = 2 \<and> ws_consecutiveFailures s + 1 < maxFailures w"
  shows "find_sub (ws_id s) (webhook_db.truncate (webhook_step w (WE_attempt k i a) st)) =
    Some (s\<lparr>ws_consecutiveFailures := if ok_answer a then 0 else ws_consecutiveFailures s + 1\<rparr>)"
proof -
  obtain out db where d: "deliver_attempt w i a (wb_runs st ! k) (webhook_db.truncate st) = (out, db)" by fastforce
  have "find_sub (ws_id s) db = Some (s\<lparr>ws_consecutiveFailures := if ok_answer a then 0 else ws_consecutiveFailures s + 1\<rparr>)"
    using d assms(2,3) by (auto simp: deliver_attempt_def split_beta Let_def count_failure_def maxRetries_def split: if_splits)
  moreover have "webhook_db.truncate (webhook_step w (WE_attempt k i a) st) = db"
    using d assms(1) by (simp add: on_db_def webhook_db.defs webhook_state.defs)
  ultimately show ?thesis by simp
qed

subsection \<open>Every run of overlapping deliveries\<close>

definition delivery_ok :: "webhook_db \<Rightarrow> webhook_delivery \<Rightarrow> bool" where
  "delivery_ok db d \<longleftrightarrow> 1 \<le> wd_attempt d \<and> wd_attempt d \<le> 3 \<and> wd_status d \<noteq> WD_pending \<and>
     (wd_status d = WD_succeeded \<longleftrightarrow> wd_error d = None) \<and> find_sub (wd_subscriptionId d) db \<noteq> None"

definition db_ok :: "webhook_db \<Rightarrow> bool" where
  "db_ok db \<longleftrightarrow> list_all (delivery_ok db) (wb_deliveries db)"

definition webhooks_ok :: "webhook_state \<Rightarrow> bool" where
  "webhooks_ok s \<longleftrightarrow> list_all (\<lambda>r. dv_attempt r < 3) (wb_runs s) \<and> db_ok (webhook_db.truncate s)"

lemma db_ok_save_sub: "db_ok db \<Longrightarrow> db_ok (save_sub s db)"
  by (auto simp: db_ok_def list_all_iff delivery_ok_def)

lemma db_ok_frame: "db_ok db \<Longrightarrow> wb_subs db' = wb_subs db \<Longrightarrow> wb_deliveries db' = wb_deliveries db \<Longrightarrow> db_ok db'"
  using find_sub_cong [of db' db] by (simp add: db_ok_def delivery_ok_def [abs_def])

lemma db_ok_record: "db_ok db \<Longrightarrow> dv_attempt r < 3 \<Longrightarrow> db_ok (snd (record_attempt i a r db))"
proof -
  assume ok: "db_ok db" "dv_attempt r < 3"
  have "find_sub k (db\<lparr>wb_deliveries := x\<rparr>) = find_sub k db" for k x by (rule find_sub_cong) simp
  with ok show ?thesis by (auto simp: record_attempt_def db_ok_def delivery_ok_def Let_def list_all_iff split: option.split)
qed

lemma db_ok_count_failure: "db_ok db \<Longrightarrow> db_ok (count_failure w i sub db)"
proof -
  assume "db_ok db"
  then have "db_ok (db\<lparr>wb_notes := n\<rparr>)" for n by (rule db_ok_frame) simp_all
  with \<open>db_ok db\<close> show ?thesis
    by (simp add: count_failure_def Let_def db_ok_save_sub split: option.split prod.split sum.split)
qed

lemma db_ok_attempt:
  assumes "db_ok db" and "dv_attempt r < 3" and "deliver_attempt w i a r db = (out, db')"
  shows "db_ok db'" "out = Retry r' delay \<Longrightarrow> dv_attempt r' < 3"
proof -
  let ?db = "db\<lparr>wb_requests := wb_requests db @ [(dv_endpoint r, dv_signature r, ww_json w (dv_payload r))]\<rparr>"
  have "db_ok ?db" using assms(1) by (rule db_ok_frame) simp_all
  then have "db_ok (snd (record_attempt i a r ?db))" using assms(2) by (rule db_ok_record)
  then show "db_ok db'" using assms(3)
    by (auto simp: deliver_attempt_def split_beta Let_def db_ok_save_sub db_ok_count_failure split: if_splits option.splits)
  show "out = Retry r' delay \<Longrightarrow> dv_attempt r' < 3"
    using assms(2,3) by (auto simp: deliver_attempt_def split_beta Let_def maxRetries_def split: if_splits)
qed

lemma db_ok_delete: "db_ok db \<Longrightarrow> db_ok (snd (deleteSubscription uid sid db))"
proof (cases "tbl_find (\<lambda>s. ws_id s = sid \<and> ws_userId s = uid) (wb_subs db)")
  case (Some s)
  assume ok: "db_ok db"
  have "find_sub k (db\<lparr>wb_subs := tbl_delete (\<lambda>s. ws_id s = sid) (wb_subs db), wb_deliveries := x\<rparr>) = find_sub k db" if "k \<noteq> sid" for k x
    using that by (simp add: find_sub_def) (rule tbl_find_delete_other, auto)
  with ok Some show ?thesis
    by (auto simp: deleteSubscription_def db_ok_def delivery_ok_def list_all_iff tbl_delete_def)
qed (simp add: deleteSubscription_def)

lemma begin_attempt [simp]: "dv_attempt (deliver_begin w e p secret subId db) = 0"
  by (simp add: deliver_begin_def Let_def)

lemma on_db_parts [simp]: "webhook_db.truncate (on_db f s) = f (webhook_db.truncate s)" "wb_runs (on_db f s) = wb_runs s"
  by (simp_all add: on_db_def webhook_db.defs webhook_state.defs)

lemma start_runs_parts [simp]: "webhook_db.truncate (start_runs rs s) = webhook_db.truncate s" "wb_runs (start_runs rs s) = wb_runs s @ rs"
  by (simp_all add: start_runs_def webhook_db.defs)

lemma webhooks_ok_attempt: "webhooks_ok s \<Longrightarrow> webhooks_ok (webhook_step w (WE_attempt k i a) s)"
proof (cases "k < length (wb_runs s)")
  case True
  assume ok: "webhooks_ok s"
  obtain out db where d: "deliver_attempt w i a (wb_runs s ! k) (webhook_db.truncate s) = (out, db)" by fastforce
  have k: "dv_attempt (wb_runs s ! k) < 3" "db_ok (webhook_db.truncate s)" "\<forall>r\<in>set (wb_runs s). dv_attempt r < 3"
    using ok True by (auto simp: webhooks_ok_def list_all_iff)
  note next_ok = db_ok_attempt [OF k(2,1) d]
  have "\<forall>r\<in>set (case out of Retry r _ \<Rightarrow> (wb_runs s)[k := r] | _ \<Rightarrow> remove_nth k (wb_runs s)). dv_attempt r < 3"
    using k(3) next_ok(2)
    by (cases out) (auto simp: remove_nth_def dest!: in_set_takeD in_set_dropD set_update_subset_insert [THEN subsetD])
  moreover have "webhook_step w (WE_attempt k i a) s = on_db (\<lambda>_. db) (s\<lparr>wb_runs := case out of Retry r _ \<Rightarrow> (wb_runs s)[k := r]
      | _ \<Rightarrow> remove_nth k (wb_runs s)\<rparr>)" using True d by simp
  ultimately show ?thesis using next_ok(1) by (simp add: webhooks_ok_def list_all_iff del: webhook_step.simps)
qed simp

lemma webhooks_ok_step: "webhooks_ok s \<Longrightarrow> webhooks_ok (webhook_step w e s)"
proof (cases e)
  case (WE_register sid now random uid endpoint types provided)
  assume "webhooks_ok s"
  moreover have "db_ok db \<Longrightarrow> db_ok (snd (registerSubscription w sid now random uid endpoint types provided db))" for db
    using db_ok_save_sub by (auto simp: registerSubscription_def save_sub_def Let_def)
  ultimately show ?thesis using WE_register by (simp add: webhooks_ok_def)
next
  case (WE_publish uuid now_text ty extra)
  assume "webhooks_ok s"
  with WE_publish show ?thesis by (auto simp: webhooks_ok_def publish_runs_def list_all_iff)
next
  case (WE_redeliver sid did uid)
  assume "webhooks_ok s"
  with WE_redeliver show ?thesis
    by (auto simp: webhooks_ok_def redelivery_def owned_subscription_def list_all_iff split: sum.splits option.splits if_splits)
next
  case (WE_test uid sid now_num now_text)
  assume "webhooks_ok s"
  with WE_test show ?thesis by (auto simp: webhooks_ok_def test_runs_def list_all_iff split: option.splits)
next
  case (WE_cleanup now days)
  assume "webhooks_ok s"
  moreover have "db_ok db \<Longrightarrow> db_ok (snd (cleanupOldDeliveries now days db))" for db
    using find_sub_cong [of "snd (cleanupOldDeliveries now days db)" db]
    by (auto simp: cleanupOldDeliveries_def db_ok_def delivery_ok_def list_all_iff tbl_delete_def)
  ultimately show ?thesis using WE_cleanup by (simp add: webhooks_ok_def)
next
  case (WE_delete uid sid)
  assume "webhooks_ok s"
  with WE_delete show ?thesis by (simp add: webhooks_ok_def db_ok_delete)
next
  case (WE_attempt k i a)
  assume "webhooks_ok s"
  with WE_attempt show ?thesis by (simp only: webhooks_ok_attempt)
qed

interpretation hooks: machine "webhook_step w" webhooks_ok for w
  by unfold_locales (rule webhooks_ok_step)

text \<open>
  Deliveries stay consistent. However publications, test and repeated deliveries, answers, deletions and clean-ups
  interleave, no delivery in flight has made more than two attempts, and every row of the log is one of the attempts
  1 to 3 of a subscription that exists, finished, with an error exactly when it failed.
\<close>

theorem deliveries_stay_consistent:
  assumes "wb_runs s = []" and "wb_deliveries s = []"
  shows "webhooks_ok (fold (webhook_step w) es s)"
  using assms hooks.run_ok [of s w es] by (simp add: webhooks_ok_def db_ok_def webhook_db.defs)

subsection \<open>Examples\<close>

definition demo_hook :: webhook_subscription where
  "demo_hook = \<lparr>ws_id = ''s'', ws_userId = ''u'', ws_endpoint = ''http://e'', ws_secret = ''k'', ws_eventTypes = Some [''*''],
     ws_isActive = True, ws_consecutiveFailures = 0, ws_createdAt = 0\<rparr>"

definition demo_webhook_world :: webhook_world where
  "demo_webhook_world = \<lparr>ww_hmac = (\<lambda>k b. k @ b), ww_json = concat \<circ> map snd, ww_maxFailures = Some 2,
     ww_notes = demo_notification_world, ww_http = (\<lambda>_. True)\<rparr>"

definition demo_hooks :: "webhook_subscription list \<Rightarrow> webhook_db" where
  "demo_hooks ss = \<lparr>wb_subs = ss, wb_deliveries = [], wb_notes = demo_notification_db, wb_requests = []\<rparr>"

definition demo_state :: webhook_state where
  "demo_state = webhook_db.extend (demo_hooks [demo_hook]) (webhook_state.fields [])"

definition demo_info :: attempt_info where
  "demo_info = \<lparr>at_id = ''d'', at_uuid = ''x'', at_now = 9, at_duration = 1\<rparr>"

theorem failing_endpoint_is_switched_off_witness:
  "find_sub ''s'' (fold (publish_in_turn demo_webhook_world (\<lambda>_. demo_info) (\<lambda>_. FetchError ''down''))
       [(''a'', ''t'', ''song.minted'', []), (''b'', ''t'', ''song.minted'', []), (''c'', ''t'', ''song.minted'', [])]
       (demo_hooks [demo_hook])) =
     Some (demo_hook\<lparr>ws_isActive := False, ws_consecutiveFailures := 2\<rparr>)"
proof -
  have f: "find_sub ''s'' (demo_hooks [demo_hook]) = Some demo_hook"
    by (simp add: find_sub_def demo_hooks_def demo_hook_def tbl_simps)
  have m: "maxFailures demo_webhook_world = 2" by (simp add: maxFailures_def demo_webhook_world_def)
  show ?thesis
    using failing_endpoint_is_switched_off [where answers = "\<lambda>_. FetchError ''down''" and w = demo_webhook_world and
        db = "demo_hooks [demo_hook]" and sid = "''s''" and s = demo_hook and info = "\<lambda>_. demo_info" and
        evs = "[(''a'', ''t'', ''song.minted'', []), (''b'', ''t'', ''song.minted'', []), (''c'', ''t'', ''song.minted'', [])]"] f m
    by (simp add: demo_hooks_def demo_hook_def demo_webhook_world_def demo_notification_world_def tbl_ok_def)
qed

theorem deliveries_stay_consistent_witness:
  "webhooks_ok (fold (webhook_step demo_webhook_world)
     [WE_publish ''a'' ''t'' ''song.minted'' [], WE_attempt 0 demo_info (FetchError ''down''), WE_delete ''u'' ''s'',
      WE_attempt 0 demo_info (Response 200 ''OK'')] demo_state)"
  by (rule deliveries_stay_consistent) (simp_all add: demo_state_def demo_hooks_def webhook_db.defs webhook_state.defs)

text \<open>The subscription is deleted while its third attempt is under way.\<close>

definition third_attempt :: delivery_run where
  "third_attempt = (deliver_begin demo_webhook_world ''http://e'' [(''eventId'', ''a'')] ''k'' (Some ''s'') (demo_hooks [demo_hook]))
     \<lparr>dv_attempt := 2\<rparr>"

theorem late_write_restores_old_copy_witness:
  "find_sub ''s'' (webhook_db.truncate (webhook_step demo_webhook_world (WE_delete ''u'' ''s'') (demo_state\<lparr>wb_runs := [third_attempt]\<rparr>))) = None \<and>
   find_sub ''s'' (webhook_db.truncate (webhook_step demo_webhook_world (WE_attempt 0 demo_info (FetchError ''down''))
     (webhook_step demo_webhook_world (WE_delete ''u'' ''s'') (demo_state\<lparr>wb_runs := [third_attempt]\<rparr>)))) =
   Some (demo_hook\<lparr>ws_consecutiveFailures := 1\<rparr>)"
proof
  let ?st = "webhook_step demo_webhook_world (WE_delete ''u'' ''s'') (demo_state\<lparr>wb_runs := [third_attempt]\<rparr>)"
  have "webhook_db.truncate (demo_state\<lparr>wb_runs := [third_attempt]\<rparr>) = demo_hooks [demo_hook]"
    by (simp add: demo_state_def demo_hooks_def webhook_db.defs webhook_state.defs)
  then show "find_sub ''s'' (webhook_db.truncate ?st) = None"
    by (simp add: deleteSubscription_def) (simp add: demo_hooks_def demo_hook_def tbl_simps tbl_delete_def find_sub_def)
  have "dv_sub third_attempt = Some demo_hook" "dv_attempt third_attempt = 2"
    by (simp_all add: third_attempt_def deliver_begin_def or_none_def truthy_def find_sub_def demo_hooks_def demo_hook_def tbl_simps)
  moreover have "wb_runs ?st = [third_attempt]" by simp
  ultimately show "find_sub ''s'' (webhook_db.truncate (webhook_step demo_webhook_world (WE_attempt 0 demo_info (FetchError ''down'')) ?st)) =
      Some (demo_hook\<lparr>ws_consecutiveFailures := 1\<rparr>)"
    using late_write_restores_old_copy [where st = ?st and k = 0 and s = demo_hook and a = "FetchError ''down''" and
        w = demo_webhook_world and i = demo_info]
    by (simp add: maxFailures_def demo_webhook_world_def demo_hook_def del: webhook_step.simps)
qed

end
