(* ===== verification/Royalty_Templates.thy ===== *)
theory Royalty_Templates
  imports AppErrors Complex_Main
begin

text \<open>
  Royalty templates: \<open>services/RoyaltyTemplateService.ts\<close> over \<open>entities/RoyaltyTemplate.ts\<close>. A
  percentage is an exact rational, so a sum carries no rounding. The input of the controller is not
  validated beyond being an array.
\<close>

subsection \<open>Entities\<close>

record template_split =
  tsp_userId :: ident
  tsp_role :: string
  tsp_percentage :: rat

record royalty_template =
  rt_id :: ident
  rt_name :: string
  rt_userId :: ident
  rt_splits :: "template_split list"
  rt_createdAt :: timestamp

subsection \<open>Operations\<close>

definition splits_total_100 :: "template_split list \<Rightarrow> bool" where
  "splits_total_100 splits \<longleftrightarrow> \<not> \<bar>sum_list (map tsp_percentage splits) - 100\<bar> > 1 / 100"

definition splits_error :: js_error where
  "splits_error = AppErr (AE_validation ''Template splits must total 100%'' NoDetails None)"

definition create_template ::
  "ident \<Rightarrow> timestamp \<Rightarrow> string \<Rightarrow> ident \<Rightarrow> template_split list \<Rightarrow> (royalty_template table, royalty_template) service" where
  "create_template tid now name uid splits t =
     (if \<not> splits_total_100 splits then (Inl splits_error, t)
      else insert_row rt_id
        \<lparr>rt_id = tid, rt_name = name, rt_userId = uid, rt_splits = splits, rt_createdAt = now\<rparr> t)"

definition findByUser :: "ident \<Rightarrow> royalty_template table \<Rightarrow> royalty_template list" where
  "findByUser uid t = sort_key (\<lambda>r. - rt_createdAt r) (filter (\<lambda>r. rt_userId r = uid) t)"

definition find_template :: "ident \<Rightarrow> royalty_template table \<Rightarrow> royalty_template option" where
  "find_template tid t = tbl_find (\<lambda>r. rt_id r = tid) t"

text \<open>The two guards in front of a change.\<close>

definition own_template :: "string \<Rightarrow> ident \<Rightarrow> ident \<Rightarrow> royalty_template table \<Rightarrow> js_error + royalty_template" where
  "own_template verb tid uid t =
     (case find_template tid t of
        None \<Rightarrow> Inl (AppErr (AE_notFound ''Template not found'' NoDetails None))
      | Some r \<Rightarrow>
          if rt_userId r \<noteq> uid
          then Inl (AppErr (AE_authorization (''Not authorized to '' @ verb @ '' this template'') NoDetails None))
          else Inr r)"

definition update_template ::
  "ident \<Rightarrow> ident \<Rightarrow> string option \<Rightarrow> template_split list option \<Rightarrow> (royalty_template table, royalty_template) service" where
  "update_template tid uid name splits t =
     (case own_template ''modify'' tid uid t of
        Inl e \<Rightarrow> (Inl e, t)
      | Inr r \<Rightarrow>
          let r1 = (case name of Some n \<Rightarrow> if n \<noteq> [] then r\<lparr>rt_name := n\<rparr> else r | None \<Rightarrow> r) in
          (case splits of
             None \<Rightarrow> (Inr r1, tbl_put rt_id r1 t)
           | Some ss \<Rightarrow>
               if \<not> splits_total_100 ss then (Inl splits_error, t)
               else let r2 = r1\<lparr>rt_splits := ss\<rparr> in (Inr r2, tbl_put rt_id r2 t)))"

definition delete_template :: "ident \<Rightarrow> ident \<Rightarrow> (royalty_template table, unit) service" where
  "delete_template tid uid t =
     (case own_template ''delete'' tid uid t of
        Inl e \<Rightarrow> (Inl e, t)
      | Inr r \<Rightarrow> (Inr (), tbl_delete (\<lambda>x. rt_id x = rt_id r) t))"

subsection \<open>Stored templates add up, and only their owner changes them\<close>

datatype template_op =
    TO_create ident timestamp string ident "template_split list"
  | TO_update ident ident "string option" "template_split list option"
  | TO_delete ident ident

fun template_step :: "template_op \<Rightarrow> royalty_template table \<Rightarrow> royalty_template table" where
  "template_step (TO_create tid now name uid splits) t = snd (create_template tid now name uid splits t)"
| "template_step (TO_update tid uid name splits) t = snd (update_template tid uid name splits t)"
| "template_step (TO_delete tid uid) t = snd (delete_template tid uid t)"

text \<open>The user a request acts for.\<close>

fun template_caller :: "template_op \<Rightarrow> ident" where
  "template_caller (TO_create tid now name uid splits) = uid"
| "template_caller (TO_update tid uid name splits) = uid"
| "template_caller (TO_delete tid uid) = uid"

definition templates_ok :: "royalty_template table \<Rightarrow> bool" where
  "templates_ok t \<longleftrightarrow> tbl_ok rt_id t \<and> (\<forall>r\<in>set t. splits_total_100 (rt_splits r))"

lemma own_template_Inr:
  "own_template verb tid uid t = Inr r \<Longrightarrow> r \<in> set t \<and> rt_id r = tid \<and> rt_userId r = uid"
  by (auto simp: own_template_def find_template_def dest: tbl_find_SomeD split: option.splits if_splits)

lemma templates_ok_put:
  "templates_ok t \<Longrightarrow> splits_total_100 (rt_splits r) \<Longrightarrow> templates_ok (tbl_put rt_id r t)"
  using set_tbl_put_subset [of rt_id r t] by (auto simp: templates_ok_def tbl_simps)

lemma template_step_ok: "templates_ok t \<Longrightarrow> templates_ok (template_step e t)"
proof (cases e)
  case (TO_create tid now name uid splits)
  assume "templates_ok t"
  then show ?thesis
    by (auto simp: TO_create create_template_def insert_row_def templates_ok_def tbl_ok_def)
next
  case (TO_update tid uid name splits)
  assume "templates_ok t"
  then show ?thesis
    by (auto simp: TO_update update_template_def Let_def templates_ok_def
        split: sum.split option.split intro!: templates_ok_put [unfolded templates_ok_def]
        dest!: own_template_Inr)
next
  case (TO_delete tid uid)
  assume "templates_ok t"
  then show ?thesis
    by (auto simp: TO_delete delete_template_def templates_ok_def tbl_simps split: sum.split)
qed

interpretation templates: machine template_step templates_ok
  by unfold_locales (rule template_step_ok)

lemma template_step_others:
  assumes "templates_ok t" and "r \<in> set t" and "rt_userId r \<noteq> template_caller e"
  shows "r \<in> set (template_step e t)"
proof -
  have keep: "r \<in> set (tbl_put rt_id x t)" if "rt_id x = rt_id y" "y \<in> set t" "rt_userId y \<noteq> rt_userId r" for x y
  proof -
    have "rt_id r \<noteq> rt_id x"
      using assms(1,2) that tbl_ok_unique [of rt_id t r y] by (auto simp: templates_ok_def)
    with assms(1,2) show ?thesis by (simp add: set_tbl_put templates_ok_def)
  qed
  show ?thesis
  proof (cases e)
    case (TO_create tid now name uid splits)
    with assms show ?thesis by (auto simp: create_template_def insert_row_def)
  next
    case (TO_update tid uid name splits)
    show ?thesis
    proof (cases "own_template ''modify'' tid uid t")
      case (Inr y)
      with own_template_Inr [OF Inr] assms(3) TO_update have y: "y \<in> set t" "rt_userId y \<noteq> rt_userId r" by auto
      from Inr assms(2) y show ?thesis
        unfolding TO_update template_step.simps update_template_def
        by (auto simp: Let_def split: option.split intro!: keep [where y = y])
    qed (use assms TO_update in \<open>simp add: update_template_def\<close>)
  next
    case (TO_delete tid uid)
    show ?thesis
    proof (cases "own_template ''delete'' tid uid t")
      case (Inr y)
      with own_template_Inr [OF Inr] assms TO_delete tbl_ok_unique [of rt_id t r y] show ?thesis
        by (auto simp: delete_template_def templates_ok_def tbl_simps)
    qed (use assms TO_delete in \<open>simp add: delete_template_def\<close>)
  qed
qed

lemma others_templates_survive:
  "templates_ok t \<Longrightarrow> r \<in> set t \<Longrightarrow> rt_userId r \<notin> template_caller ` set es \<Longrightarrow> r \<in> set (fold template_step es t)"
proof (induction es arbitrary: t)
  case (Cons e es)
  from Cons.prems template_step_others [of t r e] template_step_ok [of t e] show ?case
    by (auto intro: Cons.IH)
qed simp

text \<open>
  over any sequence of requests every stored template has splits that add up to 100 percent
  within the tolerance, and a template of a user none of the requests acts for stays as it is.
\<close>

theorem templates_add_up_and_stay:
  assumes "templates_ok t"
  shows "templates_ok (fold template_step es t) \<and>
     (\<forall>r. r \<in> set t \<longrightarrow> rt_userId r \<notin> template_caller ` set es \<longrightarrow> r \<in> set (fold template_step es t))"
  using templates.run_ok [OF assms] others_templates_survive [OF assms] by auto

definition negative_split :: "template_split list" where
  "negative_split = [\<lparr>tsp_userId = ''a'', tsp_role = ''artist'', tsp_percentage = 150\<rparr>,
                     \<lparr>tsp_userId = ''b'', tsp_role = ''producer'', tsp_percentage = -50\<rparr>]"

text \<open>Nothing looks at a single percentage: 150 and -50 are stored.\<close>

theorem templates_add_up_and_stay_witness:
  "templates_ok (fold template_step [TO_create ''t1'' 1 ''mine'' ''u1'' negative_split, TO_delete ''t1'' ''u2''] []) \<and>
   fold template_step [TO_create ''t1'' 1 ''mine'' ''u1'' negative_split, TO_delete ''t1'' ''u2''] [] \<noteq> []"
proof
  have "templates_ok []" by (simp add: templates_ok_def tbl_simps)
  then show "templates_ok (fold template_step [TO_create ''t1'' 1 ''mine'' ''u1'' negative_split, TO_delete ''t1'' ''u2''] [])"
    by (rule templates_add_up_and_stay [THEN conjunct1])
  show "fold template_step [TO_create ''t1'' 1 ''mine'' ''u1'' negative_split, TO_delete ''t1'' ''u2''] [] \<noteq> []"
    by (simp add: create_template_def negative_split_def splits_total_100_def insert_row_def delete_template_def
        own_template_def find_template_def tbl_simps)
qed

end
