(* ===== verification/Song_Versions.thy ===== *)
theory Song_Versions
  imports Royalty_Templates Moderation Collaborations "HOL-Library.Sublist"
begin

text \<open>
  The song row and its revisions: \<open>services/Song/SongVersionService.ts\<close> over \<open>entities/Song.ts\<close> and
  \<open>entities/SongVersion.ts\<close>. A nullable column is an option. A re-upload and a rollback read the
  latest number, demote the active revision and insert the next; the operations are also given as
  the steps between their awaits, for two of them running at once. The manifest cache and log lines
  are left out.
\<close>

subsection \<open>Entities\<close>

record song_entity =
  so_id :: ident
  so_artistId :: ident
  so_artistAddress :: "string option"
  so_title :: string
  so_description :: "string option"
  so_genre :: "string option"
  so_genreId :: "string option"
  so_composers :: "string option"
  so_lyrics :: "string option"
  so_language :: "string option"
  so_coverArtPath :: string
  so_coverArtThumbnails :: "(string \<times> string) list option"
  so_s3OriginalUrl :: "string option"
  so_hlsMasterUrl :: "string option"
  so_ipfsCid :: "string option"
  so_metadataCid :: "string option"
  so_duration :: "int option"
  so_loudness :: "rat option"
  so_truePeakDb :: "rat option"
  so_loudnessRange :: "rat option"
  so_waveformPeaks :: "rat list option"
  so_status :: song_status
  so_errorReason :: "string option"
  so_playCount :: nat
  so_mintStatus :: mint_status
  so_onChainSongId :: "string option"
  so_onChainTokenId :: "string option"
  so_flagged :: bool
  so_flaggedAt :: "timestamp option"
  so_flaggedBy :: "ident option"
  so_flagReason :: "string option"
  so_royaltySplits :: "template_split list option"
  so_lyricsRightsConfirmedAt :: "timestamp option"
  so_aiGeneratedDescription :: "string option"
  so_aiDescriptionApproved :: bool
  so_aiGeneratedCoverUrl :: "string option"
  so_createdAt :: timestamp

record song_version =
  sv_id :: ident
  sv_songId :: ident
  sv_versionNumber :: nat
  sv_isActive :: bool
  sv_title :: "string option"
  sv_description :: "string option"
  sv_genre :: "string option"
  sv_composers :: "string option"
  sv_coverArtPath :: "string option"
  sv_s3OriginalUrl :: "string option"
  sv_hlsMasterUrl :: "string option"
  sv_ipfsCid :: "string option"
  sv_metadataCid :: "string option"
  sv_duration :: "int option"
  sv_loudness :: "rat option"
  sv_status :: song_status
  sv_errorReason :: "string option"
  sv_changeNote :: "string option"
  sv_createdBy :: "ident option"
  sv_createdAt :: timestamp

record song_db =
  sd_songs :: "song_entity table"
  sd_versions :: "song_version table"

text \<open>The unique constraint on \<open>(songId, versionNumber)\<close>.\<close>

definition version_key :: "song_version \<Rightarrow> ident \<times> nat" where
  "version_key v = (sv_songId v, sv_versionNumber v)"

record version_input =
  vi_title :: "string option"
  vi_description :: "string option"
  vi_genre :: "string option"
  vi_composers :: "string option"
  vi_coverArtPath :: "string option"
  vi_s3OriginalUrl :: "string option"
  vi_ipfsCid :: "string option"
  vi_changeNote :: "string option"
  vi_createdBy :: "ident option"

text \<open>\<open>a ?? b\<close> and \<open>if (a) x = a\<close>.\<close>

definition or_other :: "'a option \<Rightarrow> 'a option \<Rightarrow> 'a option" where
  "or_other a b = (case a of None \<Rightarrow> b | Some _ \<Rightarrow> a)"

definition if_truthy :: "string option \<Rightarrow> string option \<Rightarrow> string option" where
  "if_truthy a b = (if truthy a then a else b)"

definition get_song :: "ident \<Rightarrow> song_db \<Rightarrow> song_entity option" where
  "get_song sid db = tbl_find (\<lambda>s. so_id s = sid) (sd_songs db)"

definition put_song :: "song_entity \<Rightarrow> song_db \<Rightarrow> song_db" where
  "put_song s db = db\<lparr>sd_songs := tbl_put so_id s (sd_songs db)\<rparr>"

definition versions_of :: "ident \<Rightarrow> song_db \<Rightarrow> song_version list" where
  "versions_of sid db = filter (\<lambda>v. sv_songId v = sid) (sd_versions db)"

definition insert_version :: "song_version \<Rightarrow> (song_db, song_version) service" where
  "insert_version v db =
     (case insert_row version_key v (sd_versions db) of
        (r, t) \<Rightarrow> (r, db\<lparr>sd_versions := t\<rparr>))"

subsection \<open>The version service\<close>

definition song_missing :: js_error where
  "song_missing = err_notFound ''Song not found'' ''SONG_NOT_FOUND''"

definition not_song_owner :: "string \<Rightarrow> js_error" where
  "not_song_owner what = err_authorization (''Not authorized to '' @ what) ''NOT_SONG_OWNER''"

definition initial_version :: "ident \<Rightarrow> timestamp \<Rightarrow> song_entity \<Rightarrow> ident option \<Rightarrow> song_version" where
  "initial_version vid now s createdBy =
     \<lparr>sv_id = vid, sv_songId = so_id s, sv_versionNumber = 1, sv_isActive = True,
      sv_title = Some (so_title s), sv_description = so_description s, sv_genre = so_genre s,
      sv_composers = so_composers s, sv_coverArtPath = Some (so_coverArtPath s),
      sv_s3OriginalUrl = so_s3OriginalUrl s, sv_hlsMasterUrl = so_hlsMasterUrl s,
      sv_ipfsCid = so_ipfsCid s, sv_metadataCid = so_metadataCid s, sv_duration = so_duration s,
      sv_loudness = so_loudness s, sv_status = so_status s, sv_errorReason = None,
      sv_changeNote = Some ''Initial upload'',
      sv_createdBy = or_other createdBy (Some (so_artistId s)), sv_createdAt = now\<rparr>"

definition createInitialVersion ::
  "ident \<Rightarrow> timestamp \<Rightarrow> song_entity \<Rightarrow> ident option \<Rightarrow> (song_db, song_version) service" where
  "createInitialVersion vid now s createdBy db =
     (if 0 < length (versions_of (so_id s) db)
      then (Inl (AppErr (AE_conflict ''Song already has versions'' NoDetails (Some ''VERSION_ALREADY_EXISTS''))), db)
      else insert_version (initial_version vid now s createdBy) db)"

text \<open>Highest version number recorded for a song, or 0 when it has none.\<close>

definition getLatestVersionNumber :: "ident \<Rightarrow> song_db \<Rightarrow> nat" where
  "getLatestVersionNumber sid db = foldr max (map sv_versionNumber (versions_of sid db)) 0"

text \<open>\<open>update({ songId, isActive: true }, { isActive: false })\<close>\<close>

definition demote_versions :: "ident \<Rightarrow> song_db \<Rightarrow> song_db" where
  "demote_versions sid db =
     db\<lparr>sd_versions := map (\<lambda>v. if sv_songId v = sid \<and> sv_isActive v then v\<lparr>sv_isActive := False\<rparr> else v)
          (sd_versions db)\<rparr>"

definition reupload_version ::
  "ident \<Rightarrow> timestamp \<Rightarrow> song_entity \<Rightarrow> ident \<Rightarrow> version_input \<Rightarrow> nat \<Rightarrow> song_version" where
  "reupload_version vid now s aid inp num =
     \<lparr>sv_id = vid, sv_songId = so_id s, sv_versionNumber = num, sv_isActive = True,
      sv_title = or_other (vi_title inp) (Some (so_title s)),
      sv_description = or_other (vi_description inp) (so_description s),
      sv_genre = or_other (vi_genre inp) (so_genre s),
      sv_composers = or_other (vi_composers inp) (so_composers s),
      sv_coverArtPath = or_other (vi_coverArtPath inp) (Some (so_coverArtPath s)),
      sv_s3OriginalUrl = vi_s3OriginalUrl inp, sv_hlsMasterUrl = None, sv_ipfsCid = vi_ipfsCid inp,
      sv_metadataCid = None, sv_duration = None, sv_loudness = None, sv_status = ST_PROCESSING,
      sv_errorReason = None, sv_changeNote = vi_changeNote inp,
      sv_createdBy = or_other (vi_createdBy inp) (Some aid), sv_createdAt = now\<rparr>"

text \<open>
  The parent song after a re-upload. The fields of \<open>version\<close> are values or \<open>null\<close>, never
  \<open>undefined\<close>, as the song they default to was loaded from the database.
\<close>

definition reuploaded_song :: "song_entity \<Rightarrow> song_version \<Rightarrow> version_input \<Rightarrow> song_entity" where
  "reuploaded_song s v inp =
     s\<lparr>so_title := (case sv_title v of Some t \<Rightarrow> t | None \<Rightarrow> so_title s),
       so_description := sv_description v, so_genre := sv_genre v, so_composers := sv_composers v,
       so_coverArtPath := (case vi_coverArtPath inp of Some p \<Rightarrow> if p \<noteq> [] then p else so_coverArtPath s
                           | None \<Rightarrow> so_coverArtPath s),
       so_s3OriginalUrl := if_truthy (vi_s3OriginalUrl inp) (so_s3OriginalUrl s),
       so_ipfsCid := if_truthy (vi_ipfsCid inp) (so_ipfsCid s),
       so_status := ST_PROCESSING, so_errorReason := None\<rparr>"

text \<open>Songs that predate versioning get a version 1 first.\<close>

definition ensure_initial :: "ident \<Rightarrow> timestamp \<Rightarrow> song_entity \<Rightarrow> (song_db, unit) service" where
  "ensure_initial vid now s db =
     (if length (versions_of (so_id s) db) = 0
      then (case createInitialVersion vid now s (Some (so_artistId s)) db of
          (Inl e, db1) \<Rightarrow> (Inl e, db1) | (Inr _, db1) \<Rightarrow> (Inr (), db1))
      else (Inr (), db))"

text \<open>Demote every revision of the song, then insert the new one as the active revision.\<close>

definition append_version :: "song_version \<Rightarrow> (song_db, song_version) service" where
  "append_version v db = insert_version v (demote_versions (sv_songId v) db)"

definition createVersionFromReupload ::
  "ident \<Rightarrow> ident \<Rightarrow> timestamp \<Rightarrow> ident \<Rightarrow> ident \<Rightarrow> version_input \<Rightarrow> (song_db, song_version) service" where
  "createVersionFromReupload vid0 vid now sid aid inp db =
     (case get_song sid db of
        None \<Rightarrow> (Inl song_missing, db)
      | Some s \<Rightarrow>
          if so_artistId s \<noteq> aid then (Inl (not_song_owner ''re-upload this song''), db)
          else case ensure_initial vid0 now s db of
              (Inl e, db1) \<Rightarrow> (Inl e, db1)
            | (Inr _, db1) \<Rightarrow>
                let num = getLatestVersionNumber sid db1 + 1;
                    v = reupload_version vid now s aid inp num in
                (case append_version v db1 of
                   (Inl e, db2) \<Rightarrow> (Inl e, db2)
                 | (Inr _, db2) \<Rightarrow> (Inr v, put_song (reuploaded_song s v inp) db2)))"

text \<open>
  \<open>getVersion\<close> takes a JavaScript number: \<open>None\<close> is one that is not an integer.
\<close>

definition getVersion :: "ident \<Rightarrow> int option \<Rightarrow> song_db \<Rightarrow> js_error + song_version" where
  "getVersion sid num db =
     (case num of
        None \<Rightarrow> Inl (err_validation ''version must be a positive integer'' ''INVALID_VERSION'')
      | Some n \<Rightarrow>
          if n < 1 then Inl (err_validation ''version must be a positive integer'' ''INVALID_VERSION'')
          else (case get_song sid db of
              None \<Rightarrow> Inl song_missing
            | Some _ \<Rightarrow>
                (case tbl_find (\<lambda>v. sv_songId v = sid \<and> sv_versionNumber v = nat n) (sd_versions db) of
                   None \<Rightarrow> Inl (err_notFound (''Version '' @ int_str n @ '' not found for this song'') ''VERSION_NOT_FOUND'')
                 | Some v \<Rightarrow> Inr v)))"

definition rollback_copy :: "ident \<Rightarrow> timestamp \<Rightarrow> ident \<Rightarrow> string option \<Rightarrow> song_version \<Rightarrow> nat \<Rightarrow> song_version" where
  "rollback_copy vid now aid note_text target num =
     \<lparr>sv_id = vid, sv_songId = sv_songId target, sv_versionNumber = num, sv_isActive = True,
      sv_title = sv_title target, sv_description = sv_description target, sv_genre = sv_genre target,
      sv_composers = sv_composers target, sv_coverArtPath = sv_coverArtPath target,
      sv_s3OriginalUrl = sv_s3OriginalUrl target, sv_hlsMasterUrl = sv_hlsMasterUrl target,
      sv_ipfsCid = sv_ipfsCid target, sv_metadataCid = sv_metadataCid target,
      sv_duration = sv_duration target, sv_loudness = sv_loudness target, sv_status = sv_status target,
      sv_errorReason = None,
      sv_changeNote = or_other note_text (Some (''Rolled back to version '' @ nat_str (sv_versionNumber target))),
      sv_createdBy = Some aid, sv_createdAt = now\<rparr>"

text \<open>\<open>cover\<close> is the path of the copied version; it is written even when it is \<open>null\<close>.\<close>

definition rolled_back_song :: "song_entity \<Rightarrow> string \<Rightarrow> song_version \<Rightarrow> song_entity" where
  "rolled_back_song s cover v =
     s\<lparr>so_title := (case sv_title v of Some t \<Rightarrow> t | None \<Rightarrow> so_title s),
       so_description := sv_description v, so_genre := sv_genre v, so_composers := sv_composers v,
       so_coverArtPath := cover, so_s3OriginalUrl := sv_s3OriginalUrl v,
       so_hlsMasterUrl := sv_hlsMasterUrl v, so_ipfsCid := sv_ipfsCid v,
       so_metadataCid := sv_metadataCid v, so_duration := sv_duration v, so_loudness := sv_loudness v,
       so_status := sv_status v, so_errorReason := None\<rparr>"

text \<open>\<open>coverArtPath\<close> of a song is not nullable: writing \<open>null\<close> fails.\<close>

definition not_null_error :: js_error where
  "not_null_error = PlainErr ''null value in column violates not-null constraint'' None"

definition rollbackVersion ::
  "ident \<Rightarrow> timestamp \<Rightarrow> ident \<Rightarrow> int option \<Rightarrow> ident \<Rightarrow> string option \<Rightarrow> (song_db, song_version) service" where
  "rollbackVersion vid now sid target aid note_text db =
     (case get_song sid db of
        None \<Rightarrow> (Inl song_missing, db)
      | Some s \<Rightarrow>
          if so_artistId s \<noteq> aid then (Inl (not_song_owner ''roll back this song''), db)
          else (case getVersion sid target db of
              Inl e \<Rightarrow> (Inl e, db)
            | Inr tv \<Rightarrow>
                let num = getLatestVersionNumber sid db + 1;
                    v = rollback_copy vid now aid note_text tv num in
                (case append_version v db of
                   (Inl e, db2) \<Rightarrow> (Inl e, db2)
                 | (Inr _, db2) \<Rightarrow>
                     (case sv_coverArtPath v of
                        None \<Rightarrow> (Inl not_null_error, db2)
                      | Some cover \<Rightarrow> (Inr v, put_song (rolled_back_song s cover v) db2)))))"

text \<open>The roles that matter here: \<open>is_admin\<close> is \<open>requester.role === UserRole.ADMIN\<close>.\<close>

record song_requester =
  rq_id :: ident
  rq_is_admin :: bool

definition assertCanViewHistory :: "ident \<Rightarrow> song_requester \<Rightarrow> song_db \<Rightarrow> js_error option" where
  "assertCanViewHistory sid rq db =
     (case get_song sid db of
        None \<Rightarrow> Some song_missing
      | Some s \<Rightarrow>
          if so_artistId s \<noteq> rq_id rq \<and> \<not> rq_is_admin rq
          then Some (not_song_owner ''view versions of this song'') else None)"

record version_page =
  vp_versions :: "song_version list"
  vp_page :: nat
  vp_limit :: nat
  vp_total :: nat
  vp_totalPages :: nat

text \<open>\<open>Math.max(1, page || 1)\<close> and \<open>Math.min(Math.max(1, limit || 20), 100)\<close> on integers.\<close>

definition page_number :: "int \<Rightarrow> nat" where
  "page_number p = nat (max 1 p)"

definition page_size :: "int \<Rightarrow> nat" where
  "page_size l = nat (min (max 1 (if l = 0 then 20 else l)) 100)"

definition listVersions :: "ident \<Rightarrow> int \<Rightarrow> int \<Rightarrow> song_db \<Rightarrow> js_error + version_page" where
  "listVersions sid pg per_page db =
     (case get_song sid db of
        None \<Rightarrow> Inl song_missing
      | Some _ \<Rightarrow>
          let vs = sort_key (\<lambda>v. - int (sv_versionNumber v)) (versions_of sid db);
              p = page_number pg; l = page_size per_page in
          Inr \<lparr>vp_versions = take l (drop ((p - 1) * l) vs), vp_page = p, vp_limit = l,
               vp_total = length vs, vp_totalPages = nat (ceil_div (int (length vs)) (int l))\<rparr>)"

definition getActiveVersion :: "ident \<Rightarrow> song_db \<Rightarrow> song_version option" where
  "getActiveVersion sid db = tbl_find (\<lambda>v. sv_songId v = sid \<and> sv_isActive v) (sd_versions db)"

text \<open>
  \<open>syncActiveVersion\<close>, with the update as a function on the row; it has no caller in the repository.
\<close>

definition syncActiveVersion ::
  "ident \<Rightarrow> (song_version \<Rightarrow> song_version) \<Rightarrow> song_db \<Rightarrow> song_version option \<times> song_db" where
  "syncActiveVersion sid upd db =
     (case getActiveVersion sid db of
        None \<Rightarrow> (None, db)
      | Some v \<Rightarrow> (Some (upd v), db\<lparr>sd_versions := tbl_put version_key (upd v) (sd_versions db)\<rparr>))"


subsection \<open>The history of a song\<close>

text \<open>
  The revisions of a song, in the order they were created, are numbered from 1 and the last one is
  the active one.
\<close>

definition history_ok :: "song_version list \<Rightarrow> bool" where
  "history_ok vs \<longleftrightarrow> map (\<lambda>v. (sv_versionNumber v, sv_isActive v)) vs = map (\<lambda>i. (i, i = length vs)) [1..<Suc (length vs)]"

definition versions_ok :: "song_db \<Rightarrow> bool" where
  "versions_ok db \<longleftrightarrow> (\<forall>sid. history_ok (versions_of sid db))"

text \<open>A revision without the flag that says whether it is served.\<close>

definition unserved :: "song_version \<Rightarrow> song_version" where
  "unserved v = v\<lparr>sv_isActive := False\<rparr>"

lemma history_ok_numbers: "history_ok vs \<Longrightarrow> map sv_versionNumber vs = [1..<Suc (length vs)]"
proof -
  assume "history_ok vs"
  then have "map fst (map (\<lambda>v. (sv_versionNumber v, sv_isActive v)) vs) = map fst (map (\<lambda>i. (i, i = length vs)) [1..<Suc (length vs)])"
    unfolding history_ok_def by (rule arg_cong)
  then show ?thesis by (simp add: comp_def del: upt_Suc)
qed

lemma history_ok_nth:
  "history_ok vs \<longleftrightarrow> (\<forall>i<length vs. sv_versionNumber (vs ! i) = Suc i \<and> (sv_isActive (vs ! i) \<longleftrightarrow> Suc i = length vs))"
proof -
  have "length (map (\<lambda>i. (i, i = length vs)) [1..<Suc (length vs)]) = length vs" by (simp del: upt_Suc)
  moreover have "map (\<lambda>i. (i, i = length vs)) [1..<Suc (length vs)] ! j = (Suc j, Suc j = length vs)" if "j < length vs" for j
    using that by (simp del: upt_Suc)
  ultimately show ?thesis unfolding history_ok_def list_eq_iff_nth_eq by auto
qed

lemma history_ok_Nil [simp]: "history_ok []"
  by (simp add: history_ok_def)

lemma history_ok_snoc:
  assumes "history_ok vs" and "sv_versionNumber v = Suc (length vs)" and "sv_isActive v"
  shows "history_ok (map unserved vs @ [v])"
  using assms by (auto simp: history_ok_nth nth_append unserved_def less_Suc_eq)

lemma versions_of_demote:
  "versions_of sid (demote_versions k db) = (if sid = k then map unserved (versions_of sid db) else versions_of sid db)"
proof -
  have "filter (\<lambda>v. sv_songId v = sid) (map (\<lambda>v. if sv_songId v = k \<and> sv_isActive v then v\<lparr>sv_isActive := False\<rparr> else v) t) =
      (if sid = k then map unserved (filter (\<lambda>v. sv_songId v = sid) t) else filter (\<lambda>v. sv_songId v = sid) t)" for t
    by (induction t) (auto simp: unserved_def)
  then show ?thesis by (simp add: versions_of_def demote_versions_def)
qed

lemma sd_songs_demote [simp]: "sd_songs (demote_versions k db) = sd_songs db"
  by (simp add: demote_versions_def)

lemma versions_of_put_song [simp]: "versions_of sid (put_song s db) = versions_of sid db"
  by (simp add: versions_of_def put_song_def)

lemma latest_version:
  assumes "history_ok (versions_of sid db)"
  shows "getLatestVersionNumber sid db = length (versions_of sid db)"
proof -
  have "foldr max [1..<Suc n] 0 = n" for n :: nat
  proof (induction n)
    case (Suc n)
    have "foldr max xs m = max (foldr max xs 0) m" for xs and m :: nat by (induction xs) auto
    from this [of "[1..<Suc n]" "Suc n"] Suc show ?case by simp
  qed simp
  with history_ok_numbers [OF assms] show ?thesis unfolding getLatestVersionNumber_def by (simp del: upt_Suc)
qed

text \<open>Under the invariant a revision with the next number is never refused.\<close>

lemma version_key_fresh:
  assumes "history_ok (versions_of (sv_songId v) db)" and "length (versions_of (sv_songId v) db) < sv_versionNumber v"
  shows "version_key v \<notin> version_key ` set (sd_versions db)"
proof
  assume "version_key v \<in> version_key ` set (sd_versions db)"
  then obtain w where "w \<in> set (versions_of (sv_songId v) db)" "sv_versionNumber w = sv_versionNumber v"
    by (auto simp: version_key_def versions_of_def)
  then have "sv_versionNumber v \<in> set (map sv_versionNumber (versions_of (sv_songId v) db))"
    by (metis in_set_conv_nth length_map nth_map)
  with history_ok_numbers [OF assms(1)] assms(2) show False by auto
qed

lemma insert_version_fresh:
  "version_key v \<notin> version_key ` set (sd_versions db) \<Longrightarrow>
   insert_version v db = (Inr v, db\<lparr>sd_versions := sd_versions db @ [v]\<rparr>)"
  by (simp add: insert_version_def insert_row_def)

lemma version_keys_demote: "version_key ` set (sd_versions (demote_versions k db)) = version_key ` set (sd_versions db)"
proof -
  have "map version_key (sd_versions (demote_versions k db)) = map version_key (sd_versions db)"
    by (simp add: demote_versions_def version_key_def)
  then show ?thesis by (metis set_map)
qed

lemma append_version_next:
  assumes "history_ok (versions_of (sv_songId v) db)" and "sv_versionNumber v = Suc (length (versions_of (sv_songId v) db))"
    and "sv_isActive v"
  obtains db' where "append_version v db = (Inr v, db')" and "sd_songs db' = sd_songs db"
    and "\<And>k. versions_of k db' = (if k = sv_songId v then map unserved (versions_of k db) @ [v] else versions_of k db)"
proof -
  let ?d = "demote_versions (sv_songId v) db"
  let ?db' = "?d\<lparr>sd_versions := sd_versions ?d @ [v]\<rparr>"
  have "version_key v \<notin> version_key ` set (sd_versions ?d)"
    using version_key_fresh [OF assms(1)] assms(2) by (simp add: version_keys_demote)
  then have "append_version v db = (Inr v, ?db')" by (simp add: append_version_def insert_version_fresh)
  moreover have "versions_of k ?db' = (if k = sv_songId v then map unserved (versions_of k db) @ [v] else versions_of k db)" for k
    using versions_of_demote [of k "sv_songId v" db] by (auto simp: versions_of_def)
  ultimately show ?thesis by (intro that [of ?db']) simp_all
qed


subsection \<open>Histories only grow\<close>

text \<open>
  A database that follows another has well formed histories when the other has, and each of them
  starts with the other's, up to the flag.
\<close>

definition follows :: "song_db \<Rightarrow> song_db \<Rightarrow> bool" where
  "follows db db' \<longleftrightarrow> (versions_ok db \<longrightarrow> versions_ok db' \<and>
     (\<forall>k. prefix (map unserved (versions_of k db)) (map unserved (versions_of k db'))))"

lemma follows_refl [simp, intro]: "follows db db"
  by (simp add: follows_def)

lemma follows_trans: "follows a b \<Longrightarrow> follows b c \<Longrightarrow> follows a c"
  by (auto simp: follows_def intro: prefix_order.trans)

lemma follows_put_song [simp]: "follows db (put_song s db') = follows db db'"
  by (simp add: follows_def versions_ok_def)

lemma unserved_unserved [simp]: "unserved (unserved v) = unserved v"
  by (simp add: unserved_def)

lemma follows_append_version:
  assumes "sv_isActive v" and "versions_ok db \<Longrightarrow> sv_versionNumber v = Suc (getLatestVersionNumber (sv_songId v) db)"
  shows "follows db (snd (append_version v db))"
  unfolding follows_def
proof
  assume ok: "versions_ok db"
  then have h: "history_ok (versions_of (sv_songId v) db)" by (simp add: versions_ok_def)
  with assms ok have n: "sv_versionNumber v = Suc (length (versions_of (sv_songId v) db))" by (simp add: latest_version)
  obtain db' where db': "append_version v db = (Inr v, db')"
      "\<And>k. versions_of k db' = (if k = sv_songId v then map unserved (versions_of k db) @ [v] else versions_of k db)"
    using append_version_next [OF h n assms(1)] by metis
  with ok h n assms(1) show "versions_ok (snd (append_version v db)) \<and>
     (\<forall>k. prefix (map unserved (versions_of k db)) (map unserved (versions_of k (snd (append_version v db)))))"
    by (auto simp: versions_ok_def history_ok_snoc comp_def)
qed

lemma createInitialVersion_new:
  assumes "versions_of (so_id s) db = []"
  shows "createInitialVersion vid now s cb db =
     (Inr (initial_version vid now s cb), db\<lparr>sd_versions := sd_versions db @ [initial_version vid now s cb]\<rparr>)"
proof -
  have "version_key (initial_version vid now s cb) \<notin> version_key ` set (sd_versions db)"
    using assms by (auto simp: version_key_def initial_version_def versions_of_def filter_empty_conv)
  with assms show ?thesis by (simp add: createInitialVersion_def insert_version_fresh)
qed

lemma versions_of_initial:
  "versions_of k (db\<lparr>sd_versions := sd_versions db @ [initial_version vid now s cb]\<rparr>) =
     versions_of k db @ (if k = so_id s then [initial_version vid now s cb] else [])"
  by (simp add: versions_of_def initial_version_def)

lemma follows_createInitialVersion: "follows db (snd (createInitialVersion vid now s cb db))"
proof (cases "versions_of (so_id s) db")
  case Nil
  have "history_ok [initial_version vid now s cb]" by (simp add: history_ok_def initial_version_def)
  with Nil show ?thesis
    by (auto simp: follows_def versions_ok_def createInitialVersion_new [OF Nil] versions_of_initial)
qed (simp add: createInitialVersion_def)

lemma ensure_initial_snd: "snd (ensure_initial vid now s db) =
    (if versions_of (so_id s) db = [] then snd (createInitialVersion vid now s (Some (so_artistId s)) db) else db)"
  by (auto simp: ensure_initial_def split: prod.split sum.split)

lemma follows_ensure_initial: "follows db (snd (ensure_initial vid now s db))"
  by (simp add: ensure_initial_snd follows_createInitialVersion)

lemma get_song_id: "get_song sid db = Some s \<Longrightarrow> so_id s = sid"
  by (auto simp: get_song_def dest: tbl_find_SomeD)

lemma follows_reupload: "follows db (snd (createVersionFromReupload vid0 vid now sid aid inp db))"
proof (cases "\<exists>s. get_song sid db = Some s \<and> so_artistId s = aid")
  case True
  then obtain s where s: "get_song sid db = Some s" "so_artistId s = aid" by blast
  obtain r db1 where e: "ensure_initial vid0 now s db = (r, db1)" by (cases "ensure_initial vid0 now s db")
  then have f1: "follows db db1" using follows_ensure_initial [of db vid0 now s] by simp
  let ?v = "reupload_version vid now s aid inp (getLatestVersionNumber sid db1 + 1)"
  have "follows db1 (snd (append_version ?v db1))"
    using get_song_id [OF s(1)] by (intro follows_append_version) (simp_all add: reupload_version_def)
  with f1 follows_trans have "follows db (snd (append_version ?v db1))" by blast
  with s e f1 show ?thesis
    by (auto simp: createVersionFromReupload_def Let_def split: sum.split prod.split)
qed (auto simp: createVersionFromReupload_def split: option.split)

lemma getVersion_Inr:
  "getVersion sid num db = Inr v \<Longrightarrow> v \<in> set (sd_versions db) \<and> sv_songId v = sid \<and> num = Some (int (sv_versionNumber v))"
  by (auto simp: getVersion_def dest: tbl_find_SomeD split: option.splits if_splits)

lemma follows_rollback: "follows db (snd (rollbackVersion vid now sid target aid note_text db))"
proof (cases "\<exists>s tv. get_song sid db = Some s \<and> so_artistId s = aid \<and> getVersion sid target db = Inr tv")
  case True
  then obtain s tv where s: "get_song sid db = Some s" "so_artistId s = aid" "getVersion sid target db = Inr tv" by blast
  let ?v = "rollback_copy vid now aid note_text tv (getLatestVersionNumber sid db + 1)"
  have "follows db (snd (append_version ?v db))"
    using getVersion_Inr [OF s(3)] by (intro follows_append_version) (simp_all add: rollback_copy_def)
  with s show ?thesis
    by (auto simp: rollbackVersion_def Let_def split: sum.split prod.split option.split)
qed (auto simp: rollbackVersion_def split: option.split sum.split)

datatype version_op =
    VO_initial ident timestamp song_entity "ident option"
  | VO_reupload ident ident timestamp ident ident version_input
  | VO_rollback ident timestamp ident "int option" ident "string option"

fun version_step :: "version_op \<Rightarrow> song_db \<Rightarrow> song_db" where
  "version_step (VO_initial vid now s cb) db = snd (createInitialVersion vid now s cb db)"
| "version_step (VO_reupload vid0 vid now sid aid inp) db = snd (createVersionFromReupload vid0 vid now sid aid inp db)"
| "version_step (VO_rollback vid now sid target aid note_text) db = snd (rollbackVersion vid now sid target aid note_text db)"

lemma follows_step: "follows db (version_step e db)"
  by (cases e) (simp_all add: follows_createInitialVersion follows_reupload follows_rollback)

interpretation histories: machine version_step "follows db0"
  by unfold_locales (blast intro: follows_trans follows_step)

lemma history_ok_last:
  assumes "history_ok vs" and "vs \<noteq> []"
  shows "sv_isActive (last vs)" and "v \<in> set (butlast vs) \<Longrightarrow> \<not> sv_isActive v"
proof -
  show "sv_isActive (last vs)" using assms by (auto simp: history_ok_nth last_conv_nth)
  show "v \<in> set (butlast vs) \<Longrightarrow> \<not> sv_isActive v"
    using assms by (auto simp: history_ok_nth in_set_conv_nth nth_butlast)
qed

lemma getActiveVersion_versions: "getActiveVersion sid db = tbl_find sv_isActive (versions_of sid db)"
proof -
  have "tbl_find (\<lambda>v. p v \<and> q v) t = tbl_find q (filter p t)" for p q and t :: "song_version table"
    by (induction t) (auto simp: tbl_simps)
  then show ?thesis by (simp add: getActiveVersion_def versions_of_def)
qed

lemma active_is_last:
  assumes "history_ok vs" and "vs \<noteq> []"
  shows "tbl_find sv_isActive vs = Some (last vs)"
proof -
  have "tbl_find sv_isActive (butlast vs) = None" using history_ok_last(2) [OF assms] by (simp add: tbl_find_None_iff)
  moreover have "tbl_find sv_isActive [last vs] = Some (last vs)" using history_ok_last(1) [OF assms] by (simp add: tbl_simps)
  ultimately show ?thesis using assms(2) tbl_find_append [of sv_isActive "butlast vs" "[last vs]"] by simp
qed

text \<open>
  C3: over any sequence of first uploads, re-uploads and rollbacks, failing ones included, the
  revisions of every song stay numbered 1 to n, the last one is the active one and the only one, and
  no revision recorded before is changed or lost, apart from its flag.
\<close>

theorem history_is_append_only:
  assumes "versions_ok db"
  shows "let db' = fold version_step es db; vs = versions_of sid db' in
     map sv_versionNumber vs = [1..<Suc (length vs)] \<and>
     (vs \<noteq> [] \<longrightarrow> getActiveVersion sid db' = Some (last vs) \<and> (\<forall>v\<in>set (butlast vs). \<not> sv_isActive v)) \<and>
     prefix (map unserved (versions_of sid db)) (map unserved vs)"
proof -
  have "follows db (fold version_step es db)" by (rule histories.run_ok) simp
  with assms have *: "history_ok (versions_of sid (fold version_step es db))"
      "prefix (map unserved (versions_of sid db)) (map unserved (versions_of sid (fold version_step es db)))"
    by (auto simp: follows_def versions_ok_def)
  then show ?thesis
    using history_ok_numbers [OF *(1)] active_is_last [OF *(1)] history_ok_last(2) [OF *(1)]
    by (simp add: Let_def getActiveVersion_versions)
qed


subsection \<open>Rolling back\<close>

text \<open>The columns of the song are those the revision recorded.\<close>

definition mirrors :: "song_entity \<Rightarrow> song_version \<Rightarrow> bool" where
  "mirrors s v \<longleftrightarrow> sv_title v = Some (so_title s) \<and> sv_description v = so_description s \<and>
     sv_genre v = so_genre s \<and> sv_composers v = so_composers s \<and>
     sv_coverArtPath v = Some (so_coverArtPath s) \<and> sv_s3OriginalUrl v = so_s3OriginalUrl s \<and>
     sv_hlsMasterUrl v = so_hlsMasterUrl s \<and> sv_ipfsCid v = so_ipfsCid s \<and>
     sv_metadataCid v = so_metadataCid s \<and> sv_duration v = so_duration s \<and>
     sv_loudness v = so_loudness s \<and> sv_status v = so_status s"

lemma mirrors_initial: "mirrors s (initial_version vid now s cb)"
  by (simp add: mirrors_def initial_version_def)

lemma mirrors_unserved [simp]: "mirrors s (unserved v) = mirrors s v"
  by (simp add: mirrors_def unserved_def)

lemma get_put_song:
  "get_song k (put_song s db) = (if k = so_id s then Some s else get_song k db)"
  by (auto simp: get_song_def put_song_def tbl_simps)

lemma so_id_reuploaded [simp]: "so_id (reuploaded_song s v inp) = so_id s"
  by (simp add: reuploaded_song_def)

lemma so_id_rolled_back [simp]: "so_id (rolled_back_song s c v) = so_id s"
  by (simp add: rolled_back_song_def)

lemma versions_of_songId: "v \<in> set (versions_of sid db) \<Longrightarrow> sv_songId v = sid"
  by (simp add: versions_of_def)

lemma getVersion_found:
  assumes "versions_ok db" and "v \<in> set (versions_of sid db)" and "get_song sid db = Some s"
  shows "getVersion sid (Some (int (sv_versionNumber v))) db = Inr v"
proof -
  let ?vs = "versions_of sid db"
  have h: "history_ok ?vs" using assms(1) by (simp add: versions_ok_def)
  from assms(2) obtain i where i: "i < length ?vs" "?vs ! i = v" by (auto simp: in_set_conv_nth)
  with h have n: "sv_versionNumber v = Suc i" by (auto simp: history_ok_nth)
  have "w = v" if "w \<in> set (sd_versions db)" "sv_songId w = sid" "sv_versionNumber w = sv_versionNumber v" for w
  proof -
    from that have "w \<in> set ?vs" by (simp add: versions_of_def)
    then obtain j where "j < length ?vs" "?vs ! j = w" by (auto simp: in_set_conv_nth)
    with h i n that(3) show ?thesis by (auto simp: history_ok_nth)
  qed
  moreover have "tbl_find (\<lambda>w. sv_songId w = sid \<and> sv_versionNumber w = sv_versionNumber v) (sd_versions db) \<noteq> None"
    using assms(2) by (auto simp: tbl_find_None_iff versions_of_def)
  ultimately have "tbl_find (\<lambda>w. sv_songId w = sid \<and> sv_versionNumber w = sv_versionNumber v) (sd_versions db) = Some v"
    by (auto dest: tbl_find_SomeD)
  moreover have "\<not> int (sv_versionNumber v) < 1" using n by simp
  ultimately show ?thesis using assms(3) by (simp add: getVersion_def)
qed

text \<open>A re-upload of a song with a history appends one revision and moves the song to it.\<close>

lemma reupload_result:
  assumes "versions_ok db" and "get_song sid db = Some s" and "so_artistId s = aid" and "versions_of sid db \<noteq> []"
  obtains v db' where "createVersionFromReupload vid0 vid now sid aid inp db = (Inr v, put_song (reuploaded_song s v inp) db')"
    and "sd_songs db' = sd_songs db" and "versions_of sid db' = map unserved (versions_of sid db) @ [v]"
proof -
  have id: "so_id s = sid" using assms(2) by (rule get_song_id)
  have h: "history_ok (versions_of sid db)" using assms(1) by (simp add: versions_ok_def)
  let ?v = "reupload_version vid now s aid inp (Suc (length (versions_of sid db)))"
  have v: "sv_songId ?v = sid" "sv_versionNumber ?v = Suc (length (versions_of sid db))" "sv_isActive ?v"
    by (simp_all add: reupload_version_def id)
  obtain db' where db': "append_version ?v db = (Inr ?v, db')" "sd_songs db' = sd_songs db"
      "versions_of sid db' = map unserved (versions_of sid db) @ [?v]"
    using append_version_next [of ?v db] h v by metis
  have "createVersionFromReupload vid0 vid now sid aid inp db = (Inr ?v, put_song (reuploaded_song s ?v inp) db')"
    using assms db'(1) id by (simp add: createVersionFromReupload_def ensure_initial_def latest_version [OF h] Let_def)
  with db' show ?thesis by (intro that [of ?v db']) simp_all
qed

lemma rollback_result:
  assumes "versions_ok db" and "get_song sid db = Some s" and "so_artistId s = aid"
    and "w \<in> set (versions_of sid db)" and "sv_coverArtPath w = Some c"
  obtains v db' where "rollbackVersion vid now sid (Some (int (sv_versionNumber w))) aid note_text db = (Inr v, put_song (rolled_back_song s c v) db')"
    and "sd_songs db' = sd_songs db" and "versions_of sid db' = map unserved (versions_of sid db) @ [v]"
    and "\<forall>s'. mirrors s' v = mirrors s' w" and "sv_isActive v"
proof -
  have h: "history_ok (versions_of sid db)" using assms(1) by (simp add: versions_ok_def)
  let ?v = "rollback_copy vid now aid note_text w (Suc (length (versions_of sid db)))"
  have v: "sv_songId ?v = sid" "sv_versionNumber ?v = Suc (length (versions_of sid db))" "sv_isActive ?v" "sv_coverArtPath ?v = Some c"
    using versions_of_songId [OF assms(4)] assms(5) by (simp_all add: rollback_copy_def)
  obtain db' where db': "append_version ?v db = (Inr ?v, db')" "sd_songs db' = sd_songs db"
      "versions_of sid db' = map unserved (versions_of sid db) @ [?v]"
    using append_version_next [of ?v db] h v by metis
  have "rollbackVersion vid now sid (Some (int (sv_versionNumber w))) aid note_text db = (Inr ?v, put_song (rolled_back_song s c ?v) db')"
    using assms db'(1) v(4) by (simp add: rollbackVersion_def getVersion_found latest_version [OF h] Let_def)
  moreover have "mirrors s' ?v = mirrors s' w" for s' by (simp add: mirrors_def rollback_copy_def)
  ultimately show ?thesis using db' v by (intro that [of ?v db']) simp_all
qed

lemma rolled_back_mirror:
  "mirrors s v \<Longrightarrow> rolled_back_song (reuploaded_song s w inp) (so_coverArtPath s) v = s\<lparr>so_errorReason := None\<rparr>"
  by (simp add: mirrors_def rolled_back_song_def reuploaded_song_def)

text \<open>
  C5: when the columns of a song are those of one of its revisions, a re-upload followed by a
  rollback to that revision brings the song back exactly, apart from its error reason; the rollback
  succeeds, the copy is the active revision, and no other song is touched.
\<close>

theorem rollback_undoes_reupload:
  assumes "versions_ok db" and "get_song sid db = Some s" and "so_artistId s = aid"
    and "w \<in> set (versions_of sid db)" and "mirrors s w"
  shows "let db1 = snd (createVersionFromReupload vid0 vid1 now1 sid aid inp db);
             (r, db2) = rollbackVersion vid2 now2 sid (Some (int (sv_versionNumber w))) aid note_text db1
         in get_song sid db2 = Some (s\<lparr>so_errorReason := None\<rparr>) \<and>
            (\<exists>v. r = Inr v \<and> getActiveVersion sid db2 = Some v \<and> mirrors s v) \<and>
            (\<forall>k. k \<noteq> sid \<longrightarrow> get_song k db2 = get_song k db)"
proof -
  have id: "so_id s = sid" using assms(2) by (rule get_song_id)
  have ne: "versions_of sid db \<noteq> []" using assms(4) by auto
  obtain v1 da where r1: "createVersionFromReupload vid0 vid1 now1 sid aid inp db = (Inr v1, put_song (reuploaded_song s v1 inp) da)"
      "sd_songs da = sd_songs db" "versions_of sid da = map unserved (versions_of sid db) @ [v1]"
    by (rule reupload_result [OF assms(1-3) ne])
  let ?db1 = "put_song (reuploaded_song s v1 inp) da"
  have ok1: "versions_ok ?db1"
    using follows_reupload [of db vid0 vid1 now1 sid aid inp] assms(1) r1(1) by (simp add: follows_def)
  have g1: "get_song sid ?db1 = Some (reuploaded_song s v1 inp)" by (simp add: get_put_song id)
  have a1: "so_artistId (reuploaded_song s v1 inp) = aid" using assms(3) by (simp add: reuploaded_song_def)
  have w1: "unserved w \<in> set (versions_of sid ?db1)" using assms(4) r1(3) by simp
  have c1: "sv_coverArtPath (unserved w) = Some (so_coverArtPath s)" using assms(5) by (simp add: mirrors_def unserved_def)
  obtain v2 dc where r2: "rollbackVersion vid2 now2 sid (Some (int (sv_versionNumber (unserved w)))) aid note_text ?db1 =
        (Inr v2, put_song (rolled_back_song (reuploaded_song s v1 inp) (so_coverArtPath s) v2) dc)"
      "sd_songs dc = sd_songs ?db1" "versions_of sid dc = map unserved (versions_of sid ?db1) @ [v2]"
      "\<forall>s'. mirrors s' v2 = mirrors s' (unserved w)" "sv_isActive v2"
    by (rule rollback_result [OF ok1 g1 a1 w1 c1, of vid2 now2 note_text])
  have m2: "mirrors s v2" using r2(4) assms(5) by simp
  let ?db2 = "put_song (rolled_back_song (reuploaded_song s v1 inp) (so_coverArtPath s) v2) dc"
  have "getActiveVersion sid ?db2 = Some v2"
  proof -
    have "versions_ok ?db2"
      using follows_rollback [of ?db1 vid2 now2 sid "Some (int (sv_versionNumber (unserved w)))" aid note_text] ok1 r2(1)
      by (simp add: follows_def)
    then have "history_ok (versions_of sid ?db2)" by (simp add: versions_ok_def)
    with active_is_last [of "versions_of sid ?db2"] r2(3) show ?thesis by (simp add: getActiveVersion_versions)
  qed
  moreover have "get_song k ?db2 = get_song k db" if "k \<noteq> sid" for k
    using that id r1(2) r2(2) by (simp add: get_put_song, simp add: get_song_def put_song_def tbl_simps)
  ultimately show ?thesis
    using r1(1) r2(1) m2 id by (simp add: get_put_song rolled_back_mirror unserved_def)
qed

subsection \<open>Two re-uploads at once\<close>

text \<open>
  two re-uploads that read the same latest number write the same key. The first makes its revision
  the active one; the second then demotes it and is refused, so the song is left with no active
  revision at all.
\<close>

theorem concurrent_reuploads_leave_no_active:
  assumes "versions_ok db" and "num = getLatestVersionNumber sid db + 1"
    and "so_id sa = sid" and "so_id sb = sid"
  shows "let va = reupload_version vida nowa sa aida inpa num;
             vb = reupload_version vidb nowb sb aidb inpb num;
             (ra, db1) = append_version va db; (rb, db2) = append_version vb db1
         in ra = Inr va \<and> getActiveVersion sid db1 = Some va \<and>
            rb = Inl duplicate_key_error \<and> getActiveVersion sid db2 = None"
proof -
  let ?va = "reupload_version vida nowa sa aida inpa num"
  let ?vb = "reupload_version vidb nowb sb aidb inpb num"
  have h: "history_ok (versions_of sid db)" using assms(1) by (simp add: versions_ok_def)
  have va: "sv_songId ?va = sid" "sv_versionNumber ?va = Suc (length (versions_of sid db))" "sv_isActive ?va"
    using assms(2,3) by (simp_all add: reupload_version_def latest_version [OF h])
  obtain db1 where a: "append_version ?va db = (Inr ?va, db1)"
      "versions_of sid db1 = map unserved (versions_of sid db) @ [?va]"
    using append_version_next [of ?va db] h va by metis
  have "history_ok (versions_of sid db1)" using history_ok_snoc [OF h va(2,3)] a(2) by simp
  then have act: "getActiveVersion sid db1 = Some ?va"
    using active_is_last [of "versions_of sid db1"] a(2) by (simp add: getActiveVersion_versions)
  have "?va \<in> set (sd_versions db1)"
    using a(2) by (metis filter_is_subset in_set_conv_decomp subsetD versions_of_def)
  then have "version_key ?va \<in> version_key ` set (sd_versions (demote_versions sid db1))"
    unfolding version_keys_demote by (rule imageI)
  moreover have "version_key ?vb = version_key ?va" using assms(3,4) by (simp add: version_key_def reupload_version_def)
  ultimately have "version_key ?vb \<in> version_key ` set (sd_versions (demote_versions sid db1))" by simp
  then have "append_version ?vb db1 = (Inl duplicate_key_error, demote_versions sid db1)"
    using assms(4) by (simp add: append_version_def insert_version_def insert_row_def reupload_version_def)
  moreover have "getActiveVersion sid (demote_versions sid db1) = None"
    by (simp add: getActiveVersion_versions versions_of_demote tbl_find_None_iff unserved_def)
  ultimately show ?thesis using a(1) act by simp
qed


subsection \<open>Witnesses\<close>

definition song1 :: song_entity where
  "song1 = \<lparr>so_id = ''s1'', so_artistId = ''a1'', so_artistAddress = None, so_title = ''First'',
     so_description = Some ''d'', so_genre = Some ''g'', so_genreId = None, so_composers = None,
     so_lyrics = None, so_language = None, so_coverArtPath = ''c'', so_coverArtThumbnails = None,
     so_s3OriginalUrl = Some ''u1'', so_hlsMasterUrl = Some ''h1'', so_ipfsCid = None, so_metadataCid = Some ''m1'',
     so_duration = Some 180, so_loudness = None, so_truePeakDb = None, so_loudnessRange = None, so_waveformPeaks = None, so_status = ST_READY, so_errorReason = None,
     so_playCount = 7, so_mintStatus = MS_MINTED, so_onChainSongId = Some ''1'', so_onChainTokenId = Some ''2'',
     so_flagged = False, so_flaggedAt = None, so_flaggedBy = None, so_flagReason = None,
     so_royaltySplits = None, so_lyricsRightsConfirmedAt = None, so_aiGeneratedDescription = None,
     so_aiDescriptionApproved = False, so_aiGeneratedCoverUrl = None, so_createdAt = 0\<rparr>"

definition song_db1 :: song_db where
  "song_db1 = snd (createInitialVersion ''v1'' 0 song1 None \<lparr>sd_songs = [song1], sd_versions = []\<rparr>)"

definition new_audio :: version_input where
  "new_audio = \<lparr>vi_title = Some ''Second'', vi_description = None, vi_genre = None, vi_composers = None,
     vi_coverArtPath = None, vi_s3OriginalUrl = Some ''u2'', vi_ipfsCid = None, vi_changeNote = None, vi_createdBy = None\<rparr>"

lemma song_db1_eq: "song_db1 = \<lparr>sd_songs = [song1], sd_versions = [initial_version ''v1'' 0 song1 None]\<rparr>"
  by (simp add: song_db1_def createInitialVersion_new versions_of_def)

lemma song_db1_versions: "versions_of k song_db1 = (if k = ''s1'' then [initial_version ''v1'' 0 song1 None] else [])"
  by (auto simp: song_db1_eq versions_of_def initial_version_def song1_def)

lemma song_db1_ok: "versions_ok song_db1"
  by (auto simp: versions_ok_def song_db1_versions history_ok_def initial_version_def)

lemma song_db1_song: "get_song ''s1'' song_db1 = Some song1"
  by (simp add: song_db1_eq get_song_def tbl_simps song1_def)

theorem history_is_append_only_witness:
  "let vs = versions_of ''s1'' (fold version_step
       [VO_reupload ''x'' ''v2'' 1 ''s1'' ''a1'' new_audio, VO_rollback ''v3'' 2 ''s1'' (Some 1) ''a1'' None] song_db1)
   in map sv_versionNumber vs = [1..<Suc (length vs)] \<and> prefix (map unserved (versions_of ''s1'' song_db1)) (map unserved vs)"
  using history_is_append_only [OF song_db1_ok, of
      "[VO_reupload ''x'' ''v2'' 1 ''s1'' ''a1'' new_audio, VO_rollback ''v3'' 2 ''s1'' (Some 1) ''a1'' None]" "''s1''"]
  by (simp add: Let_def del: upt_Suc fold_simps)

theorem rollback_undoes_reupload_witness:
  "get_song ''s1'' (snd (rollbackVersion ''v3'' 2 ''s1'' (Some 1) ''a1'' None
      (snd (createVersionFromReupload ''x'' ''v2'' 1 ''s1'' ''a1'' new_audio song_db1)))) = Some song1"
proof -
  have w: "initial_version ''v1'' 0 song1 None \<in> set (versions_of ''s1'' song_db1)" by (simp add: song_db1_versions)
  have "so_artistId song1 = ''a1''" by (simp add: song1_def)
  note rollback_undoes_reupload [OF song_db1_ok song_db1_song this w mirrors_initial, where ?vid0.0 = "''x''"
      and ?vid1.0 = "''v2''" and ?now1.0 = 1 and inp = new_audio and ?vid2.0 = "''v3''" and ?now2.0 = 2 and note_text = None]
  moreover have "sv_versionNumber (initial_version ''v1'' 0 song1 None) = 1" by (simp add: initial_version_def)
  moreover have "song1\<lparr>so_errorReason := None\<rparr> = song1" by (simp add: song1_def)
  ultimately show ?thesis by (auto simp: Let_def split: prod.splits)
qed

theorem concurrent_reuploads_leave_no_active_witness:
  "let v = reupload_version ''v2'' 1 song1 ''a1'' new_audio 2; w = reupload_version ''v3'' 1 song1 ''a1'' new_audio 2
   in getActiveVersion ''s1'' (snd (append_version w (snd (append_version v song_db1)))) = None"
proof -
  have n: "2 = getLatestVersionNumber ''s1'' song_db1 + 1"
    by (simp add: getLatestVersionNumber_def song_db1_versions initial_version_def)
  have i: "so_id song1 = ''s1''" by (simp add: song1_def)
  show ?thesis
    using concurrent_reuploads_leave_no_active [OF song_db1_ok n i i, where vida = "''v2''" and nowa = 1 and aida = "''a1''"
      and inpa = new_audio and vidb = "''v3''" and nowb = 1 and aidb = "''a1''" and inpb = new_audio]
    by (auto simp: Let_def split: prod.splits)
qed

end
