(* ===== verification/Song_Uploads.thy ===== *)
theory Song_Uploads
  imports Song_Versions "HOL-Library.AList"
begin

text \<open>
  Uploading audio: the chunk files, the merge, the malware scan (\<open>services/ScanService.ts\<close>), the copy
  to S3 and the job message, from \<open>services/SongService.ts\<close>. Local files and S3 objects are maps
  from names to contents; the scanner's answer and the outcome of an S3 upload are parameters.
\<close>

subsection \<open>State\<close>

text \<open>The body of a job message; \<open>attempt\<close> and \<open>versionNumber\<close> may be missing.\<close>

record job_message =
  jm_songId :: ident
  jm_fileId :: ident
  jm_attempt :: "int option"
  jm_versionNumber :: "nat option"

text \<open>
  \<open>us_temp\<close> holds the directories \<open>uploads/temp/<fileId>\<close> with the contents of \<open>chunk_<i>\<close>,
  \<open>us_merged\<close> the files \<open>uploads/merged/<fileId>.mp3\<close>, \<open>us_s3\<close> the bucket by key. \<open>us_channel\<close> says
  whether there is a broker channel, \<open>us_queue\<close> is the main queue.
\<close>

record upload_state =
  us_db :: song_db
  us_temp :: "ident \<Rightarrow> (nat \<times> string) list option"
  us_merged :: "ident \<Rightarrow> string option"
  us_s3 :: "string \<Rightarrow> string option"
  us_channel :: bool
  us_queue :: "job_message list"

subsection \<open>The malware scan\<close>

record scan_result =
  sc_clean :: bool
  sc_threat :: "string option"

text \<open>What the scanner answers for a file: the request fails, or a status with a virus name.\<close>

type_synonym scanner = "string \<Rightarrow> string + (string \<times> string option)"

definition scanFile :: "string \<Rightarrow> scanner \<Rightarrow> string \<Rightarrow> js_error + scan_result" where
  "scanFile provider clam content =
     (if provider = ''skip'' then Inr \<lparr>sc_clean = True, sc_threat = None\<rparr>
      else (case clam content of
          Inl msg \<Rightarrow> Inl (PlainErr (''Malware scanning service is unavailable. Upload rejected. ('' @ msg @ '')'') None)
        | Inr (status, virus) \<Rightarrow>
            if status = ''FOUND'' \<or> status = ''ERROR''
            then Inr \<lparr>sc_clean = False, sc_threat = or_other virus (Some ''unknown'')\<rparr>
            else Inr \<lparr>sc_clean = True, sc_threat = None\<rparr>))"

text \<open>The environment of an upload: the scan provider, the scanner, and what S3 answers to a key and a body.\<close>

record upload_env =
  ue_provider :: string
  ue_scanner :: scanner
  ue_s3 :: "string \<Rightarrow> string \<Rightarrow> js_error + string"

definition s3_put :: "upload_env \<Rightarrow> string \<Rightarrow> string \<Rightarrow> (upload_state, string) service" where
  "s3_put env key body st =
     (case ue_s3 env key body of
        Inl e \<Rightarrow> (Inl e, st)
      | Inr loc \<Rightarrow> (Inr loc, st\<lparr>us_s3 := (us_s3 st)(key \<mapsto> body)\<rparr>))"

subsection \<open>Chunks\<close>

definition chunk_dir :: "ident \<Rightarrow> upload_state \<Rightarrow> (nat \<times> string) list" where
  "chunk_dir fid st = (case us_temp st fid of None \<Rightarrow> [] | Some d \<Rightarrow> d)"

definition saveChunk :: "ident \<Rightarrow> nat \<Rightarrow> string \<Rightarrow> upload_state \<Rightarrow> upload_state" where
  "saveChunk fid i content st = st\<lparr>us_temp := (us_temp st)(fid \<mapsto> AList.update i content (chunk_dir fid st))\<rparr>"

definition saveCover :: "upload_env \<Rightarrow> ident \<Rightarrow> string \<Rightarrow> (upload_state, string) service" where
  "saveCover env fid content st = s3_put env (''covers/'' @ fid @ ''_cover.png'') content st"

definition missing_chunk :: "nat \<Rightarrow> js_error" where
  "missing_chunk i = PlainErr (''ENOENT: no such file or directory, open chunk_'' @ nat_str i) None"

text \<open>
  The merge loop: a chunk is read, written to the stream and deleted before the next one is read. A
  missing chunk ends it, with what was written so far in the merged file.
\<close>

fun merge_chunks :: "nat list \<Rightarrow> (nat \<times> string) list \<Rightarrow> string \<Rightarrow> js_error option \<times> (nat \<times> string) list \<times> string" where
  "merge_chunks [] dir acc = (None, dir, acc)"
| "merge_chunks (i # is) dir acc =
     (case map_of dir i of
        None \<Rightarrow> (Some (missing_chunk i), dir, acc)
      | Some content \<Rightarrow> merge_chunks is (AList.delete i dir) (acc @ content))"

definition audio_key :: "ident \<Rightarrow> string" where
  "audio_key fid = ''uploads/'' @ fid @ ''.mp3''"

definition malware_error :: "string option \<Rightarrow> js_error" where
  "malware_error threat = PlainErr (''Upload rejected: malware detected ('' @
     (case threat of None \<Rightarrow> ''unknown threat'' | Some t \<Rightarrow> t) @ '')'') (Some 422)"

text \<open>\<open>totalChunks\<close> is \<open>Number(...)\<close> of the body; an integer here.\<close>

definition mergeScanAndUpload :: "upload_env \<Rightarrow> ident \<Rightarrow> int \<Rightarrow> (upload_state, string) service" where
  "mergeScanAndUpload env fid expected st =
     (let dir = chunk_dir fid st; st0 = st\<lparr>us_temp := (us_temp st)(fid \<mapsto> dir)\<rparr> in
      if int (length dir) \<noteq> expected
      then (Inl (PlainErr (''Expected '' @ int_str expected @ '' chunks but found '' @ nat_str (length dir)) None), st0)
      else case merge_chunks [0..<length dir] dir [] of
        (failed, dir', body) \<Rightarrow>
          let st1 = st0\<lparr>us_temp := (us_temp st0)(fid \<mapsto> dir'), us_merged := (us_merged st0)(fid \<mapsto> body)\<rparr> in
          (case failed of
             Some e \<Rightarrow> (Inl e, st1)
           | None \<Rightarrow>
               if dir' \<noteq> [] then (Inl (PlainErr ''ENOTEMPTY: directory not empty'' None), st1)
               else let st2 = st1\<lparr>us_temp := (us_temp st1)(fid := None)\<rparr> in
                 (case scanFile (ue_provider env) (ue_scanner env) body of
                    Inl e \<Rightarrow> (Inl e, st2)
                  | Inr r \<Rightarrow>
                      if \<not> sc_clean r
                      then (Inl (malware_error (sc_threat r)), st2\<lparr>us_merged := (us_merged st2)(fid := None)\<rparr>)
                      else s3_put env (audio_key fid) body st2)))"

subsection \<open>Finalizing\<close>

record finalize_options =
  fo_fileId :: ident
  fo_totalChunks :: int
  fo_title :: string
  fo_artistId :: ident
  fo_artistAddress :: "string option"
  fo_description :: string
  fo_genre :: string
  fo_coverArtPath :: string
  fo_composers :: "string option"

definition uploaded_song :: "ident \<Rightarrow> timestamp \<Rightarrow> finalize_options \<Rightarrow> string \<Rightarrow> song_entity" where
  "uploaded_song sid now opts loc =
     \<lparr>so_id = sid, so_artistId = fo_artistId opts, so_artistAddress = fo_artistAddress opts,
      so_title = fo_title opts, so_description = Some (fo_description opts), so_genre = Some (fo_genre opts),
      so_genreId = None, so_composers = fo_composers opts, so_lyrics = None, so_language = None,
      so_coverArtPath = fo_coverArtPath opts, so_coverArtThumbnails = None, so_s3OriginalUrl = Some loc,
      so_hlsMasterUrl = None, so_ipfsCid = None, so_metadataCid = None, so_duration = None,
      so_loudness = None, so_truePeakDb = None, so_loudnessRange = None, so_waveformPeaks = None, so_status = ST_PROCESSING, so_errorReason = None, so_playCount = 0,
      so_mintStatus = MS_NOT_MINTED, so_onChainSongId = None, so_onChainTokenId = None,
      so_flagged = False, so_flaggedAt = None, so_flaggedBy = None, so_flagReason = None,
      so_royaltySplits = None, so_lyricsRightsConfirmedAt = None, so_aiGeneratedDescription = None,
      so_aiDescriptionApproved = False, so_aiGeneratedCoverUrl = None, so_createdAt = now\<rparr>"

definition no_channel_error :: js_error where
  "no_channel_error = PlainErr ''RabbitMQ not initialized'' None"

text \<open>\<open>getChannel()\<close> throws without a channel; with one the message is queued.\<close>

definition send_job :: "job_message \<Rightarrow> (upload_state, unit) service" where
  "send_job m st =
     (if us_channel st then (Inr (), st\<lparr>us_queue := us_queue st @ [m]\<rparr>) else (Inl no_channel_error, st))"

text \<open>A failure to record the first version is caught.\<close>

definition finalizeUpload ::
  "upload_env \<Rightarrow> ident \<Rightarrow> ident \<Rightarrow> timestamp \<Rightarrow> finalize_options \<Rightarrow> (upload_state, song_entity) service" where
  "finalizeUpload env sid vid now opts st =
     (case mergeScanAndUpload env (fo_fileId opts) (fo_totalChunks opts) st of
        (Inl e, st1) \<Rightarrow> (Inl e, st1)
      | (Inr loc, st1) \<Rightarrow>
          let s = uploaded_song sid now opts loc;
              db1 = put_song s (us_db st1);
              db2 = snd (createInitialVersion vid now s (Some (fo_artistId opts)) db1) in
          (case send_job \<lparr>jm_songId = sid, jm_fileId = fo_fileId opts, jm_attempt = None, jm_versionNumber = None\<rparr>
                  (st1\<lparr>us_db := db2\<rparr>) of
             (Inl e, st2) \<Rightarrow> (Inl e, st2)
           | (Inr _, st2) \<Rightarrow> (Inr s, st2)))"

definition finalizeReupload ::
  "upload_env \<Rightarrow> ident \<Rightarrow> ident \<Rightarrow> timestamp \<Rightarrow> ident \<Rightarrow> ident \<Rightarrow> int \<Rightarrow> ident \<Rightarrow> version_input \<Rightarrow>
   (upload_state, song_entity \<times> song_version) service" where
  "finalizeReupload env vid0 vid now sid fid expected aid changes st =
     (case get_song sid (us_db st) of
        None \<Rightarrow> (Inl song_missing, st)
      | Some s \<Rightarrow>
          if so_artistId s \<noteq> aid then (Inl (not_song_owner ''re-upload this song''), st)
          else (case mergeScanAndUpload env fid expected st of
              (Inl e, st1) \<Rightarrow> (Inl e, st1)
            | (Inr loc, st1) \<Rightarrow>
                (case createVersionFromReupload vid0 vid now sid aid
                        (changes\<lparr>vi_s3OriginalUrl := Some loc, vi_createdBy := Some aid\<rparr>) (us_db st1) of
                   (Inl e, db2) \<Rightarrow> (Inl e, st1\<lparr>us_db := db2\<rparr>)
                 | (Inr v, db2) \<Rightarrow>
                     let updated = (case get_song sid db2 of None \<Rightarrow> s | Some s' \<Rightarrow> s') in
                     (case send_job \<lparr>jm_songId = sid, jm_fileId = fid, jm_attempt = None,
                                     jm_versionNumber = Some (sv_versionNumber v)\<rparr> (st1\<lparr>us_db := db2\<rparr>) of
                        (Inl e, st3) \<Rightarrow> (Inl e, st3)
                      | (Inr _, st3) \<Rightarrow> (Inr (updated, v), st3)))))"

text \<open>The message of a retry names the song as its file; a failed publication is caught.\<close>

definition retryFailedSong :: "ident \<Rightarrow> (upload_state, song_entity) service" where
  "retryFailedSong sid st =
     (case get_song sid (us_db st) of
        None \<Rightarrow> (Inl (PlainErr ''Song not found'' None), st)
      | Some s \<Rightarrow>
          if so_status s \<noteq> ST_FAILED then (Inl (PlainErr ''Only failed songs can be retried'' None), st)
          else let s' = s\<lparr>so_status := ST_PROCESSING, so_errorReason := None\<rparr>;
                   st1 = st\<lparr>us_db := put_song s' (us_db st)\<rparr>;
                   st2 = snd (send_job \<lparr>jm_songId = sid, jm_fileId = sid, jm_attempt = Some 1, jm_versionNumber = None\<rparr> st1)
               in (Inr s', st2))"

datatype upload_op =
    UO_chunk ident nat string
  | UO_cover ident string
  | UO_finalize ident ident timestamp finalize_options
  | UO_reupload ident ident timestamp ident ident int ident version_input
  | UO_retry ident
  | UO_channel bool

fun upload_step :: "upload_env \<times> upload_op \<Rightarrow> upload_state \<Rightarrow> upload_state" where
  "upload_step (env, UO_chunk fid i content) st = saveChunk fid i content st"
| "upload_step (env, UO_cover fid content) st = snd (saveCover env fid content st)"
| "upload_step (env, UO_finalize sid vid now opts) st = snd (finalizeUpload env sid vid now opts st)"
| "upload_step (env, UO_reupload vid0 vid now sid fid expected aid changes) st =
     snd (finalizeReupload env vid0 vid now sid fid expected aid changes st)"
| "upload_step (env, UO_retry sid) st = snd (retryFailedSong sid st)"
| "upload_step (env, UO_channel up) st = st\<lparr>us_channel := up\<rparr>"


subsection \<open>Merging\<close>

lemma map_of_delete: "map_of (AList.delete i dir) j = (if j = i then None else map_of dir j)"
  by (simp add: AList.delete_conv')

lemma delete_filter: "AList.delete i dir = filter (\<lambda>p. fst p \<noteq> i) dir"
  by (induction dir) auto

lemma merge_chunks_present:
  "distinct is \<Longrightarrow> \<forall>i\<in>set is. map_of dir i = Some (g i) \<Longrightarrow>
   merge_chunks (is @ js) dir acc = merge_chunks js (filter (\<lambda>p. fst p \<notin> set is) dir) (acc @ concat (map g is))"
proof (induction "is" arbitrary: dir acc)
  case (Cons i "is")
  have "\<forall>j\<in>set is. map_of (AList.delete i dir) j = Some (g j)" using Cons.prems by (auto simp: map_of_delete)
  with Cons show ?case by (simp add: delete_filter conj_commute)
qed simp

lemma merge_chunks_all:
  assumes "distinct is" and "\<forall>i\<in>set is. map_of dir i = Some (g i)"
  shows "merge_chunks is dir acc = (None, filter (\<lambda>p. fst p \<notin> set is) dir, acc @ concat (map g is))"
  using merge_chunks_present [OF assms, of "[]"] by simp

lemma merge_chunks_gap:
  assumes "distinct is" and "\<forall>i\<in>set is. map_of dir i = Some (g i)" and "map_of dir j = None" and "j \<notin> set is"
  shows "merge_chunks (is @ j # js) dir acc =
     (Some (missing_chunk j),
      filter (\<lambda>p. fst p \<notin> set is) dir, acc @ concat (map g is))"
proof -
  have "map_of (filter (\<lambda>p. fst p \<notin> set is) dir) j = None"
    using assms(3) by (auto simp: map_of_eq_None_iff)
  then show ?thesis using merge_chunks_present [OF assms(1,2), of "j # js"] by simp
qed

subsection \<open>Saving chunks\<close>

definition save_chunks :: "ident \<Rightarrow> (nat \<times> string) list \<Rightarrow> upload_state \<Rightarrow> upload_state" where
  "save_chunks fid saves st = fold (\<lambda>(i, c). saveChunk fid i c) saves st"

text \<open>The chunk stored for an index is the one saved last; the audio is the chunks in index order.\<close>

definition assembled :: "(nat \<times> string) list \<Rightarrow> nat \<Rightarrow> string" where
  "assembled saves n = concat (map (\<lambda>i. the (map_of (rev saves) i)) [0..<n])"

lemma save_chunks_Nil [simp]: "save_chunks fid [] st = st"
  by (simp add: save_chunks_def)

lemma save_chunks_snoc [simp]: "save_chunks fid (saves @ [(i, c)]) st = saveChunk fid i c (save_chunks fid saves st)"
  by (simp add: save_chunks_def)

lemma chunk_dir_saveChunk [simp]: "chunk_dir fid (saveChunk fid i c st) = AList.update i c (chunk_dir fid st)"
  by (simp add: chunk_dir_def saveChunk_def)

lemma save_chunks_rest:
  "us_db (save_chunks fid saves st) = us_db st" "us_merged (save_chunks fid saves st) = us_merged st"
  "us_s3 (save_chunks fid saves st) = us_s3 st" "us_channel (save_chunks fid saves st) = us_channel st"
  "us_queue (save_chunks fid saves st) = us_queue st"
  "(us_temp (save_chunks fid saves st))(fid := x) = (us_temp st)(fid := x)"
  by (induction saves rule: rev_induct) (auto simp: saveChunk_def)

lemma saved_dir:
  assumes "us_temp st fid = None"
  shows "map_of (chunk_dir fid (save_chunks fid saves st)) = map_of (rev saves)"
    and "distinct (map fst (chunk_dir fid (save_chunks fid saves st)))"
    and "fst ` set (chunk_dir fid (save_chunks fid saves st)) = fst ` set saves"
proof -
  show m: "map_of (chunk_dir fid (save_chunks fid saves st)) = map_of (rev saves)"
    using assms
    by (induction saves rule: rev_induct) (auto simp: chunk_dir_def [of fid st] AList.update_conv')
  show "distinct (map fst (chunk_dir fid (save_chunks fid saves st)))"
    using assms
    by (induction saves rule: rev_induct) (auto simp: chunk_dir_def [of fid st] AList.distinct_update)
  show "fst ` set (chunk_dir fid (save_chunks fid saves st)) = fst ` set saves"
    using m by (metis dom_map_of_conv_image_fst set_rev)
qed

lemma length_distinct_keys: "distinct (map fst dir) \<Longrightarrow> fst ` set dir = {..<n} \<Longrightarrow> length dir = (n::nat)"
  by (metis card_lessThan distinct_card length_map set_map)


subsection \<open>What an upload stores\<close>

text \<open>The state of a complete upload once its chunks are merged: the directory is gone again.\<close>

definition merged_state :: "ident \<Rightarrow> string \<Rightarrow> upload_state \<Rightarrow> upload_state" where
  "merged_state fid body st = st\<lparr>us_merged := (us_merged st)(fid \<mapsto> body)\<rparr>"

lemma merge_complete:
  assumes "us_temp st fid = None" and "fst ` set saves = {..<n}"
  shows "mergeScanAndUpload env fid (int n) (save_chunks fid saves st) =
    (let body = assembled saves n; st' = merged_state fid body st in
     case scanFile (ue_provider env) (ue_scanner env) body of
       Inl e \<Rightarrow> (Inl e, st')
     | Inr r \<Rightarrow> if \<not> sc_clean r then (Inl (malware_error (sc_threat r)), st'\<lparr>us_merged := (us_merged st')(fid := None)\<rparr>)
               else s3_put env (audio_key fid) body st')"
proof -
  let ?st = "save_chunks fid saves st"
  let ?dir = "chunk_dir fid ?st"
  have n: "length ?dir = n" using saved_dir [OF assms(1), of saves] assms(2) by (intro length_distinct_keys) auto
  have "\<forall>i\<in>set [0..<n]. map_of ?dir i = Some (the (map_of (rev saves) i))"
  proof
    fix i assume "i \<in> set [0..<n]"
    then have "i \<in> fst ` set (rev saves)" using assms(2) by auto
    then have "map_of (rev saves) i \<noteq> None" by (simp add: map_of_eq_None_iff)
    then show "map_of ?dir i = Some (the (map_of (rev saves) i))" using saved_dir(1) [OF assms(1)] by auto
  qed
  from merge_chunks_all [OF distinct_upt this]
  have m: "merge_chunks [0..<n] ?dir [] = (None, filter (\<lambda>p. fst p \<notin> set [0..<n]) ?dir, assembled saves n)"
    by (simp add: assembled_def)
  have "filter (\<lambda>p. fst p \<notin> set [0..<n]) ?dir = []"
    using saved_dir(3) [OF assms(1), of saves] assms(2) by (auto simp: filter_empty_conv)
  moreover have "?st\<lparr>us_merged := f, us_temp := (us_temp st)(fid := None)\<rparr> = st\<lparr>us_merged := f\<rparr>" for f
    using assms(1) by (intro upload_state.equality) (simp_all add: save_chunks_rest fun_upd_idem)
  ultimately show ?thesis
    using n m by (cases "scanFile (ue_provider env) (ue_scanner env) (assembled saves n)")
      (simp_all add: mergeScanAndUpload_def merged_state_def Let_def save_chunks_rest)
qed

lemma s3_put_Inr: "ue_s3 env key body = Inr loc \<Longrightarrow> s3_put env key body st = (Inr loc, st\<lparr>us_s3 := (us_s3 st)(key \<mapsto> body)\<rparr>)"
  by (simp add: s3_put_def)

text \<open>
  C4: whatever order the chunks are uploaded in, and however often one is sent again, a finalized
  upload stores in S3 the last content of every chunk in index order, creates the song in status
  processing with version 1 as its only revision, queues exactly one job and leaves no chunk behind.
\<close>

theorem upload_assembles_chunks:
  assumes "us_temp st fid = None" and "fst ` set saves = {..<n}" and "us_channel st"
    and "fo_fileId opts = fid" and "fo_totalChunks opts = int n" and "versions_of sid (us_db st) = []"
    and "scanFile (ue_provider env) (ue_scanner env) (assembled saves n) = Inr \<lparr>sc_clean = True, sc_threat = threat\<rparr>"
    and "ue_s3 env (audio_key fid) (assembled saves n) = Inr loc"
  shows "let (r, st') = finalizeUpload env sid vid now opts (save_chunks fid saves st); s = uploaded_song sid now opts loc
         in r = Inr s \<and> us_s3 st' = (us_s3 st)(audio_key fid \<mapsto> assembled saves n) \<and>
            get_song sid (us_db st') = Some s \<and> versions_of sid (us_db st') = [initial_version vid now s (Some (fo_artistId opts))] \<and>
            us_queue st' = us_queue st @ [\<lparr>jm_songId = sid, jm_fileId = fid, jm_attempt = None, jm_versionNumber = None\<rparr>] \<and>
            us_temp st' = us_temp st"
proof -
  let ?s = "uploaded_song sid now opts loc"
  have id: "so_id ?s = sid" by (simp add: uploaded_song_def)
  have none: "versions_of (so_id ?s) (put_song ?s (us_db st)) = []" using assms(6) id by simp
  have m: "mergeScanAndUpload env fid (int n) (save_chunks fid saves st) =
      (Inr loc, (merged_state fid (assembled saves n) st)\<lparr>us_s3 := (us_s3 st)(audio_key fid \<mapsto> assembled saves n)\<rparr>)"
    using assms(7,8) merge_complete [OF assms(1,2), of env]
    by (simp add: Let_def s3_put_Inr merged_state_def)
  have v: "versions_of sid (put_song ?s (us_db st)\<lparr>sd_versions := sd_versions (put_song ?s (us_db st)) @
        [initial_version vid now ?s (Some (fo_artistId opts))]\<rparr>) = [initial_version vid now ?s (Some (fo_artistId opts))]"
    using versions_of_initial [of sid "put_song ?s (us_db st)" vid now ?s] assms(6) id by simp
  have g: "get_song sid (put_song ?s (us_db st)\<lparr>sd_versions := vs\<rparr>) = Some ?s" for vs
    using get_put_song [of sid ?s "us_db st"] id by (simp add: get_song_def)
  show ?thesis
    unfolding finalizeUpload_def assms(4,5) m
    using assms(3) by (simp add: Let_def merged_state_def send_job_def createInitialVersion_new [OF none] g v)
qed

text \<open>
  when a chunk is missing although the number of files matches, the merge fails and the chunks
  before the gap are gone from the disk: sending the missing chunk again cannot complete the upload.
\<close>

theorem failed_merge_loses_chunks:
  assumes "chunk_dir fid st = dir" and "distinct (map fst dir)" and "0 < i" and "i < length dir"
    and "\<forall>j<i. map_of dir j \<noteq> None" and "map_of dir i = None"
  shows "let (r, st') = mergeScanAndUpload env fid (int (length dir)) st
         in (\<exists>e. r = Inl e) \<and> us_s3 st' = us_s3 st \<and> chunk_dir fid st' = filter (\<lambda>p. i < fst p) dir \<and>
            (\<forall>c. \<exists>e. fst (mergeScanAndUpload env fid (int (length dir)) (saveChunk fid i c st')) = Inl e)"
proof -
  let ?rest = "filter (\<lambda>p. i < fst p) dir"
  have split: "[0..<length dir] = [0..<i] @ i # [Suc i..<length dir]"
    using assms(4) upt_add_eq_append [of 0 i "length dir - i"] by (simp add: upt_conv_Cons)
  have pre: "\<forall>j\<in>set [0..<i]. map_of dir j = Some (the (map_of dir j))" using assms(5) by auto
  have keep: "filter (\<lambda>p. fst p \<notin> set [0..<i]) dir = ?rest"
    using assms(6) by (intro filter_cong) (auto simp: map_of_eq_None_iff image_iff dest!: leI)
  have "merge_chunks [0..<length dir] dir [] =
      (Some (missing_chunk i), ?rest, concat (map (\<lambda>j. the (map_of dir j)) [0..<i]))"
    using merge_chunks_gap [OF distinct_upt pre assms(6), of "[Suc i..<length dir]" "[]"] unfolding split keep by simp
  then have m: "mergeScanAndUpload env fid (int (length dir)) st =
     (Inl (missing_chunk i),
      st\<lparr>us_temp := (us_temp st)(fid \<mapsto> ?rest), us_merged := (us_merged st)(fid \<mapsto> concat (map (\<lambda>j. the (map_of dir j)) [0..<i]))\<rparr>)"
    using assms(1) by (simp add: mergeScanAndUpload_def)
  have z: "[0..<length dir] = 0 # [1..<length dir]" using assms(4) by (intro upt_conv_Cons [THEN trans]) auto
  have "map_of (AList.update i c ?rest) 0 = None" for c
    using assms(3) by (auto simp: AList.update_conv' map_of_eq_None_iff)
  then have "merge_chunks [0..<length dir] (AList.update i c ?rest) [] =
      (Some (missing_chunk 0), AList.update i c ?rest, [])" for c
    by (simp add: z)
  then show ?thesis using m by (auto simp: mergeScanAndUpload_def chunk_dir_def saveChunk_def Let_def)
qed


text \<open>
  without a broker channel a complete upload fails after the song is stored: it stays in status
  processing with no job queued, it cannot be retried because only failed songs can, and finalizing
  again finds no chunks.
\<close>

theorem broker_outage_strands_upload:
  assumes "us_temp st fid = None" and "fst ` set saves = {..<n}" and "0 < n" and "\<not> us_channel st"
    and "fo_fileId opts = fid" and "fo_totalChunks opts = int n"
    and "scanFile (ue_provider env) (ue_scanner env) (assembled saves n) = Inr \<lparr>sc_clean = True, sc_threat = threat\<rparr>"
    and "ue_s3 env (audio_key fid) (assembled saves n) = Inr loc"
  shows "let (r, st1) = finalizeUpload env sid vid now opts (save_chunks fid saves st)
         in r = Inl no_channel_error \<and> get_song sid (us_db st1) = Some (uploaded_song sid now opts loc) \<and>
            us_queue st1 = us_queue st \<and>
            fst (retryFailedSong sid st1) = Inl (PlainErr ''Only failed songs can be retried'' None) \<and>
            (\<exists>msg. fst (finalizeUpload env' sid' vid' now' opts st1) = Inl (PlainErr msg None))"
proof -
  let ?s = "uploaded_song sid now opts loc"
  let ?st = "(merged_state fid (assembled saves n) st)\<lparr>us_s3 := (us_s3 st)(audio_key fid \<mapsto> assembled saves n)\<rparr>"
  let ?db = "snd (createInitialVersion vid now ?s (Some (fo_artistId opts)) (put_song ?s (us_db st)))"
  have m: "mergeScanAndUpload env fid (int n) (save_chunks fid saves st) = (Inr loc, ?st)"
    using assms(7,8) merge_complete [OF assms(1,2), of env] by (simp add: Let_def s3_put_Inr merged_state_def)
  have "sd_songs ?db = sd_songs (put_song ?s (us_db st))"
    by (simp add: createInitialVersion_def insert_version_def split: prod.split)
  then have g: "get_song sid ?db = Some ?s"
    using get_put_song [of sid ?s "us_db st"] by (simp add: get_song_def uploaded_song_def)
  have f: "finalizeUpload env sid vid now opts (save_chunks fid saves st) = (Inl no_channel_error, ?st\<lparr>us_db := ?db\<rparr>)"
    unfolding finalizeUpload_def assms(5,6) m using assms(4) by (simp add: Let_def merged_state_def send_job_def)
  have "\<exists>msg. fst (mergeScanAndUpload env' fid (int n) (?st\<lparr>us_db := ?db\<rparr>)) = Inl (PlainErr msg None)"
    using assms(1,3) by (simp add: mergeScanAndUpload_def chunk_dir_def merged_state_def)
  then have "\<exists>msg. fst (finalizeUpload env' sid' vid' now' opts (?st\<lparr>us_db := ?db\<rparr>)) = Inl (PlainErr msg None)"
    unfolding finalizeUpload_def assms(5,6) by (auto split: prod.split sum.split)
  moreover have "us_queue (?st\<lparr>us_db := ?db\<rparr>) = us_queue st" by (simp add: merged_state_def)
  moreover have "fst (retryFailedSong sid (?st\<lparr>us_db := ?db\<rparr>)) = Inl (PlainErr ''Only failed songs can be retried'' None)"
    using g by (simp add: retryFailedSong_def uploaded_song_def)
  ultimately show ?thesis using f g by (simp del: upload_state.update_convs)
qed

subsection \<open>What reaches the bucket\<close>

text \<open>The audio objects of the bucket after a step: those of before, or one the scan has passed.\<close>

definition passed_scan :: "upload_env \<Rightarrow> string \<Rightarrow> bool" where
  "passed_scan env body \<longleftrightarrow> (\<exists>r. scanFile (ue_provider env) (ue_scanner env) body = Inr r \<and> sc_clean r)"

lemma s3_put_stores:
  "us_s3 (snd (s3_put env key body st)) k = Some b \<Longrightarrow> us_s3 st k = Some b \<or> (k = key \<and> b = body)"
  by (auto simp: s3_put_def split: sum.splits if_splits)

lemma merge_stores:
  assumes "us_s3 (snd (mergeScanAndUpload env fid expected st)) k = Some b"
  shows "us_s3 st k = Some b \<or> passed_scan env b"
proof -
  obtain failed dir' body where m: "merge_chunks [0..<length (chunk_dir fid st)] (chunk_dir fid st) [] = (failed, dir', body)"
    by (cases "merge_chunks [0..<length (chunk_dir fid st)] (chunk_dir fid st) []")
  show ?thesis
    using assms m
    by (auto simp: mergeScanAndUpload_def Let_def passed_scan_def dest!: s3_put_stores
        split: if_splits option.splits sum.splits)
qed

lemma us_s3_send_job [simp]: "us_s3 (snd (send_job m st)) = us_s3 st"
  by (simp add: send_job_def)

lemma finalizeUpload_s3:
  "us_s3 (snd (finalizeUpload env sid vid now opts st)) =
   us_s3 (snd (mergeScanAndUpload env (fo_fileId opts) (fo_totalChunks opts) st))"
  by (auto simp: finalizeUpload_def send_job_def Let_def split: prod.split sum.split)

lemma finalizeReupload_s3:
  "us_s3 (snd (finalizeReupload env vid0 vid now sid fid expected aid changes st)) \<in>
   {us_s3 st, us_s3 (snd (mergeScanAndUpload env fid expected st))}"
  by (auto simp: finalizeReupload_def send_job_def Let_def split: prod.split sum.split option.split)

lemma audio_key_not_cover: "audio_key fid \<noteq> ''covers/'' @ rest"
  by (simp add: audio_key_def)

lemma upload_step_stores:
  assumes "us_s3 (upload_step (env, e) st) (audio_key fid) = Some b"
  shows "us_s3 st (audio_key fid) = Some b \<or> passed_scan env b"
proof (cases e)
  case (UO_cover fid' content)
  with assms audio_key_not_cover [of fid] show ?thesis by (auto simp: saveCover_def dest!: s3_put_stores)
next
  case (UO_finalize sid vid now opts)
  with assms show ?thesis by (auto simp: finalizeUpload_s3 dest: merge_stores)
next
  case (UO_reupload vid0 vid now sid fid' expected aid changes)
  with assms finalizeReupload_s3 [of env vid0 vid now sid fid' expected aid changes st] show ?thesis
    by (auto dest: merge_stores)
qed (use assms in \<open>auto simp: saveChunk_def retryFailedSong_def send_job_def Let_def split: option.splits if_splits\<close>)

text \<open>
  C9: over any run of uploads, re-uploads, retries and broker outages, every audio object in the bucket
  was there before or has passed the scan of the environment that stored it.
\<close>

theorem only_scanned_audio_is_stored:
  assumes "us_s3 (fold upload_step es st) (audio_key fid) = Some b"
  shows "us_s3 st (audio_key fid) = Some b \<or> (\<exists>env\<in>fst ` set es. passed_scan env b)"
  using assms
proof (induction es arbitrary: st)
  case (Cons e es)
  from Cons.IH [of "upload_step e st"] Cons.prems
  have "us_s3 (upload_step (fst e, snd e) st) (audio_key fid) = Some b \<or> (\<exists>env\<in>fst ` set es. passed_scan env b)" by simp
  then show ?case using upload_step_stores [of "fst e" "snd e" st fid b] by auto
qed simp


subsection \<open>Witnesses\<close>

definition start_state :: upload_state where
  "start_state = \<lparr>us_db = \<lparr>sd_songs = [], sd_versions = []\<rparr>, us_temp = Map.empty, us_merged = Map.empty,
     us_s3 = Map.empty, us_channel = True, us_queue = []\<rparr>"

definition clean_env :: upload_env where
  "clean_env = \<lparr>ue_provider = ''clamav'', ue_scanner = (\<lambda>c. Inr (''OK'', None)), ue_s3 = (\<lambda>k b. Inr ''loc'')\<rparr>"

definition infected_env :: upload_env where
  "infected_env = \<lparr>ue_provider = ''clamav'', ue_scanner = (\<lambda>c. Inr (''FOUND'', Some ''Eicar'')), ue_s3 = (\<lambda>k b. Inr ''loc'')\<rparr>"

definition two_chunks :: finalize_options where
  "two_chunks = \<lparr>fo_fileId = ''f1'', fo_totalChunks = 2, fo_title = ''T'', fo_artistId = ''a1'', fo_artistAddress = None,
     fo_description = ''d'', fo_genre = ''g'', fo_coverArtPath = ''c'', fo_composers = None\<rparr>"

text \<open>The chunks arrive in the order 1, 0 and the second one is sent twice.\<close>

definition out_of_order :: "(nat \<times> string) list" where
  "out_of_order = [(1, ''x''), (0, ''ab''), (1, ''cd'')]"

lemma out_of_order_ok: "fst ` set out_of_order = {..<2}" "assembled out_of_order 2 = ''abcd''"
  by (auto simp: out_of_order_def assembled_def numeral_2_eq_2)

lemma clean_scan: "scanFile (ue_provider clean_env) (ue_scanner clean_env) c = Inr \<lparr>sc_clean = True, sc_threat = None\<rparr>"
  by (simp add: scanFile_def clean_env_def)

theorem upload_assembles_chunks_witness:
  "us_s3 (snd (finalizeUpload clean_env ''s1'' ''v1'' 0 two_chunks (save_chunks ''f1'' out_of_order start_state))) (audio_key ''f1'') = Some ''abcd''"
proof -
  have "us_temp start_state ''f1'' = None" "us_channel start_state" "versions_of ''s1'' (us_db start_state) = []"
      "fo_fileId two_chunks = ''f1''" "fo_totalChunks two_chunks = int 2"
      "ue_s3 clean_env (audio_key ''f1'') (assembled out_of_order 2) = Inr ''loc''"
    by (simp_all add: start_state_def versions_of_def two_chunks_def clean_env_def)
  note upload_assembles_chunks [OF this(1) out_of_order_ok(1) this(2,4,5,3) clean_scan this(6), where vid = "''v1''" and now = 0]
  then show ?thesis by (auto simp: Let_def out_of_order_ok(2) split: prod.splits)
qed

definition gap_state :: upload_state where
  "gap_state = saveChunk ''f1'' 2 ''c'' (saveChunk ''f1'' 0 ''a'' start_state)"

theorem failed_merge_loses_chunks_witness:
  "chunk_dir ''f1'' (snd (mergeScanAndUpload clean_env ''f1'' 2 gap_state)) = [(2, ''c'')]"
proof -
  have d: "chunk_dir ''f1'' gap_state = [(0, ''a''), (2, ''c'')]"
    by (simp add: gap_state_def) (simp add: chunk_dir_def start_state_def)
  have "distinct (map fst [(0::nat, ''a''), (2, ''c'')])" "(0::nat) < 1" "1 < length [(0::nat, ''a''), (2, ''c'')]"
      "\<forall>j<1. map_of [(0::nat, ''a''), (2, ''c'')] j \<noteq> None" "map_of [(0::nat, ''a''), (2, ''c'')] 1 = None" by simp_all
  note failed_merge_loses_chunks [OF d this, of clean_env]
  then show ?thesis by (auto simp: Let_def split: prod.splits)
qed

theorem broker_outage_strands_upload_witness:
  "fst (finalizeUpload clean_env ''s1'' ''v1'' 0 two_chunks (save_chunks ''f1'' out_of_order (start_state\<lparr>us_channel := False\<rparr>))) = Inl no_channel_error"
proof -
  have "us_temp (start_state\<lparr>us_channel := False\<rparr>) ''f1'' = None" "0 < (2::nat)" "\<not> us_channel (start_state\<lparr>us_channel := False\<rparr>)"
      "fo_fileId two_chunks = ''f1''" "fo_totalChunks two_chunks = int 2"
      "ue_s3 clean_env (audio_key ''f1'') (assembled out_of_order 2) = Inr ''loc''"
    by (simp_all add: start_state_def two_chunks_def clean_env_def)
  note broker_outage_strands_upload [OF this(1) out_of_order_ok(1) this(2-5) clean_scan this(6), where sid = "''s1''"
     and vid = "''v1''" and now = 0 and env' = clean_env and sid' = "''s2''" and vid' = "''v2''" and now' = 1]
  then show ?thesis by (auto simp: Let_def split: prod.splits)
qed

theorem only_scanned_audio_is_stored_witness:
  "us_s3 (fold upload_step [(infected_env, UO_chunk ''f1'' 0 ''bad''),
      (infected_env, UO_finalize ''s1'' ''v1'' 0 (two_chunks\<lparr>fo_totalChunks := 1\<rparr>))] start_state) (audio_key ''f1'') = None"
proof (rule ccontr)
  assume "us_s3 (fold upload_step [(infected_env, UO_chunk ''f1'' 0 ''bad''),
      (infected_env, UO_finalize ''s1'' ''v1'' 0 (two_chunks\<lparr>fo_totalChunks := 1\<rparr>))] start_state) (audio_key ''f1'') \<noteq> None"
  then obtain b where "us_s3 (fold upload_step [(infected_env, UO_chunk ''f1'' 0 ''bad''),
      (infected_env, UO_finalize ''s1'' ''v1'' 0 (two_chunks\<lparr>fo_totalChunks := 1\<rparr>))] start_state) (audio_key ''f1'') = Some b" by blast
  from only_scanned_audio_is_stored [OF this] show False
    by (simp add: start_state_def passed_scan_def scanFile_def infected_env_def)
qed

end
