(* ===== verification/Song_Catalogue.thy ===== *)
theory Song_Catalogue
  imports Song_Uploads "HOL-Library.Multiset"
begin

text \<open>
  The operations on a stored song: editing, deleting, minting, flags, royalty templates, and the
  reads, from \<open>services/SongService.ts\<close>. The signed transaction's outcome, the similarity and the
  order of texts in the database, and the parsing of an S3 URL are parameters. Cache invalidation,
  metrics and the activity feed are left out.
\<close>

subsection \<open>State\<close>

record song_artist =
  ar_id :: ident
  ar_username :: "string option"
  ar_name :: "string option"
  ar_profileImage :: "string option"
  ar_stellarPublicKey :: "string option"

text \<open>\<open>ca_events\<close> are the webhook events published, each with its fields.\<close>

record catalogue_state =
  ca_up :: upload_state
  ca_artists :: "song_artist table"
  ca_templates :: "royalty_template table"
  ca_audit :: "audit_entry list"
  ca_events :: "(string \<times> (string \<times> string option) list) list"

abbreviation ca_db :: "catalogue_state \<Rightarrow> song_db" where
  "ca_db st \<equiv> us_db (ca_up st)"

definition with_db :: "song_db \<Rightarrow> catalogue_state \<Rightarrow> catalogue_state" where
  "with_db db st = st\<lparr>ca_up := (ca_up st)\<lparr>us_db := db\<rparr>\<rparr>"

definition save_entity :: "song_entity \<Rightarrow> catalogue_state \<Rightarrow> catalogue_state" where
  "save_entity s st = with_db (put_song s (ca_db st)) st"

definition find_entity :: "ident \<Rightarrow> catalogue_state \<Rightarrow> song_entity option" where
  "find_entity sid st = get_song sid (ca_db st)"

definition find_artist :: "ident \<Rightarrow> catalogue_state \<Rightarrow> song_artist option" where
  "find_artist uid st = tbl_find (\<lambda>a. ar_id a = uid) (ca_artists st)"

subsection \<open>Editing and deleting\<close>

definition getSong :: "ident \<Rightarrow> catalogue_state \<Rightarrow> js_error + song_entity" where
  "getSong sid st = (case find_entity sid st of
     None \<Rightarrow> Inl (AppErr (AE_notFound ''Song not found'' NoDetails None)) | Some s \<Rightarrow> Inr s)"

definition assertCanModify :: "song_entity \<Rightarrow> song_requester \<Rightarrow> js_error option" where
  "assertCanModify s rq =
     (if so_artistId s \<noteq> rq_id rq \<and> \<not> rq_is_admin rq
      then Some (err_authorization ''You can only modify your own songs'' ''NOT_SONG_OWNER'') else None)"

text \<open>The editable fields of a request; \<open>None\<close> is \<open>undefined\<close>.\<close>

record song_update =
  su_title :: "string option"
  su_description :: "string option"
  su_genreId :: "string option"
  su_composers :: "string option"
  su_lyrics :: "string option"
  su_language :: "string option"

text \<open>\<open>data[field] !== undefined && data[field] !== song[field]\<close> for the fields locked by a mint.\<close>

definition locked_fields :: "song_update \<Rightarrow> song_entity \<Rightarrow> string list" where
  "locked_fields d s =
     (if su_title d \<noteq> None \<and> su_title d \<noteq> Some (so_title s) then [''title''] else []) @
     (if su_description d \<noteq> None \<and> su_description d \<noteq> so_description s then [''description''] else []) @
     (if su_genreId d \<noteq> None \<and> su_genreId d \<noteq> so_genreId s then [''genreId''] else [])"

definition edited_song :: "song_update \<Rightarrow> song_entity \<Rightarrow> song_entity" where
  "edited_song d s =
     s\<lparr>so_title := (case su_title d of Some t \<Rightarrow> t | None \<Rightarrow> so_title s),
       so_description := or_other (su_description d) (so_description s),
       so_genreId := or_other (su_genreId d) (so_genreId s),
       so_composers := or_other (su_composers d) (so_composers s),
       so_lyrics := or_other (su_lyrics d) (so_lyrics s),
       so_language := or_other (su_language d) (so_language s)\<rparr>"

definition locked_error :: "string list \<Rightarrow> js_error" where
  "locked_error fs = AppErr (AE_conflict (''Cannot change '' @ join_with '', '' fs @ '' after the song is minted on-chain'')
     (OneDetail [(''fields'', DStrs fs)]) (Some ''SONG_FIELD_IMMUTABLE''))"

definition updateSong :: "ident \<Rightarrow> song_update \<Rightarrow> song_requester \<Rightarrow> (catalogue_state, song_entity) service" where
  "updateSong sid d rq st =
     (case getSong sid st of
        Inl e \<Rightarrow> (Inl e, st)
      | Inr s \<Rightarrow>
          (case assertCanModify s rq of
             Some e \<Rightarrow> (Inl e, st)
           | None \<Rightarrow>
               if so_mintStatus s = MS_MINTED \<and> locked_fields d s \<noteq> [] then (Inl (locked_error (locked_fields d s)), st)
               else (Inr (edited_song d s), save_entity (edited_song d s) st)))"

text \<open>
  Removing the stored files: \<open>key_of\<close> is \<open>s3KeyFromUrl\<close>; the flags say whether S3 accepts the deletion
  of the keys and the deletion of the prefix. A failure is caught.
\<close>

definition has_prefix :: "string \<Rightarrow> string \<Rightarrow> bool" where
  "has_prefix p k \<longleftrightarrow> take (length p) k = p"

definition deleteSongFiles ::
  "(string \<Rightarrow> string option) \<Rightarrow> bool \<Rightarrow> bool \<Rightarrow> ident \<Rightarrow> song_entity \<Rightarrow> upload_state \<Rightarrow> upload_state" where
  "deleteSongFiles key_of keys_ok prefix_ok sid s up =
     (if \<not> keys_ok then up
      else let urls = [so_s3OriginalUrl s, Some (so_coverArtPath s)] @
                 map (\<lambda>p. Some (snd p)) (case so_coverArtThumbnails s of None \<Rightarrow> [] | Some ts \<Rightarrow> ts);
               keys = List.map_filter (\<lambda>u. Option.bind u key_of) urls;
               b1 = (\<lambda>k. if k \<in> set keys then None else us_s3 up k) in
           up\<lparr>us_s3 := if prefix_ok
                 then (\<lambda>k. if has_prefix (''songs/'' @ sid @ ''/hls/'') k then None else b1 k) else b1\<rparr>)"

text \<open>The versions of a removed song go with it (\<open>onDelete: 'CASCADE'\<close>).\<close>

definition remove_song :: "ident \<Rightarrow> song_db \<Rightarrow> song_db" where
  "remove_song sid db =
     db\<lparr>sd_songs := tbl_delete (\<lambda>s. so_id s = sid) (sd_songs db),
        sd_versions := tbl_delete (\<lambda>v. sv_songId v = sid) (sd_versions db)\<rparr>"

record delete_result =
  dr_success :: bool
  dr_hidden :: bool

definition deleteSong ::
  "(string \<Rightarrow> string option) \<Rightarrow> bool \<Rightarrow> bool \<Rightarrow> timestamp \<Rightarrow> ident \<Rightarrow> song_requester \<Rightarrow> (catalogue_state, delete_result) service" where
  "deleteSong key_of keys_ok prefix_ok now sid rq st =
     (case getSong sid st of
        Inl e \<Rightarrow> (Inl e, st)
      | Inr s \<Rightarrow>
          (case assertCanModify s rq of
             Some e \<Rightarrow> (Inl e, st)
           | None \<Rightarrow>
               if so_mintStatus s = MS_MINTED \<or> so_mintStatus s = MS_PENDING
               then (Inr \<lparr>dr_success = True, dr_hidden = True\<rparr>,
                     save_entity (s\<lparr>so_flagged := True, so_flaggedAt := Some now, so_flaggedBy := Some (rq_id rq),
                       so_flagReason := Some ''Hidden by owner (song is minted on-chain)''\<rparr>) st)
               else (Inr \<lparr>dr_success = True, dr_hidden = False\<rparr>,
                     st\<lparr>ca_up := deleteSongFiles key_of keys_ok prefix_ok sid s
                           ((ca_up st)\<lparr>us_db := remove_song sid (ca_db st)\<rparr>)\<rparr>)))"

subsection \<open>Royalty templates\<close>

definition applyTemplate :: "ident \<Rightarrow> ident \<Rightarrow> ident \<Rightarrow> (catalogue_state, song_entity) service" where
  "applyTemplate sid tid uid st =
     (case find_entity sid st of
        None \<Rightarrow> (Inl (PlainErr ''Song not found'' (Some 404)), st)
      | Some s \<Rightarrow>
          if so_artistId s \<noteq> uid then (Inl (PlainErr ''Not authorized to modify this song'' (Some 403)), st)
          else if so_mintStatus s = MS_PENDING \<or> so_mintStatus s = MS_MINTED
          then (Inl (AppErr (AE_conflict ''Royalty splits cannot be changed after minting'' NoDetails None)), st)
          else (case find_template tid (ca_templates st) of
              None \<Rightarrow> (Inl (PlainErr ''Template not found'' (Some 404)), st)
            | Some t \<Rightarrow>
                if rt_userId t \<noteq> uid then (Inl (PlainErr ''Not authorized to use this template'' (Some 403)), st)
                else let s' = s\<lparr>so_royaltySplits := Some (rt_splits t)\<rparr> in (Inr s', save_entity s' st)))"

subsection \<open>Minting\<close>

record prepared_mint =
  pm_publicKey :: string
  pm_metadataCid :: string
  pm_albumId :: nat

text \<open>The invocation that is built; turning it into XDR is the Soroban client's.\<close>

definition prepareSongMintTx :: "ident \<Rightarrow> nat \<Rightarrow> catalogue_state \<Rightarrow> js_error + prepared_mint" where
  "prepareSongMintTx sid album st =
     (case find_entity sid st of
        None \<Rightarrow> Inl (PlainErr ''Song not found'' None)
      | Some s \<Rightarrow>
          if \<not> truthy (so_metadataCid s) then Inl (PlainErr ''Song has no metadata CID yet'' None)
          else let key = Option.bind (find_artist (so_artistId s) st) ar_stellarPublicKey in
            if \<not> truthy key then Inl (PlainErr ''Connect a Stellar wallet before minting this song'' None)
            else Inr \<lparr>pm_publicKey = the key, pm_metadataCid = the (so_metadataCid s), pm_albumId = album\<rparr>)"

text \<open>
  \<open>outcome\<close> is what \<open>submitSignedTransaction\<close> gives for the caller's XDR: an error, or the hash with the
  pair of ids the contract returned. A return value that is not a pair cannot be destructured and
  throws inside the \<open>try\<close>. \<open>published\<close> says how many of the two webhook publications go through.
\<close>

definition mint_events :: "song_entity \<Rightarrow> string \<Rightarrow> (string \<times> (string \<times> string option) list) list" where
  "mint_events s hash =
     [(''song.minted'', [(''songId'', Some (so_id s)), (''onChainSongId'', so_onChainSongId s),
         (''onChainTokenId'', so_onChainTokenId s), (''txHash'', Some hash), (''artistId'', Some (so_artistId s)),
         (''title'', Some (so_title s))]),
      (''mint_status_changed'', [(''songId'', Some (so_id s)), (''onChainSongId'', so_onChainSongId s),
         (''tokenId'', so_onChainTokenId s), (''txHash'', Some hash), (''previousStatus'', Some ''minting''),
         (''newStatus'', Some ''minted'')])]"

definition submitSongMintTx ::
  "ident \<Rightarrow> js_error + string \<times> (nat \<times> nat) option \<Rightarrow> nat \<Rightarrow> (catalogue_state, string \<times> string \<times> string) service" where
  "submitSongMintTx sid outcome published st =
     (case find_entity sid st of
        None \<Rightarrow> (Inl (PlainErr ''Song not found'' None), st)
      | Some s \<Rightarrow>
          (case (case outcome of
                   Inl e \<Rightarrow> Inl e
                 | Inr (hash, None) \<Rightarrow> Inl (PlainErr ''returnValue is not iterable'' None)
                 | Inr (hash, Some ids) \<Rightarrow> Inr (hash, ids)) of
             Inl e \<Rightarrow> (Inl e, save_entity (s\<lparr>so_mintStatus := MS_FAILED\<rparr>) st)
           | Inr (hash, chain_id, token) \<Rightarrow>
               let s' = s\<lparr>so_onChainSongId := Some (nat_str chain_id), so_onChainTokenId := Some (nat_str token),
                          so_mintStatus := MS_MINTED\<rparr>;
                   st' = save_entity s' st in
               (Inr (hash, nat_str chain_id, nat_str token),
                st'\<lparr>ca_events := ca_events st' @ take published (mint_events s' hash)\<rparr>)))"

subsection \<open>Flags\<close>

text \<open>The flag is saved before the audit entry, which the database refuses: it does not set \<open>user_id\<close>.\<close>

definition log_entry :: "audit_policy \<Rightarrow> audit_entry \<Rightarrow> catalogue_state \<Rightarrow> js_error option \<times> catalogue_state" where
  "log_entry refused a st =
     (case audit_refusal refused a of Some e \<Rightarrow> (Some e, st) | None \<Rightarrow> (None, st\<lparr>ca_audit := ca_audit st @ [a]\<rparr>))"

definition flagSong ::
  "audit_policy \<Rightarrow> timestamp \<Rightarrow> ident \<Rightarrow> ident \<Rightarrow> string option \<Rightarrow> (catalogue_state, song_entity) service" where
  "flagSong refused now sid admin reason st =
     (case find_entity sid st of
        None \<Rightarrow> (Inl (PlainErr ''Song not found'' None), st)
      | Some s \<Rightarrow>
          if so_flagged s then (Inl (PlainErr ''Song is already flagged'' None), st)
          else let s' = s\<lparr>so_flagged := True, so_flaggedAt := Some now, so_flaggedBy := Some admin,
                          so_flagReason := or_none reason\<rparr> in
            (case log_entry refused (DetailsEntry admin ''song_flag'' [(''songId'', sid), (''reason'', case or_none reason of None \<Rightarrow> ''null'' | Some r \<Rightarrow> r)])
                    (save_entity s' st) of
               (Some e, st') \<Rightarrow> (Inl e, st') | (None, st') \<Rightarrow> (Inr s', st')))"

definition unflagSong :: "audit_policy \<Rightarrow> ident \<Rightarrow> ident \<Rightarrow> (catalogue_state, song_entity) service" where
  "unflagSong refused sid admin st =
     (case find_entity sid st of
        None \<Rightarrow> (Inl (PlainErr ''Song not found'' None), st)
      | Some s \<Rightarrow>
          if \<not> so_flagged s then (Inl (PlainErr ''Song is not flagged'' None), st)
          else let s' = s\<lparr>so_flagged := False, so_flaggedAt := None, so_flaggedBy := None, so_flagReason := None\<rparr> in
            (case log_entry refused (DetailsEntry admin ''song_unflag'' [(''songId'', sid)]) (save_entity s' st) of
               (Some e, st') \<Rightarrow> (Inl e, st') | (None, st') \<Rightarrow> (Inr s', st')))"


subsection \<open>Reading a song\<close>

text \<open>The client-facing shape; \<open>vw_errorReason\<close> is \<open>None\<close> when the field is absent.\<close>

record song_view =
  vw_id :: ident
  vw_title :: string
  vw_description :: "string option"
  vw_artist :: "(ident \<times> string option \<times> string option \<times> string option) option"
  vw_cover :: "string \<times> (string \<times> string) list option"
  vw_genre :: "string option"
  vw_genreId :: "string option"
  vw_duration :: "int option"
  vw_playCount :: nat
  vw_status :: song_status
  vw_mintStatus :: mint_status
  vw_onChain :: "string option \<times> string option"
  vw_createdAt :: timestamp
  vw_errorReason :: "string option option"

definition toSongView :: "song_entity \<Rightarrow> song_artist option \<Rightarrow> bool \<Rightarrow> song_view" where
  "toSongView s artist isOwner =
     \<lparr>vw_id = so_id s, vw_title = so_title s, vw_description = so_description s,
      vw_artist = map_option (\<lambda>a. (ar_id a, ar_username a, ar_name a, ar_profileImage a)) artist,
      vw_cover = (so_coverArtPath s, so_coverArtThumbnails s), vw_genre = so_genre s,
      vw_genreId = so_genreId s, vw_duration = so_duration s, vw_playCount = so_playCount s,
      vw_status = so_status s, vw_mintStatus = so_mintStatus s,
      vw_onChain = (so_onChainSongId s, so_onChainTokenId s), vw_createdAt = so_createdAt s,
      vw_errorReason = (if isOwner then Some (so_errorReason s) else None)\<rparr>"

text \<open>
  \<open>uuid_ok\<close> is the verdict of \<open>validateUUID\<close>, which the source file calls without importing it.
\<close>

definition published :: "song_entity \<Rightarrow> bool" where
  "published s \<longleftrightarrow> so_status s = ST_READY \<and> \<not> so_flagged s"

definition getSongView :: "bool \<Rightarrow> ident \<Rightarrow> ident option \<Rightarrow> catalogue_state \<Rightarrow> js_error + song_view" where
  "getSongView uuid_ok sid viewer st =
     (if \<not> uuid_ok then Inl (AppErr (AE_validation ''id must be a valid UUID''
         (OneDetail [(''field'', DStr ''id''), (''value'', DStr sid)]) None))
      else (case find_entity sid st of
          None \<Rightarrow> Inl (AppErr (AE_notFound ''Song not found'' NoDetails None))
        | Some s \<Rightarrow>
            let isOwner = (truthy viewer \<and> viewer = Some (so_artistId s)) in
            if \<not> isOwner \<and> (so_status s \<noteq> ST_READY \<or> so_flagged s)
            then Inl (AppErr (AE_notFound ''Song not found'' NoDetails None))
            else Inr (toSongView s (find_artist (so_artistId s) st) isOwner)))"

datatype song_sort = SS_NEWEST | SS_POPULAR | SS_TITLE

record song_query =
  sq_page :: "nat option"
  sq_limit :: "nat option"
  sq_artistId :: "ident option"
  sq_genreId :: "ident option"
  sq_tag :: "string option"
  sq_mintStatus :: "mint_status option"
  sq_sort :: "song_sort option"
  sq_status :: "song_status option"

text \<open>An optional filter: absent or empty strings do not restrict.\<close>

definition filter_by :: "string option \<Rightarrow> string option \<Rightarrow> bool" where
  "filter_by wanted col \<longleftrightarrow> \<not> truthy wanted \<or> col = wanted"

definition query_matches :: "(string \<Rightarrow> ident \<Rightarrow> bool) \<Rightarrow> bool \<Rightarrow> song_query \<Rightarrow> song_entity \<Rightarrow> bool" where
  "query_matches tagged isOwner q s \<longleftrightarrow>
     (if \<not> isOwner then published s else (case sq_status q of None \<Rightarrow> True | Some t \<Rightarrow> so_status s = t)) \<and>
     filter_by (sq_artistId q) (Some (so_artistId s)) \<and> filter_by (sq_genreId q) (so_genreId s) \<and>
     (case sq_mintStatus q of None \<Rightarrow> True | Some m \<Rightarrow> so_mintStatus s = m) \<and>
     (truthy (sq_tag q) \<longrightarrow> tagged (ascii_lower (the (sq_tag q))) (so_id s))"

text \<open>\<open>text_rank\<close> is the position of a text in the order of the database.\<close>

definition sort_songs :: "(string \<Rightarrow> nat) \<Rightarrow> song_sort option \<Rightarrow> song_entity list \<Rightarrow> song_entity list" where
  "sort_songs text_rank srt ss =
     (let by_id = sort_key (\<lambda>s. text_rank (so_id s)) ss in
      case srt of
        Some SS_POPULAR \<Rightarrow> sort_key (\<lambda>s. - int (so_playCount s)) by_id
      | Some SS_TITLE \<Rightarrow> sort_key (\<lambda>s. text_rank (so_title s)) by_id
      | _ \<Rightarrow> sort_key (\<lambda>s. - so_createdAt s) by_id)"

record 'a song_page =
  pg_data :: "'a list"
  pg_page :: nat
  pg_limit :: nat
  pg_total :: nat
  pg_totalPages :: nat
  pg_hasMore :: bool

text \<open>\<open>skip\<close> and \<open>take\<close>, and \<open>paginatedResponse\<close>.\<close>

definition page_slice :: "nat \<Rightarrow> nat \<Rightarrow> 'a list \<Rightarrow> 'a list" where
  "page_slice p l xs = take l (drop ((p - 1) * l) xs)"

definition paginatedResponse :: "'a list \<Rightarrow> nat \<Rightarrow> nat \<Rightarrow> nat \<Rightarrow> 'a song_page" where
  "paginatedResponse items num p l =
     (let pages = max 1 (nat (ceil_div (int num) (int l))) in
      \<lparr>pg_data = items, pg_page = p, pg_limit = l, pg_total = num, pg_totalPages = pages, pg_hasMore = p < pages\<rparr>)"

definition listSongs ::
  "(string \<Rightarrow> ident \<Rightarrow> bool) \<Rightarrow> (string \<Rightarrow> nat) \<Rightarrow> song_query \<Rightarrow> ident option \<Rightarrow> catalogue_state \<Rightarrow> js_error + song_view song_page" where
  "listSongs tagged text_rank q viewer st =
     (let p = (case sq_page q of None \<Rightarrow> 1 | Some n \<Rightarrow> n); l = (case sq_limit q of None \<Rightarrow> 20 | Some n \<Rightarrow> n);
          isOwner = (truthy viewer \<and> sq_artistId q = viewer) in
      if sq_status q \<noteq> None \<and> \<not> isOwner
      then Inl (AppErr (AE_authorization ''The status filter is only available for your own songs'' NoDetails None))
      else let found = sort_songs text_rank (sq_sort q) (filter (query_matches tagged isOwner q) (sd_songs (ca_db st)))
           in Inr (paginatedResponse
                (map (\<lambda>s. toSongView s (find_artist (so_artistId s) st) isOwner) (page_slice p l found))
                (length found) p l))"

subsection \<open>Search\<close>

text \<open>
  SQL's \<open>ILIKE\<close>: \<open>%\<close> stands for any text, \<open>_\<close> for one character and a backslash takes the next one
  literally. ASCII letters are compared without case, other characters as they are, where Postgres folds
  them too. Both arguments are lower case already.
\<close>

fun like :: "string \<Rightarrow> string \<Rightarrow> bool" where
  "like [] t \<longleftrightarrow> t = []"
| "like (c # p) [] \<longleftrightarrow> c = CHR ''%'' \<and> like p []"
| "like (c # p) (d # t) \<longleftrightarrow>
     (if c = CHR ''%'' then like p (d # t) \<or> like (c # p) t
      else if c = CHR ''_'' then like p t
      else if c = CHR 0x5C then (case p of [] \<Rightarrow> False | e # p' \<Rightarrow> d = e \<and> like p' t)
      else d = c \<and> like p t)"

definition ilike :: "string option \<Rightarrow> string \<Rightarrow> bool" where
  "ilike col pat = (case col of None \<Rightarrow> False | Some t \<Rightarrow> like (ascii_lower pat) (ascii_lower t))"

text \<open>\<open>like\<close>, \<open>exact\<close> and \<open>prefix\<close> of the query; the term is not escaped.\<close>

definition contains_pattern :: "string \<Rightarrow> string" where
  "contains_pattern t = ''%'' @ t @ ''%''"

definition prefix_pattern :: "string \<Rightarrow> string" where
  "prefix_pattern t = t @ ''%''"

definition search_matches :: "string \<Rightarrow> song_entity \<Rightarrow> song_artist option \<Rightarrow> bool" where
  "search_matches t s artist \<longleftrightarrow>
     (let pat = contains_pattern t; an = Option.bind artist ar_name; au = Option.bind artist ar_username in
      ilike (Some (so_title s)) pat \<or> ilike (so_genre s) pat \<or> ilike (so_composers s) pat \<or>
      ilike (so_description s) pat \<or> ilike an pat \<or> ilike au pat)"

definition relevance :: "string \<Rightarrow> song_entity \<Rightarrow> song_artist option \<Rightarrow> nat" where
  "relevance t s artist =
     (let pat = contains_pattern t; pre = prefix_pattern t; ti = Some (so_title s);
          an = Option.bind artist ar_name; au = Option.bind artist ar_username in
      if ilike ti t then 100 else if ilike ti pre then 70 else if ilike ti pat then 40
      else if ilike an t then 90 else if ilike an pre then 60 else if ilike an pat then 30
      else if ilike au t then 85 else if ilike au pre then 55 else if ilike au pat then 25
      else if ilike (so_genre s) pat then 15 else 10)"

record search_page =
  sp_songs :: "song_entity list"
  sp_total :: nat
  sp_page :: nat
  sp_limit :: nat
  sp_totalPages :: nat

definition safe_limit_100 :: "int \<Rightarrow> nat" where
  "safe_limit_100 l = nat (min (max 1 l) 100)"

definition paged :: "int \<Rightarrow> int \<Rightarrow> song_entity list \<Rightarrow> search_page" where
  "paged p l found =
     (let sp = page_number p; sl = safe_limit_100 l in
      \<lparr>sp_songs = page_slice sp sl found, sp_total = length found, sp_page = sp, sp_limit = sl,
       sp_totalPages = nat (ceil_div (int (length found)) (int sl))\<rparr>)"

text \<open>
  \<open>sim\<close> is the greater trigram similarity of title and artist name to the term. The rows are ordered
  by relevance, similarity and play count, each descending; rows that agree in all three keep one order,
  which the query itself does not fix.
\<close>

definition search_results ::
  "(string \<Rightarrow> song_entity \<Rightarrow> song_artist option \<Rightarrow> rat) \<Rightarrow> string \<Rightarrow> catalogue_state \<Rightarrow> song_entity list" where
  "search_results sim t st =
     (let artist = (\<lambda>s. find_artist (so_artistId s) st) in
      sort_key (\<lambda>s. - int (relevance t s (artist s)))
        (sort_key (\<lambda>s. - sim t s (artist s))
          (sort_key (\<lambda>s. - int (so_playCount s))
            (filter (\<lambda>s. published s \<and> search_matches t s (artist s)) (sd_songs (ca_db st))))))"

definition searchSongs ::
  "(string \<Rightarrow> song_entity \<Rightarrow> song_artist option \<Rightarrow> rat) \<Rightarrow> string \<Rightarrow> int \<Rightarrow> int \<Rightarrow> catalogue_state \<Rightarrow> search_page" where
  "searchSongs sim query p l st =
     (let t = js_trim query in
      if length t < 2
      then \<lparr>sp_songs = [], sp_total = 0, sp_page = page_number p, sp_limit = safe_limit_100 l, sp_totalPages = 0\<rparr>
      else paged p l (search_results sim t st))"

datatype genre_sort = GS_NEWEST | GS_MOST_PLAYED | GS_ALPHABETICAL

definition genre_order :: "(string \<Rightarrow> nat) \<Rightarrow> genre_sort option \<Rightarrow> song_entity list \<Rightarrow> song_entity list" where
  "genre_order text_rank g ss =
     (case g of
        Some GS_MOST_PLAYED \<Rightarrow> sort_key (\<lambda>s. - int (so_playCount s)) ss
      | Some GS_ALPHABETICAL \<Rightarrow> sort_key (\<lambda>s. text_rank (so_title s)) ss
      | _ \<Rightarrow> sort_key (\<lambda>s. - so_createdAt s) ss)"

text \<open>\<open>None\<close> stands for a sort that is not in the map.\<close>

definition getSongsByGenre ::
  "(string \<Rightarrow> nat) \<Rightarrow> ident \<Rightarrow> int \<Rightarrow> int \<Rightarrow> genre_sort option \<Rightarrow> catalogue_state \<Rightarrow> search_page" where
  "getSongsByGenre text_rank gid p l g st =
     paged p l (genre_order text_rank g (filter (\<lambda>s. so_genreId s = Some gid \<and> published s) (sd_songs (ca_db st))))"

text \<open>\<open>getPopularSongs\<close> of the controller filters by status only.\<close>

definition getPopularSongs :: "nat \<Rightarrow> nat \<Rightarrow> catalogue_state \<Rightarrow> song_entity list" where
  "getPopularSongs p l st =
     page_slice p l (sort_key (\<lambda>s. - int (so_playCount s)) (filter (\<lambda>s. so_status s = ST_READY) (sd_songs (ca_db st))))"

definition getLyrics :: "ident \<Rightarrow> catalogue_state \<Rightarrow> js_error + string \<times> string option" where
  "getLyrics sid st =
     (case find_entity sid st of
        None \<Rightarrow> Inl song_missing
      | Some s \<Rightarrow>
          if \<not> truthy (so_lyrics s) \<or> so_lyricsRightsConfirmedAt s = None
          then Inl (err_notFound ''Lyrics not found for this song'' ''LYRICS_NOT_FOUND'')
          else Inr (the (so_lyrics s), or_none (so_language s)))"


subsection \<open>Runs\<close>

text \<open>The requests on stored songs; an upload operation carries its environment.\<close>

datatype catalogue_op =
    CA_update ident song_update song_requester
  | CA_delete "string \<Rightarrow> string option" bool bool timestamp ident song_requester
  | CA_template ident ident ident
  | CA_flag audit_policy timestamp ident ident "string option"
  | CA_unflag audit_policy ident ident
  | CA_mint ident "js_error + string \<times> (nat \<times> nat) option" nat
  | CA_upload upload_env upload_op
  | CA_rollback ident timestamp ident "int option" ident "string option"

fun catalogue_step :: "catalogue_op \<Rightarrow> catalogue_state \<Rightarrow> catalogue_state" where
  "catalogue_step (CA_update sid d rq) st = snd (updateSong sid d rq st)"
| "catalogue_step (CA_delete key_of ok1 ok2 now sid rq) st = snd (deleteSong key_of ok1 ok2 now sid rq st)"
| "catalogue_step (CA_template sid tid uid) st = snd (applyTemplate sid tid uid st)"
| "catalogue_step (CA_flag refused now sid admin reason) st = snd (flagSong refused now sid admin reason st)"
| "catalogue_step (CA_unflag refused sid admin) st = snd (unflagSong refused sid admin st)"
| "catalogue_step (CA_mint sid outcome n) st = snd (submitSongMintTx sid outcome n st)"
| "catalogue_step (CA_upload env e) st = st\<lparr>ca_up := upload_step (env, e) (ca_up st)\<rparr>"
| "catalogue_step (CA_rollback vid now sid target aid note_text) st =
     with_db (snd (rollbackVersion vid now sid target aid note_text (ca_db st))) st"

lemma find_entity_save [simp]:
  "find_entity k (save_entity s st) = (if k = so_id s then Some s else find_entity k st)"
  by (simp add: find_entity_def save_entity_def with_db_def get_put_song)

lemma find_entity_id: "find_entity sid st = Some s \<Longrightarrow> so_id s = sid"
  by (simp add: find_entity_def get_song_id)

lemma find_entity_audit [simp]: "find_entity k (snd (log_entry refused a st)) = find_entity k st"
  by (simp add: log_entry_def find_entity_def split: option.split)

lemma edited_song_id [simp]: "so_id (edited_song d s) = so_id s" "so_artistId (edited_song d s) = so_artistId s"
    "so_mintStatus (edited_song d s) = so_mintStatus s" "so_status (edited_song d s) = so_status s"
  by (simp_all add: edited_song_def)

lemma getSong_Inr: "getSong sid st = Inr s \<longleftrightarrow> find_entity sid st = Some s"
  by (simp add: getSong_def split: option.split)

lemma logged_snd:
  "snd (case log_entry refused a st of (Some e, st') \<Rightarrow> (Inl e, st') | (None, st') \<Rightarrow> (Inr y, st')) = snd (log_entry refused a st)"
  by (simp split: prod.split option.split)

subsection \<open>The lock on a minted song\<close>

text \<open>What an edit, a deletion, a template or a flag leaves of a minted song.\<close>

definition same_token :: "song_entity \<Rightarrow> song_entity \<Rightarrow> bool" where
  "same_token s s' \<longleftrightarrow> so_title s' = so_title s \<and> so_description s' = so_description s \<and> so_genreId s' = so_genreId s \<and>
     so_mintStatus s' = so_mintStatus s \<and> so_onChainSongId s' = so_onChainSongId s \<and> so_onChainTokenId s' = so_onChainTokenId s"

fun owner_request :: "catalogue_op \<Rightarrow> bool" where
  "owner_request (CA_mint sid outcome n) = False"
| "owner_request (CA_upload env e) = False"
| "owner_request (CA_rollback vid now sid target aid note_text) = False"
| "owner_request _ = True"

lemma edited_same_token: "locked_fields d s = [] \<Longrightarrow> same_token s (edited_song d s)"
  by (auto simp: locked_fields_def same_token_def edited_song_def or_other_def split: if_splits option.splits)

definition still_minted :: "ident \<Rightarrow> song_entity \<Rightarrow> catalogue_state \<Rightarrow> bool" where
  "still_minted sid s st \<longleftrightarrow> (\<exists>s'. find_entity sid st = Some s' \<and> same_token s s')"

lemma still_minted_save:
  "still_minted sid s st \<Longrightarrow> (so_id x = sid \<Longrightarrow> same_token s x) \<Longrightarrow> still_minted sid s (save_entity x st)"
  by (simp add: still_minted_def)

lemma still_minted_remove:
  assumes "still_minted sid s st" and "k \<noteq> sid"
  shows "still_minted sid s (st\<lparr>ca_up := deleteSongFiles f a b k x ((ca_up st)\<lparr>us_db := remove_song k (ca_db st)\<rparr>)\<rparr>)"
proof -
  have "get_song sid (remove_song k db) = get_song sid db" for db
    using assms(2) unfolding get_song_def remove_song_def by (simp add: tbl_find_delete_other)
  then show ?thesis using assms(1) by (simp add: still_minted_def find_entity_def deleteSongFiles_def Let_def)
qed

lemma same_token_flags [simp]:
  "same_token s (s'\<lparr>so_flagged := a, so_flaggedAt := b, so_flaggedBy := c, so_flagReason := e\<rparr>) = same_token s s'"
  "same_token s (s'\<lparr>so_royaltySplits := r\<rparr>) = same_token s s'"
  by (simp_all add: same_token_def)

lemma still_minted_audit [simp]: "still_minted sid s (snd (log_entry refused a st)) = still_minted sid s st"
  by (simp add: still_minted_def)

lemma same_token_trans: "same_token a b \<Longrightarrow> same_token b c \<Longrightarrow> same_token a c"
  by (simp add: same_token_def)

lemma owner_request_keeps_token:
  assumes "owner_request e" and "so_mintStatus s = MS_MINTED" and "still_minted sid s st"
  shows "still_minted sid s (catalogue_step e st)"
proof -
  have same: "same_token s s'" if "find_entity k st = Some s'" "k = sid" for k s'
    using assms(3) that by (auto simp: still_minted_def)
  show ?thesis
  proof (cases e)
    case (CA_update k d rq)
    show ?thesis
    proof (cases "find_entity k st")
      case (Some s')
      have "same_token s (edited_song d s')" if "k = sid" "\<not> (so_mintStatus s' = MS_MINTED \<and> locked_fields d s' \<noteq> [])"
      proof -
        have "same_token s s'" by (rule same [OF Some that(1)])
        with that(2) assms(2) have "locked_fields d s' = []" by (auto simp: same_token_def)
        from edited_same_token [OF this] \<open>same_token s s'\<close> show ?thesis by (rule same_token_trans [rotated])
      qed
      with Some assms(3) show ?thesis
        by (auto simp: CA_update updateSong_def getSong_def find_entity_id [OF Some] split: option.split intro!: still_minted_save)
    qed (use assms(3) in \<open>simp add: CA_update updateSong_def getSong_def\<close>)
  next
    case (CA_delete f a b now k rq)
    show ?thesis
    proof (cases "find_entity k st")
      case (Some s')
      have "k \<noteq> sid" if "\<not> (so_mintStatus s' = MS_MINTED \<or> so_mintStatus s' = MS_PENDING)"
        using same [OF Some] that assms(2) by (auto simp: same_token_def)
      with Some assms(3) same [OF Some] show ?thesis
        by (auto simp: CA_delete deleteSong_def getSong_def find_entity_id [OF Some] split: option.split
            intro!: still_minted_save still_minted_remove)
    qed (use assms(3) in \<open>simp add: CA_delete deleteSong_def getSong_def\<close>)
  next
    case (CA_template k tid uid)
    with assms(3) same show ?thesis
      by (auto simp: applyTemplate_def Let_def find_entity_id split: option.split intro!: still_minted_save)
  next
    case (CA_flag refused now k admin reason)
    with assms(3) same show ?thesis
      by (auto simp: flagSong_def Let_def find_entity_id logged_snd split: option.split intro!: still_minted_save)
  next
    case (CA_unflag refused k admin)
    with assms(3) same show ?thesis
      by (auto simp: unflagSong_def Let_def find_entity_id logged_snd split: option.split intro!: still_minted_save)
  qed (use assms(1) in simp_all)
qed

text \<open>
  no sequence of edits, deletions, template applications and flags, by whoever, removes a minted
  song or changes its title, description, genre id, mint status or on-chain ids.
\<close>

theorem minted_song_is_locked:
  assumes "find_entity sid st = Some s" and "so_mintStatus s = MS_MINTED" and "\<forall>e\<in>set es. owner_request e"
  shows "\<exists>s'. find_entity sid (fold catalogue_step es st) = Some s' \<and> same_token s s'"
proof -
  have "still_minted sid s st" using assms(1) by (simp add: still_minted_def same_token_def)
  then have "still_minted sid s (fold catalogue_step es st)"
    using assms(3) by (induction es arbitrary: st) (simp_all add: owner_request_keeps_token [OF _ assms(2)])
  then show ?thesis by (simp add: still_minted_def)
qed

text \<open>
  C8: submitting a transaction that fails, which takes no proof of ownership, turns a minted song into
  one whose mint failed. Its owner can then change every locked field, and deleting it removes the
  row and its whole history instead of hiding it.
\<close>

theorem failed_submission_lifts_lock:
  assumes "find_entity sid st = Some s" and "assertCanModify s rq = None"
  shows "let st1 = snd (submitSongMintTx sid (Inl e) n st) in
     find_entity sid st1 = Some (s\<lparr>so_mintStatus := MS_FAILED\<rparr>) \<and>
     updateSong sid d rq st1 = (Inr (edited_song d (s\<lparr>so_mintStatus := MS_FAILED\<rparr>)),
        save_entity (edited_song d (s\<lparr>so_mintStatus := MS_FAILED\<rparr>)) st1) \<and>
     (\<forall>key_of ok1 ok2 now. let res = deleteSong key_of ok1 ok2 now sid rq st1 in
        fst res = Inr \<lparr>dr_success = True, dr_hidden = False\<rparr> \<and> find_entity sid (snd res) = None \<and>
        versions_of sid (ca_db (snd res)) = [])"
proof -
  have id: "so_id s = sid" using assms(1) by (rule find_entity_id)
  let ?s = "s\<lparr>so_mintStatus := MS_FAILED\<rparr>"
  have sub: "snd (submitSongMintTx sid (Inl e) n st) = save_entity ?s st" using assms(1) by (simp add: submitSongMintTx_def)
  have f: "find_entity sid (save_entity ?s st) = Some ?s" by (simp add: id)
  have m: "assertCanModify ?s rq = None" using assms(2) by (simp add: assertCanModify_def split: if_splits)
  have "get_song sid (remove_song sid db) = None" for db
    by (simp add: get_song_def remove_song_def tbl_simps)
  moreover have "versions_of sid (remove_song sid db) = []" for db
    by (simp add: remove_song_def versions_of_def tbl_delete_def)
  ultimately show ?thesis
    unfolding Let_def sub using f m
    by (simp add: updateSong_def deleteSong_def getSong_def find_entity_def deleteSongFiles_def Let_def)
qed


subsection \<open>What the public sees\<close>

lemma set_page_slice: "set (page_slice p l xs) \<subseteq> set xs"
  unfolding page_slice_def by (meson order_trans set_drop_subset set_take_subset)

lemma set_sort_songs [simp]: "set (sort_songs r g ss) = set ss"
  by (auto simp: sort_songs_def Let_def split: option.split song_sort.split)

lemma set_genre_order [simp]: "set (genre_order r g ss) = set ss"
  by (auto simp: genre_order_def split: option.split genre_sort.split)

lemma set_search_results:
  "set (search_results sim t st) =
     {s \<in> set (sd_songs (ca_db st)). published s \<and> search_matches t s (find_artist (so_artistId s) st)}"
  by (auto simp: search_results_def Let_def)

lemma paged_subset: "set (sp_songs (paged p l found)) \<subseteq> set found"
  by (simp add: paged_def Let_def set_page_slice)

text \<open>
  a caller who is not the artist sees only songs that are ready and not flagged, and never an error
  reason: through the single-song read, the listing, the search and the browsing by genre.
\<close>

theorem public_reads_show_published_only:
  "(\<forall>v s. getSongView ok sid viewer st = Inr v \<and> find_entity sid st = Some s \<and> viewer \<noteq> Some (so_artistId s) \<longrightarrow>
      published s \<and> vw_errorReason v = None) \<and>
   (\<forall>page. listSongs tagged text_rank q viewer st = Inr page \<and> \<not> (truthy viewer \<and> sq_artistId q = viewer) \<longrightarrow>
      (\<forall>v\<in>set (pg_data page). vw_errorReason v = None \<and>
         (\<exists>s\<in>set (sd_songs (ca_db st)). published s \<and> vw_id v = so_id s))) \<and>
   (\<forall>s\<in>set (sp_songs (searchSongs sim query p l st)). published s) \<and>
   (\<forall>s\<in>set (sp_songs (getSongsByGenre text_rank gid p l g st)). published s \<and> so_genreId s = Some gid)"
proof (intro conjI)
  show "\<forall>v s. getSongView ok sid viewer st = Inr v \<and> find_entity sid st = Some s \<and> viewer \<noteq> Some (so_artistId s) \<longrightarrow>
      published s \<and> vw_errorReason v = None"
    by (auto simp: getSongView_def published_def toSongView_def split: if_splits)
  show "\<forall>page. listSongs tagged text_rank q viewer st = Inr page \<and> \<not> (truthy viewer \<and> sq_artistId q = viewer) \<longrightarrow>
      (\<forall>v\<in>set (pg_data page). vw_errorReason v = None \<and>
         (\<exists>s\<in>set (sd_songs (ca_db st)). published s \<and> vw_id v = so_id s))"
  proof (intro allI impI ballI)
    fix page v
    assume l: "listSongs tagged text_rank q viewer st = Inr page \<and> \<not> (truthy viewer \<and> sq_artistId q = viewer)"
      and v: "v \<in> set (pg_data page)"
    let ?found = "sort_songs text_rank (sq_sort q) (filter (query_matches tagged False q) (sd_songs (ca_db st)))"
    have "pg_data page = map (\<lambda>s. toSongView s (find_artist (so_artistId s) st) False)
        (page_slice (case sq_page q of None \<Rightarrow> 1 | Some n \<Rightarrow> n) (case sq_limit q of None \<Rightarrow> 20 | Some n \<Rightarrow> n) ?found)"
      using l by (auto simp: listSongs_def Let_def paginatedResponse_def split: if_splits)
    with v obtain s where "s \<in> set ?found" "v = toSongView s (find_artist (so_artistId s) st) False"
      using set_page_slice by fastforce
    then show "vw_errorReason v = None \<and> (\<exists>s\<in>set (sd_songs (ca_db st)). published s \<and> vw_id v = so_id s)"
      by (auto simp: toSongView_def query_matches_def)
  qed
  show "\<forall>s\<in>set (sp_songs (searchSongs sim query p l st)). published s"
    using paged_subset [of p l "search_results sim (js_trim query) st"]
    by (auto simp: searchSongs_def Let_def set_search_results)
  show "\<forall>s\<in>set (sp_songs (getSongsByGenre text_rank gid p l g st)). published s \<and> so_genreId s = Some gid"
    using paged_subset [of p l "genre_order text_rank g (filter (\<lambda>s. so_genreId s = Some gid \<and> published s) (sd_songs (ca_db st)))"]
    by (auto simp: getSongsByGenre_def)
qed

subsection \<open>What a search finds\<close>
















text \<open>The pattern characters are not escaped: \<open>%%\<close> finds every published song.\<close>

lemma percent_finds_everything:
  "set (search_results sim ''%%'' st) = {s \<in> set (sd_songs (ca_db st)). published s}"
proof -
  have "like ''%%%%'' x" for x by (induction x) simp_all
  then have "ilike (Some x) (contains_pattern ''%%'')" for x
    by (simp add: ilike_def contains_pattern_def ascii_lower_def)
  then show ?thesis by (auto simp: set_search_results search_matches_def Let_def)
qed

subsection \<open>Witnesses\<close>

definition minted_state :: catalogue_state where
  "minted_state = \<lparr>ca_up = start_state\<lparr>us_db := song_db1\<rparr>, ca_artists = [\<lparr>ar_id = ''a1'', ar_username = Some ''joe'',
     ar_name = Some ''Joe'', ar_profileImage = None, ar_stellarPublicKey = Some ''G''\<rparr>], ca_templates = [], ca_audit = [], ca_events = []\<rparr>"

definition rename_song :: song_update where
  "rename_song = \<lparr>su_title = Some ''Other'', su_description = None, su_genreId = None, su_composers = None, su_lyrics = None, su_language = None\<rparr>"

abbreviation artist1 :: song_requester where "artist1 \<equiv> \<lparr>rq_id = ''a1'', rq_is_admin = False\<rparr>"

lemma minted_state_song: "find_entity ''s1'' minted_state = Some song1"
  using song_db1_song by (simp add: find_entity_def minted_state_def)

theorem minted_song_is_locked_witness:
  "\<exists>s'. find_entity ''s1'' (fold catalogue_step [CA_update ''s1'' rename_song artist1,
      CA_delete (\<lambda>_. None) True True 5 ''s1'' artist1] minted_state) = Some s' \<and> same_token song1 s'"
proof (rule minted_song_is_locked [OF minted_state_song])
  show "so_mintStatus song1 = MS_MINTED" by (simp add: song1_def)
qed simp

theorem failed_submission_lifts_lock_witness:
  "find_entity ''s1'' (snd (deleteSong (\<lambda>_. None) True True 5 ''s1'' artist1
      (snd (submitSongMintTx ''s1'' (Inl OtherErr) 2 minted_state)))) = None"
proof -
  have "assertCanModify song1 artist1 = None" by (simp add: assertCanModify_def song1_def)
  from failed_submission_lifts_lock [OF minted_state_song this, where e = OtherErr and n = 2 and d = rename_song]
  show ?thesis by (auto simp: Let_def split: prod.splits)
qed

theorem public_reads_show_published_only_witness:
  "(case getSongView True ''s1'' None minted_state of Inr v \<Rightarrow> vw_errorReason v = None | Inl e \<Rightarrow> False)"
proof -
  obtain v where v: "getSongView True ''s1'' None minted_state = Inr v"
    by (simp add: getSongView_def minted_state_song song1_def truthy_def)
  note public_reads_show_published_only [of True "''s1''" None minted_state "\<lambda>_ _. False" "\<lambda>_. 0"
    "\<lparr>sq_page = None, sq_limit = None, sq_artistId = None, sq_genreId = None, sq_tag = None, sq_mintStatus = None, sq_sort = None, sq_status = None\<rparr>"
    "\<lambda>_ _ _. 0" "''first''" 1 20 "''g1''" None]
  with v minted_state_song show ?thesis by auto
qed


end
