(* ===== verification/Song_Worker.thy ===== *)
theory Song_Worker
  imports Song_Catalogue
begin

text \<open>
  The background worker of \<open>workers/SongProcessorWorker.ts\<close>: processing a job, retries, the health
  report, and settling messages during a shutdown (\<open>utils/gracefulShutdown.ts\<close>). The media tools, S3,
  the cover download and Pinata are parameters.
\<close>

subsection \<open>Metadata\<close>

datatype trait_value = TNum rat | TStr "string option"

record nft_metadata =
  nm_name :: string
  nm_artist :: "string option"
  nm_description :: "string option"
  nm_image :: string
  nm_animation_url :: string
  nm_attributes :: "(string \<times> trait_value) list"

text \<open>
  \<open>song.aiLyricTranscription\<close> is not a column of a song, so that disjunct of the last attribute is
  always false.
\<close>

definition buildMetadata :: "song_entity \<Rightarrow> string \<Rightarrow> string \<Rightarrow> nft_metadata" where
  "buildMetadata s coverCid masterUrl =
     (let ai_desc = truthy (so_aiGeneratedDescription s) \<and> so_aiDescriptionApproved s;
          ai_cover = truthy (so_aiGeneratedCoverUrl s) \<and> so_aiDescriptionApproved s in
      \<lparr>nm_name = so_title s, nm_artist = so_artistAddress s,
       nm_description = (if ai_desc then so_aiGeneratedDescription s else so_description s),
       nm_image = ''ipfs://'' @ coverCid, nm_animation_url = masterUrl,
       nm_attributes =
         [(''duration'', TNum (case so_duration s of None \<Rightarrow> 0 | Some d \<Rightarrow> of_int d)),
          (''loudness'', TNum (case so_loudness s of None \<Rightarrow> 0 | Some l \<Rightarrow> l)),
          (''genre'', TStr (so_genre s)), (''cover_url'', TStr (Some coverCid))] @
         (if ai_desc then [(''ai_description_used'', TStr (Some ''true''))] else []) @
         (if ai_cover then [(''ai_cover_used'', TStr (Some ''true''))] else []) @
         (if so_aiDescriptionApproved s \<or> ai_cover then [(''ai_assisted'', TStr (Some ''true''))] else [])\<rparr>)"

subsection \<open>Processing a job\<close>

record media_env =
  me_loudness :: "js_error + rat \<times> rat \<times> rat"
  me_waveform :: "js_error + rat list"
  me_transcode :: "js_error option"
  me_hls_upload :: "js_error + string"
  me_cover :: "js_error option"
  me_pin_cover :: "js_error + string"
  me_pin_json :: "nft_metadata \<Rightarrow> js_error + string"

text \<open>The two measurements; a failure of either is caught.\<close>

definition measured :: "media_env \<Rightarrow> song_entity \<Rightarrow> song_entity" where
  "measured env s =
     (let s1 = (case me_loudness env of
            Inl _ \<Rightarrow> s
          | Inr (l, p, r) \<Rightarrow> s\<lparr>so_loudness := Some l, so_truePeakDb := Some p, so_loudnessRange := Some r\<rparr>) in
      case me_waveform env of Inl _ \<Rightarrow> s1 | Inr ps \<Rightarrow> s1\<lparr>so_waveformPeaks := Some ps\<rparr>)"

text \<open>
  \<open>TransactionLogService\<close> has no method \<open>log\<close>: calling it throws a \<open>TypeError\<close>, so nothing after that
  call is reached. The version service has no \<open>createVersion\<close> and the Soroban service no \<open>mintSong\<close>
  either.
\<close>

definition missing_method :: js_error where
  "missing_method = PlainErr ''logService.log is not a function'' None"

definition processSongMessage :: "media_env \<Rightarrow> job_message \<Rightarrow> (song_db, unit) service" where
  "processSongMessage env m db =
     (case get_song (jm_songId m) db of
        None \<Rightarrow> (Inl (PlainErr ''Song not found'' None), db)
      | Some s \<Rightarrow>
          let s' = measured env s; db' = put_song s' db in
          (case me_transcode env of
             Some e \<Rightarrow> (Inl e, db')
           | None \<Rightarrow>
               (case me_hls_upload env of
                  Inl e \<Rightarrow> (Inl e, db')
                | Inr masterUrl \<Rightarrow>
                    (case me_cover env of
                       Some e \<Rightarrow> (Inl e, db')
                     | None \<Rightarrow>
                         (case me_pin_cover env of
                            Inl e \<Rightarrow> (Inl e, db')
                          | Inr cid \<Rightarrow>
                              (case me_pin_json env (buildMetadata s' cid masterUrl) of
                                 Inl e \<Rightarrow> (Inl e, db')
                               | Inr metadataCid \<Rightarrow> (Inl missing_method, db')))))))"

subsection \<open>The queue and the retries\<close>

definition MAX_ATTEMPTS :: int where
  "MAX_ATTEMPTS = 3"

text \<open>
  A queued message: its body as \<open>parsePayload\<close> reads it, and when it expires. A message that
  has expired is dropped by the broker instead of being delivered; the queues are declared without a
  dead letter exchange, so one that is refused is dropped too.
\<close>

record queued_message =
  qm_body :: "job_message option"
  qm_expires :: "timestamp option"

text \<open>\<open>!payload.songId || !payload.fileId\<close>; \<open>decoded\<close> is what \<open>JSON.parse\<close> gives.\<close>

definition parsePayload :: "job_message option \<Rightarrow> job_message option" where
  "parsePayload decoded = (case decoded of None \<Rightarrow> None
     | Some m \<Rightarrow> if jm_songId m = [] \<or> jm_fileId m = [] then None else Some m)"

record worker_state =
  wk_db :: song_db
  wk_queue :: "queued_message list"
  wk_dlq :: "queued_message list"
  wk_dropped :: "queued_message list"
  wk_startedAt :: "timestamp option"
  wk_lastStartedAt :: "timestamp option"
  wk_lastProcessedAt :: "timestamp option"
  wk_processed :: nat
  wk_failed :: nat

definition next_attempt :: "job_message \<Rightarrow> int" where
  "next_attempt m = (case jm_attempt m of None \<Rightarrow> 1 | Some a \<Rightarrow> a) + 1"

definition handleFailure :: "timestamp \<Rightarrow> queued_message \<Rightarrow> job_message \<Rightarrow> worker_state \<Rightarrow> worker_state" where
  "handleFailure now q m st =
     (let attempt = next_attempt m in
      if attempt \<ge> MAX_ATTEMPTS then st\<lparr>wk_dropped := wk_dropped st @ [q]\<rparr>
      else st\<lparr>wk_queue := wk_queue st @
             [\<lparr>qm_body = Some (m\<lparr>jm_attempt := Some attempt\<rparr>), qm_expires = Some (now + 60000 * attempt)\<rparr>]\<rparr>)"

text \<open>The consumer on the message at the head of the queue, outside of a shutdown.\<close>

definition consume :: "media_env \<Rightarrow> timestamp \<Rightarrow> worker_state \<Rightarrow> worker_state" where
  "consume env now st =
     (case wk_queue st of
        [] \<Rightarrow> st
      | q # rest \<Rightarrow>
          let st1 = st\<lparr>wk_queue := rest\<rparr> in
          if (case qm_expires q of None \<Rightarrow> False | Some t \<Rightarrow> t \<le> now) then st1\<lparr>wk_dropped := wk_dropped st @ [q]\<rparr>
          else (case parsePayload (qm_body q) of
              None \<Rightarrow> st1\<lparr>wk_dropped := wk_dropped st @ [q]\<rparr>
            | Some m \<Rightarrow>
                (case processSongMessage env m (wk_db st) of
                   (Inr _, db) \<Rightarrow>
                     st1\<lparr>wk_db := db, wk_lastStartedAt := Some now, wk_lastProcessedAt := Some now,
                         wk_processed := Suc (wk_processed st)\<rparr>
                 | (Inl _, db) \<Rightarrow>
                     handleFailure now q m
                       (st1\<lparr>wk_db := db, wk_lastStartedAt := Some now, wk_failed := Suc (wk_failed st)\<rparr>))))"

lemma processing_fails: "\<exists>e. fst (processSongMessage env m db) = Inl e"
  by (auto simp: processSongMessage_def Let_def split: option.split sum.split)

text \<open>How often a message can still be tried.\<close>

definition tries_left :: "queued_message \<Rightarrow> nat" where
  "tries_left q = (case qm_body q of None \<Rightarrow> 0 | Some m \<Rightarrow> nat (max 1 (4 - next_attempt m)))"

definition tries_in :: "queued_message list \<Rightarrow> nat" where
  "tries_in qs = sum_list (map tries_left qs)"

lemma processSongMessage_Inl:
  obtains e db' where "processSongMessage env m db = (Inl e, db')"
  using processing_fails [of env m db] by (cases "processSongMessage env m db") auto

lemma parsePayload_Some: "parsePayload d = Some m \<Longrightarrow> d = Some m"
  by (auto simp: parsePayload_def split: option.splits if_splits)

lemma consume_tries:
  "wk_failed (consume env now st) + tries_in (wk_queue (consume env now st)) \<le> wk_failed st + tries_in (wk_queue st)
   \<and> wk_processed (consume env now st) = wk_processed st \<and> wk_dlq (consume env now st) = wk_dlq st
   \<and> wk_lastProcessedAt (consume env now st) = wk_lastProcessedAt st"
proof (cases "wk_queue st")
  case (Cons q rest)
  have t: "tries_in (wk_queue st) = tries_left q + tries_in rest" by (simp add: Cons tries_in_def)
  show ?thesis
  proof (cases "parsePayload (qm_body q)")
    case None
    with Cons t show ?thesis by (simp add: consume_def Let_def)
  next
    case (Some m)
    obtain e db' where p: "processSongMessage env m (wk_db st) = (Inl e, db')" by (rule processSongMessage_Inl)
    have q: "tries_left q = nat (max 1 (4 - next_attempt m))"
      using parsePayload_Some [OF Some] by (simp add: tries_left_def)
    have "next_attempt m < 3 \<Longrightarrow>
        tries_left \<lparr>qm_body = Some (m\<lparr>jm_attempt := Some (next_attempt m)\<rparr>), qm_expires = x\<rparr> + 1 = tries_left q" for x
      unfolding q by (simp add: tries_left_def) (simp add: next_attempt_def)
    with Cons t Some p q show ?thesis
      by (auto simp: consume_def handleFailure_def MAX_ATTEMPTS_def tries_in_def Let_def)
  qed
qed (simp add: consume_def)


text \<open>
  over any run of the consumer no job ever succeeds, the dead letter queue stays as it is, and the
  failures are bounded by the tries the queued messages have left: two for a fresh job, although
  the worker announces three attempts.
\<close>

theorem jobs_fail_within_tries:
  "let st' = fold (\<lambda>(env, now). consume env now) es st in
   wk_failed st' + tries_in (wk_queue st') \<le> wk_failed st + tries_in (wk_queue st) \<and>
   wk_processed st' = wk_processed st \<and> wk_dlq st' = wk_dlq st \<and>
   tries_left \<lparr>qm_body = Some \<lparr>jm_songId = sid, jm_fileId = fid, jm_attempt = None, jm_versionNumber = v\<rparr>, qm_expires = None\<rparr> = 2"
proof -
  have "wk_failed (fold (\<lambda>(env, now). consume env now) es st) + tries_in (wk_queue (fold (\<lambda>(env, now). consume env now) es st)) \<le>
      wk_failed st + tries_in (wk_queue st) \<and> wk_processed (fold (\<lambda>(env, now). consume env now) es st) = wk_processed st \<and>
      wk_dlq (fold (\<lambda>(env, now). consume env now) es st) = wk_dlq st"
  proof (induction es arbitrary: st)
    case (Cons e es)
    obtain env now where e: "e = (env, now)" by (cases e)
    from Cons.IH [of "consume env now st"] consume_tries [of env now st] show ?case unfolding e by simp
  qed simp
  then show ?thesis by (simp add: Let_def tries_left_def next_attempt_def)
qed

subsection \<open>No song becomes ready\<close>

text \<open>Requests on songs and uploads, and jobs the worker processes, in any order.\<close>

datatype system_op = SO_request catalogue_op | SO_job media_env job_message

fun system_step :: "system_op \<Rightarrow> catalogue_state \<Rightarrow> catalogue_state" where
  "system_step (SO_request e) st = catalogue_step e st"
| "system_step (SO_job env m) st = with_db (snd (processSongMessage env m (ca_db st))) st"

definition none_ready :: "song_db \<Rightarrow> bool" where
  "none_ready db \<longleftrightarrow> (\<forall>s\<in>set (sd_songs db). so_status s \<noteq> ST_READY) \<and> (\<forall>v\<in>set (sd_versions db). sv_status v \<noteq> ST_READY)"

lemma none_ready_put_song: "none_ready db \<Longrightarrow> so_status s \<noteq> ST_READY \<Longrightarrow> none_ready (put_song s db)"
  using set_tbl_put_subset [of so_id s "sd_songs db"] by (auto simp: none_ready_def put_song_def)

lemma none_ready_get: "none_ready db \<Longrightarrow> get_song sid db = Some s \<Longrightarrow> so_status s \<noteq> ST_READY"
  by (auto simp: none_ready_def get_song_def dest: tbl_find_SomeD)

lemma none_ready_insert: "none_ready db \<Longrightarrow> sv_status v \<noteq> ST_READY \<Longrightarrow> none_ready (snd (insert_version v db))"
  by (auto simp: none_ready_def insert_version_def insert_row_def)

lemma none_ready_append: "none_ready db \<Longrightarrow> sv_status v \<noteq> ST_READY \<Longrightarrow> none_ready (snd (append_version v db))"
  unfolding append_version_def by (rule none_ready_insert) (auto simp: none_ready_def demote_versions_def)

lemma none_ready_initial: "none_ready db \<Longrightarrow> so_status s \<noteq> ST_READY \<Longrightarrow> none_ready (snd (createInitialVersion vid now s cb db))"
  by (auto simp: createInitialVersion_def initial_version_def intro!: none_ready_insert)

lemma none_ready_reupload:
  assumes "none_ready db"
  shows "none_ready (snd (createVersionFromReupload vid0 vid now sid aid inp db))"
proof (cases "\<exists>s. get_song sid db = Some s \<and> so_artistId s = aid")
  case True
  then obtain s where s: "get_song sid db = Some s" "so_artistId s = aid" by blast
  obtain r db1 where e: "ensure_initial vid0 now s db = (r, db1)" by (cases "ensure_initial vid0 now s db")
  have "none_ready (snd (ensure_initial vid0 now s db))"
    using assms none_ready_get [OF assms s(1)] by (simp add: ensure_initial_snd none_ready_initial)
  with e have n1: "none_ready db1" by simp
  obtain r2 db2 where a: "append_version (reupload_version vid now s aid inp (getLatestVersionNumber sid db1 + 1)) db1 = (r2, db2)"
    by (cases "append_version (reupload_version vid now s aid inp (getLatestVersionNumber sid db1 + 1)) db1")
  have "none_ready (snd (append_version (reupload_version vid now s aid inp (getLatestVersionNumber sid db1 + 1)) db1))"
    by (rule none_ready_append [OF n1]) (simp add: reupload_version_def)
  with a have n2: "none_ready db2" by simp
  with s e a n1 show ?thesis
    by (auto simp: createVersionFromReupload_def Let_def reuploaded_song_def split: sum.split intro!: none_ready_put_song)
qed (use assms in \<open>auto simp: createVersionFromReupload_def split: option.split\<close>)

lemma none_ready_rollback:
  assumes "none_ready db"
  shows "none_ready (snd (rollbackVersion vid now sid target aid note_text db))"
proof (cases "\<exists>s tv. get_song sid db = Some s \<and> so_artistId s = aid \<and> getVersion sid target db = Inr tv")
  case True
  then obtain s tv where s: "get_song sid db = Some s" "so_artistId s = aid" "getVersion sid target db = Inr tv" by blast
  let ?v = "rollback_copy vid now aid note_text tv (getLatestVersionNumber sid db + 1)"
  have v: "sv_status ?v \<noteq> ST_READY"
    using getVersion_Inr [OF s(3)] assms by (auto simp: rollback_copy_def none_ready_def)
  obtain r2 db2 where a: "append_version ?v db = (r2, db2)" by (cases "append_version ?v db")
  with none_ready_append [OF assms v] have "none_ready db2" by simp
  with s a v assms show ?thesis
    by (auto simp: rollbackVersion_def Let_def rolled_back_song_def split: sum.split option.split intro!: none_ready_put_song)
qed (use assms in \<open>auto simp: rollbackVersion_def split: option.split sum.split\<close>)

lemma none_ready_remove: "none_ready db \<Longrightarrow> none_ready (remove_song sid db)"
  by (auto simp: none_ready_def remove_song_def tbl_simps)

lemma measured_status [simp]: "so_status (measured env s) = so_status s"
  by (simp add: measured_def Let_def split: sum.split prod.split)

lemma none_ready_job: "none_ready db \<Longrightarrow> none_ready (snd (processSongMessage env m db))"
  by (auto simp: processSongMessage_def Let_def split: option.split sum.split
      intro!: none_ready_put_song dest: none_ready_get)

lemma us_db_merge [simp]: "us_db (snd (mergeScanAndUpload env fid n up)) = us_db up"
  by (auto simp: mergeScanAndUpload_def s3_put_def Let_def split: prod.split option.split sum.split)

lemma us_db_send_job [simp]: "us_db (snd (send_job m up)) = us_db up"
  by (simp add: send_job_def)

lemma none_ready_upload:
  assumes "none_ready (us_db up)"
  shows "none_ready (us_db (upload_step (env, e) up))"
proof (cases e)
  case (UO_finalize sid vid now opts)
  obtain r up1 where m: "mergeScanAndUpload env (fo_fileId opts) (fo_totalChunks opts) up = (r, up1)"
    by (cases "mergeScanAndUpload env (fo_fileId opts) (fo_totalChunks opts) up")
  then have "us_db up1 = us_db up" using us_db_merge [of env "fo_fileId opts" "fo_totalChunks opts" up] by simp
  with assms have n: "none_ready (us_db up1)" by simp
  then have "none_ready (put_song (uploaded_song sid now opts loc) (us_db up1))" for loc
    by (rule none_ready_put_song) (simp add: uploaded_song_def)
  then have "none_ready (snd (createInitialVersion vid now (uploaded_song sid now opts loc) (Some (fo_artistId opts))
      (put_song (uploaded_song sid now opts loc) (us_db up1))))" for loc
    by (rule none_ready_initial) (simp add: uploaded_song_def)
  with n m show ?thesis
    by (auto simp: UO_finalize finalizeUpload_def send_job_def Let_def split: sum.split)
next
  case (UO_reupload vid0 vid now sid fid n aid changes)
  obtain r up1 where m: "mergeScanAndUpload env fid n up = (r, up1)" by (cases "mergeScanAndUpload env fid n up")
  then have "us_db up1 = us_db up" using us_db_merge [of env fid n up] by simp
  with assms have n1: "none_ready (us_db up1)" by simp
  have "none_ready db2" if "createVersionFromReupload vid0 vid now sid aid inp (us_db up1) = (x, db2)" for inp x db2
    using none_ready_reupload [OF n1, of vid0 vid now sid aid inp] that by simp
  with n1 m assms show ?thesis
    by (auto simp: UO_reupload finalizeReupload_def send_job_def Let_def split: option.split sum.split prod.split)
next
  case (UO_retry sid)
  with assms show ?thesis
    by (auto simp: retryFailedSong_def Let_def split: option.split intro!: none_ready_put_song)
qed (use assms in \<open>auto simp: saveChunk_def saveCover_def s3_put_def split: sum.split\<close>)

lemma ca_db_with_db [simp]: "ca_db (with_db db st) = db"
  by (simp add: with_db_def)

lemma none_ready_save:
  "none_ready (ca_db st) \<Longrightarrow> so_status s \<noteq> ST_READY \<Longrightarrow> none_ready (ca_db (save_entity s st))"
  by (simp add: save_entity_def none_ready_put_song)

lemma ca_up_log [simp]: "ca_up (snd (log_entry refused a st)) = ca_up st"
  by (simp add: log_entry_def split: option.split)

lemma deleteSongFiles_db [simp]: "us_db (deleteSongFiles f a b sid s up) = us_db up"
  by (simp add: deleteSongFiles_def Let_def)

lemma none_ready_catalogue:
  assumes "none_ready (ca_db st)"
  shows "none_ready (ca_db (catalogue_step e st))"
proof -
  have get: "so_status s \<noteq> ST_READY" if "find_entity sid st = Some s" for sid s
    using that none_ready_get [OF assms] by (simp add: find_entity_def)
  show ?thesis
  proof (cases e)
    case (CA_update sid d rq)
    with assms get show ?thesis
      by (auto simp: updateSong_def getSong_def split: option.split intro!: none_ready_save)
  next
    case (CA_delete f a b now sid rq)
    with assms get show ?thesis
      by (auto simp: deleteSong_def getSong_def split: option.split intro!: none_ready_save none_ready_remove)
  next
    case (CA_template sid tid uid)
    with assms get show ?thesis
      by (auto simp: applyTemplate_def Let_def split: option.split intro!: none_ready_save)
  next
    case (CA_flag refused now sid admin reason)
    with assms get show ?thesis
      by (auto simp: flagSong_def Let_def logged_snd split: option.split intro!: none_ready_save)
  next
    case (CA_unflag refused sid admin)
    with assms get show ?thesis
      by (auto simp: unflagSong_def Let_def logged_snd split: option.split intro!: none_ready_save)
  next
    case (CA_mint sid outcome n)
    with assms get show ?thesis
      by (auto simp: submitSongMintTx_def Let_def split: option.split sum.split prod.split intro!: none_ready_save)
  next
    case (CA_upload env ev)
    with assms show ?thesis by (simp add: none_ready_upload)
  next
    case (CA_rollback vid now sid target aid note_text)
    with assms show ?thesis by (simp add: none_ready_rollback)
  qed
qed

interpretation readiness: machine system_step "\<lambda>st. none_ready (ca_db st)"
proof
  fix st e
  assume "none_ready (ca_db st)"
  then show "none_ready (ca_db (system_step e st))"
    by (cases e) (simp_all add: none_ready_catalogue none_ready_job)
qed

text \<open>
  C2: no upload, re-upload, rollback, edit, retry, mint or processed job ever makes a song or one of its
  versions ready, whatever the media tools, the bucket and the broker answer: starting from a
  database without ready songs, none is ever published, and the public search stays empty.
\<close>

theorem no_song_becomes_ready:
  assumes "none_ready (ca_db st)"
  shows "let st' = fold system_step es st in
     none_ready (ca_db st') \<and> sp_songs (searchSongs sim query p l st') = []"
proof -
  have n: "none_ready (ca_db (fold system_step es st))" by (rule readiness.run_ok) (rule assms)
  then have "set (search_results sim t (fold system_step es st)) = {}" for t
    unfolding set_search_results by (auto simp: none_ready_def published_def)
  with n show ?thesis
    by (simp add: Let_def searchSongs_def paged_def page_slice_def)
qed


theorem no_song_becomes_ready_witness:
  "none_ready (ca_db (fold system_step
     [SO_request (CA_upload clean_env (UO_chunk ''f1'' 0 ''ab'')),
      SO_request (CA_upload clean_env (UO_finalize ''s1'' ''v1'' 0 (two_chunks\<lparr>fo_totalChunks := 1\<rparr>))),
      SO_job \<lparr>me_loudness = Inr (0, 0, 0), me_waveform = Inr [], me_transcode = None, me_hls_upload = Inr ''m'',
              me_cover = None, me_pin_cover = Inr ''c'', me_pin_json = (\<lambda>_. Inr ''j'')\<rparr>
        \<lparr>jm_songId = ''s1'', jm_fileId = ''f1'', jm_attempt = None, jm_versionNumber = None\<rparr>]
     \<lparr>ca_up = start_state, ca_artists = [], ca_templates = [], ca_audit = [], ca_events = []\<rparr>))"
proof -
  have "none_ready (ca_db \<lparr>ca_up = start_state, ca_artists = [], ca_templates = [], ca_audit = [], ca_events = []\<rparr>)"
    by (simp add: none_ready_def start_state_def)
  from no_song_becomes_ready [OF this] show ?thesis unfolding Let_def by blast
qed

subsection \<open>The health report\<close>

datatype health_status = HS_OK | HS_DEGRADED | HS_ERROR | HS_NOT_CONFIGURED

record worker_health =
  wh_status :: health_status
  wh_connected :: bool
  wh_isConsuming :: bool
  wh_pendingJobs :: nat
  wh_activeConsumers :: nat
  wh_processed :: nat
  wh_failed :: nat
  wh_isStale :: bool
  wh_message :: string

text \<open>What \<open>checkQueue\<close> answers: an error message, or the counts of messages and consumers.\<close>

type_synonym queue_check = "string option + nat \<times> nat"

text \<open>
  \<open>lastJobProcessedAt || lastJobStartedAt || workerStartedAt\<close>, and the time since; without any the
  time is infinite.
\<close>

definition activity_baseline :: "worker_state \<Rightarrow> timestamp option" where
  "activity_baseline st = or_other (wk_lastProcessedAt st) (or_other (wk_lastStartedAt st) (wk_startedAt st))"

definition inactive_longer :: "timestamp \<Rightarrow> int \<Rightarrow> worker_state \<Rightarrow> bool" where
  "inactive_longer now threshold st = (case activity_baseline st of None \<Rightarrow> True | Some b \<Rightarrow> now - b > threshold)"

text \<open>\<open>consuming\<close> is the flag the worker set when it started.\<close>

definition getWorkerHealthStatus ::
  "bool \<Rightarrow> bool \<Rightarrow> bool \<Rightarrow> queue_check \<Rightarrow> timestamp \<Rightarrow> int \<Rightarrow> worker_state \<Rightarrow> worker_health" where
  "getWorkerHealthStatus configured has_channel consuming chk now threshold st =
     (if \<not> configured
      then \<lparr>wh_status = HS_NOT_CONFIGURED, wh_connected = False, wh_isConsuming = False, wh_pendingJobs = 0,
            wh_activeConsumers = 0, wh_processed = 0, wh_failed = 0, wh_isStale = False,
            wh_message = ''RABBITMQ_URL is not configured''\<rparr>
      else if \<not> has_channel
      then \<lparr>wh_status = HS_ERROR, wh_connected = False, wh_isConsuming = False, wh_pendingJobs = 0,
            wh_activeConsumers = 0, wh_processed = wk_processed st, wh_failed = wk_failed st, wh_isStale = False,
            wh_message = ''RabbitMQ channel is disconnected or unavailable''\<rparr>
      else (case chk of
          Inl msg \<Rightarrow>
            \<lparr>wh_status = HS_ERROR, wh_connected = True, wh_isConsuming = consuming, wh_pendingJobs = 0,
             wh_activeConsumers = 0, wh_processed = wk_processed st, wh_failed = wk_failed st, wh_isStale = False,
             wh_message = ''Failed to inspect queue: '' @ (if truthy msg then the msg else ''unknown error'')\<rparr>
        | Inr (pending, consumers) \<Rightarrow>
            let late = pending > 0 \<and> inactive_longer now threshold st;
                (status, stale, msg) =
                  (if consumers = 0
                   then (HS_ERROR, pending > 0, ''No active consumers on queue 'song_processing' ('' @ nat_str pending @ '' jobs pending)'')
                   else if late
                   then (HS_DEGRADED, True, ''Stale consumer: '' @ nat_str pending @ '' jobs pending and no job processed in '' @
                         (case activity_baseline st of None \<Rightarrow> ''Infinity'' | Some b \<Rightarrow> int_str ((now - b) div 60000)) @ '' minutes'')
                   else (HS_OK, False, ''Worker consumer is healthy and active'')) in
            \<lparr>wh_status = status, wh_connected = True, wh_isConsuming = consumers > 0, wh_pendingJobs = pending,
             wh_activeConsumers = consumers, wh_processed = wk_processed st, wh_failed = wk_failed st,
             wh_isStale = stale, wh_message = msg\<rparr>))"

lemma health_ok_iff:
  "wh_status (getWorkerHealthStatus configured has_channel consuming chk now threshold st) = HS_OK \<longleftrightarrow>
     configured \<and> has_channel \<and> (\<exists>pending consumers. chk = Inr (pending, consumers) \<and> 0 < consumers \<and>
       (pending = 0 \<or> (\<exists>b. activity_baseline st = Some b \<and> now - b \<le> threshold)))"
  by (auto simp: getWorkerHealthStatus_def inactive_longer_def Let_def split: sum.split prod.split option.split)

text \<open>
  the report looks at the queue and at when the last job started, not at the outcome of the jobs:
  after any run of the consumer, in which by the theorem above every job fails, a worker that has just
  taken a job is reported healthy.
\<close>

theorem failing_worker_is_reported_healthy:
  assumes "wk_lastProcessedAt st = None" and "wk_queue (fold (\<lambda>(env, now). consume env now) es st) = q # rest"
    and "\<not> (case qm_expires q of None \<Rightarrow> False | Some t \<Rightarrow> t \<le> now)" and "parsePayload (qm_body q) \<noteq> None"
    and "0 < consumers" and "0 \<le> threshold"
  shows "let st1 = fold (\<lambda>(env, now). consume env now) es st; st2 = consume env now st1 in
     wh_status (getWorkerHealthStatus True True consuming (Inr (pending, consumers)) now threshold st2) = HS_OK \<and>
     wk_failed st2 = Suc (wk_failed st1)"
proof -
  let ?st1 = "fold (\<lambda>(env, now). consume env now) es st"
  have "wk_lastProcessedAt ?st1 = wk_lastProcessedAt st"
  proof (induction es arbitrary: st)
    case (Cons e es)
    from Cons [of "consume (fst e) (snd e) st"] consume_tries [of "fst e" "snd e" st] show ?case
      by (simp add: case_prod_unfold)
  qed simp
  then have lp: "wk_lastProcessedAt (consume env now ?st1) = None" using consume_tries [of env now ?st1] assms(1) by simp
  from assms(4) obtain m where m: "parsePayload (qm_body q) = Some m" by blast
  obtain e db' where p: "processSongMessage env m (wk_db ?st1) = (Inl e, db')" by (rule processSongMessage_Inl)
  have "wk_lastStartedAt (consume env now ?st1) = Some now \<and> wk_failed (consume env now ?st1) = Suc (wk_failed ?st1)"
    using assms(2,3) m p by (simp add: consume_def handleFailure_def Let_def)
  with lp assms(5,6) show ?thesis
    by (simp add: Let_def health_ok_iff activity_baseline_def or_other_def)
qed


definition fresh_job :: queued_message where
  "fresh_job = \<lparr>qm_body = Some \<lparr>jm_songId = ''s1'', jm_fileId = ''f1'', jm_attempt = None, jm_versionNumber = None\<rparr>, qm_expires = None\<rparr>"

definition one_job :: worker_state where
  "one_job = \<lparr>wk_db = \<lparr>sd_songs = [], sd_versions = []\<rparr>, wk_queue = [fresh_job], wk_dlq = [], wk_dropped = [],
     wk_startedAt = Some 0, wk_lastStartedAt = None, wk_lastProcessedAt = None, wk_processed = 0, wk_failed = 0\<rparr>"

definition broken_tools :: media_env where
  "broken_tools = \<lparr>me_loudness = Inl OtherErr, me_waveform = Inl OtherErr, me_transcode = Some OtherErr,
     me_hls_upload = Inl OtherErr, me_cover = None, me_pin_cover = Inl OtherErr, me_pin_json = (\<lambda>_. Inl OtherErr)\<rparr>"

theorem failing_worker_is_reported_healthy_witness:
  "wh_status (getWorkerHealthStatus True True True (Inr (0, 1)) 5 300000 (consume broken_tools 5 one_job)) = HS_OK"
proof -
  have "wk_lastProcessedAt one_job = None" "wk_queue (fold (\<lambda>(env, now). consume env now) [] one_job) = fresh_job # []"
      "\<not> (case qm_expires fresh_job of None \<Rightarrow> False | Some t \<Rightarrow> t \<le> 5)" "parsePayload (qm_body fresh_job) \<noteq> None"
      "(0::nat) < 1" "(0::int) \<le> 300000"
    by (simp_all add: one_job_def fresh_job_def parsePayload_def)
  from failing_worker_is_reported_healthy [OF this, where consuming = True and pending = 0 and env = broken_tools] show ?thesis by (simp add: Let_def)
qed

subsection \<open>Settling messages during a shutdown\<close>

text \<open>
  One registered worker. \<open>sh_pending\<close> are the messages whose handler runs, with the flag \<open>active\<close>;
  \<open>sh_log\<close> is what was sent to the broker for a message. Each event runs without an await in between:
  a delivery up to the handler's first await, a handler's end (its \<open>isActive\<close> test, the
  settlement and the \<open>finally\<close>), the start of the drain, and its last part, which runs when all handlers
  ended or the time is over.
\<close>

datatype settlement = Ack | Requeue | Discard

record shutdown_state =
  sh_stopping :: bool
  sh_drained :: bool
  sh_pending :: "(nat \<times> bool) list"
  sh_log :: "(nat \<times> settlement) list"

datatype shutdown_event =
    SE_deliver nat bool
  | SE_handled nat settlement
  | SE_drain
  | SE_finish

text \<open>The flag of a delivery says whether its payload is well formed; a malformed one is refused at once.\<close>

definition take_delivery :: "nat \<Rightarrow> bool \<Rightarrow> shutdown_state \<Rightarrow> shutdown_state" where
  "take_delivery msg well_formed st =
     (if sh_stopping st then st\<lparr>sh_log := sh_log st @ [(msg, Requeue)]\<rparr>
      else if \<not> well_formed then st\<lparr>sh_log := sh_log st @ [(msg, Discard)]\<rparr>
      else st\<lparr>sh_pending := sh_pending st @ [(msg, True)]\<rparr>)"

text \<open>An end of a handler that is not running is no event of the program and changes nothing.\<close>

definition end_handler :: "nat \<Rightarrow> settlement \<Rightarrow> shutdown_state \<Rightarrow> shutdown_state" where
  "end_handler msg how st =
     (case map_of (sh_pending st) msg of
        None \<Rightarrow> st
      | Some active \<Rightarrow>
          st\<lparr>sh_log := sh_log st @ (if active then [(msg, how)] else []),
             sh_pending := filter (\<lambda>p. fst p \<noteq> msg) (sh_pending st)\<rparr>)"

text \<open>
  The last part of the drain: every message still pending is made inactive and put back. It runs
  once, as \<open>drainPromise\<close> is kept.
\<close>

definition finish_drain :: "shutdown_state \<Rightarrow> shutdown_state" where
  "finish_drain st =
     (if \<not> sh_stopping st \<or> sh_drained st then st
      else st\<lparr>sh_drained := True, sh_log := sh_log st @ map (\<lambda>p. (fst p, Requeue)) (sh_pending st),
              sh_pending := map (\<lambda>p. (fst p, False)) (sh_pending st)\<rparr>)"

fun shutdown_step :: "shutdown_event \<Rightarrow> shutdown_state \<Rightarrow> shutdown_state" where
  "shutdown_step (SE_deliver msg good) st = take_delivery msg good st"
| "shutdown_step (SE_handled msg how) st = end_handler msg how st"
| "shutdown_step SE_drain st = st\<lparr>sh_stopping := True\<rparr>"
| "shutdown_step SE_finish st = finish_drain st"

text \<open>A delivery has a tag of its own.\<close>

definition delivered_tags :: "shutdown_event list \<Rightarrow> nat list" where
  "delivered_tags es = List.map_filter (\<lambda>e. case e of SE_deliver msg good \<Rightarrow> Some msg | _ \<Rightarrow> None) es"

text \<open>
  \<open>D\<close> are the messages delivered. Before the drain is over those not settled are the pending ones, all
  active; afterwards all are settled and no handler is active.
\<close>

definition settled_ok :: "nat set \<Rightarrow> shutdown_state \<Rightarrow> bool" where
  "settled_ok D st \<longleftrightarrow> distinct (map fst (sh_pending st)) \<and> distinct (map fst (sh_log st)) \<and>
     (if sh_drained st
      then sh_stopping st \<and> (\<forall>p\<in>set (sh_pending st). \<not> snd p) \<and> set (map fst (sh_log st)) = D
      else (\<forall>p\<in>set (sh_pending st). snd p) \<and> set (map fst (sh_pending st)) \<inter> set (map fst (sh_log st)) = {} \<and>
           set (map fst (sh_pending st)) \<union> set (map fst (sh_log st)) = D)"

lemma settled_deliver:
  assumes "settled_ok D st" and "msg \<notin> D"
  shows "settled_ok (insert msg D) (take_delivery msg good st)"
  using assms unfolding settled_ok_def take_delivery_def by (cases "sh_drained st") (auto simp del: set_map)

lemma settled_handled:
  assumes "settled_ok D st"
  shows "settled_ok D (end_handler msg how st)"
proof (cases "map_of (sh_pending st) msg")
  case (Some active)
  then have p: "(msg, active) \<in> set (sh_pending st)" by (rule map_of_SomeD)
  then have m: "msg \<in> set (map fst (sh_pending st))" by force
  have f: "map fst (filter (\<lambda>q. fst q \<noteq> msg) ps) = filter (\<lambda>k. k \<noteq> msg) (map fst ps)" for ps :: "(nat \<times> bool) list"
    by (simp add: filter_map comp_def)
  show ?thesis
  proof (cases "sh_drained st")
    case True
    with assms p Some show ?thesis by (auto simp: settled_ok_def end_handler_def f simp del: set_map)
  next
    case False
    with assms p have "active" by (auto simp: settled_ok_def)
    with False assms m Some show ?thesis
      by (auto simp: settled_ok_def end_handler_def f simp del: set_map)
  qed
qed (use assms in \<open>simp add: end_handler_def\<close>)

lemma settled_finish:
  assumes "settled_ok D st"
  shows "settled_ok D (finish_drain st)"
proof (cases "\<not> sh_stopping st \<or> sh_drained st")
  case False
  have "map fst (map (\<lambda>p. (fst p, b)) ps) = map fst ps" for ps :: "(nat \<times> bool) list" and b :: settlement by simp
  moreover have "map fst (map (\<lambda>p. (fst p, False)) ps) = map fst ps"
      "\<forall>p\<in>set (map (\<lambda>p. (fst p, False)) ps). \<not> snd p" for ps :: "(nat \<times> bool) list" by simp_all
  ultimately show ?thesis
    using assms False by (auto simp: settled_ok_def finish_drain_def simp del: set_map map_map)
qed (use assms in \<open>simp add: finish_drain_def\<close>)

lemma delivered_tags_simps [simp]:
  "delivered_tags [] = []" "delivered_tags (SE_deliver m good # es) = m # delivered_tags es"
  "delivered_tags (SE_handled m h # es) = delivered_tags es" "delivered_tags (SE_drain # es) = delivered_tags es"
  "delivered_tags (SE_finish # es) = delivered_tags es"
  by (simp_all add: delivered_tags_def List.map_filter_def)

lemma settled_run:
  "settled_ok D st \<Longrightarrow> distinct (delivered_tags es) \<Longrightarrow> set (delivered_tags es) \<inter> D = {} \<Longrightarrow>
   settled_ok (D \<union> set (delivered_tags es)) (fold shutdown_step es st)"
proof (induction es arbitrary: D st)
  case (Cons e es)
  show ?case
  proof (cases e)
    case (SE_deliver m good)
    with Cons.prems Cons.IH [of "insert m D" "take_delivery m good st"] settled_deliver [of D st m good] show ?thesis by auto
  next
    case (SE_handled m how)
    with Cons.prems Cons.IH [of D "end_handler m how st"] settled_handled [of D st m how] show ?thesis by auto
  next
    case SE_drain
    have "settled_ok D (st\<lparr>sh_stopping := True\<rparr>)"
      using Cons.prems(1) unfolding settled_ok_def by (cases "sh_drained st") simp_all
    with SE_drain Cons.prems Cons.IH [of D "st\<lparr>sh_stopping := True\<rparr>"] show ?thesis by auto
  next
    case SE_finish
    with Cons.prems Cons.IH [of D "finish_drain st"] settled_finish [of D st] show ?thesis by auto
  qed
qed simp

definition idle_worker :: shutdown_state where
  "idle_worker = \<lparr>sh_stopping = False, sh_drained = False, sh_pending = [], sh_log = []\<rparr>"

text \<open>
  C6: in any order of deliveries, handler ends and the steps of a drain, a message is settled at most
  once, and once the drain is over every message delivered has been settled: acknowledged, refused
  or put back, so none is lost with the process.
\<close>

theorem messages_settled_once:
  assumes "distinct (delivered_tags es)"
  shows "let st = fold shutdown_step es idle_worker in
     distinct (map fst (sh_log st)) \<and> fst ` set (sh_log st) \<subseteq> set (delivered_tags es) \<and>
     (sh_drained st \<longrightarrow> fst ` set (sh_log st) = set (delivered_tags es))"
proof -
  have "settled_ok {} idle_worker" by (simp add: settled_ok_def idle_worker_def)
  from settled_run [OF this assms] have "settled_ok (set (delivered_tags es)) (fold shutdown_step es idle_worker)" by simp
  then show ?thesis
    unfolding Let_def settled_ok_def by (cases "sh_drained (fold shutdown_step es idle_worker)") auto
qed

theorem messages_settled_once_witness:
  "sh_log (fold shutdown_step [SE_deliver 1 True, SE_deliver 2 True, SE_handled 1 Ack, SE_drain, SE_deliver 3 True,
      SE_finish, SE_handled 2 Ack] idle_worker) = [(1, Ack), (3, Requeue), (2, Requeue)] \<and>
   fst ` set (sh_log (fold shutdown_step [SE_deliver 1 True, SE_deliver 2 True, SE_handled 1 Ack, SE_drain, SE_deliver 3 True,
      SE_finish, SE_handled 2 Ack] idle_worker)) \<subseteq> {1, 2, 3}"
proof
  show "sh_log (fold shutdown_step [SE_deliver 1 True, SE_deliver 2 True, SE_handled 1 Ack, SE_drain, SE_deliver 3 True,
      SE_finish, SE_handled 2 Ack] idle_worker) = [(1, Ack), (3, Requeue), (2, Requeue)]"
    by (simp add: idle_worker_def take_delivery_def end_handler_def finish_drain_def)
  show "fst ` set (sh_log (fold shutdown_step [SE_deliver 1 True, SE_deliver 2 True, SE_handled 1 Ack, SE_drain, SE_deliver 3 True,
      SE_finish, SE_handled 2 Ack] idle_worker)) \<subseteq> {1, 2, 3}"
    using messages_settled_once [of "[SE_deliver 1 True, SE_deliver 2 True, SE_handled 1 Ack, SE_drain, SE_deliver 3 True,
      SE_finish, SE_handled 2 Ack]"] by (simp add: Let_def)
qed

end
