(* ===== verification/Request_Limits.thy ===== *)
theory Request_Limits
  imports AppErrors "HOL-Library.AList"
begin

text \<open>
  The sliding-window rate limiter of \<open>middlewares/rateLimiter.ts\<close> with its fallbacks, and the
  idempotency middleware of \<open>middlewares/idempotency.ts\<close>. Redis is a map from keys to sorted sets or
  cached responses with their expiry; whether it answers is a parameter of each request. The metrics
  and log lines are left out.
\<close>

subsection \<open>The limiter\<close>

record limiter_config =
  lc_windowMs :: int
  lc_max :: nat
  lc_failClosed :: bool
  lc_memoryFallback :: bool

text \<open>
  A sorted set is the list of its scores (the members are made unique by a random suffix) with
  the time it expires. \<open>lm_memory\<close> is the \<open>memoryStore\<close> of this instance.
\<close>

record limiter_state =
  lm_redis :: "string \<Rightarrow> (int list \<times> timestamp) option"
  lm_memory :: "(string \<times> int list) list"

definition live_scores :: "string \<Rightarrow> timestamp \<Rightarrow> limiter_state \<Rightarrow> int list" where
  "live_scores key now st =
     (case lm_redis st key of None \<Rightarrow> [] | Some (scores, expires) \<Rightarrow> if expires \<le> now then [] else scores)"

text \<open>The pipeline: drop what left the window, add this request, count, set the expiry.\<close>

definition redis_hit :: "limiter_config \<Rightarrow> string \<Rightarrow> timestamp \<Rightarrow> limiter_state \<Rightarrow> nat \<times> limiter_state" where
  "redis_hit cfg key now st =
     (let kept = filter (\<lambda>t. \<not> (0 \<le> t \<and> t \<le> now - lc_windowMs cfg)) (live_scores key now st);
          scores = kept @ [now] in
      (length scores,
       st\<lparr>lm_redis := (lm_redis st)(key \<mapsto> (scores, now + 1000 * ceil_div (lc_windowMs cfg) 1000))\<rparr>))"

definition MEMORY_SWEEP_THRESHOLD :: nat where
  "MEMORY_SWEEP_THRESHOLD = 10000"

definition memoryCount :: "limiter_config \<Rightarrow> string \<Rightarrow> timestamp \<Rightarrow> limiter_state \<Rightarrow> nat \<times> limiter_state" where
  "memoryCount cfg key now st =
     (let w = lc_windowMs cfg;
          swept = (if MEMORY_SWEEP_THRESHOLD < length (lm_memory st)
                   then filter (\<lambda>(k, hits). \<not> last hits \<le> now - w) (lm_memory st) else lm_memory st);
          hits = filter (\<lambda>t. now - w < t) (case map_of swept key of None \<Rightarrow> [] | Some h \<Rightarrow> h) @ [now] in
      (length hits, st\<lparr>lm_memory := AList.update key hits swept\<rparr>))"

definition MAX_UNAVAILABLE_RETRY_AFTER_SEC :: int where
  "MAX_UNAVAILABLE_RETRY_AFTER_SEC = 30"

text \<open>
  The answer: the request goes on, with the three headers when it was counted; it is refused with 429;
  or the limiter itself is unavailable and answers 503. Both refusals carry \<open>Retry-After\<close>.
\<close>

datatype limiter_answer =
    Pass "(nat \<times> nat \<times> int) option"
  | TooMany int
  | Unavailable int

fun passes :: "limiter_answer \<Rightarrow> bool" where
  "passes (Pass h) = True"
| "passes (TooMany r) = False"
| "passes (Unavailable r) = False"

definition decide :: "limiter_config \<Rightarrow> timestamp \<Rightarrow> nat \<Rightarrow> limiter_answer" where
  "decide cfg now count =
     (if lc_max cfg < count then TooMany (ceil_div (lc_windowMs cfg) 1000)
      else Pass (Some (lc_max cfg, lc_max cfg - count, ceil_div (now + lc_windowMs cfg) 1000)))"

definition check_limit ::
  "limiter_config \<Rightarrow> string \<Rightarrow> timestamp \<Rightarrow> bool \<Rightarrow> limiter_state \<Rightarrow> limiter_answer \<times> limiter_state" where
  "check_limit cfg key now redis_up st =
     (if redis_up then (case redis_hit cfg key now st of (n, st') \<Rightarrow> (decide cfg now n, st'))
      else if \<not> lc_failClosed cfg then (Pass None, st)
      else if \<not> lc_memoryFallback cfg
      then (Unavailable (min (ceil_div (lc_windowMs cfg) 1000) MAX_UNAVAILABLE_RETRY_AFTER_SEC), st)
      else (case memoryCount cfg key now st of (n, st') \<Rightarrow> (decide cfg now n, st')))"

text \<open>
  The answers to the requests of all clients of one limiter, in the order they arrive, each with its key,
  its time and whether Redis answered it.
\<close>

type_synonym limited_request = "string \<times> timestamp \<times> bool"

fun limiter_run :: "limiter_config \<Rightarrow> limited_request list \<Rightarrow> limiter_state \<Rightarrow> limiter_answer list" where
  "limiter_run cfg [] st = []"
| "limiter_run cfg ((key, now, up) # rs) st =
     (case check_limit cfg key now up st of (a, st') \<Rightarrow> a # limiter_run cfg rs st')"

subsection \<open>What the limiter counts\<close>

lemma ceil_div_bound: "0 < b \<Longrightarrow> a \<le> b * ceil_div a b"
  unfolding ceil_div_def using mult_div_mod_eq [of b "- a"] pos_mod_sign [of b "- a"] unfolding mult_minus_right by linarith

text \<open>The hits of a key that are still in the window at the time \<open>now\<close>.\<close>

definition in_window :: "limiter_config \<Rightarrow> timestamp \<Rightarrow> timestamp list \<Rightarrow> timestamp list" where
  "in_window cfg now ts = filter (\<lambda>t. now - lc_windowMs cfg < t) ts"

lemma in_window_twice: "now \<le> u \<Longrightarrow> in_window cfg u (in_window cfg now ts) = in_window cfg u ts"
  unfolding in_window_def filter_filter by (intro filter_cong) auto

lemma in_window_snoc [simp]:
  "in_window cfg u (ts @ [now]) = in_window cfg u ts @ (if u - lc_windowMs cfg < now then [now] else [])"
  "in_window cfg u [] = []" "set (in_window cfg u ts) = {t \<in> set ts. u - lc_windowMs cfg < t}"
  by (auto simp: in_window_def)

text \<open>
  What the limiter needs of a store that counts the hits of many keys, all of them at the time \<open>c\<close> or
  earlier: told of a hit of one key it gives the number of that key's hits in the window, the new one
  included, and it still knows the hits of every key.
\<close>

locale window_counter =
  fixes cfg :: limiter_config
    and hit :: "string \<Rightarrow> timestamp \<Rightarrow> 's \<Rightarrow> nat \<times> 's"
    and counts :: "timestamp \<Rightarrow> string \<Rightarrow> timestamp list \<Rightarrow> 's \<Rightarrow> bool"
  assumes hit_number: "counts c key ts st \<Longrightarrow> c \<le> now \<Longrightarrow> 0 \<le> now \<Longrightarrow> hit key now st = (n, st') \<Longrightarrow>
       n = length (in_window cfg now ts @ [now])"
    and hit_counts: "counts c key ts st \<Longrightarrow> c \<le> now \<Longrightarrow> 0 \<le> now \<Longrightarrow> hit key now st = (n, st') \<Longrightarrow>
       counts now key (ts @ [now]) st'"
    and hit_frame: "counts c k ts st \<Longrightarrow> c \<le> now \<Longrightarrow> k \<noteq> key \<Longrightarrow> hit key now st = (n, st') \<Longrightarrow> counts now k ts st'"
begin

text \<open>The decision on a hit and what the store knows afterwards, for all keys at once.\<close>

lemma decision:
  assumes "\<forall>k. counts c k (f k) st" and "c \<le> now" and "0 \<le> now" and "hit key now st = (n, st')"
  shows "passes (decide cfg now n) \<longleftrightarrow> length (in_window cfg now (f key)) < lc_max cfg"
    and "counts now k (if k = key then f key @ [now] else f k) st'"
proof -
  have "n = length (in_window cfg now (f key) @ [now])" using assms hit_number by blast
  then show "passes (decide cfg now n) \<longleftrightarrow> length (in_window cfg now (f key)) < lc_max cfg" by (auto simp: decide_def)
  show "counts now k (if k = key then f key @ [now] else f k) st'"
    using hit_counts [OF _ assms(2,3,4)] hit_frame [OF _ assms(2) _ assms(4)] assms(1) by auto
qed

end

text \<open>The hits \<open>ts\<close> of a key are all its sorted set will give of the window of any later time.\<close>

definition redis_counts :: "limiter_config \<Rightarrow> timestamp \<Rightarrow> string \<Rightarrow> timestamp list \<Rightarrow> limiter_state \<Rightarrow> bool" where
  "redis_counts cfg c key ts st \<longleftrightarrow> (\<forall>t\<in>set ts. t \<le> c) \<and>
     (\<forall>u\<ge>c. in_window cfg u (live_scores key u st) = in_window cfg u ts) \<and> (\<forall>u. \<forall>t\<in>set (live_scores key u st). 0 \<le> t)"

lemma redis_hit_counts:
  assumes "redis_counts cfg c key ts st" and "c \<le> now" and "0 \<le> now" and "redis_hit cfg key now st = (n, st')"
  shows "n = length (in_window cfg now ts @ [now])" and "redis_counts cfg now key (ts @ [now]) st'"
proof -
  let ?w = "lc_windowMs cfg"
  have "filter (\<lambda>t. \<not> (0 \<le> t \<and> t \<le> now - ?w)) (live_scores key now st) = in_window cfg now (live_scores key now st)"
    using assms(1) unfolding in_window_def by (intro filter_cong) (auto simp: redis_counts_def)
  then have kept: "filter (\<lambda>t. \<not> (0 \<le> t \<and> t \<le> now - ?w)) (live_scores key now st) = in_window cfg now ts"
    using assms(1,2) by (simp add: redis_counts_def)
  have hit: "redis_hit cfg key now st = (length (in_window cfg now ts @ [now]),
       st\<lparr>lm_redis := (lm_redis st)(key \<mapsto> (in_window cfg now ts @ [now], now + 1000 * ceil_div ?w 1000))\<rparr>)"
    unfolding redis_hit_def kept Let_def by simp
  show "n = length (in_window cfg now ts @ [now])" using assms(4) unfolding hit by simp
  have live: "live_scores key u st' = (if now + 1000 * ceil_div ?w 1000 \<le> u then [] else in_window cfg now ts @ [now])" for u
    using assms(4) unfolding hit by (auto simp: live_scores_def)
  have le: "\<forall>t\<in>set ts. t \<le> now" using assms(1,2) by (auto simp: redis_counts_def)
  have "0 \<le> t" if "t \<in> set (in_window cfg now ts)" for t
    using that assms(1) unfolding kept [symmetric] by (auto simp: redis_counts_def)
  then have "\<forall>u. \<forall>t\<in>set (live_scores key u st'). 0 \<le> t" using assms(3) by (auto simp: live)
  moreover have "in_window cfg u (live_scores key u st') = in_window cfg u (ts @ [now])" if u: "now \<le> u" for u
  proof (cases "now + 1000 * ceil_div ?w 1000 \<le> u")
    case True
    then have "now \<le> u - ?w" using ceil_div_bound [of 1000 ?w] by simp
    with le have "in_window cfg u (ts @ [now]) = []" by (auto simp: in_window_def filter_empty_conv)
    with True show ?thesis by (simp add: live in_window_def)
  next
    case False
    with in_window_twice [OF u, of cfg ts] show ?thesis by (simp add: live)
  qed
  ultimately show "redis_counts cfg now key (ts @ [now]) st'" using le by (simp add: redis_counts_def)
qed

lemma redis_frame:
  assumes "redis_counts cfg c k ts st" and "c \<le> now" and "lm_redis st' k = lm_redis st k"
  shows "redis_counts cfg now k ts st'"
proof -
  have "live_scores k u st' = live_scores k u st" for u using assms(3) by (simp add: live_scores_def)
  with assms(1,2) show ?thesis by (auto simp: redis_counts_def)
qed

interpretation redis_window: window_counter cfg "redis_hit cfg" "redis_counts cfg" for cfg
proof
  fix c key ts st now n st' k
  show "redis_counts cfg c key ts st \<Longrightarrow> c \<le> now \<Longrightarrow> 0 \<le> now \<Longrightarrow> redis_hit cfg key now st = (n, st') \<Longrightarrow>
      n = length (in_window cfg now ts @ [now])"
    by (rule redis_hit_counts(1))
  show "redis_counts cfg c key ts st \<Longrightarrow> c \<le> now \<Longrightarrow> 0 \<le> now \<Longrightarrow> redis_hit cfg key now st = (n, st') \<Longrightarrow>
      redis_counts cfg now key (ts @ [now]) st'"
    by (rule redis_hit_counts(2))
  show "redis_counts cfg c k ts st \<Longrightarrow> c \<le> now \<Longrightarrow> k \<noteq> key \<Longrightarrow> redis_hit cfg key now st = (n, st') \<Longrightarrow>
      redis_counts cfg now k ts st'"
    by (erule redis_frame) (auto simp: redis_hit_def Let_def)
qed

text \<open>The same of the store in memory; sweeping drops only lists that have left the window.\<close>

definition hits_of :: "string \<Rightarrow> (string \<times> int list) list \<Rightarrow> int list" where
  "hits_of key m = (case map_of m key of None \<Rightarrow> [] | Some h \<Rightarrow> h)"

definition memory_counts :: "limiter_config \<Rightarrow> timestamp \<Rightarrow> string \<Rightarrow> timestamp list \<Rightarrow> limiter_state \<Rightarrow> bool" where
  "memory_counts cfg c key ts st \<longleftrightarrow> (\<forall>t\<in>set ts. t \<le> c) \<and> distinct (map fst (lm_memory st)) \<and>
     sorted (hits_of key (lm_memory st)) \<and> set (hits_of key (lm_memory st)) \<subseteq> set ts \<and>
     (\<forall>u\<ge>c. in_window cfg u (hits_of key (lm_memory st)) = in_window cfg u ts)"

text \<open>An entry survives the sweep with its list or not at all.\<close>

lemma swept_entry:
  assumes "distinct (map fst m)"
  shows "map_of (filter keep m) key = Some h \<longleftrightarrow> map_of m key = Some h \<and> keep (key, h)"
  using assms distinct_map_filter [OF assms, of keep] by (auto simp: map_of_eq_Some_iff)

lemma sorted_last_window: "sorted hits \<Longrightarrow> last hits \<le> now - lc_windowMs cfg \<Longrightarrow> in_window cfg now hits = []"
  by (cases hits rule: rev_cases) (auto simp: in_window_def sorted_append filter_empty_conv)

definition swept :: "limiter_config \<Rightarrow> timestamp \<Rightarrow> (string \<times> int list) list \<Rightarrow> (string \<times> int list) list" where
  "swept cfg now m = (if MEMORY_SWEEP_THRESHOLD < length m
     then filter (\<lambda>(k, hits). \<not> last hits \<le> now - lc_windowMs cfg) m else m)"

lemma swept_distinct: "distinct (map fst m) \<Longrightarrow> distinct (map fst (swept cfg now m))"
  by (simp add: swept_def distinct_map_filter)

lemma swept_hits:
  assumes "distinct (map fst m)" and "sorted (hits_of k m)"
  shows "hits_of k (swept cfg now m) = hits_of k m \<or> (hits_of k (swept cfg now m) = [] \<and> in_window cfg now (hits_of k m) = [])"
proof (cases "map_of (swept cfg now m) k")
  case None
  then have "map_of m k = None \<or> (\<exists>h. map_of m k = Some h \<and> last h \<le> now - lc_windowMs cfg)"
    using swept_entry [OF assms(1), of "\<lambda>(k, hits). \<not> last hits \<le> now - lc_windowMs cfg" k]
    by (cases "map_of m k") (auto simp: swept_def split: if_splits)
  then show ?thesis using None assms(2) sorted_last_window [of "hits_of k m" now cfg] by (auto simp: hits_of_def)
next
  case (Some h)
  then have "map_of m k = Some h" using assms(1) by (auto simp: swept_def swept_entry split: if_splits)
  with Some show ?thesis by (simp add: hits_of_def)
qed

text \<open>What the sweep at a time \<open>now\<close> leaves is enough for every window from then on.\<close>

lemma swept_counts:
  assumes "memory_counts cfg c k ts st" and "c \<le> now"
  shows "memory_counts cfg now k ts (st\<lparr>lm_memory := swept cfg now (lm_memory st)\<rparr>)"
proof -
  have m: "distinct (map fst (lm_memory st))" "sorted (hits_of k (lm_memory st))" "set (hits_of k (lm_memory st)) \<subseteq> set ts"
    "\<forall>t\<in>set ts. t \<le> now" "\<And>u. now \<le> u \<Longrightarrow> in_window cfg u (hits_of k (lm_memory st)) = in_window cfg u ts"
    using assms by (auto simp: memory_counts_def)
  have "in_window cfg u (hits_of k (swept cfg now (lm_memory st))) = in_window cfg u ts" if "now \<le> u" for u
    using swept_hits [OF m(1,2), of cfg now] m(5) [OF that] in_window_twice [OF that, of cfg "hits_of k (lm_memory st)"] by auto
  moreover have "sorted (hits_of k (swept cfg now (lm_memory st)))" "set (hits_of k (swept cfg now (lm_memory st))) \<subseteq> set ts"
    using swept_hits [OF m(1,2), of cfg now] m(2,3) by auto
  ultimately show ?thesis using m(4) swept_distinct [OF m(1)] by (simp add: memory_counts_def)
qed

lemma memoryCount_swept:
  "memoryCount cfg key now st =
     (let hits = in_window cfg now (hits_of key (swept cfg now (lm_memory st))) @ [now] in
      (length hits, st\<lparr>lm_memory := AList.update key hits (swept cfg now (lm_memory st))\<rparr>))"
  by (simp add: memoryCount_def in_window_def hits_of_def swept_def Let_def)

lemma hits_of_update [simp]: "hits_of k (AList.update key h m) = (if k = key then h else hits_of k m)"
  by (simp add: hits_of_def AList.update_conv')

lemma memory_hit_counts:
  assumes "memory_counts cfg c key ts st" and "c \<le> now" and "memoryCount cfg key now st = (n, st')"
  shows "n = length (in_window cfg now ts @ [now])" and "memory_counts cfg now key (ts @ [now]) st'"
proof -
  let ?sw = "swept cfg now (lm_memory st)"
  have m: "distinct (map fst ?sw)" "sorted (hits_of key ?sw)" "\<forall>t\<in>set ts. t \<le> now"
    "\<And>u. now \<le> u \<Longrightarrow> in_window cfg u (hits_of key ?sw) = in_window cfg u ts"
    using swept_counts [OF assms(1,2)] by (auto simp: memory_counts_def)
  have hit: "n = length (in_window cfg now ts @ [now])" "lm_memory st' = AList.update key (in_window cfg now ts @ [now]) ?sw"
    using assms(3) m(4) [of now] by (auto simp: memoryCount_swept Let_def)
  then show "n = length (in_window cfg now ts @ [now])" by simp
  have "sorted (in_window cfg now (hits_of key ?sw))" unfolding in_window_def using m(2) by (rule sorted_wrt_filter)
  then have "sorted (in_window cfg now ts)" unfolding m(4) [OF order_refl] .
  then have "sorted (in_window cfg now ts @ [now])" using m(3) by (auto simp: sorted_append)
  moreover have "distinct (map fst (AList.update key (in_window cfg now ts @ [now]) ?sw))" using m(1) by (rule AList.distinct_update)
  moreover have "in_window cfg u (in_window cfg now ts @ [now]) = in_window cfg u (ts @ [now])" if "now \<le> u" for u
    using in_window_twice [OF that, of cfg ts] by simp
  ultimately show "memory_counts cfg now key (ts @ [now]) st'" using m(3) by (auto simp: memory_counts_def hit(2))
qed

lemma memory_frame:
  assumes "memory_counts cfg c k ts st" and "c \<le> now" and "k \<noteq> key" and "memoryCount cfg key now st = (n, st')"
  shows "memory_counts cfg now k ts st'"
proof -
  have "lm_memory st' = AList.update key (in_window cfg now (hits_of key (swept cfg now (lm_memory st))) @ [now]) (swept cfg now (lm_memory st))"
    using assms(4) by (auto simp: memoryCount_swept Let_def)
  with swept_counts [OF assms(1,2)] assms(3) show ?thesis by (simp add: memory_counts_def AList.distinct_update)
qed

interpretation memory_window: window_counter cfg "memoryCount cfg" "memory_counts cfg" for cfg
  by unfold_locales (rule memory_hit_counts memory_frame; assumption)+

subsection \<open>The limiter against a reference\<close>

text \<open>The hits of a key among the requests that one of the stores counted.\<close>

definition hits_in :: "string \<Rightarrow> bool \<Rightarrow> limited_request list \<Rightarrow> timestamp list" where
  "hits_in key up rs = map (\<lambda>(k, t, u). t) (filter (\<lambda>(k, t, u). k = key \<and> u = up) rs)"

lemma hits_in_snoc: "hits_in k u (rs @ [(key, now, up)]) = hits_in k u rs @ (if k = key \<and> u = up then [now] else [])"
  by (auto simp: hits_in_def)

text \<open>
  The reference: the \<open>i\<close>-th request passes when fewer than \<open>max\<close> requests of the same key, refused ones
  included, that went to the same store have arrived in the window that ends with it.
\<close>

definition window_ok :: "limiter_config \<Rightarrow> limited_request list \<Rightarrow> nat \<Rightarrow> bool" where
  "window_ok cfg rs i = (case rs ! i of (key, now, up) \<Rightarrow> length (in_window cfg now (hits_in key up (take i rs))) < lc_max cfg)"

definition reference :: "limiter_config \<Rightarrow> limited_request list \<Rightarrow> nat \<Rightarrow> bool" where
  "reference cfg rs i =
     (if snd (snd (rs ! i)) \<or> lc_failClosed cfg \<and> lc_memoryFallback cfg then window_ok cfg rs i else \<not> lc_failClosed cfg)"

definition all_counted :: "limiter_config \<Rightarrow> timestamp \<Rightarrow> limited_request list \<Rightarrow> limiter_state \<Rightarrow> bool" where
  "all_counted cfg c rs st \<longleftrightarrow> (\<forall>k. redis_counts cfg c k (hits_in k True rs) st) \<and>
     (lc_failClosed cfg \<and> lc_memoryFallback cfg \<longrightarrow> (\<forall>k. memory_counts cfg c k (hits_in k False rs) st))"

lemma check_limit_counted:
  assumes "all_counted cfg c rs st" and "c \<le> now" and "0 \<le> now" and "check_limit cfg key now up st = (a, st')"
  shows "(passes a \<longleftrightarrow> reference cfg (rs @ (key, now, up) # later) (length rs)) \<and> all_counted cfg now (rs @ [(key, now, up)]) st'"
proof -
  have r: "\<forall>k. redis_counts cfg c k (hits_in k True rs) st"
    and m: "lc_failClosed cfg \<and> lc_memoryFallback cfg \<Longrightarrow> \<forall>k. memory_counts cfg c k (hits_in k False rs) st"
    using assms(1) by (simp_all add: all_counted_def)
  have w: "window_ok cfg (rs @ (key, now, up) # later) (length rs) \<longleftrightarrow> length (in_window cfg now (hits_in key up rs)) < lc_max cfg"
    by (simp add: window_ok_def)
  have redis_kept: "\<forall>k. redis_counts cfg now k (hits_in k True rs) s" if "lm_redis s = lm_redis st" for s
    using r assms(2) redis_frame that by metis
  have memory_kept: "\<forall>k. memory_counts cfg now k (hits_in k False rs) s"
    if "lc_failClosed cfg \<and> lc_memoryFallback cfg" "lm_memory s = lm_memory st" for s
    using m [OF that(1)] that(2) assms(2) by (fastforce simp: memory_counts_def)
  consider (redis) "up" | (no_store) "\<not> up" "\<not> (lc_failClosed cfg \<and> lc_memoryFallback cfg)"
    | (memory) "\<not> up" "lc_failClosed cfg \<and> lc_memoryFallback cfg" by blast
  then show ?thesis
  proof cases
    case redis
    obtain n where h: "redis_hit cfg key now st = (n, st')" and a: "a = decide cfg now n"
      using assms(4) redis by (auto simp: check_limit_def split: prod.splits)
    have "lm_memory st' = lm_memory st" using h by (auto simp: redis_hit_def Let_def)
    note d = redis_window.decision [OF r assms(2,3) h]
    have "redis_counts cfg now k (hits_in k True (rs @ [(key, now, up)])) st'" for k
      using d(2) [of k] redis by (simp add: hits_in_snoc split: if_splits)
    moreover have "hits_in k False (rs @ [(key, now, up)]) = hits_in k False rs" for k using redis by (simp add: hits_in_snoc)
    moreover have "passes a \<longleftrightarrow> reference cfg (rs @ (key, now, up) # later) (length rs)"
      using d(1) redis w by (simp add: a reference_def)
    ultimately show ?thesis using memory_kept [of st'] \<open>lm_memory st' = lm_memory st\<close> by (simp add: all_counted_def)
  next
    case no_store
    then have "st' = st" "passes a \<longleftrightarrow> \<not> lc_failClosed cfg" using assms(4) by (auto simp: check_limit_def split: if_splits)
    with redis_kept [of st] no_store show ?thesis by (auto simp: reference_def all_counted_def hits_in_snoc)
  next
    case memory
    obtain n where h: "memoryCount cfg key now st = (n, st')" and a: "a = decide cfg now n"
      using assms(4) memory by (auto simp: check_limit_def split: prod.splits)
    have "lm_redis st' = lm_redis st" using h by (auto simp: memoryCount_def Let_def)
    note d = memory_window.decision [OF m [OF memory(2)] assms(2,3) h]
    have "memory_counts cfg now k (hits_in k False (rs @ [(key, now, up)])) st'" for k
      using d(2) [of k] memory(1) by (simp add: hits_in_snoc split: if_splits)
    moreover have "hits_in k True (rs @ [(key, now, up)]) = hits_in k True rs" for k using memory(1) by (simp add: hits_in_snoc)
    moreover have "passes a \<longleftrightarrow> reference cfg (rs @ (key, now, up) # later) (length rs)"
      using d(1) memory w by (simp add: a reference_def)
    ultimately show ?thesis using redis_kept [of st'] \<open>lm_redis st' = lm_redis st\<close> by (simp add: all_counted_def)
  qed
qed

lemma limiter_run_ref:
  assumes "all_counted cfg c past st" and "0 \<le> c" and "sorted (map (\<lambda>(k, t, u). t) rs)" and "\<forall>(k, t, u)\<in>set rs. c \<le> t"
  shows "map passes (limiter_run cfg rs st) = map (reference cfg (past @ rs)) [length past..<length past + length rs]"
  using assms
proof (induction rs arbitrary: past st c)
  case (Cons r rs)
  obtain key now up where r: "r = (key, now, up)" by (cases r)
  obtain a st' where h: "check_limit cfg key now up st = (a, st')" by fastforce
  have le: "c \<le> now" "0 \<le> now" using Cons.prems(2,4) by (auto simp: r)
  note step = check_limit_counted [OF Cons.prems(1) le h, of rs]
  have "map passes (limiter_run cfg rs st') =
     map (reference cfg ((past @ [r]) @ rs)) [length (past @ [r])..<length (past @ [r]) + length rs]"
    by (rule Cons.IH [where c = now]) (use Cons.prems(3) step le(2) in \<open>auto simp: r\<close>)
  with step show ?case by (simp add: r h upt_conv_Cons del: upt_Suc)
qed simp

lemma fresh_counts:
  assumes "\<forall>k. lm_redis st k = None" and "lm_memory st = []"
  shows "all_counted cfg 0 [] st"
  using assms by (simp add: all_counted_def redis_counts_def memory_counts_def hits_in_def live_scores_def hits_of_def)

text \<open>
  C29: on every sequence of requests of any number of clients, each answered by Redis or during an outage
  of it, and starting with empty stores, the limiter decides exactly as the reference: a request that
  Redis counts, or that the fallback in memory counts, passes when fewer than \<open>max\<close> requests of the same
  client that went to the same store arrived in the window before it. Other clients never matter, and
  dropping, sweeping and expiring lose nothing and keep nothing too long. Without the fallback a request
  during an outage passes when the limiter fails open and not when it fails closed. An outage starts a new
  count, as the two stores do not share theirs.
\<close>

theorem limiter_is_sliding_window:
  assumes "\<forall>k. lm_redis st k = None" and "lm_memory st = []"
    and "sorted (map (\<lambda>(k, t, u). t) rs)" and "\<forall>(k, t, u)\<in>set rs. 0 \<le> t"
  shows "map passes (limiter_run cfg rs st) = map (reference cfg rs) [0..<length rs]"
  using limiter_run_ref [OF fresh_counts [OF assms(1,2)] order_refl assms(3,4)] by simp

text \<open>
  a refused request counts like any other, so a client that retries at a steady pace with more
  than \<open>max\<close> requests in a window is let in for the first \<open>max\<close> of them and never again, although it
  would be entitled to \<open>max\<close> in every window.
\<close>

lemma steady_hits: "hits_in key True (map (\<lambda>i. (key, int i * d, True)) is) = map (\<lambda>i. int i * d) is"
  by (induction "is") (simp_all add: hits_in_def)

theorem steady_client_is_locked_out:
  assumes "\<forall>k. lm_redis st k = None" and "lm_memory st = []" and "0 \<le> d" and "int (lc_max cfg) * d < lc_windowMs cfg"
  shows "map passes (limiter_run cfg (map (\<lambda>i. (key, int i * d, True)) [0..<n]) st) = map (\<lambda>i. i < lc_max cfg) [0..<n]"
proof -
  let ?rs = "map (\<lambda>i. (key, int i * d, True)) [0..<n]"
  have "sorted (map (\<lambda>(k, t, u). t) ?rs)" using assms(3) by (auto simp: sorted_iff_nth_mono intro!: mult_right_mono)
  moreover have "\<forall>(k, t, u)\<in>set ?rs. 0 \<le> t" using assms(3) by auto
  ultimately have run: "map passes (limiter_run cfg ?rs st) = map (reference cfg ?rs) [0..<n]"
    using limiter_run_ref [OF fresh_counts [OF assms(1,2)] order_refl, of ?rs cfg] by simp
  have "reference cfg ?rs i \<longleftrightarrow> i < lc_max cfg" if i: "i < n" for i
  proof -
    have tk: "take i ?rs = map (\<lambda>i. (key, int i * d, True)) [0..<i]" using i by (simp add: take_map)
    have ref: "reference cfg ?rs i \<longleftrightarrow> length (in_window cfg (int i * d) (map (\<lambda>i. int i * d) [0..<i])) < lc_max cfg"
      using i by (simp add: reference_def window_ok_def tk steady_hits)
    show ?thesis
    proof (cases "i < lc_max cfg")
      case True
      have "length (in_window cfg (int i * d) (map (\<lambda>i. int i * d) [0..<i])) \<le> i"
        unfolding in_window_def by (rule order_trans [OF length_filter_le]) simp
      with True show ?thesis by (simp add: ref)
    next
      case False
      let ?p = "\<lambda>j. int i * d - lc_windowMs cfg < int j * d"
      have "?p j" if "j \<in> set [i - lc_max cfg..<i]" for j
      proof -
        have "(int i - int j) * d \<le> int (lc_max cfg) * d"
          using that assms(3) False by (intro mult_right_mono) auto
        with assms(4) show ?thesis by (simp add: left_diff_distrib)
      qed
      then have "filter ?p [i - lc_max cfg..<i] = [i - lc_max cfg..<i]" by (simp add: filter_id_conv)
      moreover have "[0..<i] = [0..<i - lc_max cfg] @ [i - lc_max cfg..<i]"
        by (metis diff_le_self le_add_diff_inverse upt_add_eq_append zero_le)
      ultimately have "lc_max cfg \<le> length (filter ?p [0..<i])" using False by simp
      with False show ?thesis by (simp add: ref in_window_def filter_map comp_def)
    qed
  qed
  then have "map (reference cfg ?rs) [0..<n] = map (\<lambda>i. i < lc_max cfg) [0..<n]" by simp
  with run show ?thesis by simp
qed

subsection \<open>Idempotency keys\<close>

record cached_response =
  cy_status :: int
  cy_body :: string
  cy_expires :: timestamp

text \<open>
  \<open>id_started\<close> are the requests whose handler was started, \<open>id_replayed\<close> those answered from the
  cache, with the status and body. A request without a key header starts its handler and stores nothing.
\<close>

record idempotency_state =
  id_cache :: "string \<Rightarrow> cached_response option"
  id_started :: "nat list"
  id_replayed :: "(nat \<times> int \<times> string) list"

definition idempotency_key :: "string \<Rightarrow> string \<Rightarrow> string \<Rightarrow> string \<Rightarrow> string" where
  "idempotency_key uid method path key = ''idempotency:'' @ uid @ '':'' @ method @ '':'' @ path @ '':'' @ key"

definition cached :: "string \<Rightarrow> timestamp \<Rightarrow> idempotency_state \<Rightarrow> cached_response option" where
  "cached ck now st = (case id_cache st ck of None \<Rightarrow> None | Some r \<Rightarrow> if cy_expires r \<le> now then None else Some r)"

text \<open>\<open>ck\<close> is the cache key, absent without the header; a failed read counts as a miss.\<close>

definition arrive :: "nat \<Rightarrow> string option \<Rightarrow> timestamp \<Rightarrow> bool \<Rightarrow> idempotency_state \<Rightarrow> idempotency_state" where
  "arrive rid ck now read_ok st =
     (case (if read_ok then Option.bind ck (\<lambda>k. cached k now st) else None) of
        Some r \<Rightarrow> st\<lparr>id_replayed := id_replayed st @ [(rid, cy_status r, cy_body r)]\<rparr>
      | None \<Rightarrow> st\<lparr>id_started := id_started st @ [rid]\<rparr>)"

text \<open>The wrapped \<open>res.json\<close> of a handler that ends; a failed write is caught.\<close>

definition respond :: "int \<Rightarrow> string option \<Rightarrow> timestamp \<Rightarrow> bool \<Rightarrow> int \<Rightarrow> string \<Rightarrow> idempotency_state \<Rightarrow> idempotency_state" where
  "respond ttlMs ck now write_ok status body st =
     (case ck of
        Some k \<Rightarrow>
          if 200 \<le> status \<and> status < 300 \<and> write_ok
          then st\<lparr>id_cache := (id_cache st)(k \<mapsto> \<lparr>cy_status = status, cy_body = body, cy_expires = now + 1000 * ceil_div ttlMs 1000\<rparr>)\<rparr>
          else st
      | None \<Rightarrow> st)"

datatype idempotency_event =
    IE_arrive nat "string option" timestamp bool
  | IE_respond "string option" timestamp bool int string

fun idempotency_step :: "int \<Rightarrow> idempotency_event \<Rightarrow> idempotency_state \<Rightarrow> idempotency_state" where
  "idempotency_step ttlMs (IE_arrive rid ck now ok) st = arrive rid ck now ok st"
| "idempotency_step ttlMs (IE_respond ck now ok status body) st = respond ttlMs ck now ok status body st"

fun responds_to :: "string \<Rightarrow> idempotency_event \<Rightarrow> bool" where
  "responds_to k (IE_respond ck now ok status body) \<longleftrightarrow> ck = Some k"
| "responds_to k (IE_arrive rid ck now ok) \<longleftrightarrow> False"

lemma cache_arrive [simp]: "id_cache (arrive rid ck now ok st) = id_cache st"
  by (simp add: arrive_def split: option.split)

lemma cache_kept:
  "\<forall>e\<in>set es. \<not> responds_to k e \<Longrightarrow> id_cache (fold (idempotency_step ttlMs) es st) k = id_cache st k"
proof (induction es arbitrary: st)
  case (Cons e es)
  then show ?case by (cases e) (auto simp: respond_def split: option.split)
qed simp

text \<open>
  once a successful response is stored, every request with the same key within the time to live is
  answered with it and starts no handler, whatever happens in between to other keys. Before it is
  stored nothing holds the key: a repetition that arrives while the first request is still running
  starts the handler a second time.
\<close>

theorem stored_response_is_replayed:
  assumes "200 \<le> status" and "status < 300" and "\<forall>e\<in>set es. \<not> responds_to k e"
    and "now < t0 + 1000 * ceil_div ttlMs 1000"
  shows "let st1 = fold (idempotency_step ttlMs) es (respond ttlMs (Some k) t0 True status body st);
             st2 = arrive rid (Some k) now True st1
         in id_started st2 = id_started st1 \<and> id_replayed st2 = id_replayed st1 @ [(rid, status, body)] \<and>
            (id_cache st k = None \<longrightarrow>
               id_started (arrive r2 (Some k) u2 ok2 (arrive r1 (Some k) u1 ok1 st)) = id_started st @ [r1, r2])"
proof -
  let ?st1 = "fold (idempotency_step ttlMs) es (respond ttlMs (Some k) t0 True status body st)"
  have "id_cache ?st1 k = Some \<lparr>cy_status = status, cy_body = body, cy_expires = t0 + 1000 * ceil_div ttlMs 1000\<rparr>"
    using assms(1,2) by (simp add: cache_kept [OF assms(3)] respond_def)
  with assms(4) have "cached k now ?st1 = Some \<lparr>cy_status = status, cy_body = body, cy_expires = t0 + 1000 * ceil_div ttlMs 1000\<rparr>"
    by (simp add: cached_def)
  moreover have "id_cache st k = None \<Longrightarrow>
      id_started (arrive r2 (Some k) u2 ok2 (arrive r1 (Some k) u1 ok1 st)) = id_started st @ [r1, r2]"
    by (simp add: arrive_def cached_def)
  ultimately show ?thesis by (simp add: Let_def arrive_def)
qed

subsection \<open>Witnesses\<close>

definition two_per_second :: limiter_config where
  "two_per_second = \<lparr>lc_windowMs = 1000, lc_max = 2, lc_failClosed = True, lc_memoryFallback = True\<rparr>"

definition fresh_limiter :: limiter_state where
  "fresh_limiter = \<lparr>lm_redis = Map.empty, lm_memory = []\<rparr>"

text \<open>Two clients and an outage in the middle: the memory counts from one again.\<close>

theorem limiter_is_sliding_window_witness:
  "map passes (limiter_run two_per_second [(''a'', 0, True), (''b'', 50, True), (''a'', 100, True), (''a'', 200, True),
       (''a'', 300, False), (''b'', 400, True), (''a'', 1250, True)] fresh_limiter) = [True, True, True, False, True, True, True]"
proof -
  let ?rs = "[(''a'', 0, True), (''b'', 50, True), (''a'', 100, True), (''a'', 200, True),
       (''a'', 300, False), (''b'', 400, True), (''a'', 1250, True)] :: limited_request list"
  have "\<forall>k. lm_redis fresh_limiter k = None" "lm_memory fresh_limiter = []" "sorted (map (\<lambda>(k, t, u). t) ?rs)"
    "\<forall>(k, t, u)\<in>set ?rs. 0 \<le> t"
    by (simp_all add: fresh_limiter_def)
  from limiter_is_sliding_window [OF this, of two_per_second] show ?thesis
    by (simp add: reference_def window_ok_def hits_in_def in_window_def two_per_second_def upt_conv_Cons)
qed

theorem steady_client_is_locked_out_witness:
  "map passes (limiter_run two_per_second (map (\<lambda>i. (''k'', int i * 400, True)) [0..<5]) fresh_limiter) = [True, True, False, False, False]"
proof -
  have "\<forall>k. lm_redis fresh_limiter k = None" "lm_memory fresh_limiter = []" "(0::int) \<le> 400"
    "int (lc_max two_per_second) * 400 < lc_windowMs two_per_second"
    by (simp_all add: fresh_limiter_def two_per_second_def)
  from steady_client_is_locked_out [OF this, of "''k''" 5] show ?thesis by (simp add: two_per_second_def upt_conv_Cons)
qed

definition idle_cache :: idempotency_state where
  "idle_cache = \<lparr>id_cache = Map.empty, id_started = [], id_replayed = []\<rparr>"

theorem stored_response_is_replayed_witness:
  "id_replayed (arrive 3 (Some ''k'') 59999 True (fold (idempotency_step 60000) [IE_arrive 2 None 5 True]
      (respond 60000 (Some ''k'') 0 True 201 ''ok'' idle_cache))) = [(3, 201, ''ok'')]"
proof -
  have p: "(200::int) \<le> 201" "(201::int) < 300" "\<forall>e\<in>set [IE_arrive 2 None 5 True]. \<not> responds_to ''k'' e"
      "(59999::int) < 0 + 1000 * ceil_div 60000 1000"
    by (simp_all add: ceil_div_def)
  show ?thesis
    using stored_response_is_replayed [OF p, where body = "''ok''" and st = idle_cache and rid = 3]
    by (simp add: Let_def idle_cache_def arrive_def respond_def)
qed

end
