(* ===== verification/Validators.thy ===== *)
theory Validators
  imports AppErrors
begin

text \<open>
  The validators of \<open>validators/ServiceValidator.ts\<close> with the patterns and limits of
  \<open>config/constants.ts\<close> they use, on string arguments: a validator returns the error it throws. The
  tests of \<open>typeof\<close>, which the types of the callers make constant, are left out; numbers are integers.
\<close>

subsection \<open>Patterns\<close>

definition alnum :: "char \<Rightarrow> bool" where
  "alnum c \<longleftrightarrow> c \<in> set ''ABCDEFGHIJKLMNOPQRSTUVWXYZabcdefghijklmnopqrstuvwxyz0123456789''"

definition hex_lower :: "char \<Rightarrow> bool" where
  "hex_lower c \<longleftrightarrow> c \<in> set ''0123456789abcdef''"

text \<open>The version 4 pattern, without regard to case: \<open>x\<close> is a hexadecimal digit, \<open>y\<close> one of 8, 9, a and b.\<close>

definition uuid_char :: "char \<Rightarrow> char \<Rightarrow> bool" where
  "uuid_char x c \<longleftrightarrow> (if x = CHR ''x'' then hex_lower c else if x = CHR ''y'' then c \<in> set ''89ab'' else c = x)"

definition is_uuid :: "string \<Rightarrow> bool" where
  "is_uuid s \<longleftrightarrow> list_all2 uuid_char ''xxxxxxxx-xxxx-4xxx-yxxx-xxxxxxxxxxxx'' (ascii_lower s)"

definition is_username :: "string \<Rightarrow> bool" where
  "is_username s \<longleftrightarrow> s \<noteq> [] \<and> list_all (\<lambda>c. alnum c \<or> c = CHR ''_'' \<or> c = CHR ''-'') s"

text \<open>The class \<open>[^\s@]\<close>, and the pattern \<open>^[^\s@]+@[^\s@]+\.[^\s@]+$\<close>: the first \<open>@\<close> is the only one.\<close>

definition mail_char :: "char \<Rightarrow> bool" where
  "mail_char c \<longleftrightarrow> \<not> js_space c \<and> c \<noteq> CHR ''@''"

definition is_email :: "string \<Rightarrow> bool" where
  "is_email s \<longleftrightarrow>
     (case dropWhile mail_char s of
        [] \<Rightarrow> False
      | c # domain \<Rightarrow>
          takeWhile mail_char s \<noteq> [] \<and> c = CHR ''@'' \<and> list_all mail_char domain \<and>
          CHR ''.'' \<in> set (butlast (drop 1 domain)))"

definition is_stellar_key :: "string \<Rightarrow> bool" where
  "is_stellar_key s \<longleftrightarrow> length s = 56 \<and> take 1 s = ''G'' \<and> list_all (\<lambda>c. c \<in> set ''ABCDEFGHIJKLMNOPQRSTUVWXYZ234567'') s"

definition is_ethereum_address :: "string \<Rightarrow> bool" where
  "is_ethereum_address s \<longleftrightarrow>
     length s = 42 \<and> take 2 s = ''0x'' \<and> list_all (\<lambda>c. c \<in> set ''0123456789abcdefABCDEF'') (drop 2 s)"

subsection \<open>Validators\<close>

definition invalid :: "string \<Rightarrow> (string \<times> detail_value) list \<Rightarrow> js_error option" where
  "invalid msg det = Some (AppErr (AE_validation msg (OneDetail det) None))"

text \<open>One check after the other: the first that throws ends the validator.\<close>

definition then_check :: "js_error option \<Rightarrow> js_error option \<Rightarrow> js_error option" where
  "then_check a b = (case a of Some e \<Rightarrow> Some e | None \<Rightarrow> b)"

definition validateRequiredFields :: "(string \<Rightarrow> string option) \<Rightarrow> string list \<Rightarrow> js_error option" where
  "validateRequiredFields data fs =
     (let missing = filter (\<lambda>f. \<not> truthy (data f)) fs in
      if missing \<noteq> []
      then invalid (''Missing required fields: '' @ join_with '', '' missing)
             [(''field'', DStr ''multiple''), (''value'', DStrs missing)]
      else None)"

definition validateEmail :: "string \<Rightarrow> js_error option" where
  "validateEmail email =
     then_check (validateRequired (Some email) ''email'')
       (if is_email email then None else invalid ''Invalid email format'' [(''field'', DStr ''email''), (''value'', DStr email)])"

definition USERNAME_MIN_LENGTH :: nat where "USERNAME_MIN_LENGTH = 3"
definition USERNAME_MAX_LENGTH :: nat where "USERNAME_MAX_LENGTH = 30"

definition validateUsername :: "string \<Rightarrow> js_error option" where
  "validateUsername u =
     then_check (validateRequired (Some u) ''username'')
       (if length u < USERNAME_MIN_LENGTH \<or> length u > USERNAME_MAX_LENGTH
        then invalid (''Username must be between '' @ nat_str USERNAME_MIN_LENGTH @ '' and '' @ nat_str USERNAME_MAX_LENGTH @ '' characters'')
               [(''field'', DStr ''username''), (''value'', DStr u),
                (''constraint'', DStr (''length:'' @ nat_str USERNAME_MIN_LENGTH @ ''-'' @ nat_str USERNAME_MAX_LENGTH))]
        else if \<not> is_username u
        then invalid ''Username can only contain letters, numbers, underscores, and hyphens''
               [(''field'', DStr ''username''), (''value'', DStr u)]
        else None)"

definition PASSWORD_MIN_LENGTH :: nat where "PASSWORD_MIN_LENGTH = 8"
definition PASSWORD_MAX_LENGTH :: nat where "PASSWORD_MAX_LENGTH = 128"

definition validatePassword :: "string \<Rightarrow> js_error option" where
  "validatePassword p =
     then_check (validateRequired (Some p) ''password'')
       (if length p < PASSWORD_MIN_LENGTH
        then invalid (''Password must be at least '' @ nat_str PASSWORD_MIN_LENGTH @ '' characters'')
               [(''field'', DStr ''password''), (''constraint'', DStr (''minLength:'' @ nat_str PASSWORD_MIN_LENGTH))]
        else if length p > PASSWORD_MAX_LENGTH
        then invalid (''Password cannot exceed '' @ nat_str PASSWORD_MAX_LENGTH @ '' characters'')
               [(''field'', DStr ''password''), (''constraint'', DStr (''maxLength:'' @ nat_str PASSWORD_MAX_LENGTH))]
        else None)"

definition STELLAR_PUBLIC_KEY_LENGTH :: nat where "STELLAR_PUBLIC_KEY_LENGTH = 56"

definition validateStellarPublicKey :: "string \<Rightarrow> js_error option" where
  "validateStellarPublicKey k =
     then_check (validateRequired (Some k) ''stellarPublicKey'')
       (if length k \<noteq> STELLAR_PUBLIC_KEY_LENGTH
        then invalid (''Stellar public key must be exactly '' @ nat_str STELLAR_PUBLIC_KEY_LENGTH @ '' characters'')
               [(''field'', DStr ''stellarPublicKey''), (''value'', DStr k)]
        else if \<not> is_stellar_key k
        then invalid ''Invalid Stellar public key format (must start with G)'' [(''field'', DStr ''stellarPublicKey''), (''value'', DStr k)]
        else None)"

definition validateEthereumAddress :: "string \<Rightarrow> js_error option" where
  "validateEthereumAddress a =
     then_check (validateRequired (Some a) ''walletAddress'')
       (if is_ethereum_address a then None
        else invalid ''Invalid Ethereum address format'' [(''field'', DStr ''walletAddress''), (''value'', DStr a)])"

definition validateStringLength :: "string \<Rightarrow> string \<Rightarrow> nat \<Rightarrow> nat \<Rightarrow> js_error option" where
  "validateStringLength v field mn mx =
     then_check (validateRequired (Some v) field)
       (if length v < mn
        then invalid (field @ '' must be at least '' @ nat_str mn @ '' characters'')
               [(''field'', DStr field), (''value'', DStr v), (''constraint'', DStr (''minLength:'' @ nat_str mn))]
        else if length v > mx
        then invalid (field @ '' cannot exceed '' @ nat_str mx @ '' characters'')
               [(''field'', DStr field), (''value'', DStr v), (''constraint'', DStr (''maxLength:'' @ nat_str mx))]
        else None)"

definition validateSongTitle :: "string \<Rightarrow> js_error option" where
  "validateSongTitle t = validateStringLength t ''title'' 1 200"

definition validateSongDescription :: "string \<Rightarrow> js_error option" where
  "validateSongDescription d = (if d \<noteq> [] then validateStringLength d ''description'' 0 5000 else None)"

definition validateAlbumTitle :: "string \<Rightarrow> js_error option" where
  "validateAlbumTitle t = validateStringLength t ''title'' 1 200"

definition validateArtistBio :: "string \<Rightarrow> js_error option" where
  "validateArtistBio b = (if b \<noteq> [] then validateStringLength b ''bio'' 0 2000 else None)"

definition validateNumberRange :: "int \<Rightarrow> string \<Rightarrow> int \<Rightarrow> int \<Rightarrow> js_error option" where
  "validateNumberRange v field mn mx =
     (if v < mn \<or> v > mx
      then invalid (field @ '' must be between '' @ int_str mn @ '' and '' @ int_str mx)
             [(''field'', DStr field), (''value'', DNum v), (''constraint'', DStr (''range:'' @ int_str mn @ ''-'' @ int_str mx))]
      else None)"

definition validatePositiveInteger :: "int \<Rightarrow> string \<Rightarrow> js_error option" where
  "validatePositiveInteger v field =
     (if v < 0 then invalid (field @ '' must be a positive integer'') [(''field'', DStr field), (''value'', DNum v)] else None)"

definition validateUUID :: "string \<Rightarrow> string \<Rightarrow> js_error option" where
  "validateUUID v field =
     then_check (validateRequired (Some v) field)
       (if is_uuid v then None
        else invalid (field @ '' must be a valid UUID'') [(''field'', DStr field), (''value'', DStr v)])"

definition validateEnum :: "string \<Rightarrow> string \<Rightarrow> string list \<Rightarrow> js_error option" where
  "validateEnum v field allowed =
     then_check (validateRequired (Some v) field)
       (if v \<in> set allowed then None
        else invalid (field @ '' must be one of: '' @ join_with '', '' allowed)
               [(''field'', DStr field), (''value'', DStr v), (''constraint'', DStr (''enum:'' @ join_with ''|'' allowed))])"

definition validateOwnership :: "ident \<Rightarrow> ident \<Rightarrow> string \<Rightarrow> js_error option" where
  "validateOwnership owner requester what =
     (if owner \<noteq> requester
      then Some (AppErr (AE_authorization (''You do not have permission to modify this '' @ what)
             (OneDetail [(''field'', DStr ''userId''), (''value'', DStr requester)]) None))
      else None)"

definition validateStatusTransition :: "string \<Rightarrow> string \<Rightarrow> (string \<Rightarrow> string list option) \<Rightarrow> js_error option" where
  "validateStatusTransition cur new transitions =
     (let allowed = (case transitions cur of None \<Rightarrow> [] | Some a \<Rightarrow> a) in
      if new \<notin> set allowed
      then Some (AppErr (AE_businessLogic (''Invalid status transition from '' @ cur @ '' to '' @ new)
             (OneDetail [(''field'', DStr ''status''), (''value'', DStr new),
                (''constraint'', DStr (''allowedTransitions:'' @ join_with ''|'' allowed))]) None))
      else None)"

subsection \<open>What is accepted\<close>

lemma then_check_None [simp]: "then_check a b = None \<longleftrightarrow> a = None \<and> b = None"
  by (simp add: then_check_def split: option.split)

lemma invalid_Some [simp]: "invalid msg det \<noteq> None"
  by (simp add: invalid_def)

lemma validateRequired_None [simp]: "validateRequired (Some v) field = None \<longleftrightarrow> v \<noteq> []"
  by (simp add: validateRequired_def truthy_def)

lemma validateUUID_None [simp]: "validateUUID v field = None \<longleftrightarrow> is_uuid v"
  by (auto simp: validateUUID_def is_uuid_def ascii_lower_def)

lemma validateUUID_ok [simp]: "is_uuid v \<Longrightarrow> validateUUID v field = None"
  by simp

lemma validateStringLength_None [simp]:
  "validateStringLength v field mn mx = None \<longleftrightarrow> v \<noteq> [] \<and> mn \<le> length v \<and> length v \<le> mx"
  by (auto simp: validateStringLength_def)

lemma validateUsername_None [simp]:
  "validateUsername u = None \<longleftrightarrow> 3 \<le> length u \<and> length u \<le> 30 \<and> is_username u"
  by (auto simp: validateUsername_def USERNAME_MIN_LENGTH_def USERNAME_MAX_LENGTH_def)

lemma mail_char_dot: "mail_char CHR ''.''"
  by (simp add: mail_char_def js_space_def)

lemma mail_char_at: "\<not> mail_char CHR ''@''"
  by (simp add: mail_char_def)

lemma in_butlast_split: "x \<in> set (butlast xs) \<longleftrightarrow> (\<exists>us vs. xs = us @ x # vs \<and> vs \<noteq> [])"
proof
  assume "x \<in> set (butlast xs)"
  then obtain us vs where "butlast xs = us @ x # vs" by (auto dest: split_list)
  moreover have "xs \<noteq> []" using \<open>x \<in> set (butlast xs)\<close> by auto
  ultimately have "xs = us @ x # (vs @ [last xs])" by (metis append.assoc append_Cons append_butlast_last_id)
  then show "\<exists>us vs. xs = us @ x # vs \<and> vs \<noteq> []" by blast
qed (auto simp: butlast_append)

lemma domain_split:
  "CHR ''.'' \<in> set (butlast (drop 1 d)) \<longleftrightarrow> (\<exists>h t. d = h @ CHR ''.'' # t \<and> h \<noteq> [] \<and> t \<noteq> [])"
proof (cases d)
  case (Cons a d')
  have "(\<exists>us vs. d' = us @ CHR ''.'' # vs \<and> vs \<noteq> []) \<longleftrightarrow> (\<exists>h t. d = h @ CHR ''.'' # t \<and> h \<noteq> [] \<and> t \<noteq> [])"
    unfolding Cons by (metis append_Cons append_is_Nil_conv list.inject neq_Nil_conv)
  then show ?thesis unfolding Cons in_butlast_split [symmetric] by simp
qed simp

text \<open>
  an e-mail address is accepted exactly when it matches the pattern read as a regular expression,
  with its three nonempty parts around an \<open>@\<close> and a dot: taking the first \<open>@\<close> as the separator loses
  no match.
\<close>

theorem email_pattern_is_decided:
  "validateEmail s = None \<longleftrightarrow>
     (\<exists>l h t. s = l @ CHR ''@'' # h @ CHR ''.'' # t \<and> l \<noteq> [] \<and> h \<noteq> [] \<and> t \<noteq> [] \<and> (\<forall>c\<in>set (l @ h @ t). mail_char c))"
    (is "_ \<longleftrightarrow> ?match")
proof -
  have "is_email s \<longleftrightarrow> ?match"
  proof
    assume e: "is_email s"
    then obtain d where d: "dropWhile mail_char s = CHR ''@'' # d" "takeWhile mail_char s \<noteq> []" "list_all mail_char d"
        "CHR ''.'' \<in> set (butlast (drop 1 d))"
      by (auto simp: is_email_def split: list.splits)
    then obtain h t where "d = h @ CHR ''.'' # t" "h \<noteq> []" "t \<noteq> []" using domain_split by blast
    moreover have "s = takeWhile mail_char s @ CHR ''@'' # d" using takeWhile_dropWhile_id [of mail_char s] d(1) by simp
    moreover have "\<forall>c\<in>set (takeWhile mail_char s @ d). mail_char c" using d(3) by (auto simp: list_all_iff dest: set_takeWhileD)
    ultimately show ?match using d(2) by (metis Un_iff list.set_intros(2) set_append)
  next
    assume ?match
    then obtain l h t where m: "s = l @ CHR ''@'' # h @ CHR ''.'' # t" "l \<noteq> []" "h \<noteq> []" "t \<noteq> []" "\<forall>c\<in>set (l @ h @ t). mail_char c"
      by blast
    have "dropWhile mail_char s = CHR ''@'' # h @ CHR ''.'' # t" "takeWhile mail_char s = l"
      using m(1,5) mail_char_at by (simp_all add: dropWhile_append2 takeWhile_append2)
    moreover have "CHR ''.'' \<in> set (butlast (drop 1 (h @ CHR ''.'' # t)))" using m(3,4) domain_split by blast
    ultimately show "is_email s" using m(2,5) mail_char_dot by (simp add: is_email_def list_all_iff)
  qed
  moreover have "is_email s \<Longrightarrow> s \<noteq> []" by (auto simp: is_email_def)
  ultimately show ?thesis
    by (auto simp: validateEmail_def then_check_def validateRequired_def truthy_def invalid_def split: option.splits)
qed

theorem email_pattern_is_decided_witness:
  "validateEmail ''a.b@c.d.e'' = None \<and> validateEmail ''a@b'' \<noteq> None"
proof -
  have "validateEmail ''a.b@c.d.e'' = None"
    unfolding email_pattern_is_decided
    by (rule exI [of _ "''a.b''"], rule exI [of _ "''c''"], rule exI [of _ "''d.e''"]) (simp add: mail_char_def js_space_def)
  moreover have "validateEmail ''a@b'' \<noteq> None" by (simp add: validateEmail_def then_check_def validateRequired_def truthy_def invalid_def is_email_def mail_char_def js_space_def)
  ultimately show ?thesis by blast
qed

end
