(* ===== verification/Api_Keys.thy ===== *)
theory Api_Keys
  imports Request_Auth Request_Limits Validators
begin

text \<open>
  API keys: \<open>services/ApiKeyService.ts\<close>, \<open>utils/apiKeyCrypto.ts\<close> and the middleware
  \<open>middlewares/apiKeyMiddleware.ts\<close> with its tiered limiter. SHA-256 and the random secret are
  parameters; the constant-time comparison is the equality it decides.
\<close>

subsection \<open>Entities\<close>

datatype api_scope = AS_READ_ONLY | AS_UPLOAD | AS_ADMIN

fun scope_name :: "api_scope \<Rightarrow> string" where
  "scope_name AS_READ_ONLY = ''read-only''"
| "scope_name AS_UPLOAD = ''upload''"
| "scope_name AS_ADMIN = ''admin''"

record api_key =
  ak_id :: ident
  ak_userId :: ident
  ak_name :: string
  ak_keyHash :: string
  ak_keyPrefix :: "string option"
  ak_scopes :: "api_scope list"
  ak_rateLimitTier :: string
  ak_permissions :: "string list"
  ak_revokedAt :: "timestamp option"
  ak_lastUsedAt :: "timestamp option"
  ak_createdAt :: timestamp

text \<open>The columns of a user the keys need; the rest of a user is in \<open>Users\<close>.\<close>

record key_owner =
  ko_id :: ident
  ko_role :: user_role

record api_key_db =
  kd_keys :: "api_key table"
  kd_users :: "key_owner table"

definition find_owner :: "ident \<Rightarrow> api_key_db \<Rightarrow> key_owner option" where
  "find_owner uid db = tbl_find (\<lambda>u. ko_id u = uid) (kd_users db)"

subsection \<open>Key format\<close>

definition API_KEY_NAME_MAX_LENGTH :: nat where
  "API_KEY_NAME_MAX_LENGTH = 100"

definition MAX_ACTIVE_KEYS_PER_USER :: nat where
  "MAX_ACTIVE_KEYS_PER_USER = 20"

definition validate_name :: "string \<Rightarrow> js_error option" where
  "validate_name name =
     (case validateRequired (Some name) ''name'' of
        Some e \<Rightarrow> Some e
      | None \<Rightarrow> validateStringLength name ''name'' 1 API_KEY_NAME_MAX_LENGTH)"

definition isApiKeyFormat :: "string \<Rightarrow> bool" where
  "isApiKeyFormat v \<longleftrightarrow> take 4 v = ''abk_'' \<and> length v = 68 \<and> list_all hex_lower (drop 4 v)"

text \<open>\<open>secret\<close> is the hexadecimal text of 32 random bytes.\<close>

definition generateApiKey :: "(string \<Rightarrow> string) \<Rightarrow> string \<Rightarrow> string \<times> string \<times> string" where
  "generateApiKey sha secret = (let raw = ''abk_'' @ secret in (raw, sha raw, ''abk_'' @ take 8 secret))"

subsection \<open>The service\<close>

definition permission_of :: "string \<Rightarrow> permission option" where
  "permission_of s = map_of (map (\<lambda>p. (permission_name p, p)) all_permissions) s"

fun assertPermissionsAllowedForRole :: "user_role \<Rightarrow> string list \<Rightarrow> js_error option" where
  "assertPermissionsAllowedForRole r [] = None"
| "assertPermissionsAllowedForRole r (p # ps) =
     (case permission_of p of
        None \<Rightarrow> Some (err_validation (''Unknown permission: '' @ p) ''INVALID_PERMISSION'')
      | Some q \<Rightarrow>
          if \<not> roleHasPermission r q
          then Some (err_authorization (''Cannot issue a key with permission \"'' @ p @ ''\": your role does not hold it'')
                 ''PERMISSION_EXCEEDS_ROLE'')
          else assertPermissionsAllowedForRole r ps)"

text \<open>\<open>API_KEY_RATE_LIMIT_TIERS\<close> is a type; no value is checked at run time.\<close>

definition active_keys :: "ident \<Rightarrow> api_key_db \<Rightarrow> api_key list" where
  "active_keys uid db = filter (\<lambda>k. ak_userId k = uid \<and> ak_revokedAt k = None) (kd_keys db)"

definition createApiKey ::
  "(string \<Rightarrow> string) \<Rightarrow> ident \<Rightarrow> string \<Rightarrow> timestamp \<Rightarrow> ident \<Rightarrow> string \<Rightarrow> api_scope list \<Rightarrow> string list \<Rightarrow> string \<Rightarrow>
   (api_key_db, api_key \<times> string) service" where
  "createApiKey sha kid secret now uid name scopes perms tier db =
     (case validateUUID uid ''userId'' of
        Some e \<Rightarrow> (Inl e, db)
      | None \<Rightarrow>
        (case validate_name name of
           Some e \<Rightarrow> (Inl e, db)
         | None \<Rightarrow>
           (case find_owner uid db of
              None \<Rightarrow> (Inl (AppErr (AE_notFound ''User not found'' NoDetails None)), db)
            | Some u \<Rightarrow>
              (case assertPermissionsAllowedForRole (ko_role u) perms of
                 Some e \<Rightarrow> (Inl e, db)
               | None \<Rightarrow>
                 if length (active_keys uid db) \<ge> MAX_ACTIVE_KEYS_PER_USER
                 then (Inl (AppErr (AE_businessLogic (''API key limit reached ('' @ nat_str MAX_ACTIVE_KEYS_PER_USER @
                        '' active keys). Revoke an existing key first.'') NoDetails None)), db)
                 else (case generateApiKey sha secret of
                     (raw, h, pre) \<Rightarrow>
                       let k = \<lparr>ak_id = kid, ak_userId = uid, ak_name = name, ak_keyHash = h, ak_keyPrefix = Some pre,
                                ak_scopes = scopes, ak_rateLimitTier = tier, ak_permissions = perms,
                                ak_revokedAt = None, ak_lastUsedAt = None, ak_createdAt = now\<rparr> in
                       (case insert_row ak_keyHash k (kd_keys db) of
                          (Inl e, t) \<Rightarrow> (Inl e, db\<lparr>kd_keys := t\<rparr>)
                        | (Inr _, t) \<Rightarrow> (Inr (k, raw), db\<lparr>kd_keys := t\<rparr>)))))))"

text \<open>A key as listed: \<open>toView\<close> drops the owner and the hash.\<close>

record api_key_view =
  kv_id :: ident
  kv_name :: string
  kv_keyPrefix :: "string option"
  kv_scopes :: "api_scope list"
  kv_permissions :: "string list"
  kv_rateLimitTier :: string
  kv_lastUsedAt :: "timestamp option"
  kv_revokedAt :: "timestamp option"
  kv_createdAt :: timestamp

definition toView :: "api_key \<Rightarrow> api_key_view" where
  "toView k = \<lparr>kv_id = ak_id k, kv_name = ak_name k, kv_keyPrefix = ak_keyPrefix k, kv_scopes = ak_scopes k,
     kv_permissions = ak_permissions k, kv_rateLimitTier = ak_rateLimitTier k, kv_lastUsedAt = ak_lastUsedAt k,
     kv_revokedAt = ak_revokedAt k, kv_createdAt = ak_createdAt k\<rparr>"

definition listApiKeys :: "ident \<Rightarrow> bool \<Rightarrow> api_key_db \<Rightarrow> js_error + api_key_view list" where
  "listApiKeys uid includeRevoked db =
     (case validateUUID uid ''userId'' of
        Some e \<Rightarrow> Inl e
      | None \<Rightarrow> Inr (map toView (sort_key (\<lambda>k. - ak_createdAt k)
          (filter (\<lambda>k. ak_userId k = uid \<and> (includeRevoked \<or> ak_revokedAt k = None)) (kd_keys db)))))"

definition revokeApiKey :: "timestamp \<Rightarrow> ident \<Rightarrow> ident \<Rightarrow> (api_key_db, api_key_view) service" where
  "revokeApiKey now uid kid db =
     (case validateUUID uid ''userId'' of
        Some e \<Rightarrow> (Inl e, db)
      | None \<Rightarrow>
        (case validateUUID kid ''id'' of
           Some e \<Rightarrow> (Inl e, db)
         | None \<Rightarrow>
           (case tbl_find (\<lambda>k. ak_id k = kid) (kd_keys db) of
              None \<Rightarrow> (Inl (AppErr (AE_notFound ''API key not found'' NoDetails None)), db)
            | Some k \<Rightarrow>
                if ak_userId k \<noteq> uid then (Inl (AppErr (AE_notFound ''API key not found'' NoDetails None)), db)
                else if ak_revokedAt k \<noteq> None then (Inr (toView k), db)
                else let k' = k\<lparr>ak_revokedAt := Some now\<rparr> in
                  (Inr (toView k'), db\<lparr>kd_keys := tbl_put ak_id k' (kd_keys db)\<rparr>))))"

definition auth_error :: "string \<Rightarrow> js_error" where
  "auth_error msg = AppErr (AE_authentication msg NoDetails None)"

definition validateApiKey :: "(string \<Rightarrow> string) \<Rightarrow> string \<Rightarrow> api_key_db \<Rightarrow> js_error + api_key \<times> key_owner" where
  "validateApiKey sha raw db =
     (if \<not> isApiKeyFormat raw then Inl (auth_error ''Invalid API key'')
      else (case tbl_find (\<lambda>k. ak_keyHash k = sha raw) (kd_keys db) of
          None \<Rightarrow> Inl (auth_error ''Invalid API key'')
        | Some k \<Rightarrow>
            if ak_revokedAt k \<noteq> None then Inl (auth_error ''API key has been revoked'')
            else (case find_owner (ak_userId k) db of
                None \<Rightarrow> Inl (auth_error ''Associated user not found'')
              | Some u \<Rightarrow> Inr (k, u))))"

definition keyHasScope :: "api_key \<Rightarrow> api_scope \<Rightarrow> bool" where
  "keyHasScope k sc \<longleftrightarrow> ak_scopes k \<noteq> [] \<and> (sc \<in> set (ak_scopes k) \<or> AS_ADMIN \<in> set (ak_scopes k))"

definition keyHasPermission :: "api_key \<Rightarrow> key_owner \<Rightarrow> permission \<Rightarrow> bool" where
  "keyHasPermission k u p \<longleftrightarrow> permission_name p \<in> set (ak_permissions k) \<and> roleHasPermission (ko_role u) p"

subsection \<open>The middleware\<close>

record key_headers =
  kh_apiKey :: "string option"
  kh_authorization :: "string option"

definition extractRawKey :: "key_headers \<Rightarrow> string option" where
  "extractRawKey h =
     (case kh_apiKey h of
        Some v \<Rightarrow> if v \<noteq> [] then Some v else
          (case kh_authorization h of Some a \<Rightarrow> if take 7 a = ''ApiKey '' then Some (js_trim (drop 7 a)) else None | None \<Rightarrow> None)
      | None \<Rightarrow>
          (case kh_authorization h of Some a \<Rightarrow> if take 7 a = ''ApiKey '' then Some (js_trim (drop 7 a)) else None | None \<Rightarrow> None))"

definition tier_max :: "string \<Rightarrow> nat" where
  "tier_max tier = (if tier = ''high'' then 500 else if tier = ''unlimited'' then 10000 else 100)"

definition tier_config :: "string \<Rightarrow> limiter_config" where
  "tier_config tier = \<lparr>lc_windowMs = 60000, lc_max = tier_max tier, lc_failClosed = False, lc_memoryFallback = False\<rparr>"

text \<open>What the middleware answers: an error, the limiter's refusal, or the request with its key and user.\<close>

datatype key_answer =
    KeyRefused js_error
  | KeyLimited limiter_answer
  | KeyAccepted api_key key_owner

definition requireApiKey ::
  "(string \<Rightarrow> string) \<Rightarrow> timestamp \<Rightarrow> bool \<Rightarrow> key_headers \<Rightarrow> api_key_db \<Rightarrow> limiter_state \<Rightarrow> key_answer \<times> limiter_state" where
  "requireApiKey sha now redis_up h db rl =
     (case extractRawKey h of
        None \<Rightarrow> (KeyRefused (auth_error ''Unauthorized: No API key provided''), rl)
      | Some raw \<Rightarrow>
          if raw = [] then (KeyRefused (auth_error ''Unauthorized: No API key provided''), rl)
          else (case validateApiKey sha raw db of
              Inl e \<Rightarrow> (KeyRefused e, rl)
            | Inr (k, u) \<Rightarrow>
                (case check_limit (tier_config (ak_rateLimitTier k)) (''api:rl:key:'' @ ak_id k) now redis_up rl of
                   (a, rl') \<Rightarrow> (if passes a then KeyAccepted k u else KeyLimited a, rl'))))"

definition requireApiKeyScope ::
  "api_scope \<Rightarrow> (string \<Rightarrow> string) \<Rightarrow> timestamp \<Rightarrow> bool \<Rightarrow> key_headers \<Rightarrow> api_key_db \<Rightarrow> limiter_state \<Rightarrow> key_answer \<times> limiter_state" where
  "requireApiKeyScope sc sha now redis_up h db rl =
     (case requireApiKey sha now redis_up h db rl of
        (KeyAccepted k u, rl') \<Rightarrow>
          (if keyHasScope k sc then KeyAccepted k u
           else KeyRefused (AppErr (AE_authorization (''Forbidden: API key missing required scope: '' @ scope_name sc) NoDetails None)), rl')
      | r \<Rightarrow> r)"

definition requireApiKeyPermission ::
  "permission \<Rightarrow> (string \<Rightarrow> string) \<Rightarrow> timestamp \<Rightarrow> bool \<Rightarrow> key_headers \<Rightarrow> api_key_db \<Rightarrow> limiter_state \<Rightarrow> key_answer \<times> limiter_state" where
  "requireApiKeyPermission p sha now redis_up h db rl =
     (case requireApiKey sha now redis_up h db rl of
        (KeyAccepted k u, rl') \<Rightarrow>
          (if keyHasPermission k u p then KeyAccepted k u
           else KeyRefused (AppErr (AE_authorization (''Forbidden: API key missing required permission: '' @ permission_name p) NoDetails None)), rl')
      | r \<Rightarrow> r)"


subsection \<open>Requests on keys\<close>

text \<open>\<open>KO_role\<close> is a change of a user's role by an administrator. Database ids are fresh.\<close>

datatype key_op =
    KO_create ident string timestamp ident string "api_scope list" "string list" string
  | KO_revoke timestamp ident ident
  | KO_role ident user_role

fun key_step :: "(string \<Rightarrow> string) \<Rightarrow> key_op \<Rightarrow> api_key_db \<Rightarrow> api_key_db" where
  "key_step sha (KO_create kid secret now uid name scopes perms tier) db =
     (if kid \<in> ak_id ` set (kd_keys db) then db
      else snd (createApiKey sha kid secret now uid name scopes perms tier db))"
| "key_step sha (KO_revoke now uid kid) db = snd (revokeApiKey now uid kid db)"
| "key_step sha (KO_role uid r) db =
     db\<lparr>kd_users := map (\<lambda>u. if ko_id u = uid then u\<lparr>ko_role := r\<rparr> else u) (kd_users db)\<rparr>"

definition keys_ok :: "api_key_db \<Rightarrow> bool" where
  "keys_ok db \<longleftrightarrow> tbl_ok ak_id (kd_keys db) \<and> tbl_ok ak_keyHash (kd_keys db) \<and>
     (\<forall>uid. length (active_keys uid db) \<le> MAX_ACTIVE_KEYS_PER_USER)"

text \<open>The two changes of the key table: a new active key, and an active key revoked.\<close>

lemma createApiKey_cases:
  obtains (failed) e where "createApiKey sha kid secret now uid name scopes perms tier db = (Inl e, db)"
  | (created) k u where "createApiKey sha kid secret now uid name scopes perms tier db = (Inr (k, ''abk_'' @ secret), db\<lparr>kd_keys := kd_keys db @ [k]\<rparr>)"
      "ak_id k = kid" "ak_userId k = uid" "ak_keyHash k = sha (''abk_'' @ secret)" "ak_revokedAt k = None"
      "ak_scopes k = scopes" "ak_permissions k = perms" "ak_rateLimitTier k = tier"
      "sha (''abk_'' @ secret) \<notin> ak_keyHash ` set (kd_keys db)" "length (active_keys uid db) < MAX_ACTIVE_KEYS_PER_USER"
      "find_owner uid db = Some u" "assertPermissionsAllowedForRole (ko_role u) perms = None"
proof -
  let ?r = "createApiKey sha kid secret now uid name scopes perms tier db"
  let ?k = "\<lparr>ak_id = kid, ak_userId = uid, ak_name = name, ak_keyHash = sha (''abk_'' @ secret),
      ak_keyPrefix = Some (''abk_'' @ take 8 secret), ak_scopes = scopes, ak_rateLimitTier = tier, ak_permissions = perms,
      ak_revokedAt = None, ak_lastUsedAt = None, ak_createdAt = now\<rparr>"
  have "(\<exists>e. ?r = (Inl e, db)) \<or>
     (?r = (Inr (?k, ''abk_'' @ secret), db\<lparr>kd_keys := kd_keys db @ [?k]\<rparr>) \<and>
      sha (''abk_'' @ secret) \<notin> ak_keyHash ` set (kd_keys db) \<and> length (active_keys uid db) < MAX_ACTIVE_KEYS_PER_USER \<and>
      (\<exists>u. find_owner uid db = Some u \<and> assertPermissionsAllowedForRole (ko_role u) perms = None))"
    by (simp add: createApiKey_def generateApiKey_def insert_row_def Let_def split: option.split)
  then show ?thesis using failed created [of ?k] by auto
qed

lemma revokeApiKey_cases:
  obtains (unchanged) "snd (revokeApiKey now uid kid db) = db"
  | (revoked) k where "revokeApiKey now uid kid db = (Inr (toView (k\<lparr>ak_revokedAt := Some now\<rparr>)),
        db\<lparr>kd_keys := tbl_put ak_id (k\<lparr>ak_revokedAt := Some now\<rparr>) (kd_keys db)\<rparr>)"
      "k \<in> set (kd_keys db)" "ak_id k = kid" "ak_userId k = uid" "ak_revokedAt k = None"
proof (cases "tbl_find (\<lambda>k. ak_id k = kid) (kd_keys db)")
  case None
  then have "snd (revokeApiKey now uid kid db) = db" by (simp add: revokeApiKey_def split: option.split)
  then show ?thesis by (rule unchanged)
next
  case (Some k)
  then have k: "k \<in> set (kd_keys db)" "ak_id k = kid" by (auto dest: tbl_find_SomeD)
  show ?thesis
  proof (cases "validateUUID uid ''userId'' = None \<and> validateUUID kid ''id'' = None \<and> ak_userId k = uid \<and> ak_revokedAt k = None")
    case True
    with Some k show ?thesis by (intro revoked [of k]) (simp_all add: revokeApiKey_def Let_def)
  next
    case False
    with Some have "snd (revokeApiKey now uid kid db) = db" by (auto simp: revokeApiKey_def split: option.split)
    then show ?thesis by (rule unchanged)
  qed
qed

lemma keys_ok_step: "keys_ok db \<Longrightarrow> keys_ok (key_step sha e db)"
proof (cases e)
  case (KO_create kid secret now uid name scopes perms tier)
  assume ok: "keys_ok db"
  show ?thesis
  proof (cases "kid \<in> ak_id ` set (kd_keys db)")
    case False
    show ?thesis
      by (rule createApiKey_cases [of sha kid secret now uid name scopes perms tier db])
        (use ok False in \<open>auto simp: KO_create keys_ok_def tbl_ok_def active_keys_def\<close>)
  qed (use ok KO_create in simp)
next
  case (KO_revoke now uid kid)
  assume ok: "keys_ok db"
  show ?thesis
  proof (rule revokeApiKey_cases [of now uid kid db])
    fix k
    assume r: "revokeApiKey now uid kid db = (Inr (toView (k\<lparr>ak_revokedAt := Some now\<rparr>)),
        db\<lparr>kd_keys := tbl_put ak_id (k\<lparr>ak_revokedAt := Some now\<rparr>) (kd_keys db)\<rparr>)"
      and k: "k \<in> set (kd_keys db)" "ak_id k = kid" "ak_userId k = uid" "ak_revokedAt k = None"
    obtain us vs where uv: "kd_keys db = us @ k # vs" "tbl_put ak_id (k\<lparr>ak_revokedAt := Some now\<rparr>) (kd_keys db) = us @ k\<lparr>ak_revokedAt := Some now\<rparr> # vs"
      using ok k(1) tbl_put_split [of ak_id "kd_keys db" k "k\<lparr>ak_revokedAt := Some now\<rparr>"] by (auto simp: keys_ok_def)
    have le: "length (active_keys i (db\<lparr>kd_keys := us @ k\<lparr>ak_revokedAt := Some now\<rparr> # vs\<rparr>)) \<le> length (active_keys i db)" for i
      using uv(1) by (simp add: active_keys_def)
    have "length (active_keys i (db\<lparr>kd_keys := us @ k\<lparr>ak_revokedAt := Some now\<rparr> # vs\<rparr>)) \<le> MAX_ACTIVE_KEYS_PER_USER" for i
      by (rule order_trans [OF le]) (use ok in \<open>simp add: keys_ok_def\<close>)
    then show "keys_ok (key_step sha e db)"
      using ok r uv by (auto simp: KO_revoke keys_ok_def tbl_ok_def)
  qed (use ok KO_revoke in simp)
next
  case (KO_role uid r)
  assume "keys_ok db"
  then show ?thesis by (simp add: KO_role keys_ok_def active_keys_def)
qed

interpretation keys: machine "key_step sha" keys_ok for sha
  by unfold_locales (rule keys_ok_step)

lemma find_hash:
  assumes "keys_ok db" and "k \<in> set (kd_keys db)"
  shows "tbl_find (\<lambda>x. ak_keyHash x = ak_keyHash k) (kd_keys db) = Some k"
  using assms tbl_find_key_eq [of ak_keyHash "kd_keys db" k] by (simp add: keys_ok_def)

text \<open>A key that is revoked stays as it is.\<close>

definition gone :: "ident \<Rightarrow> api_key_db \<Rightarrow> bool" where
  "gone kid db \<longleftrightarrow> kid \<in> ak_id ` set (kd_keys db) \<and> (\<forall>k\<in>set (kd_keys db). ak_id k = kid \<longrightarrow> ak_revokedAt k \<noteq> None)"

lemma gone_step: "gone kid db \<Longrightarrow> gone kid (key_step sha e db)"
proof (cases e)
  case (KO_create k secret now uid name scopes perms tier)
  assume g: "gone kid db"
  show ?thesis
  proof (cases "k \<in> ak_id ` set (kd_keys db)")
    case False
    show ?thesis
      by (rule createApiKey_cases [of sha k secret now uid name scopes perms tier db])
        (use g False in \<open>auto simp: KO_create gone_def\<close>)
  qed (use g KO_create in simp)
next
  case (KO_revoke now uid k)
  assume g: "gone kid db"
  show ?thesis
  proof (rule revokeApiKey_cases [of now uid k db])
    fix x
    assume r: "revokeApiKey now uid k db = (Inr (toView (x\<lparr>ak_revokedAt := Some now\<rparr>)),
        db\<lparr>kd_keys := tbl_put ak_id (x\<lparr>ak_revokedAt := Some now\<rparr>) (kd_keys db)\<rparr>)"
      and x: "x \<in> set (kd_keys db)" "ak_id x = k"
    have ids: "ak_id ` set (tbl_put ak_id (x\<lparr>ak_revokedAt := Some now\<rparr>) (kd_keys db)) = ak_id ` set (kd_keys db)"
      using map_key_tbl_put [of ak_id "x\<lparr>ak_revokedAt := Some now\<rparr>" "kd_keys db"] x by (metis api_key.select_convs(1) api_key.surjective api_key.update_convs(9) image_eqI set_map)
    then show "gone kid (key_step sha e db)"
      using g r set_tbl_put_subset [of ak_id "x\<lparr>ak_revokedAt := Some now\<rparr>" "kd_keys db"]
      by (auto simp: KO_revoke gone_def)
  qed (use g KO_revoke in simp)
next
  case (KO_role uid r)
  assume "gone kid db"
  then show ?thesis by (simp add: KO_role gone_def)
qed

interpretation revocations: machine "key_step sha" "gone kid" for sha kid
  by unfold_locales (rule gone_step)

lemma validateApiKey_Inr:
  "validateApiKey sha raw db = Inr (k, u) \<Longrightarrow>
     k \<in> set (kd_keys db) \<and> ak_keyHash k = sha raw \<and> ak_revokedAt k = None \<and> find_owner (ak_userId k) db = Some u"
  by (auto simp: validateApiKey_def dest: tbl_find_SomeD split: if_splits option.splits)

lemma requireApiKey_Accepted:
  "requireApiKey sha now up h db rl = (KeyAccepted k u, rl') \<Longrightarrow> \<exists>raw. extractRawKey h = Some raw \<and> validateApiKey sha raw db = Inr (k, u)"
  by (auto simp: requireApiKey_def split: option.splits if_splits sum.splits prod.splits)

text \<open>The active key \<open>k\<close> of a user that still exists.\<close>

definition live_key :: "api_key \<Rightarrow> api_key_db \<Rightarrow> bool" where
  "live_key k db \<longleftrightarrow> k \<in> set (kd_keys db) \<and> ak_revokedAt k = None \<and> find_owner (ak_userId k) db \<noteq> None"

definition revokes :: "api_key \<Rightarrow> key_op \<Rightarrow> bool" where
  "revokes k e \<longleftrightarrow> (\<exists>t. e = KO_revoke t (ak_userId k) (ak_id k))"

lemma find_owner_iff: "find_owner i db \<noteq> None \<longleftrightarrow> i \<in> set (map ko_id (kd_users db))"
  by (auto simp: find_owner_def tbl_find_None_iff simp del: not_None_eq)

lemma live_step:
  assumes "keys_ok db" and "live_key k db" and "\<not> revokes k e"
  shows "live_key k (key_step sha e db)"
proof (cases e)
  case (KO_create kid secret now uid name scopes perms tier)
  show ?thesis
    by (rule createApiKey_cases [of sha kid secret now uid name scopes perms tier db])
      (use assms(2) KO_create in \<open>auto simp: live_key_def find_owner_def\<close>)
next
  case (KO_revoke now uid kid)
  show ?thesis
  proof (rule revokeApiKey_cases [of now uid kid db])
    fix x
    assume r: "revokeApiKey now uid kid db = (Inr (toView (x\<lparr>ak_revokedAt := Some now\<rparr>)),
        db\<lparr>kd_keys := tbl_put ak_id (x\<lparr>ak_revokedAt := Some now\<rparr>) (kd_keys db)\<rparr>)"
      and x: "x \<in> set (kd_keys db)" "ak_id x = kid" "ak_userId x = uid"
    have "ak_id x \<noteq> ak_id k"
    proof
      assume same: "ak_id x = ak_id k"
      have "inj_on ak_id (set (kd_keys db))" using assms(1) by (simp add: keys_ok_def tbl_ok_def distinct_map)
      then have "x = k" using same x(1) assms(2) by (simp add: live_key_def inj_on_eq_iff)
      with x assms(3) show False by (simp add: KO_revoke revokes_def)
    qed
    with r assms(1,2) show ?thesis
      by (simp add: KO_revoke live_key_def find_owner_def set_tbl_put keys_ok_def)
  qed (use assms(2) KO_revoke in simp)
next
  case (KO_role uid r)
  have ids: "map ko_id (map (\<lambda>u. if ko_id u = uid then u\<lparr>ko_role := r\<rparr> else u) us) = map ko_id us" for us :: "key_owner list"
    by simp
  have k: "kd_users (key_step sha e db) = map (\<lambda>u. if ko_id u = uid then u\<lparr>ko_role := r\<rparr> else u) (kd_users db)" by (simp add: KO_role)
  have "find_owner i (key_step sha e db) \<noteq> None \<longleftrightarrow> find_owner i db \<noteq> None" for i
    unfolding find_owner_iff k ids ..
  moreover have "kd_keys (key_step sha e db) = kd_keys db" by (simp add: KO_role)
  ultimately show ?thesis using assms(2) by (simp add: live_key_def del: not_None_eq)
qed

lemma live_run:
  "keys_ok db \<Longrightarrow> live_key k db \<Longrightarrow> \<forall>e\<in>set es. \<not> revokes k e \<Longrightarrow> live_key k (fold (key_step sha) es db)"
proof (induction es arbitrary: db)
  case (Cons e es)
  then show ?case using live_step [of db k e sha] keys_ok_step [of db sha e] by simp
qed simp

lemma live_accepted:
  assumes "keys_ok db" and "live_key k db" and "ak_keyHash k = sha raw" and "isApiKeyFormat raw"
  shows "\<exists>u. validateApiKey sha raw db = Inr (k, u) \<and> ko_id u = ak_userId k"
proof -
  obtain u where u: "find_owner (ak_userId k) db = Some u" using assms(2) by (auto simp: live_key_def)
  then have "ko_id u = ak_userId k" by (auto simp: find_owner_def dest: tbl_find_SomeD)
  moreover have "validateApiKey sha raw db = Inr (k, u)"
    using assms u find_hash [OF assms(1), of k] by (simp add: validateApiKey_def live_key_def)
  ultimately show ?thesis by blast
qed

lemma revoked_is_gone:
  assumes "keys_ok db" and "live_key k db" and "is_uuid (ak_userId k)" and "is_uuid (ak_id k)"
  shows "gone (ak_id k) (snd (revokeApiKey now (ak_userId k) (ak_id k) db))"
proof -
  have k: "k \<in> set (kd_keys db)" "ak_revokedAt k = None" using assms(2) by (simp_all add: live_key_def)
  have v: "validateUUID i f = None" if "is_uuid i" for i f
    using that by (auto simp: validateUUID_def then_check_def validateRequired_def truthy_def is_uuid_def ascii_lower_def)
  have "tbl_find (\<lambda>x. ak_id x = ak_id k) (kd_keys db) = Some k"
    using tbl_find_key_eq [of ak_id "kd_keys db" k] assms(1) k(1) by (simp add: keys_ok_def)
  with k(2) v [OF assms(3)] v [OF assms(4)]
  have "snd (revokeApiKey now (ak_userId k) (ak_id k) db) = db\<lparr>kd_keys := tbl_put ak_id (k\<lparr>ak_revokedAt := Some now\<rparr>) (kd_keys db)\<rparr>"
    by (simp add: revokeApiKey_def Let_def)
  moreover have "set (tbl_put ak_id (k\<lparr>ak_revokedAt := Some now\<rparr>) (kd_keys db)) =
      insert (k\<lparr>ak_revokedAt := Some now\<rparr>) {x \<in> set (kd_keys db). ak_id x \<noteq> ak_id k}"
    using assms(1) by (simp add: set_tbl_put keys_ok_def)
  ultimately show ?thesis by (auto simp: gone_def)
qed

text \<open>
  C30: a key that is issued authenticates its owner until the owner revokes it, whatever issues, role
  changes and other revocations happen in between, and revoking it ends that for good: after any further
  run no request is accepted with it. At no time has a user more than 20 active keys.
\<close>

theorem revoked_key_is_dead:
  assumes "keys_ok db" and "kid \<notin> ak_id ` set (kd_keys db)" and "length secret = 64" and "list_all hex_lower secret"
    and "createApiKey sha kid secret now uid name scopes perms tier db = (Inr (k, raw), db0)" and "is_uuid kid"
    and "\<forall>e\<in>set es1. \<not> (\<exists>t. e = KO_revoke t uid kid)" and "db1 = fold (key_step sha) es1 db0"
    and "db2 = snd (revokeApiKey now2 uid kid db1)" and "db3 = fold (key_step sha) es2 db2"
  shows "(\<exists>u. validateApiKey sha raw db1 = Inr (k, u) \<and> ko_id u = uid) \<and>
    (\<forall>h up t rl k' u' rl'. requireApiKey sha t up h db3 rl = (KeyAccepted k' u', rl') \<longrightarrow> ak_id k' \<noteq> kid) \<and>
    (\<forall>i. length (active_keys i db1) \<le> MAX_ACTIVE_KEYS_PER_USER \<and> length (active_keys i db3) \<le> MAX_ACTIVE_KEYS_PER_USER)"
proof -
  obtain u where c: "raw = ''abk_'' @ secret" "db0 = db\<lparr>kd_keys := kd_keys db @ [k]\<rparr>" "ak_id k = kid" "ak_userId k = uid"
      "ak_keyHash k = sha raw" "ak_revokedAt k = None" "find_owner uid db = Some u"
    by (rule createApiKey_cases [of sha kid secret now uid name scopes perms tier db]) (use assms(5) in auto)
  have uid: "is_uuid uid" using assms(5) validateUUID_None [of uid] by (auto simp: createApiKey_def split: option.splits)
  have ok0: "keys_ok db0"
    using keys_ok_step [OF assms(1), of sha "KO_create kid secret now uid name scopes perms tier"] assms(2,5) by simp
  have ok1: "keys_ok db1" unfolding assms(8) using ok0 by (rule keys.run_ok)
  have "live_key k db0" using c by (simp add: live_key_def find_owner_def)
  then have live: "live_key k db1" unfolding assms(8) using assms(7) c(3,4) by (intro live_run [OF ok0]) (auto simp: revokes_def)
  have "isApiKeyFormat raw" using assms(3,4) c(1) by (simp add: isApiKeyFormat_def)
  then have accepted: "\<exists>u. validateApiKey sha raw db1 = Inr (k, u) \<and> ko_id u = ak_userId k"
    by (intro live_accepted ok1 live c(5))
  have "gone kid db2" using revoked_is_gone [OF ok1 live, of now2] uid assms(6) by (simp add: c(3,4) assms(9))
  then have "gone kid db3" unfolding assms(10) by (rule revocations.run_ok)
  then have "ak_id k' \<noteq> kid" if "requireApiKey sha t up h db3 rl = (KeyAccepted k' u', rl')" for h up t rl k' u' rl'
    using requireApiKey_Accepted [OF that] validateApiKey_Inr by (fastforce simp: gone_def)
  moreover have "keys_ok db3"
    unfolding assms(9,10) using keys.run_ok [OF keys_ok_step [OF ok1, of sha "KO_revoke now2 uid kid"]] by simp
  ultimately show ?thesis using accepted ok1 by (simp add: keys_ok_def c(4))
qed

subsection \<open>What a key grants\<close>

lemma allowed_permissions:
  "assertPermissionsAllowedForRole r ps = None \<Longrightarrow> p \<in> set ps \<Longrightarrow> \<exists>q. permission_of p = Some q \<and> roleHasPermission r q"
  by (induction r ps rule: assertPermissionsAllowedForRole.induct) (auto split: option.splits if_splits)

lemma createApiKey_Inr:
  assumes "createApiKey sha kid secret now uid name scopes perms tier db = (Inr (k, raw), db')"
  shows "\<exists>u. find_owner uid db = Some u \<and> assertPermissionsAllowedForRole (ko_role u) perms = None \<and>
     ak_permissions k = perms \<and> ak_scopes k = scopes"
  by (rule createApiKey_cases [of sha kid secret now uid name scopes perms tier db]) (use assms in auto)

text \<open>
  C31: a key is issued only with permissions the role of its owner holds, and a request is accepted for a
  permission only while the owner's current role holds it too. Scopes are not compared with the role at
  all: a user of any role with permissions it holds, or none, a valid name and fewer than 20 active keys
  is issued a key with whatever scopes it asks for, and the scope \<open>admin\<close> counts as every scope.
\<close>

theorem key_never_exceeds_owner:
  "(\<forall>k raw db'. createApiKey sha kid secret now uid name scopes perms tier db = (Inr (k, raw), db') \<longrightarrow>
      (\<exists>u. find_owner uid db = Some u \<and>
         (\<forall>s\<in>set (ak_permissions k). \<exists>q. permission_of s = Some q \<and> roleHasPermission (ko_role u) q)) \<and>
      ak_scopes k = scopes \<and> (AS_ADMIN \<in> set scopes \<longrightarrow> (\<forall>sc. keyHasScope k sc))) \<and>
   (\<forall>u. is_uuid uid \<and> validate_name name = None \<and> find_owner uid db = Some u \<and>
      assertPermissionsAllowedForRole (ko_role u) perms = None \<and> length (active_keys uid db) < 20 \<and>
      sha (''abk_'' @ secret) \<notin> ak_keyHash ` set (kd_keys db) \<longrightarrow>
      (\<exists>k raw db'. createApiKey sha kid secret now uid name scopes perms tier db = (Inr (k, raw), db'))) \<and>
   (\<forall>k u rl'. requireApiKeyPermission p sha t up h db rl = (KeyAccepted k u, rl') \<longrightarrow>
      permission_name p \<in> set (ak_permissions k) \<and> ak_revokedAt k = None \<and>
      find_owner (ak_userId k) db = Some u \<and> roleHasPermission (ko_role u) p)"
proof (intro conjI allI impI)
  fix k raw db'
  assume c: "createApiKey sha kid secret now uid name scopes perms tier db = (Inr (k, raw), db')"
  then obtain u where u: "find_owner uid db = Some u" "assertPermissionsAllowedForRole (ko_role u) perms = None"
      "ak_permissions k = perms" "ak_scopes k = scopes"
    using createApiKey_Inr by blast
  then show "ak_scopes k = scopes" by simp
  from u show "\<exists>u. find_owner uid db = Some u \<and>
         (\<forall>s\<in>set (ak_permissions k). \<exists>q. permission_of s = Some q \<and> roleHasPermission (ko_role u) q)"
    using allowed_permissions by auto
  fix sc
  assume "AS_ADMIN \<in> set scopes"
  with u(4) show "keyHasScope k sc" by (auto simp: keyHasScope_def)
next
  fix u
  assume "is_uuid uid \<and> validate_name name = None \<and> find_owner uid db = Some u \<and>
      assertPermissionsAllowedForRole (ko_role u) perms = None \<and> length (active_keys uid db) < 20 \<and>
      sha (''abk_'' @ secret) \<notin> ak_keyHash ` set (kd_keys db)"
  moreover from this have "validateUUID uid ''userId'' = None" by (simp add: validateUUID_None)
  ultimately show "\<exists>k raw db'. createApiKey sha kid secret now uid name scopes perms tier db = (Inr (k, raw), db')"
    by (simp add: createApiKey_def generateApiKey_def insert_row_def MAX_ACTIVE_KEYS_PER_USER_def Let_def)
next
  fix k u rl'
  assume "requireApiKeyPermission p sha t up h db rl = (KeyAccepted k u, rl')"
  then have a: "requireApiKey sha t up h db rl = (KeyAccepted k u, rl')" and p: "keyHasPermission k u p"
    by (auto simp: requireApiKeyPermission_def split: prod.splits key_answer.splits if_splits)
  from requireApiKey_Accepted [OF a] validateApiKey_Inr
  have "ak_revokedAt k = None" "find_owner (ak_userId k) db = Some u" by fastforce+
  with p show "permission_name p \<in> set (ak_permissions k)" "ak_revokedAt k = None"
      "find_owner (ak_userId k) db = Some u" "roleHasPermission (ko_role u) p"
    by (simp_all add: keyHasPermission_def)
qed

subsection \<open>Witnesses\<close>

definition listener_db :: api_key_db where
  "listener_db = \<lparr>kd_keys = [], kd_users = [\<lparr>ko_id = ''3f2504e0-4f89-41d3-9a0c-0305e82c3301'', ko_role = UR_LISTENER\<rparr>]\<rparr>"

definition secret1 :: string where
  "secret1 = replicate 64 (CHR ''a'')"

definition key_id1 :: ident where
  "key_id1 = ''9b2504e0-4f89-41d3-8a0c-0305e82c3399''"

lemma witness_uuids: "is_uuid ''3f2504e0-4f89-41d3-9a0c-0305e82c3301''" "is_uuid key_id1"
  unfolding key_id1_def by code_simp+

lemma witness_created:
  "\<exists>k db'. createApiKey id key_id1 secret1 1 ''3f2504e0-4f89-41d3-9a0c-0305e82c3301'' ''ci'' [AS_ADMIN] [] ''standard'' listener_db =
     (Inr (k, ''abk_'' @ secret1), db')"
  using witness_uuids(1)
  by (auto simp: createApiKey_def validateUUID_def then_check_def validateRequired_def truthy_def validate_name_def validateStringLength_def find_owner_def
      listener_db_def tbl_simps active_keys_def generateApiKey_def insert_row_def Let_def API_KEY_NAME_MAX_LENGTH_def
      MAX_ACTIVE_KEYS_PER_USER_def)

text \<open>A listener without permissions is issued a key with the scope \<open>admin\<close>.\<close>

theorem key_never_exceeds_owner_witness:
  "\<exists>k raw db'. createApiKey id key_id1 secret1 1 ''3f2504e0-4f89-41d3-9a0c-0305e82c3301'' ''ci'' [AS_ADMIN] [] ''standard'' listener_db =
     (Inr (k, raw), db') \<and> keyHasScope k AS_UPLOAD"
proof -
  let ?u = "''3f2504e0-4f89-41d3-9a0c-0305e82c3301''"
  have "find_owner ?u listener_db = Some \<lparr>ko_id = ?u, ko_role = UR_LISTENER\<rparr>" by (simp add: find_owner_def listener_db_def tbl_simps)
  moreover have "validate_name ''ci'' = None" "active_keys ?u listener_db = []" "kd_keys listener_db = []" by code_simp+
  ultimately obtain k raw db' where c: "createApiKey id key_id1 secret1 1 ?u ''ci'' [AS_ADMIN] [] ''standard'' listener_db = (Inr (k, raw), db')"
    using key_never_exceeds_owner [THEN conjunct2, THEN conjunct1, rule_format, of ?u "''ci''" listener_db _ "[]" id secret1] witness_uuids(1)
    by fastforce
  with key_never_exceeds_owner [THEN conjunct1, rule_format, OF c] have "keyHasScope k AS_UPLOAD" by simp
  with c show ?thesis by blast
qed

theorem revoked_key_is_dead_witness:
  "\<exists>k db0. createApiKey id key_id1 secret1 1 ''3f2504e0-4f89-41d3-9a0c-0305e82c3301'' ''ci'' [AS_ADMIN] [] ''standard'' listener_db =
       (Inr (k, ''abk_'' @ secret1), db0) \<and>
     (\<exists>u. validateApiKey id (''abk_'' @ secret1)
        (fold (key_step id) [KO_revoke 2 ''x'' key_id1, KO_role ''3f2504e0-4f89-41d3-9a0c-0305e82c3301'' UR_ADMIN] db0) = Inr (k, u))"
proof -
  obtain k db' where c: "createApiKey id key_id1 secret1 1 ''3f2504e0-4f89-41d3-9a0c-0305e82c3301'' ''ci'' [AS_ADMIN] [] ''standard'' listener_db =
     (Inr (k, ''abk_'' @ secret1), db')" using witness_created by blast
  have p: "keys_ok listener_db" "key_id1 \<notin> ak_id ` set (kd_keys listener_db)" "length secret1 = 64" "list_all hex_lower secret1"
    by (auto simp: keys_ok_def listener_db_def tbl_simps active_keys_def secret1_def list_all_iff hex_lower_def)
  let ?es = "[KO_revoke 2 ''x'' key_id1, KO_role ''3f2504e0-4f89-41d3-9a0c-0305e82c3301'' UR_ADMIN]"
  have "\<forall>e\<in>set ?es. \<not> (\<exists>t. e = KO_revoke t ''3f2504e0-4f89-41d3-9a0c-0305e82c3301'' key_id1)" by simp
  from revoked_key_is_dead [OF p c witness_uuids(2) this refl refl refl] c show ?thesis by blast
qed

end
