(* ===== verification/Library.thy ===== *)
theory Library
  imports Validators Song_Versions Content_Reports "HOL-Library.Multiset"
begin

text \<open>
  A user's saved songs: \<open>services/SaveService.ts\<close> over \<open>entities/UserSave.ts\<close>. Saving is split at the
  await between the test for an existing row and the insert, since the code handles the race of two
  requests there. \<open>refused\<close> is the error of an insert the database rejects for another reason than the
  unique key (a user that no longer exists).
\<close>

subsection \<open>Entities\<close>

definition DEFAULT_SAVE_COLLECTION :: string where
  "DEFAULT_SAVE_COLLECTION = ''Favorites''"

definition SAVE_COLLECTION_MAX_LENGTH :: nat where
  "SAVE_COLLECTION_MAX_LENGTH = 100"

record user_save =
  us_id :: ident
  us_userId :: ident
  us_songId :: ident
  us_collection :: string
  us_createdAt :: timestamp

definition save_key :: "user_save \<Rightarrow> ident \<times> ident \<times> string" where
  "save_key s = (us_userId s, us_songId s, us_collection s)"

record save_db =
  ls_saves :: "user_save table"
  ls_songs :: "song_entity table"

definition find_save :: "ident \<Rightarrow> ident \<Rightarrow> string \<Rightarrow> save_db \<Rightarrow> user_save option" where
  "find_save uid sid coll db = tbl_find (\<lambda>s. save_key s = (uid, sid, coll)) (ls_saves db)"

definition find_saved_song :: "ident \<Rightarrow> save_db \<Rightarrow> song_entity option" where
  "find_saved_song sid db = tbl_find (\<lambda>s. so_id s = sid) (ls_songs db)"

subsection \<open>Saving and removing\<close>

definition normalizeCollection :: "string option \<Rightarrow> js_error + string" where
  "normalizeCollection coll =
     (case or_none coll of
        None \<Rightarrow> Inr DEFAULT_SAVE_COLLECTION
      | Some c \<Rightarrow>
          if js_trim c = [] then Inr DEFAULT_SAVE_COLLECTION
          else (case validateStringLength (js_trim c) ''collection'' 1 SAVE_COLLECTION_MAX_LENGTH of
              Some e \<Rightarrow> Inl e
            | None \<Rightarrow> Inr (js_trim c)))"

text \<open>The first part ends with an error, with the existing save, or with the name under which to insert.\<close>

definition saveSong_read :: "ident \<Rightarrow> ident \<Rightarrow> string option \<Rightarrow> save_db \<Rightarrow> js_error + (user_save + string)" where
  "saveSong_read uid sid coll db =
     (case then_check (validateUUID uid ''userId'') (validateUUID sid ''songId'') of
        Some e \<Rightarrow> Inl e
      | None \<Rightarrow>
        (case normalizeCollection coll of
           Inl e \<Rightarrow> Inl e
         | Inr c \<Rightarrow>
           (case find_saved_song sid db of
              None \<Rightarrow> Inl (AppErr (AE_notFound ''Song not found'' NoDetails None))
            | Some _ \<Rightarrow> (case find_save uid sid c db of Some s \<Rightarrow> Inr (Inl s) | None \<Rightarrow> Inr (Inr c)))))"

text \<open>The insert, with the look for the row of the other request when it is refused.\<close>

definition saveSong_write ::
  "js_error option \<Rightarrow> ident \<Rightarrow> timestamp \<Rightarrow> ident \<Rightarrow> ident \<Rightarrow> string \<Rightarrow> (save_db, user_save \<times> bool) service" where
  "saveSong_write refused nid now uid sid c db =
     (case (case refused of
              Some e \<Rightarrow> (Inl e, ls_saves db)
            | None \<Rightarrow> insert_row save_key \<lparr>us_id = nid, us_userId = uid, us_songId = sid, us_collection = c, us_createdAt = now\<rparr> (ls_saves db)) of
        (Inr s, t) \<Rightarrow> (Inr (s, False), db\<lparr>ls_saves := t\<rparr>)
      | (Inl e, t) \<Rightarrow> (case find_save uid sid c db of Some s \<Rightarrow> (Inr (s, True), db) | None \<Rightarrow> (Inl e, db)))"

definition saveSong ::
  "js_error option \<Rightarrow> ident \<Rightarrow> timestamp \<Rightarrow> ident \<Rightarrow> ident \<Rightarrow> string option \<Rightarrow> (save_db, user_save \<times> bool) service" where
  "saveSong refused nid now uid sid coll db =
     (case saveSong_read uid sid coll db of
        Inl e \<Rightarrow> (Inl e, db)
      | Inr (Inl s) \<Rightarrow> (Inr (s, True), db)
      | Inr (Inr c) \<Rightarrow> saveSong_write refused nid now uid sid c db)"

text \<open>The condition of a query restricted to one collection when one is named.\<close>

definition in_collection :: "string option \<Rightarrow> js_error + (user_save \<Rightarrow> bool)" where
  "in_collection coll =
     (if truthy coll
      then (case normalizeCollection coll of Inl e \<Rightarrow> Inl e | Inr c \<Rightarrow> Inr (\<lambda>s. us_collection s = c))
      else Inr (\<lambda>s. True))"

definition unsaveSong :: "ident \<Rightarrow> ident \<Rightarrow> string option \<Rightarrow> (save_db, nat) service" where
  "unsaveSong uid sid coll db =
     (case then_check (validateUUID uid ''userId'') (validateUUID sid ''songId'') of
        Some e \<Rightarrow> (Inl e, db)
      | None \<Rightarrow>
        (case in_collection coll of
           Inl e \<Rightarrow> (Inl e, db)
         | Inr c \<Rightarrow>
             let p = (\<lambda>s. us_userId s = uid \<and> us_songId s = sid \<and> c s); saves = filter p (ls_saves db) in
             if saves = [] then (Inl (AppErr (AE_notFound ''Song is not saved in your library'' NoDetails None)), db)
             else (Inr (length saves), db\<lparr>ls_saves := tbl_delete p (ls_saves db)\<rparr>)))"

subsection \<open>Reading\<close>

record saved_song_view =
  sw_saveId :: ident
  sw_collection :: string
  sw_savedAt :: timestamp
  sw_song :: "(ident \<times> string \<times> string \<times> int option \<times> ident) option"

definition toSaveView :: "save_db \<Rightarrow> user_save \<Rightarrow> saved_song_view" where
  "toSaveView db s = \<lparr>sw_saveId = us_id s, sw_collection = us_collection s, sw_savedAt = us_createdAt s,
     sw_song = map_option (\<lambda>g. (so_id g, so_title g, so_coverArtPath g, so_duration g, so_artistId g)) (find_saved_song (us_songId s) db)\<rparr>"

record library_page =
  lp_saves :: "saved_song_view list"
  lp_total :: nat
  lp_page :: int
  lp_limit :: int
  lp_totalPages :: int

text \<open>\<open>safe_limit\<close> has the default 20 and the cap 100 of this service too.\<close>

definition getUserLibrary :: "ident \<Rightarrow> int \<Rightarrow> int \<Rightarrow> string option \<Rightarrow> save_db \<Rightarrow> js_error + library_page" where
  "getUserLibrary uid page limit coll db =
     (case validateUUID uid ''userId'' of
        Some e \<Rightarrow> Inl e
      | None \<Rightarrow>
        (case in_collection coll of
           Inl e \<Rightarrow> Inl e
         | Inr c \<Rightarrow>
             let p = safe_page page; l = safe_limit limit;
                 saves = sort_key (\<lambda>s. - us_createdAt s) (filter (\<lambda>s. us_userId s = uid \<and> c s) (ls_saves db))
             in Inr \<lparr>lp_saves = map (toSaveView db) (take (nat l) (drop (nat ((p - 1) * l)) saves)),
                     lp_total = length saves, lp_page = p, lp_limit = l,
                     lp_totalPages = ceil_div (int (length saves)) l\<rparr>))"

text \<open>The groups, largest first; collections of one size come in the order of their first save.\<close>

definition getUserCollections :: "ident \<Rightarrow> save_db \<Rightarrow> js_error + (string \<times> nat) list" where
  "getUserCollections uid db =
     (case validateUUID uid ''userId'' of
        Some e \<Rightarrow> Inl e
      | None \<Rightarrow>
          let mine = filter (\<lambda>s. us_userId s = uid) (ls_saves db);
              names = rev (remdups (rev (map us_collection mine))) in
          Inr (sort_key (\<lambda>(c, n). - int n) (map (\<lambda>c. (c, length (filter (\<lambda>s. us_collection s = c) mine))) names)))"

definition hasUserSaved :: "ident \<Rightarrow> ident \<Rightarrow> save_db \<Rightarrow> js_error + bool" where
  "hasUserSaved uid sid db =
     (case then_check (validateUUID uid ''userId'') (validateUUID sid ''songId'') of
        Some e \<Rightarrow> Inl e
      | None \<Rightarrow> Inr (0 < tbl_count (\<lambda>s. us_userId s = uid \<and> us_songId s = sid) (ls_saves db)))"

definition getSavedSongIds :: "ident \<Rightarrow> ident list \<Rightarrow> save_db \<Rightarrow> js_error + ident set" where
  "getSavedSongIds uid sids db =
     (if sids = [] then Inr {}
      else (case validateUUID uid ''userId'' of
          Some e \<Rightarrow> Inl e
        | None \<Rightarrow> Inr (set (map us_songId (filter (\<lambda>s. us_userId s = uid \<and> us_songId s \<in> set sids) (ls_saves db))))))"

subsection \<open>Requests at once\<close>

text \<open>What requests do to the table, in any interleaving: the inserts of saves that have read before, and removals.\<close>

datatype library_event =
    LE_write "js_error option" ident timestamp ident ident string
  | LE_remove ident ident "string option"

fun library_step :: "library_event \<Rightarrow> save_db \<Rightarrow> save_db" where
  "library_step (LE_write refused nid now uid sid c) db = snd (saveSong_write refused nid now uid sid c db)"
| "library_step (LE_remove uid sid coll) db = snd (unsaveSong uid sid coll db)"

definition saves_unique :: "save_db \<Rightarrow> bool" where
  "saves_unique db \<longleftrightarrow> tbl_ok save_key (ls_saves db)"

lemma saveSong_write_cases:
  obtains (refused) e where "saveSong_write r nid now uid sid c db = (Inl e, db)" "r = Some e" "find_save uid sid c db = None"
  | (present) s where "saveSong_write r nid now uid sid c db = (Inr (s, True), db)" "find_save uid sid c db = Some s"
  | (inserted) s where "saveSong_write r nid now uid sid c db = (Inr (s, False), db\<lparr>ls_saves := ls_saves db @ [s]\<rparr>)" "r = None"
      "s = \<lparr>us_id = nid, us_userId = uid, us_songId = sid, us_collection = c, us_createdAt = now\<rparr>"
      "find_save uid sid c db = None"
proof (cases "find_save uid sid c db")
  case (Some s)
  then have "(uid, sid, c) \<in> save_key ` set (ls_saves db)"
    by (auto simp: find_save_def image_iff dest!: tbl_find_SomeD) (metis save_key_def)
  with Some show ?thesis
    by (intro present [of s]) (auto simp: saveSong_write_def insert_row_def save_key_def split: option.split)
next
  case None
  then have "(uid, sid, c) \<notin> save_key ` set (ls_saves db)"
    by (auto simp: find_save_def tbl_find_None_iff)
  with None refused inserted show ?thesis
    by (cases r) (auto simp: saveSong_write_def insert_row_def save_key_def)
qed

lemma saves_unique_step: "saves_unique db \<Longrightarrow> saves_unique (library_step e db)"
proof (cases e)
  case (LE_write r nid now uid sid c)
  assume u: "saves_unique db"
  show ?thesis
    by (rule saveSong_write_cases [of r nid now uid sid c db])
      (use u LE_write in \<open>auto simp: saves_unique_def tbl_ok_def find_save_def tbl_find_None_iff save_key_def\<close>)
next
  case (LE_remove uid sid coll)
  assume "saves_unique db"
  with LE_remove show ?thesis
    by (auto simp: saves_unique_def unsaveSong_def Let_def tbl_simps split: option.split sum.split)
qed

interpretation libraries: machine library_step saves_unique
  by unfold_locales (rule saves_unique_step)

lemma filter_eq_single: "distinct t \<Longrightarrow> s \<in> set t \<Longrightarrow> filter (\<lambda>x. x = s) t = [s]"
  by (induction t) (auto simp: filter_empty_conv)

text \<open>
  whatever inserts and removals interleave, a song is in one collection of a user at most once, and
  the insert of a request that read before all of them still succeeds: it answers with the one row the
  table then holds, and tells whether another request wrote it.
\<close>

theorem concurrent_saves_store_once:
  assumes "saves_unique db" and "db1 = fold library_step es db"
  shows "saves_unique db1 \<and>
    (\<exists>s db2. saveSong_write None nid now uid sid c db1 = (Inr (s, find_save uid sid c db1 \<noteq> None), db2) \<and>
       filter (\<lambda>s. save_key s = (uid, sid, c)) (ls_saves db2) = [s])"
proof -
  have u: "saves_unique db1" unfolding assms(2) by (rule libraries.run_ok [OF assms(1)])
  have one: "filter (\<lambda>s. save_key s = k) t = [s]" if "tbl_ok save_key t" "s \<in> set t" "save_key s = k" for t s k
  proof -
    have "filter (\<lambda>s. save_key s = k) t = filter (\<lambda>x. x = s) t"
      using that by (intro filter_cong) (auto simp: tbl_ok_unique)
    with that show ?thesis by (simp add: filter_eq_single tbl_ok_def distinct_map)
  qed
  have "\<exists>s db2. saveSong_write None nid now uid sid c db1 = (Inr (s, find_save uid sid c db1 \<noteq> None), db2) \<and>
       filter (\<lambda>s. save_key s = (uid, sid, c)) (ls_saves db2) = [s]"
  proof (rule saveSong_write_cases [of None nid now uid sid c db1])
    fix s
    assume "saveSong_write None nid now uid sid c db1 = (Inr (s, True), db1)" "find_save uid sid c db1 = Some s"
    then show ?thesis using one [of "ls_saves db1" s "(uid, sid, c)"] u
      by (auto simp: saves_unique_def find_save_def dest: tbl_find_SomeD)
  next
    fix s
    assume "saveSong_write None nid now uid sid c db1 = (Inr (s, False), db1\<lparr>ls_saves := ls_saves db1 @ [s]\<rparr>)"
      "s = \<lparr>us_id = nid, us_userId = uid, us_songId = sid, us_collection = c, us_createdAt = now\<rparr>" "find_save uid sid c db1 = None"
    then show ?thesis by (auto simp: find_save_def tbl_find_None_iff filter_empty_conv save_key_def)
  qed auto
  with u show ?thesis by blast
qed

subsection \<open>Reads\<close>

lemma group_sizes:
  "distinct ns \<Longrightarrow> f ` set xs \<subseteq> set ns \<Longrightarrow> (\<Sum>c\<in>set ns. length (filter (\<lambda>x. f x = c) xs)) = length xs"
proof (induction xs)
  case (Cons x xs)
  have "(\<Sum>c\<in>set ns. length (filter (\<lambda>x. f x = c) (x # xs))) =
      (\<Sum>c\<in>set ns. (if f x = c then 1 else 0) + length (filter (\<lambda>x. f x = c) xs))"
    by (intro sum.cong) auto
  with Cons show ?case by (simp add: sum.distrib)
qed simp

lemma sum_list_sorted: "sum_list (map f (sort_key k xs)) = (sum_list (map f xs) :: nat)"
proof -
  have "sum_mset (mset (map f (sort_key k xs))) = sum_mset (mset (map f xs))" by simp
  then show ?thesis by (simp only: sum_mset_sum_list)
qed

lemma distinct_sorted: "distinct (map f (sort_key k xs)) \<longleftrightarrow> distinct (map f xs)"
proof -
  have "mset (map f (sort_key k xs)) = mset (map f xs)" by simp
  then show ?thesis by (rule mset_eq_imp_distinct_iff)
qed

text \<open>
  C28: the reads of a library agree: the songs marked as saved in a list are those the single test calls
  saved, the sizes of the collections add up to the total of the library, and its pages, one after the
  other, are all its saves, newest first, each once (saves of the same instant in one order, which the query does
  not fix).
\<close>

theorem library_reads_agree:
  assumes "is_uuid uid"
  shows "(\<forall>sids. sids \<noteq> [] \<and> (\<forall>s\<in>set sids. is_uuid s) \<longrightarrow>
      getSavedSongIds uid sids db = Inr {s \<in> set sids. hasUserSaved uid s db = Inr True}) \<and>
    (\<exists>cs pg. getUserCollections uid db = Inr cs \<and> getUserLibrary uid 1 limit None db = Inr pg \<and>
       distinct (map fst cs) \<and> sum_list (map snd cs) = lp_total pg \<and>
       concat (map (\<lambda>p. lp_saves (projr (getUserLibrary uid (int p + 1) limit None db))) [0..<nat (lp_totalPages pg)]) =
         map (toSaveView db) (sort_key (\<lambda>s. - us_createdAt s) (filter (\<lambda>s. us_userId s = uid) (ls_saves db))))"
proof -
  let ?mine = "filter (\<lambda>s. us_userId s = uid) (ls_saves db)"
  let ?sorted = "sort_key (\<lambda>s. - us_createdAt s) ?mine"
  let ?l = "nat (safe_limit limit)"
  let ?names = "rev (remdups (rev (map us_collection ?mine)))"
  let ?cs = "sort_key (\<lambda>(c, n). - int n) (map (\<lambda>c. (c, length (filter (\<lambda>s. us_collection s = c) ?mine))) ?names)"
  have l: "0 < ?l" "int ?l = safe_limit limit" by (auto simp: safe_limit_def)
  have pg: "getUserLibrary uid (int p + 1) limit None db = Inr \<lparr>lp_saves = map (toSaveView db) (take ?l (drop (p * ?l) ?sorted)),
      lp_total = length ?sorted, lp_page = int p + 1, lp_limit = safe_limit limit,
      lp_totalPages = ceil_div (int (length ?sorted)) (safe_limit limit)\<rparr>" for p
    using assms l by (simp add: getUserLibrary_def in_collection_def truthy_def safe_page_def Let_def nat_mult_distrib)
  have all_pages: "concat (map (\<lambda>p. map (toSaveView db) (take ?l (drop (p * ?l) ?sorted)))
      [0..<nat (ceil_div (int (length ?sorted)) (safe_limit limit))]) = map (toSaveView db) ?sorted"
    using arg_cong [OF pages_cover [OF ceil_div_mult [OF l(1), of "length ?sorted"]], of "map (toSaveView db)"]
    unfolding l(2) map_concat map_map comp_def .
  have pages: "concat (map (\<lambda>p. lp_saves (projr (getUserLibrary uid (int p + 1) limit None db)))
      [0..<nat (ceil_div (int (length ?sorted)) (safe_limit limit))]) = map (toSaveView db) ?sorted"
    unfolding pg by (simp only: sum.sel library_page.select_convs all_pages)
  have "sum_list (map snd ?cs) = (\<Sum>c\<in>set ?names. length (filter (\<lambda>s. us_collection s = c) ?mine))"
    unfolding sum_list_sorted by (simp add: comp_def sum_list_distinct_conv_sum_set)
  also have "\<dots> = length ?mine" by (rule group_sizes) auto
  finally have total: "sum_list (map snd ?cs) = length ?sorted" by simp
  have "distinct (map fst ?cs)" unfolding distinct_sorted by (simp add: comp_def)
  moreover have "getUserCollections uid db = Inr ?cs" using assms by (simp add: getUserCollections_def Let_def)
  moreover have "getSavedSongIds uid sids db = Inr {s \<in> set sids. hasUserSaved uid s db = Inr True}"
    if "sids \<noteq> []" "\<forall>s\<in>set sids. is_uuid s" for sids
    using assms that
    by (auto simp: getSavedSongIds_def hasUserSaved_def tbl_count_def filter_empty_conv then_check_def split: option.splits)
  ultimately show ?thesis using pg [of 0] total pages by (intro conjI allI impI exI [of _ ?cs]) auto
qed

text \<open>
  a save that answers is there, and removing the song without naming a collection takes every save of
  it away and nothing else.
\<close>

theorem saving_and_removing:
  assumes "saveSong refused nid now uid sid coll db = (Inr (s, b), db1)"
  shows "s \<in> set (ls_saves db1) \<and> hasUserSaved uid sid db1 = Inr True \<and>
    (\<exists>n db2. unsaveSong uid sid None db1 = (Inr n, db2) \<and> 0 < n \<and> hasUserSaved uid sid db2 = Inr False \<and>
       ls_saves db2 = filter (\<lambda>s. \<not> (us_userId s = uid \<and> us_songId s = sid)) (ls_saves db1))"
proof -
  have v: "is_uuid uid" "is_uuid sid"
    using assms by (auto simp: saveSong_def saveSong_read_def then_check_def split: option.splits)
  have s: "s \<in> set (ls_saves db1)" "us_userId s = uid" "us_songId s = sid"
  proof -
    have "\<exists>c. s \<in> set (ls_saves db1) \<and> save_key s = (uid, sid, c)"
    proof (cases "saveSong_read uid sid coll db")
      case (Inr r)
      show ?thesis
      proof (cases r)
        case (Inl s')
        then have "\<exists>c. find_save uid sid c db = Some s'"
          using Inr by (auto simp: saveSong_read_def split: option.splits sum.splits)
        with assms Inr Inl show ?thesis by (auto simp: saveSong_def find_save_def dest!: tbl_find_SomeD)
      next
        fix c
        assume c: "r = Inr c"
        then have w: "saveSong_write refused nid now uid sid c db = (Inr (s, b), db1)"
          using assms Inr by (simp add: saveSong_def)
        show ?thesis
          by (rule saveSong_write_cases [of refused nid now uid sid c db])
            (use w in \<open>auto simp: find_save_def save_key_def dest!: tbl_find_SomeD\<close>)
      qed
    qed (use assms in \<open>simp add: saveSong_def\<close>)
    then show "s \<in> set (ls_saves db1)" "us_userId s = uid" "us_songId s = sid" by (auto simp: save_key_def)
  qed
  then have n: "filter (\<lambda>s. us_userId s = uid \<and> us_songId s = sid) (ls_saves db1) \<noteq> []" by (auto simp: filter_empty_conv)
  have "hasUserSaved uid sid db1 = Inr True" using v n by (simp add: hasUserSaved_def tbl_count_def then_check_def)
  moreover have "unsaveSong uid sid None db1 = (Inr (length (filter (\<lambda>s. us_userId s = uid \<and> us_songId s = sid) (ls_saves db1))),
      db1\<lparr>ls_saves := filter (\<lambda>s. \<not> (us_userId s = uid \<and> us_songId s = sid)) (ls_saves db1)\<rparr>)"
    using v n by (simp add: unsaveSong_def then_check_def in_collection_def truthy_def Let_def tbl_delete_def)
  moreover have "hasUserSaved uid sid (db1\<lparr>ls_saves := filter (\<lambda>s. \<not> (us_userId s = uid \<and> us_songId s = sid)) (ls_saves db1)\<rparr>) = Inr False"
    using v by (simp add: hasUserSaved_def tbl_count_def then_check_def filter_empty_conv)
  ultimately show ?thesis using s(1) n by simp
qed

subsection \<open>Witnesses\<close>

definition fan_id :: ident where "fan_id = ''3f2504e0-4f89-41d3-9a0c-0305e82c3301''"
definition song_uuid :: ident where "song_uuid = ''9b2504e0-4f89-41d3-8a0c-0305e82c3399''"

lemma library_uuids: "is_uuid fan_id" "is_uuid song_uuid"
  unfolding fan_id_def song_uuid_def by code_simp+

definition one_save :: user_save where
  "one_save = \<lparr>us_id = ''s1'', us_userId = fan_id, us_songId = song_uuid, us_collection = ''Later'', us_createdAt = 5\<rparr>"

theorem concurrent_saves_store_once_witness:
  "saves_unique (fold library_step [LE_write None ''a'' 1 ''u'' ''s'' ''c'', LE_write None ''b'' 2 ''u'' ''s'' ''c''] \<lparr>ls_saves = [], ls_songs = []\<rparr>)"
proof -
  have "saves_unique \<lparr>ls_saves = [], ls_songs = []\<rparr>" by (simp add: saves_unique_def tbl_simps)
  from concurrent_saves_store_once [OF this refl] show ?thesis by blast
qed

theorem library_reads_agree_witness:
  "getSavedSongIds fan_id [song_uuid] \<lparr>ls_saves = [one_save], ls_songs = []\<rparr> = Inr {song_uuid}"
proof -
  have "hasUserSaved fan_id song_uuid \<lparr>ls_saves = [one_save], ls_songs = []\<rparr> = Inr True"
    using library_uuids by (simp add: hasUserSaved_def then_check_def tbl_simps one_save_def)
  with library_reads_agree [OF library_uuids(1), of "\<lparr>ls_saves = [one_save], ls_songs = []\<rparr>"] library_uuids(2)
  show ?thesis by auto
qed

theorem saving_and_removing_witness:
  "\<exists>g s db1. saveSong None ''s2'' 9 fan_id song_uuid (Some ''  Later '') \<lparr>ls_saves = [one_save], ls_songs = [g]\<rparr> = (Inr (s, True), db1) \<and>
     hasUserSaved fan_id song_uuid db1 = Inr True"
proof -
  obtain g :: song_entity where g: "so_id g = song_uuid" by (metis song_entity.select_convs(1))
  have t: "js_trim ''  Later '' = ''Later''" by code_simp
  have vl: "validateStringLength ''Later'' ''collection'' (Suc 0) SAVE_COLLECTION_MAX_LENGTH = None" by (simp add: SAVE_COLLECTION_MAX_LENGTH_def)
  have "saveSong None ''s2'' 9 fan_id song_uuid (Some ''  Later '') \<lparr>ls_saves = [one_save], ls_songs = [g]\<rparr> =
      (Inr (one_save, True), \<lparr>ls_saves = [one_save], ls_songs = [g]\<rparr>)"
    using library_uuids g
    by (simp add: saveSong_def saveSong_read_def then_check_def normalizeCollection_def or_none_def truthy_def t
        find_saved_song_def find_save_def tbl_simps one_save_def save_key_def vl)
  with saving_and_removing [OF this] show ?thesis by blast
qed

end
