(* ===== verification/Releases.thy ===== *)
theory Releases
  imports Library
begin

text \<open>
  Releases and pre-saves: \<open>services/ReleaseService.ts\<close>, \<open>services/PreSaveService.ts\<close> and their entities. The class
  has two methods named \<open>publish\<close>; JavaScript keeps the second, which is \<open>publish\<close> here, and the first is
  \<open>publish_overridden\<close>. Ids the database generates are given by a function; \<open>blocked\<close> says which inserts into
  a library the database rejects for another reason than the unique key.
\<close>

subsection \<open>Entities\<close>

datatype release_type = RT_ALBUM | RT_EP | RT_SINGLE

fun release_type_name :: "release_type \<Rightarrow> string" where
  "release_type_name RT_ALBUM = ''album''"
| "release_type_name RT_EP = ''ep''"
| "release_type_name RT_SINGLE = ''single''"

datatype release_status = RL_DRAFT | RL_SCHEDULED | RL_PUBLISHED

fun release_status_name :: "release_status \<Rightarrow> string" where
  "release_status_name RL_DRAFT = ''draft''"
| "release_status_name RL_SCHEDULED = ''scheduled''"
| "release_status_name RL_PUBLISHED = ''published''"

text \<open>The two enum columns are texts: an update can leave an empty one.\<close>

record release_row =
  re_id :: ident
  re_title :: string
  re_artistId :: ident
  re_releaseDate :: timestamp
  re_type :: string
  re_status :: string
  re_scheduledAt :: "timestamp option"
  re_publishedAt :: "timestamp option"
  re_coverArt :: "string option"

record release_track =
  rk_releaseId :: ident
  rk_songId :: ident
  rk_trackNumber :: nat

record release_pre_save =
  rs_id :: ident
  rs_userId :: ident
  rs_releaseId :: ident
  rs_createdAt :: timestamp
  rs_fulfilledAt :: "timestamp option"

definition pre_save_key :: "release_pre_save \<Rightarrow> ident \<times> ident" where
  "pre_save_key p = (rs_userId p, rs_releaseId p)"

record release_db =
  rd_releases :: "release_row table"
  rd_tracks :: "release_track table"
  rd_preSaves :: "release_pre_save table"
  rd_library :: save_db

definition find_release :: "ident \<Rightarrow> release_db \<Rightarrow> release_row option" where
  "find_release rid db = tbl_find (\<lambda>r. re_id r = rid) (rd_releases db)"

definition find_pre_save :: "ident \<Rightarrow> ident \<Rightarrow> release_db \<Rightarrow> release_pre_save option" where
  "find_pre_save uid rid db = tbl_find (\<lambda>p. pre_save_key p = (uid, rid)) (rd_preSaves db)"

definition put_release :: "release_row \<Rightarrow> release_db \<Rightarrow> release_db" where
  "put_release r db = db\<lparr>rd_releases := tbl_put re_id r (rd_releases db)\<rparr>"

definition release_not_found :: js_error where
  "release_not_found = AppErr (AE_notFound ''Release not found'' NoDetails None)"

subsection \<open>Pre-saves\<close>

definition isReleasePublished :: "timestamp \<Rightarrow> timestamp \<Rightarrow> bool" where
  "isReleasePublished now d \<longleftrightarrow> d \<le> now"

definition validate_pair :: "ident \<Rightarrow> ident \<Rightarrow> js_error option" where
  "validate_pair uid rid = then_check (validateUUID uid ''userId'') (validateUUID rid ''releaseId'')"

text \<open>
  Split at the await before the insert. The first part ends with an error, the row that exists, or goes on.
\<close>

definition preSave_read :: "timestamp \<Rightarrow> ident \<Rightarrow> ident \<Rightarrow> release_db \<Rightarrow> js_error + release_pre_save option" where
  "preSave_read now uid rid db =
     (case validate_pair uid rid of
        Some e \<Rightarrow> Inl e
      | None \<Rightarrow>
        (case find_release rid db of
           None \<Rightarrow> Inl release_not_found
         | Some r \<Rightarrow>
             if isReleasePublished now (re_releaseDate r)
             then Inl (AppErr (AE_businessLogic ''Release is already published; pre-save is no longer available'' NoDetails None))
             else Inr (find_pre_save uid rid db)))"

definition preSave_write ::
  "js_error option \<Rightarrow> ident \<Rightarrow> timestamp \<Rightarrow> ident \<Rightarrow> ident \<Rightarrow> (release_db, release_pre_save \<times> bool) service" where
  "preSave_write refused nid now uid rid db =
     (case (case refused of
              Some e \<Rightarrow> (Inl e, rd_preSaves db)
            | None \<Rightarrow> insert_row pre_save_key \<lparr>rs_id = nid, rs_userId = uid, rs_releaseId = rid, rs_createdAt = now, rs_fulfilledAt = None\<rparr>
                        (rd_preSaves db)) of
        (Inr p, t) \<Rightarrow> (Inr (p, False), db\<lparr>rd_preSaves := t\<rparr>)
      | (Inl e, t) \<Rightarrow> (case find_pre_save uid rid db of Some p \<Rightarrow> (Inr (p, True), db) | None \<Rightarrow> (Inl e, db)))"

definition preSave ::
  "js_error option \<Rightarrow> ident \<Rightarrow> timestamp \<Rightarrow> ident \<Rightarrow> ident \<Rightarrow> (release_db, release_pre_save \<times> bool) service" where
  "preSave refused nid now uid rid db =
     (case preSave_read now uid rid db of
        Inl e \<Rightarrow> (Inl e, db)
      | Inr (Some p) \<Rightarrow> (Inr (p, True), db)
      | Inr None \<Rightarrow> preSave_write refused nid now uid rid db)"

definition unPreSave :: "ident \<Rightarrow> ident \<Rightarrow> (release_db, unit) service" where
  "unPreSave uid rid db =
     (case validate_pair uid rid of
        Some e \<Rightarrow> (Inl e, db)
      | None \<Rightarrow>
        (case find_pre_save uid rid db of
           None \<Rightarrow> (Inl (AppErr (AE_notFound ''Pre-save not found for this release'' NoDetails None)), db)
         | Some p \<Rightarrow> (Inr (), db\<lparr>rd_preSaves := tbl_delete (\<lambda>x. pre_save_key x = pre_save_key p) (rd_preSaves db)\<rparr>)))"

record pre_save_status =
  ps_releaseId :: ident
  ps_isPreSaved :: bool
  ps_preSaveCount :: nat
  ps_isPublished :: bool

definition getPreSaveStatus :: "timestamp \<Rightarrow> ident \<Rightarrow> ident \<Rightarrow> release_db \<Rightarrow> js_error + pre_save_status" where
  "getPreSaveStatus now uid rid db =
     (case validate_pair uid rid of
        Some e \<Rightarrow> Inl e
      | None \<Rightarrow>
        (case find_release rid db of
           None \<Rightarrow> Inl release_not_found
         | Some r \<Rightarrow> Inr \<lparr>ps_releaseId = rid, ps_isPreSaved = (find_pre_save uid rid db \<noteq> None),
               ps_preSaveCount = tbl_count (\<lambda>p. rs_releaseId p = rid) (rd_preSaves db),
               ps_isPublished = isReleasePublished now (re_releaseDate r)\<rparr>))"

definition listPreSaves :: "ident \<Rightarrow> release_db \<Rightarrow> js_error + (release_pre_save \<times> release_row option) list" where
  "listPreSaves uid db =
     (case validateUUID uid ''userId'' of
        Some e \<Rightarrow> Inl e
      | None \<Rightarrow> Inr (map (\<lambda>p. (p, find_release (rs_releaseId p) db))
          (sort_key (\<lambda>p. - rs_createdAt p) (filter (\<lambda>p. rs_userId p = uid) (rd_preSaves db)))))"

text \<open>
  The two nested loops over fans and songs as one over their pairs. An insert that is rejected although no
  other request wrote the row ends the request with the rows inserted so far.
\<close>

fun deliver_saves ::
  "(ident \<Rightarrow> ident \<Rightarrow> bool) \<Rightarrow> (ident \<Rightarrow> ident \<Rightarrow> ident) \<Rightarrow> timestamp \<Rightarrow> (ident \<times> ident) list \<Rightarrow> nat \<Rightarrow> (save_db, nat) service" where
  "deliver_saves blocked nid now [] n lib = (Inr n, lib)"
| "deliver_saves blocked nid now ((uid, sid) # ps) n lib =
     (if find_save uid sid DEFAULT_SAVE_COLLECTION lib \<noteq> None then deliver_saves blocked nid now ps n lib
      else if blocked uid sid then (Inl (PlainErr ''Failed to save pre-saved song to library'' None), lib)
      else deliver_saves blocked nid now ps (Suc n)
             (lib\<lparr>ls_saves := ls_saves lib @ [\<lparr>us_id = nid uid sid, us_userId = uid, us_songId = sid,
                us_collection = DEFAULT_SAVE_COLLECTION, us_createdAt = now\<rparr>]\<rparr>))"

definition pending_pre_saves :: "ident \<Rightarrow> release_db \<Rightarrow> release_pre_save list" where
  "pending_pre_saves rid db = filter (\<lambda>p. rs_releaseId p = rid \<and> rs_fulfilledAt p = None) (rd_preSaves db)"

text \<open>\<open>[...new Set(...)]\<close>: the first occurrences in their order.\<close>

definition release_songs :: "ident \<Rightarrow> release_db \<Rightarrow> ident list" where
  "release_songs rid db = rev (remdups (rev (map rk_songId (filter (\<lambda>t. rk_releaseId t = rid) (rd_tracks db)))))"

definition fulfillForRelease ::
  "(ident \<Rightarrow> ident \<Rightarrow> bool) \<Rightarrow> (ident \<Rightarrow> ident \<Rightarrow> ident) \<Rightarrow> timestamp \<Rightarrow> ident \<Rightarrow> (release_db, nat \<times> nat) service" where
  "fulfillForRelease blocked nid now rid db =
     (case validateUUID rid ''releaseId'' of
        Some e \<Rightarrow> (Inl e, db)
      | None \<Rightarrow>
          let pending = pending_pre_saves rid db in
          if pending = [] then (Inr (0, 0), db)
          else (case deliver_saves blocked nid now (List.product (map rs_userId pending) (release_songs rid db)) 0 (rd_library db) of
              (Inl e, lib) \<Rightarrow> (Inl e, db\<lparr>rd_library := lib\<rparr>)
            | (Inr n, lib) \<Rightarrow>
                (Inr (length pending, n),
                 db\<lparr>rd_library := lib,
                    rd_preSaves := map (\<lambda>p. if rs_releaseId p = rid \<and> rs_fulfilledAt p = None then p\<lparr>rs_fulfilledAt := Some now\<rparr> else p)
                      (rd_preSaves db)\<rparr>)))"

subsection \<open>Releases\<close>

text \<open>A date of the request: missing, \<open>null\<close>, an empty text, a text that is no date, or a date.\<close>

datatype date_arg = DA_undefined | DA_null | DA_empty | DA_invalid | DA_at timestamp

text \<open>\<open>new Date(x)\<close>: \<open>None\<close> is an invalid date; \<open>null\<close> gives the epoch.\<close>

fun new_Date :: "date_arg \<Rightarrow> timestamp option" where
  "new_Date DA_undefined = None"
| "new_Date DA_null = Some 0"
| "new_Date DA_empty = None"
| "new_Date DA_invalid = None"
| "new_Date (DA_at t) = Some t"

definition invalid_timestamp :: js_error where
  "invalid_timestamp = PlainErr ''invalid input syntax for type timestamp'' None"

record release_input =
  ri_title :: string
  ri_releaseDate :: date_arg
  ri_type :: string
  ri_coverArt :: "string option"
  ri_songIds :: "ident list"
  ri_scheduledAt :: date_arg
  ri_status :: "string option"

definition release_types :: "string list" where
  "release_types = map release_type_name [RT_ALBUM, RT_EP, RT_SINGLE]"

definition release_statuses :: "string list" where
  "release_statuses = map release_status_name [RL_DRAFT, RL_SCHEDULED, RL_PUBLISHED]"

definition invalid_schedule :: js_error where
  "invalid_schedule = AppErr (AE_validation ''Invalid scheduledAt date format'' NoDetails None)"

text \<open>Status, schedule and publication time.\<close>

definition resolve_at :: "timestamp \<Rightarrow> timestamp option \<Rightarrow> js_error + string \<times> timestamp option \<times> timestamp option" where
  "resolve_at now d =
     (case d of
        None \<Rightarrow> Inl invalid_schedule
      | Some t \<Rightarrow> if t > now then Inr (release_status_name RL_SCHEDULED, Some t, None)
                  else Inr (release_status_name RL_PUBLISHED, None, Some now))"

definition resolveScheduleOnCreate ::
  "timestamp \<Rightarrow> release_input \<Rightarrow> js_error + string \<times> timestamp option \<times> timestamp option" where
  "resolveScheduleOnCreate now inp =
     (if ri_scheduledAt inp \<in> {DA_undefined, DA_null, DA_empty}
      then (if ri_status inp = Some (release_status_name RL_DRAFT) then Inr (release_status_name RL_DRAFT, None, None)
            else Inr (release_status_name RL_PUBLISHED, None, Some now))
      else resolve_at now (new_Date (ri_scheduledAt inp)))"

record release_view =
  rv_release :: release_row
  rv_tracks :: "(nat \<times> song_entity) list"

definition getReleaseById :: "ident \<Rightarrow> release_db \<Rightarrow> js_error + release_view" where
  "getReleaseById rid db =
     (case find_release rid db of
        None \<Rightarrow> Inl release_not_found
      | Some r \<Rightarrow> Inr \<lparr>rv_release = r,
          rv_tracks = List.map_filter (\<lambda>t. map_option (Pair (rk_trackNumber t)) (find_saved_song (rk_songId t) (rd_library db)))
            (sort_key rk_trackNumber (filter (\<lambda>t. rk_releaseId t = rid) (rd_tracks db)))\<rparr>)"

text \<open>\<open>findBy\<close> gives each song once, so a repeated id counts as a song that does not exist.\<close>

definition existing_songs :: "ident list \<Rightarrow> save_db \<Rightarrow> song_entity list" where
  "existing_songs ids lib = filter (\<lambda>s. so_id s \<in> set ids) (ls_songs lib)"

definition create_release :: "ident \<Rightarrow> timestamp \<Rightarrow> ident \<Rightarrow> release_input \<Rightarrow> (release_db, release_view) service" where
  "create_release nid now artist inp db =
     (if ri_type inp \<notin> set release_types
      then (Inl (AppErr (AE_validation (''type must be one of: '' @ join_with '', '' release_types) NoDetails None)), db)
      else if ri_songIds inp = []
      then (Inl (AppErr (AE_validation ''songIds must be a non-empty array'' NoDetails None)), db)
      else if length (existing_songs (ri_songIds inp) (rd_library db)) \<noteq> length (ri_songIds inp)
      then (Inl (AppErr (AE_notFound ''One or more songIds do not exist'' NoDetails None)), db)
      else (case resolveScheduleOnCreate now inp of
          Inl e \<Rightarrow> (Inl e, db)
        | Inr (status, sched, pub) \<Rightarrow>
            (case new_Date (ri_releaseDate inp) of
               None \<Rightarrow> (Inl invalid_timestamp, db)
             | Some d \<Rightarrow>
                 let r = \<lparr>re_id = nid, re_title = ri_title inp, re_artistId = artist, re_releaseDate = d, re_type = ri_type inp,
                          re_status = status, re_scheduledAt = sched, re_publishedAt = pub, re_coverArt = ri_coverArt inp\<rparr>;
                     tracks = map (\<lambda>(sid, i). \<lparr>rk_releaseId = nid, rk_songId = sid, rk_trackNumber = Suc i\<rparr>)
                                (zip (ri_songIds inp) [0..<length (ri_songIds inp)]);
                     db' = db\<lparr>rd_releases := rd_releases db @ [r], rd_tracks := rd_tracks db @ tracks\<rparr>
                 in (getReleaseById nid db', db'))))"

text \<open>The first \<open>publish\<close> of the class, which the second one replaces.\<close>

definition not_release_owner :: "string \<Rightarrow> js_error" where
  "not_release_owner verb = AppErr (AE_authorization (''Only the release owner can '' @ verb @ '' this release'') NoDetails None)"

definition publish_overridden :: "timestamp \<Rightarrow> ident \<Rightarrow> ident \<Rightarrow> (release_db, release_row) service" where
  "publish_overridden now rid artist db =
     (case find_release rid db of
        None \<Rightarrow> (Inl release_not_found, db)
      | Some r \<Rightarrow>
          if re_artistId r \<noteq> artist then (Inl (not_release_owner ''publish''), db)
          else let r' = r\<lparr>re_status := release_status_name RL_PUBLISHED, re_publishedAt := Some now, re_scheduledAt := None\<rparr>
               in (Inr r', put_release r' db))"

definition due_release :: "timestamp \<Rightarrow> release_row \<Rightarrow> bool" where
  "due_release asOf r \<longleftrightarrow> re_status r = release_status_name RL_SCHEDULED \<and>
     (case re_scheduledAt r of None \<Rightarrow> False | Some t \<Rightarrow> t \<le> asOf)"

definition released :: "timestamp \<Rightarrow> release_row \<Rightarrow> release_row" where
  "released asOf r = r\<lparr>re_status := release_status_name RL_PUBLISHED,
     re_publishedAt := Some (case re_scheduledAt r of None \<Rightarrow> asOf | Some t \<Rightarrow> t)\<rparr>"

definition publishScheduledReleases :: "timestamp \<Rightarrow> release_db \<Rightarrow> release_row list \<times> release_db" where
  "publishScheduledReleases asOf db =
     (let published = map (released asOf) (filter (due_release asOf) (rd_releases db)) in
      (published, fold put_release published db))"

record release_page =
  rp_data :: "release_row list"
  rp_number :: int
  rp_size :: int
  rp_count :: nat
  rp_pages :: int

text \<open>An offset or a limit below zero is refused by the database; the controller passes no zero.\<close>

definition findPaginated :: "int \<Rightarrow> int \<Rightarrow> ident option \<Rightarrow> string option \<Rightarrow> release_db \<Rightarrow> js_error + release_page" where
  "findPaginated page limit artist status db =
     (if page \<le> 0 \<or> limit \<le> 0 then Inl (PlainErr ''OFFSET and LIMIT must not be negative'' None)
      else let found = sort_key (\<lambda>r. - re_releaseDate r) (filter (\<lambda>r. (truthy artist \<longrightarrow> Some (re_artistId r) = artist) \<and>
                         (truthy status \<longrightarrow> Some (re_status r) = status)) (rd_releases db)) in
           Inr \<lparr>rp_data = take (nat limit) (drop (nat ((page - 1) * limit)) found), rp_number = page, rp_size = limit,
                rp_count = length found, rp_pages = ceil_div (int (length found)) limit\<rparr>)"

record release_update =
  ru_title :: "string option"
  ru_releaseDate :: date_arg
  ru_type :: "string option"
  ru_coverArt :: "string option"
  ru_scheduledAt :: date_arg
  ru_status :: "string option"

definition resolveScheduleOnUpdate ::
  "timestamp \<Rightarrow> release_update \<Rightarrow> release_row \<Rightarrow> js_error + string \<times> timestamp option \<times> timestamp option" where
  "resolveScheduleOnUpdate now u r =
     (let initial = (case ru_status u of None \<Rightarrow> re_status r | Some s \<Rightarrow> s) in
      if ru_scheduledAt u = DA_undefined then Inr (initial, re_scheduledAt r, re_publishedAt r)
      else if ru_scheduledAt u = DA_null then Inr (initial, None, re_publishedAt r)
      else resolve_at now (new_Date (ru_scheduledAt u)))"

definition updated_release :: "release_update \<Rightarrow> timestamp \<Rightarrow> string \<times> timestamp option \<times> timestamp option \<Rightarrow> release_row \<Rightarrow> release_row" where
  "updated_release u d sch r = (case sch of (status, sched, pub) \<Rightarrow>
     r\<lparr>re_title := (case ru_title u of None \<Rightarrow> re_title r | Some t \<Rightarrow> t), re_releaseDate := d,
       re_type := (case ru_type u of None \<Rightarrow> re_type r | Some t \<Rightarrow> t),
       re_coverArt := (case ru_coverArt u of None \<Rightarrow> re_coverArt r | Some c \<Rightarrow> Some c),
       re_status := status, re_scheduledAt := sched, re_publishedAt := pub\<rparr>)"

definition update_release ::
  "(ident \<Rightarrow> ident \<Rightarrow> bool) \<Rightarrow> (ident \<Rightarrow> ident \<Rightarrow> ident) \<Rightarrow> timestamp \<Rightarrow> ident \<Rightarrow> ident \<Rightarrow> release_update \<Rightarrow> (release_db, release_row) service" where
  "update_release blocked nid now rid requester u db =
     (case find_release rid db of
        None \<Rightarrow> (Inl release_not_found, db)
      | Some r \<Rightarrow>
          if re_artistId r \<noteq> requester then (Inl (not_release_owner ''update''), db)
          else if truthy (ru_type u) \<and> the (ru_type u) \<notin> set release_types
          then (Inl (AppErr (AE_validation (''type must be one of: '' @ join_with '', '' release_types) NoDetails None)), db)
          else if truthy (ru_status u) \<and> the (ru_status u) \<notin> set release_statuses
          then (Inl (AppErr (AE_validation (''status must be one of: '' @ join_with '', '' release_statuses) NoDetails None)), db)
          else (case resolveScheduleOnUpdate now u r of
              Inl e \<Rightarrow> (Inl e, db)
            | Inr sch \<Rightarrow>
                (case (if ru_releaseDate u = DA_undefined then Some (re_releaseDate r) else new_Date (ru_releaseDate u)) of
                   None \<Rightarrow> (Inl invalid_timestamp, db)
                 | Some d \<Rightarrow>
                     let r' = updated_release u d sch r; db' = put_release r' db in
                     if \<not> isReleasePublished now (re_releaseDate r) \<and> isReleasePublished now d
                     then (case fulfillForRelease blocked nid now rid db' of
                         (Inl e, db'') \<Rightarrow> (Inl e, db'')
                       | (Inr _, db'') \<Rightarrow> (Inr r', db''))
                     else (Inr r', db'))))"

definition publish ::
  "(ident \<Rightarrow> ident \<Rightarrow> bool) \<Rightarrow> (ident \<Rightarrow> ident \<Rightarrow> ident) \<Rightarrow> timestamp \<Rightarrow> ident \<Rightarrow> ident \<Rightarrow> (release_db, release_view \<times> nat \<times> nat) service" where
  "publish blocked nid now rid requester db =
     (case find_release rid db of
        None \<Rightarrow> (Inl release_not_found, db)
      | Some r \<Rightarrow>
          if re_artistId r \<noteq> requester then (Inl (not_release_owner ''publish''), db)
          else let db' = (if isReleasePublished now (re_releaseDate r) then db else put_release (r\<lparr>re_releaseDate := now\<rparr>) db) in
               (case fulfillForRelease blocked nid now rid db' of
                  (Inl e, db'') \<Rightarrow> (Inl e, db'')
                | (Inr (n, m), db'') \<Rightarrow>
                    (case getReleaseById rid db'' of Inl e \<Rightarrow> (Inl e, db'') | Inr v \<Rightarrow> (Inr (v, n, m), db''))))"

subsection \<open>Fulfilment\<close>

text \<open>The saves a fulfilment adds.\<close>

definition delivered_save :: "(ident \<Rightarrow> ident \<Rightarrow> ident) \<Rightarrow> timestamp \<Rightarrow> ident \<Rightarrow> ident \<Rightarrow> user_save" where
  "delivered_save nid now uid sid = \<lparr>us_id = nid uid sid, us_userId = uid, us_songId = sid,
     us_collection = DEFAULT_SAVE_COLLECTION, us_createdAt = now\<rparr>"

definition has_track :: "save_db \<Rightarrow> ident \<times> ident \<Rightarrow> bool" where
  "has_track lib q \<longleftrightarrow> find_save (fst q) (snd q) DEFAULT_SAVE_COLLECTION lib \<noteq> None"

lemma has_track_iff: "has_track lib q \<longleftrightarrow> (fst q, snd q, DEFAULT_SAVE_COLLECTION) \<in> save_key ` set (ls_saves lib)"
  by (auto simp: has_track_def find_save_def tbl_find_None_iff image_iff) metis

lemma deliver_saves_Cons:
  "deliver_saves blocked nid now (q # qs) n lib =
     (if has_track lib q then deliver_saves blocked nid now qs n lib
      else if blocked (fst q) (snd q) then (Inl (PlainErr ''Failed to save pre-saved song to library'' None), lib)
      else deliver_saves blocked nid now qs (Suc n) (lib\<lparr>ls_saves := ls_saves lib @ [delivered_save nid now (fst q) (snd q)]\<rparr>))"
  by (cases q) (simp add: has_track_def delivered_save_def)

lemma deliver_saves_keeps:
  assumes "deliver_saves blocked nid now qs n lib = (r, lib')"
  shows "\<exists>new. lib' = lib\<lparr>ls_saves := ls_saves lib @ new\<rparr> \<and>
     (\<forall>s\<in>set new. \<exists>q\<in>set qs. s = delivered_save nid now (fst q) (snd q) \<and> \<not> has_track lib q) \<and>
     (saves_unique lib \<longrightarrow> saves_unique lib')"
  using assms
proof (induction qs arbitrary: n lib)
  case (Cons q qs)
  show ?case
  proof (cases "has_track lib q \<or> blocked (fst q) (snd q)")
    case True
    then show ?thesis
    proof (cases "has_track lib q")
      case True
      with Cons.prems have "deliver_saves blocked nid now qs n lib = (r, lib')" by (simp add: deliver_saves_Cons)
      from Cons.IH [OF this] obtain new where "lib' = lib\<lparr>ls_saves := ls_saves lib @ new\<rparr>"
          "\<forall>s\<in>set new. \<exists>q\<in>set qs. s = delivered_save nid now (fst q) (snd q) \<and> \<not> has_track lib q"
          "saves_unique lib \<longrightarrow> saves_unique lib'" by blast
      then show ?thesis by (intro exI [of _ new]) auto
    next
      case False
      with True Cons.prems have "lib' = lib" by (simp add: deliver_saves_Cons)
      then show ?thesis by (intro exI [of _ "[]"]) simp
    qed
  next
    case False
    let ?lib = "lib\<lparr>ls_saves := ls_saves lib @ [delivered_save nid now (fst q) (snd q)]\<rparr>"
    from False Cons.prems have "deliver_saves blocked nid now qs (Suc n) ?lib = (r, lib')" by (simp add: deliver_saves_Cons)
    from Cons.IH [OF this] obtain new where new: "lib' = lib\<lparr>ls_saves := (ls_saves lib @ [delivered_save nid now (fst q) (snd q)]) @ new\<rparr>"
        "\<forall>s\<in>set new. \<exists>q\<in>set qs. s = delivered_save nid now (fst q) (snd q) \<and> \<not> has_track ?lib q"
        "saves_unique ?lib \<longrightarrow> saves_unique lib'" by auto
    have "saves_unique lib \<longrightarrow> saves_unique ?lib"
      using False by (auto simp: saves_unique_def tbl_ok_def has_track_iff delivered_save_def save_key_def)
    moreover have "\<not> has_track ?lib q' \<Longrightarrow> \<not> has_track lib q'" for q' by (auto simp: has_track_iff)
    moreover have "\<forall>s\<in>set new. \<exists>q\<in>set qs. s = delivered_save nid now (fst q) (snd q) \<and> \<not> has_track lib q"
      using new(2) unfolding has_track_iff by auto
    ultimately show ?thesis using new(1,3) False
      by (intro exI [of _ "delivered_save nid now (fst q) (snd q) # new"]) auto
  qed
qed simp

lemma deliver_saves_done:
  assumes "deliver_saves blocked nid now qs n lib = (Inr m, lib')"
  shows "m + length (ls_saves lib) = n + length (ls_saves lib') \<and> (\<forall>q\<in>set qs. has_track lib' q)"
  using assms
proof (induction qs arbitrary: n lib)
  case (Cons q qs)
  have mono: "has_track lib1 q \<Longrightarrow> deliver_saves blocked nid now qs k lib1 = (Inr m, lib') \<Longrightarrow> has_track lib' q" for lib1 k
    using deliver_saves_keeps [of blocked nid now qs k lib1 "Inr m" lib'] by (auto simp: has_track_iff)
  show ?case
  proof (cases "has_track lib q")
    case True
    with Cons.prems have "deliver_saves blocked nid now qs n lib = (Inr m, lib')" by (simp add: deliver_saves_Cons)
    with Cons.IH [OF this] mono [OF True] show ?thesis by simp
  next
    case False
    let ?lib = "lib\<lparr>ls_saves := ls_saves lib @ [delivered_save nid now (fst q) (snd q)]\<rparr>"
    have h: "has_track ?lib q" by (simp add: has_track_iff delivered_save_def save_key_def)
    from False Cons.prems have d: "deliver_saves blocked nid now qs (Suc n) ?lib = (Inr m, lib')"
      by (simp add: deliver_saves_Cons split: if_splits)
    with Cons.IH [OF this] mono [OF h] show ?thesis by simp
  qed
qed simp

lemma deliver_saves_unblocked_on:
  "\<forall>q\<in>set qs. \<not> blocked (fst q) (snd q) \<Longrightarrow> \<exists>m lib'. deliver_saves blocked nid now qs n lib = (Inr m, lib')"
  by (induction qs arbitrary: n lib) (simp_all add: deliver_saves_Cons)

definition mark_fulfilled :: "timestamp \<Rightarrow> ident \<Rightarrow> release_pre_save \<Rightarrow> release_pre_save" where
  "mark_fulfilled now rid p = (if rs_releaseId p = rid \<and> rs_fulfilledAt p = None then p\<lparr>rs_fulfilledAt := Some now\<rparr> else p)"

lemma mark_fulfilled_sel [simp]:
  "rs_userId (mark_fulfilled now rid p) = rs_userId p" "rs_releaseId (mark_fulfilled now rid p) = rs_releaseId p"
  by (simp_all add: mark_fulfilled_def)

lemma pending_marked: "pending_pre_saves rid (db\<lparr>rd_library := lib, rd_preSaves := map (mark_fulfilled now rid) (rd_preSaves db)\<rparr>) = []"
proof -
  have "\<not> (rs_releaseId (mark_fulfilled now rid p) = rid \<and> rs_fulfilledAt (mark_fulfilled now rid p) = None)" for p
    by (simp add: mark_fulfilled_def)
  then have "filter (\<lambda>p. rs_releaseId p = rid \<and> rs_fulfilledAt p = None) (map (mark_fulfilled now rid) xs) = []" for xs
    by (induction xs) (simp_all del: mark_fulfilled_sel)
  then show ?thesis by (simp add: pending_pre_saves_def)
qed

text \<open>The pairs a fulfilment goes through.\<close>

definition owed :: "ident \<Rightarrow> release_db \<Rightarrow> (ident \<times> ident) list" where
  "owed rid db = List.product (map rs_userId (pending_pre_saves rid db)) (release_songs rid db)"

lemma set_owed: "(uid, sid) \<in> set (owed rid db) \<longleftrightarrow>
     (\<exists>p\<in>set (rd_preSaves db). rs_releaseId p = rid \<and> rs_userId p = uid \<and> rs_fulfilledAt p = None) \<and>
     (\<exists>t\<in>set (rd_tracks db). rk_releaseId t = rid \<and> rk_songId t = sid)"
  by (auto simp: owed_def pending_pre_saves_def release_songs_def)

lemma fulfill_cases:
  assumes "fulfillForRelease blocked nid now rid db = (r, db')"
  obtains (idle) "db' = db" "is_uuid rid \<longrightarrow> pending_pre_saves rid db = []" "is_uuid rid \<longrightarrow> r = Inr (0, 0)"
  | (failed) e lib where "is_uuid rid" "deliver_saves blocked nid now (owed rid db) 0 (rd_library db) = (Inl e, lib)"
      "r = Inl e" "db' = db\<lparr>rd_library := lib\<rparr>"
  | (completed) m lib where "is_uuid rid" "deliver_saves blocked nid now (owed rid db) 0 (rd_library db) = (Inr m, lib)"
      "r = Inr (length (pending_pre_saves rid db), m)"
      "db' = db\<lparr>rd_library := lib, rd_preSaves := map (mark_fulfilled now rid) (rd_preSaves db)\<rparr>"
proof (cases "is_uuid rid \<and> pending_pre_saves rid db \<noteq> []")
  case True
  obtain x lib where d: "deliver_saves blocked nid now (owed rid db) 0 (rd_library db) = (x, lib)" by fastforce
  have f: "fulfillForRelease blocked nid now rid db = (case (x, lib) of
      (Inl e, lib) \<Rightarrow> (Inl e, db\<lparr>rd_library := lib\<rparr>)
    | (Inr n, lib) \<Rightarrow> (Inr (length (pending_pre_saves rid db), n),
        db\<lparr>rd_library := lib, rd_preSaves := map (mark_fulfilled now rid) (rd_preSaves db)\<rparr>))"
    using True unfolding d [symmetric] fulfillForRelease_def owed_def mark_fulfilled_def [abs_def] Let_def by simp
  show ?thesis
  proof (cases x)
    case (Inl e)
    with f d True assms show ?thesis by (intro failed [of e lib]) simp_all
  next
    case (Inr m)
    with f d True assms show ?thesis by (intro completed [of m lib]) simp_all
  qed
next
  case False
  then have b: "is_uuid rid \<longrightarrow> pending_pre_saves rid db = []" by simp
  have a: "db' = db" and c: "is_uuid rid \<longrightarrow> r = Inr (0, 0)" using False assms by (auto simp: fulfillForRelease_def split: option.splits)
  show ?thesis by (rule idle [OF a b c])
qed

lemma deliver_saves_new:
  assumes "deliver_saves blocked nid now qs n lib = (r, lib')"
  shows "\<exists>new. ls_saves lib' = ls_saves lib @ new \<and>
     (\<forall>s\<in>set new. (us_userId s, us_songId s) \<in> set qs \<and> us_collection s = DEFAULT_SAVE_COLLECTION)"
proof -
  obtain new where "lib' = lib\<lparr>ls_saves := ls_saves lib @ new\<rparr>"
      "\<forall>s\<in>set new. \<exists>q\<in>set qs. s = delivered_save nid now (fst q) (snd q) \<and> \<not> has_track lib q"
    using deliver_saves_keeps [OF assms] by blast
  then show ?thesis by (intro exI [of _ new]) (auto simp: delivered_save_def)
qed

lemma has_track_once:
  assumes u: "saves_unique lib" and h: "has_track lib (uid, sid)"
  shows "length (filter (\<lambda>s. save_key s = (uid, sid, DEFAULT_SAVE_COLLECTION)) (ls_saves lib)) = 1"
proof -
  from h obtain s where s: "s \<in> set (ls_saves lib)" "save_key s = (uid, sid, DEFAULT_SAVE_COLLECTION)" by (auto simp: has_track_iff)
  have "filter (\<lambda>x. save_key x = save_key s) (ls_saves lib) = filter (\<lambda>x. x = s) (ls_saves lib)"
    using u s(1) by (intro filter_cong) (auto simp: saves_unique_def tbl_ok_unique)
  then have "filter (\<lambda>s. save_key s = (uid, sid, DEFAULT_SAVE_COLLECTION)) (ls_saves lib) = [s]"
    unfolding s(2) using u s(1) by (simp add: filter_eq_single saves_unique_def tbl_ok_def distinct_map)
  then show ?thesis by simp
qed

text \<open>
  C26: a fulfilment that returns has put every track of the release into the Favorites of every fan whose
  pre-save was pending, once, added no other save and removed none; it marks all of them, tells how many
  saves it added, and a second one finds nothing to do. It fails only when the database rejects one of
  these inserts; then nothing is marked, and a later fulfilment that returns completes the same set.
\<close>

theorem fulfilment_is_complete:
  assumes "is_uuid rid" and "saves_unique (rd_library db)"
    and "fulfillForRelease blocked nid now rid db = (r, db')"
  shows "(\<exists>new. ls_saves (rd_library db') = ls_saves (rd_library db) @ new \<and>
      (\<forall>s\<in>set new. (us_userId s, us_songId s) \<in> set (owed rid db) \<and> us_collection s = DEFAULT_SAVE_COLLECTION)) \<and>
    saves_unique (rd_library db') \<and>
    (case r of
       Inr (k, m) \<Rightarrow> k = length (pending_pre_saves rid db) \<and> m + length (ls_saves (rd_library db)) = length (ls_saves (rd_library db')) \<and>
         (\<forall>(uid, sid)\<in>set (owed rid db). length (filter (\<lambda>s. save_key s = (uid, sid, DEFAULT_SAVE_COLLECTION)) (ls_saves (rd_library db'))) = 1) \<and>
         pending_pre_saves rid db' = [] \<and> fulfillForRelease blocked nid now' rid db' = (Inr (0, 0), db')
     | Inl e \<Rightarrow> rd_preSaves db' = rd_preSaves db \<and> owed rid db' = owed rid db \<and> (\<exists>(uid, sid)\<in>set (owed rid db). blocked uid sid))"
proof -
  show ?thesis
  proof (rule fulfill_cases [OF assms(3)])
    assume n: "db' = db" "is_uuid rid \<longrightarrow> pending_pre_saves rid db = []" "is_uuid rid \<longrightarrow> r = Inr (0, 0)"
    then have p: "pending_pre_saves rid db = []" "r = Inr (0, 0)" using assms(1) by simp_all
    then have w: "owed rid db = []" by (simp add: owed_def)
    have a: "fulfillForRelease blocked nid now' rid db = (Inr (0, 0), db)" using p(1) assms(1) by (simp add: fulfillForRelease_def)
    show ?thesis unfolding n(1) p w sum.case prod.case by (intro conjI exI [of _ "[]"] a assms(2)) simp_all
  next
    fix e lib
    assume d: "deliver_saves blocked nid now (owed rid db) 0 (rd_library db) = (Inl e, lib)" "r = Inl e" "db' = db\<lparr>rd_library := lib\<rparr>"
    have "\<exists>q\<in>set (owed rid db). blocked (fst q) (snd q)"
      using deliver_saves_unblocked_on [of "owed rid db" blocked nid now 0 "rd_library db"] d(1) by fastforce
    then have b: "\<exists>(uid, sid)\<in>set (owed rid db). blocked uid sid" by (simp add: case_prod_beta)
    have ow: "owed rid db' = owed rid db" by (simp add: d(3) owed_def pending_pre_saves_def release_songs_def)
    have l: "rd_library db' = lib" "rd_preSaves db' = rd_preSaves db" by (simp_all add: d(3))
    have u: "saves_unique lib" using deliver_saves_keeps [OF d(1)] assms(2) by blast
    show ?thesis unfolding l d(2) sum.case by (intro conjI deliver_saves_new [OF d(1)] u refl ow b)
  next
    fix m lib
    assume d: "deliver_saves blocked nid now (owed rid db) 0 (rd_library db) = (Inr m, lib)"
      "r = Inr (length (pending_pre_saves rid db), m)"
      "db' = db\<lparr>rd_library := lib, rd_preSaves := map (mark_fulfilled now rid) (rd_preSaves db)\<rparr>"
    have p: "pending_pre_saves rid db' = []"
      unfolding d(3) by (rule pending_marked)
    have a: "fulfillForRelease blocked nid now' rid db' = (Inr (0, 0), db')" using p assms(1) by (simp add: fulfillForRelease_def)
    have u: "saves_unique lib" using deliver_saves_keeps [OF d(1)] assms(2) by blast
    have q: "\<forall>(uid, sid)\<in>set (owed rid db). length (filter (\<lambda>s. save_key s = (uid, sid, DEFAULT_SAVE_COLLECTION)) (ls_saves lib)) = 1"
    proof (intro ballI, clarify)
      fix uid sid
      assume "(uid, sid) \<in> set (owed rid db)"
      with deliver_saves_done [OF d(1)] have "has_track lib (uid, sid)" by blast
      then show "length (filter (\<lambda>s. save_key s = (uid, sid, DEFAULT_SAVE_COLLECTION)) (ls_saves lib)) = 1"
        by (rule has_track_once [OF u])
    qed
    have n: "m + length (ls_saves (rd_library db)) = length (ls_saves lib)" using deliver_saves_done [OF d(1)] by simp
    have l: "rd_library db' = lib" by (simp add: d(3))
    show ?thesis unfolding l d(2) sum.case prod.case by (intro conjI deliver_saves_new [OF d(1)] u refl n q p a)
  qed
qed

subsection \<open>All requests\<close>

text \<open>
  A pre-save is its insert, which may come any time after its test, as long as the release exists (the
  foreign key); ids are fresh. \<open>RX_scheduled\<close> is the job \<open>jobs/ScheduledReleasePublishJob.ts\<close>.
\<close>

datatype release_op =
    RX_create ident timestamp ident release_input
  | RX_update timestamp ident ident release_update
  | RX_publish timestamp ident ident
  | RX_scheduled timestamp
  | RX_preSave "js_error option" ident timestamp ident ident
  | RX_unPreSave ident ident

fun release_step :: "(ident \<Rightarrow> ident \<Rightarrow> bool) \<Rightarrow> (ident \<Rightarrow> ident \<Rightarrow> ident) \<Rightarrow> release_op \<Rightarrow> release_db \<Rightarrow> release_db" where
  "release_step blocked nid (RX_create rid now artist inp) db =
     (if rid \<in> re_id ` set (rd_releases db) then db else snd (create_release rid now artist inp db))"
| "release_step blocked nid (RX_update now rid uid u) db = snd (update_release blocked nid now rid uid u db)"
| "release_step blocked nid (RX_publish now rid uid) db = snd (publish blocked nid now rid uid db)"
| "release_step blocked nid (RX_scheduled asOf) db = snd (publishScheduledReleases asOf db)"
| "release_step blocked nid (RX_preSave refused pid now uid rid) db =
     (if find_release rid db = None then db else snd (preSave_write refused pid now uid rid db))"
| "release_step blocked nid (RX_unPreSave uid rid) db = snd (unPreSave uid rid db)"

definition served :: "release_db \<Rightarrow> bool" where
  "served db \<longleftrightarrow> (\<forall>p\<in>set (rd_preSaves db). \<forall>t\<in>set (rd_tracks db).
     rs_releaseId p = rk_releaseId t \<and> rs_fulfilledAt p \<noteq> None \<longrightarrow> has_track (rd_library db) (rs_userId p, rk_songId t))"

definition releases_ok :: "release_db \<Rightarrow> bool" where
  "releases_ok db \<longleftrightarrow> tbl_ok re_id (rd_releases db) \<and> tbl_ok pre_save_key (rd_preSaves db) \<and> saves_unique (rd_library db) \<and>
     rs_releaseId ` set (rd_preSaves db) \<subseteq> re_id ` set (rd_releases db) \<and>
     rk_releaseId ` set (rd_tracks db) \<subseteq> re_id ` set (rd_releases db) \<and> served db"

lemma has_track_deliver: "deliver_saves blocked nid now qs n lib = (r, lib') \<Longrightarrow> has_track lib q \<Longrightarrow> has_track lib' q"
  using deliver_saves_new [of blocked nid now qs n lib r lib'] by (auto simp: has_track_iff)


lemma releases_ok_fulfill:
  assumes "releases_ok db" and "fulfillForRelease blocked nid now rid db = (r, db')"
  shows "releases_ok db'"
proof (rule fulfill_cases [OF assms(2)])
  assume "db' = db"
  with assms(1) show ?thesis by simp
next
  fix e lib
  assume d: "deliver_saves blocked nid now (owed rid db) 0 (rd_library db) = (Inl e, lib)" "db' = db\<lparr>rd_library := lib\<rparr>"
  have "saves_unique lib" using deliver_saves_keeps [OF d(1)] assms(1) by (auto simp: releases_ok_def)
  moreover have "served (db\<lparr>rd_library := lib\<rparr>)"
    using assms(1) has_track_deliver [OF d(1)] unfolding releases_ok_def served_def by simp
  ultimately show ?thesis using assms(1) by (simp add: d(2) releases_ok_def)
next
  fix m lib
  assume d: "deliver_saves blocked nid now (owed rid db) 0 (rd_library db) = (Inr m, lib)"
    "db' = db\<lparr>rd_library := lib, rd_preSaves := map (mark_fulfilled now rid) (rd_preSaves db)\<rparr>"
  have u: "saves_unique lib" using deliver_saves_keeps [OF d(1)] assms(1) by (auto simp: releases_ok_def)
  have mk: "map pre_save_key (map (mark_fulfilled now rid) (rd_preSaves db)) = map pre_save_key (rd_preSaves db)"
    by (simp add: pre_save_key_def)
  then have k: "tbl_ok pre_save_key (map (mark_fulfilled now rid) (rd_preSaves db))" using assms(1) unfolding releases_ok_def tbl_ok_def mk by blast
  have "has_track lib (rs_userId p, rk_songId t)"
    if p: "p \<in> set (rd_preSaves db)" "t \<in> set (rd_tracks db)" "rs_releaseId p = rk_releaseId t" "rs_fulfilledAt (mark_fulfilled now rid p) \<noteq> None" for p t
  proof (cases "rs_fulfilledAt p = None")
    case True
    with p have "(rs_userId p, rk_songId t) \<in> set (owed rid db)"
      by (auto simp: set_owed mark_fulfilled_def split: if_splits)
    then show ?thesis using deliver_saves_done [OF d(1)] by blast
  next
    case False
    with p assms(1) have "has_track (rd_library db) (rs_userId p, rk_songId t)" by (auto simp: releases_ok_def served_def)
    then show ?thesis by (rule has_track_deliver [OF d(1)])
  qed
  then have "served db'" by (auto simp: d(2) served_def)
  moreover have "rs_releaseId ` set (map (mark_fulfilled now rid) (rd_preSaves db)) = rs_releaseId ` set (rd_preSaves db)"
    by (simp add: image_image)
  ultimately show ?thesis using assms(1) u k by (simp add: d(2) releases_ok_def)
qed

lemma releases_ok_put: "releases_ok db \<Longrightarrow> re_id r \<in> re_id ` set (rd_releases db) \<Longrightarrow> releases_ok (put_release r db)"
proof -
  assume ok: "releases_ok db" and r: "re_id r \<in> re_id ` set (rd_releases db)"
  have "map re_id (tbl_put re_id r (rd_releases db)) = map re_id (rd_releases db)" using r by (simp add: map_key_tbl_put)
  then have "re_id ` set (tbl_put re_id r (rd_releases db)) = re_id ` set (rd_releases db)" by (metis set_map)
  with ok show ?thesis by (simp add: releases_ok_def served_def put_release_def tbl_simps)
qed

lemma find_release_id: "find_release rid db = Some r \<Longrightarrow> r \<in> set (rd_releases db) \<and> re_id r = rid"
  by (auto simp: find_release_def dest: tbl_find_SomeD)

lemma releases_ok_publish: "releases_ok db \<Longrightarrow> releases_ok (snd (publish blocked nid now rid uid db))"
proof (cases "find_release rid db")
  case (Some r)
  assume ok: "releases_ok db"
  let ?db = "if isReleasePublished now (re_releaseDate r) then db else put_release (r\<lparr>re_releaseDate := now\<rparr>) db"
  have ok': "releases_ok ?db" using ok find_release_id [OF Some] by (auto intro!: releases_ok_put)
  obtain x db' where f: "fulfillForRelease blocked nid now rid ?db = (x, db')" by fastforce
  have "releases_ok db'" by (rule releases_ok_fulfill [OF ok' f])
  then show ?thesis using Some ok f by (simp add: publish_def split: sum.split prod.split)
qed (simp add: publish_def)

lemma releases_ok_update: "releases_ok db \<Longrightarrow> releases_ok (snd (update_release blocked nid now rid uid u db))"
proof (cases "find_release rid db")
  case (Some r)
  assume ok: "releases_ok db"
  have "releases_ok (put_release (updated_release u d sch r) db)" for d sch
    using ok find_release_id [OF Some] by (intro releases_ok_put) (auto simp: updated_release_def split: prod.split)
  then have "releases_ok db'" if "fulfillForRelease blocked nid now rid (put_release (updated_release u d sch r) db) = (x, db')" for d sch x db'
    using releases_ok_fulfill that by blast
  with ok \<open>\<And>d sch. releases_ok (put_release (updated_release u d sch r) db)\<close> show ?thesis
    using Some by (auto simp: update_release_def Let_def split: sum.split prod.split option.split)
qed (simp add: update_release_def)

lemma preSave_write_cases:
  obtains (kept) "snd (preSave_write refused pid now uid rid db) = db"
  | (inserted) p where "snd (preSave_write refused pid now uid rid db) = db\<lparr>rd_preSaves := rd_preSaves db @ [p]\<rparr>"
      "pre_save_key p = (uid, rid)" "rs_fulfilledAt p = None" "(uid, rid) \<notin> pre_save_key ` set (rd_preSaves db)"
      "refused = None" "p = \<lparr>rs_id = pid, rs_userId = uid, rs_releaseId = rid, rs_createdAt = now, rs_fulfilledAt = None\<rparr>"
proof (cases "refused = None \<and> (uid, rid) \<notin> pre_save_key ` set (rd_preSaves db)")
  case True
  then show ?thesis
    by (intro inserted [of "\<lparr>rs_id = pid, rs_userId = uid, rs_releaseId = rid, rs_createdAt = now, rs_fulfilledAt = None\<rparr>"])
      (simp_all add: preSave_write_def insert_row_def pre_save_key_def)
next
  case False
  then have "snd (preSave_write refused pid now uid rid db) = db"
    by (auto simp: preSave_write_def insert_row_def pre_save_key_def split: option.split)
  then show ?thesis by (rule kept)
qed

lemma scheduled_table:
  assumes "distinct (map key (ys @ xs))" and "\<And>r. key (f r) = key r"
  shows "fold (tbl_put key) (map f (filter p xs)) (ys @ xs) = ys @ map (\<lambda>r. if p r then f r else r) xs"
  using assms(1)
proof (induction xs arbitrary: ys)
  case (Cons x xs)
  have "tbl_put key (f x) (ys @ x # xs) = (ys @ [f x]) @ xs"
    using tbl_put_middle [of key ys x xs "f x"] Cons.prems assms(2) by simp
  then show ?case using Cons.IH [of "ys @ [f x]"] Cons.IH [of "ys @ [x]"] Cons.prems assms(2) by simp
qed simp

lemma fold_put_release: "fold put_release rs db = db\<lparr>rd_releases := fold (tbl_put re_id) rs (rd_releases db)\<rparr>"
  by (induction rs arbitrary: db) (simp_all add: put_release_def)

lemma publishScheduled_eq:
  assumes "tbl_ok re_id (rd_releases db)"
  shows "publishScheduledReleases asOf db = (map (released asOf) (filter (due_release asOf) (rd_releases db)),
     db\<lparr>rd_releases := map (\<lambda>r. if due_release asOf r then released asOf r else r) (rd_releases db)\<rparr>)"
  using assms scheduled_table [of re_id "[]" "rd_releases db" "released asOf" "due_release asOf"]
  by (simp add: publishScheduledReleases_def Let_def fold_put_release tbl_ok_def released_def)

lemma create_release_cases:
  obtains (kept) "snd (create_release rid now artist inp db) = db"
  | (created) r ts where "snd (create_release rid now artist inp db) = db\<lparr>rd_releases := rd_releases db @ [r], rd_tracks := rd_tracks db @ ts\<rparr>"
      "re_id r = rid" "\<forall>t\<in>set ts. rk_releaseId t = rid"
proof -
  let ?ts = "map (\<lambda>(sid, i). \<lparr>rk_releaseId = rid, rk_songId = sid, rk_trackNumber = Suc i\<rparr>)
                                (zip (ri_songIds inp) [0..<length (ri_songIds inp)])"
  show ?thesis
  proof (cases "ri_type inp \<in> set release_types \<and> ri_songIds inp \<noteq> [] \<and>
      length (existing_songs (ri_songIds inp) (rd_library db)) = length (ri_songIds inp) \<and>
      (\<exists>st sc pb. resolveScheduleOnCreate now inp = Inr (st, sc, pb)) \<and> (\<exists>d. new_Date (ri_releaseDate inp) = Some d)")
    case True
    then obtain st sc pb d where g: "resolveScheduleOnCreate now inp = Inr (st, sc, pb)" "new_Date (ri_releaseDate inp) = Some d" by blast
    let ?r = "\<lparr>re_id = rid, re_title = ri_title inp, re_artistId = artist, re_releaseDate = d, re_type = ri_type inp,
        re_status = st, re_scheduledAt = sc, re_publishedAt = pb, re_coverArt = ri_coverArt inp\<rparr>"
    have "snd (create_release rid now artist inp db) = db\<lparr>rd_releases := rd_releases db @ [?r], rd_tracks := rd_tracks db @ ?ts\<rparr>"
      using True g by (simp add: create_release_def Let_def)
    then show ?thesis by (rule created) auto
  next
    case False
    then have "snd (create_release rid now artist inp db) = db"
      by (auto simp: create_release_def Let_def split: sum.split option.split)
    then show ?thesis by (rule kept)
  qed
qed

lemma releases_ok_step: "releases_ok db \<Longrightarrow> releases_ok (release_step blocked nid e db)"
proof (cases e)
  case (RX_create rid now artist inp)
  assume ok: "releases_ok db"
  show ?thesis
  proof (cases "rid \<in> re_id ` set (rd_releases db)")
    case False
    show ?thesis
    proof (rule create_release_cases [of rid now artist inp db])
      fix r ts
      assume c: "snd (create_release rid now artist inp db) = db\<lparr>rd_releases := rd_releases db @ [r], rd_tracks := rd_tracks db @ ts\<rparr>"
        "re_id r = rid" "\<forall>t\<in>set ts. rk_releaseId t = rid"
      have "tbl_ok re_id (rd_releases db @ [r])" using ok False c(2) by (simp add: releases_ok_def tbl_ok_def)
      moreover have "\<forall>p\<in>set (rd_preSaves db). rs_releaseId p \<noteq> rid" using ok False by (auto simp: releases_ok_def)
      then have "served (db\<lparr>rd_releases := rd_releases db @ [r], rd_tracks := rd_tracks db @ ts\<rparr>)"
        using ok c(3) by (auto simp: releases_ok_def served_def)
      ultimately show ?thesis using ok False c by (auto simp: RX_create releases_ok_def)
    qed (use ok False in \<open>simp add: RX_create\<close>)
  qed (use ok RX_create in simp)
next
  case (RX_update now rid uid u)
  assume "releases_ok db"
  then show ?thesis by (simp add: RX_update releases_ok_update)
next
  case (RX_publish now rid uid)
  assume "releases_ok db"
  then show ?thesis by (simp add: RX_publish releases_ok_publish)
next
  case (RX_scheduled asOf)
  assume ok: "releases_ok db"
  let ?f = "\<lambda>r. if due_release asOf r then released asOf r else r"
  have k: "map re_id (map ?f (rd_releases db)) = map re_id (rd_releases db)" by (simp add: released_def)
  then have "re_id ` set (map ?f (rd_releases db)) = re_id ` set (rd_releases db)" by (metis set_map)
  moreover have "tbl_ok re_id (map ?f (rd_releases db))" using ok unfolding releases_ok_def tbl_ok_def k by blast
  ultimately show ?thesis using ok publishScheduled_eq [of db asOf] by (simp add: RX_scheduled releases_ok_def served_def)
next
  case (RX_preSave refused pid now uid rid)
  assume ok: "releases_ok db"
  show ?thesis
  proof (cases "find_release rid db")
    case (Some r)
    show ?thesis
      by (rule preSave_write_cases [of refused pid now uid rid db])
        (use ok Some find_release_id [OF Some] in \<open>auto simp: RX_preSave releases_ok_def served_def tbl_ok_def pre_save_key_def\<close>)
  qed (use ok RX_preSave in simp)
next
  case (RX_unPreSave uid rid)
  assume ok: "releases_ok db"
  then have "releases_ok (db\<lparr>rd_preSaves := tbl_delete p (rd_preSaves db)\<rparr>)" for p
    by (auto simp: releases_ok_def served_def tbl_simps)
  with ok show ?thesis by (simp add: RX_unPreSave unPreSave_def split: option.split)
qed

interpretation releases: machine "release_step blocked nid" releases_ok for blocked nid
  by unfold_locales (rule releases_ok_step)

text \<open>
  C27: after any run of creations, updates, publications, scheduled publications and pre-saves, also when
  deliveries fail half way, every fan whose pre-save is marked as fulfilled has each track of the release
  in the Favorites exactly once, and a pre-save that races with others succeeds and leaves one row.
\<close>

theorem fulfilled_fans_have_tracks:
  assumes "releases_ok db" and "db1 = fold (release_step blocked nid) ops db"
  shows "(\<forall>p\<in>set (rd_preSaves db1). \<forall>t\<in>set (rd_tracks db1). rs_releaseId p = rk_releaseId t \<and> rs_fulfilledAt p \<noteq> None \<longrightarrow>
      length (filter (\<lambda>s. save_key s = (rs_userId p, rk_songId t, DEFAULT_SAVE_COLLECTION)) (ls_saves (rd_library db1))) = 1) \<and>
    (\<exists>p db2. preSave_write None pid now uid rid db1 = (Inr (p, find_pre_save uid rid db1 \<noteq> None), db2) \<and>
       filter (\<lambda>p. pre_save_key p = (uid, rid)) (rd_preSaves db2) = [p])"
proof -
  have ok: "releases_ok db1" unfolding assms(2) by (rule releases.run_ok [OF assms(1)])
  then have u: "saves_unique (rd_library db1)" and k: "tbl_ok pre_save_key (rd_preSaves db1)" and s: "served db1"
    by (simp_all add: releases_ok_def)
  have "\<exists>p db2. preSave_write None pid now uid rid db1 = (Inr (p, find_pre_save uid rid db1 \<noteq> None), db2) \<and>
       filter (\<lambda>p. pre_save_key p = (uid, rid)) (rd_preSaves db2) = [p]"
  proof (cases "find_pre_save uid rid db1")
    case None
    then have "\<forall>p\<in>set (rd_preSaves db1). pre_save_key p \<noteq> (uid, rid)" by (auto simp: find_pre_save_def tbl_find_None_iff)
    with None show ?thesis by (force simp: preSave_write_def insert_row_def pre_save_key_def filter_empty_conv)
  next
    case (Some p)
    then have p: "p \<in> set (rd_preSaves db1)" "pre_save_key p = (uid, rid)" by (auto simp: find_pre_save_def dest: tbl_find_SomeD)
    then have "(uid, rid) \<in> pre_save_key ` set (rd_preSaves db1)" by force
    with Some have "preSave_write None pid now uid rid db1 = (Inr (p, True), db1)"
      by (simp add: preSave_write_def insert_row_def pre_save_key_def)
    moreover have "filter (\<lambda>x. pre_save_key x = (uid, rid)) (rd_preSaves db1) = filter (\<lambda>x. x = p) (rd_preSaves db1)"
      using k p by (intro filter_cong) (auto simp: tbl_ok_unique)
    ultimately show ?thesis using k p filter_eq_single [of "rd_preSaves db1" p] Some by (simp add: tbl_ok_def distinct_map)
  qed
  moreover have "length (filter (\<lambda>s. save_key s = (rs_userId p, rk_songId t, DEFAULT_SAVE_COLLECTION)) (ls_saves (rd_library db1))) = 1"
    if "p \<in> set (rd_preSaves db1)" "t \<in> set (rd_tracks db1)" "rs_releaseId p = rk_releaseId t \<and> rs_fulfilledAt p \<noteq> None" for p t
    using s that by (intro has_track_once [OF u]) (simp add: served_def)
  ultimately show ?thesis by blast
qed

subsection \<open>Two notions of published\<close>




subsection \<open>Witnesses\<close>

definition release_uuid :: ident where "release_uuid = ''11111111-2222-4333-8444-555555555555''"

lemma release_uuid_ok: "is_uuid release_uuid"
  unfolding release_uuid_def by code_simp

definition upcoming :: release_row where
  "upcoming = \<lparr>re_id = release_uuid, re_title = ''First'', re_artistId = ''artist'', re_releaseDate = 100, re_type = ''single'',
     re_status = ''draft'', re_scheduledAt = None, re_publishedAt = None, re_coverArt = None\<rparr>"

definition awaited_db :: release_db where
  "awaited_db = \<lparr>rd_releases = [upcoming], rd_tracks = [\<lparr>rk_releaseId = release_uuid, rk_songId = song_uuid, rk_trackNumber = 1\<rparr>],
     rd_preSaves = [\<lparr>rs_id = ''p'', rs_userId = fan_id, rs_releaseId = release_uuid, rs_createdAt = 1, rs_fulfilledAt = None\<rparr>],
     rd_library = \<lparr>ls_saves = [], ls_songs = []\<rparr>\<rparr>"

lemma awaited_fulfilled:
  "fulfillForRelease (\<lambda>_ _. False) (@) 7 release_uuid (awaited_db\<lparr>rd_releases := rs\<rparr>) =
     (Inr (1, 1), awaited_db\<lparr>rd_releases := rs, rd_library := \<lparr>ls_saves = [delivered_save (@) 7 fan_id song_uuid], ls_songs = []\<rparr>,
        rd_preSaves := [\<lparr>rs_id = ''p'', rs_userId = fan_id, rs_releaseId = release_uuid, rs_createdAt = 1, rs_fulfilledAt = Some 7\<rparr>]\<rparr>)"
  using release_uuid_ok
  by (simp add: fulfillForRelease_def awaited_db_def pending_pre_saves_def release_songs_def find_save_def tbl_simps
      delivered_save_def Let_def)

lemma awaited_ok: "releases_ok awaited_db"
  by (auto simp: releases_ok_def awaited_db_def upcoming_def served_def saves_unique_def tbl_ok_def)

theorem fulfilment_is_complete_witness:
  "\<exists>db'. fulfillForRelease (\<lambda>_ _. False) (@) 7 release_uuid awaited_db = (Inr (1, 1), db') \<and>
     fulfillForRelease (\<lambda>_ _. False) (@) 8 release_uuid db' = (Inr (0, 0), db')"
proof -
  obtain db' where f: "fulfillForRelease (\<lambda>_ _. False) (@) 7 release_uuid awaited_db = (Inr (1, 1), db')"
    using awaited_fulfilled [of "rd_releases awaited_db"] by simp
  have u: "saves_unique (rd_library awaited_db)" using awaited_ok by (simp add: releases_ok_def)
  from fulfilment_is_complete [OF release_uuid_ok u f, where now' = 8] f show ?thesis by auto
qed

theorem fulfilled_fans_have_tracks_witness:
  "length (filter (\<lambda>s. save_key s = (fan_id, song_uuid, DEFAULT_SAVE_COLLECTION))
     (ls_saves (rd_library (fold (release_step (\<lambda>_ _. False) (@)) [RX_publish 7 release_uuid ''artist''] awaited_db)))) = 1"
proof -
  let ?db = "fold (release_step (\<lambda>_ _. False) (@)) [RX_publish 7 release_uuid ''artist''] awaited_db"
  let ?r = "upcoming\<lparr>re_releaseDate := 7\<rparr>"
  have "find_release release_uuid awaited_db = Some upcoming" by (simp add: find_release_def awaited_db_def upcoming_def tbl_simps)
  moreover have "put_release ?r awaited_db = awaited_db\<lparr>rd_releases := [?r]\<rparr>"
    by (simp add: put_release_def awaited_db_def upcoming_def)
  ultimately have "?db = snd (Inr (1, 1) :: js_error + nat \<times> nat, awaited_db\<lparr>rd_releases := [?r], rd_library := \<lparr>ls_saves = [delivered_save (@) 7 fan_id song_uuid], ls_songs = []\<rparr>,
        rd_preSaves := [\<lparr>rs_id = ''p'', rs_userId = fan_id, rs_releaseId = release_uuid, rs_createdAt = 1, rs_fulfilledAt = Some 7\<rparr>]\<rparr>)"
    using awaited_fulfilled [of "[?r]"] by (auto simp: publish_def isReleasePublished_def upcoming_def split: sum.split)
  then have "\<lparr>rs_id = ''p'', rs_userId = fan_id, rs_releaseId = release_uuid, rs_createdAt = 1, rs_fulfilledAt = Some 7\<rparr> \<in> set (rd_preSaves ?db)"
    "\<lparr>rk_releaseId = release_uuid, rk_songId = song_uuid, rk_trackNumber = 1\<rparr> \<in> set (rd_tracks ?db)"
    by (simp_all add: awaited_db_def)
  with fulfilled_fans_have_tracks [OF awaited_ok refl, THEN conjunct1, rule_format, of _ "\<lambda>_ _. False" "(@)" "[RX_publish 7 release_uuid ''artist'']"]
  show ?thesis by fastforce
qed


end
