(* ===== verification/Spec2Isabelle.thy ===== *)
theory Spec2Isabelle
  imports AppErrors Circuit_Breaker Privy_Resilience Event_Queue Reorg_Guard Soroban_Events Indexed_Events
    Indexer_Service Indexer_Worker Backfill Event_Projector Playlists Subscriptions Moderation Content_Reports
    Takedowns Job_Queue Collaborations Royalties Soroban_Calls Auth_Accounts Jwks_Cache
    Request_Auth Account_Deletion Account_Merge Webhooks Song_Worker Api_Keys Releases
begin

text \<open>
  A verification development for the AudioBlocks backend: the services under \<open>src/src\<close> of the
  repository, which keep the relational state of a music platform and mirror the events of its Soroban
  contracts. The code is TypeScript over TypeORM; each theory translates one component.

  How the code is modelled. A table is the list of its rows (\<open>Prelude\<close>), an entity a record with the
  columns the component uses, an enum a datatype. A service method is a function from its arguments,
  the clock and the state to a result and the new state; a \<open>throw\<close> is the left summand of the result
  (\<open>AppErrors\<close>), and the state it leaves is the one the statements before it produced. Ids the database
  generates, the clock, and services that are not in the repository (the RPC node, the AI provider, the
  database's acceptance of a write where the code's error path depends on it) are arguments. A string
  is a list of characters; numbers are mathematical integers, which is exact for the ranges the code
  uses, except where the database hands a \<open>bigint\<close> to JavaScript as a string (\<open>js_num\<close>). Requests are
  atomic unless a theory says otherwise; the event queue, the two breakers, the RPC gate, the key cache, the
  race in the event store and the one between two refreshes are modelled step by step.

  The theories, with the files they model.
  \<^item> \<open>AppErrors\<close>: \<open>errors/AppError.ts\<close>, \<open>utils/helpers.ts\<close>, \<open>types/OnChainErrorCodes.ts\<close>. Error values
    and their HTTP form; the on-chain rule table as a first match.
  \<^item> \<open>Soroban_Events\<close>: \<open>services/Soroban/eventDecoders.ts\<close>, \<open>SorobanEventReader.ts\<close>,
    \<open>IndexerContractRegistry.ts\<close>. \<open>Reorg_Guard\<close>: \<open>IndexerReorgGuard.ts\<close>. \<open>Event_Queue\<close>:
    \<open>workers/indexer/BoundedEventQueue.ts\<close>. \<open>Indexed_Events\<close>: \<open>services/IndexedEventService.ts\<close> over the
    locale \<open>event_sink\<close>. \<open>Indexer_Service\<close>: cursors and backfill records. \<open>Indexer_Worker\<close>: the poll
    cycle that joins them. \<open>Backfill\<close>: the import of a ledger range. \<open>Event_Projector\<close>: read models over
    the locale \<open>event_projection\<close>. Together: what is stored, stored once, in order, and where an event
    can be lost.
  \<^item> \<open>Circuit_Breaker\<close>: \<open>utils/circuitBreaker.ts\<close>; \<open>Privy_Resilience\<close>: \<open>services/privy/PrivyResilience.ts\<close>.
    Breakers as state machines over interleaved calls and timers, and the retry loop.
  \<^item> \<open>Playlists\<close>: \<open>services/PlaylistService.ts\<close>. Access, order and well-formedness.
  \<^item> \<open>Subscriptions\<close>: \<open>services/SubscriptionService.ts\<close>. Tiers, trials and expiry.
  \<^item> \<open>Moderation\<close>, \<open>Content_Reports\<close>, \<open>Takedowns\<close>: \<open>services/Song/SongModerationService.ts\<close>,
    \<open>services/ReportService.ts\<close>, \<open>services/TakedownService.ts\<close>, three services that write the same flag
    of a song. Takedowns write audit entries without the required user, which the database refuses, so no
    request is ever completed.
  \<^item> \<open>Job_Queue\<close>: \<open>services/JobQueueService.ts\<close> with its worker. Redis lists and records as a machine whose
    steps are the service's, the worker's and the environment's (timers, expiry); a restart is a step apart.
  \<^item> \<open>Collaborations\<close>: \<open>services/CollaborationService.ts\<close>; \<open>Royalties\<close>: \<open>services/RoyaltyPayoutService.ts\<close> with
    the event reader of \<open>services/Soroban/SorobanService.ts\<close>. The shares of a song, the split of a sale computed
    from them, and the comparison with what the contract paid.

  \<^item> \<open>Soroban_Calls\<close>: \<open>services/Soroban/SorobanService.ts\<close>. The semaphore and back-off around every RPC call, and
    the submission of a signed transaction.
  \<^item> \<open>Users\<close>: \<open>entities/User.ts\<close>, with what \<open>save\<close> leaves in a row. \<open>Auth_Sessions\<close>, \<open>Auth_Accounts\<close>:
    \<open>services/AuthService.ts\<close>. Refresh token families as a machine, a refresh also split at its await; registration,
    the three logins, second factors, password reset.
  \<^item> \<open>Jwks_Cache\<close>: \<open>services/privy/PrivyJwksCache.ts\<close>, \<open>PrivyErrors.ts\<close>, \<open>config/privyAuth.ts\<close>. The cache of the identity
    provider's keys with overlapping callers and one fetch in flight. \<open>Request_Auth\<close>: \<open>middlewares/authMiddleware.ts\<close>,
    \<open>privyMiddleware.ts\<close> with the flags, permissions, token verifier, account resolver and revocations they use: which
    credential lets a request in, and what an outage answers.
  \<^item> \<open>Account_Deletion\<close>: \<open>services/AccountDeletionService.ts\<close>, \<open>privy/PrivyIdentityService.ts\<close>. Requests with their grace
    period, the export, and the erasure statement by statement. \<open>Account_Merge\<close>: \<open>services/AccountMergeService.ts\<close>.
  \<^item> \<open>Notifications\<close>: \<open>services/NotificationService.ts\<close>. \<open>Webhooks\<close>: \<open>services/WebhookService.ts\<close>. Signed deliveries with retries,
    split at their awaits, and the switch-off of an endpoint that keeps failing.
  \<^item> \<open>Royalty_Templates\<close>: \<open>services/RoyaltyTemplateService.ts\<close>. \<open>Song_Versions\<close>: \<open>services/Song/SongVersionService.ts\<close>
    with the song row. \<open>Song_Uploads\<close>, \<open>Song_Catalogue\<close>: \<open>services/SongService.ts\<close>, \<open>services/ScanService.ts\<close>. Chunks, merge,
    scan and bucket; edits, mint, reads and search. \<open>Song_Worker\<close>: \<open>workers/SongProcessorWorker.ts\<close>, \<open>utils/gracefulShutdown.ts\<close>.
    Jobs with their retries, the drain of a shutdown, and the life of a song across all of them: none becomes ready.
  \<^item> \<open>Request_Limits\<close>: \<open>middlewares/rateLimiter.ts\<close>, \<open>idempotency.ts\<close>. The sliding window in Redis and in memory, both
    instances of one locale, against a reference on the whole history. \<open>Api_Keys\<close>: \<open>services/ApiKeyService.ts\<close> with its
    middleware. Issue, validation under the limiter, revocation.
  \<^item> \<open>Validators\<close>: \<open>validators/ServiceValidator.ts\<close>. \<open>Library\<close>: \<open>services/SaveService.ts\<close>. Saved songs, a save split at
    its await, and the reads that must agree. \<open>Releases\<close>: \<open>services/ReleaseService.ts\<close>, \<open>services/PreSaveService.ts\<close>. Pre-saves,
    their delivery into the libraries, and the two ways a release is published.

  Interfaces. \<open>keyed_store\<close> (a table read and written by key) and \<open>machine\<close> (a component whose requests
  are its steps, with an invariant every step keeps) are in \<open>Prelude\<close> and are interpreted on the tables
  and step functions of the components; \<open>event_sink\<close> and \<open>event_projection\<close> are interpreted on the
  event store and the event counts.

  Loops. Recursion over data is structural. The queue flush and the page loop of the worker and the range loop
  of a backfill, which may not end, are \<open>partial_function (option)\<close>: \<open>flush_returns_iff\<close>, \<open>poll_returns_and_isolates\<close>
  and \<open>backfill_returns_without_marker\<close> say when they return. The paging of the projector recurses on a measure.

  Simplifications. Writes whose failure no property is about succeed: the cursor and progress writes of the indexer,
  the two writes of a version change. Rows that a query's ORDER BY leaves tied keep one order, and ILIKE and
  \<open>toLowerCase\<close> fold ASCII letters only. An id that is not a UUID is an id without a row, where Postgres refuses the
  query, unless the service validates it. A catch-up of the projector works with one cutoff, where the source computes
  it for each batch. Shares are rational numbers. A refresh token is decoded text, so the test for an empty text in
  \<open>privyRefreshToken\<close>, which the handler makes as well, has no case. The result of a mint is a pair of ids or nothing.

  Not modelled: controllers, routes, DTOs and OpenAPI files (HTTP glue over the services), migrations and
  entities no modelled service uses, logging, metrics and tracing, the media pipeline (ffmpeg, HLS, S3,
  IPFS), the AI services (prompts around a third-party provider) and the remaining services listed in the
  manifest. They are left for lack of a contract the source itself states, or for a later extension.
\<close>

end
